(* ===== verification/Py_Prelude.thy ===== *)
theory Py_Prelude
  imports Main "HOL-Library.AList" "HOL-Library.Sublist" "HOL-Library.Char_ord"
    "HOL-Library.List_Lexorder"
begin

text \<open>
  Values and library functions the ClearWright tools use throughout.

  The tools are Python programs over JSON documents. A JSON value is a \<open>json\<close> below; an
  object keeps Python's insertion order as an association list, \<open>jget\<close> is \<open>dict.get\<close> (a missing
  key reads as null, exactly what \<open>.get(k)\<close> returns) and \<open>jput\<close> is \<open>d[k] = v\<close>. A float is
  kept as the decimal \<open>m * 10 ^ e\<close> that its shortest representation prints. Strings are lists of
  characters, one per code point below 256. The Python built-ins used by the tools (truth value,
  \<open>str\<close>, \<open>strip\<close>, \<open>lower\<close>, \<open>int\<close>, \<open>float\<close>) are defined on these values.
\<close>

section \<open>Proof-automation collections\<close>

named_theorems py_simps \<open>rewrite rules for Python built-ins and dictionaries\<close>
named_theorems cw_defs \<open>definitions of small guards that proofs usually unfold\<close>

section \<open>JSON values\<close>

datatype json =
    JNull
  | JBool bool
  | JInt int
  | JFloat int int
  | JStr string
  | JArr "json list"
  | JObj "(string \<times> json) list"

type_synonym jobj = "(string \<times> json) list"

text \<open>\<open>dict.get\<close> and item assignment.\<close>

definition jget :: "jobj \<Rightarrow> string \<Rightarrow> json" where
  "jget ob k = (case map_of ob k of None \<Rightarrow> JNull | Some v \<Rightarrow> v)"

abbreviation jput :: "string \<Rightarrow> json \<Rightarrow> jobj \<Rightarrow> jobj" where
  "jput \<equiv> AList.update"

text \<open>\<open>k in d\<close>: a present key, whatever its value.\<close>

definition jhas :: "jobj \<Rightarrow> string \<Rightarrow> bool" where
  "jhas ob k = (k \<in> set (map fst ob))"

lemma jget_jput [simp, py_simps]: "jget (jput k v ob) k' = (if k = k' then v else jget ob k')"
  by (simp add: jget_def update_conv)

lemma jget_Nil [simp]: "jget [] k = JNull"
  by (simp add: jget_def)

lemma jget_Cons [py_simps]: "jget ((k, v) # ob) k' = (if k = k' then v else jget ob k')"
  by (simp add: jget_def)

lemma jget_nonnull_has: "jget ob k \<noteq> JNull \<Longrightarrow> jhas ob k"
  by (auto simp: jget_def jhas_def split: option.splits dest: map_of_SomeD)
    (metis fst_conv image_eqI map_of_SomeD)

lemma jhas_jput [simp]: "jhas (jput k v ob) k' \<longleftrightarrow> k = k' \<or> jhas ob k'"
  by (induction ob) (auto simp: jhas_def)

lemma jhas_iff_map_of: "jhas ob k \<longleftrightarrow> map_of ob k \<noteq> None"
  by (simp add: jhas_def map_of_eq_None_iff)

text \<open>The fields of a value that is not an object read as null; \<open>obj_of\<close> is the view of a value
  the code treats as a dictionary after \<open>(x or \<lbrace>\<rbrace>)\<close>.\<close>

fun obj_of :: "json \<Rightarrow> jobj" where
  "obj_of (JObj ob) = ob"
| "obj_of _ = []"

fun arr_of :: "json \<Rightarrow> json list" where
  "arr_of (JArr xs) = xs"
| "arr_of _ = []"

fun is_obj :: "json \<Rightarrow> bool" where
  "is_obj (JObj _) = True"
| "is_obj _ = False"

fun is_arr :: "json \<Rightarrow> bool" where
  "is_arr (JArr _) = True"
| "is_arr _ = False"

fun is_str :: "json \<Rightarrow> bool" where
  "is_str (JStr _) = True"
| "is_str _ = False"

text \<open>\<open>isinstance(x, int)\<close> accepts booleans: \<open>bool\<close> is a subclass of \<open>int\<close>.\<close>

fun is_int :: "json \<Rightarrow> bool" where
  "is_int (JInt _) = True"
| "is_int (JBool _) = True"
| "is_int _ = False"

lemma is_obj_iff: "is_obj j \<longleftrightarrow> (\<exists>ob. j = JObj ob)"
  by (cases j) auto

lemma is_arr_iff: "is_arr j \<longleftrightarrow> (\<exists>xs. j = JArr xs)"
  by (cases j) auto

lemma is_str_iff: "is_str j \<longleftrightarrow> (\<exists>s. j = JStr s)"
  by (cases j) auto

text \<open>Python's truth value of a JSON value.\<close>

fun truthy :: "json \<Rightarrow> bool" where
  "truthy JNull = False"
| "truthy (JBool b) = b"
| "truthy (JInt i) = (i \<noteq> 0)"
| "truthy (JFloat m e) = (m \<noteq> 0)"
| "truthy (JStr s) = (s \<noteq> [])"
| "truthy (JArr xs) = (xs \<noteq> [])"
| "truthy (JObj ob) = (ob \<noteq> [])"

text \<open>\<open>a or b\<close>.\<close>

definition py_or :: "json \<Rightarrow> json \<Rightarrow> json" where
  "py_or a b = (if truthy a then a else b)"

lemma truthy_JNull_iff: "truthy j \<Longrightarrow> j \<noteq> JNull"
  by auto

text \<open>\<open>x is True\<close>.\<close>

definition is_True :: "json \<Rightarrow> bool" where
  "is_True j = (j = JBool True)"

declare is_True_def [cw_defs]

section \<open>Strings\<close>

text \<open>Whitespace of \<open>str.strip\<close> and \<open>str.split\<close> among the code points below 256.\<close>

definition is_ws :: "char \<Rightarrow> bool" where
  "is_ws c = (let n = of_char c :: nat in
     (9 \<le> n \<and> n \<le> 13) \<or> (28 \<le> n \<and> n \<le> 32) \<or> n = 133 \<or> n = 160)"

definition lstrip :: "string \<Rightarrow> string" where
  "lstrip s = dropWhile is_ws s"

definition strip :: "string \<Rightarrow> string" where
  "strip s = rev (lstrip (rev (lstrip s)))"

definition blank :: "string \<Rightarrow> bool" where
  "blank s = (strip s = [])"

lemma lstrip_Nil_iff: "lstrip s = [] \<longleftrightarrow> (\<forall>c \<in> set s. is_ws c)"
  by (simp add: lstrip_def dropWhile_eq_Nil_conv)

lemma lstrip_hd: "lstrip s \<noteq> [] \<Longrightarrow> \<not> is_ws (hd (lstrip s))"
  by (simp add: lstrip_def hd_dropWhile)

lemma lstrip_fixed: "s = [] \<or> \<not> is_ws (hd s) \<Longrightarrow> lstrip s = s"
  by (cases s) (auto simp: lstrip_def)

lemma blank_iff: "blank s \<longleftrightarrow> (\<forall>c \<in> set s. is_ws c)"
proof
  assume b: "blank s"
  show "\<forall>c \<in> set s. is_ws c"
  proof (rule ccontr)
    assume n: "\<not> (\<forall>c \<in> set s. is_ws c)"
    then have ne: "lstrip s \<noteq> []" by (simp add: lstrip_Nil_iff)
    then have "\<not> is_ws (hd (lstrip s))" and "hd (lstrip s) \<in> set (lstrip s)"
      using lstrip_hd [of s] by auto
    then have "lstrip (rev (lstrip s)) \<noteq> []"
      by (auto simp: lstrip_Nil_iff [of "rev (lstrip s)"])
    with b show False by (simp add: blank_def strip_def)
  qed
next
  assume "\<forall>c \<in> set s. is_ws c"
  then have "lstrip s = []" by (simp add: lstrip_Nil_iff)
  then show "blank s" by (simp add: blank_def strip_def) (simp add: lstrip_def)
qed

lemma strip_Nil [simp]: "strip [] = []"
  by (simp add: strip_def lstrip_def)

lemma strip_ends:
  assumes "strip s \<noteq> []"
  shows "\<not> is_ws (hd (strip s))" and "\<not> is_ws (last (strip s))"
proof -
  let ?t = "lstrip s"
  have t: "?t \<noteq> []"
  proof
    assume "?t = []"
    then have "strip s = []" by (simp add: strip_def) (simp add: lstrip_def)
    with assms show False ..
  qed
  have r: "lstrip (rev ?t) \<noteq> []" using assms by (simp add: strip_def)
  obtain u where u: "rev ?t = u @ lstrip (rev ?t)"
    by (metis lstrip_def takeWhile_dropWhile_id)
  then have "?t = strip s @ rev u"
    by (metis rev_append rev_rev_ident strip_def)
  then have "hd (strip s) = hd ?t" using assms by (metis hd_append2)
  then show "\<not> is_ws (hd (strip s))" using lstrip_hd [OF t] by simp
  show "\<not> is_ws (last (strip s))"
    using lstrip_hd [OF r] r by (simp add: strip_def last_rev)
qed

lemma strip_strip [simp]: "strip (strip s) = strip s"
proof (cases "strip s = []")
  case True
  then show ?thesis by simp
next
  case False
  then have "lstrip (strip s) = strip s" and "lstrip (rev (strip s)) = rev (strip s)"
    using strip_ends [OF False] by (auto intro!: lstrip_fixed simp: hd_rev)
  then show ?thesis by (subst strip_def) simp
qed

lemma blank_strip [simp]: "blank (strip s) = blank s"
  by (simp add: blank_def)

text \<open>\<open>str.lower\<close> on the code points below 256.\<close>

definition lower_char :: "char \<Rightarrow> char" where
  "lower_char c = (let n = of_char c :: nat in
     if (65 \<le> n \<and> n \<le> 90) \<or> (192 \<le> n \<and> n \<le> 222 \<and> n \<noteq> 215) then char_of (n + 32) else c)"

definition lower :: "string \<Rightarrow> string" where
  "lower s = map lower_char s"

lemma length_lower [simp]: "length (lower s) = length s"
  by (simp add: lower_def)

text \<open>Decimal representation of integers.\<close>

definition digit_char :: "nat \<Rightarrow> char" where
  "digit_char d = char_of (48 + d)"

fun nat_digits :: "nat \<Rightarrow> string" where
  "nat_digits n = (if n < 10 then [digit_char n]
     else nat_digits (n div 10) @ [digit_char (n mod 10)])"

declare nat_digits.simps [simp del]

definition str_nat :: "nat \<Rightarrow> string" where
  "str_nat n = nat_digits n"

definition str_int :: "int \<Rightarrow> string" where
  "str_int i = (if i < 0 then CHR ''-'' # nat_digits (nat (- i)) else nat_digits (nat i))"

lemma digit_char_inj: "a < 10 \<Longrightarrow> b < 10 \<Longrightarrow> digit_char a = digit_char b \<longleftrightarrow> a = b"
proof -
  assume "a < 10" "b < 10"
  moreover have "of_char (digit_char a) = (48 + a :: nat)" if "a < 10" for a
    using that by (simp add: digit_char_def)
  ultimately show ?thesis by (metis add_left_cancel)
qed

lemma nat_digits_nonempty [simp]: "nat_digits n \<noteq> []"
  by (subst nat_digits.simps) simp

lemma nat_digits_small: "n < 10 \<Longrightarrow> nat_digits n = [digit_char n]"
  by (subst nat_digits.simps) simp

lemma nat_digits_large:
  "\<not> n < 10 \<Longrightarrow> nat_digits n = nat_digits (n div 10) @ [digit_char (n mod 10)]"
  by (subst nat_digits.simps) simp

lemma nat_digits_nonempty' [simp]: "[] \<noteq> nat_digits n"
  by (metis nat_digits_nonempty)

lemma nat_digits_inj: "nat_digits m = nat_digits n \<Longrightarrow> m = n"
proof (induction m arbitrary: n rule: nat_digits.induct)
  case (1 m)
  consider (small) "m < 10" "n < 10" | (mixed) "(m < 10) \<noteq> (n < 10)"
    | (large) "\<not> m < 10" "\<not> n < 10" by blast
  then show ?case
  proof cases
    case small
    with "1.prems" show ?thesis by (simp add: nat_digits_small digit_char_inj)
  next
    case mixed
    with "1.prems" have False
      by (cases "m < 10") (auto simp: nat_digits_small nat_digits_large)
    then show ?thesis ..
  next
    case large
    with "1.prems" have "nat_digits (m div 10) = nat_digits (n div 10)"
      and "digit_char (m mod 10) = digit_char (n mod 10)"
      by (simp_all add: nat_digits_large)
    then have "m div 10 = n div 10" and "m mod 10 = n mod 10"
      using "1.IH" [OF large(1)] by (auto simp: digit_char_inj)
    then show ?thesis by (metis div_mult_mod_eq)
  qed
qed

lemma nat_digits_are_digits: "c \<in> set (nat_digits n) \<Longrightarrow> \<exists>d < 10. c = digit_char d"
proof (induction n rule: nat_digits.induct)
  case (1 n)
  then show ?case
    by (subst (asm) (2) nat_digits.simps) (auto split: if_splits intro: exI [of _ "n mod 10"])
qed


lemma str_nat_inj [simp]: "str_nat m = str_nat n \<longleftrightarrow> m = n"
  by (auto simp: str_nat_def dest: nat_digits_inj)

definition is_digit :: "char \<Rightarrow> bool" where
  "is_digit c = (48 \<le> (of_char c :: nat) \<and> (of_char c :: nat) \<le> 57)"

definition digit_val :: "char \<Rightarrow> int" where
  "digit_val c = of_char c - 48"

definition digits_val :: "string \<Rightarrow> int" where
  "digits_val ds = foldl (\<lambda>a c. 10 * a + digit_val c) 0 ds"

text \<open>\<open>sep.join(xs)\<close>.\<close>

fun join :: "string \<Rightarrow> string list \<Rightarrow> string" where
  "join sep [] = []"
| "join sep [x] = x"
| "join sep (x # y # r) = x @ sep @ join sep (y # r)"

section \<open>Representation and conversion\<close>

text \<open>\<open>repr\<close> of a string: single quotes unless the text has a single quote and no double one.\<close>

definition quote_of :: "string \<Rightarrow> char" where
  "quote_of s = (if CHR 0x27 \<in> set s \<and> CHR 0x22 \<notin> set s then CHR 0x22 else CHR 0x27)"

definition hex_char :: "nat \<Rightarrow> char" where
  "hex_char d = (if d < 10 then char_of (48 + d) else char_of (87 + d))"

definition escape_char :: "char \<Rightarrow> char \<Rightarrow> string" where
  "escape_char q c = (let n = of_char c :: nat in
     if c = q \<or> c = CHR 0x5C then [CHR 0x5C, c]
     else if c = CHR 0x0A then [CHR 0x5C, CHR ''n'']
     else if c = CHR 0x0D then [CHR 0x5C, CHR ''r'']
     else if c = CHR 0x09 then [CHR 0x5C, CHR ''t'']
     else if n < 32 \<or> (127 \<le> n \<and> n \<le> 160) \<or> n = 173
       then [CHR 0x5C, CHR ''x'', hex_char (n div 16), hex_char (n mod 16)]
     else [c])"

definition repr_str :: "string \<Rightarrow> string" where
  "repr_str s = (let q = quote_of s in q # concat (map (escape_char q) s) @ [q])"

text \<open>\<open>repr\<close> of a float: fixed notation while the decimal point lies within 16 places.\<close>

definition float_repr :: "int \<Rightarrow> int \<Rightarrow> string" where
  "float_repr m e =
     (let sg = (if m < 0 then ''-'' else []);
          all = nat_digits (nat \<bar>m\<bar>);
          ds = rev (dropWhile (\<lambda>c. c = CHR ''0'') (rev all));
          pt = int (length all) + e;
          n = int (length ds)
      in if m = 0 then ''0.0''
         else if - 4 < pt \<and> pt \<le> 0 then sg @ ''0.'' @ replicate (nat (- pt)) (CHR ''0'') @ ds
         else if 0 < pt \<and> pt \<le> 16 then
           (if n \<le> pt then sg @ ds @ replicate (nat (pt - n)) (CHR ''0'') @ ''.0''
            else sg @ take (nat pt) ds @ ''.'' @ drop (nat pt) ds)
         else let x = pt - 1; xs = nat_digits (nat \<bar>x\<bar>)
              in sg @ take 1 ds @ (if n = 1 then [] else ''.'' @ drop 1 ds) @ ''e'' @
                 (if x < 0 then ''-'' else ''+'') @ (if length xs = 1 then ''0'' @ xs else xs))"

fun py_repr :: "json \<Rightarrow> string" where
  "py_repr JNull = ''None''"
| "py_repr (JBool b) = (if b then ''True'' else ''False'')"
| "py_repr (JInt i) = str_int i"
| "py_repr (JFloat m e) = float_repr m e"
| "py_repr (JStr s) = repr_str s"
| "py_repr (JArr xs) = ''['' @ join '', '' (map py_repr xs) @ '']''"
| "py_repr (JObj ob) =
     ''{'' @ join '', '' (map (\<lambda>kv. repr_str (fst kv) @ '': '' @ py_repr (snd kv)) ob) @ ''}''"

text \<open>\<open>str(x)\<close>.\<close>

fun py_str :: "json \<Rightarrow> string" where
  "py_str (JStr s) = s"
| "py_str j = py_repr j"

text \<open>\<open>str(x or "")\<close> with the surrounding whitespace removed, the tools' usual field cleaning.\<close>

definition clean :: "json \<Rightarrow> string" where
  "clean j = strip (py_str (py_or j (JStr [])))"

lemma clean_JNull [simp]: "clean JNull = []"
  by (simp add: clean_def py_or_def)

lemma clean_JStr [simp]: "clean (JStr s) = strip s"
  by (simp add: clean_def py_or_def)

text \<open>Numbers: \<open>float(x)\<close> gives a finite decimal, a non-finite value, or raises.\<close>

datatype pyfloat = Fin int int | NonFinite

definition dec_le :: "int \<Rightarrow> int \<Rightarrow> int \<Rightarrow> int \<Rightarrow> bool" where
  "dec_le m1 e1 m2 e2 = (let k = min e1 e2 in m1 * 10 ^ nat (e1 - k) \<le> m2 * 10 ^ nat (e2 - k))"

definition dec_less :: "int \<Rightarrow> int \<Rightarrow> int \<Rightarrow> int \<Rightarrow> bool" where
  "dec_less m1 e1 m2 e2 = (\<not> dec_le m2 e2 m1 e1)"

text \<open>Digit groups may be separated by single underscores.\<close>

fun plain_digits :: "string \<Rightarrow> string option" where
  "plain_digits [] = None"
| "plain_digits [c] = (if is_digit c then Some [c] else None)"
| "plain_digits (c # d # r) =
     (if \<not> is_digit c then None
      else if d = CHR ''_'' then map_option ((#) c) (plain_digits r)
      else map_option ((#) c) (plain_digits (d # r)))"

definition split_sign :: "string \<Rightarrow> bool \<times> string" where
  "split_sign s = (case s of c # r \<Rightarrow> if c = CHR ''-'' then (True, r)
      else if c = CHR ''+'' then (False, r) else (False, s) | [] \<Rightarrow> (False, []))"

definition parse_int :: "string \<Rightarrow> int option" where
  "parse_int s = (let (neg, t) = split_sign (strip s) in
     map_option (\<lambda>ds. if neg then - digits_val ds else digits_val ds) (plain_digits t))"

definition opt_digits :: "string \<Rightarrow> string option" where
  "opt_digits s = (if s = [] then Some [] else plain_digits s)"

definition parse_float :: "string \<Rightarrow> pyfloat option" where
  "parse_float s =
     (let (neg, t) = split_sign (strip s);
          mp = takeWhile (\<lambda>c. c \<noteq> CHR ''e'' \<and> c \<noteq> CHR ''E'') t;
          ep = drop (length mp) t;
          ip = takeWhile (\<lambda>c. c \<noteq> CHR ''.'') mp;
          fp = drop (Suc (length ip)) mp
      in if lower t \<in> {''inf'', ''infinity'', ''nan''} then Some NonFinite
         else if ip = [] \<and> fp = [] then None
         else case (opt_digits ip, opt_digits fp) of
           (Some i, Some f) \<Rightarrow>
             (let m = digits_val (i @ f); sm = (if neg then - m else m) in
              if ep = [] then Some (Fin sm (- int (length f)))
              else let (xn, xt) = split_sign (tl ep) in
                map_option (\<lambda>x. Fin sm ((if xn then - digits_val x else digits_val x)
                    - int (length f))) (plain_digits xt))
         | _ \<Rightarrow> None)"

fun py_float :: "json \<Rightarrow> pyfloat option" where
  "py_float (JBool b) = Some (Fin (if b then 1 else 0) 0)"
| "py_float (JInt i) = Some (Fin i 0)"
| "py_float (JFloat m e) = Some (Fin m e)"
| "py_float (JStr s) = parse_float s"
| "py_float _ = None"

text \<open>\<open>int(x)\<close>: truncates a float towards zero; \<open>None\<close> where Python raises.\<close>

fun py_int :: "json \<Rightarrow> int option" where
  "py_int (JBool b) = Some (if b then 1 else 0)"
| "py_int (JInt i) = Some i"
| "py_int (JFloat m e) =
     Some (if 0 \<le> e then m * 10 ^ nat e else sgn m * (\<bar>m\<bar> div 10 ^ nat (- e)))"
| "py_int (JStr s) = parse_int s"
| "py_int _ = None"

text \<open>\<open>needle in text\<close> and the positions of a substring.\<close>

definition contains :: "string \<Rightarrow> string \<Rightarrow> bool" where
  "contains needle t = sublist needle t"

declare contains_def [cw_defs]


text \<open>\<open>s.startswith(p)\<close> and \<open>s.endswith(p)\<close>.\<close>

definition has_suffix :: "string \<Rightarrow> string \<Rightarrow> bool" where
  "has_suffix sf s = (length sf \<le> length s \<and> drop (length s - length sf) s = sf)"

definition has_prefix :: "string \<Rightarrow> string \<Rightarrow> bool" where
  "has_prefix p s = (take (length p) s = p)"

lemma has_prefix_append [simp]: "has_prefix p (p @ s)"
  by (simp add: has_prefix_def)

lemma has_suffix_append [simp]: "has_suffix q (s @ q)"
  by (simp add: has_suffix_def)

section \<open>Exceptions and hashing\<close>

text \<open>The built-in exceptions that the tools can let escape.\<close>

datatype pyexc = TypeError | ValueError | KeyError | AttributeError | OSError | OverflowError

text \<open>Only hashable values may be dictionary keys or be looked up in a set; numbers that compare
  equal are the same key.\<close>

definition hashable :: "json \<Rightarrow> bool" where
  "hashable j = (\<not> is_arr j \<and> \<not> is_obj j)"

fun key_of :: "json \<Rightarrow> json" where
  "key_of (JBool b) = JInt (if b then 1 else 0)"
| "key_of (JFloat m e) = (if 0 \<le> e then JInt (m * 10 ^ nat e) else JFloat m e)"
| "key_of j = j"

fun is_num :: "json \<Rightarrow> bool" where
  "is_num (JInt _) = True"
| "is_num (JBool _) = True"
| "is_num (JFloat _ _) = True"
| "is_num _ = False"

text \<open>\<open>sorted\<close> over dictionary keys raises unless they are mutually comparable.\<close>

definition sortable :: "json list \<Rightarrow> bool" where
  "sortable ks = (length ks \<le> 1 \<or> list_all is_str ks \<or> list_all is_num ks)"

text \<open>Sequencing of steps that may raise, and mapping one over a list, left to right.\<close>

definition sbind :: "'e + 'a \<Rightarrow> ('a \<Rightarrow> 'e + 'b) \<Rightarrow> 'e + 'b" where
  "sbind m f = (case m of Inl e \<Rightarrow> Inl e | Inr x \<Rightarrow> f x)"

definition require :: "bool \<Rightarrow> 'e \<Rightarrow> 'e + unit" where
  "require b e = (if b then Inr () else Inl e)"

lemma sbind_simps [simp]: "sbind (Inl e) f = Inl e" "sbind (Inr x) f = f x"
  by (simp_all add: sbind_def)

lemma sbind_Inr_iff: "sbind m f = Inr y \<longleftrightarrow> (\<exists>x. m = Inr x \<and> f x = Inr y)"
  by (cases m) auto

lemma sbind_Inl_iff: "sbind m f = Inl e \<longleftrightarrow> m = Inl e \<or> (\<exists>x. m = Inr x \<and> f x = Inl e)"
  by (cases m) auto

lemma require_iff [simp]:
  "require b e = Inr u \<longleftrightarrow> b" "require b e = Inl e' \<longleftrightarrow> \<not> b \<and> e' = e"
  by (auto simp: require_def)

lemma require_True [simp]: "require True e = Inr ()"
  by (simp add: require_def)

fun map_exc :: "('a \<Rightarrow> 'e + 'b) \<Rightarrow> 'a list \<Rightarrow> 'e + 'b list" where
  "map_exc f [] = Inr []"
| "map_exc f (x # xs) =
     (case f x of Inl e \<Rightarrow> Inl e
      | Inr y \<Rightarrow> (case map_exc f xs of Inl e \<Rightarrow> Inl e | Inr ys \<Rightarrow> Inr (y # ys)))"

lemma map_exc_total: "(\<And>x. x \<in> set xs \<Longrightarrow> f x = Inr (g x)) \<Longrightarrow> map_exc f xs = Inr (map g xs)"
  by (induction xs) auto

lemma map_exc_Inr_length: "map_exc f xs = Inr ys \<Longrightarrow> length ys = length xs"
  by (induction xs arbitrary: ys) (auto split: sum.splits)

lemma map_exc_Inl: "map_exc f xs = Inl e \<Longrightarrow> \<exists>x \<in> set xs. f x = Inl e"
  by (induction xs) (auto split: sum.splits)

text \<open>A step that maps its results to themselves leaves a list of results as it is.\<close>

lemma map_exc_fixed: "(\<And>y. y \<in> set ys \<Longrightarrow> f y = Inr y) \<Longrightarrow> map_exc f ys = Inr ys"
  by (induction ys) auto

lemma map_exc_results: "map_exc f xs = Inr ys \<Longrightarrow> y \<in> set ys \<Longrightarrow> \<exists>x \<in> set xs. f x = Inr y"
  by (induction xs arbitrary: ys) (auto split: sum.splits)

section \<open>Step systems\<close>

text \<open>What a system keeps in every step it keeps in every run; each component that is a step relation
  interprets this on its own relation and invariant.\<close>

locale kept_by_steps =
  fixes step :: "'s \<Rightarrow> 's \<Rightarrow> bool" and inv :: "'s \<Rightarrow> bool"
  assumes kept: "inv s \<Longrightarrow> step s t \<Longrightarrow> inv t"

context kept_by_steps begin

lemma run_keeps: "step\<^sup>*\<^sup>* s t \<Longrightarrow> inv s \<Longrightarrow> inv t"
  by (induction rule: rtranclp_induct) (auto intro: kept)

end

text \<open>Forward simulation: a detailed system whose every step is matched by steps of an abstract one has
  only runs of the abstract one.\<close>

locale step_simulation =
  fixes cstep :: "'c \<Rightarrow> 'c \<Rightarrow> bool" and astep :: "'a \<Rightarrow> 'a \<Rightarrow> bool" and match :: "'c \<Rightarrow> 'a \<Rightarrow> bool"
  assumes simulates: "match c a \<Longrightarrow> cstep c c' \<Longrightarrow> \<exists>a'. astep\<^sup>*\<^sup>* a a' \<and> match c' a'"

context step_simulation begin

lemma run_simulates: "cstep\<^sup>*\<^sup>* c c' \<Longrightarrow> match c a \<Longrightarrow> \<exists>a'. astep\<^sup>*\<^sup>* a a' \<and> match c' a'"
proof (induction rule: rtranclp_induct)
  case (step c' c'')
  then obtain a' where "astep\<^sup>*\<^sup>* a a'" "match c' a'" by blast
  with simulates step.hyps(2) show ?case by (meson rtranclp_trans)
qed auto

end

end
