(* ===== verification/Os_Files.thy ===== *)
theory Os_Files
  imports Py_Prelude
begin

text \<open>
  The file system as the packet tools see it (the helpers of \<open>tools/clearwright_claim.py\<close> and
  \<open>tools/clearwright_decide.py\<close>, over Python's \<open>os\<close> module).

  A path is the list of its components from the root (the tools take \<open>os.path.abspath\<close> first). A
  file holds a JSON document or text that does not parse. Every system call may fail with an
  \<open>OSError\<close>: calls are numbered by the world's clock and a fault schedule says which of them fail,
  so a theorem that holds for every schedule holds whatever the operating system does.
\<close>

type_synonym path = "string list"

datatype content = Doc json | Torn

record world =
  files :: "path \<Rightarrow> content option"
  tick :: nat

type_synonym faults = "nat \<Rightarrow> bool"

definition basename :: "path \<Rightarrow> string" where
  "basename p = (if p = [] then [] else last p)"

definition dirname :: "path \<Rightarrow> path" where
  "dirname p = butlast p"

text \<open>\<open>os.path.basename(os.path.dirname(p))\<close> and the directory above it.\<close>

definition parent_name :: "path \<Rightarrow> string" where
  "parent_name p = basename (dirname p)"

definition queue_root_of :: "path \<Rightarrow> path" where
  "queue_root_of p = dirname (dirname p)"

text \<open>One system call that succeeded, with its effect on the files, and one that failed.\<close>

definition advance :: "world \<Rightarrow> world" where
  "advance w = w\<lparr>tick := Suc (tick w)\<rparr>"

definition put_file :: "path \<Rightarrow> content \<Rightarrow> world \<Rightarrow> world" where
  "put_file p c w = w\<lparr>files := (files w)(p := Some c), tick := Suc (tick w)\<rparr>"

definition del_file :: "path \<Rightarrow> world \<Rightarrow> world" where
  "del_file p w = w\<lparr>files := (files w)(p := None), tick := Suc (tick w)\<rparr>"

lemma files_advance [simp]: "files (advance w) = files w"
  by (simp add: advance_def)

lemma files_put_file [simp]: "files (put_file p c w) = (files w)(p := Some c)"
  by (simp add: put_file_def)

lemma files_del_file [simp]: "files (del_file p w) = (files w)(p := None)"
  by (simp add: del_file_def)

text \<open>
  \<open>load_packet\<close>: a missing file, a read error, unparsable text and a document that is not an
  object all give code 2.
\<close>

definition load_packet :: "faults \<Rightarrow> path \<Rightarrow> world \<Rightarrow> (int + jobj) \<times> world" where
  "load_packet fault p w =
     (case files w p of
        None \<Rightarrow> (Inl 2, advance w)
      | Some c \<Rightarrow>
          if fault (tick w) then (Inl 2, advance w)
          else (case c of
              Torn \<Rightarrow> (Inl 2, advance w)
            | Doc j \<Rightarrow> (case j of JObj ob \<Rightarrow> (Inr ob, advance w) | _ \<Rightarrow> (Inl 2, advance w))))"

lemma load_packet_files [simp]: "files (snd (load_packet fault p w)) = files w"
  by (simp add: load_packet_def split: option.splits content.splits json.splits)

lemma load_packet_same: "load_packet fault p w = (r, w') \<Longrightarrow> files w' = files w"
  by (metis load_packet_files snd_conv)

lemma load_packet_Inr:
  "fst (load_packet fault p w) = Inr ob \<Longrightarrow> files w p = Some (Doc (JObj ob))"
  by (simp add: load_packet_def split: option.splits content.splits json.splits if_splits)

lemma load_packet_Inl: "fst (load_packet fault p w) = Inl c \<Longrightarrow> c = 2"
  by (simp add: load_packet_def split: option.splits content.splits json.splits if_splits)

lemma load_packet_good:
  "files w p = Some (Doc (JObj ob)) \<Longrightarrow> \<not> fault (tick w) \<Longrightarrow>
     load_packet fault p w = (Inr ob, advance w)"
  by (simp add: load_packet_def)

text \<open>\<open>os.remove\<close>: the flag says whether it succeeded.\<close>

definition remove_file :: "faults \<Rightarrow> path \<Rightarrow> world \<Rightarrow> bool \<times> world" where
  "remove_file fault p w =
     (if files w p = None \<or> fault (tick w) then (False, advance w) else (True, del_file p w))"

lemma remove_file_files:
  "files (snd (remove_file fault p w)) =
     (if fst (remove_file fault p w) then (files w)(p := None) else files w)"
  by (simp add: remove_file_def)

lemma remove_file_frame: "q \<noteq> p \<Longrightarrow> files (snd (remove_file fault p w)) q = files w q"
  by (simp add: remove_file_def)

text \<open>
  \<open>write_exclusive\<close>: \<open>O_CREAT | O_EXCL\<close>, then write and \<open>fsync\<close>. A failed write removes the
  partial file, and if that removal fails too the partial text stays.
\<close>

datatype write_error = AlreadyExists | CreateFailed | WriteFailed

definition write_exclusive ::
    "faults \<Rightarrow> path \<Rightarrow> json \<Rightarrow> world \<Rightarrow> write_error option \<times> world" where
  "write_exclusive fault p j w =
     (if files w p \<noteq> None then (Some AlreadyExists, advance w)
      else if fault (tick w) then (Some CreateFailed, advance w)
      else let w1 = put_file p Torn w
           in if fault (tick w1)
              then (Some WriteFailed, snd (remove_file fault p (advance w1)))
              else (None, put_file p (Doc j) w1))"

lemma write_exclusive_ok:
  "fst (write_exclusive fault p j w) = None \<Longrightarrow>
     files w p = None \<and> files (snd (write_exclusive fault p j w)) = (files w)(p := Some (Doc j))"
  by (auto simp: write_exclusive_def Let_def split: if_splits)

lemma write_exclusive_frame:
  "q \<noteq> p \<Longrightarrow> files (snd (write_exclusive fault p j w)) q = files w q"
  by (simp add: write_exclusive_def Let_def remove_file_frame)

lemma write_exclusive_existing:
  "files w p \<noteq> None \<Longrightarrow>
     fst (write_exclusive fault p j w) = Some AlreadyExists \<and>
     files (snd (write_exclusive fault p j w)) = files w"
  by (simp add: write_exclusive_def)

lemma write_exclusive_target:
  "files (snd (write_exclusive fault p j w)) p \<in> {files w p, Some Torn, Some (Doc j)}"
  by (auto simp: write_exclusive_def Let_def remove_file_def)

text \<open>
  \<open>write_inplace\<close> (the decision tool): the new text goes to \<open><path>.tmp\<close>, which is then renamed
  over the packet; any failure removes the temporary file if it can.
\<close>

definition tmp_path :: "path \<Rightarrow> path" where
  "tmp_path p = dirname p @ [basename p @ ''.tmp'']"

definition write_inplace ::
    "faults \<Rightarrow> path \<Rightarrow> json \<Rightarrow> world \<Rightarrow> write_error option \<times> world" where
  "write_inplace fault p j w =
     (let t = tmp_path p in
      if fault (tick w) then (Some CreateFailed, snd (remove_file fault t (advance w)))
      else let w1 = put_file t Torn w in
      if fault (tick w1) then (Some WriteFailed, snd (remove_file fault t (advance w1)))
      else let w2 = put_file t (Doc j) w1 in
      if fault (tick w2) then (Some WriteFailed, snd (remove_file fault t (advance w2)))
      else (None, del_file t (put_file p (Doc j) w2)))"

lemma tmp_path_neq [simp]: "tmp_path p \<noteq> p"
  by (cases p rule: rev_cases) (auto simp: tmp_path_def dirname_def basename_def)

lemma neq_tmp_path [simp]: "p \<noteq> tmp_path p"
  by (metis tmp_path_neq)

lemma write_inplace_ok:
  "fst (write_inplace fault p j w) = None \<Longrightarrow>
     files (snd (write_inplace fault p j w)) = (files w)(p := Some (Doc j), tmp_path p := None)"
  by (auto simp: write_inplace_def Let_def fun_eq_iff split: if_splits)

lemma write_inplace_failed:
  "fst (write_inplace fault p j w) \<noteq> None \<Longrightarrow> q \<noteq> tmp_path p \<Longrightarrow>
     files (snd (write_inplace fault p j w)) q = files w q"
  by (auto simp: write_inplace_def Let_def remove_file_frame split: if_splits)

lemma write_inplace_frame:
  "q \<noteq> p \<Longrightarrow> q \<noteq> tmp_path p \<Longrightarrow> files (snd (write_inplace fault p j w)) q = files w q"
  by (auto simp: write_inplace_def Let_def remove_file_frame)

end
