(* ===== verification/Packet_Validate.thy ===== *)
theory Packet_Validate
  imports Os_Files
begin

text \<open>
  The packet validator, \<open>tools/clearwright_validate.py\<close>: the field rules (\<open>validate\<close>), the
  location rules of \<open>--strict-path\<close> (\<open>validate_queue_path\<close>) and the command's exit code. Error
  messages are kept as constructors that carry what the message prints.
\<close>

definition REQUIRED_FIELDS :: "string list" where
  "REQUIRED_FIELDS = [''packet_id'', ''packet_type'', ''title'', ''requesting_agent'',
     ''created_at'', ''updated_at'', ''status'', ''source_path'', ''packet_hash'']"

definition ALLOWED_STATUS :: "string list" where
  "ALLOWED_STATUS = [''RTA'', ''IN_REVIEW'', ''RFI_PENDING'', ''CTA'', ''IN_PROGRESS'',
     ''DTA'', ''DONE'', ''FAILED'', ''SUPERSEDED'']"

text \<open>The authority and coordination fields with the values each may take.\<close>

definition ENUM_FIELDS :: "(string \<times> string list) list" where
  "ENUM_FIELDS =
     [(''authority_class'', [''OPERATOR'', ''ORCHESTRATOR'', ''REVIEWER'', ''WORKER'',
        ''OBSERVER'', ''POLICY_ENGINE'']),
      (''clearance_class'', [''READ_ONLY'', ''DOCS_ONLY'', ''BRANCH_CODE'', ''QUEUE_MOVE'',
        ''EXECUTION_CANDIDATE'', ''HUMAN_REQUIRED'']),
      (''priority_class'', [''LOW'', ''NORMAL'', ''HIGH'', ''URGENT'']),
      (''channel_state'', [''CLEAR'', ''BUSY'', ''BLOCKED'', ''STALE'', ''ESCALATED''])]"

definition JSON_BLOB_FIELDS :: "string list" where
  "JSON_BLOB_FIELDS = [''inputs_json'', ''review_json'', ''rfi_json'', ''decision_json'',
     ''audit_json'', ''backpressure_json'']"

abbreviation OUTBOX :: string where "OUTBOX \<equiv> ''clearance_outbox''"
abbreviation IN_PROGRESS_DIR :: string where "IN_PROGRESS_DIR \<equiv> ''clearance_in_progress''"
abbreviation DONE_DIR :: string where "DONE_DIR \<equiv> ''clearance_done''"
abbreviation FAILED_DIR :: string where "FAILED_DIR \<equiv> ''clearance_failed''"

definition QUEUE_STATUS :: "(string \<times> string list) list" where
  "QUEUE_STATUS =
     [(OUTBOX, [''RTA'', ''IN_REVIEW'', ''RFI_PENDING'', ''CTA'']),
      (IN_PROGRESS_DIR, [''IN_PROGRESS'']),
      (DONE_DIR, [''DONE'', ''DTA'', ''SUPERSEDED'']),
      (FAILED_DIR, [''FAILED''])]"

datatype verr =
    MissingField string
  | InvalidStatus json
  | InvalidEnum string json
  | BadEscalation json
  | NoClearanceExpiry json
  | BadBlob string json
  | UnknownQueueDir string
  | NotUnderRoot string
  | StatusNotInDir string string

text \<open>\<open>not isinstance(v, str) or v not in allowed\<close>.\<close>

definition outside :: "string list \<Rightarrow> json \<Rightarrow> bool" where
  "outside allowed v = (case v of JStr s \<Rightarrow> s \<notin> set allowed | _ \<Rightarrow> True)"

definition blank_field :: "json \<Rightarrow> bool" where
  "blank_field v = (v = JNull \<or> v = JStr [])"

definition bad_escalation :: "json \<Rightarrow> bool" where
  "bad_escalation v = (\<not> is_int v \<or> (case v of JInt i \<Rightarrow> i \<noteq> 0 \<and> i \<noteq> 1 | _ \<Rightarrow> False))"

definition bad_blob :: "json \<Rightarrow> bool" where
  "bad_blob v = (v \<noteq> JNull \<and> \<not> is_obj v \<and> \<not> is_arr v)"

definition validate :: "jobj \<Rightarrow> verr list" where
  "validate packet =
     (let status = jget packet ''status''; esc = jget packet ''escalation_required'' in
      map MissingField (filter (\<lambda>f. blank_field (jget packet f)) REQUIRED_FIELDS) @
      (if status \<noteq> JNull \<and> outside ALLOWED_STATUS status then [InvalidStatus status] else []) @
      map (\<lambda>(f, _). InvalidEnum f (jget packet f))
        (filter (\<lambda>(f, allowed). jget packet f \<noteq> JNull \<and> outside allowed (jget packet f))
           ENUM_FIELDS) @
      (if esc \<noteq> JNull \<and> bad_escalation esc then [BadEscalation esc] else []) @
      (if status \<in> {JStr ''CTA'', JStr ''IN_PROGRESS''} \<and>
          \<not> truthy (jget packet ''clearance_expires_at'')
       then [NoClearanceExpiry status] else []) @
      map (\<lambda>f. BadBlob f (jget packet f))
        (filter (\<lambda>f. bad_blob (jget packet f)) JSON_BLOB_FIELDS))"

definition validate_queue_path :: "path \<Rightarrow> json \<Rightarrow> path option \<Rightarrow> verr list" where
  "validate_queue_path packet_file status queue_root =
     (let parent_dir = dirname packet_file; queue_name = basename parent_dir in
      case map_of QUEUE_STATUS queue_name of
        None \<Rightarrow> [UnknownQueueDir queue_name]
      | Some here \<Rightarrow>
          (case queue_root of
             None \<Rightarrow> []
           | Some r \<Rightarrow> if parent_dir \<noteq> r @ [queue_name] then [NotUnderRoot queue_name] else []) @
          (case status of
             JStr s \<Rightarrow> if s \<in> set ALLOWED_STATUS \<and> s \<notin> set here
                        then [StatusNotInDir s queue_name] else []
           | _ \<Rightarrow> []))"

text \<open>The command: exit code 2 for an unreadable file, 1 for an invalid packet, 0 otherwise.\<close>

definition validate_main ::
    "faults \<Rightarrow> path \<Rightarrow> bool \<Rightarrow> path option \<Rightarrow> world \<Rightarrow> int \<times> world" where
  "validate_main fault packet_file strict_path queue_root w =
     (case files w packet_file of
        None \<Rightarrow> (2, advance w)
      | Some c \<Rightarrow>
          if fault (tick w) then (2, advance w)
          else (case c of
              Torn \<Rightarrow> (2, advance w)
            | Doc (JObj packet) \<Rightarrow>
                (if validate packet @
                    (if strict_path
                     then validate_queue_path packet_file (jget packet ''status'') queue_root
                     else []) \<noteq> []
                 then 1 else 0, advance w)
            | Doc _ \<Rightarrow> (1, advance w)))"

section \<open>What a valid packet is\<close>

text \<open>The declarative reading of the field rules, one conjunct per rule of the schema.\<close>

definition well_formed :: "jobj \<Rightarrow> bool" where
  "well_formed packet \<longleftrightarrow>
     (\<forall>f \<in> set REQUIRED_FIELDS. jget packet f \<noteq> JNull \<and> jget packet f \<noteq> JStr []) \<and>
     (\<exists>s \<in> set ALLOWED_STATUS. jget packet ''status'' = JStr s) \<and>
     (\<forall>(f, allowed) \<in> set ENUM_FIELDS.
        jget packet f = JNull \<or> (\<exists>v \<in> set allowed. jget packet f = JStr v)) \<and>
     (jget packet ''escalation_required'' \<in>
        {JNull, JBool True, JBool False, JInt 0, JInt 1}) \<and>
     (jget packet ''status'' \<in> {JStr ''CTA'', JStr ''IN_PROGRESS''} \<longrightarrow>
        truthy (jget packet ''clearance_expires_at'')) \<and>
     (\<forall>f \<in> set JSON_BLOB_FIELDS.
        jget packet f = JNull \<or> is_obj (jget packet f) \<or> is_arr (jget packet f))"

lemma outside_iff: "\<not> outside allowed v \<longleftrightarrow> (\<exists>s \<in> set allowed. v = JStr s)"
  by (cases v) (auto simp: outside_def)

lemma bad_escalation_iff:
  "\<not> (v \<noteq> JNull \<and> bad_escalation v) \<longleftrightarrow> v \<in> {JNull, JBool True, JBool False, JInt 0, JInt 1}"
  by (cases v) (auto simp: bad_escalation_def)

lemma bad_blob_iff: "\<not> bad_blob v \<longleftrightarrow> v = JNull \<or> is_obj v \<or> is_arr v"
  by (auto simp: bad_blob_def)

lemma status_required: "''status'' \<in> set REQUIRED_FIELDS"
  by (simp add: REQUIRED_FIELDS_def)

lemma validate_Nil_iff: "validate packet = [] \<longleftrightarrow> well_formed packet"
proof -
  have enums: "filter (\<lambda>(f, allowed). jget packet f \<noteq> JNull \<and> outside allowed (jget packet f))
        ENUM_FIELDS = [] \<longleftrightarrow>
      (\<forall>(f, allowed) \<in> set ENUM_FIELDS.
        jget packet f = JNull \<or> (\<exists>v \<in> set allowed. jget packet f = JStr v))"
    by (auto simp: filter_empty_conv outside_iff [symmetric])
  have blobs: "filter (\<lambda>f. bad_blob (jget packet f)) JSON_BLOB_FIELDS = [] \<longleftrightarrow>
      (\<forall>f \<in> set JSON_BLOB_FIELDS.
        jget packet f = JNull \<or> is_obj (jget packet f) \<or> is_arr (jget packet f))"
    by (simp add: filter_empty_conv bad_blob_iff)
  have req: "filter (\<lambda>f. blank_field (jget packet f)) REQUIRED_FIELDS = [] \<longleftrightarrow>
      (\<forall>f \<in> set REQUIRED_FIELDS. jget packet f \<noteq> JNull \<and> jget packet f \<noteq> JStr [])"
    by (simp add: filter_empty_conv blank_field_def)
  show ?thesis
    unfolding validate_def Let_def well_formed_def append_is_Nil_conv map_is_Nil_conv
      enums blobs req
    using status_required bad_escalation_iff [of "jget packet ''escalation_required''"]
    by (auto simp: outside_iff [symmetric] split: if_splits)
qed

lemma well_formed_status:
  "well_formed packet \<Longrightarrow> \<exists>s \<in> set ALLOWED_STATUS. jget packet ''status'' = JStr s"
  by (simp add: well_formed_def)

text \<open>The directory a status belongs in.\<close>

definition in_its_place :: "path \<Rightarrow> json \<Rightarrow> bool" where
  "in_its_place p status \<longleftrightarrow>
     (\<exists>here s. map_of QUEUE_STATUS (parent_name p) = Some here \<and> status = JStr s \<and> s \<in> set here)"

lemma queue_path_Nil_iff:
  assumes "\<exists>s \<in> set ALLOWED_STATUS. status = JStr s"
  shows "validate_queue_path p status None = [] \<longleftrightarrow> in_its_place p status"
  using assms
  by (auto simp: validate_queue_path_def in_its_place_def parent_name_def Let_def
      split: option.splits if_splits)

lemma queue_statuses_allowed: "map_of QUEUE_STATUS d = Some here \<Longrightarrow> s \<in> set here \<Longrightarrow>
    s \<in> set ALLOWED_STATUS"
  by (auto simp: QUEUE_STATUS_def ALLOWED_STATUS_def split: if_splits)


section \<open>Validity field by field\<close>

text \<open>Every rule but the lease rule is about one field, so updating a field needs only that rule.\<close>

definition field_ok :: "string \<Rightarrow> json \<Rightarrow> bool" where
  "field_ok k v \<longleftrightarrow>
     (k \<in> set REQUIRED_FIELDS \<longrightarrow> v \<noteq> JNull \<and> v \<noteq> JStr []) \<and>
     (k = ''status'' \<longrightarrow> (\<exists>s \<in> set ALLOWED_STATUS. v = JStr s)) \<and>
     (\<forall>(f, allowed) \<in> set ENUM_FIELDS. k = f \<longrightarrow> v = JNull \<or> (\<exists>s \<in> set allowed. v = JStr s)) \<and>
     (k = ''escalation_required'' \<longrightarrow> v \<in> {JNull, JBool True, JBool False, JInt 0, JInt 1}) \<and>
     (k \<in> set JSON_BLOB_FIELDS \<longrightarrow> v = JNull \<or> is_obj v \<or> is_arr v)"

definition lease_ok :: "jobj \<Rightarrow> bool" where
  "lease_ok p \<longleftrightarrow> (jget p ''status'' \<in> {JStr ''CTA'', JStr ''IN_PROGRESS''} \<longrightarrow>
     truthy (jget p ''clearance_expires_at''))"

lemma well_formed_iff: "well_formed p \<longleftrightarrow> (\<forall>k. field_ok k (jget p k)) \<and> lease_ok p"
proof
  assume w: "well_formed p"
  have "field_ok k (jget p k)" for k
    unfolding field_ok_def case_prod_beta
    by (intro conjI) (use w in \<open>(simp add: well_formed_def case_prod_beta; fail) |
      (unfold well_formed_def case_prod_beta, blast)\<close>)+
  then show "(\<forall>k. field_ok k (jget p k)) \<and> lease_ok p"
    using w by (simp add: well_formed_def lease_ok_def)
next
  assume f: "(\<forall>k. field_ok k (jget p k)) \<and> lease_ok p"
  then have k: "field_ok k (jget p k)" for k by blast
  have 1: "\<forall>f \<in> set REQUIRED_FIELDS. jget p f \<noteq> JNull \<and> jget p f \<noteq> JStr []"
    using k unfolding field_ok_def by blast
  have 2: "\<exists>s \<in> set ALLOWED_STATUS. jget p ''status'' = JStr s"
    using k [of "''status''"] unfolding field_ok_def by blast
  have 3: "\<forall>(f, allowed) \<in> set ENUM_FIELDS.
      jget p f = JNull \<or> (\<exists>v \<in> set allowed. jget p f = JStr v)"
  proof (clarify, goal_cases)
    case (1 f allowed)
    then show ?case using k [of f] unfolding field_ok_def by fast
  qed
  have 4: "jget p ''escalation_required'' \<in> {JNull, JBool True, JBool False, JInt 0, JInt 1}"
    using k [of "''escalation_required''"] unfolding field_ok_def by blast
  have 5: "\<forall>f \<in> set JSON_BLOB_FIELDS. jget p f = JNull \<or> is_obj (jget p f) \<or> is_arr (jget p f)"
    using k unfolding field_ok_def by blast
  show "well_formed p"
    unfolding well_formed_def using 1 2 3 4 5 f by (simp add: lease_ok_def)
qed

definition fields_ok :: "jobj \<Rightarrow> bool" where
  "fields_ok p \<longleftrightarrow> (\<forall>k. field_ok k (jget p k))"

lemma fields_ok_jput: "fields_ok p \<Longrightarrow> field_ok k v \<Longrightarrow> fields_ok (jput k v p)"
  by (auto simp: fields_ok_def)

lemma field_ok_status: "s \<in> set ALLOWED_STATUS \<Longrightarrow> field_ok ''status'' (JStr s)"
  by (auto simp: field_ok_def REQUIRED_FIELDS_def ENUM_FIELDS_def JSON_BLOB_FIELDS_def
      ALLOWED_STATUS_def)

lemma field_ok_blob: "is_obj v \<Longrightarrow> k \<in> set JSON_BLOB_FIELDS \<Longrightarrow> field_ok k v"
  by (auto simp: field_ok_def REQUIRED_FIELDS_def ENUM_FIELDS_def JSON_BLOB_FIELDS_def is_obj_iff)

lemma field_ok_text:
  "s \<noteq> [] \<Longrightarrow> k \<in> {''source_path'', ''updated_at'', ''claimed_by'', ''claimed_at'', ''cleared_by'',
     ''denied_by'', ''clearance_expires_at''} \<Longrightarrow> field_ok k (JStr s)"
  by (auto simp: field_ok_def REQUIRED_FIELDS_def ENUM_FIELDS_def JSON_BLOB_FIELDS_def)

lemma well_formed_fields: "well_formed p \<longleftrightarrow> fields_ok p \<and> lease_ok p"
  by (simp add: well_formed_iff fields_ok_def)

end
