(* ===== verification/Packet_Claim.thy ===== *)
theory Packet_Claim
  imports Packet_Validate
begin

text \<open>
  Claiming one packet (\<open>tools/clearwright_claim.py\<close>): the prospective packet \<open>build_claimed\<close>, the
  exclusive-write / re-read / remove-last move \<open>finish_move\<close> that the claim, decision and lifecycle
  tools share word for word, and \<open>claim\<close> itself. The contract that the queue's other parts rely on
  is the locale \<open>queue_tool\<close>, with \<open>queue_move\<close> for the tools that move a packet to another
  directory; both are proved once for the shared guard chain and interpreted for each tool.
\<close>

section \<open>The claim tool\<close>

definition CLAIMABLE :: "string list" where
  "CLAIMABLE = [''RTA'', ''IN_REVIEW'', ''RFI_PENDING'', ''CTA'']"

text \<open>An audit trail in the shape \<open>\<lbrace>"events": [...]\<rbrace>\<close>, and the trail with one more event.\<close>

definition audit_events :: "json \<Rightarrow> json list option" where
  "audit_events audit = (case audit of
     JObj a \<Rightarrow> (case jget a ''events'' of JArr es \<Rightarrow> Some es | _ \<Rightarrow> None)
   | _ \<Rightarrow> None)"

definition build_claimed :: "string \<Rightarrow> jobj \<Rightarrow> string \<Rightarrow> string \<Rightarrow> jobj" where
  "build_claimed now packet filename claimant =
     (let claimed = jput ''updated_at'' (JStr now)
            (jput ''source_path'' (JStr (IN_PROGRESS_DIR @ ''/'' @ filename))
            (jput ''status'' (JStr ''IN_PROGRESS'') packet));
          claimed = (if claimant \<noteq> []
            then jput ''claimed_at'' (JStr now) (jput ''claimed_by'' (JStr claimant) claimed)
            else claimed)
      in case audit_events (jget claimed ''audit_json'') of
           None \<Rightarrow> claimed
         | Some es \<Rightarrow>
             jput ''audit_json'' (JObj (jput ''events'' (JArr (es @ [JObj
               [(''at'', JStr now), (''event'', JStr ''IN_PROGRESS''),
                (''actor'', JStr (if claimant \<noteq> [] then claimant else ''system'')),
                (''note'', JStr (''Claimed from '' @ OUTBOX @ '' and moved to '' @
                   IN_PROGRESS_DIR))]]))
               (obj_of (jget claimed ''audit_json'')))) claimed)"

text \<open>
  Steps 8 to 10: create the destination exclusively, re-validate what is on disk (rolling the
  destination back when it does not validate), and remove the source last.
\<close>

definition finish_move :: "faults \<Rightarrow> path \<Rightarrow> path \<Rightarrow> jobj \<Rightarrow> world \<Rightarrow> int \<times> world" where
  "finish_move fault src dest result w =
     (case write_exclusive fault dest (JObj result) w of
        (Some _, w1) \<Rightarrow> (1, w1)
      | (None, w1) \<Rightarrow>
          (case load_packet fault dest w1 of (written, w2) \<Rightarrow>
             if (case written of
                   Inl _ \<Rightarrow> True
                 | Inr q \<Rightarrow> validate q @ validate_queue_path dest (jget q ''status'') None \<noteq> [])
             then (1, snd (remove_file fault dest w2))
             else (case remove_file fault src w2 of (removed, w3) \<Rightarrow>
               (if removed then 0 else 1, w3))))"

definition claim :: "faults \<Rightarrow> string \<Rightarrow> path \<Rightarrow> string \<Rightarrow> bool \<Rightarrow> world \<Rightarrow> int \<times> world" where
  "claim fault now packet_file claimant dry_run w =
     (case load_packet fault packet_file w of
        (Inl code, w1) \<Rightarrow> (code, w1)
      | (Inr packet, w1) \<Rightarrow>
          if validate packet \<noteq> [] then (1, w1)
          else if parent_name packet_file \<noteq> OUTBOX then (1, w1)
          else if validate_queue_path packet_file (jget packet ''status'') None \<noteq> [] then (1, w1)
          else if outside CLAIMABLE (jget packet ''status'') then (1, w1)
          else let filename = basename packet_file;
                   dest = queue_root_of packet_file @ [IN_PROGRESS_DIR, filename];
                   claimed = build_claimed now packet filename claimant
               in if validate claimed @
                    validate_queue_path dest (jget claimed ''status'') None \<noteq> [] then (1, w1)
                  else if dry_run then (0, w1)
                  else finish_move fault packet_file dest claimed w1)"

section \<open>The shared move\<close>

definition target_of :: "string \<Rightarrow> path \<Rightarrow> path" where
  "target_of into src = queue_root_of src @ [into, basename src]"

text \<open>A packet that validates, sits in the right directory and has the given status.\<close>

definition outcome :: "string \<Rightarrow> string \<Rightarrow> jobj \<Rightarrow> bool" where
  "outcome into result q \<longleftrightarrow> well_formed q \<and> jget q ''status'' = JStr result \<and>
     (\<exists>here. map_of QUEUE_STATUS into = Some here \<and> result \<in> set here)"

lemma parent_name_target [simp]: "parent_name (target_of into src) = into"
  by (simp add: parent_name_def target_of_def basename_def dirname_def butlast_append)

lemma target_of_not_Nil [simp]: "target_of into src \<noteq> []"
  by (simp add: target_of_def)

lemma target_neq_src: "parent_name src \<noteq> into \<Longrightarrow> target_of into src \<noteq> src"
  using parent_name_target by metis

lemma target_eq_src:
  assumes "parent_name src = into" and "into \<noteq> []"
  shows "target_of into src = src"
proof -
  have "butlast src \<noteq> []"
    using assms by (auto simp: parent_name_def basename_def dirname_def split: if_splits)
  then have "src = butlast (butlast src) @ [last (butlast src), last src]"
    by (metis append_butlast_last_id append_Cons append_Nil append_assoc butlast.simps(1))
  then show ?thesis
    using assms \<open>butlast src \<noteq> []\<close>
    by (auto simp: target_of_def queue_root_of_def dirname_def parent_name_def basename_def)
qed

text \<open>The outcomes of the move, from which the facts about each path follow.\<close>

lemma finish_move_cases [consumes 1, case_names unwritten rolled_back stuck moved]:
  assumes "finish_move fault src dest q w = (c, w')"
  obtains e where "c = 1" "write_exclusive fault dest (JObj q) w = (Some e, w')"
  | w1 where "c = 1" "write_exclusive fault dest (JObj q) w = (None, w1)"
      "files w' \<in> {files w1, (files w1)(dest := None)}"
  | w1 where "c = 1" "write_exclusive fault dest (JObj q) w = (None, w1)" "files w' = files w1"
  | w1 where "c = 0" "write_exclusive fault dest (JObj q) w = (None, w1)"
      "files w' = (files w1)(src := None)"
proof -
  obtain e w1 where w1: "write_exclusive fault dest (JObj q) w = (e, w1)" by fastforce
  obtain r w2 where w2: "load_packet fault dest w1 = (r, w2)" by fastforce
  note f2 = load_packet_same [OF w2]
  show thesis
  proof (cases e)
    case (Some x)
    then show thesis using that(1) assms w1 by (simp add: finish_move_def)
  next
    case None
    then have "c = 1 \<and> w' = snd (remove_file fault dest w2) \<or>
        (c = (if fst (remove_file fault src w2) then 0 else 1) \<and>
         w' = snd (remove_file fault src w2))"
      using assms w1 w2 by (simp add: finish_move_def split: if_splits prod.splits)
    then show thesis
    proof
      assume "c = 1 \<and> w' = snd (remove_file fault dest w2)"
      then show thesis using that(2) [of w1] w1 None f2 by (simp add: remove_file_files)
    next
      assume "c = (if fst (remove_file fault src w2) then 0 else 1) \<and>
         w' = snd (remove_file fault src w2)"
      then show thesis using that(3,4) [of w1] w1 None f2
        by (simp add: remove_file_files split: if_splits)
    qed
  qed
qed

lemma finish_move_frame:
  assumes "p \<noteq> src" and "p \<noteq> dest"
  shows "files (snd (finish_move fault src dest q w)) p = files w p"
proof -
  obtain c w' where f: "finish_move fault src dest q w = (c, w')" by fastforce
  have "\<And>e w1. write_exclusive fault dest (JObj q) w = (e, w1) \<Longrightarrow> files w1 p = files w p"
    using write_exclusive_frame [OF assms(2), of fault "JObj q" w] by simp
  with f show ?thesis by (cases rule: finish_move_cases) (use f assms in auto)
qed

lemma finish_move_source:
  assumes "src \<noteq> dest" and "fst (finish_move fault src dest q w) \<noteq> 0"
  shows "files (snd (finish_move fault src dest q w)) src = files w src"
proof -
  obtain c w' where f: "finish_move fault src dest q w = (c, w')" by fastforce
  have "\<And>e w1. write_exclusive fault dest (JObj q) w = (e, w1) \<Longrightarrow> files w1 src = files w src"
    using write_exclusive_frame [OF assms(1), of fault "JObj q" w] by simp
  with f show ?thesis by (cases rule: finish_move_cases) (use f assms in auto)
qed

lemma finish_move_target:
  assumes "src \<noteq> dest"
  shows "files (snd (finish_move fault src dest q w)) dest \<in>
    {files w dest, None, Some Torn, Some (Doc (JObj q))} \<and>
    (files w dest \<noteq> None \<longrightarrow> files (snd (finish_move fault src dest q w)) = files w)"
proof (cases "files w dest")
  case (Some c)
  then show ?thesis by (simp add: finish_move_def write_exclusive_def)
next
  case None
  obtain e w1 where w1: "write_exclusive fault dest (JObj q) w = (e, w1)" by fastforce
  have t1: "files w1 dest \<in> {None, Some Torn, Some (Doc (JObj q))}"
    using write_exclusive_target [of fault dest "JObj q" w] None w1 by simp
  obtain r w2 where w2: "load_packet fault dest w1 = (r, w2)" by fastforce
  have f2: "files w2 = files w1" using load_packet_files [of fault dest w1] w2 by simp
  have "files (snd (finish_move fault src dest q w)) dest \<in> {None, files w1 dest}"
    using assms f2 by (auto simp: finish_move_def w1 w2 remove_file_def split: option.splits
        prod.splits)
  with t1 None show ?thesis by auto
qed

lemma finish_move_success:
  assumes "src \<noteq> dest" and "fst (finish_move fault src dest q w) = 0"
  shows "files w dest = None \<and>
    files (snd (finish_move fault src dest q w)) =
      (files w)(dest := Some (Doc (JObj q)), src := None)"
proof -
  obtain e w1 where w1: "write_exclusive fault dest (JObj q) w = (e, w1)" by fastforce
  obtain r w2 where w2: "load_packet fault dest w1 = (r, w2)" by fastforce
  have f2: "files w2 = files w1" using load_packet_files [of fault dest w1] w2 by simp
  have e: "e = None" using assms by (auto simp: finish_move_def w1 split: option.splits)
  then have f1: "files w dest = None" "files w1 = (files w)(dest := Some (Doc (JObj q)))"
    using write_exclusive_ok [of fault dest "JObj q" w] w1 by auto
  show ?thesis
    using assms f1 f2 e
    by (auto simp: finish_move_def w1 w2 remove_file_def split: if_splits sum.splits)
qed

section \<open>The guard chain of the packet tools\<close>

definition status_is :: "(string \<Rightarrow> bool) \<Rightarrow> json \<Rightarrow> bool" where
  "status_is ready st = (case st of JStr s \<Rightarrow> ready s | _ \<Rightarrow> False)"

definition checked_run ::
    "faults \<Rightarrow> string \<Rightarrow> (string \<Rightarrow> bool) \<Rightarrow> (path \<Rightarrow> jobj \<Rightarrow> jobj) \<Rightarrow> string \<Rightarrow> bool \<Rightarrow>
     (path \<Rightarrow> path \<Rightarrow> jobj \<Rightarrow> world \<Rightarrow> int \<times> world) \<Rightarrow> path \<Rightarrow> world \<Rightarrow> int \<times> world" where
  "checked_run fault origin ready build into dry commit src w =
     (case load_packet fault src w of
        (Inl code, w1) \<Rightarrow> (code, w1)
      | (Inr p, w1) \<Rightarrow>
          if validate p \<noteq> [] \<or> parent_name src \<noteq> origin \<or>
             validate_queue_path src (jget p ''status'') None \<noteq> [] \<or>
             \<not> status_is ready (jget p ''status'') then (1, w1)
          else if validate (build src p) @
             validate_queue_path (target_of into src) (jget (build src p) ''status'') None \<noteq> []
          then (1, w1)
          else if dry then (0, w1)
          else commit src (target_of into src) (build src p) w1)"

text \<open>A source the tool may act on.\<close>

definition eligible :: "string \<Rightarrow> (string \<Rightarrow> bool) \<Rightarrow> world \<Rightarrow> path \<Rightarrow> bool" where
  "eligible origin ready w src \<longleftrightarrow>
     (\<exists>p s. files w src = Some (Doc (JObj p)) \<and> well_formed p \<and> parent_name src = origin \<and>
        jget p ''status'' = JStr s \<and> ready s)"

lemma checked_run_cases [consumes 1, case_names refused dry commit]:
  assumes run: "checked_run fault origin ready build into dry commit src w = (c, w')"
  obtains "c \<noteq> 0" "files w' = files w"
  | "c = 0" "dry" "eligible origin ready w src" "files w' = files w"
  | p s w1 where "files w src = Some (Doc (JObj p))" "well_formed p" "parent_name src = origin"
      "jget p ''status'' = JStr s" "ready s" "well_formed (build src p)"
      "in_its_place (target_of into src) (jget (build src p) ''status'')"
      "files w1 = files w" "commit src (target_of into src) (build src p) w1 = (c, w')"
proof -
  obtain r w1 where ld: "load_packet fault src w = (r, w1)" by fastforce
  have f1: "files w1 = files w" using load_packet_files [of fault src w] ld by simp
  show thesis
  proof (cases r)
    case (Inl code)
    then have "code = 2" using load_packet_Inl [of fault src w code] ld by simp
    then show thesis using that(1) run f1 by (simp add: checked_run_def ld Inl)
  next
    case (Inr p)
    then have p: "files w src = Some (Doc (JObj p))"
      using load_packet_Inr [of fault src w p] ld by simp
    show thesis
    proof (cases "c \<noteq> 0 \<and> files w' = files w")
      case True
      then show thesis using that(1) by blast
    next
      case False
      let ?q = "build src p"
      have g: "validate p = []" "parent_name src = origin" "status_is ready (jget p ''status'')"
        "validate ?q = []" "validate_queue_path (target_of into src) (jget ?q ''status'') None = []"
        "dry \<and> c = 0 \<and> w' = w1 \<or>
          \<not> dry \<and> commit src (target_of into src) ?q w1 = (c, w')"
        using run False f1
        by (auto simp: checked_run_def ld Inr split: if_splits)
      obtain s where s: "jget p ''status'' = JStr s" "ready s"
        using g(3) by (auto simp: status_is_def split: json.splits)
      have wq: "well_formed ?q" and wp: "well_formed p"
        using g by (simp_all add: validate_Nil_iff)
      have place: "in_its_place (target_of into src) (jget ?q ''status'')"
        using g(5) well_formed_status [OF wq] by (simp add: queue_path_Nil_iff)
      show thesis
      proof (cases dry)
        case True
        then have "c = 0" "files w' = files w" using g(6) f1 by auto
        moreover have "eligible origin ready w src" using p wp g(2) s by (auto simp: eligible_def)
        ultimately show thesis using that(2) True by blast
      next
        case False
        then show thesis using that(3) [OF p wp g(2) s wq place f1] g(6) by blast
      qed
    qed
  qed
qed


section \<open>The contract of a packet tool\<close>

text \<open>
  What the queue relies on: a tool refuses without effect unless its source is eligible, touches
  only the source, the target and the temporary file, leaves at the target nothing but a packet
  that is valid where it lies (or unparsable text), and never makes a source disappear before the
  result is in place.
\<close>

locale queue_tool =
  fixes run :: "faults \<Rightarrow> path \<Rightarrow> world \<Rightarrow> int \<times> world"
    and origin :: string and into :: string and ready :: "string \<Rightarrow> bool" and result :: string
  assumes refuses: "\<not> eligible origin ready w src \<Longrightarrow>
      fst (run fault src w) \<noteq> 0 \<and> files (snd (run fault src w)) = files w"
    and frame: "p \<noteq> src \<Longrightarrow> p \<noteq> target_of into src \<Longrightarrow> p \<noteq> tmp_path src \<Longrightarrow>
      files (snd (run fault src w)) p = files w p"
    and target: "files (snd (run fault src w)) (target_of into src) \<in>
      {files w (target_of into src), None, Some Torn} \<union>
      {Some (Doc (JObj q)) | q. outcome into result q}"
    and temporary: "files (snd (run fault src w)) (tmp_path src) = files w (tmp_path src) \<or>
      origin = into \<and> files (snd (run fault src w)) (tmp_path src) \<in>
        {None, Some Torn} \<union> {Some (Doc (JObj q)) | q. outcome into result q}"
    and source: "files (snd (run fault src w)) src = files w src \<or>
      (\<exists>q. outcome into result q \<and>
         files (snd (run fault src w)) (target_of into src) = Some (Doc (JObj q)) \<and>
         (src \<noteq> target_of into src \<longrightarrow> files (snd (run fault src w)) src = None))"

text \<open>Every packet in a queue directory is valid and has a status of that directory.\<close>

definition sound_queue :: "world \<Rightarrow> bool" where
  "sound_queue w \<longleftrightarrow>
     (\<forall>p ob. files w p = Some (Doc (JObj ob)) \<longrightarrow> parent_name p \<in> fst ` set QUEUE_STATUS \<longrightarrow>
        well_formed ob \<and> in_its_place p (jget ob ''status''))"

lemma outcome_sound:
  "outcome into result q \<Longrightarrow> parent_name p = into \<Longrightarrow>
     well_formed q \<and> in_its_place p (jget q ''status'')"
  by (auto simp: outcome_def in_its_place_def)

lemma parent_name_tmp: "parent_name (tmp_path src) = parent_name src"
  by (simp add: parent_name_def tmp_path_def dirname_def)

context queue_tool begin

lemma run_sound:
  assumes "sound_queue w"
  shows "sound_queue (snd (run fault src w))"
proof (cases "eligible origin ready w src")
  case False
  with assms show ?thesis using refuses [of w src fault] by (simp add: sound_queue_def)
next
  case True
  then have src: "parent_name src = origin" by (auto simp: eligible_def)
  show ?thesis
    unfolding sound_queue_def
  proof (intro allI impI)
    fix p ob
    let ?w' = "snd (run fault src w)"
    assume p: "files ?w' p = Some (Doc (JObj ob))"
      and d: "parent_name p \<in> fst ` set QUEUE_STATUS"
    consider (same) "files ?w' p = files w p" | (out) "outcome into result ob" "parent_name p = into"
    proof -
      consider "p = target_of into src" | "p = tmp_path src" | "p = src"
        | "p \<noteq> src" "p \<noteq> target_of into src" "p \<noteq> tmp_path src" by blast
      then show thesis
      proof cases
        case 1
        then show thesis using target [of fault src w] p that by auto
      next
        case 2
        then show thesis
          using temporary [of fault src w] p that src parent_name_tmp by auto
      next
        case 3
        have "src = target_of into src \<Longrightarrow> parent_name src = into"
          by (metis parent_name_target)
        then show thesis using source [of fault src w] p that 3
          by (cases "src = target_of into src") auto
      next
        case 4
        then show thesis using frame that(1) by blast
      qed
    qed
    then show "well_formed ob \<and> in_its_place p (jget ob ''status'')"
      using assms p d outcome_sound by (cases) (auto simp: sound_queue_def)
  qed
qed

text \<open>A packet is never lost: it stays, or its result is at the target.\<close>

lemma never_lost:
  assumes "files w src = Some c"
  shows "files (snd (run fault src w)) src = Some c \<or>
    (\<exists>q. outcome into result q \<and>
       files (snd (run fault src w)) (target_of into src) = Some (Doc (JObj q)))"
  using source [of fault src w] assms by auto

end

locale queue_move = queue_tool +
  assumes apart: "origin \<noteq> into"
    and kept: "fst (run fault src w) \<noteq> 0 \<Longrightarrow> files (snd (run fault src w)) src = files w src"
    and fresh: "parent_name src \<noteq> into \<Longrightarrow> files w (target_of into src) \<noteq> None \<Longrightarrow>
      files (snd (run fault src w)) = files w"

text \<open>Files outside the tool's source directory never change, except by creating the target.\<close>

context queue_move begin

lemma elsewhere:
  assumes "files w p \<noteq> None" and "parent_name p \<noteq> origin"
  shows "files (snd (run fault src w)) p = files w p"
proof (cases "eligible origin ready w src")
  case False
  then show ?thesis using refuses by simp
next
  case True
  then have src: "parent_name src = origin" by (auto simp: eligible_def)
  show ?thesis
  proof (cases "p = target_of into src")
    case True
    then show ?thesis using fresh assms(1) src apart by simp
  next
    case False
    have "p \<noteq> src" using assms(2) src by auto
    moreover have "p \<noteq> tmp_path src \<or> files (snd (run fault src w)) p = files w p"
      using temporary [of fault src w] apart by auto
    ultimately show ?thesis using frame False by blast
  qed
qed

end


section \<open>The shared guard chain meets the contract\<close>

lemma checked_move_queue_move:
  assumes apart: "origin \<noteq> into"
    and status: "\<And>src p. jget (build src p) ''status'' = JStr result"
  shows "queue_move (\<lambda>fault. checked_run fault origin ready build into dry (finish_move fault))
    origin into ready result"
proof (unfold_locales)
  fix fault src w p
  let ?run = "checked_run fault origin ready build into dry (finish_move fault) src w"
  obtain c w' where r: "?run = (c, w')" by fastforce
  have out: "outcome into result (build src q)"
    if "well_formed (build src q)"
      "in_its_place (target_of into src) (jget (build src q) ''status'')" for q
    using that status by (auto simp: outcome_def in_its_place_def)
  have ne: "target_of into src \<noteq> src" if "parent_name src = origin"
    using that apart target_neq_src by auto
  show "fst ?run \<noteq> 0 \<and> files (snd ?run) = files w" if "\<not> eligible origin ready w src"
    using r
  proof (cases rule: checked_run_cases)
    case (commit q s w1)
    then show ?thesis using that by (auto simp: eligible_def)
  qed (use that r in simp_all)
  show "files (snd ?run) p = files w p"
    if "p \<noteq> src" "p \<noteq> target_of into src" "p \<noteq> tmp_path src"
    using r
  proof (cases rule: checked_run_cases)
    case (commit q s w1)
    then show ?thesis
      using that finish_move_frame [of p src "target_of into src" fault "build src q" w1] r by simp
  qed (use r in simp_all)
  show "files (snd ?run) (target_of into src) \<in> {files w (target_of into src), None, Some Torn} \<union>
      {Some (Doc (JObj q)) |q. outcome into result q}"
    using r
  proof (cases rule: checked_run_cases)
    case (commit q s w1)
    then show ?thesis
      using finish_move_target [of src "target_of into src" fault "build src q" w1] r
        ne out [of q] by auto
  qed (use r in simp_all)
  show "files (snd ?run) (tmp_path src) = files w (tmp_path src) \<or>
      origin = into \<and> files (snd ?run) (tmp_path src) \<in>
        {None, Some Torn} \<union> {Some (Doc (JObj q)) |q. outcome into result q}"
    using r
  proof (cases rule: checked_run_cases)
    case (commit q s w1)
    have "tmp_path src \<noteq> target_of into src"
      using commit(3) apart parent_name_tmp [of src] parent_name_target by metis
    then show ?thesis using commit r
        finish_move_frame [of "tmp_path src" src "target_of into src" fault "build src q" w1] by simp
  qed (use r in simp_all)
  show "files (snd ?run) src = files w src \<or>
      (\<exists>q. outcome into result q \<and> files (snd ?run) (target_of into src) = Some (Doc (JObj q)) \<and>
         (src \<noteq> target_of into src \<longrightarrow> files (snd ?run) src = None))"
    using r
  proof (cases rule: checked_run_cases)
    case (commit q s w1)
    then show ?thesis
      using finish_move_source [of src "target_of into src" fault "build src q" w1]
        finish_move_success [of src "target_of into src" fault "build src q" w1] r
        ne out [of q] by (cases "c = 0") auto
  qed (use r in simp_all)
  show "origin \<noteq> into" by (rule apart)
  show "files (snd ?run) src = files w src" if "fst ?run \<noteq> 0"
    using r
  proof (cases rule: checked_run_cases)
    case (commit q s w1)
    then show ?thesis
      using finish_move_source [of src "target_of into src" fault "build src q" w1] r that ne by auto
  qed (use r in simp_all)
  show "files (snd ?run) = files w"
    if "parent_name src \<noteq> into" "files w (target_of into src) \<noteq> None"
    using r
  proof (cases rule: checked_run_cases)
    case (commit q s w1)
    then show ?thesis
      using finish_move_target [of src "target_of into src" fault "build src q" w1] r that ne by auto
  qed (use r in simp_all)
qed

text \<open>A successful run that is not a dry run has moved the packet.\<close>

lemma checked_move_success:
  assumes "checked_run fault origin ready build into False (finish_move fault) src w = (0, w')"
    and "origin \<noteq> into"
  shows "\<exists>p s. files w src = Some (Doc (JObj p)) \<and> well_formed p \<and> parent_name src = origin \<and>
    jget p ''status'' = JStr s \<and> ready s \<and> files w (target_of into src) = None \<and>
    well_formed (build src p) \<and>
    files w' = (files w)(target_of into src := Some (Doc (JObj (build src p))), src := None)"
  using assms(1)
proof (cases rule: checked_run_cases)
  case (commit p s w1)
  then have "target_of into src \<noteq> src" using assms(2) target_neq_src by auto
  then have "files w (target_of into src) = None \<and> files w' =
      (files w)(target_of into src := Some (Doc (JObj (build src p))), src := None)"
    using finish_move_success [of src "target_of into src" fault "build src p" w1] commit by simp
  with commit show ?thesis by blast
qed simp_all

text \<open>The converse: with no fault and a free target, an eligible packet is moved.\<close>

lemma checked_move_completes:
  assumes p: "files w src = Some (Doc (JObj p))" "well_formed p" "parent_name src = origin"
      "jget p ''status'' = JStr s" "ready s" "in_its_place src (jget p ''status'')"
    and q: "well_formed (build src p)"
      "in_its_place (target_of into src) (jget (build src p) ''status'')"
    and free: "files w (target_of into src) = None" and calm: "\<And>n. \<not> fault n"
    and apart: "origin \<noteq> into"
  shows "fst (checked_run fault origin ready build into False (finish_move fault) src w) = 0"
proof -
  have ne: "target_of into src \<noteq> src" using p(3) apart target_neq_src by auto
  have vp: "validate p = []" "validate_queue_path src (jget p ''status'') None = []"
    using p queue_path_Nil_iff [OF well_formed_status [OF p(2)]]
    by (simp_all add: validate_Nil_iff)
  have vq: "validate (build src p) = []"
    "validate_queue_path (target_of into src) (jget (build src p) ''status'') None = []"
    using q queue_path_Nil_iff [OF well_formed_status [OF q(1)]]
    by (simp_all add: validate_Nil_iff)
  have fm: "fst (finish_move fault src (target_of into src) (build src p) (advance w)) = 0"
    using free calm ne p(1) vq
    by (simp add: finish_move_def write_exclusive_def load_packet_def Let_def remove_file_def)
  show ?thesis
    using vp vq fm p(3,4,5) load_packet_good [OF p(1) calm]
    by (simp add: checked_run_def status_is_def)
qed

section \<open>The claim tool meets it\<close>

lemma status_build_claimed [simp]:
  "jget (build_claimed now p f c) ''status'' = JStr ''IN_PROGRESS''"
  by (simp add: build_claimed_def Let_def split: option.splits)

lemma audit_events_Some: "audit_events a = Some es \<Longrightarrow> is_obj a"
  by (simp add: audit_events_def split: json.splits)

lemma build_claimed_well_formed:
  assumes p: "well_formed p" "truthy (jget p ''clearance_expires_at'')" and now: "now \<noteq> []"
  shows "well_formed (build_claimed now p f c)"
proof -
  let ?s = "jput ''updated_at'' (JStr now) (jput ''source_path'' (JStr (IN_PROGRESS_DIR @ ''/'' @ f))
            (jput ''status'' (JStr ''IN_PROGRESS'') p))"
  let ?c = "if c \<noteq> [] then jput ''claimed_at'' (JStr now) (jput ''claimed_by'' (JStr c) ?s) else ?s"
  have "fields_ok ?s"
    using p(1) now by (intro fields_ok_jput field_ok_text field_ok_status)
      (simp_all add: well_formed_fields ALLOWED_STATUS_def)
  then have c: "fields_ok ?c"
    using now by (auto intro!: fields_ok_jput field_ok_text)
  have "fields_ok (build_claimed now p f c)"
    unfolding build_claimed_def Let_def
    using c by (auto split: option.splits intro!: fields_ok_jput [of _ "''audit_json''"]
        field_ok_blob simp: JSON_BLOB_FIELDS_def)
  moreover have "lease_ok (build_claimed now p f c)"
    using p(2) by (simp add: lease_ok_def build_claimed_def Let_def split: option.splits)
  ultimately show ?thesis by (simp add: well_formed_fields)
qed

lemma status_is_outside: "status_is (\<lambda>s. s \<in> set allowed) st \<longleftrightarrow> \<not> outside allowed st"
  by (simp add: status_is_def outside_def split: json.splits)

lemma claim_checked:
  "claim fault now src claimant dry w =
     checked_run fault OUTBOX (\<lambda>s. s \<in> set CLAIMABLE)
       (\<lambda>f p. build_claimed now p (basename f) claimant) IN_PROGRESS_DIR dry (finish_move fault) src w"
  by (simp add: claim_def checked_run_def status_is_outside target_of_def Let_def
      split: prod.splits sum.splits)

interpretation claim_tool: queue_move
  "\<lambda>fault src w. claim fault now src claimant dry w" OUTBOX IN_PROGRESS_DIR
  "\<lambda>s. s \<in> set CLAIMABLE" "''IN_PROGRESS''"
  for now claimant dry
  unfolding claim_checked by (rule checked_move_queue_move) simp_all


text \<open>What a successful claim did, and when a claim succeeds.\<close>

lemma claim_success:
  assumes "claim fault now src claimant False w = (0, w')"
  shows "\<exists>p s. files w src = Some (Doc (JObj p)) \<and> well_formed p \<and> parent_name src = OUTBOX \<and>
    jget p ''status'' = JStr s \<and> s \<in> set CLAIMABLE \<and> files w (target_of IN_PROGRESS_DIR src) = None \<and>
    well_formed (build_claimed now p (basename src) claimant) \<and>
    files w' = (files w)(target_of IN_PROGRESS_DIR src :=
      Some (Doc (JObj (build_claimed now p (basename src) claimant))), src := None)"
  using checked_move_success assms unfolding claim_checked by fastforce

lemma claim_completes:
  assumes p: "files w src = Some (Doc (JObj p))" "well_formed p" "parent_name src = OUTBOX"
      "jget p ''status'' = JStr s" "s \<in> set CLAIMABLE"
    and lease: "truthy (jget p ''clearance_expires_at'')" and now: "now \<noteq> []"
    and free: "files w (target_of IN_PROGRESS_DIR src) = None" and calm: "\<And>n. \<not> fault n"
  shows "fst (claim fault now src claimant False w) = 0"
  unfolding claim_checked
proof (rule checked_move_completes [where s = s and ready = "\<lambda>s. s \<in> set CLAIMABLE", OF p])
  show "in_its_place src (jget p ''status'')"
    using p by (auto simp: in_its_place_def QUEUE_STATUS_def CLAIMABLE_def)
  show "well_formed (build_claimed now p (basename src) claimant)"
    using p lease now by (intro build_claimed_well_formed)
  show "in_its_place (target_of IN_PROGRESS_DIR src)
      (jget (build_claimed now p (basename src) claimant) ''status'')"
    by (simp add: in_its_place_def QUEUE_STATUS_def)
qed (use free calm in auto)

end
