(* ===== verification/Packet_Decide.thy ===== *)
theory Packet_Decide
  imports Packet_Claim
begin

text \<open>
  Clearance decisions on a waiting packet (\<open>tools/clearwright_decide.py\<close>): clear to act (CTA),
  deny to act (DTA) and request for information (RFI). CTA and RFI rewrite the packet in the
  outbox; DTA moves it to the done directory. The three subcommands are \<open>cmd_cta\<close>, \<open>cmd_dta\<close> and
  \<open>cmd_rfi\<close>. An absent optional text argument and an empty one mean the same to the tool, so both
  are the empty string here; \<open>iso_in\<close> is the clock read \<open>_iso_in\<close> (a timestamp so many minutes
  from now).
\<close>

datatype decision = CTA | DTA | RFI_PENDING

definition DECIDABLE :: "string list" where
  "DECIDABLE = [''RTA'', ''IN_REVIEW'']"

definition DEFAULT_ACTOR :: string where
  "DEFAULT_ACTOR = ''OPERATOR-0001''"

definition DEFAULT_LEASE_MINUTES :: int where
  "DEFAULT_LEASE_MINUTES = 120"

definition append_audit :: "jobj \<Rightarrow> jobj \<Rightarrow> jobj" where
  "append_audit out event =
     (let audit = jget out ''audit_json'' in
      jput ''audit_json'' (JObj (case audit_events audit of
          Some es \<Rightarrow> jput ''events'' (JArr (es @ [JObj event])) (obj_of audit)
        | None \<Rightarrow> [(''events'', JArr [JObj event])])) out)"

definition build_decision ::
    "string \<Rightarrow> (int \<Rightarrow> string) \<Rightarrow> jobj \<Rightarrow> string \<Rightarrow> decision \<Rightarrow> string \<Rightarrow> string \<Rightarrow> int \<Rightarrow> jobj" where
  "build_decision now iso_in packet filename decision actor reason lease_minutes =
     (let actor = (if actor = [] then DEFAULT_ACTOR else actor);
          out = jput ''updated_at'' (JStr now) packet
      in case decision of
        CTA \<Rightarrow>
          (let expires = iso_in (if lease_minutes = 0 then DEFAULT_LEASE_MINUTES
                                 else lease_minutes);
               out = jput ''status'' (JStr ''CTA'') out;
               out = jput ''source_path'' (JStr (OUTBOX @ ''/'' @ filename)) out;
               out = jput ''cleared_by'' (JStr actor) out;
               out = jput ''clearance_expires_at'' (JStr expires) out;
               out = jput ''decision_json'' (JObj
                 [(''decision'', JStr ''CTA''), (''decided_by'', JStr actor),
                  (''decided_at'', JStr now), (''rationale'', JStr reason),
                  (''clearance_expires_at'', JStr expires)]) out;
               note = ''Cleared to act; lease expires '' @ expires @
                 (if reason = [] then [] else '': '' @ reason)
           in append_audit out [(''at'', JStr now), (''event'', JStr ''CTA''),
                (''actor'', JStr actor), (''note'', JStr note)])
      | DTA \<Rightarrow>
          (let out = jput ''status'' (JStr ''DTA'') out;
               out = jput ''source_path'' (JStr (DONE_DIR @ ''/'' @ filename)) out;
               out = jput ''denied_by'' (JStr actor) out;
               out = jput ''decision_json'' (JObj
                 [(''decision'', JStr ''DTA''), (''decided_by'', JStr actor),
                  (''decided_at'', JStr now), (''rationale'', JStr reason)]) out
           in append_audit out [(''at'', JStr now), (''event'', JStr ''DTA''),
                (''actor'', JStr actor), (''note'', JStr (''Denied to act: '' @ reason)),
                (''reason'', JStr reason)])
      | RFI_PENDING \<Rightarrow>
          (let out = jput ''status'' (JStr ''RFI_PENDING'') out;
               out = jput ''source_path'' (JStr (OUTBOX @ ''/'' @ filename)) out;
               out = jput ''rfi_json'' (JObj
                 [(''requested_by'', JStr actor), (''requested_at'', JStr now),
                  (''question'', JStr reason)]) out
           in append_audit out [(''at'', JStr now), (''event'', JStr ''RFI_PENDING''),
                (''actor'', JStr actor), (''note'', JStr (''Information requested: '' @ reason)),
                (''reason'', JStr reason)]))"

text \<open>Step 8b: rewrite in place, then re-validate what is on disk.\<close>

definition finish_inplace :: "faults \<Rightarrow> path \<Rightarrow> jobj \<Rightarrow> world \<Rightarrow> int \<times> world" where
  "finish_inplace fault src result w =
     (case write_inplace fault src (JObj result) w of
        (Some _, w1) \<Rightarrow> (1, w1)
      | (None, w1) \<Rightarrow>
          (case load_packet fault src w1 of (written, w2) \<Rightarrow>
             (if (case written of
                    Inl _ \<Rightarrow> True
                  | Inr q \<Rightarrow> validate q @ validate_queue_path src (jget q ''status'') None \<noteq> [])
              then 1 else 0, w2)))"

definition dest_dir_of :: "decision \<Rightarrow> string" where
  "dest_dir_of d = (case d of DTA \<Rightarrow> DONE_DIR | _ \<Rightarrow> OUTBOX)"

definition decide ::
    "faults \<Rightarrow> string \<Rightarrow> (int \<Rightarrow> string) \<Rightarrow> path \<Rightarrow> decision \<Rightarrow> string \<Rightarrow> string \<Rightarrow> bool \<Rightarrow> int \<Rightarrow>
     world \<Rightarrow> int \<times> world" where
  "decide fault now iso_in packet_file decision actor reason dry_run lease_minutes w =
     (case load_packet fault packet_file w of
        (Inl code, w1) \<Rightarrow> (code, w1)
      | (Inr packet, w1) \<Rightarrow>
          if validate packet \<noteq> [] then (1, w1)
          else if parent_name packet_file \<noteq> OUTBOX then (1, w1)
          else if validate_queue_path packet_file (jget packet ''status'') None \<noteq> [] then (1, w1)
          else if outside DECIDABLE (jget packet ''status'') then (1, w1)
          else let filename = basename packet_file;
                   dest = queue_root_of packet_file @ [dest_dir_of decision, filename];
                   result = build_decision now iso_in packet filename decision actor reason
                     lease_minutes
               in if validate result @
                    validate_queue_path dest (jget result ''status'') None \<noteq> [] then (1, w1)
                  else if dry_run then (0, w1)
                  else if decision = DTA then finish_move fault packet_file dest result w1
                  else finish_inplace fault packet_file result w1)"

definition cmd_cta where
  "cmd_cta fault now iso_in packet_file actor reason dry_run lease_minutes w =
     decide fault now iso_in packet_file CTA actor (strip reason) dry_run lease_minutes w"

definition cmd_dta where
  "cmd_dta fault now iso_in packet_file actor reason dry_run w =
     (if blank reason then (1, w)
      else decide fault now iso_in packet_file DTA actor (strip reason) dry_run 0 w)"

definition cmd_rfi where
  "cmd_rfi fault now iso_in packet_file actor reason dry_run w =
     (if blank reason then (1, w)
      else decide fault now iso_in packet_file RFI_PENDING actor (strip reason) dry_run 0 w)"

section \<open>Lemmas\<close>

definition status_of :: "decision \<Rightarrow> string" where
  "status_of d = (case d of CTA \<Rightarrow> ''CTA'' | DTA \<Rightarrow> ''DTA'' | RFI_PENDING \<Rightarrow> ''RFI_PENDING'')"

lemma jget_append_audit: "k \<noteq> ''audit_json'' \<Longrightarrow> jget (append_audit out ev) k = jget out k"
  by (simp add: append_audit_def Let_def)

lemma audit_events_append_audit:
  "audit_events (jget (append_audit out ev) ''audit_json'') =
     Some ((case audit_events (jget out ''audit_json'') of None \<Rightarrow> [] | Some es \<Rightarrow> es) @ [JObj ev])"
  by (simp add: append_audit_def Let_def audit_events_def jget_Cons split: json.splits)

lemma status_build_decision [simp]:
  "jget (build_decision now isof p f d a r l) ''status'' = JStr (status_of d)"
  by (simp add: build_decision_def Let_def status_of_def jget_append_audit split: decision.splits)

lemma finish_inplace_frame:
  "p \<noteq> src \<Longrightarrow> p \<noteq> tmp_path src \<Longrightarrow> files (snd (finish_inplace fault src q w)) p = files w p"
  by (auto simp: finish_inplace_def split: prod.splits option.splits)
    (metis load_packet_files snd_conv write_inplace_frame)+

lemma finish_inplace_source:
  "files (snd (finish_inplace fault src q w)) src \<in> {files w src, Some (Doc (JObj q))}"
proof -
  obtain e w1 where w1: "write_inplace fault src (JObj q) w = (e, w1)" by fastforce
  have "files w1 src \<in> {files w src, Some (Doc (JObj q))}"
    using write_inplace_ok [of fault src "JObj q" w] w1
      write_inplace_failed [of fault src "JObj q" w src]
    by (cases e) auto
  moreover have "files (snd (finish_inplace fault src q w)) = files w1"
    by (auto simp: finish_inplace_def w1 load_packet_same split: option.splits prod.splits)
  ultimately show ?thesis by simp
qed

lemma finish_inplace_temporary:
  "files (snd (finish_inplace fault src q w)) (tmp_path src) \<in>
     {files w (tmp_path src), None, Some Torn, Some (Doc (JObj q))}"
proof -
  obtain e w1 where w1: "write_inplace fault src (JObj q) w = (e, w1)" by fastforce
  have "files w1 (tmp_path src) \<in> {files w (tmp_path src), None, Some Torn, Some (Doc (JObj q))}"
    using w1 by (auto simp: write_inplace_def Let_def remove_file_def split: if_splits)
  moreover have "files (snd (finish_inplace fault src q w)) = files w1"
    by (auto simp: finish_inplace_def w1 load_packet_same split: option.splits prod.splits)
  ultimately show ?thesis by simp
qed

lemma finish_inplace_success:
  assumes "fst (finish_inplace fault src q w) = 0"
  shows "files (snd (finish_inplace fault src q w)) =
    (files w)(src := Some (Doc (JObj q)), tmp_path src := None)"
proof -
  obtain e w1 where w1: "write_inplace fault src (JObj q) w = (e, w1)" by fastforce
  have "e = None" using assms by (auto simp: finish_inplace_def w1 split: option.splits)
  moreover have "files (snd (finish_inplace fault src q w)) = files w1"
    by (auto simp: finish_inplace_def w1 load_packet_same split: option.splits prod.splits)
  ultimately show ?thesis using write_inplace_ok [of fault src "JObj q" w] w1 by simp
qed

lemma checked_inplace_queue_tool:
  assumes status: "\<And>src p. jget (build src p) ''status'' = JStr result"
    and dir: "origin \<noteq> []"
  shows "queue_tool (\<lambda>fault. checked_run fault origin ready build origin dry
      (\<lambda>src dest. finish_inplace fault src)) origin origin ready result"
proof (unfold_locales)
  fix fault src w p
  let ?run = "checked_run fault origin ready build origin dry
      (\<lambda>src dest. finish_inplace fault src) src w"
  obtain c w' where r: "?run = (c, w')" by fastforce
  have out: "outcome origin result (build src q)"
    if "well_formed (build src q)"
      "in_its_place (target_of origin src) (jget (build src q) ''status'')" for q
    using that status by (auto simp: outcome_def in_its_place_def)
  show "fst ?run \<noteq> 0 \<and> files (snd ?run) = files w" if "\<not> eligible origin ready w src"
    using r
  proof (cases rule: checked_run_cases)
    case (commit q s w1)
    then show ?thesis using that by (auto simp: eligible_def)
  qed (use that r in simp_all)
  show "files (snd ?run) p = files w p"
    if "p \<noteq> src" "p \<noteq> target_of origin src" "p \<noteq> tmp_path src"
    using r
  proof (cases rule: checked_run_cases)
    case (commit q s w1)
    then show ?thesis using that finish_inplace_frame [of p src fault "build src q" w1] r by simp
  qed (use r in simp_all)
  show "files (snd ?run) (target_of origin src) \<in>
      {files w (target_of origin src), None, Some Torn} \<union>
      {Some (Doc (JObj q)) |q. outcome origin result q}"
    using r
  proof (cases rule: checked_run_cases)
    case (commit q s w1)
    then show ?thesis
      using finish_inplace_source [of fault src "build src q" w1] r out [of q]
        target_eq_src [OF commit(3) dir] by auto
  qed (use r in simp_all)
  show "files (snd ?run) (tmp_path src) = files w (tmp_path src) \<or>
      origin = origin \<and> files (snd ?run) (tmp_path src) \<in>
        {None, Some Torn} \<union> {Some (Doc (JObj q)) |q. outcome origin result q}"
    using r
  proof (cases rule: checked_run_cases)
    case (commit q s w1)
    then show ?thesis
      using finish_inplace_temporary [of fault src "build src q" w1] r out [of q] by auto
  qed (use r in simp_all)
  show "files (snd ?run) src = files w src \<or>
      (\<exists>q. outcome origin result q \<and> files (snd ?run) (target_of origin src) = Some (Doc (JObj q)) \<and>
         (src \<noteq> target_of origin src \<longrightarrow> files (snd ?run) src = None))"
    using r
  proof (cases rule: checked_run_cases)
    case (commit q s w1)
    then show ?thesis
      using finish_inplace_source [of fault src "build src q" w1] r out [of q]
        target_eq_src [OF commit(3) dir] by auto
  qed (use r in simp_all)
qed

lemma fields_ok_append_audit: "fields_ok out \<Longrightarrow> fields_ok (append_audit out ev)"
  unfolding append_audit_def Let_def
  by (rule fields_ok_jput) (auto intro!: field_ok_blob simp: JSON_BLOB_FIELDS_def)

text \<open>A decision on a valid packet gives a valid packet.\<close>

lemma build_decision_well_formed:
  assumes p: "well_formed p" and now: "now \<noteq> []" and iso: "\<And>n. isof n \<noteq> []"
  shows "well_formed (build_decision now isof p f d a r l)"
proof -
  define u where "u = jput ''updated_at'' (JStr now) p"
  have "fields_ok u"
    unfolding u_def using p now
    by (intro fields_ok_jput field_ok_text) (simp_all add: well_formed_fields)
  then have st: "fields_ok (jput ''status'' (JStr (status_of d)) u)"
    by (intro fields_ok_jput field_ok_status)
      (auto simp: status_of_def ALLOWED_STATUS_def split: decision.splits)
  have "fields_ok (build_decision now isof p f d a r l)"
    using st iso unfolding build_decision_def Let_def u_def [symmetric]
    by (cases d) (simp_all add: fields_ok_append_audit fields_ok_jput field_ok_text field_ok_blob
        status_of_def DEFAULT_ACTOR_def JSON_BLOB_FIELDS_def)
  moreover have "lease_ok (build_decision now isof p f d a r l)"
    using iso by (cases d) (simp_all add: lease_ok_def build_decision_def Let_def
        jget_append_audit)
  ultimately show ?thesis by (simp add: well_formed_fields)
qed

section \<open>The decision tools meet the contract\<close>

abbreviation decidable :: "string \<Rightarrow> bool" where
  "decidable s \<equiv> s \<in> set DECIDABLE"

lemma decide_checked:
  "decide fault now isof src d actor reason dry lease w =
     checked_run fault OUTBOX decidable
       (\<lambda>f p. build_decision now isof p (basename f) d actor reason lease) (dest_dir_of d) dry
       (if d = DTA then finish_move fault else (\<lambda>src dest. finish_inplace fault src)) src w"
  by (simp add: decide_def checked_run_def status_is_outside target_of_def Let_def
      split: prod.splits sum.splits)

lemma decide_dta_move:
  "queue_move (\<lambda>fault src w. decide fault now isof src DTA actor reason dry lease w)
     OUTBOX DONE_DIR decidable ''DTA''"
  unfolding decide_checked dest_dir_of_def
  by (simp, rule checked_move_queue_move) (simp_all add: status_of_def)

interpretation cta_tool: queue_tool
  "\<lambda>fault src w. cmd_cta fault now isof src actor reason dry lease w" OUTBOX OUTBOX decidable "''CTA''"
  for now isof actor reason dry lease
  unfolding cmd_cta_def decide_checked dest_dir_of_def
  by (simp, rule checked_inplace_queue_tool) (simp_all add: status_of_def)

lemma decide_rfi_tool:
  "queue_tool (\<lambda>fault src w. decide fault now isof src RFI_PENDING actor reason dry lease w)
     OUTBOX OUTBOX decidable ''RFI_PENDING''"
  unfolding decide_checked dest_dir_of_def
  by (simp, rule checked_inplace_queue_tool) (simp_all add: status_of_def)

text \<open>The blank-reason guard in front of a tool keeps its contract.\<close>

lemma guarded_queue_tool:
  assumes "queue_tool run origin into ready result"
  shows "queue_tool (\<lambda>fault src w. if g then (1, w) else run fault src w) origin into ready result"
proof (cases g)
  case True
  then show ?thesis by (unfold_locales) simp_all
qed (use assms in simp)

lemma guarded_queue_move:
  assumes "queue_move run origin into ready result"
  shows "queue_move (\<lambda>fault src w. if g then (1, w) else run fault src w) origin into ready result"
proof (cases g)
  case True
  then show ?thesis
    using queue_move.apart [OF assms] by (unfold_locales) simp_all
qed (use assms in simp)

interpretation rfi_tool: queue_tool
  "\<lambda>fault src w. cmd_rfi fault now isof src actor reason dry w" OUTBOX OUTBOX decidable
  "''RFI_PENDING''"
  for now isof actor reason dry
  unfolding cmd_rfi_def by (rule guarded_queue_tool, rule decide_rfi_tool)

interpretation dta_tool: queue_move
  "\<lambda>fault src w. cmd_dta fault now isof src actor reason dry w" OUTBOX DONE_DIR decidable "''DTA''"
  for now isof actor reason dry
  unfolding cmd_dta_def by (rule guarded_queue_move, rule decide_dta_move)


lemma checked_inplace_completes:
  assumes p: "files w src = Some (Doc (JObj p))" "well_formed p" "parent_name src = origin"
      "jget p ''status'' = JStr s" "ready s" "in_its_place src (jget p ''status'')"
    and q: "well_formed (build src p)" "in_its_place src (jget (build src p) ''status'')"
    and calm: "\<And>n. \<not> fault n" and dir: "origin \<noteq> []"
  shows "\<exists>w'. checked_run fault origin ready build origin False
      (\<lambda>src dest. finish_inplace fault src) src w = (0, w') \<and>
    files w' = (files w)(src := Some (Doc (JObj (build src p))), tmp_path src := None)"
proof -
  have t: "target_of origin src = src" using target_eq_src [OF p(3) dir] .
  have vp: "validate p = []" "validate_queue_path src (jget p ''status'') None = []"
    using p queue_path_Nil_iff [OF well_formed_status [OF p(2)]] by (simp_all add: validate_Nil_iff)
  have vq: "validate (build src p) = []"
    "validate_queue_path src (jget (build src p) ''status'') None = []"
    using q queue_path_Nil_iff [OF well_formed_status [OF q(1)]] by (simp_all add: validate_Nil_iff)
  have f: "fst (finish_inplace fault src (build src p) (advance w)) = 0"
    using calm vq
    by (simp add: finish_inplace_def write_inplace_def load_packet_def Let_def)
  have "checked_run fault origin ready build origin False (\<lambda>src dest. finish_inplace fault src) src w =
      finish_inplace fault src (build src p) (advance w)"
    using vp vq p(3,4,5) t load_packet_good [OF p(1) calm]
    by (simp add: checked_run_def status_is_def)
  with f finish_inplace_success [OF f] show ?thesis
    by (cases "finish_inplace fault src (build src p) (advance w)") simp
qed

lemma cta_completes:
  assumes p: "files w src = Some (Doc (JObj p))" "well_formed p" "parent_name src = OUTBOX"
      "jget p ''status'' = JStr s" "s \<in> set DECIDABLE"
    and now: "now \<noteq> []" "\<And>n. isof n \<noteq> []" and calm: "\<And>n. \<not> fault n"
  shows "\<exists>w'. cmd_cta fault now isof src actor reason False lease w = (0, w') \<and>
    files w' = (files w)(src := Some (Doc (JObj
      (build_decision now isof p (basename src) CTA actor (strip reason) lease))), tmp_path src := None)"
proof -
  let ?build = "\<lambda>f p. build_decision now isof p (basename f) CTA actor (strip reason) lease"
  have "in_its_place src (jget p ''status'')"
    using p by (auto simp: in_its_place_def QUEUE_STATUS_def DECIDABLE_def)
  moreover have "in_its_place src (jget (?build src p) ''status'')"
    using p(3) by (simp add: in_its_place_def QUEUE_STATUS_def status_of_def)
  moreover have "well_formed (?build src p)" using p now by (intro build_decision_well_formed)
  ultimately have "\<exists>w'. checked_run fault OUTBOX decidable ?build OUTBOX False
      (\<lambda>src dest. finish_inplace fault src) src w = (0, w') \<and>
      files w' = (files w)(src := Some (Doc (JObj (?build src p))), tmp_path src := None)"
    using p calm by (intro checked_inplace_completes) auto
  then show ?thesis by (simp add: cmd_cta_def decide_checked dest_dir_of_def)
qed

text \<open>What a decision leaves in the packet.\<close>

lemma build_decision_lease:
  "jget (build_decision now isof p f CTA a r l) ''clearance_expires_at'' =
     JStr (isof (if l = 0 then DEFAULT_LEASE_MINUTES else l))"
  by (simp add: build_decision_def Let_def jget_append_audit)

lemma build_decision_audit:
  "\<exists>ev. audit_events (jget (build_decision now isof p f d a r l) ''audit_json'') =
     Some ((case audit_events (jget p ''audit_json'') of None \<Rightarrow> [] | Some es \<Rightarrow> es) @ [JObj ev]) \<and>
     jget ev ''event'' = JStr (status_of d) \<and>
     jget ev ''actor'' = JStr (if a = [] then DEFAULT_ACTOR else a)"
  by (cases d) (auto simp: build_decision_def Let_def audit_events_append_audit status_of_def jget_Cons)

end
