(* ===== verification/Packet_Lifecycle.thy ===== *)
theory Packet_Lifecycle
  imports Packet_Decide
begin

text \<open>
  Lifecycle control after a claim (\<open>tools/clearwright_lifecycle.py\<close>): completing and failing an
  in-progress packet, and the read-only reports \<open>inspect\<close>, \<open>stale\<close> and \<open>status\<close>.
  \<open>fromiso\<close> is \<open>datetime.fromisoformat\<close> with a naive time read as UTC (the instant in
  microseconds, \<open>None\<close> where it raises), and \<open>ls\<close> is what listing a directory gives.
\<close>

section \<open>Completing and failing\<close>

text \<open>\<open>build_results\<close>: the optional outcome of a completion, an absent option being empty.\<close>

definition build_results :: "string \<Rightarrow> string \<Rightarrow> string list \<Rightarrow> string \<Rightarrow> jobj" where
  "build_results summary verification changed_file findings =
     (let files = map strip (filter (\<lambda>f. \<not> blank f) changed_file) in
      (if blank summary then [] else [(''summary'', JStr (strip summary))]) @
      (if blank verification then [] else [(''verification'', JStr (strip verification))]) @
      (if files = [] then [] else [(''changed_files'', JArr (map JStr files))]) @
      (if blank findings then [] else [(''findings'', JStr (strip findings))]))"

definition LIFECYCLE_ACTOR :: string where
  "LIFECYCLE_ACTOR = ''operator''"

definition build_transition ::
    "string \<Rightarrow> jobj \<Rightarrow> string \<Rightarrow> string \<Rightarrow> string \<Rightarrow> string \<Rightarrow> string \<Rightarrow> jobj \<Rightarrow> jobj" where
  "build_transition now packet filename new_status dest_dir actor reason results =
     (let out = jput ''updated_at'' (JStr now)
            (jput ''source_path'' (JStr (dest_dir @ ''/'' @ filename))
            (jput ''status'' (JStr new_status) packet));
          event = [(''at'', JStr now), (''event'', JStr new_status),
            (''actor'', JStr (if actor = [] then LIFECYCLE_ACTOR else actor))];
          event = (if reason \<noteq> []
            then event @ [(''reason'', JStr reason),
              (''note'', JStr (''Failed and moved to '' @ dest_dir @ '': '' @ reason))]
            else event @ [(''note'', JStr (''Completed and moved to '' @ dest_dir))]);
          event = (if results \<noteq> [] then event @ [(''results'', JObj results)] else event)
      in append_audit out event)"

definition transition ::
    "faults \<Rightarrow> string \<Rightarrow> path \<Rightarrow> string \<Rightarrow> string \<Rightarrow> string \<Rightarrow> bool \<Rightarrow> string \<Rightarrow> jobj \<Rightarrow>
     world \<Rightarrow> int \<times> world" where
  "transition fault now packet_file dest_dir new_status actor dry_run reason results w =
     (case load_packet fault packet_file w of
        (Inl code, w1) \<Rightarrow> (code, w1)
      | (Inr packet, w1) \<Rightarrow>
          if validate packet \<noteq> [] then (1, w1)
          else if parent_name packet_file \<noteq> IN_PROGRESS_DIR then (1, w1)
          else if validate_queue_path packet_file (jget packet ''status'') None \<noteq> [] then (1, w1)
          else if jget packet ''status'' \<noteq> JStr ''IN_PROGRESS'' then (1, w1)
          else let filename = basename packet_file;
                   dest = queue_root_of packet_file @ [dest_dir, filename];
                   result = build_transition now packet filename new_status dest_dir actor reason
                     results
               in if validate result @
                    validate_queue_path dest (jget result ''status'') None \<noteq> [] then (1, w1)
                  else if dry_run then (0, w1)
                  else finish_move fault packet_file dest result w1)"

definition cmd_complete where
  "cmd_complete fault now packet_file actor dry_run results w =
     transition fault now packet_file DONE_DIR ''DONE'' actor dry_run [] results w"

definition cmd_fail where
  "cmd_fail fault now packet_file actor dry_run reason w =
     (if blank reason then (1, w)
      else transition fault now packet_file FAILED_DIR ''FAILED'' actor dry_run (strip reason) [] w)"

lemma status_build_transition [simp]:
  "jget (build_transition now p f st d a r res) ''status'' = JStr st"
  by (simp add: build_transition_def Let_def jget_append_audit)

lemma transition_checked:
  "transition fault now src d st actor dry reason results w =
     checked_run fault IN_PROGRESS_DIR (\<lambda>s. s = ''IN_PROGRESS'')
       (\<lambda>f p. build_transition now p (basename f) st d actor reason results) d dry
       (finish_move fault) src w"
  by (auto simp: transition_def checked_run_def status_is_def target_of_def Let_def
      split: prod.splits sum.splits json.splits)

interpretation complete_tool: queue_move
  "\<lambda>fault src w. cmd_complete fault now src actor dry results w" IN_PROGRESS_DIR DONE_DIR
  "\<lambda>s. s = ''IN_PROGRESS''" "''DONE''"
  for now actor dry results
  unfolding cmd_complete_def transition_checked by (rule checked_move_queue_move) simp_all

lemma transition_failed_move:
  "queue_move (\<lambda>fault src w. transition fault now src FAILED_DIR ''FAILED'' actor dry reason results w)
     IN_PROGRESS_DIR FAILED_DIR (\<lambda>s. s = ''IN_PROGRESS'') ''FAILED''"
  unfolding transition_checked by (rule checked_move_queue_move) simp_all

interpretation fail_tool: queue_move
  "\<lambda>fault src w. cmd_fail fault now src actor dry reason w" IN_PROGRESS_DIR FAILED_DIR
  "\<lambda>s. s = ''IN_PROGRESS''" "''FAILED''"
  for now actor dry reason
  unfolding cmd_fail_def by (rule guarded_queue_move, rule transition_failed_move)

section \<open>Reports\<close>

text \<open>\<open>parse_iso\<close>: a trailing Z is an offset of zero.\<close>

definition parse_iso :: "(string \<Rightarrow> int option) \<Rightarrow> json \<Rightarrow> int option" where
  "parse_iso fromiso value =
     (case value of
        JStr s \<Rightarrow>
          (let t = strip s in
           if t = [] then None
           else fromiso (if suffix ''Z'' t then butlast t @ ''+00:00'' else t))
      | _ \<Rightarrow> None)"

text \<open>\<open>expected_queue_for\<close>: membership in a set of strings raises on an unhashable status.\<close>

definition expected_queue_for :: "json \<Rightarrow> pyexc + string option" where
  "expected_queue_for status =
     (if \<not> hashable status then Inl TypeError
      else Inr (map_option fst (find (\<lambda>(_, sts). \<not> outside sts status) QUEUE_STATUS)))"

definition audit_event_count :: "jobj \<Rightarrow> nat option" where
  "audit_event_count packet = map_option length (audit_events (jget packet ''audit_json''))"

record info =
  filename :: string
  info_status :: json
  physical_queue :: string
  expected_queue :: "string option"
  strict_path_errors :: "verr list"
  field_errors :: "verr list"
  claim_expired :: bool
  clearance_expired :: bool
  invalid_datetimes :: "string list"
  stale :: bool
  event_count :: "nat option"

text \<open>A lease field is absent, unreadable, expired or still running.\<close>

definition lease_state :: "(string \<Rightarrow> int option) \<Rightarrow> int \<Rightarrow> json \<Rightarrow> bool \<times> bool" where
  "lease_state fromiso now raw =
     (if raw = JNull then (False, False)
      else case parse_iso fromiso raw of
          None \<Rightarrow> (True, False)
        | Some dt \<Rightarrow> (False, dt < now))"

definition analyze ::
    "(string \<Rightarrow> int option) \<Rightarrow> path \<Rightarrow> jobj \<Rightarrow> int \<Rightarrow> path option \<Rightarrow> pyexc + info" where
  "analyze fromiso p packet now queue_root =
     (let status = jget packet ''status'';
          (bad_claim, late_claim) = lease_state fromiso now (jget packet ''claim_expires_at'');
          (bad_clear, late_clear) = lease_state fromiso now (jget packet ''clearance_expires_at'')
      in case expected_queue_for status of
           Inl e \<Rightarrow> Inl e
         | Inr exq \<Rightarrow> Inr
             \<lparr>filename = basename p, info_status = status, physical_queue = parent_name p,
              expected_queue = exq,
              strict_path_errors = validate_queue_path p status queue_root,
              field_errors = validate packet,
              claim_expired = late_claim, clearance_expired = late_clear,
              invalid_datetimes = (if bad_claim then [''claim_expires_at''] else []) @
                (if bad_clear then [''clearance_expires_at''] else []),
              stale = (late_claim \<or> late_clear), event_count = audit_event_count packet\<rparr>)"

definition stale_reasons :: "info \<Rightarrow> string list" where
  "stale_reasons i = (if claim_expired i then [''claim_expires_at expired''] else []) @
     (if clearance_expired i then [''clearance_expires_at expired''] else [])"

text \<open>Everything a scan calls a problem: field rules, location rules, unreadable lease dates.\<close>

datatype problem = Field verr | Strict verr | Datetime string | NotInProgress json

definition invalid_reasons :: "info \<Rightarrow> problem list" where
  "invalid_reasons i = map Field (field_errors i) @ map Strict (strict_path_errors i) @
     map Datetime (invalid_datetimes i)"

definition cmd_inspect ::
    "faults \<Rightarrow> (string \<Rightarrow> int option) \<Rightarrow> int \<Rightarrow> path option \<Rightarrow> path \<Rightarrow> world \<Rightarrow> (pyexc + int) \<times> world"
  where
  "cmd_inspect fault fromiso now queue_root p w =
     (case load_packet fault p w of
        (Inl code, w1) \<Rightarrow> (Inr code, w1)
      | (Inr packet, w1) \<Rightarrow>
          (case analyze fromiso p packet now queue_root of
             Inl e \<Rightarrow> (Inl e, w1)
           | Inr i \<Rightarrow> (Inr (if field_errors i = [] \<and> strict_path_errors i = [] \<and> \<not> stale i
                            then 0 else 1), w1)))"

datatype listing = NotDir | Unreadable | Names "string list"

definition scanned :: "path \<Rightarrow> world \<Rightarrow> string \<Rightarrow> bool" where
  "scanned d w name \<longleftrightarrow> name \<noteq> ''.gitkeep'' \<and> suffix ''.json'' name \<and> files w (d @ [name]) \<noteq> None"

fun scan_names ::
    "faults \<Rightarrow> (string \<Rightarrow> int option) \<Rightarrow> int \<Rightarrow> path option \<Rightarrow> path \<Rightarrow> string list \<Rightarrow> world \<Rightarrow>
     (pyexc + info list \<times> string list) \<times> world" where
  "scan_names fault fromiso now queue_root d [] w = (Inr ([], []), w)"
| "scan_names fault fromiso now queue_root d (name # names) w =
     (if \<not> scanned d w name then scan_names fault fromiso now queue_root d names w
      else case load_packet fault (d @ [name]) w of
        (Inl _, w1) \<Rightarrow>
          (case scan_names fault fromiso now queue_root d names w1 of
             (Inl e, w2) \<Rightarrow> (Inl e, w2)
           | (Inr (results, malformed), w2) \<Rightarrow> (Inr (results, name # malformed), w2))
      | (Inr packet, w1) \<Rightarrow>
          (case analyze fromiso (d @ [name]) packet now queue_root of
             Inl e \<Rightarrow> (Inl e, w1)
           | Inr i \<Rightarrow>
               (case scan_names fault fromiso now queue_root d names w1 of
                  (Inl e, w2) \<Rightarrow> (Inl e, w2)
                | (Inr (results, malformed), w2) \<Rightarrow> (Inr (i # results, malformed), w2))))"

definition scan_dir where
  "scan_dir fault fromiso now queue_root d names w =
     scan_names fault fromiso now queue_root d (sort names) w"

text \<open>\<open>_scan_exit\<close>: with no \<open>--fail-on\<close> flag any finding fails the run, otherwise only the chosen.\<close>

definition scan_exit :: "nat \<Rightarrow> nat \<Rightarrow> bool \<Rightarrow> bool \<Rightarrow> int" where
  "scan_exit stale_count invalid_count fail_on_stale fail_on_invalid =
     (if \<not> fail_on_stale \<and> \<not> fail_on_invalid
      then (if stale_count \<noteq> 0 \<or> invalid_count \<noteq> 0 then 1 else 0)
      else if fail_on_stale \<and> stale_count \<noteq> 0 then 1
      else if fail_on_invalid \<and> invalid_count \<noteq> 0 then 1
      else 0)"

text \<open>What \<open>stale\<close> reports of one scanned packet.\<close>

definition stale_problems :: "info \<Rightarrow> problem list" where
  "stale_problems i = invalid_reasons i @
     (if physical_queue i = IN_PROGRESS_DIR \<and> info_status i \<noteq> JStr ''IN_PROGRESS''
      then [NotInProgress (info_status i)] else [])"

definition cmd_stale where
  "cmd_stale fault fromiso now ls d fail_on_stale fail_on_invalid w =
     (case ls d of
        NotDir \<Rightarrow> (Inr 2, w)
      | Unreadable \<Rightarrow> (Inr 2, w)
      | Names names \<Rightarrow>
          (case scan_dir fault fromiso now None d names w of
             (Inl e, w1) \<Rightarrow> (Inl e, w1)
           | (Inr (results, malformed), w1) \<Rightarrow>
               (Inr (scan_exit (length (filter stale results))
                  (length (filter (\<lambda>i. stale_problems i \<noteq> []) results) + length malformed)
                  fail_on_stale fail_on_invalid), w1)))"

record report =
  counts :: "(string \<times> nat) list"
  by_status :: "(json \<times> nat) list"
  total :: nat
  missing_dirs :: "string list"
  stale_names :: "string list"
  invalid_entries :: "(string \<times> problem list) list"
  malformed_names :: "string list"

definition empty_report :: report where
  "empty_report = \<lparr>counts = [], by_status = [], total = 0, missing_dirs = [], stale_names = [],
     invalid_entries = [], malformed_names = []\<rparr>"

definition CANONICAL_DIRS :: "string list" where
  "CANONICAL_DIRS = [OUTBOX, IN_PROGRESS_DIR, DONE_DIR, FAILED_DIR]"

definition count_status :: "json \<Rightarrow> (json \<times> nat) list \<Rightarrow> (json \<times> nat) list" where
  "count_status st m =
     AList.update (key_of st) (Suc (case map_of m (key_of st) of None \<Rightarrow> 0 | Some n \<Rightarrow> n)) m"

definition add_info :: "string \<Rightarrow> info \<Rightarrow> report \<Rightarrow> report" where
  "add_info qdir i r =
     r\<lparr>by_status := count_status (info_status i) (by_status r),
       stale_names := stale_names r @
         (if qdir = IN_PROGRESS_DIR \<and> stale i then [filename i] else []),
       invalid_entries := invalid_entries r @
         (if invalid_reasons i \<noteq> [] then [(filename i, invalid_reasons i)] else [])\<rparr>"

text \<open>One canonical directory of \<open>status\<close>; \<open>Inl (Inr 2)\<close> is the early exit on an unreadable one.\<close>

fun status_dirs ::
    "faults \<Rightarrow> (string \<Rightarrow> int option) \<Rightarrow> int \<Rightarrow> (path \<Rightarrow> listing) \<Rightarrow> path \<Rightarrow> string list \<Rightarrow> report \<Rightarrow>
     world \<Rightarrow> ((pyexc + int) + report) \<times> world" where
  "status_dirs fault fromiso now ls root [] r w = (Inr r, w)"
| "status_dirs fault fromiso now ls root (qdir # dirs) r w =
     (case ls (root @ [qdir]) of
        NotDir \<Rightarrow> status_dirs fault fromiso now ls root dirs
            (r\<lparr>missing_dirs := missing_dirs r @ [qdir], counts := counts r @ [(qdir, 0)]\<rparr>) w
      | Unreadable \<Rightarrow> (Inl (Inr 2), w)
      | Names names \<Rightarrow>
          (case scan_dir fault fromiso now (Some root) (root @ [qdir]) names w of
             (Inl e, w1) \<Rightarrow> (Inl (Inl e), w1)
           | (Inr (results, malformed), w1) \<Rightarrow>
               (let n = length results + length malformed;
                    r1 = r\<lparr>counts := counts r @ [(qdir, n)], total := total r + n,
                           malformed_names := malformed_names r @ malformed\<rparr>
                in status_dirs fault fromiso now ls root dirs (foldl (\<lambda>r i. add_info qdir i r) r1 results)
                     w1)))"

text \<open>The text report sorts the status counters, which raises on keys that do not compare.\<close>

definition cmd_status where
  "cmd_status fault fromiso now ls root as_json fail_on_stale fail_on_invalid w =
     (if ls root = NotDir then (Inr 2, w)
      else case status_dirs fault fromiso now ls root CANONICAL_DIRS empty_report w of
        (Inl res, w1) \<Rightarrow> (res, w1)
      | (Inr r, w1) \<Rightarrow>
          (if \<not> as_json \<and> \<not> sortable (map fst (by_status r)) then (Inl TypeError, w1)
           else (Inr (scan_exit (length (stale_names r))
              (length (invalid_entries r) + length (malformed_names r))
              fail_on_stale fail_on_invalid), w1)))"

section \<open>Lemmas\<close>

lemma analyze_raises_iff:
  "(\<exists>e. analyze fromiso p packet now root = Inl e) \<longleftrightarrow> \<not> hashable (jget packet ''status'')"
  by (auto simp: analyze_def expected_queue_for_def Let_def split: prod.splits)

lemma analyze_Inr:
  "analyze fromiso p packet now root = Inr i \<Longrightarrow>
     filename i = basename p \<and> info_status i = jget packet ''status'' \<and>
     physical_queue i = parent_name p \<and> field_errors i = validate packet \<and>
     strict_path_errors i = validate_queue_path p (jget packet ''status'') root \<and>
     stale i = (claim_expired i \<or> clearance_expired i)"
  by (auto simp: analyze_def Let_def split: prod.splits sum.splits)

lemma lease_state_expired_iff:
  "snd (lease_state fromiso now raw) \<longleftrightarrow>
     (\<exists>dt. parse_iso fromiso raw = Some dt \<and> dt < now)"
  by (auto simp: lease_state_def parse_iso_def split: option.splits)

lemma scan_names_files [simp]:
  "files (snd (scan_names fault fromiso now root d names w)) = files w"
  by (induction names arbitrary: w)
    (auto split: prod.splits sum.splits dest: load_packet_same, (metis load_packet_same snd_conv)+)

lemma status_dirs_files [simp]:
  "files (snd (status_dirs fault fromiso now ls root dirs r w)) = files w"
proof (induction dirs arbitrary: r w)
  case (Cons qdir dirs)
  show ?case
  proof (cases "ls (root @ [qdir])")
    case (Names names)
    obtain x w1 where s: "scan_dir fault fromiso now (Some root) (root @ [qdir]) names w = (x, w1)"
      by fastforce
    have "files w1 = files w"
      using s by (metis scan_dir_def scan_names_files snd_conv)
    then show ?thesis using Cons.IH Names s by (auto simp: Let_def split: sum.splits)
  qed (use Cons.IH in simp_all)
qed simp


section \<open>Results of the transitions\<close>

lemma build_transition_well_formed:
  assumes p: "well_formed p" and now: "now \<noteq> []" and st: "st \<in> {''DONE'', ''FAILED''}"
  shows "well_formed (build_transition now p f st d a r res)"
proof -
  have "fields_ok (jput ''updated_at'' (JStr now) (jput ''source_path'' (JStr (d @ ''/'' @ f))
      (jput ''status'' (JStr st) p)))"
    using p now st by (intro fields_ok_jput field_ok_text field_ok_status)
      (auto simp: well_formed_fields ALLOWED_STATUS_def)
  then have "fields_ok (build_transition now p f st d a r res)"
    by (simp add: build_transition_def Let_def fields_ok_append_audit)
  moreover have "lease_ok (build_transition now p f st d a r res)"
    using st by (auto simp: lease_ok_def)
  ultimately show ?thesis by (simp add: well_formed_fields)
qed

lemma build_transition_audit:
  "\<exists>ev. audit_events (jget (build_transition now p f st d a r res) ''audit_json'') =
     Some ((case audit_events (jget p ''audit_json'') of None \<Rightarrow> [] | Some es \<Rightarrow> es) @ [JObj ev]) \<and>
     jget ev ''event'' = JStr st \<and> jget ev ''actor'' = JStr (if a = [] then LIFECYCLE_ACTOR else a) \<and>
     (r \<noteq> [] \<longrightarrow> jget ev ''reason'' = JStr r)"
  by (auto simp: build_transition_def Let_def audit_events_append_audit jget_Cons)

lemma complete_completes:
  assumes p: "files w src = Some (Doc (JObj p))" "well_formed p" "parent_name src = IN_PROGRESS_DIR"
      "jget p ''status'' = JStr ''IN_PROGRESS''"
    and now: "now \<noteq> []" and free: "files w (target_of DONE_DIR src) = None"
    and calm: "\<And>n. \<not> fault n"
  shows "\<exists>w'. cmd_complete fault now src actor False results w = (0, w') \<and>
    files w' = (files w)(target_of DONE_DIR src := Some (Doc (JObj
      (build_transition now p (basename src) ''DONE'' DONE_DIR actor [] results))), src := None)"
proof -
  let ?build = "\<lambda>f p. build_transition now p (basename f) ''DONE'' DONE_DIR actor [] results"
  let ?run = "checked_run fault IN_PROGRESS_DIR (\<lambda>s. s = ''IN_PROGRESS'') ?build DONE_DIR False
      (finish_move fault) src w"
  have pl: "in_its_place src (jget p ''status'')"
    "in_its_place (target_of DONE_DIR src) (jget (?build src p) ''status'')"
    using p by (simp_all add: in_its_place_def QUEUE_STATUS_def)
  have wf: "well_formed (?build src p)" using p now by (intro build_transition_well_formed) simp_all
  have 0: "fst ?run = 0"
    by (rule checked_move_completes [where s = "''IN_PROGRESS''" and p = p])
      (use p pl wf free calm in simp_all)
  then obtain w' where r: "?run = (0, w')" by (cases ?run) simp
  from checked_move_success [OF r] p(1)
  have "files w' = (files w)(target_of DONE_DIR src := Some (Doc (JObj (?build src p))), src := None)"
    by auto
  with r show ?thesis by (simp add: cmd_complete_def transition_checked)
qed

end
