(* ===== verification/Packet_Request.thy ===== *)
theory Packet_Request
  imports Packet_Lifecycle
begin

text \<open>
  Authoring one new request (\<open>tools/clearwright_request.py\<close>): the packet \<open>build_request\<close>, its
  in-memory validation and its exclusive creation in the outbox. The packet id may contain path
  separators, so the destination is the normalised join \<open>join_path\<close> of the outbox and the name.
\<close>

section \<open>Joining and normalising a path\<close>

fun split_on :: "char \<Rightarrow> string \<Rightarrow> string list" where
  "split_on c [] = [[]]"
| "split_on c (x # xs) =
     (if x = c then [] # split_on c xs
      else case split_on c xs of [] \<Rightarrow> [[x]] | y # ys \<Rightarrow> (x # y) # ys)"

definition path_step :: "path \<Rightarrow> string \<Rightarrow> path" where
  "path_step p c = (if c = [] \<or> c = ''.'' then p else if c = ''..'' then butlast p else p @ [c])"

text \<open>\<open>os.path.abspath(os.path.join(base, s))\<close>: an absolute second part replaces the base.\<close>

definition join_path :: "path \<Rightarrow> string \<Rightarrow> path" where
  "join_path base s =
     foldl path_step (if prefix ''/'' s then [] else base) (split_on (CHR ''/'') s)"

lemma split_on_nosep: "c \<notin> set s \<Longrightarrow> split_on c s = [s]"
  by (induction s) auto

lemma join_path_plain:
  "CHR ''/'' \<notin> set s \<Longrightarrow> s \<noteq> [] \<Longrightarrow> s \<noteq> ''.'' \<Longrightarrow> s \<noteq> ''..'' \<Longrightarrow> join_path base s = base @ [s]"
  by (cases s) (auto simp: join_path_def split_on_nosep path_step_def)

section \<open>The request\<close>

record request_args =
  arg_id :: string
  arg_title :: string
  arg_type :: string
  arg_agent :: string
  arg_action :: string
  arg_target_label :: string
  arg_scope :: string
  arg_test_command :: string
  arg_authority :: string
  arg_clearance :: string
  arg_priority :: string
  arg_risk :: string

text \<open>\<open>stamp\<close> is the second-resolution time stamp of \<open>_default_packet_id\<close>.\<close>

definition request_id :: "string \<Rightarrow> request_args \<Rightarrow> string" where
  "request_id stamp args =
     (if blank (arg_id args) then ''cw-req-'' @ stamp else strip (arg_id args))"

definition build_request :: "string \<Rightarrow> string \<Rightarrow> request_args \<Rightarrow> jobj \<times> string" where
  "build_request now stamp args =
     (let packet_id = request_id stamp args;
          filename = packet_id @ ''.json'';
          inputs = [(''target_project'', JStr (arg_target_label args)),
                    (''requested_action'', JStr (strip (arg_action args)))] @
            (if blank (arg_scope args) then []
             else [(''allowed_scope'', JStr (strip (arg_scope args)))]) @
            (if blank (arg_test_command args) then []
             else [(''test_command'', JStr (strip (arg_test_command args)))])
      in ([(''packet_id'', JStr packet_id), (''packet_type'', JStr (strip (arg_type args))),
           (''title'', JStr (strip (arg_title args))),
           (''requesting_agent'', JStr (strip (arg_agent args))),
           (''created_at'', JStr now), (''updated_at'', JStr now), (''status'', JStr ''RTA''),
           (''source_path'', JStr (OUTBOX @ ''/'' @ filename)),
           (''packet_hash'', JStr ''sha256:unverified-manual-request''),
           (''authority_class'', JStr (arg_authority args)),
           (''clearance_class'', JStr (arg_clearance args)),
           (''priority_class'', JStr (arg_priority args)),
           (''inputs_json'', JObj inputs),
           (''audit_json'', JObj [(''events'', JArr [JObj
              [(''at'', JStr now), (''event'', JStr ''RTA''),
               (''actor'', JStr (strip (arg_agent args))),
               (''note'', JStr (''Requested clearance: '' @ strip (arg_title args)))]])])] @
          (if blank (arg_risk args) then [] else [(''risk_notes'', JStr (strip (arg_risk args)))]),
          filename))"

definition blank_required :: "request_args \<Rightarrow> bool" where
  "blank_required args \<longleftrightarrow> blank (arg_title args) \<or> blank (arg_type args) \<or>
     blank (arg_agent args) \<or> blank (arg_action args)"

definition request ::
    "faults \<Rightarrow> string \<Rightarrow> string \<Rightarrow> (path \<Rightarrow> bool) \<Rightarrow> path \<Rightarrow> request_args \<Rightarrow> bool \<Rightarrow> world \<Rightarrow>
     int \<times> world" where
  "request fault now stamp isdir queue_root args dry_run w =
     (if blank_required args then (1, w)
      else if \<not> isdir (queue_root @ [OUTBOX]) then (1, w)
      else let (packet, filename) = build_request now stamp args;
               dest = join_path (queue_root @ [OUTBOX]) filename
           in if validate packet @
                validate_queue_path dest (jget packet ''status'') None \<noteq> [] then (1, w)
              else if dry_run then (0, w)
              else case write_exclusive fault dest (JObj packet) w of
                  (Some _, w1) \<Rightarrow> (1, w1)
                | (None, w1) \<Rightarrow>
                    (case load_packet fault dest w1 of (written, w2) \<Rightarrow>
                       if (case written of
                             Inl _ \<Rightarrow> True
                           | Inr q \<Rightarrow> validate q @
                               validate_queue_path dest (jget q ''status'') None \<noteq> [])
                       then (1, snd (remove_file fault dest w2))
                       else (0, w2)))"

section \<open>Lemmas\<close>

text \<open>The authored packet validates exactly when its three class arguments are legal values.\<close>

definition legal_classes :: "request_args \<Rightarrow> bool" where
  "legal_classes args \<longleftrightarrow>
     arg_authority args \<in> set (the (map_of ENUM_FIELDS ''authority_class'')) \<and>
     arg_clearance args \<in> set (the (map_of ENUM_FIELDS ''clearance_class'')) \<and>
     arg_priority args \<in> set (the (map_of ENUM_FIELDS ''priority_class''))"

lemma build_request_status [simp]:
  "jget (fst (build_request now stamp args)) ''status'' = JStr ''RTA''"
  by (simp add: build_request_def Let_def jget_Cons)

lemma request_id_nonempty [simp]: "request_id stamp args \<noteq> []"
  by (auto simp: request_id_def blank_def)

lemma build_request_well_formed:
  assumes "\<not> blank_required args" and "now \<noteq> []"
  shows "well_formed (fst (build_request now stamp args)) \<longleftrightarrow> legal_classes args"
proof -
  let ?p = "fst (build_request now stamp args)"
  have g: "jget ?p ''packet_id'' = JStr (request_id stamp args)"
    "jget ?p ''packet_type'' = JStr (strip (arg_type args))"
    "jget ?p ''title'' = JStr (strip (arg_title args))"
    "jget ?p ''requesting_agent'' = JStr (strip (arg_agent args))"
    "jget ?p ''created_at'' = JStr now" "jget ?p ''updated_at'' = JStr now"
    "\<exists>s. s \<noteq> [] \<and> jget ?p ''source_path'' = JStr s"
    "jget ?p ''packet_hash'' = JStr ''sha256:unverified-manual-request''"
    "jget ?p ''authority_class'' = JStr (arg_authority args)"
    "jget ?p ''clearance_class'' = JStr (arg_clearance args)"
    "jget ?p ''priority_class'' = JStr (arg_priority args)"
    "jget ?p ''channel_state'' = JNull" "jget ?p ''escalation_required'' = JNull"
    "is_obj (jget ?p ''inputs_json'')" "is_obj (jget ?p ''audit_json'')"
    "jget ?p ''review_json'' = JNull" "jget ?p ''rfi_json'' = JNull"
    "jget ?p ''decision_json'' = JNull" "jget ?p ''backpressure_json'' = JNull"
    by (simp_all add: build_request_def Let_def jget_Cons)
  obtain src where src: "src \<noteq> []" "jget ?p ''source_path'' = JStr src" using g(7) by blast
  show ?thesis
    using assms
    by (simp add: well_formed_def REQUIRED_FIELDS_def ENUM_FIELDS_def JSON_BLOB_FIELDS_def
        ALLOWED_STATUS_def legal_classes_def blank_required_def blank_def g src)
qed

lemma request_success:
  assumes "request fault now stamp isdir root args False w = (0, w')"
  shows "\<exists>dest. dest = join_path (root @ [OUTBOX]) (request_id stamp args @ ''.json'') \<and>
    parent_name dest = OUTBOX \<and> files w dest = None \<and>
    files w' = (files w)(dest := Some (Doc (JObj (fst (build_request now stamp args))))) \<and>
    well_formed (fst (build_request now stamp args))"
proof -
  let ?dest = "join_path (root @ [OUTBOX]) (request_id stamp args @ ''.json'')"
  obtain q where b: "build_request now stamp args = (q, request_id stamp args @ ''.json'')"
    by (simp add: build_request_def Let_def)
  then have q: "fst (build_request now stamp args) = q" "jget q ''status'' = JStr ''RTA''"
    using build_request_status [of now stamp args] by simp_all
  obtain e w1 where w1: "write_exclusive fault ?dest (JObj q) w = (e, w1)" by fastforce
  obtain r w2 where w2: "load_packet fault ?dest w1 = (r, w2)" by fastforce
  have v: "validate q = []" "validate_queue_path ?dest (JStr ''RTA'') None = []" "e = None" "w' = w2"
    using assms
    by (auto simp: request_def Let_def b w1 w2 q(2) split: if_splits option.splits)
  have "parent_name ?dest = OUTBOX"
    using v(2) by (auto simp: validate_queue_path_def QUEUE_STATUS_def ALLOWED_STATUS_def Let_def
        parent_name_def split: if_splits option.splits)
  then show ?thesis
    using write_exclusive_ok [of fault ?dest "JObj q" w] w1 v load_packet_same [OF w2]
    by (simp add: validate_Nil_iff q)
qed

lemma request_failure_frame:
  assumes "request fault now stamp isdir root args dry w = (c, w')"
    and "p \<noteq> join_path (root @ [OUTBOX]) (request_id stamp args @ ''.json'') \<or> files w p \<noteq> None"
  shows "files w' p = files w p"
proof -
  let ?dest = "join_path (root @ [OUTBOX]) (request_id stamp args @ ''.json'')"
  obtain q where b: "build_request now stamp args = (q, request_id stamp args @ ''.json'')"
    by (simp add: build_request_def Let_def)
  then have q: "fst (build_request now stamp args) = q" "jget q ''status'' = JStr ''RTA''"
    using build_request_status [of now stamp args] by simp_all
  obtain e w1 where w1: "write_exclusive fault ?dest (JObj q) w = (e, w1)" by fastforce
  obtain r w2 where w2: "load_packet fault ?dest w1 = (r, w2)" by fastforce
  have f1: "files w1 p = files w p"
    if "e = None \<longrightarrow> p \<noteq> ?dest"
    using assms(2) that w1 write_exclusive_frame [of p ?dest fault "JObj q" w]
      write_exclusive_existing [of w ?dest fault "JObj q"] by (cases "p = ?dest") auto
  have e: "e = None \<Longrightarrow> p \<noteq> ?dest"
    using assms(2) write_exclusive_ok [of fault ?dest "JObj q" w] w1 by auto
  consider "w' = w" | "w' = w1" | "w' = w2" "e = None"
    | "w' = snd (remove_file fault ?dest w2)" "e = None"
    using assms(1) by (auto simp: request_def Let_def b w1 w2 q(2) split: if_splits option.splits)
  then show ?thesis
    by cases (use f1 e load_packet_same [OF w2] in \<open>auto simp: remove_file_frame\<close>)
qed

end
