(* ===== verification/Queue_System.thy ===== *)
theory Queue_System
  imports Packet_Request
begin

text \<open>
  The clearance queue as a system: any number of runs of the packet tools, with any arguments and
  any schedule of operating-system faults, over one file system. The step relation has one rule
  per tool; its invariants follow from the contracts the tools were shown to meet. The protocol's
  status machine is the relation \<open>edge\<close>.
\<close>

section \<open>Lemmas of the contract that the system uses\<close>

context queue_tool begin

text \<open>A packet that a run makes appear comes from an eligible source and is a proper outcome.\<close>

lemma appears:
  assumes "files (snd (run fault src w)) p = Some (Doc (JObj q))" and "files w p \<noteq> Some (Doc (JObj q))"
  shows "eligible origin ready w src \<and> outcome into result q \<and> p \<in> {target_of into src, tmp_path src}"
proof -
  have e: "eligible origin ready w src" using assms refuses [of w src fault] by fastforce
  consider "p = target_of into src" | "p = tmp_path src" | "p = src" "p \<noteq> target_of into src"
    | "p \<noteq> src" "p \<noteq> target_of into src" "p \<noteq> tmp_path src" by blast
  then show ?thesis
  proof cases
    case 1 then show ?thesis using target [of fault src w] e assms by auto
  next
    case 2 then show ?thesis using temporary [of fault src w] e assms by auto
  next
    case 3 then show ?thesis using source [of fault src w] e assms by auto
  next
    case 4 then show ?thesis using frame assms by simp
  qed
qed

text \<open>Only the tool's own directories are touched.\<close>

lemma other_directories:
  assumes "parent_name p \<noteq> origin" and "parent_name p \<noteq> into"
  shows "files (snd (run fault src w)) p = files w p"
proof (cases "eligible origin ready w src")
  case True
  then have "p \<noteq> src" "p \<noteq> tmp_path src"
    using assms parent_name_tmp by (auto simp: eligible_def)
  moreover have "p \<noteq> target_of into src" using assms(2) parent_name_target by blast
  ultimately show ?thesis using frame by blast
qed (use refuses in simp)

end

text \<open>The source is untouched, or its result is at the destination; and untouched on any failure.\<close>

definition kept_or_moved :: "world \<Rightarrow> path \<Rightarrow> string \<Rightarrow> string \<Rightarrow> int \<times> world \<Rightarrow> bool" where
  "kept_or_moved w src into result r \<longleftrightarrow>
     (fst r \<noteq> 0 \<longrightarrow> files (snd r) src = files w src) \<and>
     (files (snd r) src = files w src \<or>
      (\<exists>q. outcome into result q \<and> files (snd r) (target_of into src) = Some (Doc (JObj q))))"

context queue_move begin

lemma keeps: "kept_or_moved w src into result (run fault src w)"
  unfolding kept_or_moved_def using kept source by blast

end

section \<open>The system\<close>

inductive queue_step :: "world \<Rightarrow> world \<Rightarrow> bool" where
  step_request: "request fault now stamp isdir root args dry w = (c, w') \<Longrightarrow> now \<noteq> [] \<Longrightarrow>
     queue_step w w'"
| step_cta: "cmd_cta fault now isof src actor reason dry lease w = (c, w') \<Longrightarrow> queue_step w w'"
| step_dta: "cmd_dta fault now isof src actor reason dry w = (c, w') \<Longrightarrow> queue_step w w'"
| step_rfi: "cmd_rfi fault now isof src actor reason dry w = (c, w') \<Longrightarrow> queue_step w w'"
| step_claim: "claim fault now src claimant dry w = (c, w') \<Longrightarrow> queue_step w w'"
| step_complete: "cmd_complete fault now src actor dry results w = (c, w') \<Longrightarrow> queue_step w w'"
| step_fail: "cmd_fail fault now src actor dry reason w = (c, w') \<Longrightarrow> queue_step w w'"

inductive_cases queue_stepE: "queue_step w w'"

text \<open>The protocol's edges between packet statuses.\<close>

inductive edge :: "string \<Rightarrow> string \<Rightarrow> bool" where
  decided: "s \<in> set DECIDABLE \<Longrightarrow> t \<in> {''CTA'', ''DTA'', ''RFI_PENDING''} \<Longrightarrow> edge s t"
| claimed: "s \<in> set CLAIMABLE \<Longrightarrow> edge s ''IN_PROGRESS''"
| closed: "t \<in> {''DONE'', ''FAILED''} \<Longrightarrow> edge ''IN_PROGRESS'' t"

code_pred edge .

text \<open>A request puts at its destination nothing but a valid RTA packet.\<close>

lemma request_target:
  assumes "request fault now stamp isdir root args dry w = (c, w')"
    and "files w' p = Some (Doc (JObj q))" and "files w p \<noteq> Some (Doc (JObj q))"
  shows "files w p = None \<and> parent_name p = OUTBOX \<and> well_formed q \<and> jget q ''status'' = JStr ''RTA''"
proof -
  let ?dest = "join_path (root @ [OUTBOX]) (request_id stamp args @ ''.json'')"
  have p: "p = ?dest" "files w p = None"
    using request_failure_frame [OF assms(1), of p] assms(2,3) by auto
  obtain r where b: "build_request now stamp args = (r, request_id stamp args @ ''.json'')"
    by (simp add: build_request_def Let_def)
  then have r: "jget r ''status'' = JStr ''RTA''"
    using build_request_status [of now stamp args] by simp
  obtain e w1 where w1: "write_exclusive fault ?dest (JObj r) w = (e, w1)" by fastforce
  obtain x w2 where w2: "load_packet fault ?dest w1 = (x, w2)" by fastforce
  note same = load_packet_same [OF w2]
  have v: "validate r = []" "validate_queue_path ?dest (JStr ''RTA'') None = []"
    "w' \<in> {w1, w2, snd (remove_file fault ?dest w2)}"
    using assms p by (auto simp: request_def Let_def b r w1 w2 split: if_splits option.splits)
  have t: "files w1 ?dest \<in> {None, Some Torn, Some (Doc (JObj r))}"
    using write_exclusive_target [of fault ?dest "JObj r" w] w1 p by simp
  have "files w' ?dest \<in> {None, files w1 ?dest}"
    using v(3) same by (auto simp: remove_file_files)
  with t assms(2) p have "q = r" by auto
  moreover have "parent_name ?dest = OUTBOX"
    using v(2) by (auto simp: validate_queue_path_def QUEUE_STATUS_def ALLOWED_STATUS_def Let_def
        parent_name_def split: if_splits option.splits)
  ultimately show ?thesis using v(1) r p by (simp add: validate_Nil_iff)
qed

lemma request_sound:
  assumes "request fault now stamp isdir root args dry w = (c, w')" and "sound_queue w"
  shows "sound_queue w'"
  unfolding sound_queue_def
proof (intro allI impI)
  fix p ob
  assume p: "files w' p = Some (Doc (JObj ob))" "parent_name p \<in> fst ` set QUEUE_STATUS"
  show "well_formed ob \<and> in_its_place p (jget ob ''status'')"
  proof (cases "files w p = Some (Doc (JObj ob))")
    case True
    then show ?thesis using assms(2) p(2) by (simp add: sound_queue_def)
  next
    case False
    then show ?thesis using request_target [OF assms(1) p(1)]
      by (simp add: in_its_place_def QUEUE_STATUS_def)
  qed
qed

lemma queue_step_sound:
  assumes "queue_step w w'" and "sound_queue w"
  shows "sound_queue w'"
  using assms
proof (cases rule: queue_step.cases)
  case step_request
  then show ?thesis using assms(2) request_sound by blast
next
  case step_cta
  then show ?thesis using cta_tool.run_sound [OF assms(2)] by (metis snd_conv)
next
  case step_dta
  then show ?thesis using dta_tool.run_sound [OF assms(2)] by (metis snd_conv)
next
  case step_rfi
  then show ?thesis using rfi_tool.run_sound [OF assms(2)] by (metis snd_conv)
next
  case step_claim
  then show ?thesis using claim_tool.run_sound [OF assms(2)] by (metis snd_conv)
next
  case step_complete
  then show ?thesis using complete_tool.run_sound [OF assms(2)] by (metis snd_conv)
next
  case step_fail
  then show ?thesis using fail_tool.run_sound [OF assms(2)] by (metis snd_conv)
qed

abbreviation closed_dir :: "string \<Rightarrow> bool" where
  "closed_dir d \<equiv> d = DONE_DIR \<or> d = FAILED_DIR"

lemma queue_step_settled:
  assumes "queue_step w w'" and "files w p = Some c" and d: "closed_dir (parent_name p)"
  shows "files w' p = Some c"
proof -
  have n: "files w p \<noteq> None" "parent_name p \<noteq> OUTBOX" "parent_name p \<noteq> IN_PROGRESS_DIR"
    using assms(2) d by auto
  show ?thesis
    using assms(1)
  proof (cases rule: queue_step.cases)
    case step_request
    then show ?thesis using request_failure_frame [OF step_request(1), of p] assms(2) by simp
  next
    case step_cta
    then show ?thesis using cta_tool.other_directories [OF n(2,2)] assms(2) by (metis snd_conv)
  next
    case step_dta
    then show ?thesis using dta_tool.elsewhere [OF n(1,2)] assms(2) by (metis snd_conv)
  next
    case step_rfi
    then show ?thesis using rfi_tool.other_directories [OF n(2,2)] assms(2) by (metis snd_conv)
  next
    case step_claim
    then show ?thesis using claim_tool.elsewhere [OF n(1,2)] assms(2) by (metis snd_conv)
  next
    case step_complete
    then show ?thesis using complete_tool.elsewhere [OF n(1,3)] assms(2) by (metis snd_conv)
  next
    case step_fail
    then show ?thesis using fail_tool.elsewhere [OF n(1,3)] assms(2) by (metis snd_conv)
  qed
qed

text \<open>Where a packet that a step makes appear can come from.\<close>

definition derives :: "world \<Rightarrow> jobj \<Rightarrow> bool" where
  "derives w q \<longleftrightarrow> (\<exists>src p s t. files w src = Some (Doc (JObj p)) \<and> well_formed p \<and>
     in_its_place src (JStr s) \<and> jget p ''status'' = JStr s \<and> jget q ''status'' = JStr t \<and> edge s t)"

lemma eligible_derives:
  assumes "eligible origin ready w src" and "outcome into result q"
    and "\<And>s. ready s \<Longrightarrow> edge s result"
    and "\<And>s. ready s \<Longrightarrow> \<exists>here. map_of QUEUE_STATUS origin = Some here \<and> s \<in> set here"
  shows "derives w q"
proof -
  obtain p s where p: "files w src = Some (Doc (JObj p))" "well_formed p" "parent_name src = origin"
      "jget p ''status'' = JStr s" "ready s" using assms(1) by (auto simp: eligible_def)
  have "in_its_place src (JStr s)" using p(3) assms(4) [OF p(5)] by (auto simp: in_its_place_def)
  moreover have "jget q ''status'' = JStr result" using assms(2) by (simp add: outcome_def)
  ultimately show ?thesis using p assms(3) [OF p(5)] unfolding derives_def by blast
qed

lemma outbox_statuses:
  "s \<in> set CLAIMABLE \<Longrightarrow> \<exists>here. map_of QUEUE_STATUS OUTBOX = Some here \<and> s \<in> set here"
  "s \<in> set DECIDABLE \<Longrightarrow> \<exists>here. map_of QUEUE_STATUS OUTBOX = Some here \<and> s \<in> set here"
  by (auto simp: QUEUE_STATUS_def CLAIMABLE_def DECIDABLE_def)

lemma in_progress_status:
  "s = ''IN_PROGRESS'' \<Longrightarrow>
     \<exists>here. map_of QUEUE_STATUS IN_PROGRESS_DIR = Some here \<and> s \<in> set here"
  by (simp add: QUEUE_STATUS_def)

lemma queue_step_derives:
  assumes "queue_step w w'"
    and "files w' p = Some (Doc (JObj q))" and "files w p \<noteq> Some (Doc (JObj q))"
  shows "derives w q \<or> (files w p = None \<and> jget q ''status'' = JStr ''RTA'' \<and> parent_name p = OUTBOX)"
  using assms(1)
proof (cases rule: queue_step.cases)
  case step_request
  then show ?thesis using request_target [OF step_request(1) assms(2,3)] by simp
next
  case (step_cta fault now isof src actor reason dry lease c)
  then have "eligible OUTBOX decidable w src \<and> outcome OUTBOX ''CTA'' q"
    using cta_tool.appears [of fault now isof src actor reason dry lease w p q] assms by simp
  then show ?thesis using eligible_derives outbox_statuses(2) edge.decided by blast
next
  case (step_dta fault now isof src actor reason dry c)
  then have "eligible OUTBOX decidable w src \<and> outcome DONE_DIR ''DTA'' q"
    using dta_tool.appears [of fault now isof src actor reason dry w p q] assms by simp
  then show ?thesis using eligible_derives outbox_statuses(2) edge.decided by blast
next
  case (step_rfi fault now isof src actor reason dry c)
  then have "eligible OUTBOX decidable w src \<and> outcome OUTBOX ''RFI_PENDING'' q"
    using rfi_tool.appears [of fault now isof src actor reason dry w p q] assms by simp
  then show ?thesis using eligible_derives outbox_statuses(2) edge.decided by blast
next
  case (step_claim fault now src claimant dry c)
  then have "eligible OUTBOX (\<lambda>s. s \<in> set CLAIMABLE) w src \<and> outcome IN_PROGRESS_DIR ''IN_PROGRESS'' q"
    using claim_tool.appears [of fault now src claimant dry w p q] assms by simp
  then show ?thesis using eligible_derives outbox_statuses(1) edge.claimed by blast
next
  case (step_complete fault now src actor dry results c)
  then have "eligible IN_PROGRESS_DIR (\<lambda>s. s = ''IN_PROGRESS'') w src \<and> outcome DONE_DIR ''DONE'' q"
    using complete_tool.appears [of fault now src actor dry results w p q] assms by simp
  then show ?thesis using eligible_derives in_progress_status edge.closed by blast
next
  case (step_fail fault now src actor dry reason c)
  then have "eligible IN_PROGRESS_DIR (\<lambda>s. s = ''IN_PROGRESS'') w src \<and> outcome FAILED_DIR ''FAILED'' q"
    using fail_tool.appears [of fault now src actor dry reason w p q] assms by simp
  then show ?thesis using eligible_derives in_progress_status edge.closed by blast
qed

section \<open>Reachable queues\<close>

inductive reachable_queue :: "world \<Rightarrow> world \<Rightarrow> bool" for w0 where
  start: "reachable_queue w0 w0"
| step: "reachable_queue w0 w \<Longrightarrow> queue_step w w' \<Longrightarrow> reachable_queue w0 w'"

lemma reachable_sound: "reachable_queue w0 w \<Longrightarrow> sound_queue w0 \<Longrightarrow> sound_queue w"
  by (induction rule: reachable_queue.induct) (auto intro: queue_step_sound)

lemma reachable_settled:
  "reachable_queue w0 w \<Longrightarrow> files w0 p = Some c \<Longrightarrow> closed_dir (parent_name p) \<Longrightarrow> files w p = Some c"
  by (induction rule: reachable_queue.induct) (auto intro: queue_step_settled)


section \<open>A concrete queue\<close>

definition demo_packet :: "string \<Rightarrow> jobj" where
  "demo_packet status = [(''packet_id'', JStr ''p1''), (''packet_type'', JStr ''analysis''),
     (''title'', JStr ''t''), (''requesting_agent'', JStr ''agent/worker''),
     (''created_at'', JStr ''2026-01-01T00:00:00Z''), (''updated_at'', JStr ''2026-01-01T00:00:00Z''),
     (''status'', JStr status), (''source_path'', JStr ''clearance_outbox/p1.json''),
     (''packet_hash'', JStr ''sha256:x''), (''clearance_expires_at'', JStr ''2020-01-01T00:00:00Z'')]"

definition demo_src :: "string \<Rightarrow> path" where
  "demo_src d = [''q'', d, ''p1.json'']"

definition demo_world :: "string \<Rightarrow> string \<Rightarrow> world" where
  "demo_world d status =
     \<lparr>files = (\<lambda>_. None)(demo_src d := Some (Doc (JObj (demo_packet status)))), tick = 0\<rparr>"

lemma demo_well_formed: "s \<in> set ALLOWED_STATUS \<Longrightarrow> well_formed (demo_packet s)"
  by (auto simp: ALLOWED_STATUS_def well_formed_def demo_packet_def jget_Cons REQUIRED_FIELDS_def ENUM_FIELDS_def
      JSON_BLOB_FIELDS_def)

lemma demo_status [simp]: "jget (demo_packet s) ''status'' = JStr s"
  by (simp add: demo_packet_def jget_Cons)

lemma demo_parent [simp]: "parent_name (demo_src d) = d"
  by (simp add: demo_src_def parent_name_def dirname_def basename_def)

lemma demo_file [simp]: "files (demo_world d s) (demo_src d) = Some (Doc (JObj (demo_packet s)))"
  by (simp add: demo_world_def)

lemma demo_other [simp]: "p \<noteq> demo_src d \<Longrightarrow> files (demo_world d s) p = None"
  by (simp add: demo_world_def)

lemma demo_sound:
  "map_of QUEUE_STATUS d = Some here \<Longrightarrow> s \<in> set here \<Longrightarrow> sound_queue (demo_world d s)"
  unfolding sound_queue_def
proof (intro allI impI)
  fix p ob
  assume d: "map_of QUEUE_STATUS d = Some here" "s \<in> set here"
    and p: "files (demo_world d s) p = Some (Doc (JObj ob))"
  then have "p = demo_src d" "ob = demo_packet s" by (auto simp: demo_world_def split: if_splits)
  then show "well_formed ob \<and> in_its_place p (jget ob ''status'')"
    using d demo_well_formed queue_statuses_allowed [OF d] by (auto simp: in_its_place_def)
qed

section \<open>Properties\<close>

text \<open>C1: Starting from a queue in which every packet is valid and lies in the directory of its
  status, every sequence of tool runs, with any arguments and any operating-system faults, keeps
  that so: no tool leaves an invalid or misplaced packet anywhere in the queue.\<close>

theorem queue_stays_sound:
  assumes "reachable_queue w0 w" and "sound_queue w0"
  shows "sound_queue w"
  using assms by (rule reachable_sound)

lemma demo_reachable:
  "reachable_queue w (snd (claim fault now src claimant dry w))"
  by (rule reachable_queue.step [OF reachable_queue.start], rule step_claim, rule prod.collapse [symmetric])

theorem queue_stays_sound_witness:
  "sound_queue (snd (claim (\<lambda>_. False) ''2026-01-02T00:00:00Z'' (demo_src OUTBOX) ''a'' False
     (demo_world OUTBOX ''CTA'')))"
proof -
  have "sound_queue (demo_world OUTBOX ''CTA'')"
    by (rule demo_sound [of _ "[''RTA'', ''IN_REVIEW'', ''RFI_PENDING'', ''CTA'']"])
      (simp_all add: QUEUE_STATUS_def)
  then show ?thesis by (rule queue_stays_sound [OF demo_reachable])
qed

text \<open>C2: A packet in the done or failed directory (completed, denied, superseded or failed) is
  never changed or removed again by any tool run, whatever the arguments and faults.\<close>

theorem closed_packets_are_final:
  assumes "reachable_queue w0 w" and "files w0 p = Some c" and "closed_dir (parent_name p)"
  shows "files w p = Some c"
  using assms by (rule reachable_settled)

theorem closed_packets_are_final_witness:
  "files (snd (claim (\<lambda>_. False) ''n'' (demo_src DONE_DIR) ''a'' False
     (demo_world DONE_DIR ''DTA''))) (demo_src DONE_DIR) = Some (Doc (JObj (demo_packet ''DTA'')))"
  by (rule closed_packets_are_final [OF demo_reachable demo_file]) simp


lemma demo_target:
  "target_of d' (demo_src d) = demo_src d'" "basename (demo_src d) = ''p1.json''"
  by (simp_all add: target_of_def demo_src_def queue_root_of_def dirname_def basename_def)

lemma demo_src_inj [simp]: "demo_src d = demo_src d' \<longleftrightarrow> d = d'"
  by (simp add: demo_src_def)

lemma demo_lease: "truthy (jget (demo_packet s) ''clearance_expires_at'')"
  by (simp add: demo_packet_def jget_Cons)

text \<open>A claim that reports success has moved exactly one packet: the source was a valid outbox
  packet with a claimable status, the destination was free, and afterwards the only changes are that
  the claimed packet (status IN_PROGRESS, valid) is at the destination and the source is gone.\<close>

theorem claim_effect:
  assumes "claim fault now src claimant False w = (0, w')"
  shows "\<exists>p s. files w src = Some (Doc (JObj p)) \<and> well_formed p \<and> parent_name src = OUTBOX \<and>
    jget p ''status'' = JStr s \<and> s \<in> set CLAIMABLE \<and> files w (target_of IN_PROGRESS_DIR src) = None \<and>
    well_formed (build_claimed now p (basename src) claimant) \<and>
    files w' = (files w)(target_of IN_PROGRESS_DIR src :=
      Some (Doc (JObj (build_claimed now p (basename src) claimant))), src := None)"
  using assms by (rule claim_success)

text \<open>With no operating-system fault and a free destination, a valid outbox packet in any
  pre-claim status is claimed as soon as it names a lease end, whatever that end is: neither a CTA
  decision nor an unexpired lease is required.\<close>

theorem claim_needs_only_a_named_lease:
  assumes "files w src = Some (Doc (JObj p))" and "well_formed p" and "parent_name src = OUTBOX"
    and "jget p ''status'' = JStr s" and "s \<in> set CLAIMABLE"
    and "truthy (jget p ''clearance_expires_at'')" and "now \<noteq> []"
    and "files w (target_of IN_PROGRESS_DIR src) = None" and "\<And>n. \<not> fault n"
  shows "fst (claim fault now src claimant False w) = 0"
  using assms by (rule claim_completes)

lemma demo_claimable: "s \<in> set CLAIMABLE \<Longrightarrow> s \<in> set ALLOWED_STATUS"
  by (auto simp: CLAIMABLE_def ALLOWED_STATUS_def)

theorem claim_needs_only_a_named_lease_witness:
  "fst (claim (\<lambda>_. False) ''2026-01-02T00:00:00Z'' (demo_src OUTBOX) [] False
     (demo_world OUTBOX ''RTA'')) = 0"
  by (rule claim_needs_only_a_named_lease [OF demo_file demo_well_formed _ demo_status])
    (simp_all add: CLAIMABLE_def ALLOWED_STATUS_def demo_lease demo_target)

lemma demo_claim_run:
  "\<exists>w'. claim (\<lambda>_. False) ''n'' (demo_src OUTBOX) a False (demo_world OUTBOX ''CTA'') = (0, w')"
proof -
  have "fst (claim (\<lambda>_. False) ''n'' (demo_src OUTBOX) a False (demo_world OUTBOX ''CTA'')) = 0"
    by (rule claim_completes [OF demo_file demo_well_formed _ demo_status])
      (simp_all add: CLAIMABLE_def ALLOWED_STATUS_def demo_lease demo_target)
  then show ?thesis by (cases "claim (\<lambda>_. False) ''n'' (demo_src OUTBOX) a False
      (demo_world OUTBOX ''CTA'')") simp
qed

theorem claim_effect_witness:
  "\<exists>w'. claim (\<lambda>_. False) ''n'' (demo_src OUTBOX) ''a'' False (demo_world OUTBOX ''CTA'') = (0, w') \<and>
     files w' (demo_src OUTBOX) = None \<and>
     files w' (demo_src IN_PROGRESS_DIR) =
       Some (Doc (JObj (build_claimed ''n'' (demo_packet ''CTA'') ''p1.json'' ''a'')))"
proof -
  obtain w' where r: "claim (\<lambda>_. False) ''n'' (demo_src OUTBOX) ''a'' False
      (demo_world OUTBOX ''CTA'') = (0, w')" using demo_claim_run by blast
  from claim_effect [OF r] r show ?thesis by (auto simp: demo_target)
qed


text \<open>C4: A packet is claimed once: while a file of its name is in the in-progress directory (after a
  successful claim, or one whose stale source could not be removed), every further claim of the
  source path is refused and changes no file.\<close>

theorem claimed_once:
  assumes "parent_name src = OUTBOX"
    and "files w (target_of IN_PROGRESS_DIR src) \<noteq> None"
  shows "fst (claim fault now src claimant False w) \<noteq> 0 \<and>
    files (snd (claim fault now src claimant dry w)) = files w"
proof
  show "files (snd (claim fault now src claimant dry w)) = files w"
    using claim_tool.fresh [of src w fault now claimant dry] assms by simp
  show "fst (claim fault now src claimant False w) \<noteq> 0"
  proof
    assume "fst (claim fault now src claimant False w) = 0"
    then have "claim fault now src claimant False w = (0, snd (claim fault now src claimant False w))"
      by (metis prod.collapse)
    from claim_success [OF this] assms(2) show False by blast
  qed
qed

theorem claimed_once_witness:
  "\<exists>w'. claim (\<lambda>_. False) ''n'' (demo_src OUTBOX) ''a'' False (demo_world OUTBOX ''CTA'') = (0, w') \<and>
     fst (claim (\<lambda>_. False) ''m'' (demo_src OUTBOX) ''b'' False w') \<noteq> 0"
proof -
  obtain w' where r: "claim (\<lambda>_. False) ''n'' (demo_src OUTBOX) ''a'' False
      (demo_world OUTBOX ''CTA'') = (0, w')" using demo_claim_run by blast
  have "files w' (target_of IN_PROGRESS_DIR (demo_src OUTBOX)) \<noteq> None"
    using claim_success [OF r] by (auto simp: demo_target)
  then show ?thesis
    using claimed_once [of "demo_src OUTBOX" w' "\<lambda>_. False" "''m''" "''b''"] r by auto
qed



definition happy_path :: "string \<Rightarrow> (int \<Rightarrow> string) \<Rightarrow> path \<Rightarrow> world \<Rightarrow> int \<times> int \<times> int \<times> world" where
  "happy_path now isof src w =
     (let (c1, w1) = cmd_cta (\<lambda>_. False) now isof src [] [] False 0 w;
          (c2, w2) = claim (\<lambda>_. False) now src ''agent/worker'' False w1;
          (c3, w3) = cmd_complete (\<lambda>_. False) now (target_of IN_PROGRESS_DIR src) [] False [] w2
      in (c1, c2, c3, w3))"

lemma target_of_target [simp]: "target_of d (target_of d' src) = target_of d src"
  by (simp add: target_of_def queue_root_of_def dirname_def basename_def butlast_append)

lemma target_of_inj [simp]: "target_of d src = target_of d' src \<longleftrightarrow> d = d'"
  by (simp add: target_of_def)

lemma tmp_neq_target:
  "parent_name src \<noteq> d \<Longrightarrow> tmp_path src \<noteq> target_of d src"
  by (metis parent_name_target parent_name_tmp)

text \<open>C6: The happy path works end to end: with no faults, an RTA packet that the operator clears and
  a worker claims and completes ends as a DONE packet in the done directory under the same name
  and is gone from the outbox and the in-progress directory.\<close>

theorem cleared_claimed_completed:
  assumes p: "files w src = Some (Doc (JObj p))" "well_formed p" "parent_name src = OUTBOX"
      "jget p ''status'' = JStr ''RTA''"
    and now: "now \<noteq> []" "\<And>n. isof n \<noteq> []"
    and free: "files w (target_of IN_PROGRESS_DIR src) = None" "files w (target_of DONE_DIR src) = None"
  shows "\<exists>w' q. happy_path now isof src w = (0, 0, 0, w') \<and>
    files w' (target_of DONE_DIR src) = Some (Doc (JObj q)) \<and> outcome DONE_DIR ''DONE'' q \<and>
    files w' src = None \<and> files w' (target_of IN_PROGRESS_DIR src) = None"
proof -
  let ?ip = "target_of IN_PROGRESS_DIR src" and ?dn = "target_of DONE_DIR src"
  define q1 where "q1 = build_decision now isof p (basename src) CTA [] [] 0"
  define q2 where "q2 = build_claimed now q1 (basename src) ''agent/worker''"
  define q3 where "q3 = build_transition now q2 (basename src) ''DONE'' DONE_DIR [] [] []"
  have ne: "?ip \<noteq> src" "?dn \<noteq> src" "?ip \<noteq> ?dn" "tmp_path src \<noteq> ?ip" "tmp_path src \<noteq> ?dn"
    using p(3) by (simp_all add: target_neq_src tmp_neq_target)
  have dec: "''RTA'' \<in> set DECIDABLE" by (simp add: DECIDABLE_def)
  obtain w1 where w1: "cmd_cta (\<lambda>_. False) now isof src [] [] False 0 w = (0, w1)"
    "files w1 = (files w)(src := Some (Doc (JObj q1)), tmp_path src := None)"
    using cta_completes [where isof = isof and fault = "\<lambda>_. False" and actor = "[]" and
        reason = "[]" and lease = 0, OF p dec now]
    unfolding strip_Nil q1_def [symmetric] by blast
  have q1: "well_formed q1" "jget q1 ''status'' = JStr ''CTA''"
    "truthy (jget q1 ''clearance_expires_at'')"
    using build_decision_well_formed [OF p(2) now] now(2)
    by (simp_all add: q1_def status_of_def build_decision_lease)
  have f1: "files w1 src = Some (Doc (JObj q1))" "files w1 ?ip = None" "files w1 ?dn = None"
    using w1(2) ne free by auto
  have "fst (claim (\<lambda>_. False) now src ''agent/worker'' False w1) = 0"
    by (rule claim_completes [OF f1(1) q1(1) p(3) q1(2) _ q1(3) now(1) f1(2)])
      (simp_all add: CLAIMABLE_def)
  then obtain w2 where w2: "claim (\<lambda>_. False) now src ''agent/worker'' False w1 = (0, w2)"
    by (metis prod.collapse)
  have f2: "files w2 = (files w1)(?ip := Some (Doc (JObj q2)), src := None)" "well_formed q2"
    using claim_success [OF w2] f1(1) by (auto simp: q2_def)
  have s2: "jget q2 ''status'' = JStr ''IN_PROGRESS''" by (simp add: q2_def)
  have b: "basename ?ip = basename src" by (simp add: target_of_def basename_def)
  have i2: "files w2 ?ip = Some (Doc (JObj q2))" "files w2 (target_of DONE_DIR ?ip) = None"
    using f2(1) ne f1(3) by simp_all
  obtain w3 where w3: "cmd_complete (\<lambda>_. False) now ?ip [] False [] w2 = (0, w3)"
    "files w3 = (files w2)(?dn := Some (Doc (JObj q3)), ?ip := None)"
    using complete_completes [OF i2(1) f2(2) parent_name_target s2 now(1) i2(2),
        where fault = "\<lambda>_. False" and actor = "[]" and results = "[]"]
    unfolding b target_of_target q3_def by blast
  have q3: "well_formed q3" "jget q3 ''status'' = JStr ''DONE''"
    using build_transition_well_formed [OF f2(2) now(1)] by (simp_all add: q3_def)
  have "happy_path now isof src w = (0, 0, 0, w3)" by (simp add: happy_path_def w1 w2 w3)
  moreover have "files w3 ?dn = Some (Doc (JObj q3))" "files w3 src = None" "files w3 ?ip = None"
    using w3(2) f2(1) ne by auto
  moreover have "outcome DONE_DIR ''DONE'' q3" using q3 by (simp add: outcome_def QUEUE_STATUS_def)
  ultimately show ?thesis by blast
qed


theorem cleared_claimed_completed_witness:
  "\<exists>w' q. happy_path ''n'' (\<lambda>_. ''later'') (demo_src OUTBOX) (demo_world OUTBOX ''RTA'') = (0, 0, 0, w') \<and>
    files w' (target_of DONE_DIR (demo_src OUTBOX)) = Some (Doc (JObj q)) \<and>
    outcome DONE_DIR ''DONE'' q \<and> files w' (demo_src OUTBOX) = None \<and>
    files w' (target_of IN_PROGRESS_DIR (demo_src OUTBOX)) = None"
  by (rule cleared_claimed_completed [OF demo_file demo_well_formed _ demo_status])
    (simp_all add: ALLOWED_STATUS_def demo_target)

text \<open>The validator with \<open>--strict-path\<close> accepts a packet exactly when the schema's rules hold
  of it and the lifecycle tool's expected directory for its status is the directory it lies in.\<close>

theorem strict_validation_exact:
  "validate p @ validate_queue_path f (jget p ''status'') None = [] \<longleftrightarrow>
     well_formed p \<and> expected_queue_for (jget p ''status'') = Inr (Some (parent_name f))"
proof (cases "well_formed p")
  case True
  then obtain s where s: "jget p ''status'' = JStr s" "s \<in> set ALLOWED_STATUS"
    using well_formed_status by blast
  have "in_its_place f (JStr s) \<longleftrightarrow> expected_queue_for (JStr s) = Inr (Some (parent_name f))"
    using s(2) by (auto simp: in_its_place_def expected_queue_for_def hashable_def QUEUE_STATUS_def
        ALLOWED_STATUS_def outside_def)
  then show ?thesis
    using True s queue_path_Nil_iff [of "JStr s" f] by (simp add: validate_Nil_iff)
qed (simp add: validate_Nil_iff)

text \<open>The audit trail only grows: a decision and a transition append exactly one event, naming
  the new status and the actor, to the events already there (starting a trail where there is none);
  a claim appends one event to an existing trail and leaves any other audit value alone.\<close>

theorem audit_trail_only_grows:
  "(\<exists>ev. audit_events (jget (build_decision now isof p f d a r l) ''audit_json'') =
      Some ((case audit_events (jget p ''audit_json'') of None \<Rightarrow> [] | Some es \<Rightarrow> es) @ [JObj ev]) \<and>
      jget ev ''event'' = JStr (status_of d) \<and>
      jget ev ''actor'' = JStr (if a = [] then DEFAULT_ACTOR else a)) \<and>
   (\<exists>ev. audit_events (jget (build_transition now p f st d' a r res) ''audit_json'') =
      Some ((case audit_events (jget p ''audit_json'') of None \<Rightarrow> [] | Some es \<Rightarrow> es) @ [JObj ev]) \<and>
      jget ev ''event'' = JStr st \<and> jget ev ''actor'' = JStr (if a = [] then LIFECYCLE_ACTOR else a)) \<and>
   (case audit_events (jget p ''audit_json'') of
      None \<Rightarrow> jget (build_claimed now p f a) ''audit_json'' = jget p ''audit_json''
    | Some es \<Rightarrow> (\<exists>ev. audit_events (jget (build_claimed now p f a) ''audit_json'') =
        Some (es @ [JObj ev]) \<and> jget ev ''event'' = JStr ''IN_PROGRESS''))"
proof (intro conjI)
  show "case audit_events (jget p ''audit_json'') of
      None \<Rightarrow> jget (build_claimed now p f a) ''audit_json'' = jget p ''audit_json''
    | Some es \<Rightarrow> (\<exists>ev. audit_events (jget (build_claimed now p f a) ''audit_json'') =
        Some (es @ [JObj ev]) \<and> jget ev ''event'' = JStr ''IN_PROGRESS'')"
    by (auto simp: build_claimed_def Let_def audit_events_def jget_Cons split: option.splits)
qed (use build_decision_audit build_transition_audit in blast)+

text \<open>\<open>inspect\<close> lets a \<open>TypeError\<close> escape exactly on a readable packet whose status is a JSON
  array or object, where the validator it calls reports an invalid status.\<close>

theorem inspect_raises_on_unhashable_status:
  "(\<exists>e. fst (cmd_inspect fault fromiso now root f w) = Inl e) \<longleftrightarrow>
   (\<exists>p. fst (load_packet fault f w) = Inr p \<and> \<not> hashable (jget p ''status''))"
proof -
  obtain x w1 where l: "load_packet fault f w = (x, w1)" by fastforce
  show ?thesis
  proof (cases x)
    case (Inr p)
    have "(\<exists>e. fst (cmd_inspect fault fromiso now root f w) = Inl e) \<longleftrightarrow>
        (\<exists>e. analyze fromiso f p now root = Inl e)"
      by (cases "analyze fromiso f p now root") (simp_all add: cmd_inspect_def l Inr)
    then show ?thesis by (simp add: analyze_raises_iff l Inr)
  qed (simp add: cmd_inspect_def l)
qed

definition adds_up :: "report \<Rightarrow> bool" where
  "adds_up r \<longleftrightarrow> total r = sum_list (map snd (counts r)) \<and>
     total r = sum_list (map snd (by_status r)) + length (malformed_names r)"

lemma sum_count_status: "sum_list (map snd (count_status st m)) = Suc (sum_list (map snd m))"
  unfolding count_status_def by (induction m) (auto split: option.splits)

lemma add_info_total [simp]: "total (add_info q i r) = total r"
  by (simp add: add_info_def)

lemma add_infos:
  "total (foldl (\<lambda>r i. add_info q i r) r is) = total r"
  "counts (foldl (\<lambda>r i. add_info q i r) r is) = counts r"
  "malformed_names (foldl (\<lambda>r i. add_info q i r) r is) = malformed_names r"
  "sum_list (map snd (by_status (foldl (\<lambda>r i. add_info q i r) r is))) =
     sum_list (map snd (by_status r)) + length is"
  by (induction "is" arbitrary: r) (simp_all add: add_info_def sum_count_status)

lemma status_dirs_adds_up:
  "status_dirs fault fromiso now ls root dirs r w = (Inr r', w') \<Longrightarrow> adds_up r \<Longrightarrow>
     adds_up r' \<and> map fst (counts r') = map fst (counts r) @ dirs"
proof (induction dirs arbitrary: r w)
  case (Cons qdir dirs)
  show ?case
  proof (cases "ls (root @ [qdir])")
    case NotDir
    then show ?thesis
      using Cons.prems Cons.IH [of "r\<lparr>missing_dirs := missing_dirs r @ [qdir],
          counts := counts r @ [(qdir, 0)]\<rparr>" w] by (simp add: adds_up_def)
  next
    case (Names names)
    obtain x w1 where s: "scan_dir fault fromiso now (Some root) (root @ [qdir]) names w = (x, w1)"
      by fastforce
    then obtain results malformed where x: "x = Inr (results, malformed)"
      using Cons.prems Names by (cases x) auto
    define r1 where "r1 = r\<lparr>counts := counts r @ [(qdir, length results + length malformed)],
        total := total r + (length results + length malformed),
        malformed_names := malformed_names r @ malformed\<rparr>"
    have "adds_up (foldl (\<lambda>r i. add_info qdir i r) r1 results)"
      using Cons.prems(2) by (simp add: adds_up_def add_infos r1_def)
    moreover have "status_dirs fault fromiso now ls root dirs
        (foldl (\<lambda>r i. add_info qdir i r) r1 results) w1 = (Inr r', w')"
      using Cons.prems(1) Names s x by (simp add: Let_def r1_def)
    ultimately show ?thesis using Cons.IH by (simp add: add_infos r1_def)
  qed (use Cons.prems in simp)
qed simp

text \<open>The queue report adds up and changes nothing: when it completes, the total is the sum of
  the per-directory counts and also the sum of the per-status counts plus the malformed files, every
  canonical directory is counted once in order, and no file has changed.\<close>

lemma status_report_adds_up:
  assumes "status_dirs fault fromiso now ls root CANONICAL_DIRS empty_report w = (Inr r, w')"
  shows "adds_up r \<and> map fst (counts r) = CANONICAL_DIRS \<and> files w' = files w"
proof -
  have "files w' = files w"
    using status_dirs_files [of fault fromiso now ls root CANONICAL_DIRS empty_report w]
    unfolding assms by simp
  then show ?thesis
    using status_dirs_adds_up [OF assms] by (simp add: adds_up_def empty_report_def)
qed

theorem status_report_adds_up_witness:
  "\<exists>r w'. status_dirs (\<lambda>_. False) (\<lambda>_. None) 0 (\<lambda>d. if d = [''q'', OUTBOX] then Names [''p1.json''] else NotDir)
      [''q''] CANONICAL_DIRS empty_report (demo_world OUTBOX ''RTA'') = (Inr r, w') \<and>
    total r = 1 \<and> adds_up r"
proof -
  let ?go = "status_dirs (\<lambda>_. False) (\<lambda>_. None) 0
      (\<lambda>d. if d = [''q'', OUTBOX] then Names [''p1.json''] else NotDir) [''q''] CANONICAL_DIRS
      empty_report (demo_world OUTBOX ''RTA'')"
  have "\<exists>r. ?go = (Inr r, advance (demo_world OUTBOX ''RTA'')) \<and> total r = 1"
    by (simp add: CANONICAL_DIRS_def scan_dir_def scanned_def load_packet_def demo_world_def demo_src_def
        analyze_def expected_queue_for_def hashable_def lease_state_def parse_iso_def suffix_def
        add_infos empty_report_def demo_packet_def jget_Cons Let_def)
  then obtain r where r: "?go = (Inr r, advance (demo_world OUTBOX ''RTA''))" "total r = 1" by blast
  from status_report_adds_up [OF r(1)] r show ?thesis by blast
qed

end
