(* ===== verification/Py_Access.thy ===== *)
theory Py_Access
  imports Py_Prelude
begin

text \<open>
  Attribute and item access on values whose type the tools do not check: \<open>x.get(k)\<close>, \<open>x[k]\<close>,
  \<open>len(x)\<close>, iteration, \<open>x.strip()\<close> and \<open>int(x)\<close>, each with the exception Python raises on a value
  of another type.
\<close>

definition py_get :: "json \<Rightarrow> string \<Rightarrow> pyexc + json" where
  "py_get j k = (case j of JObj ob \<Rightarrow> Inr (jget ob k) | _ \<Rightarrow> Inl AttributeError)"

definition py_item :: "json \<Rightarrow> string \<Rightarrow> pyexc + json" where
  "py_item j k =
     (case j of
        JObj ob \<Rightarrow> (if jhas ob k then Inr (jget ob k) else Inl KeyError)
      | _ \<Rightarrow> Inl TypeError)"

definition get_or :: "jobj \<Rightarrow> string \<Rightarrow> json \<Rightarrow> json" where
  "get_or ob k d = (if jhas ob k then jget ob k else d)"

fun py_len :: "json \<Rightarrow> pyexc + nat" where
  "py_len (JStr s) = Inr (length s)"
| "py_len (JArr xs) = Inr (length xs)"
| "py_len (JObj ob) = Inr (length ob)"
| "py_len _ = Inl TypeError"

fun py_iter :: "json \<Rightarrow> pyexc + json list" where
  "py_iter (JStr s) = Inr (map (\<lambda>c. JStr [c]) s)"
| "py_iter (JArr xs) = Inr xs"
| "py_iter (JObj ob) = Inr (map (\<lambda>kv. JStr (fst kv)) ob)"
| "py_iter _ = Inl TypeError"

definition py_strip :: "json \<Rightarrow> pyexc + string" where
  "py_strip j = (case j of JStr s \<Rightarrow> Inr (strip s) | _ \<Rightarrow> Inl AttributeError)"

text \<open>\<open>int(x)\<close>: text that is not a number raises \<open>ValueError\<close>, other values \<open>TypeError\<close>.\<close>

definition to_int :: "json \<Rightarrow> pyexc + int" where
  "to_int j = (case py_int j of Some i \<Rightarrow> Inr i
     | None \<Rightarrow> Inl (if is_str j then ValueError else TypeError))"

text \<open>The value of a JSON number as a decimal; comparing anything else with a float raises.\<close>

fun num_value :: "json \<Rightarrow> (int \<times> int) option" where
  "num_value (JBool b) = Some (if b then 1 else 0, 0)"
| "num_value (JInt i) = Some (i, 0)"
| "num_value (JFloat m e) = Some (m, e)"
| "num_value _ = None"

lemma py_get_Inr_iff: "py_get j k = Inr v \<longleftrightarrow> is_obj j \<and> v = jget (obj_of j) k"
  by (cases j) (auto simp: py_get_def)

lemma py_get_JObj [simp]: "py_get (JObj ob) k = Inr (jget ob k)"
  by (simp add: py_get_def)

lemma py_item_Inr_iff:
  "py_item j k = Inr v \<longleftrightarrow> is_obj j \<and> jhas (obj_of j) k \<and> v = jget (obj_of j) k"
  by (cases j) (auto simp: py_item_def)

lemma jhas_iff_keys: "jhas ob k \<longleftrightarrow> k \<in> fst ` set ob"
  by (simp add: jhas_def)

text \<open>\<open>x or []\<close> iterated: empty exactly when \<open>x\<close> is falsy.\<close>

lemma py_iter_or_Nil:
  "py_iter (py_or j (JArr [])) = Inr xs \<Longrightarrow> xs = [] \<longleftrightarrow> \<not> truthy j"
  by (cases j) (auto simp: py_or_def split: if_splits)

lemma py_iter_or_list: "is_arr j \<or> \<not> truthy j \<Longrightarrow> py_iter (py_or j (JArr [])) = Inr (arr_of j)"
  by (cases j) (auto simp: py_or_def)

lemma py_len_or_iter:
  "py_len (py_or j (JArr [])) = Inr n \<longleftrightarrow>
     (\<exists>xs. py_iter (py_or j (JArr [])) = Inr xs \<and> n = length xs)"
  by (cases j) (auto simp: py_or_def)

text \<open>\<open>x in y\<close> for a value of any type.\<close>

definition py_in :: "json \<Rightarrow> json \<Rightarrow> pyexc + bool" where
  "py_in x y =
     (case y of
        JStr t \<Rightarrow> (case x of JStr u \<Rightarrow> Inr (contains u t) | _ \<Rightarrow> Inl TypeError)
      | JArr ys \<Rightarrow> Inr (key_of x \<in> key_of ` set ys)
      | JObj ob \<Rightarrow> (case x of JStr u \<Rightarrow> Inr (jhas ob u) | _ \<Rightarrow> if hashable x then Inr False else Inl TypeError)
      | _ \<Rightarrow> Inl TypeError)"

text \<open>Clearing a key: \<open>d.pop(k, None)\<close>; and \<open>d.setdefault(k, v)\<close>.\<close>

definition jdel :: "string \<Rightarrow> jobj \<Rightarrow> jobj" where
  "jdel k ob = AList.delete k ob"

lemma jget_jdel [simp]: "jget (jdel k ob) k' = (if k = k' then JNull else jget ob k')"
  by (simp add: jget_def jdel_def delete_conv)

lemma jhas_jdel [simp]: "jhas (jdel k ob) k' \<longleftrightarrow> k \<noteq> k' \<and> jhas ob k'"
  by (auto simp: jhas_iff_map_of jdel_def delete_conv)

definition set_default :: "string \<Rightarrow> json \<Rightarrow> jobj \<Rightarrow> jobj" where
  "set_default k v ob = (if jhas ob k then ob else jput k v ob)"

lemma get_or_jput [simp]: "get_or (jput k v ob) k' d = (if k = k' then v else get_or ob k' d)"
  by (auto simp: get_or_def)

end
