(* ===== verification/Review_Verdict.thy ===== *)
theory Review_Verdict
  imports Py_Prelude
begin

text \<open>
  The structured review contract (\<open>tools/clearwright_verdict.py\<close>): finding the JSON object in a
  reviewer's text, validating and normalising a verdict, and validating and normalising the
  reconciliation that answers it.

  A \<open>VerdictError\<close> is a value of \<open>verdict_error\<close>, one constructor per message. The JSON reader
  \<open>json.loads\<close> is the argument \<open>loads\<close> of the extraction, \<open>None\<close> where it raises \<open>ValueError\<close>.
  A confidence given as text is compared as the decimal it spells, before rounding to a double.
\<close>

section \<open>Constants and errors\<close>

definition VERDICTS :: "string list" where
  "VERDICTS = [''approve'', ''approve_with_changes'', ''revise'', ''block'']"

definition RISK_LEVELS :: "string list" where
  "RISK_LEVELS = [''low'', ''medium'', ''high'', ''critical'']"

definition REVIEWERS :: "string list" where
  "REVIEWERS = [''gpt'', ''codex'']"

definition NON_BLOCKING_VERDICTS :: "string list" where
  "NON_BLOCKING_VERDICTS = [''approve'', ''approve_with_changes'']"

definition VERDICT_LIST_FIELDS :: "string list" where
  "VERDICT_LIST_FIELDS = [''blocking_findings'', ''required_changes'', ''nonblocking_findings'',
     ''disagreements'', ''assumptions'', ''questions'', ''recommended_plan'']"

definition RECON_LIST_FIELDS :: "string list" where
  "RECON_LIST_FIELDS = [''accepted_findings'', ''rejected_findings'', ''required_plan_changes'',
     ''revised_plan'', ''unresolved_blockers'']"

definition RESOLUTION_DISPOSITIONS :: "string list" where
  "RESOLUTION_DISPOSITIONS = [''accepted'', ''planned'', ''rejected'', ''blocked_by_capability'']"

definition MIN_SUMMARY_CHARS :: nat where
  "MIN_SUMMARY_CHARS = 8"

datatype verdict_error =
    EmptyOutput | NoJsonObject
  | NotAnObject | UnknownReviewer | ReviewerMismatch string string | UnknownVerdict | UnknownRisk
  | ConfidenceNotNumber | ConfidenceOutOfRange | ConfidenceOverflow
  | ThinSummary | NotAnArray string
  | ReadyNotBoolean | RejectedNotObject | RejectedIncomplete | RejectedWithoutEvidence
  | ResolutionNotObject | ResolutionWithoutRef | UnknownDisposition
  | RejectedResolutionWithoutEvidence | CapabilityWithoutLimitation | CapabilityWithoutEvidence
  | ReadyWhileBlocked

section \<open>Finding the JSON object in a reviewer's text\<close>

text \<open>
  The scan from one opening brace: \<open>depth\<close> open braces, \<open>in_str\<close> inside a string literal,
  \<open>esc\<close> after a backslash. It returns the object that parses, or \<open>None\<close> when this brace leads
  nowhere; \<open>acc\<close> holds the characters read so far, last first. A balanced span that parses to
  something other than an object cannot occur, but the code would read on, so the scan does.
\<close>

fun scan_object :: "(string \<Rightarrow> json option) \<Rightarrow> string \<Rightarrow> string \<Rightarrow> int \<Rightarrow> bool \<Rightarrow> bool \<Rightarrow> jobj option"
where
  "scan_object loads acc [] depth in_str esc = None"
| "scan_object loads acc (c # cs) depth in_str esc =
     (if in_str then
        (if esc then scan_object loads (c # acc) cs depth True False
         else if c = CHR 0x5C then scan_object loads (c # acc) cs depth True True
         else if c = CHR 0x22 then scan_object loads (c # acc) cs depth False False
         else scan_object loads (c # acc) cs depth True False)
      else if c = CHR 0x22 then scan_object loads (c # acc) cs depth True esc
      else if c = CHR ''{'' then scan_object loads (c # acc) cs (depth + 1) False esc
      else if c = CHR ''}'' then
        (if depth - 1 = 0 then
           (case loads (rev (c # acc)) of
              None \<Rightarrow> None
            | Some (JObj ob) \<Rightarrow> Some ob
            | Some _ \<Rightarrow> scan_object loads (c # acc) cs (depth - 1) False esc)
         else scan_object loads (c # acc) cs (depth - 1) False esc)
      else scan_object loads (c # acc) cs depth False esc)"

text \<open>\<open>s.find("\<lbrace>", start)\<close>: every opening brace is tried in turn.\<close>

fun scan_braces :: "(string \<Rightarrow> json option) \<Rightarrow> string \<Rightarrow> jobj option" where
  "scan_braces loads [] = None"
| "scan_braces loads (c # cs) =
     (if c = CHR ''{'' then
        (case scan_object loads [] (c # cs) 0 False False of
           Some ob \<Rightarrow> Some ob
         | None \<Rightarrow> scan_braces loads cs)
      else scan_braces loads cs)"

definition fence :: string where
  "fence = replicate 3 (CHR 0x60)"

definition newline :: char where
  "newline = CHR 0x0A"

text \<open>Removal of a Markdown code fence around the text.\<close>

definition strip_fence :: "string \<Rightarrow> string" where
  "strip_fence s =
     (if has_prefix fence s then
        let s1 = (if newline \<in> set s then tl (dropWhile (\<lambda>c. c \<noteq> newline) s) else s);
            s2 = (if has_suffix fence s1 then take (length s1 - 3) s1 else s1);
            s3 = strip s2
        in if has_prefix ''json'' (lower s3) then strip (drop 4 s3) else s3
      else s)"

definition extract_json_object ::
    "(string \<Rightarrow> json option) \<Rightarrow> json \<Rightarrow> verdict_error + jobj" where
  "extract_json_object loads text =
     (case text of
        JObj ob \<Rightarrow> Inr ob
      | _ \<Rightarrow>
          if \<not> truthy text \<or> blank (py_str text) then Inl EmptyOutput
          else let s = strip_fence (strip (py_str text)) in
            (case loads s of
               Some (JObj ob) \<Rightarrow> Inr ob
             | _ \<Rightarrow> (case scan_braces loads s of
                       Some ob \<Rightarrow> Inr ob
                     | None \<Rightarrow> Inl NoJsonObject)))"

section \<open>Verdicts\<close>

definition as_list :: "string \<Rightarrow> json \<Rightarrow> verdict_error + json list" where
  "as_list field v =
     (case v of JNull \<Rightarrow> Inr [] | JArr xs \<Rightarrow> Inr xs | _ \<Rightarrow> Inl (NotAnArray field))"

text \<open>\<open>for field in FIELDS: normalized[field] = _as_list(obj.get(field), field)\<close>.\<close>

fun put_lists :: "string list \<Rightarrow> jobj \<Rightarrow> jobj \<Rightarrow> verdict_error + jobj" where
  "put_lists [] ob norm = Inr norm"
| "put_lists (f # fs) ob norm =
     sbind (as_list f (jget ob f)) (\<lambda>xs. put_lists fs ob (jput f (JArr xs) norm))"

text \<open>\<open>float(i)\<close> of an integer that rounds to \<open>2 ^ 1024\<close> or more raises \<open>OverflowError\<close>.\<close>

definition float_overflow :: "json \<Rightarrow> bool" where
  "float_overflow j = (case j of JInt i \<Rightarrow> 2 ^ 1024 - 2 ^ 970 \<le> \<bar>i\<bar> | _ \<Rightarrow> False)"

definition read_confidence :: "json \<Rightarrow> verdict_error + json" where
  "read_confidence j =
     (if float_overflow j then Inl ConfidenceOverflow
      else case py_float j of
        None \<Rightarrow> Inl ConfidenceNotNumber
      | Some NonFinite \<Rightarrow> Inl ConfidenceOutOfRange
      | Some (Fin m e) \<Rightarrow>
          if dec_le 0 0 m e \<and> dec_le m e 1 0 then Inr (JFloat m e) else Inl ConfidenceOutOfRange)"

definition read_summary :: "json \<Rightarrow> verdict_error + string" where
  "read_summary j =
     (case j of
        JStr s \<Rightarrow> if length (strip s) < MIN_SUMMARY_CHARS then Inl ThinSummary else Inr (strip s)
      | _ \<Rightarrow> Inl ThinSummary)"

definition validate_verdict :: "json \<Rightarrow> string option \<Rightarrow> verdict_error + jobj" where
  "validate_verdict j reviewer =
     (case j of
        JObj ob \<Rightarrow>
          (let who = lower (clean (jget ob ''reviewer''));
               verdict = lower (clean (jget ob ''verdict''));
               risk = lower (clean (jget ob ''risk_level'')) in
           if who \<notin> set REVIEWERS then Inl UnknownReviewer
           else if reviewer \<noteq> None \<and> who \<noteq> the reviewer
             then Inl (ReviewerMismatch (the reviewer) who)
           else if verdict \<notin> set VERDICTS then Inl UnknownVerdict
           else if risk \<notin> set RISK_LEVELS then Inl UnknownRisk
           else sbind (read_confidence (jget ob ''confidence'')) (\<lambda>confidence.
                sbind (read_summary (jget ob ''summary'')) (\<lambda>summary.
                put_lists VERDICT_LIST_FIELDS ob
                  [(''reviewer'', JStr who), (''verdict'', JStr verdict),
                   (''confidence'', confidence), (''risk_level'', JStr risk),
                   (''summary'', JStr summary)])))
      | _ \<Rightarrow> Inl NotAnObject)"

section \<open>Reconciliations\<close>

text \<open>\<open>[e for e in evidence if str(e).strip()]\<close> is not empty.\<close>

definition has_evidence :: "json list \<Rightarrow> bool" where
  "has_evidence ev = list_ex (\<lambda>e. \<not> blank (py_str e)) ev"

definition validate_rejected :: "json \<Rightarrow> verdict_error + json" where
  "validate_rejected entry =
     (case entry of
        JObj ob \<Rightarrow>
          (let finding = clean (jget ob ''finding''); reason = clean (jget ob ''reason'') in
           sbind (as_list ''evidence'' (jget ob ''evidence'')) (\<lambda>evidence.
             if finding = [] \<or> reason = [] then Inl RejectedIncomplete
             else if \<not> has_evidence evidence then Inl RejectedWithoutEvidence
             else Inr (JObj [(''finding'', JStr finding), (''reason'', JStr reason),
                             (''evidence'', JArr evidence)])))
      | _ \<Rightarrow> Inl RejectedNotObject)"

definition validate_resolution :: "json \<Rightarrow> verdict_error + json" where
  "validate_resolution entry =
     (case entry of
        JObj ob \<Rightarrow>
          (let ref = clean (jget ob ''ref''); disp = lower (clean (jget ob ''disposition'')) in
           if ref = [] then Inl ResolutionWithoutRef
           else if disp \<notin> set RESOLUTION_DISPOSITIONS then Inl UnknownDisposition
           else sbind (as_list ''evidence'' (jget ob ''evidence'')) (\<lambda>evidence.
             if disp = ''rejected'' \<and> \<not> has_evidence evidence
               then Inl RejectedResolutionWithoutEvidence
             else if disp = ''blocked_by_capability'' \<and>
                clean (py_or (jget ob ''limitation'') (jget ob ''note'')) = []
               then Inl CapabilityWithoutLimitation
             else if disp = ''blocked_by_capability'' \<and> \<not> has_evidence evidence
               then Inl CapabilityWithoutEvidence
             else Inr (JObj [(''ref'', JStr ref), (''disposition'', JStr disp),
                             (''note'', JStr (clean (jget ob ''note''))),
                             (''limitation'', JStr (clean (jget ob ''limitation''))),
                             (''evidence'', JArr evidence)])))
      | _ \<Rightarrow> Inl ResolutionNotObject)"

definition is_blocked :: "json \<Rightarrow> bool" where
  "is_blocked r = (jget (obj_of r) ''disposition'' = JStr ''blocked_by_capability'')"

definition validate_reconciliation :: "json \<Rightarrow> verdict_error + jobj" where
  "validate_reconciliation j =
     (case j of
        JObj ob \<Rightarrow>
          (case jget ob ''ready_to_proceed'' of
             JBool ready \<Rightarrow>
               sbind (read_summary (jget ob ''summary'')) (\<lambda>summary.
               sbind (put_lists RECON_LIST_FIELDS ob
                        [(''ready_to_proceed'', JBool ready), (''summary'', JStr summary)]) (\<lambda>norm.
               sbind (map_exc validate_rejected (arr_of (jget norm ''rejected_findings''))) (\<lambda>rej.
               sbind (as_list ''resolutions'' (jget ob ''resolutions'')) (\<lambda>entries.
               sbind (map_exc validate_resolution entries) (\<lambda>res.
                 if ready \<and> list_ex is_blocked res then Inl ReadyWhileBlocked
                 else Inr (jput ''resolutions'' (JArr res)
                        (jput ''rejected_findings'' (JArr rej) norm)))))))
           | _ \<Rightarrow> Inl ReadyNotBoolean)
      | _ \<Rightarrow> Inl NotAnObject)"

section \<open>The shape of validated documents\<close>

definition vocabulary :: "string set" where
  "vocabulary = set (REVIEWERS @ VERDICTS @ RISK_LEVELS @ RESOLUTION_DISPOSITIONS)"

lemma vocabulary_plain: "list_all (\<lambda>s. lower (strip s) = s)
    (REVIEWERS @ VERDICTS @ RISK_LEVELS @ RESOLUTION_DISPOSITIONS)"
  by code_simp

lemma vocabulary_fixed [simp]: "s \<in> vocabulary \<Longrightarrow> lower (strip s) = s"
  using vocabulary_plain by (auto simp: vocabulary_def list_all_iff)

lemma vocabularyI:
  "s \<in> set REVIEWERS \<Longrightarrow> s \<in> vocabulary" "s \<in> set VERDICTS \<Longrightarrow> s \<in> vocabulary"
  "s \<in> set RISK_LEVELS \<Longrightarrow> s \<in> vocabulary" "s \<in> set RESOLUTION_DISPOSITIONS \<Longrightarrow> s \<in> vocabulary"
  by (simp_all add: vocabulary_def)

lemma as_list_Inr: "as_list f v = Inr xs \<Longrightarrow> as_list f (JArr xs) = Inr xs \<and> arr_of v = xs"
  by (auto simp: as_list_def split: json.splits)

lemma as_list_JArr [simp]: "as_list f (JArr xs) = Inr xs"
  by (simp add: as_list_def)

lemma read_confidence_Inr:
  "read_confidence j = Inr c \<Longrightarrow>
     \<exists>m e. c = JFloat m e \<and> dec_le 0 0 m e \<and> dec_le m e 1 0 \<and> read_confidence c = Inr c"
  by (auto simp: read_confidence_def float_overflow_def
      split: if_splits option.splits pyfloat.splits)

lemma read_summary_Inr:
  "read_summary j = Inr s \<Longrightarrow> MIN_SUMMARY_CHARS \<le> length s \<and> read_summary (JStr s) = Inr s"
  by (auto simp: read_summary_def split: json.splits if_splits)

lemma put_lists_other: "put_lists fs ob norm = Inr v \<Longrightarrow> k \<notin> set fs \<Longrightarrow> jget v k = jget norm k"
  by (induction fs arbitrary: norm) (auto simp: sbind_Inr_iff)

lemma put_lists_field:
  "put_lists fs ob norm = Inr v \<Longrightarrow> distinct fs \<Longrightarrow> f \<in> set fs \<Longrightarrow>
     \<exists>xs. as_list f (jget ob f) = Inr xs \<and> jget v f = JArr xs"
  by (induction fs arbitrary: norm) (auto simp: sbind_Inr_iff dest: put_lists_other)

text \<open>A second pass over the lists it produced changes nothing.\<close>

lemma put_lists_again:
  "put_lists fs ob norm = Inr v \<Longrightarrow> distinct fs \<Longrightarrow> \<forall>f \<in> set fs. jget ob' f = jget v f \<Longrightarrow>
     put_lists fs ob' norm = Inr v"
proof (induction fs arbitrary: norm)
  case Nil
  then show ?case by simp
next
  case (Cons f fs)
  then obtain xs where xs: "as_list f (jget ob f) = Inr xs"
    and v: "put_lists fs ob (jput f (JArr xs) norm) = Inr v"
    by (auto simp: sbind_Inr_iff)
  have "jget v f = JArr xs" using put_lists_other [OF v, of f] Cons.prems(2) by simp
  with Cons.IH [OF v] Cons.prems(2,3) show ?case by simp
qed

definition verdict_typed :: "jobj \<Rightarrow> bool" where
  "verdict_typed v \<longleftrightarrow>
     (\<exists>who verdict risk m e summary.
        jget v ''reviewer'' = JStr who \<and> who \<in> set REVIEWERS \<and>
        jget v ''verdict'' = JStr verdict \<and> verdict \<in> set VERDICTS \<and>
        jget v ''risk_level'' = JStr risk \<and> risk \<in> set RISK_LEVELS \<and>
        jget v ''confidence'' = JFloat m e \<and> dec_le 0 0 m e \<and> dec_le m e 1 0 \<and>
        jget v ''summary'' = JStr summary \<and> MIN_SUMMARY_CHARS \<le> length summary) \<and>
     (\<forall>f \<in> set VERDICT_LIST_FIELDS. is_arr (jget v f))"

lemma list_fields_distinct:
  "distinct VERDICT_LIST_FIELDS" "distinct RECON_LIST_FIELDS"
  by (code_simp, code_simp)

lemma verdict_fields_fresh:
  "list_all (\<lambda>k. k \<notin> set VERDICT_LIST_FIELDS)
     [''reviewer'', ''verdict'', ''confidence'', ''risk_level'', ''summary'']"
  by code_simp

lemma validate_verdict_Inr:
  assumes "validate_verdict j r = Inr v"
  obtains ob who verdict risk c m e summary where
    "j = JObj ob" "who \<in> set REVIEWERS" "r = None \<or> r = Some who" "verdict \<in> set VERDICTS"
    "risk \<in> set RISK_LEVELS" "c = JFloat m e" "dec_le 0 0 m e" "dec_le m e 1 0"
    "read_confidence c = Inr c" "MIN_SUMMARY_CHARS \<le> length summary"
    "read_summary (JStr summary) = Inr summary"
    "put_lists VERDICT_LIST_FIELDS ob
       [(''reviewer'', JStr who), (''verdict'', JStr verdict), (''confidence'', c),
        (''risk_level'', JStr risk), (''summary'', JStr summary)] = Inr v"
    "who = lower (clean (jget ob ''reviewer''))" "verdict = lower (clean (jget ob ''verdict''))"
proof -
  obtain ob where j: "j = JObj ob"
    using assms by (cases j) (simp_all add: validate_verdict_def)
  define who where "who = lower (clean (jget ob ''reviewer''))"
  define verdict where "verdict = lower (clean (jget ob ''verdict''))"
  define risk where "risk = lower (clean (jget ob ''risk_level''))"
  have ok: "who \<in> set REVIEWERS" "r = None \<or> r = Some who" "verdict \<in> set VERDICTS"
      "risk \<in> set RISK_LEVELS"
    and rest: "sbind (read_confidence (jget ob ''confidence'')) (\<lambda>confidence.
                sbind (read_summary (jget ob ''summary'')) (\<lambda>summary.
                put_lists VERDICT_LIST_FIELDS ob
                  [(''reviewer'', JStr who), (''verdict'', JStr verdict),
                   (''confidence'', confidence), (''risk_level'', JStr risk),
                   (''summary'', JStr summary)])) = Inr v"
    using assms
    by (auto simp: validate_verdict_def j Let_def who_def verdict_def risk_def split: if_splits;
        cases r; simp)+
  from rest obtain c summary where c: "read_confidence (jget ob ''confidence'') = Inr c"
    and s: "read_summary (jget ob ''summary'') = Inr summary"
    and p: "put_lists VERDICT_LIST_FIELDS ob
       [(''reviewer'', JStr who), (''verdict'', JStr verdict), (''confidence'', c),
        (''risk_level'', JStr risk), (''summary'', JStr summary)] = Inr v"
    by (auto simp only: sbind_Inr_iff)
  show ?thesis
    using that [OF j ok(1-4) _ _ _ _ _ _ p who_def verdict_def] read_confidence_Inr [OF c]
      read_summary_Inr [OF s]
    by blast
qed

text \<open>Reading the fixed fields of a validated verdict back.\<close>

lemma verdict_heads:
  assumes "put_lists VERDICT_LIST_FIELDS ob
       [(''reviewer'', a), (''verdict'', b), (''confidence'', c), (''risk_level'', d),
        (''summary'', s)] = Inr v"
  shows "jget v ''reviewer'' = a" "jget v ''verdict'' = b" "jget v ''confidence'' = c"
    "jget v ''risk_level'' = d" "jget v ''summary'' = s"
  using verdict_fields_fresh by (simp_all add: put_lists_other [OF assms] jget_Cons)

text \<open>C40: validation returns only typed verdicts of the expected reviewer, and validating a
  validated verdict again returns it unchanged, so the trust boundary may re-check freely.\<close>

theorem validated_verdict_typed_and_stable:
  assumes "validate_verdict j r = Inr v"
  shows "verdict_typed v \<and> (r = None \<or> jget v ''reviewer'' = JStr (the r)) \<and>
    validate_verdict (JObj v) r = Inr v"
proof (intro conjI)
  obtain ob who verdict risk c m e summary where
    w: "who \<in> set REVIEWERS" "r = None \<or> r = Some who" "verdict \<in> set VERDICTS"
      "risk \<in> set RISK_LEVELS"
    and c: "c = JFloat m e" "dec_le 0 0 m e" "dec_le m e 1 0" "read_confidence c = Inr c"
    and s: "MIN_SUMMARY_CHARS \<le> length summary" "read_summary (JStr summary) = Inr summary"
    and p: "put_lists VERDICT_LIST_FIELDS ob
       [(''reviewer'', JStr who), (''verdict'', JStr verdict), (''confidence'', c),
        (''risk_level'', JStr risk), (''summary'', JStr summary)] = Inr v"
    using validate_verdict_Inr [OF assms] by metis
  note h = verdict_heads [OF p]
  have "\<forall>f \<in> set VERDICT_LIST_FIELDS. is_arr (jget v f)"
    using put_lists_field [OF p list_fields_distinct(1)] by fastforce
  then show "verdict_typed v"
    using w c s(1) h by (auto simp: verdict_typed_def)
  show "r = None \<or> jget v ''reviewer'' = JStr (the r)" using w(2) h(1) by auto
  have "put_lists VERDICT_LIST_FIELDS v
       [(''reviewer'', JStr who), (''verdict'', JStr verdict), (''confidence'', c),
        (''risk_level'', JStr risk), (''summary'', JStr summary)] = Inr v"
    by (rule put_lists_again [OF p list_fields_distinct(1)]) simp
  then show "validate_verdict (JObj v) r = Inr v"
    using w c(4) s(2) h vocabularyI
    by (auto simp: validate_verdict_def Let_def)
qed

definition demo_verdict :: "string \<Rightarrow> string \<Rightarrow> jobj" where
  "demo_verdict who said = [(''reviewer'', JStr who), (''verdict'', JStr said),
     (''confidence'', JFloat 9 (- 1)), (''risk_level'', JStr ''low''),
     (''summary'', JStr ''reads well enough''), (''blocking_findings'', JArr []),
     (''required_changes'', JArr []), (''nonblocking_findings'', JArr []),
     (''disagreements'', JArr []), (''assumptions'', JArr []), (''questions'', JArr []),
     (''recommended_plan'', JArr [])]"

lemma demo_verdict_valid: "validate_verdict (JObj (demo_verdict ''gpt'' '' Approve''))
    (Some ''gpt'') = Inr (demo_verdict ''gpt'' ''approve'')"
  by code_simp

theorem validated_verdict_typed_and_stable_witness:
  "verdict_typed (demo_verdict ''gpt'' ''approve'')"
  by (rule conjunct1 [OF validated_verdict_typed_and_stable [OF demo_verdict_valid]])

section \<open>Reconciliations\<close>

lemma blank_Nil_iff: "blank s \<longleftrightarrow> strip s = []"
  by (simp add: blank_def)

lemma validate_rejected_Inr:
  assumes "validate_rejected e = Inr v"
  obtains finding reason evidence where "v = JObj [(''finding'', JStr finding),
      (''reason'', JStr reason), (''evidence'', JArr evidence)]"
    "finding \<noteq> []" "reason \<noteq> []" "strip finding = finding" "strip reason = reason"
    "has_evidence evidence"
proof -
  obtain ob where e: "e = JObj ob" using assms by (cases e) (simp_all add: validate_rejected_def)
  obtain evidence where "as_list ''evidence'' (jget ob ''evidence'') = Inr evidence"
    and "v = JObj [(''finding'', JStr (clean (jget ob ''finding''))),
      (''reason'', JStr (clean (jget ob ''reason''))), (''evidence'', JArr evidence)]"
    "clean (jget ob ''finding'') \<noteq> []" "clean (jget ob ''reason'') \<noteq> []" "has_evidence evidence"
    using assms by (auto simp: validate_rejected_def e sbind_Inr_iff Let_def split: if_splits)
  then show thesis using that by (simp add: clean_def)
qed

lemma validate_resolution_Inr:
  assumes "validate_resolution e = Inr v"
  obtains ref disp nt limitation evidence where
    "v = JObj [(''ref'', JStr ref), (''disposition'', JStr disp), (''note'', JStr nt),
           (''limitation'', JStr limitation), (''evidence'', JArr evidence)]"
    "ref \<noteq> []" "strip ref = ref" "disp \<in> set RESOLUTION_DISPOSITIONS"
    "strip nt = nt" "strip limitation = limitation"
    "disp = ''rejected'' \<longrightarrow> has_evidence evidence"
    "disp = ''blocked_by_capability'' \<longrightarrow>
       has_evidence evidence \<and> (limitation \<noteq> [] \<or> nt \<noteq> [])"
proof -
  obtain ob where e: "e = JObj ob" using assms by (cases e) (simp_all add: validate_resolution_def)
  define ref where "ref = clean (jget ob ''ref'')"
  define disp where "disp = lower (clean (jget ob ''disposition''))"
  have ok: "ref \<noteq> []" "disp \<in> set RESOLUTION_DISPOSITIONS"
    using assms by (auto simp: validate_resolution_def e ref_def disp_def Let_def split: if_splits)
  obtain evidence where ev: "as_list ''evidence'' (jget ob ''evidence'') = Inr evidence"
    and v: "v = JObj [(''ref'', JStr ref), (''disposition'', JStr disp),
           (''note'', JStr (clean (jget ob ''note''))),
           (''limitation'', JStr (clean (jget ob ''limitation''))), (''evidence'', JArr evidence)]"
    and r: "disp = ''rejected'' \<longrightarrow> has_evidence evidence"
    and b: "disp = ''blocked_by_capability'' \<longrightarrow> has_evidence evidence \<and>
        clean (py_or (jget ob ''limitation'') (jget ob ''note'')) \<noteq> []"
    using assms ok
    by (auto simp: validate_resolution_def e ref_def disp_def Let_def sbind_Inr_iff
        split: if_splits)
  have "clean (jget ob ''limitation'') \<noteq> [] \<or> clean (jget ob ''note'') \<noteq> []"
    if "clean (py_or (jget ob ''limitation'') (jget ob ''note'')) \<noteq> []"
    using that by (auto simp: py_or_def clean_def split: if_splits)
  with r b show thesis
    using that [OF v ok(1) _ ok(2)] by (simp add: ref_def clean_def)
qed

lemma validate_rejected_again:
  assumes "validate_rejected e = Inr v"
  shows "validate_rejected v = Inr v"
  by (rule validate_rejected_Inr [OF assms])
    (simp add: validate_rejected_def jget_Cons clean_def py_or_def)

lemma validate_resolution_again:
  assumes "validate_resolution e = Inr v"
  shows "validate_resolution v = Inr v"
proof (rule validate_resolution_Inr [OF assms])
  fix ref disp nt limitation evidence
  assume v: "v = JObj [(''ref'', JStr ref), (''disposition'', JStr disp), (''note'', JStr nt),
           (''limitation'', JStr limitation), (''evidence'', JArr evidence)]"
    and *: "ref \<noteq> []" "strip ref = ref" "disp \<in> set RESOLUTION_DISPOSITIONS"
    "strip nt = nt" "strip limitation = limitation"
    "disp = ''rejected'' \<longrightarrow> has_evidence evidence"
    "disp = ''blocked_by_capability'' \<longrightarrow>
       has_evidence evidence \<and> (limitation \<noteq> [] \<or> nt \<noteq> [])"
  have "lower (strip disp) = disp" using *(3) vocabularyI by simp
  moreover have "clean (py_or (JStr limitation) (JStr nt)) \<noteq> []"
    if "disp = ''blocked_by_capability''"
    using *(4,5,7) that by (auto simp: py_or_def clean_def)
  ultimately show ?thesis
    using * by (simp add: v validate_resolution_def jget_Cons Let_def)
qed

text \<open>The shape of a validated reconciliation.\<close>

lemma validate_reconciliation_Inr:
  assumes "validate_reconciliation j = Inr v"
  obtains ready summary a rej p q u res where
    "v = [(''ready_to_proceed'', JBool ready), (''summary'', JStr summary),
          (''accepted_findings'', JArr a), (''rejected_findings'', JArr rej),
          (''required_plan_changes'', JArr p), (''revised_plan'', JArr q),
          (''unresolved_blockers'', JArr u), (''resolutions'', JArr res)]"
    "read_summary (JStr summary) = Inr summary"
    "\<forall>r \<in> set rej. \<exists>e. validate_rejected e = Inr r"
    "\<forall>r \<in> set res. \<exists>e. validate_resolution e = Inr r"
    "ready \<longrightarrow> \<not> list_ex is_blocked res"
proof -
  obtain ob where j: "j = JObj ob"
    using assms by (cases j) (simp_all add: validate_reconciliation_def)
  obtain ready where r: "jget ob ''ready_to_proceed'' = JBool ready"
    using assms by (auto simp: validate_reconciliation_def j split: json.splits)
  obtain summary norm rej entries res where s: "read_summary (jget ob ''summary'') = Inr summary"
    and n: "put_lists RECON_LIST_FIELDS ob
        [(''ready_to_proceed'', JBool ready), (''summary'', JStr summary)] = Inr norm"
    and rej: "map_exc validate_rejected (arr_of (jget norm ''rejected_findings'')) = Inr rej"
    and res: "map_exc validate_resolution entries = Inr res"
    and b: "ready \<longrightarrow> \<not> list_ex is_blocked res"
    and v: "v = jput ''resolutions'' (JArr res) (jput ''rejected_findings'' (JArr rej) norm)"
    using assms
    by (auto simp: validate_reconciliation_def j r sbind_Inr_iff split: if_splits)
  obtain a rj p q u where "norm = [(''ready_to_proceed'', JBool ready), (''summary'', JStr summary),
          (''accepted_findings'', JArr a), (''rejected_findings'', JArr rj),
          (''required_plan_changes'', JArr p), (''revised_plan'', JArr q),
          (''unresolved_blockers'', JArr u)]"
    using n by (auto simp: RECON_LIST_FIELDS_def sbind_Inr_iff)
  then show thesis
    using that [of ready summary a rej p q u res] v b read_summary_Inr [OF s]
      map_exc_results [OF rej] map_exc_results [OF res] by simp blast
qed

text \<open>
  What an honest reconciliation looks like: each rejected finding names its reason and evidence,
  each resolution is one of the four dispositions with the support the disposition needs, and
  nothing blocked by a missing capability is ready to proceed.
\<close>

definition honest_rejection :: "jobj \<Rightarrow> bool" where
  "honest_rejection r = (clean (jget r ''finding'') \<noteq> [] \<and> clean (jget r ''reason'') \<noteq> [] \<and>
     has_evidence (arr_of (jget r ''evidence'')))"

definition honest_resolution :: "jobj \<Rightarrow> bool" where
  "honest_resolution r = (clean (jget r ''ref'') \<noteq> [] \<and>
     jget r ''disposition'' \<in> JStr ` set RESOLUTION_DISPOSITIONS \<and>
     (jget r ''disposition'' \<in> {JStr ''rejected'', JStr ''blocked_by_capability''} \<longrightarrow>
        has_evidence (arr_of (jget r ''evidence''))))"

definition honest_reconciliation :: "jobj \<Rightarrow> bool" where
  "honest_reconciliation v \<longleftrightarrow>
     (\<forall>r \<in> set (arr_of (jget v ''rejected_findings'')). honest_rejection (obj_of r)) \<and>
     (\<forall>r \<in> set (arr_of (jget v ''resolutions'')). honest_resolution (obj_of r)) \<and>
     (jget v ''ready_to_proceed'' = JBool True \<longrightarrow>
        (\<forall>r \<in> set (arr_of (jget v ''resolutions'')). \<not> is_blocked r))"

lemma rejected_honest: "validate_rejected e = Inr v \<Longrightarrow> honest_rejection (obj_of v)"
  by (erule validate_rejected_Inr) (simp add: honest_rejection_def jget_Cons)

lemma resolution_honest: "validate_resolution e = Inr v \<Longrightarrow> honest_resolution (obj_of v)"
  by (erule validate_resolution_Inr) (auto simp: honest_resolution_def jget_Cons)

text \<open>C39: whatever Claude submits, an accepted reconciliation is honest (no dissent waved away
  without evidence, no capability block marked ready) and re-validation leaves it unchanged.\<close>

theorem validated_reconciliation_honest_and_stable:
  assumes "validate_reconciliation j = Inr v"
  shows "honest_reconciliation v \<and> validate_reconciliation (JObj v) = Inr v"
proof (rule validate_reconciliation_Inr [OF assms])
  fix ready summary a rej p q u res
  assume v: "v = [(''ready_to_proceed'', JBool ready), (''summary'', JStr summary),
          (''accepted_findings'', JArr a), (''rejected_findings'', JArr rej),
          (''required_plan_changes'', JArr p), (''revised_plan'', JArr q),
          (''unresolved_blockers'', JArr u), (''resolutions'', JArr res)]"
    and s: "read_summary (JStr summary) = Inr summary"
    and rej: "\<forall>r \<in> set rej. \<exists>e. validate_rejected e = Inr r"
    and res: "\<forall>r \<in> set res. \<exists>e. validate_resolution e = Inr r"
    and b: "ready \<longrightarrow> \<not> list_ex is_blocked res"
  have "honest_reconciliation v"
    using rej res b rejected_honest resolution_honest
    by (fastforce simp: honest_reconciliation_def v jget_Cons list_ex_iff)
  moreover have "map_exc validate_rejected rej = Inr rej"
    by (rule map_exc_fixed) (metis rej validate_rejected_again)
  moreover have "map_exc validate_resolution res = Inr res"
    by (rule map_exc_fixed) (metis res validate_resolution_again)
  ultimately show ?thesis
    using s b by (simp add: validate_reconciliation_def v jget_Cons RECON_LIST_FIELDS_def)
qed

definition demo_reconciliation :: jobj where
  "demo_reconciliation = [(''ready_to_proceed'', JBool True), (''summary'', JStr ''all items handled''),
     (''accepted_findings'', JArr []),
     (''rejected_findings'', JArr [JObj [(''finding'', JStr ''rename it''), (''reason'', JStr ''public''),
        (''evidence'', JArr [JStr ''api.md''])]]),
     (''required_plan_changes'', JArr []), (''revised_plan'', JArr []),
     (''unresolved_blockers'', JArr []),
     (''resolutions'', JArr [JObj [(''ref'', JStr ''gpt.required_changes[0]''),
        (''disposition'', JStr ''planned''), (''note'', JStr []), (''limitation'', JStr []),
        (''evidence'', JArr [])]])]"

lemma demo_reconciliation_valid:
  "validate_reconciliation (JObj demo_reconciliation) = Inr demo_reconciliation"
  by code_simp

theorem validated_reconciliation_honest_and_stable_witness:
  "honest_reconciliation demo_reconciliation"
  by (rule conjunct1 [OF validated_reconciliation_honest_and_stable [OF demo_reconciliation_valid]])

section \<open>Extraction finds an object of the text\<close>

lemma sublist_lstrip: "sublist (lstrip s) s"
  by (metis lstrip_def sublist_append_leftI takeWhile_dropWhile_id)

lemma sublist_strip: "sublist (strip s) s"
proof -
  have "sublist (rev (lstrip (rev (lstrip s)))) (rev (rev (lstrip s)))"
    by (simp only: sublist_rev sublist_lstrip)
  then show ?thesis
    unfolding strip_def rev_rev_ident by (rule sublist_order.order_trans [OF _ sublist_lstrip])
qed

lemma sublist_take_drop: "sublist (take n s) s" "sublist (drop n s) s"
  by (simp_all add: sublist_take sublist_drop)

lemma sublist_tl_dropWhile: "sublist (tl (dropWhile P s)) s"
proof -
  have "sublist (dropWhile P s) s"
    by (metis sublist_append_leftI takeWhile_dropWhile_id)
  then show ?thesis by (rule sublist_order.order_trans [OF sublist_tl])
qed

lemma sublist_strip_fence: "sublist (strip_fence s) s"
proof -
  note tr = sublist_order.order_trans
  define s1 where "s1 = (if newline \<in> set s then tl (dropWhile (\<lambda>c. c \<noteq> newline) s) else s)"
  define s2 where "s2 = (if has_suffix fence s1 then take (length s1 - 3) s1 else s1)"
  have "sublist s1 s" by (simp add: s1_def sublist_tl_dropWhile)
  moreover have "sublist s2 s1" by (simp add: s2_def sublist_take_drop)
  ultimately have s2: "sublist s2 s" by (blast intro: tr)
  then have s3: "sublist (strip s2) s" by (rule tr [OF sublist_strip])
  then have "sublist (strip (drop 4 (strip s2))) s"
    by (rule tr [OF sublist_strip tr [OF sublist_take_drop(2)]])
  with s3 show ?thesis
    by (simp add: strip_fence_def Let_def flip: s1_def s2_def)
qed

lemma scan_object_sound:
  "scan_object loads acc cs d i e = Some ob \<Longrightarrow>
     \<exists>s. prefix s (rev acc @ cs) \<and> loads s = Some (JObj ob)"
proof (induction cs arbitrary: acc d i e)
  case (Cons c cs)
  have step: "\<exists>s. prefix s (rev acc @ c # cs) \<and> loads s = Some (JObj ob)"
    if "scan_object loads (c # acc) cs d' i' e' = Some ob" for d' i' e'
    using Cons.IH [OF that] by simp
  have here: "\<exists>s. prefix s (rev acc @ c # cs) \<and> loads s = Some (JObj ob)"
    if "loads (rev acc @ [c]) = Some (JObj ob)"
    using that by (intro exI [of _ "rev acc @ [c]"]) simp
  show ?case
    using Cons.prems step here
    by (simp split: if_splits option.splits json.splits)
qed simp

lemma scan_braces_sound:
  "scan_braces loads s = Some ob \<Longrightarrow> \<exists>t. sublist t s \<and> loads t = Some (JObj ob)"
proof (induction s)
  case (Cons c cs)
  show ?case
  proof (cases "c = CHR ''{'' \<and> scan_object loads [] (c # cs) 0 False False \<noteq> None")
    case True
    then have "scan_object loads [] (c # cs) 0 False False = Some ob"
      using Cons.prems by (auto simp del: scan_object.simps)
    from scan_object_sound [OF this] show ?thesis by (auto intro: prefix_imp_sublist)
  next
    case False
    then have "scan_braces loads cs = Some ob"
      using Cons.prems by (auto simp del: scan_object.simps split: if_splits)
    from Cons.IH [OF this] show ?thesis by (meson sublist_Cons_right)
  qed
qed simp

text \<open>An object extracted from a reviewer's text is what some contiguous part of that text
  parses to; nothing is invented or pieced together.\<close>

lemma extraction_sound:
  assumes "extract_json_object loads (JStr t) = Inr ob"
  shows "\<exists>s. sublist s t \<and> loads s = Some (JObj ob)"
proof -
  let ?s = "strip_fence (strip t)"
  have sub: "sublist ?s t"
    by (rule sublist_order.order_trans [OF sublist_strip_fence sublist_strip])
  have "loads ?s = Some (JObj ob) \<or> scan_braces loads ?s = Some ob"
    using assms by (auto simp: extract_json_object_def Let_def split: if_splits option.splits json.splits)
  then show ?thesis
    using sub scan_braces_sound [of loads ?s ob] by (meson sublist_order.order_trans)
qed

text \<open>The span the scan looks for: it closes its first brace exactly at its end.\<close>

fun closes :: "int \<Rightarrow> bool \<Rightarrow> bool \<Rightarrow> string \<Rightarrow> bool" where
  "closes depth in_str esc [] = False"
| "closes depth in_str esc (c # cs) =
     (if in_str then
        (if esc then closes depth True False cs
         else if c = CHR 0x5C then closes depth True True cs
         else closes depth (c \<noteq> CHR 0x22) False cs)
      else if c = CHR 0x22 then closes depth True esc cs
      else if c = CHR ''{'' then closes (depth + 1) False esc cs
      else if c = CHR ''}'' then
        (if depth - 1 = 0 then cs = [] else closes (depth - 1) False esc cs)
      else closes depth False esc cs)"

lemma scan_object_complete:
  "closes depth in_str esc cs \<Longrightarrow> loads (rev acc @ cs) = Some (JObj ob) \<Longrightarrow>
     scan_object loads acc (cs @ post) depth in_str esc = Some ob"
proof (induction cs arbitrary: acc depth in_str esc)
  case (Cons c cs)
  have "scan_object loads (c # acc) (cs @ post) d i e = Some ob" if "closes d i e cs" for d i e
    using Cons.IH [OF that, of "c # acc"] Cons.prems(2) by simp
  then show ?case using Cons.prems
    by (cases "c = CHR 0x22"; cases "c = CHR ''{''"; cases "c = CHR 0x7D"; cases in_str)
      (auto split: if_splits)
qed simp

lemma scan_braces_complete:
  "CHR ''{'' \<notin> set pre \<Longrightarrow> closes 0 False False obj \<Longrightarrow> hd obj = CHR ''{'' \<Longrightarrow>
     loads obj = Some (JObj ob) \<Longrightarrow> scan_braces loads (pre @ obj @ post) = Some ob"
proof (induction pre)
  case Nil
  then obtain cs where o: "obj = CHR ''{'' # cs" by (cases obj) auto
  have "scan_object loads [] (obj @ post) 0 False False = Some ob"
    by (rule scan_object_complete) (use Nil in simp_all)
  then show ?case by (simp add: o del: scan_object.simps)
qed auto

text \<open>a reviewer may wrap its one JSON object in prose: if the text before it has no opening
  brace and the object's braces balance outside string literals, extraction returns it.\<close>

theorem extraction_finds_wrapped_object:
  assumes "strip_fence (strip t) = pre @ obj @ post"
    and "CHR ''{'' \<notin> set pre" and "hd obj = CHR ''{''" and "closes 0 False False obj"
    and "loads obj = Some (JObj ob)" and "loads (pre @ obj @ post) = None"
  shows "extract_json_object loads (JStr t) = Inr ob"
proof -
  have "obj \<noteq> []" using assms(4) by auto
  then have "strip t \<noteq> []" using assms(1) by (auto simp: strip_fence_def has_prefix_def fence_def)
  then have "\<not> blank t" and "t \<noteq> []" by (auto simp: blank_def)
  with assms scan_braces_complete [OF assms(2,4,3), of loads ob post] show ?thesis
    by (simp add: extract_json_object_def)
qed

text \<open>A reader that knows one document, and a reply that wraps it in prose.\<close>

definition demo_object :: string where
  "demo_object = ''{'' @ [CHR 0x22] @ ''a}'' @ [CHR 0x22] @ '': 1}''"

definition demo_loads :: "string \<Rightarrow> json option" where
  "demo_loads s = (if s = demo_object then Some (JObj [(''a}'', JInt 1)]) else None)"

lemma demo_reply_extracted:
  "extract_json_object demo_loads (JStr (''Verdict: '' @ demo_object @ '' as asked'')) =
     Inr [(''a}'', JInt 1)]"
  by code_simp

theorem extraction_sound_witness:
  "\<exists>s. sublist s (''Verdict: '' @ demo_object @ '' as asked'') \<and>
     demo_loads s = Some (JObj [(''a}'', JInt 1)])"
  by (rule extraction_sound [OF demo_reply_extracted])

theorem extraction_finds_wrapped_object_witness:
  "extract_json_object demo_loads (JStr (''Verdict: '' @ demo_object @ '' as asked'')) =
     Inr [(''a}'', JInt 1)]"
  by (rule extraction_finds_wrapped_object [where pre = "''Verdict: ''" and post = "'' as asked''"
        and obj = demo_object])
    code_simp+

end
