(* ===== verification/Council_Agreement.thy ===== *)
theory Council_Agreement
  imports Py_Access Review_Verdict
begin

text \<open>
  The deterministic agreement rule of the review council
  (\<open>tools/clearwright_review_council.py\<close>: \<open>_reviewer_status\<close>, \<open>required_item_refs\<close>,
  \<open>substantive_round_count\<close>, \<open>evaluate\<close>).

  A council and its rounds are the JSON objects the engine stores. An outcome is a record with the
  fields of the outcome document; the texts of blockers and reasons are constructors that carry
  what the text is made from. Values read from a round file without a type check may raise, so the
  evaluation returns an exception or an outcome.
\<close>

section \<open>Outcomes\<close>

definition DEFAULT_MIN_ROUNDS :: int where "DEFAULT_MIN_ROUNDS = 2"
definition DEFAULT_MAX_ROUNDS :: int where "DEFAULT_MAX_ROUNDS = 5"

datatype council_outcome =
  AgreementMet | NeedsRevision | ReviewerUnavailable | OperatorRequired | HardGate

fun EXIT_CODES :: "council_outcome \<Rightarrow> int" where
  "EXIT_CODES AgreementMet = 0"
| "EXIT_CODES NeedsRevision = 2"
| "EXIT_CODES OperatorRequired = 3"
| "EXIT_CODES ReviewerUnavailable = 4"
| "EXIT_CODES HardGate = 5"

datatype blocker =
    VerdictBlocks string string
  | LowConfidence string json
  | NoReconciliation
  | CapabilityBlock string
  | ReconciliationBlocker string
  | UnresolvedItems nat nat "string list"
  | ScopeMissing

datatype reason =
    GateReason json
  | NoRoundsYet
  | ReviewersMissing "(string \<times> string) list"
  | MaxRoundsNoReconciliation
  | ReconciliationNeeded
  | CapabilityEscalated "string list"
  | RuleSatisfied
  | MaxRoundsNoAgreement int
  | BlockersRemain "blocker list"
  | NotReady
  | TooFewRounds int
  | NotYetMet

record evaluation =
  of_council :: jobj
  current_round :: int
  min_rounds :: int
  max_rounds :: int
  outcome :: council_outcome
  ready_to_proceed :: bool
  operator_required :: bool
  hard_gate :: bool
  gpt_status :: json
  codex_status :: json
  unresolved_blockers :: "blocker list"
  capability_blocked_refs :: "json list"
  reason :: reason

section \<open>Classifying a reviewer's result\<close>

definition EXPECTED_SOURCE :: "string \<Rightarrow> json" where
  "EXPECTED_SOURCE who = (if who = ''gpt'' then JStr ''openai-api''
     else if who = ''codex'' then JStr ''codex-cli'' else JNull)"

definition status_of :: "string \<Rightarrow> jobj \<Rightarrow> pyexc + json" where
  "status_of who ob =
     (if \<not> is_True (jget ob ''ok'') then Inr (py_or (jget ob ''error'') (JStr ''unavailable''))
      else if \<not> is_True (jget ob ''posted'') then
        Inr (py_or (jget ob ''error'') (py_or (jget ob ''classification'') (JStr ''unavailable'')))
      else if \<not> truthy (jget ob ''verdict'') then Inr (JStr ''no_verdict'')
      else (case validate_verdict (jget ob ''verdict'') (Some who) of
          Inl ConfidenceOverflow \<Rightarrow> Inl OverflowError
        | Inl _ \<Rightarrow> Inr (JStr ''invalid_verdict'')
        | Inr _ \<Rightarrow>
            if \<not> is_True (jget ob ''validated'') then Inr (JStr ''unvalidated'')
            else if EXPECTED_SOURCE who \<noteq> JNull \<and> jget ob ''source'' \<noteq> EXPECTED_SOURCE who
              then Inr (JStr ''source_mismatch'')
            else Inr (JStr ''review'')))"

definition reviewer_status :: "json \<Rightarrow> string \<Rightarrow> pyexc + json" where
  "reviewer_status slot who =
     (if \<not> truthy slot then Inr (JStr ''missing'')
      else (case slot of JObj ob \<Rightarrow> status_of who ob | _ \<Rightarrow> Inl AttributeError))"

section \<open>Item references\<close>

definition item_ref :: "string \<Rightarrow> string \<Rightarrow> nat \<Rightarrow> string" where
  "item_ref who field i = who @ ''.'' @ field @ ''['' @ str_nat i @ '']''"

definition field_refs :: "string \<Rightarrow> json \<Rightarrow> string \<Rightarrow> pyexc + string list" where
  "field_refs who v field =
     sbind (py_get v field) (\<lambda>x.
     sbind (py_len (py_or x (JArr []))) (\<lambda>n. Inr (map (item_ref who field) [0..<n])))"

definition required_item_refs :: "json \<Rightarrow> json \<Rightarrow> pyexc + string list" where
  "required_item_refs gv cv =
     (let g = py_or gv (JObj []); c = py_or cv (JObj []) in
      sbind (field_refs ''gpt'' g ''required_changes'') (\<lambda>a.
      sbind (field_refs ''gpt'' g ''blocking_findings'') (\<lambda>b.
      sbind (field_refs ''codex'' c ''required_changes'') (\<lambda>p.
      sbind (field_refs ''codex'' c ''blocking_findings'') (\<lambda>q. Inr (a @ b @ p @ q))))))"

section \<open>The rule\<close>

definition is_substantive :: "jobj \<Rightarrow> bool" where
  "is_substantive rd = truthy (get_or rd ''substantive'' (JBool True))"

definition substantive_round_count :: "jobj list \<Rightarrow> int" where
  "substantive_round_count rds = int (length (filter is_substantive rds))"

definition verdict_blocker :: "string \<Rightarrow> json \<Rightarrow> pyexc + blocker list" where
  "verdict_blocker who v =
     sbind (py_item v ''verdict'') (\<lambda>x.
       if x \<in> JStr ` set NON_BLOCKING_VERDICTS then Inr []
       else (case x of JStr s \<Rightarrow> Inr [VerdictBlocks who s] | _ \<Rightarrow> Inl TypeError))"

definition confidence_blocker :: "string \<Rightarrow> json \<Rightarrow> pyexc + blocker list" where
  "confidence_blocker who v =
     sbind (py_item v ''confidence'') (\<lambda>x.
       (case num_value x of
          None \<Rightarrow> Inl TypeError
        | Some (m, e) \<Rightarrow> Inr (if dec_less m e 7 (- 1) then [LowConfidence who x] else [])))"

definition verdict_blockers :: "json \<Rightarrow> json \<Rightarrow> pyexc + blocker list" where
  "verdict_blockers gv cv =
     sbind (verdict_blocker ''gpt'' gv) (\<lambda>a.
     sbind (verdict_blocker ''codex'' cv) (\<lambda>b.
     sbind (confidence_blocker ''gpt'' gv) (\<lambda>c.
     sbind (confidence_blocker ''codex'' cv) (\<lambda>d. Inr (a @ b @ c @ d)))))"

text \<open>\<open>base\<close>: the fields every outcome starts from.\<close>

definition base_outcome :: "jobj \<Rightarrow> int \<Rightarrow> int \<Rightarrow> int \<Rightarrow> evaluation" where
  "base_outcome c done mn mx =
     \<lparr> of_council = map (\<lambda>k. (k, jget c k)) [''council_id'', ''thread_id'', ''work_item_id'',
         ''packet_id'', ''phase'', ''approved_scope_sha256''],
       current_round = done, min_rounds = mn, max_rounds = mx, outcome = NeedsRevision,
       ready_to_proceed = False, operator_required = False, hard_gate = False,
       gpt_status = JNull, codex_status = JNull, unresolved_blockers = [],
       capability_blocked_refs = [], reason = NotYetMet \<rparr>"

text \<open>\<open>r.get("ref")\<close> of each resolution, with its disposition.\<close>

definition resolution_pairs :: "json list \<Rightarrow> pyexc + (json \<times> json) list" where
  "resolution_pairs rs = map_exc (\<lambda>r.
     sbind (py_get r ''disposition'') (\<lambda>d. sbind (py_get r ''ref'') (\<lambda>f. Inr (f, d)))) rs"

definition missing_items :: "string list \<Rightarrow> (json \<times> json) list \<Rightarrow> string list" where
  "missing_items refs pairs = filter (\<lambda>r. r \<notin> (py_str \<circ> fst) ` set pairs) refs"

text \<open>The last part of \<open>evaluate\<close>: both reviews are real and a reconciliation is attached.\<close>

definition decide_agreement ::
    "jobj \<Rightarrow> evaluation \<Rightarrow> blocker list \<Rightarrow> bool \<Rightarrow> evaluation" where
  "decide_agreement c base blockers ready =
     (let ev = base\<lparr>unresolved_blockers := blockers\<rparr>;
          done = current_round base; mn = min_rounds base; mx = max_rounds base in
      if mn \<le> done \<and> blockers = [] \<and> ready then
        ev\<lparr>outcome := AgreementMet, ready_to_proceed := True, reason := RuleSatisfied\<rparr>
      else if mx \<le> done then
        ev\<lparr>outcome := OperatorRequired, operator_required := True,
           reason := MaxRoundsNoAgreement mx\<rparr>
      else ev\<lparr>outcome := NeedsRevision,
           reason := (if blockers \<noteq> [] then BlockersRemain (take 4 blockers)
                      else if \<not> ready then NotReady
                      else if done < mn then TooFewRounds mn else NotYetMet)\<rparr>)"

definition evaluate_reconciled ::
    "jobj \<Rightarrow> evaluation \<Rightarrow> json \<Rightarrow> json \<Rightarrow> blocker list \<Rightarrow> json \<Rightarrow> pyexc + evaluation" where
  "evaluate_reconciled c base gv cv blockers recon =
     sbind (py_get recon ''resolutions'') (\<lambda>rs0.
     sbind (py_iter (py_or rs0 (JArr []))) (\<lambda>rs.
     sbind (resolution_pairs rs) (\<lambda>pairs.
       let blocked = map fst (filter (\<lambda>p. snd p = JStr ''blocked_by_capability'') pairs) in
       if blocked \<noteq> [] then
         Inr (base\<lparr>capability_blocked_refs := blocked,
                   unresolved_blockers := map (CapabilityBlock \<circ> py_str) blocked,
                   outcome := OperatorRequired, operator_required := True,
                   reason := CapabilityEscalated (map py_str blocked)\<rparr>)
       else
         sbind (py_get recon ''unresolved_blockers'') (\<lambda>ub0.
         sbind (py_iter (py_or ub0 (JArr []))) (\<lambda>ub.
         sbind (required_item_refs gv cv) (\<lambda>refs.
         sbind (py_strip (py_or (jget c ''approved_scope'') (JStr []))) (\<lambda>scope.
         sbind (py_get recon ''ready_to_proceed'') (\<lambda>ready.
           let missing = missing_items refs pairs;
               all = blockers @ map (ReconciliationBlocker \<circ> py_str) ub @
                 (if missing \<noteq> []
                  then [UnresolvedItems (length missing) (length refs) (take 6 missing)] else []) @
                 (if scope = [] then [ScopeMissing] else [])
           in Inr (decide_agreement c base all (truthy ready)))))))))) "

definition evaluate_reviewed ::
    "jobj \<Rightarrow> evaluation \<Rightarrow> json \<Rightarrow> json \<Rightarrow> json \<Rightarrow> pyexc + evaluation" where
  "evaluate_reviewed c base gv cv recon =
     sbind (verdict_blockers gv cv) (\<lambda>blockers.
       if recon = JNull then
         (let ev = base\<lparr>unresolved_blockers := blockers @ [NoReconciliation]\<rparr> in
          if max_rounds base \<le> current_round base then
            Inr (ev\<lparr>outcome := OperatorRequired, operator_required := True,
                    reason := MaxRoundsNoReconciliation\<rparr>)
          else Inr (ev\<lparr>outcome := NeedsRevision, reason := ReconciliationNeeded\<rparr>))
       else evaluate_reconciled c base gv cv blockers recon)"

definition slot_verdict :: "json \<Rightarrow> json" where
  "slot_verdict slot = jget (obj_of slot) ''verdict''"

definition evaluate_latest :: "jobj \<Rightarrow> evaluation \<Rightarrow> jobj \<Rightarrow> pyexc + evaluation" where
  "evaluate_latest c base latest =
     (let gpt = jget latest ''gpt''; codex = jget latest ''codex'' in
      sbind (reviewer_status gpt ''gpt'') (\<lambda>gs.
      sbind (reviewer_status codex ''codex'') (\<lambda>cs.
        let ev = base\<lparr>gpt_status := gs, codex_status := cs\<rparr>;
            gpt_ok = (gs = JStr ''review'' \<and> truthy (slot_verdict gpt));
            codex_ok = (cs = JStr ''review'' \<and> truthy (slot_verdict codex)) in
        if \<not> gpt_ok \<or> \<not> codex_ok then
          Inr (ev\<lparr>outcome := ReviewerUnavailable,
                  reason := ReviewersMissing
                    ((if gpt_ok then [] else [(''gpt'', py_str gs)]) @
                     (if codex_ok then [] else [(''codex'', py_str cs)]))\<rparr>)
        else evaluate_reviewed c ev (slot_verdict gpt) (slot_verdict codex)
               (jget latest ''reconciliation''))))"

text \<open>A hard gate in the very last record, substantive or not.\<close>

definition gated :: "jobj \<Rightarrow> pyexc + bool" where
  "gated rd =
     (let g = jget rd ''gpt'' in
      if \<not> truthy g then Inr (truthy (jget rd ''hard_gate''))
      else sbind (py_get g ''hard_gate'') (\<lambda>h. Inr (truthy h \<or> truthy (jget rd ''hard_gate''))))"

definition gate_reason :: "jobj \<Rightarrow> json" where
  "gate_reason rd = py_or (jget (obj_of (jget rd ''gpt'')) ''error'')
     (py_or (jget rd ''hard_gate_reason'') (JStr ''hard gate''))"

definition evaluate :: "jobj \<Rightarrow> jobj list \<Rightarrow> pyexc + evaluation" where
  "evaluate c rounds =
     sbind (to_int (get_or c ''min_rounds'' (JInt DEFAULT_MIN_ROUNDS))) (\<lambda>mn.
     sbind (to_int (get_or c ''max_rounds'' (JInt DEFAULT_MAX_ROUNDS))) (\<lambda>mx.
       let base = base_outcome c (substantive_round_count rounds) mn mx in
       sbind (if rounds = [] then Inr False else gated (last rounds)) (\<lambda>gate.
         if gate then
           Inr (base\<lparr>outcome := HardGate, hard_gate := True,
                     reason := GateReason (gate_reason (last rounds))\<rparr>)
         else
           (let substantive = filter is_substantive rounds in
            if substantive = [] then Inr (base\<lparr>outcome := NeedsRevision, reason := NoRoundsYet\<rparr>)
            else evaluate_latest c base (last substantive)))))"

section \<open>The rule stated once, without the order of its checks\<close>

definition real_review :: "string \<Rightarrow> json \<Rightarrow> bool" where
  "real_review who slot \<longleftrightarrow>
     reviewer_status slot who = Inr (JStr ''review'') \<and> truthy (slot_verdict slot)"

definition approves :: "json \<Rightarrow> bool" where
  "approves v \<longleftrightarrow> jget (obj_of v) ''verdict'' \<in> JStr ` set NON_BLOCKING_VERDICTS"

definition confident :: "json \<Rightarrow> bool" where
  "confident v \<longleftrightarrow> (case num_value (jget (obj_of v) ''confidence'') of
     None \<Rightarrow> False | Some (m, e) \<Rightarrow> dec_le 7 (- 1) m e)"

definition item_refs :: "string \<Rightarrow> json \<Rightarrow> string list" where
  "item_refs who v = concat (map (\<lambda>f. map (item_ref who f)
     [0..<(case py_len (py_or (jget (obj_of v) f) (JArr [])) of Inr n \<Rightarrow> n | Inl _ \<Rightarrow> 0)])
     [''required_changes'', ''blocking_findings''])"

definition bound_refs :: "jobj \<Rightarrow> string set" where
  "bound_refs recon = (\<lambda>r. py_str (jget (obj_of r) ''ref'')) ` set (arr_of (jget recon ''resolutions''))"

definition reconciled :: "json \<Rightarrow> json \<Rightarrow> jobj \<Rightarrow> bool" where
  "reconciled gv cv recon \<longleftrightarrow>
     (\<forall>r \<in> set (arr_of (jget recon ''resolutions'')). \<not> is_blocked r) \<and>
     \<not> truthy (jget recon ''unresolved_blockers'') \<and>
     set (item_refs ''gpt'' gv) \<union> set (item_refs ''codex'' cv) \<subseteq> bound_refs recon \<and>
     truthy (jget recon ''ready_to_proceed'')"

definition agreement_rule :: "jobj \<Rightarrow> jobj list \<Rightarrow> bool" where
  "agreement_rule c rounds \<longleftrightarrow>
     (let subs = filter is_substantive rounds; latest = last subs;
          g = jget latest ''gpt''; k = jget latest ''codex'';
          gv = slot_verdict g; cv = slot_verdict k; recon = jget latest ''reconciliation'' in
      subs \<noteq> [] \<and> gated (last rounds) = Inr False \<and>
      real_review ''gpt'' g \<and> real_review ''codex'' k \<and>
      approves gv \<and> approves cv \<and> confident gv \<and> confident cv \<and>
      recon \<noteq> JNull \<and> reconciled gv cv (obj_of recon) \<and>
      clean (jget c ''approved_scope'') \<noteq> [] \<and>
      (\<exists>mn. to_int (get_or c ''min_rounds'' (JInt DEFAULT_MIN_ROUNDS)) = Inr mn \<and>
            mn \<le> substantive_round_count rounds))"

section \<open>What each part of the evaluation returns\<close>

lemma verdict_blocker_Inr:
  "verdict_blocker who v = Inr bs \<Longrightarrow> bs = [] \<longleftrightarrow> approves v"
  by (auto simp: verdict_blocker_def sbind_Inr_iff py_item_Inr_iff approves_def
      split: if_splits json.splits)

lemma confidence_blocker_Inr:
  "confidence_blocker who v = Inr bs \<Longrightarrow> bs = [] \<longleftrightarrow> confident v"
  by (auto simp: confidence_blocker_def sbind_Inr_iff py_item_Inr_iff confident_def dec_less_def
      split: if_splits option.splits)

lemma verdict_blockers_Inr:
  "verdict_blockers gv cv = Inr bs \<Longrightarrow>
     bs = [] \<longleftrightarrow> approves gv \<and> approves cv \<and> confident gv \<and> confident cv"
  by (auto simp: verdict_blockers_def sbind_Inr_iff
      dest: verdict_blocker_Inr confidence_blocker_Inr)

lemma required_item_refs_Inr:
  "required_item_refs gv cv = Inr refs \<Longrightarrow> truthy gv \<Longrightarrow> truthy cv \<Longrightarrow>
     refs = item_refs ''gpt'' gv @ item_refs ''codex'' cv"
  by (auto simp: required_item_refs_def py_or_def field_refs_def sbind_Inr_iff py_get_Inr_iff
      item_refs_def)

lemma resolution_pairs_Inr:
  "resolution_pairs rs = Inr ps \<Longrightarrow>
     (\<forall>r \<in> set rs. is_obj r) \<and>
     ps = map (\<lambda>r. (jget (obj_of r) ''ref'', jget (obj_of r) ''disposition'')) rs"
  by (induction rs arbitrary: ps)
    (auto simp: resolution_pairs_def sbind_Inr_iff py_get_Inr_iff split: sum.splits)

text \<open>Resolutions that read as objects come from a list.\<close>

lemma iter_objects:
  "py_iter (py_or j (JArr [])) = Inr rs \<Longrightarrow> \<forall>r \<in> set rs. is_obj r \<Longrightarrow> rs = arr_of j"
  by (cases j; cases rs) (auto simp: py_or_def split: if_splits)

lemma decide_agreement_outcome:
  "outcome (decide_agreement c base bl ready) = AgreementMet \<longleftrightarrow>
     min_rounds base \<le> current_round base \<and> bl = [] \<and> ready"
  by (simp add: decide_agreement_def Let_def)

lemma evaluate_reconciled_agrees:
  assumes "evaluate_reconciled c base gv cv bl recon = Inr ev"
    and "truthy gv" and "truthy cv"
  shows "outcome ev = AgreementMet \<longleftrightarrow> min_rounds base \<le> current_round base \<and> bl = [] \<and>
    reconciled gv cv (obj_of recon) \<and> clean (jget c ''approved_scope'') \<noteq> []"
proof -
  obtain rs0 rs pairs where r: "is_obj recon" "rs0 = jget (obj_of recon) ''resolutions''"
      "py_iter (py_or rs0 (JArr [])) = Inr rs" and p: "resolution_pairs rs = Inr pairs"
    using assms(1) by (auto simp: evaluate_reconciled_def sbind_Inr_iff py_get_Inr_iff)
  note pairs = resolution_pairs_Inr [OF p]
  have rs: "rs = arr_of (jget (obj_of recon) ''resolutions'')"
    using iter_objects r(2,3) pairs by metis
  define blocked where "blocked = map fst (filter (\<lambda>p. snd p = JStr ''blocked_by_capability'') pairs)"
  have blocked: "blocked = [] \<longleftrightarrow> (\<forall>r \<in> set rs. \<not> is_blocked r)"
    by (auto simp: blocked_def pairs is_blocked_def filter_empty_conv)
  show ?thesis
  proof (cases "blocked = []")
    case False
    then have "outcome ev = OperatorRequired"
      using assms(1) r p
      by (simp add: evaluate_reconciled_def py_get_Inr_iff blocked_def [symmetric] is_obj_iff)
        (auto simp: blocked_def)
    moreover have "\<not> reconciled gv cv (obj_of recon)"
      using False blocked rs by (auto simp: reconciled_def)
    ultimately show ?thesis by simp
  next
    case True
    obtain ub refs scope where ub: "py_iter (py_or (jget (obj_of recon) ''unresolved_blockers'') (JArr [])) = Inr ub"
      and refs: "required_item_refs gv cv = Inr refs"
      and scope: "py_strip (py_or (jget c ''approved_scope'') (JStr [])) = Inr scope"
      and ev: "ev = decide_agreement c base (bl @ map (ReconciliationBlocker \<circ> py_str) ub @
                 (if missing_items refs pairs \<noteq> []
                  then [UnresolvedItems (length (missing_items refs pairs)) (length refs)
                         (take 6 (missing_items refs pairs))] else []) @
                 (if scope = [] then [ScopeMissing] else []))
               (truthy (jget (obj_of recon) ''ready_to_proceed''))"
      using assms(1) r p True
      by (auto simp: evaluate_reconciled_def py_get_Inr_iff is_obj_iff blocked_def sbind_Inr_iff
          Let_def)
    have cov: "missing_items refs pairs = [] \<longleftrightarrow>
        set (item_refs ''gpt'' gv) \<union> set (item_refs ''codex'' cv) \<subseteq> bound_refs (obj_of recon)"
      using required_item_refs_Inr [OF refs assms(2,3)] pairs rs
      by (auto simp: missing_items_def filter_empty_conv bound_refs_def image_iff)
    have "scope = clean (jget c ''approved_scope'')"
      using scope by (auto simp: py_strip_def clean_def py_or_def split: json.splits if_splits)
    then show ?thesis
      using True blocked rs cov py_iter_or_Nil [OF ub]
      by (auto simp: ev decide_agreement_outcome reconciled_def)
  qed
qed

lemma evaluate_reviewed_agrees:
  assumes "evaluate_reviewed c base gv cv recon = Inr ev" and "truthy gv" and "truthy cv"
  shows "outcome ev = AgreementMet \<longleftrightarrow> min_rounds base \<le> current_round base \<and>
    approves gv \<and> approves cv \<and> confident gv \<and> confident cv \<and> recon \<noteq> JNull \<and>
    reconciled gv cv (obj_of recon) \<and> clean (jget c ''approved_scope'') \<noteq> []"
proof -
  obtain bl where bl: "verdict_blockers gv cv = Inr bl"
    using assms(1) by (auto simp: evaluate_reviewed_def sbind_Inr_iff)
  show ?thesis
  proof (cases "recon = JNull")
    case True
    with assms(1) bl show ?thesis
      by (auto simp: evaluate_reviewed_def Let_def split: if_splits)
  next
    case False
    with assms(1) bl have "evaluate_reconciled c base gv cv bl recon = Inr ev"
      by (simp add: evaluate_reviewed_def)
    from evaluate_reconciled_agrees [OF this assms(2,3)] False verdict_blockers_Inr [OF bl]
    show ?thesis by auto
  qed
qed

lemma evaluate_latest_agrees:
  assumes "evaluate_latest c base rd = Inr ev"
  shows "outcome ev = AgreementMet \<longleftrightarrow>
    (let g = jget rd ''gpt''; k = jget rd ''codex''; gv = slot_verdict g; cv = slot_verdict k;
         recon = jget rd ''reconciliation'' in
     real_review ''gpt'' g \<and> real_review ''codex'' k \<and> min_rounds base \<le> current_round base \<and>
     approves gv \<and> approves cv \<and> confident gv \<and> confident cv \<and> recon \<noteq> JNull \<and>
     reconciled gv cv (obj_of recon) \<and> clean (jget c ''approved_scope'') \<noteq> [])"
proof -
  obtain gs cs where st: "reviewer_status (jget rd ''gpt'') ''gpt'' = Inr gs"
      "reviewer_status (jget rd ''codex'') ''codex'' = Inr cs"
    using assms by (auto simp: evaluate_latest_def Let_def sbind_Inr_iff)
  show ?thesis
  proof (cases "real_review ''gpt'' (jget rd ''gpt'') \<and> real_review ''codex'' (jget rd ''codex'')")
    case True
    then have ok: "gs = JStr ''review''" "cs = JStr ''review''"
        "truthy (slot_verdict (jget rd ''gpt''))" "truthy (slot_verdict (jget rd ''codex''))"
      using st by (auto simp: real_review_def)
    with assms st have "evaluate_reviewed c (base\<lparr>gpt_status := gs, codex_status := cs\<rparr>)
        (slot_verdict (jget rd ''gpt'')) (slot_verdict (jget rd ''codex''))
        (jget rd ''reconciliation'') = Inr ev"
      by (simp add: evaluate_latest_def Let_def)
    from evaluate_reviewed_agrees [OF this ok(3,4)] True show ?thesis
      by (simp add: Let_def)
  next
    case False
    then have "outcome ev = ReviewerUnavailable"
      using assms st by (auto simp: evaluate_latest_def Let_def real_review_def split: if_splits)
    with False show ?thesis by (auto simp: Let_def)
  qed
qed

text \<open>The cases of the whole evaluation.\<close>

lemma evaluate_cases:
  assumes "evaluate c rounds = Inr ev"
  obtains mn mx base gate where
    "to_int (get_or c ''min_rounds'' (JInt DEFAULT_MIN_ROUNDS)) = Inr mn"
    "to_int (get_or c ''max_rounds'' (JInt DEFAULT_MAX_ROUNDS)) = Inr mx"
    "base = base_outcome c (substantive_round_count rounds) mn mx"
    "(rounds = [] \<and> gate = False) \<or> (rounds \<noteq> [] \<and> gated (last rounds) = Inr gate)"
    "gate \<Longrightarrow> ev = base\<lparr>outcome := HardGate, hard_gate := True,
                     reason := GateReason (gate_reason (last rounds))\<rparr>"
    "\<not> gate \<Longrightarrow> filter is_substantive rounds = [] \<Longrightarrow>
       ev = base\<lparr>outcome := NeedsRevision, reason := NoRoundsYet\<rparr>"
    "\<not> gate \<Longrightarrow> filter is_substantive rounds \<noteq> [] \<Longrightarrow>
       evaluate_latest c base (last (filter is_substantive rounds)) = Inr ev"
proof -
  obtain mn mx where m: "to_int (get_or c ''min_rounds'' (JInt DEFAULT_MIN_ROUNDS)) = Inr mn"
      "to_int (get_or c ''max_rounds'' (JInt DEFAULT_MAX_ROUNDS)) = Inr mx"
    using assms by (auto simp: evaluate_def sbind_Inr_iff)
  obtain gate where g: "(if rounds = [] then Inr False else gated (last rounds)) = Inr gate"
    using assms m by (auto simp: evaluate_def Let_def sbind_Inr_iff)
  show thesis
  proof (rule that [OF m refl, of gate])
    show "(rounds = [] \<and> gate = False) \<or> (rounds \<noteq> [] \<and> gated (last rounds) = Inr gate)"
      using g by (auto split: if_splits)
  qed (use assms m g in \<open>simp_all add: evaluate_def Let_def\<close>)
qed


section \<open>Outcomes and their flags\<close>

definition outcome_flags :: "evaluation \<Rightarrow> bool" where
  "outcome_flags ev \<longleftrightarrow>
     (ready_to_proceed ev \<longleftrightarrow> outcome ev = AgreementMet) \<and>
     (operator_required ev \<longleftrightarrow> outcome ev = OperatorRequired) \<and>
     (hard_gate ev \<longleftrightarrow> outcome ev = HardGate) \<and>
     (outcome ev = AgreementMet \<longrightarrow> unresolved_blockers ev = [] \<and> capability_blocked_refs ev = []) \<and>
     (capability_blocked_refs ev \<noteq> [] \<longrightarrow> outcome ev = OperatorRequired) \<and>
     (max_rounds ev \<le> current_round ev \<and> 0 < current_round ev \<longrightarrow> outcome ev \<noteq> NeedsRevision)"

definition plain_base :: "evaluation \<Rightarrow> bool" where
  "plain_base b \<longleftrightarrow> \<not> ready_to_proceed b \<and> \<not> operator_required b \<and> \<not> hard_gate b \<and>
     unresolved_blockers b = [] \<and> capability_blocked_refs b = []"

text \<open>The outcomes the last part can return.\<close>

lemma evaluate_reconciled_shape:
  assumes "evaluate_reconciled c base gv cv bl recon = Inr ev"
  shows "(\<exists>blocked. blocked \<noteq> [] \<and> ev = base\<lparr>capability_blocked_refs := blocked,
                   unresolved_blockers := map (CapabilityBlock \<circ> py_str) blocked,
                   outcome := OperatorRequired, operator_required := True,
                   reason := CapabilityEscalated (map py_str blocked)\<rparr>) \<or>
    (\<exists>bs r. ev = decide_agreement c base bs r)"
proof -
  obtain pairs rs rs0 where p: "py_get recon ''resolutions'' = Inr rs0"
      "py_iter (py_or rs0 (JArr [])) = Inr rs" "resolution_pairs rs = Inr pairs"
    using assms by (auto simp: evaluate_reconciled_def sbind_Inr_iff)
  show ?thesis
  proof (cases "map fst (filter (\<lambda>p. snd p = JStr ''blocked_by_capability'') pairs) = []")
    case False
    with assms p have "ev = base\<lparr>capability_blocked_refs :=
          map fst (filter (\<lambda>p. snd p = JStr ''blocked_by_capability'') pairs),
        unresolved_blockers := map (CapabilityBlock \<circ> py_str)
          (map fst (filter (\<lambda>p. snd p = JStr ''blocked_by_capability'') pairs)),
        outcome := OperatorRequired, operator_required := True,
        reason := CapabilityEscalated (map py_str
          (map fst (filter (\<lambda>p. snd p = JStr ''blocked_by_capability'') pairs)))\<rparr>"
      by (simp add: evaluate_reconciled_def Let_def)
    with False show ?thesis by blast
  next
    case True
    with assms p show ?thesis
      by (auto simp: evaluate_reconciled_def Let_def sbind_Inr_iff)
  qed
qed

lemma evaluate_reconciled_flags:
  assumes "evaluate_reconciled c base gv cv bl recon = Inr ev" and "plain_base base"
  shows "outcome_flags ev \<and> current_round ev = current_round base"
proof -
  consider (blocked) blocked where "blocked \<noteq> []"
      "ev = base\<lparr>capability_blocked_refs := blocked,
                   unresolved_blockers := map (CapabilityBlock \<circ> py_str) blocked,
                   outcome := OperatorRequired, operator_required := True,
                   reason := CapabilityEscalated (map py_str blocked)\<rparr>"
    | (decided) bs r where "ev = decide_agreement c base bs r"
    using evaluate_reconciled_shape [OF assms(1)] by blast
  then show ?thesis
  proof cases
    case blocked
    with assms(2) show ?thesis by (simp add: outcome_flags_def plain_base_def)
  next
    case decided
    with assms(2) show ?thesis
      by (cases "bs = []"; cases r; cases "min_rounds base \<le> current_round base";
        cases "max_rounds base \<le> current_round base")
        (simp_all add: decide_agreement_def outcome_flags_def plain_base_def Let_def)
  qed
qed

lemma evaluate_reviewed_flags:
  assumes "evaluate_reviewed c base gv cv recon = Inr ev" and "plain_base base"
  shows "outcome_flags ev \<and> current_round ev = current_round base"
proof (cases "recon = JNull")
  case True
  with assms show ?thesis
    by (cases "max_rounds base \<le> current_round base")
      (auto simp: evaluate_reviewed_def sbind_Inr_iff Let_def outcome_flags_def plain_base_def)
next
  case False
  with assms(1) obtain bl where "evaluate_reconciled c base gv cv bl recon = Inr ev"
    by (auto simp: evaluate_reviewed_def sbind_Inr_iff)
  from evaluate_reconciled_flags [OF this assms(2)] show ?thesis .
qed

lemma evaluate_latest_flags:
  assumes "evaluate_latest c base rd = Inr ev" and "plain_base base"
  shows "outcome_flags ev \<and> current_round ev = current_round base"
proof -
  obtain gs cs where st: "reviewer_status (jget rd ''gpt'') ''gpt'' = Inr gs"
      "reviewer_status (jget rd ''codex'') ''codex'' = Inr cs"
    using assms(1) by (auto simp: evaluate_latest_def Let_def sbind_Inr_iff)
  have p: "plain_base (base\<lparr>gpt_status := gs, codex_status := cs\<rparr>)"
    using assms(2) by (simp add: plain_base_def)
  show ?thesis
  proof (cases "real_review ''gpt'' (jget rd ''gpt'') \<and> real_review ''codex'' (jget rd ''codex'')")
    case True
    with assms st have "evaluate_reviewed c (base\<lparr>gpt_status := gs, codex_status := cs\<rparr>)
        (slot_verdict (jget rd ''gpt'')) (slot_verdict (jget rd ''codex''))
        (jget rd ''reconciliation'') = Inr ev"
      by (simp add: evaluate_latest_def Let_def real_review_def)
    from evaluate_reviewed_flags [OF this p] show ?thesis by simp
  next
    case False
    then show ?thesis
      using assms st by (auto simp: evaluate_latest_def Let_def real_review_def outcome_flags_def
          plain_base_def split: if_splits)
  qed
qed

text \<open>the flags of every outcome say what its outcome says, agreement leaves no blocker, a
  capability block always goes to the operator, and once the maximum of rounds is reached no
  further revision is asked for.\<close>

theorem outcome_consistent:
  assumes "evaluate c rounds = Inr ev"
  shows "outcome_flags ev \<and> current_round ev = substantive_round_count rounds"
proof (rule evaluate_cases [OF assms])
  fix mn mx base gate
  assume base: "base = base_outcome c (substantive_round_count rounds) mn mx"
    and a: "gate \<Longrightarrow> ev = base\<lparr>outcome := HardGate, hard_gate := True,
                     reason := GateReason (gate_reason (last rounds))\<rparr>"
    and b: "\<not> gate \<Longrightarrow> filter is_substantive rounds = [] \<Longrightarrow>
       ev = base\<lparr>outcome := NeedsRevision, reason := NoRoundsYet\<rparr>"
    and l: "\<not> gate \<Longrightarrow> filter is_substantive rounds \<noteq> [] \<Longrightarrow>
       evaluate_latest c base (last (filter is_substantive rounds)) = Inr ev"
  have p: "plain_base base" by (simp add: base base_outcome_def plain_base_def)
  consider "gate" | "\<not> gate" "filter is_substantive rounds = []"
    | "\<not> gate" "filter is_substantive rounds \<noteq> []" by blast
  then show "outcome_flags ev \<and> current_round ev = substantive_round_count rounds"
  proof cases
    case 2
    with b show ?thesis
      by (simp add: base base_outcome_def outcome_flags_def substantive_round_count_def)
  next
    case 3
    from evaluate_latest_flags [OF l [OF 3] p] show ?thesis
      by (simp add: base base_outcome_def)
  qed (use a in \<open>simp add: base base_outcome_def outcome_flags_def\<close>)
qed

section \<open>A council that agrees\<close>

definition demo_slot :: "string \<Rightarrow> json" where
  "demo_slot who = JObj [(''ok'', JBool True), (''posted'', JBool True),
     (''validated'', JBool True), (''source'', EXPECTED_SOURCE who),
     (''verdict'', JObj (jput ''required_changes'' (JArr [JStr ''name it''])
        (demo_verdict who ''approve_with_changes'')))]"

definition demo_bindings :: json where
  "demo_bindings = JArr (map (\<lambda>r. JObj [(''ref'', JStr r), (''disposition'', JStr ''planned'')])
     [''codex.required_changes[0]'', ''gpt.required_changes[0]''])"

definition demo_round :: "int \<Rightarrow> jobj" where
  "demo_round n = [(''round'', JInt n), (''substantive'', JBool True),
     (''gpt'', demo_slot ''gpt''), (''codex'', demo_slot ''codex''),
     (''reconciliation'', JObj (jput ''resolutions'' demo_bindings demo_reconciliation))]"

definition demo_council :: jobj where
  "demo_council = [(''council_id'', JStr ''cw-council-1''), (''min_rounds'', JInt 2),
     (''max_rounds'', JInt 5), (''approved_scope'', JStr ''docs only'')]"

definition demo_outcome :: "evaluation option" where
  "demo_outcome = (case evaluate demo_council [demo_round 1, demo_round 2] of
     Inr ev \<Rightarrow> Some ev | Inl _ \<Rightarrow> None)"

lemma demo_outcome_agrees: "map_option outcome demo_outcome = Some AgreementMet"
  by code_simp

lemma demo_evaluates: "\<exists>ev. evaluate demo_council [demo_round 1, demo_round 2] = Inr ev \<and>
    outcome ev = AgreementMet"
  using demo_outcome_agrees by (auto simp: demo_outcome_def split: sum.splits)


theorem outcome_consistent_witness:
  "\<exists>ev. evaluate demo_council [demo_round 1, demo_round 2] = Inr ev \<and> outcome_flags ev \<and>
     outcome ev = AgreementMet"
  using demo_evaluates outcome_consistent by blast

section \<open>Which records count as a real review\<close>

definition genuine_review :: "string \<Rightarrow> jobj \<Rightarrow> bool" where
  "genuine_review who ob \<longleftrightarrow>
     is_True (jget ob ''ok'') \<and> is_True (jget ob ''posted'') \<and> is_True (jget ob ''validated'') \<and>
     truthy (jget ob ''verdict'') \<and>
     (\<exists>v. validate_verdict (jget ob ''verdict'') (Some who) = Inr v) \<and>
     (EXPECTED_SOURCE who = JNull \<or> jget ob ''source'' = EXPECTED_SOURCE who)"

text \<open>A failed or unposted run whose own error text is the word \<open>review\<close>.\<close>

definition error_reads_review :: "jobj \<Rightarrow> bool" where
  "error_reads_review ob \<longleftrightarrow>
     (\<not> (is_True (jget ob ''ok'') \<and> is_True (jget ob ''posted'')) \<and>
        jget ob ''error'' = JStr ''review'') \<or>
     (is_True (jget ob ''ok'') \<and> \<not> is_True (jget ob ''posted'') \<and> \<not> truthy (jget ob ''error'') \<and>
        jget ob ''classification'' = JStr ''review'')"

text \<open>a stored result is classified as a review when it is a successful, posted, validated run
  of the expected reviewer and source whose verdict validates again, and otherwise only when the
  run did not succeed and its own error text is the word "review", which the classifier returns as
  the status. The second case is a hole in the trust boundary: the status of a failed run and the
  status of a real review share one name space.\<close>

theorem review_status_exact:
  "reviewer_status (JObj ob) who = Inr (JStr ''review'') \<longleftrightarrow>
     ob \<noteq> [] \<and> (genuine_review who ob \<or> error_reads_review ob)"
proof -
  have "status_of who ob = Inr (JStr ''review'') \<longleftrightarrow> genuine_review who ob \<or> error_reads_review ob"
  proof (cases "is_True (jget ob ''ok'') \<and> is_True (jget ob ''posted'')")
    case True
    then show ?thesis
      by (auto simp: status_of_def genuine_review_def error_reads_review_def
          split: sum.splits verdict_error.splits)
  next
    case False
    then show ?thesis
      by (auto simp: status_of_def genuine_review_def error_reads_review_def py_or_def
          split: if_splits)
  qed
  then show ?thesis by (auto simp: reviewer_status_def)
qed

definition failed_slot :: "string \<Rightarrow> json" where
  "failed_slot who = JObj [(''ok'', JBool False), (''error'', JStr ''review''),
     (''verdict'', JObj (demo_verdict who ''approve''))]"

definition failed_round :: "int \<Rightarrow> jobj" where
  "failed_round n = jput ''gpt'' (failed_slot ''gpt'') (jput ''codex'' (failed_slot ''codex'')
     (demo_round n))"

text \<open>Two failed runs are enough for agreement when their error text reads \<open>review\<close>.\<close>

lemma failed_runs_can_agree:
  "(case evaluate demo_council [failed_round 1, failed_round 2] of
      Inr ev \<Rightarrow> outcome ev = AgreementMet | Inl _ \<Rightarrow> False)"
  by code_simp

section \<open>The evaluation never raises on what the engine stores\<close>

definition engine_slot :: "json \<Rightarrow> bool" where
  "engine_slot slot \<longleftrightarrow> slot = JNull \<or>
     (is_obj slot \<and> (slot_verdict slot = JNull \<or>
        (\<exists>v. slot_verdict slot = JObj v \<and> verdict_typed v)))"

definition engine_round :: "jobj \<Rightarrow> bool" where
  "engine_round rd \<longleftrightarrow> engine_slot (jget rd ''gpt'') \<and> engine_slot (jget rd ''codex'') \<and>
     (jget rd ''reconciliation'' = JNull \<or>
       (\<exists>j v. validate_reconciliation j = Inr v \<and> jget rd ''reconciliation'' = JObj v))"

definition engine_council :: "jobj \<Rightarrow> bool" where
  "engine_council c \<longleftrightarrow> (\<exists>mn mx. jget c ''min_rounds'' = JInt mn \<and> jget c ''max_rounds'' = JInt mx) \<and>
     (jget c ''approved_scope'' = JNull \<or> is_str (jget c ''approved_scope''))"

lemma put_lists_Inl: "put_lists fs ob norm = Inl e \<Longrightarrow> \<exists>f. e = NotAnArray f"
  by (induction fs arbitrary: norm)
    (auto simp: sbind_Inl_iff as_list_def split: json.splits)

lemma validate_verdict_overflow:
  "validate_verdict (JObj v) r = Inl ConfidenceOverflow \<Longrightarrow> float_overflow (jget v ''confidence'')"
  by (auto simp: validate_verdict_def Let_def sbind_Inl_iff read_confidence_def read_summary_def
      dest!: put_lists_Inl split: if_splits json.splits option.splits pyfloat.splits)

lemma reviewer_status_total:
  assumes "engine_slot slot"
  obtains st where "reviewer_status slot who = Inr st"
proof -
  have "status_of who ob \<noteq> Inl e" if ob: "slot = JObj ob" for ob e
  proof
    assume raise: "status_of who ob = Inl e"
    then have o: "validate_verdict (jget ob ''verdict'') (Some who) = Inl ConfidenceOverflow"
      by (auto simp: status_of_def split: if_splits sum.splits verdict_error.splits)
    then have n: "jget ob ''verdict'' \<noteq> JNull" by (auto simp: validate_verdict_def)
    with assms ob obtain v where v: "jget ob ''verdict'' = JObj v" "verdict_typed v"
      by (auto simp: engine_slot_def slot_verdict_def)
    then have "\<not> float_overflow (jget v ''confidence'')"
      by (auto simp: verdict_typed_def float_overflow_def)
    with validate_verdict_overflow o v(1) show False by simp
  qed
  then have "\<exists>st. reviewer_status slot who = Inr st"
    using assms by (cases slot; cases "status_of who (obj_of slot)")
      (auto simp: reviewer_status_def engine_slot_def)
  with that show thesis by blast
qed

lemma typed_blockers_total:
  assumes "verdict_typed v" and "verdict_typed w"
  obtains bl where "verdict_blockers (JObj v) (JObj w) = Inr bl"
proof -
  have vb: "\<exists>bl. verdict_blocker who (JObj u) = Inr bl" if "verdict_typed u" for who u
    using that jget_nonnull_has [of u "''verdict''"]
    by (auto simp: verdict_typed_def verdict_blocker_def py_item_def)
  have cb: "\<exists>bl. confidence_blocker who (JObj u) = Inr bl" if "verdict_typed u" for who u
    using that jget_nonnull_has [of u "''confidence''"]
    by (auto simp: verdict_typed_def confidence_blocker_def py_item_def)
  obtain a b p q where "verdict_blocker ''gpt'' (JObj v) = Inr a"
      "verdict_blocker ''codex'' (JObj w) = Inr b" "confidence_blocker ''gpt'' (JObj v) = Inr p"
      "confidence_blocker ''codex'' (JObj w) = Inr q"
    using vb [OF assms(1), of "''gpt''"] vb [OF assms(2), of "''codex''"]
      cb [OF assms(1), of "''gpt''"] cb [OF assms(2), of "''codex''"] by fast
  then have "verdict_blockers (JObj v) (JObj w) = Inr (a @ b @ p @ q)"
    by (simp add: verdict_blockers_def)
  with that show thesis .
qed

lemma typed_refs_total:
  assumes "verdict_typed v" and "verdict_typed w"
  obtains refs where "required_item_refs (JObj v) (JObj w) = Inr refs"
proof -
  have lists: "''required_changes'' \<in> set VERDICT_LIST_FIELDS" "''blocking_findings'' \<in> set VERDICT_LIST_FIELDS"
    by (code_simp, code_simp)
  have f: "\<exists>r. field_refs who (py_or (JObj u) (JObj [])) f = Inr r"
    if "verdict_typed u" "f \<in> set VERDICT_LIST_FIELDS" for who u f
  proof -
    have "is_arr (jget u f)" using that by (simp add: verdict_typed_def)
    then obtain xs where "jget u f = JArr xs" by (auto simp: is_arr_iff)
    then show ?thesis
      by (cases "u = []") (auto simp: field_refs_def py_or_def)
  qed
  have "\<exists>refs. required_item_refs (JObj v) (JObj w) = Inr refs"
    using f [OF assms(1) lists(1), of "''gpt''"] f [OF assms(1) lists(2), of "''gpt''"]
      f [OF assms(2) lists(1), of "''codex''"] f [OF assms(2) lists(2), of "''codex''"]
    by (auto simp: required_item_refs_def)
  with that show thesis by blast
qed

lemma resolution_is_obj: "validate_resolution e = Inr r \<Longrightarrow> is_obj r"
  by (erule validate_resolution_Inr) simp

lemma resolution_pairs_total:
  "\<forall>r \<in> set rs. is_obj r \<Longrightarrow>
     resolution_pairs rs = Inr (map (\<lambda>r. (jget (obj_of r) ''ref'', jget (obj_of r) ''disposition'')) rs)"
  by (induction rs) (auto simp: resolution_pairs_def is_obj_iff)

lemma evaluate_reconciled_total:
  assumes "engine_council c" and "verdict_typed v" and "verdict_typed w"
    and "validate_reconciliation j = Inr rc"
  shows "\<exists>ev. evaluate_reconciled c base (JObj v) (JObj w) bl (JObj rc) = Inr ev"
proof (rule validate_reconciliation_Inr [OF assms(4)])
  fix ready summary a rej p q u res
  assume rc: "rc = [(''ready_to_proceed'', JBool ready), (''summary'', JStr summary),
          (''accepted_findings'', JArr a), (''rejected_findings'', JArr rej),
          (''required_plan_changes'', JArr p), (''revised_plan'', JArr q),
          (''unresolved_blockers'', JArr u), (''resolutions'', JArr res)]"
    and res: "\<forall>r \<in> set res. \<exists>e. validate_resolution e = Inr r"
  have o: "\<forall>r \<in> set res. is_obj r"
    using res resolution_is_obj by blast
  obtain refs where refs: "required_item_refs (JObj v) (JObj w) = Inr refs"
    using typed_refs_total assms(2,3) by blast
  have "is_str (py_or (jget c ''approved_scope'') (JStr []))"
    using assms(1) by (auto simp: engine_council_def py_or_def)
  then obtain scope where sc: "py_strip (py_or (jget c ''approved_scope'') (JStr [])) = Inr scope"
    by (auto simp: py_strip_def is_str_iff)
  have it: "py_iter (py_or (JArr xs) (JArr [])) = Inr xs" for xs
    by (simp add: py_or_def)
  have f: "jget rc ''resolutions'' = JArr res" "jget rc ''unresolved_blockers'' = JArr u"
      "jget rc ''ready_to_proceed'' = JBool ready"
    by (simp_all add: rc jget_Cons)
  show ?thesis
    unfolding evaluate_reconciled_def Let_def py_get_JObj sbind_simps f it
      resolution_pairs_total [OF o] refs sc
    by (simp only: sum.inject if_distrib [of "\<lambda>x. \<exists>ev. x = Inr ev"] simp_thms if_cancel)
qed

text \<open>C11: on a council and rounds as the engine writes them (typed verdicts or none in each slot, a
  validated reconciliation or none, integer bounds) the evaluation always returns an outcome; no
  exception escapes into the caller.\<close>

theorem evaluate_returns:
  assumes "engine_council c" and "\<forall>rd \<in> set rounds. engine_round rd"
  shows "\<exists>ev. evaluate c rounds = Inr ev"
proof -
  obtain mn mx where m: "to_int (get_or c ''min_rounds'' (JInt DEFAULT_MIN_ROUNDS)) = Inr mn"
      "to_int (get_or c ''max_rounds'' (JInt DEFAULT_MAX_ROUNDS)) = Inr mx"
  proof -
    have "\<exists>m. to_int (get_or c k (JInt d)) = Inr m" if "jget c k = JInt n" for k d n
      using that by (simp add: get_or_def to_int_def)
    with assms(1) that show thesis unfolding engine_council_def by blast
  qed
  let ?subs = "filter is_substantive rounds"
  have slot_gated: "\<exists>g. gated rd = Inr g" if "engine_round rd" for rd
    using that by (auto simp: gated_def Let_def engine_round_def engine_slot_def is_obj_iff)
  have gate: "\<exists>g. (if rounds = [] then Inr False else gated (last rounds)) = Inr g"
    using assms(2) slot_gated by (cases rounds) auto
  have latest: "\<exists>ev. evaluate_latest c base (last ?subs) = Inr ev" if "?subs \<noteq> []" for base
  proof -
    let ?rd = "last ?subs"
    have e: "engine_round ?rd" using assms(2) last_in_set [OF that] by auto
    then obtain gs cs where st: "reviewer_status (jget ?rd ''gpt'') ''gpt'' = Inr gs"
        "reviewer_status (jget ?rd ''codex'') ''codex'' = Inr cs"
      by (metis engine_round_def reviewer_status_total)
    show ?thesis
    proof (cases "real_review ''gpt'' (jget ?rd ''gpt'') \<and> real_review ''codex'' (jget ?rd ''codex'')")
      case False
      with st show ?thesis by (auto simp: evaluate_latest_def Let_def real_review_def)
    next
      case True
      then obtain v w where vw: "slot_verdict (jget ?rd ''gpt'') = JObj v" "verdict_typed v"
          "slot_verdict (jget ?rd ''codex'') = JObj w" "verdict_typed w"
        using e by (fastforce simp: engine_round_def engine_slot_def real_review_def slot_verdict_def)
      obtain bl where bl: "verdict_blockers (JObj v) (JObj w) = Inr bl"
        using typed_blockers_total vw(2,4) by blast
      have "\<exists>ev. evaluate_reviewed c b (JObj v) (JObj w) (jget ?rd ''reconciliation'') = Inr ev" for b
        using e evaluate_reconciled_total [OF assms(1) vw(2,4)]
        by (auto simp: evaluate_reviewed_def bl engine_round_def Let_def)
      with True st vw show ?thesis by (auto simp: evaluate_latest_def Let_def real_review_def)
    qed
  qed
  from gate obtain g where g: "(if rounds = [] then Inr False else gated (last rounds)) = Inr g" ..
  show ?thesis
    using m g latest by (cases g) (auto simp: evaluate_def Let_def)
qed

lemma demo_verdict_typed: "verdict_typed (jput ''required_changes'' (JArr [JStr ''name it''])
    (demo_verdict ''gpt'' ''approve_with_changes''))"
  "verdict_typed (jput ''required_changes'' (JArr [JStr ''name it''])
    (demo_verdict ''codex'' ''approve_with_changes''))"
  by (simp_all add: verdict_typed_def demo_verdict_def jget_Cons VERDICT_LIST_FIELDS_def
      REVIEWERS_def VERDICTS_def RISK_LEVELS_def MIN_SUMMARY_CHARS_def dec_le_def)

theorem evaluate_returns_witness: "\<exists>ev. evaluate demo_council [jput ''reconciliation'' JNull (demo_round 1)] = Inr ev"
  by (rule evaluate_returns)
    (use demo_verdict_typed in \<open>simp_all add: engine_council_def demo_council_def jget_Cons engine_round_def
      demo_round_def engine_slot_def slot_verdict_def demo_slot_def\<close>)

end
