(* ===== verification/Council_Store.thy ===== *)
theory Council_Store
  imports Council_Agreement
begin

text \<open>
  The durable council store of \<open>tools/clearwright_review_council.py\<close>: atomic replacement of a JSON
  document under the writer token, creation of a council within the round bounds, saving a round
  and the council's index of rounds, reconciliations, the approved scope, lineage, and retry grants.

  A document is named by what it is (\<open>council.json\<close>, \<open>round-NN.json\<close>, \<open>outcome.json\<close> of a council
  directory). The operating system is a record of schedules over the store's clock: when the writer
  token is refused (an archive operation holds the queue), when staging the temporary file fails,
  and how each attempt to rename it ends. \<open>sent\<close> records the packets handed to a reviewer
  adapter, the one effect of the engine outside its own files. Hashes and the clock are arguments.
\<close>

section \<open>Documents, faults and atomic writes\<close>

datatype cpath = CouncilDoc string | RoundDoc string int | OutcomeDoc string

record cstore =
  docs :: "cpath \<Rightarrow> jobj option"
  clock :: nat
  sent :: "(string \<times> int \<times> string \<times> string) list"

datatype rename_result = Renamed | Contended | Refused

record disk =
  token_refused :: "nat \<Rightarrow> bool"
  staging_fails :: "nat \<Rightarrow> bool"
  rename_at :: "nat \<Rightarrow> rename_result"

datatype cexc =
    MaintenanceInProgress
  | WriteError
  | BoundsError
  | VerdictProblem verdict_error
  | NoRoundToReconcile
  | ResidueFound
  | Raised pyexc

type_synonym 'a cm = "cstore \<Rightarrow> (cexc + 'a) \<times> cstore"

definition creturn :: "'a \<Rightarrow> 'a cm" where
  "creturn x s = (Inr x, s)"

definition craise :: "cexc \<Rightarrow> 'a cm" where
  "craise e s = (Inl e, s)"

definition cbind :: "'a cm \<Rightarrow> ('a \<Rightarrow> 'b cm) \<Rightarrow> 'b cm" where
  "cbind m f s = (case m s of (Inl e, s') \<Rightarrow> (Inl e, s') | (Inr x, s') \<Rightarrow> f x s')"

text \<open>The pauses before each rename attempt, in hundredths of a second.\<close>

definition REPLACE_RETRY_DELAYS :: "nat list" where
  "REPLACE_RETRY_DELAYS = [0, 5, 10, 20, 40, 80]"

definition ctick :: "cstore \<Rightarrow> cstore" where
  "ctick s = s\<lparr>clock := Suc (clock s)\<rparr>"

fun replace_loop :: "disk \<Rightarrow> nat list \<Rightarrow> cpath \<Rightarrow> jobj \<Rightarrow> unit cm" where
  "replace_loop d [] p j s = (Inl WriteError, ctick s)"
| "replace_loop d (delay # later) p j s =
     (case rename_at d (clock s) of
        Renamed \<Rightarrow> (Inr (), (ctick s)\<lparr>docs := (docs s)(p \<mapsto> j)\<rparr>)
      | Refused \<Rightarrow> (Inl WriteError, ctick s)
      | Contended \<Rightarrow> replace_loop d later p j (ctick s))"

definition atomic_write_json :: "disk \<Rightarrow> cpath \<Rightarrow> jobj \<Rightarrow> unit cm" where
  "atomic_write_json d p j s =
     (if token_refused d (clock s) then (Inl MaintenanceInProgress, ctick s)
      else if staging_fails d (clock s) then (Inl WriteError, ctick s)
      else replace_loop d REPLACE_RETRY_DELAYS p j (ctick s))"

section \<open>Creation\<close>

definition MIN_ROUNDS_FLOOR :: int where "MIN_ROUNDS_FLOOR = 2"
definition MAX_ROUNDS_CEILING :: int where "MAX_ROUNDS_CEILING = 5"

definition clamp_rounds :: "int \<Rightarrow> int \<Rightarrow> cexc + int \<times> int" where
  "clamp_rounds mn mx =
     (if MIN_ROUNDS_FLOOR \<le> mn \<and> mn \<le> mx \<and> mx \<le> MAX_ROUNDS_CEILING then Inr (mn, mx)
      else Inl BoundsError)"

definition resolve_lane :: "json \<Rightarrow> string \<times> string" where
  "resolve_lane ds =
     (let v = lower (clean ds) in
      if v = ''standard'' then (''standard'', ''user'')
      else if v = ''internal_technical'' then (''internal_technical'', ''internal_technical'')
      else (''sensitive'', ''user''))"

definition scope_hash :: "(string \<Rightarrow> string) \<Rightarrow> json \<Rightarrow> json" where
  "scope_hash sha scope =
     (if \<not> truthy scope \<or> blank (py_str scope) then JNull else JStr (sha (py_str scope)))"

record council_args =
  a_thread_id :: json
  a_work_item_id :: json
  a_packet_id :: json
  a_phase :: json
  a_min_rounds :: int
  a_max_rounds :: int
  a_model :: json
  a_council_id :: string
  a_approved_scope :: json
  a_review_profile :: json
  a_data_sensitivity :: json
  a_lineage :: json
  a_lineage_candidate :: json
  a_source_bindings :: json

text \<open>The council document; the identifier is the caller's or a fresh one.\<close>

definition new_council :: "(string \<Rightarrow> string) \<Rightarrow> string \<Rightarrow> council_args \<Rightarrow> cexc + jobj" where
  "new_council sha now a =
     sbind (clamp_rounds (a_min_rounds a) (a_max_rounds a)) (\<lambda>(mn, mx).
       let (sens, lane) = resolve_lane (a_data_sensitivity a);
           profile = (if a_review_profile a \<in> {JStr ''code'', JStr ''editorial''}
                      then a_review_profile a else JStr ''code'') in
       Inr [(''council_id'', JStr (a_council_id a)), (''thread_id'', a_thread_id a),
         (''work_item_id'', a_work_item_id a), (''packet_id'', a_packet_id a),
         (''phase'', a_phase a), (''review_profile'', profile),
         (''data_sensitivity'', JStr sens), (''dispatch_lane'', JStr lane),
         (''lineage'', a_lineage a), (''lineage_candidate'', a_lineage_candidate a),
         (''source_bindings'', a_source_bindings a),
         (''min_rounds'', JInt mn), (''max_rounds'', JInt mx), (''model'', a_model a),
         (''approved_scope'', a_approved_scope a),
         (''approved_scope_sha256'', scope_hash sha (a_approved_scope a)),
         (''created_at'', JStr now), (''rounds'', JArr []),
         (''attempt_state'', JObj []), (''pending_results'', JObj [])])"

definition council_id_of :: "jobj \<Rightarrow> string" where
  "council_id_of c = py_str (jget c ''council_id'')"

definition persist_council :: "disk \<Rightarrow> jobj \<Rightarrow> unit cm" where
  "persist_council d c = atomic_write_json d (CouncilDoc (council_id_of c)) c"

definition create_council ::
    "disk \<Rightarrow> (string \<Rightarrow> string) \<Rightarrow> string \<Rightarrow> council_args \<Rightarrow> jobj cm" where
  "create_council d sha now a =
     (case new_council sha now a of
        Inl e \<Rightarrow> craise e
      | Inr c \<Rightarrow> cbind (atomic_write_json d (CouncilDoc (a_council_id a)) c) (\<lambda>_. creturn c))"

section \<open>Rounds\<close>

definition load_council :: "cstore \<Rightarrow> string \<Rightarrow> jobj option" where
  "load_council s cid = docs s (CouncilDoc cid)"

text \<open>The index of rounds; the engine writes only integers to it.\<close>

fun int_of :: "json \<Rightarrow> int" where
  "int_of (JInt i) = i"
| "int_of _ = 0"

definition round_numbers :: "jobj \<Rightarrow> int list" where
  "round_numbers c = map int_of (arr_of (jget c ''rounds''))"

definition load_rounds :: "cstore \<Rightarrow> string \<Rightarrow> jobj list" where
  "load_rounds s cid =
     (case load_council s cid of
        None \<Rightarrow> []
      | Some c \<Rightarrow> if c = [] then [] else
          filter (\<lambda>rd. rd \<noteq> [])
            (concat (map (\<lambda>n. case docs s (RoundDoc cid n) of None \<Rightarrow> [] | Some rd \<Rightarrow> [rd])
              (round_numbers c))))"

text \<open>The round file is written first, then the index that names it.\<close>

definition save_round :: "disk \<Rightarrow> jobj \<Rightarrow> jobj \<Rightarrow> jobj cm" where
  "save_round d c rd =
     (let cid = council_id_of c; n = int_of (jget rd ''round'') in
      cbind (atomic_write_json d (RoundDoc cid n) rd) (\<lambda>_.
        if n \<in> set (round_numbers c) then creturn c
        else let c' = jput ''rounds'' (JArr (map JInt (sort (round_numbers c @ [n])))) c in
          cbind (persist_council d c') (\<lambda>_. creturn c')))"

definition save_outcome :: "disk \<Rightarrow> string \<Rightarrow> jobj \<Rightarrow> unit cm" where
  "save_outcome d cid oc = atomic_write_json d (OutcomeDoc cid) oc"

section \<open>Reconciliation and other updates\<close>

text \<open>
  \<open>attach_reconciliation\<close>. \<open>residue\<close> is the egress guard's scan of the normalised text, and in the
  internal-technical lane \<open>register\<close> is the artifact register, which names the stored artifact or
  refuses. The message posted to the conversation afterwards is not part of the store.
\<close>

definition with_its_reconciliation :: "string \<Rightarrow> jobj \<Rightarrow> jobj" where
  "with_its_reconciliation aid rd =
     (let its = obj_of (jget rd ''its''); fids = obj_of (jget its ''artifact_ids'') in
      jput ''its'' (JObj (jput ''artifact_ids'' (JObj (jput ''reconciliation'' (JStr aid) fids)) its)) rd)"

definition attach_reconciliation ::
    "disk \<Rightarrow> (jobj \<Rightarrow> bool) \<Rightarrow> (jobj \<Rightarrow> string option) \<Rightarrow> jobj \<Rightarrow> json \<Rightarrow> jobj cm" where
  "attach_reconciliation d residue register c recon s =
     (let rounds = filter is_substantive (load_rounds s (council_id_of c)) in
      if rounds = [] then craise NoRoundToReconcile s
      else case validate_reconciliation recon of
        Inl e \<Rightarrow> craise (VerdictProblem e) s
      | Inr norm \<Rightarrow>
          (let latest = jput ''reconciliation'' (JObj norm) (last rounds) in
           if jget c ''dispatch_lane'' = JStr ''internal_technical'' then
             (case register norm of
                None \<Rightarrow> craise ResidueFound s
              | Some aid \<Rightarrow>
                  (let latest' = with_its_reconciliation aid latest in
                   cbind (save_round d c latest') (\<lambda>_. creturn latest') s))
           else if residue norm then craise ResidueFound s
           else cbind (save_round d c latest) (\<lambda>_. creturn latest) s))"

definition set_approved_scope :: "disk \<Rightarrow> (string \<Rightarrow> string) \<Rightarrow> jobj \<Rightarrow> json \<Rightarrow> jobj cm" where
  "set_approved_scope d sha c scope s =
     (if truthy scope \<and> \<not> blank (py_str scope) then
        (case py_strip (py_or (jget c ''approved_scope'') (JStr [])) of
           Inl e \<Rightarrow> craise (Raised e) s
         | Inr old \<Rightarrow>
             if old \<noteq> [] then creturn c s
             else let c' = jput ''approved_scope_sha256'' (scope_hash sha scope)
                        (jput ''approved_scope'' (JStr (py_str scope)) c) in
               cbind (persist_council d c') (\<lambda>_. creturn c') s)
      else creturn c s)"

definition stamp_context :: "disk \<Rightarrow> jobj \<Rightarrow> string \<Rightarrow> jobj cm" where
  "stamp_context d c digest =
     (let c' = jput ''lineage_context_sha256'' (JStr digest) c in
      cbind (persist_council d c') (\<lambda>_. creturn c'))"

definition set_lineage :: "disk \<Rightarrow> jobj \<Rightarrow> json \<Rightarrow> json \<Rightarrow> json \<Rightarrow> jobj cm" where
  "set_lineage d c lineage candidate bindings =
     (let c' = jput ''source_bindings'' bindings (jput ''lineage_candidate'' candidate
                 (jput ''lineage'' lineage c)) in
      cbind (persist_council d c') (\<lambda>_. creturn c'))"

section \<open>The attempt budget and retry grants\<close>

definition MAX_ATTEMPTS_PER_ROUND :: int where "MAX_ATTEMPTS_PER_ROUND = 2"

definition attempt_key :: "int \<Rightarrow> string \<Rightarrow> string" where
  "attempt_key n who = ''r'' @ str_int n @ '':'' @ who"

definition fresh_attempts :: jobj where
  "fresh_attempts = [(''calls'', JInt 0), (''grants'', JArr [])]"

text \<open>\<open>attempt_state.setdefault(key, ...)\<close> and writing it back.\<close>

definition attempts_of :: "jobj \<Rightarrow> string \<Rightarrow> jobj" where
  "attempts_of c key = obj_of (get_or (obj_of (jget c ''attempt_state'')) key (JObj fresh_attempts))"

definition put_attempts :: "string \<Rightarrow> jobj \<Rightarrow> jobj \<Rightarrow> jobj" where
  "put_attempts key st c =
     jput ''attempt_state'' (JObj (jput key (JObj st) (obj_of (jget c ''attempt_state'')))) c"

definition calls_of :: "jobj \<Rightarrow> int" where
  "calls_of st = int_of (jget st ''calls'')"

definition granted_extra :: "jobj \<Rightarrow> int" where
  "granted_extra st =
     sum_list (map (\<lambda>g. int_of (jget (obj_of g) ''extra_attempts'')) (arr_of (jget st ''grants'')))"

definition next_round :: "jobj \<Rightarrow> int" where
  "next_round c = int (length (arr_of (jget c ''rounds''))) + 1"

text \<open>Regular expressions with word boundaries.\<close>

definition is_word :: "char \<Rightarrow> bool" where
  "is_word ch = (let n = of_char ch :: nat in
     (48 \<le> n \<and> n \<le> 57) \<or> (65 \<le> n \<and> n \<le> 90) \<or> n = 95 \<or> (97 \<le> n \<and> n \<le> 122) \<or>
     n \<in> {170, 178, 179, 181, 185, 186, 188, 189, 190} \<or> (192 \<le> n \<and> n \<noteq> 215 \<and> n \<noteq> 247))"

fun find_word :: "bool \<Rightarrow> bool \<Rightarrow> string \<Rightarrow> string \<Rightarrow> bool" where
  "find_word ends before w [] = False"
| "find_word ends before w (c # cs) =
     ((before \<noteq> is_word c \<and> has_prefix w (c # cs) \<and>
         (ends \<longrightarrow> (case drop (length w) (c # cs) of [] \<Rightarrow> True | x # _ \<Rightarrow> \<not> is_word x))) \<or>
      find_word ends (is_word c) w cs)"

definition names_reviewer :: "string \<Rightarrow> string \<Rightarrow> bool" where
  "names_reviewer who text = find_word True False who text"

definition mentions_retry :: "string \<Rightarrow> bool" where
  "mentions_retry text = (find_word False False ''attempt'' text \<or>
     find_word False False ''retry'' text \<or> find_word True False ''retries'' text)"

datatype grant_result =
    Granted int
  | UnknownReviewerName | BadCount | MessageMissing | NotOperatorRecord | OtherCouncil
  | OtherReviewer | NoRetryMention | NotExhausted | PredatesExhaustion

text \<open>Fields of a stored message are strings or null.\<close>

definition text_of :: "json \<Rightarrow> string" where
  "text_of j = (case j of JStr s \<Rightarrow> s | _ \<Rightarrow> [])"

definition grant_record :: "jobj \<Rightarrow> string \<Rightarrow> json \<Rightarrow> int \<Rightarrow> int \<Rightarrow> json" where
  "grant_record m now mid extra calls =
     JObj [(''operator_message_id'', mid), (''at'', JStr now), (''extra_attempts'', JInt extra),
       (''calls_at_grant'', JInt calls),
       (''authority_excerpt'', JStr (take 200 (text_of (jget m ''message''))))]"

definition grant_attempts ::
    "disk \<Rightarrow> string \<Rightarrow> jobj list \<Rightarrow> jobj \<Rightarrow> string \<Rightarrow> json \<Rightarrow> json \<Rightarrow> grant_result cm" where
  "grant_attempts d now messages c who mid extra0 s =
     (if who \<noteq> ''gpt'' \<and> who \<noteq> ''codex'' then creturn UnknownReviewerName s
      else case py_int extra0 of
        None \<Rightarrow> creturn BadCount s
      | Some extra \<Rightarrow>
        if \<not> (1 \<le> extra \<and> extra \<le> MAX_ATTEMPTS_PER_ROUND) then creturn BadCount s
        else case filter (\<lambda>m. jget m ''message_id'' = mid) messages of
          [] \<Rightarrow> creturn MessageMissing s
        | m # _ \<Rightarrow>
            (let body = lower (text_of (jget m ''message''));
                 n = next_round c; key = attempt_key n who; st = attempts_of c key in
             if jget m ''direction'' \<noteq> JStr ''inbound'' \<or> lower (text_of (jget m ''role'')) \<noteq> ''operator''
               then creturn NotOperatorRecord s
             else if \<not> contains (lower (council_id_of c)) body then creturn OtherCouncil s
             else if \<not> names_reviewer who body then creturn OtherReviewer s
             else if \<not> mentions_retry body then creturn NoRetryMention s
             else if calls_of st + granted_extra st < MAX_ATTEMPTS_PER_ROUND
               then creturn NotExhausted s
             else if truthy (jget st ''last_call_at'') \<and>
                text_of (jget m ''at'') \<le> text_of (jget st ''last_call_at'')
               then creturn PredatesExhaustion s
             else
               (let st' = jput ''grants'' (JArr (arr_of (jget st ''grants'') @
                        [grant_record m now mid extra (calls_of st)])) st;
                    c' = put_attempts key st' c in
                cbind (persist_council d c') (\<lambda>_. creturn (Granted n)) s)))"

section \<open>Facts about the store\<close>

lemma replace_loop_effect:
  "replace_loop d ds p j s = (r, s') \<Longrightarrow> sent s' = sent s \<and>
     ((r = Inr () \<and> docs s' = (docs s)(p \<mapsto> j)) \<or> (isl r \<and> docs s' = docs s))"
  by (induction d ds p j s rule: replace_loop.induct)
    (auto simp: ctick_def split: rename_result.splits)

text \<open>A write replaces the whole document or changes nothing.\<close>

lemma atomic_write_effect:
  "atomic_write_json d p j s = (r, s') \<Longrightarrow> sent s' = sent s \<and>
     ((r = Inr () \<and> docs s' = (docs s)(p \<mapsto> j)) \<or> (isl r \<and> docs s' = docs s))"
  by (auto simp: atomic_write_json_def ctick_def split: if_splits dest: replace_loop_effect)

lemma persist_effect:
  "persist_council d c s = (r, s') \<Longrightarrow> sent s' = sent s \<and>
     ((r = Inr () \<and> docs s' = (docs s)(CouncilDoc (council_id_of c) \<mapsto> c)) \<or>
      (isl r \<and> docs s' = docs s))"
  unfolding persist_council_def by (rule atomic_write_effect)

lemma cbind_Inr_iff:
  "cbind m f s = (Inr y, s') \<longleftrightarrow> (\<exists>x s1. m s = (Inr x, s1) \<and> f x s1 = (Inr y, s'))"
  by (auto simp: cbind_def split: prod.splits sum.splits)

lemma cbind_cases:
  assumes "cbind m f s = (r, s')"
  obtains (fails) e where "m s = (Inl e, s')" "r = Inl e"
    | (goes_on) x s1 where "m s = (Inr x, s1)" "f x s1 = (r, s')"
  using assms by (cases "m s"; cases "fst (m s)") (auto simp: cbind_def)

lemma creturn_iff [simp]: "creturn x s = (r, s') \<longleftrightarrow> r = Inr x \<and> s' = s"
  by (auto simp: creturn_def)

lemma craise_iff [simp]: "craise e s = (r, s') \<longleftrightarrow> r = Inl e \<and> s' = s"
  by (auto simp: craise_def)

text \<open>Writing one document and returning a value.\<close>

lemma write_return_effect:
  "cbind (atomic_write_json d p j) (\<lambda>_. creturn x) s = (r, s') \<Longrightarrow> sent s' = sent s \<and>
     ((r = Inr x \<and> docs s' = (docs s)(p \<mapsto> j)) \<or> (isl r \<and> docs s' = docs s))"
  by (erule cbind_cases) (auto dest: atomic_write_effect)

lemma persist_return_effect:
  "cbind (persist_council d c) (\<lambda>_. creturn x) s = (r, s') \<Longrightarrow> sent s' = sent s \<and>
     ((r = Inr x \<and> docs s' = (docs s)(CouncilDoc (council_id_of c) \<mapsto> c)) \<or>
      (isl r \<and> docs s' = docs s))"
  unfolding persist_council_def by (rule write_return_effect)

lemma save_round_effect:
  assumes "save_round d c rd s = (r, s')"
  defines "cid \<equiv> council_id_of c" and "n \<equiv> int_of (jget rd ''round'')"
  defines "c' \<equiv> (if n \<in> set (round_numbers c) then c
     else jput ''rounds'' (JArr (map JInt (sort (round_numbers c @ [n])))) c)"
  shows "sent s' = sent s \<and>
    ((isl r \<and> docs s' = docs s) \<or>
     (isl r \<and> docs s' = (docs s)(RoundDoc cid n \<mapsto> rd)) \<or>
     (r = Inr c' \<and> n \<in> set (round_numbers c) \<and> docs s' = (docs s)(RoundDoc cid n \<mapsto> rd)) \<or>
     (r = Inr c' \<and> n \<notin> set (round_numbers c) \<and>
        docs s' = (docs s)(RoundDoc cid n \<mapsto> rd, CouncilDoc cid \<mapsto> c')))"
proof -
  have "council_id_of c' = cid"
    by (simp add: c'_def cid_def council_id_of_def)
  with assms(1) show ?thesis
    unfolding save_round_def Let_def cid_def [symmetric] n_def [symmetric]
    by (elim cbind_cases)
      (auto simp: c'_def dest!: atomic_write_effect persist_return_effect split: if_splits)
qed

lemma round_numbers_jput [simp]:
  "k \<noteq> ''rounds'' \<Longrightarrow> round_numbers (jput k v c) = round_numbers c"
  "round_numbers (jput ''rounds'' (JArr (map JInt ns)) c) = ns"
  by (simp_all add: round_numbers_def comp_def)

lemma council_id_of_jput [simp]: "k \<noteq> ''council_id'' \<Longrightarrow> council_id_of (jput k v c) = council_id_of c"
  by (simp add: council_id_of_def)

lemma next_round_numbers: "next_round c = int (length (round_numbers c)) + 1"
  by (simp add: next_round_def round_numbers_def)

lemma attempts_of_put [simp]:
  "attempts_of (put_attempts key st c) key' = (if key = key' then st else attempts_of c key')"
  by (simp add: attempts_of_def put_attempts_def)

lemma put_attempts_fields [simp]:
  "k \<noteq> ''attempt_state'' \<Longrightarrow> jget (put_attempts key st c) k = jget c k"
  by (simp add: put_attempts_def)

lemma council_id_of_put_attempts [simp]: "council_id_of (put_attempts key st c) = council_id_of c"
  by (simp add: council_id_of_def)

lemma round_numbers_put_attempts [simp]: "round_numbers (put_attempts key st c) = round_numbers c"
  by (simp add: round_numbers_def)

text \<open>The two keys of a round differ, and so do those of different rounds.\<close>

lemma str_int_inj: "str_int i = str_int j \<longleftrightarrow> i = j"
proof -
  have minus: "hd (nat_digits n) \<noteq> CHR ''-''" for n
  proof
    assume h: "hd (nat_digits n) = CHR ''-''"
    have "hd (nat_digits n) \<in> set (nat_digits n)" by simp
    then obtain k where "k < 10" "CHR ''-'' = digit_char k"
      using nat_digits_are_digits h by metis
    then have "(of_char (CHR ''-'') :: nat) = 48 + k" by (simp add: digit_char_def)
    then show False by simp
  qed
  have mixed: "nat_digits n \<noteq> CHR ''-'' # ds" for n ds
    using minus [of n] by (cases "nat_digits n") auto
  show ?thesis
  proof (cases "i < 0 \<longleftrightarrow> j < 0")
    case True
    then show ?thesis
      using nat_digits_inj [of "nat (- i)" "nat (- j)"] nat_digits_inj [of "nat i" "nat j"]
      by (cases "i < 0") (auto simp: str_int_def)
  next
    case False
    then show ?thesis
      using mixed mixed [THEN not_sym] by (cases "i < 0") (auto simp: str_int_def)
  qed
qed

lemma str_int_no_colon: "CHR '':'' \<notin> set (str_int i)"
proof
  assume "CHR '':'' \<in> set (str_int i)"
  then obtain n where "CHR '':'' \<in> set (nat_digits n)"
    by (auto simp: str_int_def split: if_splits)
  then obtain k where "k < 10" "CHR '':'' = digit_char k"
    using nat_digits_are_digits by blast
  then have "(of_char (CHR '':'') :: nat) = 48 + k" by (simp add: digit_char_def)
  with \<open>k < 10\<close> show False by simp
qed

lemma attempt_key_inj [simp]: "attempt_key n who = attempt_key m who' \<longleftrightarrow> n = m \<and> who = who'"
proof
  assume "attempt_key n who = attempt_key m who'"
  then have eq: "str_int n @ CHR '':'' # who = str_int m @ CHR '':'' # who'"
    by (simp add: attempt_key_def)
  moreover have t: "takeWhile (\<lambda>c. c \<noteq> CHR '':'') (str_int k @ CHR '':'' # w) = str_int k" for k w
    by (rule takeWhile_tail [THEN trans]) (auto simp: str_int_no_colon intro: takeWhile_eq_all_conv [THEN iffD2])
  ultimately have "str_int n = str_int m" by metis
  with eq have "str_int n = str_int m \<and> who = who'" by simp
  then show "n = m \<and> who = who'" by (simp add: str_int_inj)
qed simp

end
