(* ===== verification/Dispatch_Preflight.thy ===== *)
theory Dispatch_Preflight
  imports Py_Access
begin

text \<open>
  Pre-allocation eligibility of a dispatch and the normalised classes of reviewer failures
  (\<open>tools/clearwright_dispatch_preflight.py\<close>).
\<close>

section \<open>Failure classes\<close>

definition NORMALIZED_FAILURE_CLASSES :: "string list" where
  "NORMALIZED_FAILURE_CLASSES = [''policy_denial'', ''repo_not_approved'', ''provenance_unresolved'',
     ''sensitive_content_prohibited'', ''tripwire_refusal'', ''composition_or_hash_mismatch'',
     ''provider_unavailable'', ''auth_failure'', ''rate_limit'', ''timeout'', ''malformed_response'',
     ''adapter_failure'', ''classifier_unresolved'', ''unknown'']"

datatype keyword_rule = HasAll "string list" | HasAny "string list"

fun rule_matches :: "keyword_rule \<Rightarrow> string \<Rightarrow> bool" where
  "rule_matches (HasAll ks) t = list_all (\<lambda>k. contains k t) ks"
| "rule_matches (HasAny ks) t = list_ex (\<lambda>k. contains k t) ks"

definition RULES :: "(keyword_rule \<times> string) list" where
  "RULES = [
     (HasAny [''tripwire'', ''confusable''], ''tripwire_refusal''),
     (HasAny [''composition'', ''hash mismatch'', ''byte mismatch'', ''sha mismatch''],
        ''composition_or_hash_mismatch''),
     (HasAll [''repo'', ''not approved''], ''repo_not_approved''),
     (HasAny [''repo_unresolvable'', ''unresolvable'', ''provenance'', ''not git-tracked'',
        ''outside repo'', ''outside the repo''], ''provenance_unresolved''),
     (HasAny [''sensitive content'', ''sensitive_content'', ''prohibited'', ''embargo''],
        ''sensitive_content_prohibited''),
     (HasAll [''policy'', ''den''], ''policy_denial''),
     (HasAny [''rate limit'', ''rate_limit'', ''429'', ''too many requests''], ''rate_limit''),
     (HasAny [''timeout'', ''timed out'', ''deadline exceeded''], ''timeout''),
     (HasAny [''auth'', ''unauthorized'', ''401'', ''403'', ''api key'', ''credential'',
        ''permission denied''], ''auth_failure''),
     (HasAny [''malformed'', ''invalid json'', ''parse'', ''no_verdict'', ''invalid_verdict'',
        ''unvalidated'', ''source_mismatch'', ''schema''], ''malformed_response''),
     (HasAny [''connection'', ''network'', ''unavailable'', ''provider'', ''503'', ''502'',
        ''500'', ''cannot reach'', ''refused''], ''provider_unavailable''),
     (HasAny [''egress''], ''policy_denial''),
     (HasAny [''adapter''], ''adapter_failure'')]"

text \<open>The signal text is built from the safe fields only; a result that is not an object adds
  nothing.\<close>

definition SAFE_FIELDS :: "string list" where
  "SAFE_FIELDS = [''error'', ''classification'', ''reason'', ''error_class'', ''code'']"

definition safe_signal_text :: "json \<Rightarrow> json \<Rightarrow> string" where
  "safe_signal_text result status =
     lower (join '' '' ((if truthy status then [py_str status] else []) @
       (case result of
          JObj ob \<Rightarrow> map py_str (filter (\<lambda>v. v \<noteq> JNull) (map (jget ob) SAFE_FIELDS))
        | _ \<Rightarrow> [])))"

fun first_class :: "(keyword_rule \<times> string) list \<Rightarrow> string \<Rightarrow> string" where
  "first_class [] t = ''unknown''"
| "first_class ((r, cls) # rs) t = (if rule_matches r t then cls else first_class rs t)"

definition classify_reviewer_failure :: "json \<Rightarrow> json \<Rightarrow> string" where
  "classify_reviewer_failure result status =
     (if result = JNull \<and> status \<in> {JNull, JStr ''missing'', JStr ''unavailable''}
      then ''provider_unavailable''
      else let t = safe_signal_text result status in
        if t = [] then ''unknown'' else first_class RULES t)"

section \<open>Eligibility\<close>

definition ELIGIBILITY_CHECKS :: "(string \<times> bool \<times> string) list" where
  "ELIGIBILITY_CHECKS = [
     (''lane_authorized'', True, ''policy_denial''),
     (''classification_conflict'', False, ''policy_denial''),
     (''repo_approved'', True, ''repo_not_approved''),
     (''provenance_resolved'', True, ''provenance_unresolved''),
     (''sensitive_prohibited'', False, ''sensitive_content_prohibited''),
     (''composition_bound'', True, ''composition_or_hash_mismatch''),
     (''exact_bytes_ok'', True, ''composition_or_hash_mismatch''),
     (''classifier_resolved'', True, ''classifier_unresolved''),
     (''tripwire_clear'', True, ''tripwire_refusal''),
     (''provider_ready'', True, ''provider_unavailable''),
     (''auth_ok'', True, ''auth_failure'')]"

fun first_failed :: "(string \<times> bool \<times> string) list \<Rightarrow> jobj \<Rightarrow> string option" where
  "first_failed [] sigs = None"
| "first_failed ((key, expected, why) # more) sigs =
     (if jhas sigs key \<and> truthy (jget sigs key) \<noteq> expected then Some why
      else first_failed more sigs)"

text \<open>\<open>None\<close> when eligible, otherwise the normalised reason.\<close>

definition dispatch_eligibility :: "jobj \<Rightarrow> string option" where
  "dispatch_eligibility sigs = first_failed ELIGIBILITY_CHECKS sigs"

section \<open>Signals from production facts\<close>

definition exact_bool :: "json \<Rightarrow> bool" where
  "exact_bool j = (case j of JBool _ \<Rightarrow> True | _ \<Rightarrow> False)"

text \<open>\<open>type(n) is int\<close> and \<open>n >= 0\<close>: a boolean does not count.\<close>

definition exact_count :: "json \<Rightarrow> bool" where
  "exact_count j = (case j of JInt i \<Rightarrow> 0 \<le> i | _ \<Rightarrow> False)"

definition production_signals ::
    "json \<Rightarrow> json \<Rightarrow> json \<Rightarrow> json \<Rightarrow> json \<Rightarrow> json \<Rightarrow> json \<Rightarrow> jobj" where
  "production_signals lane profile artifact_count lineage_bound raw_standard tripwire classifier =
     (if \<not> (list_all exact_bool [lineage_bound, raw_standard, tripwire, classifier] \<and>
             exact_count artifact_count)
      then [(''classifier_resolved'', JBool False), (''tripwire_clear'', JBool False)]
      else [(''tripwire_clear'', tripwire), (''classifier_resolved'', classifier)] @
        (if lane = JStr ''internal_technical'' then
           [(''lane_authorized'', JBool (artifact_count = JInt 0 \<and> profile = JStr ''code'')),
            (''composition_bound'', lineage_bound), (''provenance_resolved'', raw_standard)]
         else []))"

definition refused_dispatch_record :: "json \<Rightarrow> json \<Rightarrow> string \<Rightarrow> string \<Rightarrow> jobj" where
  "refused_dispatch_record phase lane why detail =
     [(''command'', JStr ''dispatch-refused-preallocation''), (''phase'', phase),
      (''dispatch_lane'', lane), (''council_id'', JNull), (''attempt'', JInt 0),
      (''normalized_reason'', JStr why), (''detail'', JStr (take 200 detail))]"

section \<open>Properties\<close>

lemma first_class_cases: "first_class rs t \<in> insert ''unknown'' (snd ` set rs)"
  by (induction rs t rule: first_class.induct) auto

lemma rules_normalized: "list_all (\<lambda>r. snd r \<in> set NORMALIZED_FAILURE_CLASSES) RULES"
  by code_simp

lemma unknown_normalized:
  "''unknown'' \<in> set NORMALIZED_FAILURE_CLASSES" "''provider_unavailable'' \<in> set NORMALIZED_FAILURE_CLASSES"
  by (code_simp, code_simp)

text \<open>Only the safe fields of a result reach the classifier: a raw body cannot influence it.\<close>

lemma safe_signal_text_cong:
  "\<forall>k \<in> set SAFE_FIELDS. jget a k = jget b k \<Longrightarrow>
     safe_signal_text (JObj a) st = safe_signal_text (JObj b) st"
proof -
  assume "\<forall>k \<in> set SAFE_FIELDS. jget a k = jget b k"
  then have "map (jget a) SAFE_FIELDS = map (jget b) SAFE_FIELDS" by simp
  then show ?thesis by (simp only: safe_signal_text_def json.case)
qed

lemma first_failed_Some:
  "first_failed checks sigs = Some why \<Longrightarrow>
     \<exists>key expected. (key, expected, why) \<in> set checks \<and> jhas sigs key \<and>
       truthy (jget sigs key) \<noteq> expected"
  by (induction checks sigs rule: first_failed.induct) (auto split: if_splits)

lemma checks_normalized: "list_all (\<lambda>(_, _, why). why \<in> set NORMALIZED_FAILURE_CLASSES) ELIGIBILITY_CHECKS"
  by code_simp

text \<open>Every failed attempt and every refused dispatch is recorded under one of the normalised
  classes, and the class of a failure depends on the result's safe fields alone, never on what a
  reviewer or provider wrote elsewhere in it.\<close>

lemma failure_classes_normalized:
  "classify_reviewer_failure r st \<in> set NORMALIZED_FAILURE_CLASSES \<and>
   dispatch_eligibility sigs \<in> insert None (Some ` set NORMALIZED_FAILURE_CLASSES) \<and>
   classify_reviewer_failure (JObj (filter (\<lambda>kv. fst kv \<in> set SAFE_FIELDS) ob)) st =
     classify_reviewer_failure (JObj ob) st"
proof (intro conjI)
  have c: "first_class RULES t \<in> set NORMALIZED_FAILURE_CLASSES" for t
    using first_class_cases [of RULES t] rules_normalized unknown_normalized
    by (auto simp: list_all_iff)
  then show "classify_reviewer_failure r st \<in> set NORMALIZED_FAILURE_CLASSES"
    using unknown_normalized by (simp add: classify_reviewer_failure_def Let_def)
  show "dispatch_eligibility sigs \<in> insert None (Some ` set NORMALIZED_FAILURE_CLASSES)"
    using checks_normalized
    by (cases "dispatch_eligibility sigs")
      (auto simp: dispatch_eligibility_def list_all_iff dest!: first_failed_Some)
  have "jget (filter (\<lambda>kv. fst kv \<in> set SAFE_FIELDS) ob) k = jget ob k" if "k \<in> set SAFE_FIELDS" for k
    using that by (induction ob) (auto simp: jget_def)
  then have "safe_signal_text (JObj (filter (\<lambda>kv. fst kv \<in> set SAFE_FIELDS) ob)) st =
      safe_signal_text (JObj ob) st"
    by (intro safe_signal_text_cong) simp
  then show "classify_reviewer_failure (JObj (filter (\<lambda>kv. fst kv \<in> set SAFE_FIELDS) ob)) st =
     classify_reviewer_failure (JObj ob) st"
    by (simp add: classify_reviewer_failure_def)
qed

text \<open>The facts that let a dispatch through, by lane.\<close>

definition facts_clear :: "json \<Rightarrow> json \<Rightarrow> json \<Rightarrow> json \<Rightarrow> json \<Rightarrow> json \<Rightarrow> json \<Rightarrow> bool" where
  "facts_clear lane profile n lineage raw tripwire classifier \<longleftrightarrow>
     tripwire = JBool True \<and> classifier = JBool True \<and> exact_bool lineage \<and> exact_bool raw \<and>
     exact_count n \<and>
     (lane = JStr ''internal_technical'' \<longrightarrow>
        n = JInt 0 \<and> profile = JStr ''code'' \<and> lineage = JBool True \<and> raw = JBool True)"

text \<open>the pre-allocation check passes exactly when the scan is clear, the classifier's verdict is
  known, every fact has its exact type and, on the internal-technical lane only, there are no
  artifacts, the profile is code and lineage and provenance are bound. No truthy stand-in passes.\<close>

theorem preallocation_exact:
  "dispatch_eligibility (production_signals lane profile n lineage raw tripwire classifier) = None
     \<longleftrightarrow> facts_clear lane profile n lineage raw tripwire classifier"
proof (cases "list_all exact_bool [lineage, raw, tripwire, classifier] \<and> exact_count n")
  case False
  then show ?thesis
    by (auto simp: production_signals_def dispatch_eligibility_def ELIGIBILITY_CHECKS_def
        jhas_def jget_Cons facts_clear_def exact_bool_def)
next
  case True
  then obtain a b c e where "lineage = JBool a" "raw = JBool b" "tripwire = JBool c"
      "classifier = JBool e"
    by (auto simp: exact_bool_def split: json.splits)
  with True show ?thesis
    by (cases "lane = JStr ''internal_technical''"; cases a; cases b; cases c; cases e)
      (simp_all add: production_signals_def dispatch_eligibility_def ELIGIBILITY_CHECKS_def
        jhas_def jget_Cons facts_clear_def exact_bool_def)
qed

end
