(* ===== verification/Review_Rounds.thy ===== *)
theory Review_Rounds
  imports Council_Store Dispatch_Preflight
begin

text \<open>
  One review round (\<open>run_round\<close> of \<open>tools/clearwright_review_council.py\<close>): eligibility, the secret
  scan, packaging under the input budget, the dispatch loop under the persistent attempt budget,
  and the commit. The record \<open>review_env\<close> holds what is outside this file: the adapters' replies,
  the egress guard's residue scan, the artifact store, the internal-technical packet assembly, the
  prompt text, hashes and timestamps.
\<close>

section \<open>The secret scan\<close>

datatype pat = Lit string | One "char \<Rightarrow> bool" | AtLeast nat "char \<Rightarrow> bool"

text \<open>Matching a pattern at the start of a text; a repetition tries every length.\<close>

fun pmatch :: "pat list \<Rightarrow> string \<Rightarrow> bool" where
  "pmatch [] s = True"
| "pmatch (Lit l # ps) s = (has_prefix l s \<and> pmatch ps (drop (length l) s))"
| "pmatch (One P # ps) s = (case s of [] \<Rightarrow> False | c # cs \<Rightarrow> P c \<and> pmatch ps cs)"
| "pmatch (AtLeast n P # ps) s =
     list_ex (\<lambda>k. n \<le> k \<and> list_all P (take k s) \<and> pmatch ps (drop k s)) [0..<Suc (length s)]"

fun psearch :: "pat list \<Rightarrow> string \<Rightarrow> bool" where
  "psearch ps [] = pmatch ps []"
| "psearch ps (c # cs) = (pmatch ps (c # cs) \<or> psearch ps cs)"

definition alnum :: "char \<Rightarrow> bool" where
  "alnum ch = (let n = of_char ch :: nat in
     (48 \<le> n \<and> n \<le> 57) \<or> (65 \<le> n \<and> n \<le> 90) \<or> (97 \<le> n \<and> n \<le> 122))"

definition upper_or_digit :: "char \<Rightarrow> bool" where
  "upper_or_digit ch = (let n = of_char ch :: nat in (48 \<le> n \<and> n \<le> 57) \<or> (65 \<le> n \<and> n \<le> 90))"

definition SECRET_PATTERNS :: "(string \<times> pat list) list" where
  "SECRET_PATTERNS = [
     (''openai_key'', [Lit ''sk-'', AtLeast 16 (\<lambda>c. alnum c \<or> c \<in> {CHR ''_'', CHR ''-''})]),
     (''aws_access_key'', [Lit ''AKIA'', AtLeast 12 upper_or_digit]),
     (''bearer_header'', [One (\<lambda>c. c \<in> {CHR ''A'', CHR ''a''}), Lit ''uthorization'',
        AtLeast 0 is_ws, Lit '':'', AtLeast 0 is_ws, Lit ''Bearer'', AtLeast 1 is_ws,
        AtLeast 1 (\<lambda>c. \<not> is_ws c)]),
     (''private_key_block'', [Lit ''-----BEGIN '',
        AtLeast 0 (\<lambda>c. c = CHR '' '' \<or> (upper_or_digit c \<and> \<not> is_digit c)),
        Lit ''PRIVATE KEY-----'']),
     (''slack_token'', [Lit ''xox'', One (\<lambda>c. c \<in> set ''baprs''), Lit ''-'',
        AtLeast 8 (\<lambda>c. alnum c \<or> c = CHR ''-'')]),
     (''github_token'', [Lit ''gh'', One (\<lambda>c. c \<in> set ''pousr''), Lit ''_'', AtLeast 20 alnum]),
     (''env_key_assignment'', [Lit ''OPENAI_API_KEY'', AtLeast 0 is_ws, Lit ''='',
        AtLeast 0 is_ws, AtLeast 1 (\<lambda>c. \<not> is_ws c)])]"

definition secret_scan :: "string \<Rightarrow> string list" where
  "secret_scan text = map fst (filter (\<lambda>p. psearch (snd p) text) SECRET_PATTERNS)"

section \<open>Budgets\<close>

definition PHASE_BUDGET_DEFAULTS :: "json \<Rightarrow> int" where
  "PHASE_BUDGET_DEFAULTS phase = (if phase = JStr ''verify'' then 96000 else 32000)"

text \<open>The override comes from the environment; text that is not a number is ignored.\<close>

definition phase_input_budget :: "(json \<Rightarrow> json) \<Rightarrow> json \<Rightarrow> int" where
  "phase_input_budget override phase =
     (let v = override phase in
      if truthy v then (case py_int v of Some i \<Rightarrow> i | None \<Rightarrow> PHASE_BUDGET_DEFAULTS phase)
      else PHASE_BUDGET_DEFAULTS phase)"

text \<open>\<open>ceil(n / 3.0)\<close>, the default divisor.\<close>

definition estimate_tokens :: "nat \<Rightarrow> int" where
  "estimate_tokens n = int ((n + 2) div 3)"

section \<open>The environment and the report\<close>

datatype refusal =
    Ineligible string
  | ItsBlocked string
  | ArtifactFailure
  | Undeliverable int int

record package =
  p_gpt :: string
  p_codex :: string
  p_artifact_ids :: "string list"
  p_artifact_hashes :: "string list"
  p_delivery :: string
  p_its :: json

record review_env =
  now_at :: "nat \<Rightarrow> string"
  sha_text :: "string \<Rightarrow> string"
  sha_json :: "json \<Rightarrow> string"
  adapter :: "nat \<Rightarrow> string \<Rightarrow> string \<Rightarrow> json"
  adapter_version :: "string \<Rightarrow> string"
  residue_hit :: "json \<Rightarrow> bool"
  register_finding :: "string \<Rightarrow> json \<Rightarrow> string option"
  build_context :: "jobj \<Rightarrow> jobj list \<Rightarrow> string \<Rightarrow> string"
  its_package :: "jobj \<Rightarrow> jobj list \<Rightarrow> string \<Rightarrow> refusal + package"
  artifact_sha :: "string \<Rightarrow> string option"
  inline_rendering :: "string \<Rightarrow> string"
  excerpt_pack :: "string \<Rightarrow> int \<Rightarrow> string \<Rightarrow> string"
  codex_reference :: "string list \<Rightarrow> string"
  capability_statement :: string
  instruction :: string
  budget_override :: "json \<Rightarrow> json"

datatype report =
    NotDispatched refusal
  | AuditRound int "(string \<times> string) list"
  | Committed int "(string \<times> string) list"
  | NotCommitted int "(string \<times> string) list" "string list"

section \<open>Packaging\<close>

definition its_lane :: "jobj \<Rightarrow> bool" where
  "its_lane c = (jget c ''dispatch_lane'' = JStr ''internal_technical'')"

definition all_artifacts :: "jobj \<Rightarrow> string list \<Rightarrow> string list" where
  "all_artifacts c ids =
     sort (remdups (map text_of (arr_of (jget c ''artifact_ids'')) @ filter (\<lambda>a. a \<noteq> []) ids))"

definition blank_line :: string where
  "blank_line = [newline, newline]"

definition gpt_packet :: "review_env \<Rightarrow> int \<Rightarrow> string \<Rightarrow> string list \<Rightarrow> string \<times> string" where
  "gpt_packet env budget ctx ids =
     (if ids = [] then (capability_statement env @ blank_line @ ctx, ''none'')
      else let base = capability_statement env @ blank_line @ ctx @ blank_line;
               cand = base @ join blank_line (map (inline_rendering env) ids) in
        if estimate_tokens (length (instruction env) + length cand) \<le> budget
        then (cand, ''inline_full'')
        else let remaining = max 4000 (budget * 3 - int (length (instruction env))
                    - int (length base) - 2000);
                 per = max 2000 (remaining div max 1 (int (length ids)))
             in (base @ join blank_line (map (excerpt_pack env ctx per) ids), ''excerpt_pack''))"

text \<open>The standard lane: every artifact is verified, then both packets are assembled and measured.\<close>

definition pack :: "review_env \<Rightarrow> json \<Rightarrow> string \<Rightarrow> string list \<Rightarrow> refusal + package" where
  "pack env phase ctx ids =
     (if list_ex (\<lambda>a. artifact_sha env a = None) ids then Inl ArtifactFailure
      else
        (let budget = phase_input_budget (budget_override env) phase;
             (body, delivery) = gpt_packet env budget ctx ids;
             codex = (if ids = [] then ctx else ctx @ blank_line @ codex_reference env ids);
             est = estimate_tokens (length (instruction env) + length body) in
         if budget < est then Inl (Undeliverable est budget)
         else Inr \<lparr> p_gpt = body, p_codex = codex, p_artifact_ids = ids,
                p_artifact_hashes = map (\<lambda>a. the (artifact_sha env a)) ids,
                p_delivery = delivery, p_its = JNull \<rparr>))"

text \<open>Artifacts are remembered on the council across rounds.\<close>

definition remember_artifacts :: "string list \<Rightarrow> jobj \<Rightarrow> jobj" where
  "remember_artifacts ids c = jput ''artifact_ids'' (JArr (map JStr ids)) c"

definition package_standard ::
    "review_env \<Rightarrow> disk \<Rightarrow> jobj \<Rightarrow> string \<Rightarrow> string list \<Rightarrow> (jobj \<times> (refusal + package)) cm" where
  "package_standard env d c ctx ids0 =
     (let ids = all_artifacts c ids0; pk = pack env (jget c ''phase'') ctx ids in
      if map JStr ids \<noteq> arr_of (jget c ''artifact_ids'') then
        (let c' = remember_artifacts ids c in
         cbind (persist_council d c') (\<lambda>_. creturn (c', pk)))
      else creturn (c, pk))"

section \<open>Dispatch\<close>

text \<open>\<open>_validated\<close>: a successful, posted, validated result that carries a verdict object.\<close>

definition validated :: "json \<Rightarrow> bool" where
  "validated r \<longleftrightarrow> (let ob = obj_of r in
     is_True (jget ob ''ok'') \<and> is_True (jget ob ''posted'') \<and> is_True (jget ob ''validated'') \<and>
     is_obj (jget ob ''verdict''))"

definition hard_gated :: "json \<Rightarrow> bool" where
  "hard_gated r = truthy (jget (obj_of r) ''hard_gate'')"

definition dispatch_fingerprint ::
    "review_env \<Rightarrow> string \<Rightarrow> string \<Rightarrow> json \<Rightarrow> json \<Rightarrow> string list \<Rightarrow> string" where
  "dispatch_fingerprint env who packet_sha model phase hashes =
     sha_json env (JObj [(''context_sha256'', JStr packet_sha),
       (''artifacts'', JArr (map JStr (sort hashes))), (''reviewer'', JStr who),
       (''requested_model'', model), (''adapter_version'', JStr (adapter_version env who)),
       (''phase'', phase),
       (''capability'', if who = ''gpt''
          then JObj [(''can_read_files'', JBool False), (''transport'', JStr ''https-inline'')]
          else JObj [(''can_read_files'', JBool True), (''transport'', JStr ''stdin-prompt'')])])"

definition pending_of :: "jobj \<Rightarrow> string \<Rightarrow> json" where
  "pending_of c key = jget (obj_of (jget c ''pending_results'')) key"

definition put_pending :: "string \<Rightarrow> string \<Rightarrow> json \<Rightarrow> string \<Rightarrow> jobj \<Rightarrow> jobj" where
  "put_pending key fp result now c =
     jput ''pending_results'' (JObj (jput key (JObj [(''fingerprint'', JStr fp),
       (''result'', result), (''at'', JStr now)]) (obj_of (jget c ''pending_results'')))) c"

definition attempt_limit :: "jobj \<Rightarrow> int" where
  "attempt_limit st = MAX_ATTEMPTS_PER_ROUND + granted_extra st"

text \<open>\<open>state["calls"] += 1\<close> with the time and fingerprint of the call.\<close>

definition count_call :: "string \<Rightarrow> string \<Rightarrow> jobj \<Rightarrow> jobj" where
  "count_call now fp st =
     jput ''last_fingerprint'' (JStr fp) (jput ''last_call_at'' (JStr now)
       (jput ''calls'' (JInt (calls_of st + 1)) st))"

definition note_failure :: "json \<Rightarrow> jobj \<Rightarrow> jobj" where
  "note_failure r st =
     (if \<not> validated r \<and> \<not> hard_gated r
      then jput ''normalized_reasons'' (JArr (arr_of (jget st ''normalized_reasons'') @
             [JStr (classify_reviewer_failure r JNull)])) st
      else st)"

definition send_packet :: "string \<Rightarrow> int \<Rightarrow> string \<Rightarrow> string \<Rightarrow> cstore \<Rightarrow> cstore" where
  "send_packet cid n who packet s = s\<lparr>sent := sent s @ [(cid, n, who, packet)]\<rparr>"

text \<open>
  What the residue gate says of a validated result: in the internal-technical lane the finding is
  registered, otherwise its verdict is scanned. \<open>None\<close> means the result must be discarded.
\<close>

definition residue_gate :: "review_env \<Rightarrow> bool \<Rightarrow> string \<Rightarrow> json \<Rightarrow> string option" where
  "residue_gate env its who r =
     (if its then register_finding env who r
      else if residue_hit env (jget (obj_of r) ''verdict'') then None else Some [])"

text \<open>The council with one more call counted for a key.\<close>

definition counted :: "string \<Rightarrow> string \<Rightarrow> string \<Rightarrow> jobj \<Rightarrow> jobj" where
  "counted key t fp c = put_attempts key (count_call t fp (attempts_of c key)) c"

definition noted :: "string \<Rightarrow> json \<Rightarrow> jobj \<Rightarrow> jobj" where
  "noted key r c = put_attempts key (note_failure r (attempts_of c key)) c"

text \<open>
  One attempt of one reviewer. The counter is stored before the packet is sent, so a crash in
  between spends the attempt. It returns the council, the reply (null when the residue gate
  discarded it) and, unless the loop goes on, whether it was discarded and the finding's artifact.
\<close>

definition one_attempt ::
    "review_env \<Rightarrow> disk \<Rightarrow> int \<Rightarrow> string \<Rightarrow> string \<Rightarrow> string \<Rightarrow> jobj \<Rightarrow>
       (jobj \<times> json \<times> (bool \<times> string) option) cm" where
  "one_attempt env d n who fp packet c s =
     (let key = attempt_key n who; c1 = counted key (now_at env (clock s)) fp c in
      case persist_council d c1 s of
        (Inl e, s1) \<Rightarrow> (Inl e, s1)
      | (Inr _, s1) \<Rightarrow>
          (let s2 = send_packet (council_id_of c) n who packet s1;
               r = adapter env (clock s2) who packet;
               c2 = noted key r c1 in
           if hard_gated r then (Inr (c2, r, Some (False, [])), s2)
           else if validated r then
             (case residue_gate env (its_lane c) who r of
                None \<Rightarrow> (Inr (c2, JNull, Some (True, [])), s2)
              | Some aid \<Rightarrow>
                  (let c3 = put_pending key fp r (now_at env (clock s2)) c2 in
                   cbind (persist_council d c3) (\<lambda>_. creturn (c3, r, Some (False, aid))) s2))
           else (Inr (c2, r, None), s2)))"

lemma calls_of_count [simp]: "calls_of (count_call now fp st) = calls_of st + 1"
  by (simp add: calls_of_def count_call_def)

lemma granted_extra_count [simp]: "granted_extra (count_call now fp st) = granted_extra st"
  by (simp add: granted_extra_def count_call_def)

lemma note_failure_keeps [simp]:
  "calls_of (note_failure r st) = calls_of st" "granted_extra (note_failure r st) = granted_extra st"
  by (simp_all add: note_failure_def calls_of_def granted_extra_def)

lemma attempt_limit_keeps [simp]:
  "attempt_limit (count_call now fp st) = attempt_limit st"
  "attempt_limit (note_failure r st) = attempt_limit st"
  by (simp_all add: attempt_limit_def)

lemma attempts_of_put_pending [simp]: "attempts_of (put_pending key fp r t c) key' = attempts_of c key'"
  by (simp add: attempts_of_def put_pending_def)

lemma one_attempt_counts:
  assumes "one_attempt env d n who fp packet c s = (Inr (c', r, fin), s')"
  shows "calls_of (attempts_of c' (attempt_key n who)) = calls_of (attempts_of c (attempt_key n who)) + 1 \<and>
    attempt_limit (attempts_of c' (attempt_key n who)) = attempt_limit (attempts_of c (attempt_key n who))"
proof -
  obtain r1 s1 where p: "persist_council d (counted (attempt_key n who) (now_at env (clock s)) fp c) s = (r1, s1)"
    by fastforce
  then have "isl r1 = False" using assms by (auto simp: one_attempt_def Let_def split: sum.splits)
  with assms p show ?thesis
    by (cases r1) (auto simp: one_attempt_def Let_def cbind_Inr_iff counted_def noted_def
        split: if_splits option.splits)
qed

text \<open>The retry loop: the last result, whether it was discarded, and the finding's artifact.\<close>

function attempt_loop ::
    "review_env \<Rightarrow> disk \<Rightarrow> int \<Rightarrow> string \<Rightarrow> string \<Rightarrow> string \<Rightarrow> json \<Rightarrow> jobj \<Rightarrow>
       (jobj \<times> json \<times> bool \<times> string) cm" where
  "attempt_loop env d n who fp packet prev c s =
     (if attempt_limit (attempts_of c (attempt_key n who)) \<le> calls_of (attempts_of c (attempt_key n who))
      then (Inr (c, prev, False, []), s)
      else case one_attempt env d n who fp packet c s of
        (Inl e, s') \<Rightarrow> (Inl e, s')
      | (Inr (c', r, Some (discarded, aid)), s') \<Rightarrow> (Inr (c', r, discarded, aid), s')
      | (Inr (c', r, None), s') \<Rightarrow> attempt_loop env d n who fp packet r c' s')"
  by pat_completeness auto

termination attempt_loop
  by (relation "measure (\<lambda>(env, d, n, who, fp, packet, prev, c, s).
        nat (attempt_limit (attempts_of c (attempt_key n who)) -
             calls_of (attempts_of c (attempt_key n who))))")
    (auto dest!: one_attempt_counts [OF sym])

declare attempt_loop.simps [simp del]

section \<open>Both reviewers, then the commit\<close>

record dispatching =
  d_council :: jobj
  d_results :: "(string \<times> json) list"
  d_statuses :: "(string \<times> string) list"
  d_fingerprints :: "(string \<times> string) list"
  d_findings :: "(string \<times> string) list"

definition record_result ::
    "string \<Rightarrow> string \<Rightarrow> json \<Rightarrow> string \<Rightarrow> string \<Rightarrow> dispatching \<Rightarrow> dispatching" where
  "record_result who fp r status aid st =
     st\<lparr>d_results := d_results st @ [(who, r)], d_statuses := d_statuses st @ [(who, status)],
        d_fingerprints := d_fingerprints st @ [(who, fp)],
        d_findings := (if status = ''review'' then d_findings st @ [(who, aid)] else d_findings st)\<rparr>"

definition loop_status :: "json \<Rightarrow> bool \<Rightarrow> string" where
  "loop_status r discarded =
     (if discarded then ''residue_blocked''
      else if r = JNull then ''attempts_exhausted''
      else if hard_gated r then ''hard_gate''
      else if validated r then ''review'' else ''attempts_exhausted'')"

text \<open>A validated result cached for exactly this dispatch is reused, after the residue gate, without
  a call; otherwise the retry loop runs.\<close>

definition dispatch_one ::
    "review_env \<Rightarrow> disk \<Rightarrow> int \<Rightarrow> json \<Rightarrow> string list \<Rightarrow> string \<Rightarrow> string \<Rightarrow> dispatching \<Rightarrow>
       dispatching cm" where
  "dispatch_one env d n model hashes who packet st s =
     (let c = d_council st; key = attempt_key n who;
          fp = dispatch_fingerprint env who (sha_text env packet) model (jget c ''phase'') hashes;
          cached = obj_of (pending_of c key); old = jget cached ''result'' in
      if jget cached ''fingerprint'' = JStr fp \<and> validated old then
        (case residue_gate env (its_lane c) who old of
           None \<Rightarrow> creturn (record_result who fp JNull ''residue_blocked'' [] st) s
         | Some aid \<Rightarrow> creturn (record_result who fp old ''review'' aid st) s)
      else
        cbind (attempt_loop env d n who fp packet JNull (put_attempts key (attempts_of c key) c))
          (\<lambda>(c', r, discarded, aid).
             creturn (record_result who fp r (loop_status r discarded) aid (st\<lparr>d_council := c'\<rparr>)))
          s)"

definition result_of :: "dispatching \<Rightarrow> string \<Rightarrow> json" where
  "result_of st who = (case map_of (d_results st) who of None \<Rightarrow> JNull | Some r \<Rightarrow> r)"

definition audit_round :: "int \<Rightarrow> jobj \<Rightarrow> string \<Rightarrow> json \<Rightarrow> json \<Rightarrow> jobj" where
  "audit_round n c now gpt codex =
     [(''round'', JInt n), (''phase'', jget c ''phase''), (''at'', JStr now),
      (''substantive'', JBool False), (''gpt'', gpt), (''codex'', codex),
      (''reconciliation'', JNull), (''hard_gate'', JBool True)]"

definition pair_obj :: "(string \<times> string) list \<Rightarrow> json" where
  "pair_obj ps = JObj (map (\<lambda>(k, v). (k, JStr v)) ps)"

definition review_round :: "int \<Rightarrow> string \<Rightarrow> package \<Rightarrow> dispatching \<Rightarrow> jobj" where
  "review_round n now p st =
     [(''round'', JInt n), (''phase'', jget (d_council st) ''phase''), (''at'', JStr now),
      (''substantive'', JBool True), (''fingerprints'', pair_obj (d_fingerprints st)),
      (''artifact_ids'', JArr (map JStr (p_artifact_ids p))),
      (''artifact_hashes'', JArr (map JStr (p_artifact_hashes p))),
      (''gpt'', result_of st ''gpt''), (''codex'', result_of st ''codex''),
      (''reconciliation'', JNull)] @
     (if its_lane (d_council st) then
        [(''its'', JObj [(''composition'', p_its p), (''artifact_ids'', pair_obj (d_findings st))])]
      else [])"

text \<open>\<open>pending.pop(key)\<close> and \<open>attempt_state.pop(key)\<close> of both reviewers.\<close>

definition clear_round :: "int \<Rightarrow> jobj \<Rightarrow> jobj" where
  "clear_round n c =
     (let drop_keys = (\<lambda>ob. jdel (attempt_key n ''codex'') (jdel (attempt_key n ''gpt'') ob)) in
      jput ''attempt_state'' (JObj (drop_keys (obj_of (jget c ''attempt_state''))))
        (jput ''pending_results'' (JObj (drop_keys (obj_of (jget c ''pending_results'')))) c))"

definition finish_round :: "review_env \<Rightarrow> disk \<Rightarrow> int \<Rightarrow> package \<Rightarrow> dispatching \<Rightarrow> report cm" where
  "finish_round env d n p st s =
     (let c = d_council st in
      if list_ex (\<lambda>(w, r). hard_gated r) (d_results st) then
        cbind (save_round d c (audit_round n c (now_at env (clock s)) (result_of st ''gpt'')
                 (result_of st ''codex'')))
          (\<lambda>_. creturn (AuditRound n (d_statuses st))) s
      else if list_all (\<lambda>(w, v). v = ''review'') (d_statuses st) then
        cbind (save_round d c (review_round n (now_at env (clock s)) p st)) (\<lambda>c'.
          cbind (persist_council d (clear_round n c'))
            (\<lambda>_. creturn (Committed n (d_statuses st)))) s
      else
        cbind (persist_council d c) (\<lambda>_. creturn (NotCommitted n (d_statuses st)
          (map fst (filter (\<lambda>(w, v). v = ''attempts_exhausted'') (d_statuses st))))) s)"

definition dispatch_round ::
    "review_env \<Rightarrow> disk \<Rightarrow> int \<Rightarrow> json \<Rightarrow> jobj \<Rightarrow> package \<Rightarrow> report cm" where
  "dispatch_round env d n model c p =
     (let st0 = \<lparr> d_council = c, d_results = [], d_statuses = [], d_fingerprints = [],
                  d_findings = [] \<rparr> in
      cbind (dispatch_one env d n model (p_artifact_hashes p) ''gpt'' (p_gpt p) st0) (\<lambda>st1.
      cbind (dispatch_one env d n model (p_artifact_hashes p) ''codex'' (p_codex p) st1) (\<lambda>st2.
        finish_round env d n p st2)))"

definition run_round ::
    "review_env \<Rightarrow> disk \<Rightarrow> jobj \<Rightarrow> string \<Rightarrow> json \<Rightarrow> string list \<Rightarrow> report cm" where
  "run_round env d c base_context model ids s =
     (let prior = load_rounds s (council_id_of c); n = next_round c;
          requested = py_or model (jget c ''model'') in
      case dispatch_eligibility (obj_of (jget c ''preallocation_signals'')) of
        Some why \<Rightarrow> creturn (NotDispatched (Ineligible why)) s
      | None \<Rightarrow>
        (let ctx = (if its_lane c then base_context else build_context env c prior base_context) in
         if secret_scan ctx \<noteq> [] then
           cbind (save_round d c (audit_round n c (now_at env (clock s)) JNull JNull))
             (\<lambda>_. creturn (AuditRound n [])) s
         else if its_lane c then
           (case its_package env c prior base_context of
              Inl r \<Rightarrow> creturn (NotDispatched r) s
            | Inr p \<Rightarrow> dispatch_round env d n requested c p s)
         else
           cbind (package_standard env d c ctx ids) (\<lambda>(c', pk).
             case pk of
               Inl r \<Rightarrow> creturn (NotDispatched r)
             | Inr p \<Rightarrow> dispatch_round env d n requested c' p) s))"

end
