(* ===== verification/Council_System.thy ===== *)
theory Council_System
  imports Review_Rounds
begin

text \<open>
  The council store over time: the commands of \<open>tools/clearwright_review_council.py\<close> as a step
  relation, and what every sequence of them keeps, whatever the operating system refuses and
  wherever a run is cut short. A command loads the stored council, works on its copy and writes it
  back; commands of one council do not overlap.
\<close>

section \<open>What holds of a stored council\<close>

definition calls_made :: "cstore \<Rightarrow> string \<Rightarrow> int \<Rightarrow> string \<Rightarrow> int" where
  "calls_made s cid n who =
     int (length (filter (\<lambda>(c, m, w, _). c = cid \<and> m = n \<and> w = who) (sent s)))"

definition bounds_ok :: "jobj \<Rightarrow> bool" where
  "bounds_ok c \<longleftrightarrow> (\<exists>mn mx. jget c ''min_rounds'' = JInt mn \<and> jget c ''max_rounds'' = JInt mx \<and>
     2 \<le> mn \<and> mn \<le> mx \<and> mx \<le> 5)"

definition index_ok :: "jobj \<Rightarrow> bool" where
  "index_ok c \<longleftrightarrow> (\<exists>k. round_numbers c = map int [1..<Suc k])"

definition budget_ok :: "cstore \<Rightarrow> string \<Rightarrow> jobj \<Rightarrow> bool" where
  "budget_ok s cid c \<longleftrightarrow> (\<forall>m who. next_round c \<le> m \<longrightarrow>
     calls_made s cid m who \<le> calls_of (attempts_of c (attempt_key m who)) \<and>
     calls_of (attempts_of c (attempt_key m who)) \<le> attempt_limit (attempts_of c (attempt_key m who)))"

definition rounds_ok :: "cstore \<Rightarrow> string \<Rightarrow> jobj \<Rightarrow> bool" where
  "rounds_ok s cid c \<longleftrightarrow> (\<forall>n \<in> set (round_numbers c).
     \<exists>rd. docs s (RoundDoc cid n) = Some rd \<and> rd \<noteq> [] \<and> int_of (jget rd ''round'') = n)"

definition substantive_in :: "cstore \<Rightarrow> string \<Rightarrow> jobj \<Rightarrow> int" where
  "substantive_in s cid c = int (length (filter
     (\<lambda>n. case docs s (RoundDoc cid n) of None \<Rightarrow> False | Some rd \<Rightarrow> is_substantive rd)
     (round_numbers c)))"

definition max_of :: "jobj \<Rightarrow> int" where
  "max_of c = int_of (jget c ''max_rounds'')"

definition council_ok :: "cstore \<Rightarrow> string \<Rightarrow> jobj \<Rightarrow> bool" where
  "council_ok s cid c \<longleftrightarrow> council_id_of c = cid \<and> c \<noteq> [] \<and> bounds_ok c \<and> index_ok c \<and>
     budget_ok s cid c \<and> rounds_ok s cid c \<and> substantive_in s cid c \<le> max_of c"

definition store_ok :: "cstore \<Rightarrow> bool" where
  "store_ok s \<longleftrightarrow> (\<forall>cid c. docs s (CouncilDoc cid) = Some c \<longrightarrow> council_ok s cid c) \<and>
     (\<forall>cid. docs s (CouncilDoc cid) = None \<longrightarrow> (\<forall>n who. calls_made s cid n who = 0))"

section \<open>The commands\<close>

text \<open>The review stage: a council at its maximum of substantive rounds is not dispatched again.\<close>

definition review_command ::
    "review_env \<Rightarrow> disk \<Rightarrow> jobj \<Rightarrow> string \<Rightarrow> json \<Rightarrow> string list \<Rightarrow> report option cm" where
  "review_command env d c base_context model ids s =
     (if int_of (get_or c ''max_rounds'' (JInt DEFAULT_MAX_ROUNDS))
           \<le> substantive_round_count (load_rounds s (council_id_of c))
      then creturn None s
      else cbind (run_round env d c base_context model ids) (\<lambda>r. creturn (Some r)) s)"

inductive council_step :: "cstore \<Rightarrow> cstore \<Rightarrow> bool" where
  create: "load_council s (a_council_id a) = None \<Longrightarrow> create_council d sha now a s = (r, s') \<Longrightarrow>
     council_step s s'"
| review: "load_council s cid = Some c \<Longrightarrow> review_command env d c ctx model ids s = (rv, s') \<Longrightarrow>
     council_step s s'"
| reconcile: "load_council s cid = Some c \<Longrightarrow>
     attach_reconciliation d residue register c recon s = (r, s') \<Longrightarrow> council_step s s'"
| scope: "load_council s cid = Some c \<Longrightarrow> set_approved_scope d sha c scope s = (r, s') \<Longrightarrow>
     council_step s s'"
| stamp: "load_council s cid = Some c \<Longrightarrow> stamp_context d c digest s = (r, s') \<Longrightarrow> council_step s s'"
| lineage: "load_council s cid = Some c \<Longrightarrow> set_lineage d c l k b s = (r, s') \<Longrightarrow> council_step s s'"
| grant: "load_council s cid = Some c \<Longrightarrow> grant_attempts d now msgs c who mid extra s = (g, s') \<Longrightarrow>
     council_step s s'"
| outcome: "save_outcome d cid oc s = (u, s') \<Longrightarrow> council_step s s'"

definition reachable_councils :: "cstore \<Rightarrow> cstore \<Rightarrow> bool" where
  "reachable_councils = council_step\<^sup>*\<^sup>*"

section \<open>Frames\<close>

lemma council_ok_frame:
  assumes "council_ok s cid c"
    and "\<forall>n \<in> set (round_numbers c). docs s' (RoundDoc cid n) = docs s (RoundDoc cid n)"
    and "\<forall>m who. next_round c \<le> m \<longrightarrow> calls_made s' cid m who = calls_made s cid m who"
  shows "council_ok s' cid c"
proof -
  have "substantive_in s' cid c = substantive_in s cid c"
    using assms(2) by (simp add: substantive_in_def cong: filter_cong)
  then show ?thesis
    using assms by (simp add: council_ok_def budget_ok_def rounds_ok_def)
qed

lemma calls_made_same: "sent s' = sent s \<Longrightarrow> calls_made s' = calls_made s"
  by (simp add: calls_made_def fun_eq_iff)

text \<open>A copy of a council that a command may write back: what the invariant reads is unchanged
  apart from the attempts.\<close>

definition same_skeleton :: "jobj \<Rightarrow> jobj \<Rightarrow> bool" where
  "same_skeleton c c' \<longleftrightarrow> council_id_of c' = council_id_of c \<and> c' \<noteq> [] \<and>
     round_numbers c' = round_numbers c \<and> jget c' ''min_rounds'' = jget c ''min_rounds'' \<and>
     jget c' ''max_rounds'' = jget c ''max_rounds''"

lemma same_skeleton_trans: "same_skeleton a b \<Longrightarrow> same_skeleton b c \<Longrightarrow> same_skeleton a c"
  by (simp add: same_skeleton_def)

lemma jput_nonempty [simp]: "jput k v ob \<noteq> []"
  by (cases ob) auto

lemma same_skeleton_jput:
  "k \<notin> {''council_id'', ''rounds'', ''min_rounds'', ''max_rounds''} \<Longrightarrow> same_skeleton c (jput k v c)"
  by (simp add: same_skeleton_def)

lemma same_skeleton_next: "same_skeleton c c' \<Longrightarrow> next_round c' = next_round c"
  by (simp add: same_skeleton_def next_round_numbers)

lemma council_ok_skeleton:
  assumes "council_ok s cid c" and "same_skeleton c c'" and "budget_ok s cid c'"
  shows "council_ok s cid c'"
  using assms
  by (simp add: council_ok_def same_skeleton_def bounds_ok_def index_ok_def rounds_ok_def
      substantive_in_def max_of_def)

lemma attempts_of_jput [simp]: "k \<noteq> ''attempt_state'' \<Longrightarrow> attempts_of (jput k v c) key = attempts_of c key"
  by (simp add: attempts_of_def)

lemma budget_ok_jput:
  "budget_ok s cid c \<Longrightarrow> k \<notin> {''attempt_state'', ''rounds''} \<Longrightarrow> budget_ok s cid (jput k v c)"
  by (simp add: budget_ok_def next_round_numbers)

lemma store_okD: "store_ok s \<Longrightarrow> docs s (CouncilDoc cid) = Some c \<Longrightarrow> council_ok s cid c"
  "store_ok s \<Longrightarrow> docs s (CouncilDoc cid) = None \<Longrightarrow> calls_made s cid n who = 0"
  by (simp_all add: store_ok_def)

lemma store_ok_same:
  assumes "store_ok s" and "docs s' = docs s" and "sent s' = sent s"
  shows "store_ok s'"
  using assms
  by (simp add: store_ok_def council_ok_def budget_ok_def rounds_ok_def substantive_in_def
      calls_made_def)

text \<open>The general step: the documents of one council change, the others and their calls do not.\<close>

lemma store_ok_change:
  assumes "store_ok s"
    and "docs s' (CouncilDoc cid) = Some c" and "council_ok s' cid c"
    and "\<forall>p. (\<forall>n. p \<noteq> RoundDoc cid n) \<and> p \<noteq> CouncilDoc cid \<longrightarrow> docs s' p = docs s p"
    and "\<forall>cid2 n who. cid2 \<noteq> cid \<longrightarrow> calls_made s' cid2 n who = calls_made s cid2 n who"
  shows "store_ok s'"
  unfolding store_ok_def
proof (intro conjI allI impI)
  fix cid2 c2
  assume c2: "docs s' (CouncilDoc cid2) = Some c2"
  show "council_ok s' cid2 c2"
  proof (cases "cid2 = cid")
    case True
    with c2 assms(2,3) show ?thesis by simp
  next
    case False
    then have "docs s (CouncilDoc cid2) = Some c2" using assms(4) c2 by simp
    from store_okD(1) [OF assms(1) this] show ?thesis
      by (rule council_ok_frame) (use assms(4,5) False in simp_all)
  qed
next
  fix cid2 n who
  assume n: "docs s' (CouncilDoc cid2) = None"
  then have "cid2 \<noteq> cid" using assms(2) by auto
  then show "calls_made s' cid2 n who = 0"
    using assms(4,5) n store_okD(2) [OF assms(1), of cid2] by simp
qed

text \<open>Writing such a copy back keeps the store sound.\<close>

lemma store_ok_persist:
  assumes "store_ok s" and "docs s (CouncilDoc cid) = Some c" and "same_skeleton c c'"
    and "budget_ok s cid c'" and "persist_council d c' s = (r, s')"
  shows "store_ok s' \<and> sent s' = sent s \<and>
    (\<forall>n. docs s' (RoundDoc cid n) = docs s (RoundDoc cid n)) \<and>
    (isl r \<or> (r = Inr () \<and> docs s' (CouncilDoc cid) = Some c'))"
proof -
  have ok: "council_ok s cid c" by (rule store_okD(1) [OF assms(1,2)])
  then have id: "council_id_of c' = cid" using assms(3) by (simp add: council_ok_def same_skeleton_def)
  from persist_effect [OF assms(5)]
  consider (wrote) "r = Inr ()" "docs s' = (docs s)(CouncilDoc cid \<mapsto> c')" "sent s' = sent s"
    | (kept) "isl r" "docs s' = docs s" "sent s' = sent s" using id by auto
  then show ?thesis
  proof cases
    case wrote
    have "council_ok s' cid c'"
      by (rule council_ok_frame [OF council_ok_skeleton [OF ok assms(3,4)]])
        (simp_all add: wrote calls_made_same [OF wrote(3)])
    then have "store_ok s'"
      by (intro store_ok_change [OF assms(1), of s' cid c'])
        (simp_all add: wrote calls_made_same [OF wrote(3)])
    with wrote show ?thesis by simp
  next
    case kept
    with store_ok_same [OF assms(1)] show ?thesis by simp
  qed
qed

section \<open>A command's working copy\<close>

definition working :: "cstore \<Rightarrow> string \<Rightarrow> jobj \<Rightarrow> bool" where
  "working s cid c \<longleftrightarrow> store_ok s \<and> budget_ok s cid c \<and>
     (\<exists>c0. docs s (CouncilDoc cid) = Some c0 \<and> same_skeleton c0 c)"

lemma same_skeleton_refl: "c \<noteq> [] \<Longrightarrow> same_skeleton c c"
  by (simp add: same_skeleton_def)

lemma working_start:
  assumes "store_ok s" and "load_council s cid = Some c"
  shows "working s cid c"
proof -
  have c: "docs s (CouncilDoc cid) = Some c" using assms(2) by (simp add: load_council_def)
  have "council_ok s cid c" by (rule store_okD(1) [OF assms(1) c])
  then show ?thesis
    using assms(1) c same_skeleton_refl by (auto simp: working_def council_ok_def)
qed

lemma working_council_ok: "working s cid c \<Longrightarrow> council_ok s cid c"
  by (auto simp: working_def intro: council_ok_skeleton store_okD(1))

lemma working_edit:
  "working s cid c \<Longrightarrow> same_skeleton c c' \<Longrightarrow> budget_ok s cid c' \<Longrightarrow> working s cid c'"
  by (auto simp: working_def intro: same_skeleton_trans)

lemma working_jput:
  assumes "working s cid c"
    and "k \<notin> {''council_id'', ''rounds'', ''min_rounds'', ''max_rounds'', ''attempt_state''}"
  shows "working s cid (jput k v c)"
proof (rule working_edit [OF assms(1)])
  show "same_skeleton c (jput k v c)" using assms(2) by (intro same_skeleton_jput) simp
  show "budget_ok s cid (jput k v c)"
    using assms by (intro budget_ok_jput) (simp_all add: working_def)
qed

lemma working_persist:
  assumes "working s cid c" and "persist_council d c s = (r, s')"
  shows "store_ok s' \<and> sent s' = sent s \<and>
    (isl r \<or> (working s' cid c \<and> docs s' (CouncilDoc cid) = Some c))"
proof -
  obtain c0 where c0: "store_ok s" "docs s (CouncilDoc cid) = Some c0" "same_skeleton c0 c"
      "budget_ok s cid c"
    using assms(1) by (auto simp: working_def)
  note p = store_ok_persist [OF c0 assms(2)]
  have "c \<noteq> []" using c0(3) by (simp add: same_skeleton_def)
  moreover have "budget_ok s' cid c"
    using c0(4) p calls_made_same [of s' s] by (simp add: budget_ok_def)
  ultimately show ?thesis
    using p same_skeleton_refl by (auto simp: working_def)
qed

lemma working_persist_return:
  assumes "working s cid c" and "cbind (persist_council d c) (\<lambda>_. creturn x) s = (r, s')"
  shows "store_ok s' \<and> (isl r \<or> (r = Inr x \<and> working s' cid c))"
  using assms(2)
proof (cases rule: cbind_cases)
  case (fails e)
  with working_persist [OF assms(1) fails(1)] show ?thesis by simp
next
  case (goes_on u s1)
  with working_persist [OF assms(1) goes_on(1)] show ?thesis by simp
qed

section \<open>The attempt loop\<close>

lemma calls_made_send:
  "calls_made (send_packet cid n who packet s) cid2 m w =
     calls_made s cid2 m w + (if cid2 = cid \<and> m = n \<and> w = who then 1 else 0)"
  by (simp add: calls_made_def send_packet_def)

lemma docs_send [simp]: "docs (send_packet cid n who packet s) = docs s"
  by (simp add: send_packet_def)

lemma same_skeleton_put_attempts: "same_skeleton c (put_attempts key st c)"
  unfolding put_attempts_def by (rule same_skeleton_jput) simp

lemma next_round_put_attempts [simp]: "next_round (put_attempts key st c) = next_round c"
  by (simp add: next_round_numbers)

lemma budget_ok_put_attempts:
  assumes "budget_ok s cid c" and "calls_of (attempts_of c key) \<le> calls_of st"
    and "calls_of st \<le> attempt_limit st"
  shows "budget_ok s cid (put_attempts key st c)"
  using assms by (auto simp: budget_ok_def intro: order_trans)

lemma counted_facts [simp]:
  "next_round (counted key t fp c) = next_round c"
  "attempts_of (counted key t fp c) key' =
     (if key = key' then count_call t fp (attempts_of c key) else attempts_of c key')"
  "same_skeleton c (counted key t fp c)" "counted key t fp c \<noteq> []"
  by (simp_all add: counted_def same_skeleton_put_attempts) (simp add: put_attempts_def)

text \<open>One counted call: the counter is stored, then the packet is sent.\<close>

lemma working_call:
  assumes "working s cid c" and "n = next_round c" and "key = attempt_key n who"
    and "calls_of (attempts_of c key) < attempt_limit (attempts_of c key)"
    and "persist_council d (counted key t fp c) s = (r, s1)"
  shows "store_ok s1 \<and> (isl r \<or> working (send_packet cid n who packet s1) cid (counted key t fp c))"
proof -
  let ?c1 = "counted key t fp c"
  have b: "budget_ok s cid c" using assms(1) by (simp add: working_def)
  have "budget_ok s cid ?c1"
    unfolding counted_def by (rule budget_ok_put_attempts [OF b]) (use assms(4) in simp_all)
  then have w: "working s cid ?c1" by (intro working_edit [OF assms(1)]) simp_all
  note p = working_persist [OF w assms(5)]
  show ?thesis
  proof (cases "isl r")
    case True
    with p show ?thesis by simp
  next
    case False
    let ?s2 = "send_packet cid n who packet s1"
    from False p have w1: "working s1 cid ?c1" and c1: "docs s1 (CouncilDoc cid) = Some ?c1"
      and st1: "store_ok s1" and sent1: "sent s1 = sent s" by auto
    have bud: "budget_ok ?s2 cid ?c1"
      unfolding budget_ok_def
    proof (intro allI impI)
      fix m w
      assume m: "next_round ?c1 \<le> m"
      have "calls_made s1 cid m w = calls_made s cid m w" using calls_made_same [OF sent1] by simp
      then show "calls_made ?s2 cid m w \<le> calls_of (attempts_of ?c1 (attempt_key m w)) \<and>
          calls_of (attempts_of ?c1 (attempt_key m w)) \<le> attempt_limit (attempts_of ?c1 (attempt_key m w))"
        using b m assms(2,3,4) by (auto simp: budget_ok_def calls_made_send)
    qed
    have "council_ok ?s2 cid ?c1"
      using working_council_ok [OF w1] bud
      by (simp add: council_ok_def rounds_ok_def substantive_in_def)
    then have "store_ok ?s2"
      by (intro store_ok_change [OF st1, of ?s2 cid ?c1]) (simp_all add: c1 calls_made_send)
    then show ?thesis
      using st1 bud c1 same_skeleton_refl [of ?c1] by (auto simp: working_def)
  qed
qed

lemma put_pending_working: "working s cid c \<Longrightarrow> working s cid (put_pending key fp r t c)"
  unfolding put_pending_def by (rule working_jput) simp_all

lemma put_pending_next [simp]: "next_round (put_pending key fp r t c) = next_round c"
  by (simp add: put_pending_def next_round_numbers)

lemma noted_working:
  assumes "working s cid c"
    and "calls_of (attempts_of c key) \<le> attempt_limit (attempts_of c key)"
  shows "working s cid (noted key r c)"
  unfolding noted_def
  by (intro working_edit [OF assms(1)] same_skeleton_put_attempts budget_ok_put_attempts)
    (use assms in \<open>simp_all add: working_def\<close>)

lemma noted_next [simp]: "next_round (noted key r c) = next_round c"
  by (simp add: noted_def)

lemma one_attempt_ok:
  assumes "working s cid c" and "n = next_round c"
    and "calls_of (attempts_of c (attempt_key n who)) < attempt_limit (attempts_of c (attempt_key n who))"
    and "one_attempt env d n who fp packet c s = (r, s')"
  shows "store_ok s' \<and> (isl r \<or> (\<exists>c' x. r = Inr (c', x) \<and> working s' cid c' \<and> same_skeleton c c'))"
proof -
  let ?key = "attempt_key n who" and ?t = "now_at env (clock s)"
  have cid: "council_id_of c = cid"
    using working_council_ok [OF assms(1)] by (simp add: council_ok_def)
  obtain r1 s1 where p: "persist_council d (counted ?key ?t fp c) s = (r1, s1)" by fastforce
  note call = working_call [OF assms(1,2) refl assms(3) p, of packet]
  show ?thesis
  proof (cases r1)
    case (Inl e)
    then show ?thesis using assms(4) p call by (auto simp: one_attempt_def Let_def)
  next
    case (Inr u)
    define s2 where "s2 = send_packet cid n who packet s1"
    define reply where "reply = adapter env (clock s2) who packet"
    define c2 where "c2 = noted ?key reply (counted ?key ?t fp c)"
    have w1: "working s2 cid (counted ?key ?t fp c)" using call Inr by (simp add: s2_def)
    have w2: "working s2 cid c2"
      unfolding c2_def by (rule noted_working [OF w1]) (use assms(3) in simp)
    have n2: "same_skeleton c c2"
      unfolding c2_def noted_def
      by (rule same_skeleton_trans [OF counted_facts(3) same_skeleton_put_attempts])
    have n3: "same_skeleton c (put_pending ?key fp reply t c2)" for t
      unfolding put_pending_def by (rule same_skeleton_trans [OF n2 same_skeleton_jput]) simp
    consider (plain) x where "r = Inr (c2, x)" "s' = s2"
      | (cached) aid where "cbind (persist_council d (put_pending ?key fp reply (now_at env (clock s2)) c2))
           (\<lambda>_. creturn (put_pending ?key fp reply (now_at env (clock s2)) c2, reply, Some (False, aid))) s2 = (r, s')"
      using assms(4) p Inr cid
      by (auto simp: one_attempt_def Let_def s2_def [symmetric] reply_def [symmetric]
          c2_def [symmetric] split: if_splits option.splits)
    then show ?thesis
    proof cases
      case plain
      then show ?thesis using w2 n2 by (auto simp: working_def)
    next
      case cached
      from working_persist_return [OF put_pending_working [OF w2] cached] n3 show ?thesis by auto
    qed
  qed
qed

lemma attempt_loop_ok:
  "working s cid c \<Longrightarrow> n = next_round c \<Longrightarrow> attempt_loop env d n who fp packet prev c s = (r, s') \<Longrightarrow>
     store_ok s' \<and> (isl r \<or> (\<exists>c' x. r = Inr (c', x) \<and> working s' cid c' \<and> same_skeleton c c'))"
proof (induction env d n who fp packet prev c s arbitrary: r s' rule: attempt_loop.induct)
  case (1 env d n who fp packet prev c s)
  show ?case
  proof (cases "attempt_limit (attempts_of c (attempt_key n who)) \<le> calls_of (attempts_of c (attempt_key n who))")
    case True
    then have "r = Inr (c, prev, False, [])" "s' = s"
      using "1.prems"(3) by (simp_all add: attempt_loop.simps)
    moreover have "same_skeleton c c"
      using working_council_ok [OF "1.prems"(1)] by (simp add: council_ok_def same_skeleton_refl)
    ultimately show ?thesis using "1.prems"(1) by (auto simp: working_def)
  next
    case False
    obtain r1 s1 where a: "one_attempt env d n who fp packet c s = (r1, s1)" by fastforce
    note ok = one_attempt_ok [OF "1.prems"(1,2) _ a]
    show ?thesis
    proof (cases "\<exists>c' x. r1 = Inr (c', x, None)")
      case True
      then obtain c' x where r1: "r1 = Inr (c', x, None)" by blast
      then have "attempt_loop env d n who fp packet x c' s1 = (r, s')"
        using "1.prems"(3) False a by (simp add: attempt_loop.simps [of env d n who fp packet prev])
      moreover have c': "working s1 cid c'" "same_skeleton c c'" using ok False r1 by auto
      moreover have "n = next_round c'" using same_skeleton_next [OF c'(2)] "1.prems"(2) by simp
      ultimately show ?thesis
        using "1.IH" [OF False a [symmetric] r1 refl refl refl, of r s'] same_skeleton_trans [OF c'(2)]
        by blast
    next
      case again: False
      then have "(isl r1 \<and> isl r \<and> s' = s1) \<or> (\<exists>c' y z. r1 = Inr (c', y) \<and> r = Inr (c', z) \<and> s' = s1)"
        using "1.prems"(3) False a
        by (cases r1) (auto simp: attempt_loop.simps [of env d n who fp packet prev] split: option.splits)
      then show ?thesis using ok False by auto
    qed
  qed
qed

section \<open>Saving a round\<close>

lemma sorted_map_int: "sorted (map int [m..<n])"
  by (induction n) (auto simp: sorted_append)

lemma index_ok_fresh:
  assumes "index_ok c"
  shows "next_round c \<notin> set (round_numbers c)"
    and "sort (round_numbers c @ [next_round c]) = round_numbers c @ [next_round c]"
    and "index_ok (jput ''rounds'' (JArr (map JInt (round_numbers c @ [next_round c]))) c)"
    and "\<forall>n \<in> set (round_numbers c). n < next_round c"
proof -
  obtain k where k: "round_numbers c = map int [1..<Suc k]" using assms by (auto simp: index_ok_def)
  then have n: "next_round c = int (Suc k)" by (simp add: next_round_numbers)
  show "next_round c \<notin> set (round_numbers c)" "\<forall>n \<in> set (round_numbers c). n < next_round c"
    by (auto simp: k n)
  have "sorted (map int [1..<Suc (Suc k)])" by (rule sorted_map_int)
  then have "sort (map int [1..<Suc (Suc k)]) = map int [1..<Suc (Suc k)]" by (rule sorted_sort_id)
  then show "sort (round_numbers c @ [next_round c]) = round_numbers c @ [next_round c]"
    by (simp add: k n)
  have "round_numbers c @ [next_round c] = map int [1..<Suc (Suc k)]" by (simp add: k n)
  then show "index_ok (jput ''rounds'' (JArr (map JInt (round_numbers c @ [next_round c]))) c)"
    unfolding index_ok_def by (intro exI [of _ "Suc k"]) (simp only: round_numbers_jput)
qed

definition indexed :: "jobj \<Rightarrow> jobj" where
  "indexed c = jput ''rounds'' (JArr (map JInt (round_numbers c @ [next_round c]))) c"

lemma round_numbers_indexed [simp]: "round_numbers (indexed c) = round_numbers c @ [next_round c]"
  unfolding indexed_def by (rule round_numbers_jput)

lemma indexed_facts [simp]:
  "next_round (indexed c) = next_round c + 1" "council_id_of (indexed c) = council_id_of c"
  "indexed c \<noteq> []" "max_of (indexed c) = max_of c" "bounds_ok (indexed c) = bounds_ok c"
  "attempts_of (indexed c) key = attempts_of c key"
     apply (simp add: next_round_numbers)
    apply (simp_all add: indexed_def max_of_def bounds_ok_def)
  done

text \<open>Adding the next round to the index of a council whose file for it is written.\<close>

lemma council_ok_indexed:
  assumes "council_ok s cid c" and "int_of (jget rd ''round'') = next_round c" and "rd \<noteq> []"
    and "is_substantive rd \<Longrightarrow> substantive_in s cid c < max_of c"
    and "docs s' (RoundDoc cid (next_round c)) = Some rd"
    and "\<forall>n. n \<noteq> next_round c \<longrightarrow> docs s' (RoundDoc cid n) = docs s (RoundDoc cid n)"
    and "sent s' = sent s"
  shows "council_ok s' cid (indexed c)"
proof -
  have ix: "index_ok c" using assms(1) by (simp add: council_ok_def)
  note fresh = index_ok_fresh [OF ix]
  have "budget_ok s' cid (indexed c)"
    using assms(1) calls_made_same [OF assms(7)] by (simp add: council_ok_def budget_ok_def)
  moreover have "rounds_ok s' cid (indexed c)"
    unfolding rounds_ok_def
  proof
    fix n
    assume "n \<in> set (round_numbers (indexed c))"
    then consider "n = next_round c" | "n \<noteq> next_round c" "n \<in> set (round_numbers c)" by auto
    then show "\<exists>rd. docs s' (RoundDoc cid n) = Some rd \<and> rd \<noteq> [] \<and> int_of (jget rd ''round'') = n"
      using assms(1,2,3,5,6) by cases (auto simp: council_ok_def rounds_ok_def)
  qed
  moreover have "filter (\<lambda>n. case docs s' (RoundDoc cid n) of None \<Rightarrow> False | Some rd \<Rightarrow> is_substantive rd)
        (round_numbers c) =
      filter (\<lambda>n. case docs s (RoundDoc cid n) of None \<Rightarrow> False | Some rd \<Rightarrow> is_substantive rd)
        (round_numbers c)"
  proof (intro filter_cong refl)
    fix n
    assume "n \<in> set (round_numbers c)"
    then have "docs s' (RoundDoc cid n) = docs s (RoundDoc cid n)" using assms(6) fresh(1) by metis
    then show "(case docs s' (RoundDoc cid n) of None \<Rightarrow> False | Some rd \<Rightarrow> is_substantive rd) =
        (case docs s (RoundDoc cid n) of None \<Rightarrow> False | Some rd \<Rightarrow> is_substantive rd)" by simp
  qed
  then have "substantive_in s' cid (indexed c) =
      substantive_in s cid c + (if is_substantive rd then 1 else 0)"
    using assms(5) by (simp add: substantive_in_def)
  moreover have "index_ok (indexed c)" using fresh(3) unfolding indexed_def .
  ultimately show ?thesis
    using assms(1,4) by (auto simp: council_ok_def)
qed

lemma save_round_ok:
  assumes "working s cid c" and "int_of (jget rd ''round'') = next_round c" and "rd \<noteq> []"
    and "is_substantive rd \<Longrightarrow> substantive_in s cid c < max_of c"
    and "save_round d c rd s = (r, s')"
  shows "store_ok s' \<and> (isl r \<or> (r = Inr (indexed c) \<and> working s' cid (indexed c)))"
proof -
  have ok: "council_ok s cid c" by (rule working_council_ok [OF assms(1)])
  then have id: "council_id_of c = cid" and ix: "index_ok c" by (simp_all add: council_ok_def)
  note fresh = index_ok_fresh [OF ix]
  obtain c0 where st: "store_ok s" and c0: "docs s (CouncilDoc cid) = Some c0" "same_skeleton c0 c"
    using assms(1) by (auto simp: working_def)
  from save_round_effect [OF assms(5)] fresh(1,2) assms(2) id
  consider (kept) "isl r" "docs s' = docs s" "sent s' = sent s"
    | (orphan) "isl r" "docs s' = (docs s)(RoundDoc cid (next_round c) \<mapsto> rd)" "sent s' = sent s"
    | (saved) "r = Inr (indexed c)" "sent s' = sent s"
        "docs s' = (docs s)(RoundDoc cid (next_round c) \<mapsto> rd, CouncilDoc cid \<mapsto> indexed c)"
    by (auto simp: indexed_def)
  then show ?thesis
  proof cases
    case kept
    with store_ok_same [OF st] show ?thesis by simp
  next
    case orphan
    have "council_ok s' cid c0"
      by (rule council_ok_frame [OF store_okD(1) [OF st c0(1)]])
        (use fresh(1) c0(2) in \<open>auto simp: orphan same_skeleton_def calls_made_same [OF orphan(3)]\<close>)
    then have "store_ok s'"
      by (intro store_ok_change [OF st, of s' cid c0])
        (simp_all add: orphan c0 calls_made_same [OF orphan(3)])
    with orphan show ?thesis by simp
  next
    case saved
    have new: "council_ok s' cid (indexed c)"
      by (rule council_ok_indexed [OF ok assms(2,3,4)]) (simp_all add: saved)
    then have "store_ok s'"
      by (intro store_ok_change [OF st, of s' cid "indexed c"])
        (simp_all add: saved calls_made_same [OF saved(2)])
    with saved new show ?thesis
      by (auto simp: working_def council_ok_def intro: same_skeleton_refl)
  qed
qed

section \<open>A whole round\<close>

text \<open>Dispatching writes only \<open>council.json\<close>: the round files stay as they are.\<close>

definition rounds_kept :: "cstore \<Rightarrow> cstore \<Rightarrow> bool" where
  "rounds_kept s s' \<longleftrightarrow> (\<forall>cid n. docs s' (RoundDoc cid n) = docs s (RoundDoc cid n))"

lemma rounds_kept_refl [simp]: "rounds_kept s s"
  by (simp add: rounds_kept_def)

lemma rounds_kept_trans: "rounds_kept a b \<Longrightarrow> rounds_kept b c \<Longrightarrow> rounds_kept a c"
  by (simp add: rounds_kept_def)

lemma rounds_kept_send [simp]: "rounds_kept s (send_packet cid n who packet s') = rounds_kept s s'"
  by (simp add: rounds_kept_def)

lemma persist_rounds_kept: "persist_council d c s = (r, s') \<Longrightarrow> rounds_kept s s'"
  by (auto simp: rounds_kept_def dest!: persist_effect)

lemma persist_return_rounds_kept:
  "cbind (persist_council d c) (\<lambda>_. creturn x) s = (r, s') \<Longrightarrow> rounds_kept s s'"
  by (auto simp: rounds_kept_def dest!: persist_return_effect)

lemma one_attempt_rounds_kept:
  assumes "one_attempt env d n who fp packet c s = (r, s')"
  shows "rounds_kept s s'"
proof -
  obtain r1 s1 where p: "persist_council d (counted (attempt_key n who) (now_at env (clock s)) fp c) s = (r1, s1)"
    by fastforce
  have k: "rounds_kept s s1" by (rule persist_rounds_kept [OF p])
  have "rounds_kept s1 s'"
    using assms p
    by (auto simp: one_attempt_def Let_def split: sum.splits if_splits option.splits
        dest!: persist_return_rounds_kept) (auto simp: rounds_kept_def)
  with k show ?thesis by (rule rounds_kept_trans)
qed

lemma attempt_loop_rounds_kept:
  "attempt_loop env d n who fp packet prev c s = (r, s') \<Longrightarrow> rounds_kept s s'"
proof (induction env d n who fp packet prev c s arbitrary: r s' rule: attempt_loop.induct)
  case (1 env d n who fp packet prev c s)
  obtain r1 s1 where a: "one_attempt env d n who fp packet c s = (r1, s1)" by fastforce
  note k = one_attempt_rounds_kept [OF a]
  show ?case
  proof (cases "attempt_limit (attempts_of c (attempt_key n who)) \<le> calls_of (attempts_of c (attempt_key n who))")
    case True
    with "1.prems" show ?thesis by (simp add: attempt_loop.simps)
  next
    case False
    show ?thesis
    proof (cases "\<exists>c' x. r1 = Inr (c', x, None)")
      case True
      then obtain c' x where r1: "r1 = Inr (c', x, None)" by blast
      then have "attempt_loop env d n who fp packet x c' s1 = (r, s')"
        using "1.prems" False a by (simp add: attempt_loop.simps [of env d n who fp packet prev])
      with "1.IH" [OF False a [symmetric] r1 refl refl refl, of r s'] k show ?thesis
        by (blast intro: rounds_kept_trans)
    next
      case again: False
      then have "s' = s1"
        using "1.prems" False a
        by (cases r1) (auto simp: attempt_loop.simps [of env d n who fp packet prev] split: option.splits)
      with k show ?thesis by simp
    qed
  qed
qed

lemma dispatch_one_ok:
  assumes "working s cid (d_council st)" and "n = next_round (d_council st)"
    and "dispatch_one env d n model hashes who packet st s = (r, s')"
  shows "store_ok s' \<and> rounds_kept s s' \<and>
    (isl r \<or> (\<exists>st'. r = Inr st' \<and> working s' cid (d_council st') \<and> same_skeleton (d_council st) (d_council st')))"
proof -
  let ?c = "d_council st" and ?key = "attempt_key n who"
  let ?fp = "dispatch_fingerprint env who (sha_text env packet) model (jget ?c ''phase'') hashes"
  have same [simp]: "d_council (record_result w fp x stt aid st) = d_council st" for w fp x stt aid st
    by (simp add: record_result_def)
  have c1: "working s cid (put_attempts ?key (attempts_of ?c ?key) ?c)"
    using assms(1,2)
    by (intro working_edit [OF assms(1)] same_skeleton_put_attempts budget_ok_put_attempts)
      (simp_all add: working_def budget_ok_def)
  consider (same) st' where "r = Inr st'" "d_council st' = ?c" "s' = s"
    | (loop) "cbind (attempt_loop env d n who ?fp packet JNull (put_attempts ?key (attempts_of ?c ?key) ?c))
          (\<lambda>(c', x, discarded, aid). creturn (record_result who ?fp x (loop_status x discarded) aid
             (st\<lparr>d_council := c'\<rparr>))) s = (r, s')"
    using assms(3) by (auto simp: dispatch_one_def Let_def split: if_splits option.splits)
  then show ?thesis
  proof cases
    case same
    moreover have "same_skeleton ?c ?c"
      using working_council_ok [OF assms(1)] by (simp add: council_ok_def same_skeleton_refl)
    ultimately show ?thesis using assms(1) by (auto simp: working_def)
  next
    case loop
    obtain r1 s1 where l: "attempt_loop env d n who ?fp packet JNull
        (put_attempts ?key (attempts_of ?c ?key) ?c) s = (r1, s1)" by fastforce
    have n: "n = next_round (put_attempts ?key (attempts_of ?c ?key) ?c)" using assms(2) by simp
    note ok = attempt_loop_ok [OF c1 n l] and kept = attempt_loop_rounds_kept [OF l]
      and sk = same_skeleton_trans [OF same_skeleton_put_attempts [of ?c ?key "attempts_of ?c ?key"]]
    from loop show ?thesis
    proof (cases rule: cbind_cases)
      case (fails e)
      then show ?thesis using ok kept l by simp
    next
      case (goes_on x s1')
      then show ?thesis using ok kept l by (auto intro: sk)
    qed
  qed
qed

lemma audit_round_facts [simp]:
  "int_of (jget (audit_round n c t g k) ''round'') = n" "\<not> is_substantive (audit_round n c t g k)"
  "audit_round n c t g k \<noteq> []"
  by (simp_all add: audit_round_def is_substantive_def get_or_def jhas_def jget_Cons)

lemma review_round_facts [simp]:
  "int_of (jget (review_round n t p st) ''round'') = n" "review_round n t p st \<noteq> []"
  by (simp_all add: review_round_def jget_Cons)

lemma attempts_of_clear:
  assumes "n < m"
  shows "attempts_of (clear_round n c) (attempt_key m who) = attempts_of c (attempt_key m who)"
  using assms by (simp add: attempts_of_def clear_round_def Let_def get_or_def)

lemma clear_round_skeleton: "same_skeleton c (clear_round n c)"
  by (simp add: clear_round_def Let_def same_skeleton_def)

lemma working_clear:
  assumes "working s cid c" and "n < next_round c"
  shows "working s cid (clear_round n c)"
proof (rule working_edit [OF assms(1) clear_round_skeleton])
  have "next_round (clear_round n c) = next_round c"
    by (rule same_skeleton_next [OF clear_round_skeleton])
  then show "budget_ok s cid (clear_round n c)"
    using assms attempts_of_clear [of n] by (auto simp: working_def budget_ok_def)
qed

lemma finish_round_ok:
  assumes "working s cid (d_council st)" and "n = next_round (d_council st)"
    and "substantive_in s cid (d_council st) < max_of (d_council st)"
    and "finish_round env d n p st s = (r, s')"
  shows "store_ok s'"
proof -
  let ?c = "d_council st"
  consider (audit) rd x where "cbind (save_round d ?c rd) (\<lambda>_. creturn x) s = (r, s')"
      "int_of (jget rd ''round'') = n" "rd \<noteq> []"
    | (commit) rd x where "cbind (save_round d ?c rd) (\<lambda>c'.
          cbind (persist_council d (clear_round n c')) (\<lambda>_. creturn x)) s = (r, s')"
      "int_of (jget rd ''round'') = n" "rd \<noteq> []"
    | (kept) x where "cbind (persist_council d ?c) (\<lambda>_. creturn x) s = (r, s')"
    using assms(4) by (auto simp: finish_round_def Let_def split: if_splits)
  then show ?thesis
  proof cases
    case audit
    from audit(1) show ?thesis
      by (cases rule: cbind_cases)
        (use save_round_ok [OF assms(1)] audit(2,3) assms(2,3) in auto)
  next
    case commit
    from commit(1) show ?thesis
    proof (cases rule: cbind_cases)
      case (fails e)
      then show ?thesis using save_round_ok [OF assms(1)] commit(2,3) assms(2,3) by blast
    next
      case (goes_on c' s1)
      from save_round_ok [OF assms(1) _ commit(3) _ goes_on(1)] commit(2) assms(2,3)
      have w: "working s1 cid (indexed ?c)" "c' = indexed ?c" by auto
      have "working s1 cid (clear_round n (indexed ?c))"
        by (rule working_clear [OF w(1)]) (simp add: assms(2))
      from working_persist_return [OF this goes_on(2) [unfolded w(2)]] show ?thesis by simp
    qed
  next
    case kept
    from working_persist_return [OF assms(1) kept] show ?thesis by simp
  qed
qed

lemma rounds_kept_substantive:
  "rounds_kept s s' \<Longrightarrow> round_numbers c' = round_numbers c \<Longrightarrow>
     substantive_in s' cid c' = substantive_in s cid c"
  by (simp add: rounds_kept_def substantive_in_def)

lemma dispatch_round_ok:
  assumes "working s cid c" and "n = next_round c" and "substantive_in s cid c < max_of c"
    and "dispatch_round env d n model c p s = (r, s')"
  shows "store_ok s'"
proof -
  define st0 where "st0 = \<lparr> d_council = c, d_results = [], d_statuses = [], d_fingerprints = [],
      d_findings = [] \<rparr>"
  have run: "cbind (dispatch_one env d n model (p_artifact_hashes p) ''gpt'' (p_gpt p) st0) (\<lambda>st1.
      cbind (dispatch_one env d n model (p_artifact_hashes p) ''codex'' (p_codex p) st1) (\<lambda>st2.
        finish_round env d n p st2)) s = (r, s')"
    using assms(4) by (simp add: dispatch_round_def st0_def)
  have w0: "working s cid (d_council st0)" "n = next_round (d_council st0)"
    using assms(1,2) by (simp_all add: st0_def)
  from run show ?thesis
  proof (cases rule: cbind_cases)
    case (fails e)
    with dispatch_one_ok [OF w0 fails(1)] show ?thesis by simp
  next
    case (goes_on st1 s1)
    from dispatch_one_ok [OF w0 goes_on(1)]
    have w1: "working s1 cid (d_council st1)" "same_skeleton c (d_council st1)"
      and k1: "rounds_kept s s1" by (auto simp: st0_def)
    have n1: "n = next_round (d_council st1)" using same_skeleton_next [OF w1(2)] assms(2) by simp
    from goes_on(2) show ?thesis
    proof (cases rule: cbind_cases)
      case (fails e)
      with dispatch_one_ok [OF w1(1) n1 fails(1)] show ?thesis by simp
    next
      case (goes_on st2 s2)
      from dispatch_one_ok [OF w1(1) n1 goes_on(1)]
      have w2: "working s2 cid (d_council st2)" "same_skeleton (d_council st1) (d_council st2)"
        and k2: "rounds_kept s1 s2" by auto
      have sk: "same_skeleton c (d_council st2)" by (rule same_skeleton_trans [OF w1(2) w2(2)])
      have n2: "n = next_round (d_council st2)" using same_skeleton_next [OF sk] assms(2) by simp
      have "substantive_in s2 cid (d_council st2) = substantive_in s cid c"
        by (rule rounds_kept_substantive [OF rounds_kept_trans [OF k1 k2]])
          (use sk in \<open>simp add: same_skeleton_def\<close>)
      then have "substantive_in s2 cid (d_council st2) < max_of (d_council st2)"
        using assms(3) sk by (simp add: same_skeleton_def max_of_def)
      from finish_round_ok [OF w2(1) n2 this goes_on(2)] show ?thesis .
    qed
  qed
qed

lemma package_standard_ok:
  assumes "working s cid c" and "package_standard env d c ctx ids s = (r, s')"
  shows "store_ok s' \<and> rounds_kept s s' \<and>
    (isl r \<or> (\<exists>c' pk. r = Inr (c', pk) \<and> working s' cid c' \<and> same_skeleton c c'))"
proof -
  have c: "same_skeleton c c"
    using working_council_ok [OF assms(1)] by (simp add: council_ok_def same_skeleton_refl)
  have w: "working s cid (remember_artifacts xs c)" "same_skeleton c (remember_artifacts xs c)" for xs
    unfolding remember_artifacts_def
    by (rule working_jput [OF assms(1)], simp) (rule same_skeleton_jput, simp)
  consider (same) pk where "r = Inr (c, pk)" "s' = s"
    | (wrote) xs pk where "cbind (persist_council d (remember_artifacts xs c))
         (\<lambda>_. creturn (remember_artifacts xs c, pk)) s = (r, s')"
    using assms(2) by (auto simp: package_standard_def Let_def split: if_splits)
  then show ?thesis
  proof cases
    case same
    with assms(1) c show ?thesis by (auto simp: working_def)
  next
    case wrote
    from working_persist_return [OF w(1) wrote] persist_return_rounds_kept [OF wrote] w(2)
    show ?thesis by blast
  qed
qed

lemma run_round_ok:
  assumes "working s cid c" and "substantive_in s cid c < max_of c"
    and "run_round env d c base_context model ids s = (r, s')"
  shows "store_ok s'"
proof -
  define n where "n = next_round c"
  consider (quiet) "s' = s"
    | (audit) rd x where "cbind (save_round d c rd) (\<lambda>_. creturn x) s = (r, s')"
        "int_of (jget rd ''round'') = n" "rd \<noteq> []"
    | (its) req p where "dispatch_round env d n req c p s = (r, s')"
    | (standard) ctx req where "cbind (package_standard env d c ctx ids) (\<lambda>(c', pk).
             case pk of
               Inl r \<Rightarrow> creturn (NotDispatched r)
             | Inr p \<Rightarrow> dispatch_round env d n req c' p) s = (r, s')"
    using assms(3)
    by (auto simp: run_round_def Let_def n_def [symmetric] split: option.splits if_splits sum.splits)
  then show ?thesis
  proof cases
    case quiet
    with assms(1) show ?thesis by (simp add: working_def)
  next
    case audit
    from audit(1) show ?thesis
      by (cases rule: cbind_cases)
        (use save_round_ok [OF assms(1)] audit(2,3) assms(2) in \<open>auto simp: n_def\<close>)
  next
    case its
    from dispatch_round_ok [OF assms(1) n_def assms(2) its] show ?thesis .
  next
    case standard
    from standard show ?thesis
    proof (cases rule: cbind_cases)
      case (fails e)
      with package_standard_ok [OF assms(1) fails(1)] show ?thesis by simp
    next
      case (goes_on x s1)
      from package_standard_ok [OF assms(1) goes_on(1)] obtain c' pk where
        w: "x = (c', pk)" "working s1 cid c'" "same_skeleton c c'" and k: "rounds_kept s s1"
        by auto
      have "n = next_round c'" using same_skeleton_next [OF w(3)] by (simp add: n_def)
      moreover have "substantive_in s1 cid c' < max_of c'"
        using assms(2) w(3) rounds_kept_substantive [OF k, of c' c cid]
        by (simp add: same_skeleton_def max_of_def)
      ultimately show ?thesis
        using goes_on(2) w(1,2) dispatch_round_ok [OF w(2)]
        by (cases pk) (auto simp: working_def)
    qed
  qed
qed

section \<open>Every command keeps the store sound\<close>

lemma load_rounds_ok:
  assumes "council_ok s cid c" and "docs s (CouncilDoc cid) = Some c"
  shows "load_rounds s cid = map (\<lambda>n. the (docs s (RoundDoc cid n))) (round_numbers c)"
    and "substantive_round_count (load_rounds s cid) = substantive_in s cid c"
proof -
  have r: "\<exists>rd. docs s (RoundDoc cid n) = Some rd \<and> rd \<noteq> []" if "n \<in> set (round_numbers c)" for n
    using assms(1) that by (auto simp: council_ok_def rounds_ok_def)
  have *: "filter (\<lambda>rd. rd \<noteq> []) (concat (map (\<lambda>n. case docs s (RoundDoc cid n) of None \<Rightarrow> [] | Some rd \<Rightarrow> [rd]) ns))
      = map (\<lambda>n. the (docs s (RoundDoc cid n))) ns" if "set ns \<subseteq> set (round_numbers c)" for ns
    using that by (induction ns) (auto dest: r)
  have "c \<noteq> []" using assms(1) by (simp add: council_ok_def)
  then show l: "load_rounds s cid = map (\<lambda>n. the (docs s (RoundDoc cid n))) (round_numbers c)"
    using * [of "round_numbers c"] assms(2) by (simp add: load_rounds_def load_council_def)
  have "filter (\<lambda>n. is_substantive (the (docs s (RoundDoc cid n)))) (round_numbers c) =
      filter (\<lambda>n. case docs s (RoundDoc cid n) of None \<Rightarrow> False | Some rd \<Rightarrow> is_substantive rd)
        (round_numbers c)"
    by (intro filter_cong refl) (auto dest: r)
  then show "substantive_round_count (load_rounds s cid) = substantive_in s cid c"
    by (simp add: l substantive_round_count_def substantive_in_def filter_map comp_def)
qed

lemma review_command_ok:
  assumes "store_ok s" and "load_council s cid = Some c"
    and "review_command env d c ctx model ids s = (r, s')"
  shows "store_ok s'"
proof -
  have c: "docs s (CouncilDoc cid) = Some c" using assms(2) by (simp add: load_council_def)
  have ok: "council_ok s cid c" by (rule store_okD(1) [OF assms(1) c])
  have mx: "int_of (get_or c ''max_rounds'' (JInt DEFAULT_MAX_ROUNDS)) = max_of c"
    using ok jget_nonnull_has [of c "''max_rounds''"]
    by (auto simp: council_ok_def bounds_ok_def max_of_def get_or_def)
  have id: "council_id_of c = cid" using ok by (simp add: council_ok_def)
  show ?thesis
  proof (cases "max_of c \<le> substantive_in s cid c")
    case True
    then show ?thesis
      using assms(1,3) by (simp add: review_command_def mx id load_rounds_ok(2) [OF ok c])
  next
    case False
    then have "cbind (run_round env d c ctx model ids) (\<lambda>r. creturn (Some r)) s = (r, s')"
      using assms(3) by (simp add: review_command_def mx id load_rounds_ok(2) [OF ok c])
    then show ?thesis
      using run_round_ok [OF working_start [OF assms(1,2)]] False
      by (auto elim!: cbind_cases)
  qed
qed

lemma new_council_fields:
  assumes "new_council sha now a = Inr c"
  shows "council_id_of c = a_council_id a" "c \<noteq> []" "bounds_ok c" "round_numbers c = []"
    "attempts_of c key = fresh_attempts" "0 \<le> max_of c"
proof -
  obtain sens lane where l: "resolve_lane (a_data_sensitivity a) = (sens, lane)" by fastforce
  have b: "2 \<le> a_min_rounds a" "a_min_rounds a \<le> a_max_rounds a" "a_max_rounds a \<le> 5"
    using assms
    by (auto simp: new_council_def sbind_Inr_iff clamp_rounds_def MIN_ROUNDS_FLOOR_def
        MAX_ROUNDS_CEILING_def split: if_splits)
  have cl: "clamp_rounds (a_min_rounds a) (a_max_rounds a) = Inr (a_min_rounds a, a_max_rounds a)"
    using b by (simp add: clamp_rounds_def MIN_ROUNDS_FLOOR_def MAX_ROUNDS_CEILING_def)
  note c = assms [unfolded new_council_def cl sbind_simps prod.case l Let_def sum.inject, symmetric]
  show "council_id_of c = a_council_id a" "c \<noteq> []" "bounds_ok c" "round_numbers c = []"
    "attempts_of c key = fresh_attempts" "0 \<le> max_of c"
    using b by (simp_all add: c council_id_of_def bounds_ok_def round_numbers_def attempts_of_def
        max_of_def jget_Cons get_or_def jhas_def)
qed

lemma create_ok:
  assumes "store_ok s" and "load_council s (a_council_id a) = None"
    and "create_council d sha now a s = (r, s')"
  shows "store_ok s'"
proof (cases "new_council sha now a")
  case (Inl e)
  with assms(1,3) show ?thesis by (simp add: create_council_def)
next
  case (Inr c)
  note f = new_council_fields [OF Inr]
  let ?cid = "a_council_id a"
  have w: "cbind (atomic_write_json d (CouncilDoc ?cid) c) (\<lambda>_. creturn c) s = (r, s')"
    using assms(3) Inr by (simp add: create_council_def)
  have none: "calls_made s ?cid n who = 0" for n who
    using assms(1,2) by (intro store_okD(2)) (simp_all add: load_council_def)
  from write_return_effect [OF w]
  consider (wrote) "docs s' = (docs s)(CouncilDoc ?cid \<mapsto> c)" "sent s' = sent s"
    | (kept) "docs s' = docs s" "sent s' = sent s" by auto
  then show ?thesis
  proof cases
    case wrote
    have "calls_of fresh_attempts = 0" "attempt_limit fresh_attempts = 2"
      by (simp_all add: fresh_attempts_def calls_of_def attempt_limit_def granted_extra_def
          jget_Cons MAX_ATTEMPTS_PER_ROUND_def)
    then have "council_ok s' ?cid c"
      using f none calls_made_same [OF wrote(2)]
      by (simp add: council_ok_def budget_ok_def rounds_ok_def substantive_in_def index_ok_def
          exI [of _ "0::nat"])
    then show ?thesis
      by (intro store_ok_change [OF assms(1), of s' ?cid c])
        (simp_all add: wrote calls_made_same [OF wrote(2)])
  next
    case kept
    with store_ok_same [OF assms(1)] show ?thesis .
  qed
qed

text \<open>Replacing the file of a round that is in the index by one of the same number and kind.\<close>

lemma store_ok_replace_round:
  assumes "store_ok s" and "docs s (CouncilDoc cid) = Some c" and "n \<in> set (round_numbers c)"
    and "docs s (RoundDoc cid n) = Some old" and "is_substantive rd = is_substantive old"
    and "int_of (jget rd ''round'') = n" and "rd \<noteq> []"
    and "docs s' = (docs s)(RoundDoc cid n \<mapsto> rd)" and "sent s' = sent s"
  shows "store_ok s'"
proof -
  have ok: "council_ok s cid c" by (rule store_okD(1) [OF assms(1,2)])
  have "(\<lambda>m. case docs s' (RoundDoc cid m) of None \<Rightarrow> False | Some rd \<Rightarrow> is_substantive rd) =
      (\<lambda>m. case docs s (RoundDoc cid m) of None \<Rightarrow> False | Some rd \<Rightarrow> is_substantive rd)"
    using assms(4,5,8) by (auto simp: fun_eq_iff)
  then have "substantive_in s' cid c = substantive_in s cid c" by (simp add: substantive_in_def)
  moreover have "budget_ok s' cid c"
    using ok calls_made_same [OF assms(9)] by (simp add: council_ok_def budget_ok_def)
  moreover have "rounds_ok s' cid c"
    using ok assms(6,7,8) by (auto simp: council_ok_def rounds_ok_def)
  ultimately have "council_ok s' cid c" using ok by (simp add: council_ok_def)
  then show ?thesis
    by (intro store_ok_change [OF assms(1), of s' cid c])
      (use assms(2,8) in \<open>simp_all add: calls_made_same [OF assms(9)]\<close>)
qed

lemma its_reconciliation_facts [simp]:
  "jget (with_its_reconciliation aid rd) ''round'' = jget rd ''round''"
  "is_substantive (with_its_reconciliation aid rd) = is_substantive rd"
  "with_its_reconciliation aid rd \<noteq> []"
  by (simp_all add: with_its_reconciliation_def Let_def is_substantive_def)

lemma is_substantive_jput [simp]:
  "k \<noteq> ''substantive'' \<Longrightarrow> is_substantive (jput k v rd) = is_substantive rd"
  by (simp add: is_substantive_def)

lemma attach_ok:
  assumes "store_ok s" and "load_council s cid = Some c"
    and "attach_reconciliation d residue register c recon s = (r, s')"
  shows "store_ok s'"
proof -
  have c: "docs s (CouncilDoc cid) = Some c" using assms(2) by (simp add: load_council_def)
  have ok: "council_ok s cid c" by (rule store_okD(1) [OF assms(1) c])
  then have id: "council_id_of c = cid" by (simp add: council_ok_def)
  let ?rounds = "filter is_substantive (load_rounds s cid)"
  consider (quiet) "s' = s"
    | (saved) rd where "cbind (save_round d c rd) (\<lambda>_. creturn rd) s = (r, s')" "?rounds \<noteq> []"
        "jget rd ''round'' = jget (last ?rounds) ''round''"
        "is_substantive rd = is_substantive (last ?rounds)" "rd \<noteq> []"
    using assms(3)
    by (auto simp: attach_reconciliation_def Let_def id split: if_splits sum.splits option.splits)
  then show ?thesis
  proof cases
    case quiet
    with assms(1) show ?thesis by simp
  next
    case saved
    have "last ?rounds \<in> set (load_rounds s cid)" using last_in_set [OF saved(2)] by simp
    then obtain n where n: "n \<in> set (round_numbers c)" "last ?rounds = the (docs s (RoundDoc cid n))"
      using load_rounds_ok(1) [OF ok c] by auto
    then obtain old where old: "docs s (RoundDoc cid n) = Some old" "int_of (jget old ''round'') = n"
      using ok by (auto simp: council_ok_def rounds_ok_def)
    have rd: "int_of (jget rd ''round'') = n" "is_substantive rd = is_substantive old"
      using saved(3,4) n old by simp_all
    obtain r1 s1 where s1: "save_round d c rd s = (r1, s1)" by fastforce
    from save_round_effect [OF s1] n(1) rd(1) id
    have "(docs s1 = docs s \<or> docs s1 = (docs s)(RoundDoc cid n \<mapsto> rd)) \<and> sent s1 = sent s" by auto
    then have "store_ok s1"
      using store_ok_same [OF assms(1)]
        store_ok_replace_round [OF assms(1) c n(1) old(1) rd(2,1) saved(5)] by blast
    moreover have "s' = s1" using saved(1) s1 by (auto elim!: cbind_cases)
    ultimately show ?thesis by simp
  qed
qed

lemma update_ok:
  assumes "store_ok s" and "load_council s cid = Some c"
    and "working s cid c \<Longrightarrow> working s cid c'"
    and "cbind (persist_council d c') (\<lambda>_. creturn x) s = (r, s')"
  shows "store_ok s'"
  using working_persist_return [OF assms(3) [OF working_start [OF assms(1,2)]] assms(4)] by simp

lemma scope_ok:
  assumes "store_ok s" and "load_council s cid = Some c" and "set_approved_scope d sha c scope s = (r, s')"
  shows "store_ok s'"
proof -
  consider "s' = s" | c' where "cbind (persist_council d c') (\<lambda>_. creturn c') s = (r, s')"
      "c' = jput ''approved_scope_sha256'' (scope_hash sha scope)
              (jput ''approved_scope'' (JStr (py_str scope)) c)"
    using assms(3) by (auto simp: set_approved_scope_def Let_def split: if_splits sum.splits)
  then show ?thesis
  proof cases
    case 2
    show ?thesis
      by (rule update_ok [OF assms(1,2) _ 2(1)]) (auto simp: 2(2) intro!: working_jput)
  qed (use assms(1) in simp)
qed

lemma grant_ok:
  assumes "store_ok s" and "load_council s cid = Some c"
    and "grant_attempts d now msgs c who mid extra s = (g, s')"
  shows "store_ok s'"
proof -
  define n key st where "n = next_round c" and "key = attempt_key n who" and "st = attempts_of c key"
  consider (quiet) "s' = s"
    | (granted) m e where "1 \<le> e"
        "cbind (persist_council d (put_attempts key (jput ''grants'' (JArr (arr_of (jget st ''grants'') @
           [grant_record m now mid e (calls_of st)])) st) c)) (\<lambda>_. creturn (Granted n)) s = (g, s')"
    using assms(3)
    by (auto simp: grant_attempts_def Let_def n_def key_def st_def split: if_splits option.splits list.splits)
  then show ?thesis
  proof cases
    case quiet
    with assms(1) show ?thesis by simp
  next
    case granted
    let ?st' = "jput ''grants'' (JArr (arr_of (jget st ''grants'') @ [grant_record m now mid e (calls_of st)])) st"
    have calls: "calls_of ?st' = calls_of st" by (simp add: calls_of_def)
    have "granted_extra ?st' = granted_extra st + e"
      by (simp add: granted_extra_def grant_record_def jget_Cons)
    then have lim: "attempt_limit st \<le> attempt_limit ?st'" using granted(1) by (simp add: attempt_limit_def)
    show ?thesis
    proof (rule update_ok [OF assms(1,2) _ granted(2)])
      assume w: "working s cid c"
      then have b: "budget_ok s cid c" by (simp add: working_def)
      then have "calls_of st \<le> attempt_limit st" by (simp add: budget_ok_def st_def key_def n_def)
      with lim calls have "budget_ok s cid (put_attempts key ?st' c)"
        by (intro budget_ok_put_attempts [OF b]) (simp_all add: st_def)
      then show "working s cid (put_attempts key ?st' c)"
        by (rule working_edit [OF w same_skeleton_put_attempts])
    qed
  qed
qed

lemma outcome_ok:
  assumes "store_ok s" and "save_outcome d cid oc s = (u, s')"
  shows "store_ok s'"
proof -
  from atomic_write_effect [OF assms(2) [unfolded save_outcome_def]]
  have d: "\<forall>p. p \<noteq> OutcomeDoc cid \<longrightarrow> docs s' p = docs s p" and t: "sent s' = sent s" by auto
  show ?thesis
    unfolding store_ok_def
  proof (intro conjI allI impI)
    fix cid2 c
    assume "docs s' (CouncilDoc cid2) = Some c"
    then have "council_ok s cid2 c" using d by (intro store_okD(1) [OF assms(1)]) simp
    then show "council_ok s' cid2 c"
      by (rule council_ok_frame) (simp_all add: d calls_made_same [OF t])
  next
    fix cid2 n who
    assume "docs s' (CouncilDoc cid2) = None"
    then show "calls_made s' cid2 n who = 0"
      using d store_okD(2) [OF assms(1)] by (simp add: calls_made_same [OF t])
  qed
qed

lemma step_ok: "council_step s s' \<Longrightarrow> store_ok s \<Longrightarrow> store_ok s'"
proof (induction rule: council_step.induct)
  case (stamp s cid c d digest r s')
  show ?case
    by (rule update_ok [OF stamp.prems stamp.hyps(1) _ stamp.hyps(2) [unfolded stamp_context_def Let_def]])
      (auto intro!: working_jput)
next
  case (lineage s cid c d l k b r s')
  show ?case
    by (rule update_ok [OF lineage.prems lineage.hyps(1) _ lineage.hyps(2) [unfolded set_lineage_def Let_def]])
      (auto intro!: working_jput)
qed (auto intro: create_ok review_command_ok attach_ok scope_ok grant_ok outcome_ok)

interpretation council_runs: kept_by_steps council_step store_ok
  by unfold_locales (rule step_ok)

lemma reachable_ok: "reachable_councils s s' \<Longrightarrow> store_ok s \<Longrightarrow> store_ok s'"
  unfolding reachable_councils_def by (rule council_runs.run_keeps)

definition no_councils :: cstore where
  "no_councils = \<lparr> docs = (\<lambda>_. None), clock = 0, sent = [] \<rparr>"

lemma no_councils_ok: "store_ok no_councils"
  by (simp add: store_ok_def no_councils_def calls_made_def)

end
