(* ===== verification/Council_Safety.thy ===== *)
theory Council_Safety
  imports Council_System
begin

text \<open>
  The properties of the council store over time, with a concrete run as their witness: round
  bounds, the round index, the attempt budget and the commit of a round.
\<close>

section \<open>A run of one council\<close>

definition quiet_disk :: disk where
  "quiet_disk = \<lparr> token_refused = (\<lambda>_. False), staging_fails = (\<lambda>_. False),
     rename_at = (\<lambda>n. if n mod 5 = 1 then Contended else Renamed) \<rparr>"

definition demo_args :: council_args where
  "demo_args = \<lparr> a_thread_id = JStr ''t1'', a_work_item_id = JNull, a_packet_id = JNull,
     a_phase = JStr ''plan'', a_min_rounds = 2, a_max_rounds = 3, a_model = JNull,
     a_council_id = ''c1'', a_approved_scope = JStr ''docs'', a_review_profile = JStr ''code'',
     a_data_sensitivity = JStr ''standard'', a_lineage = JNull, a_lineage_candidate = JNull,
     a_source_bindings = JNull \<rparr>"

text \<open>The codex adapter fails on its first call and answers on its second.\<close>

definition demo_env :: review_env where
  "demo_env = \<lparr> now_at = (\<lambda>n. replicate n (CHR ''t'')), sha_text = id, sha_json = (\<lambda>_. ''h''),
     adapter = (\<lambda>n who p. if who = ''codex'' \<and> n < 12 then JObj [(''ok'', JBool False), (''error'', JStr ''timeout'')]
        else demo_slot who),
     adapter_version = (\<lambda>_. ''1''), residue_hit = (\<lambda>_. False), register_finding = (\<lambda>_ _. None),
     build_context = (\<lambda>_ _ b. b), its_package = (\<lambda>_ _ _. Inl (ItsBlocked [])),
     artifact_sha = (\<lambda>_. None), inline_rendering = id, excerpt_pack = (\<lambda>_ _ a. a),
     codex_reference = concat, capability_statement = ''text only'', instruction = ''review'',
     budget_override = (\<lambda>_. JNull) \<rparr>"

definition demo_created :: cstore where
  "demo_created = snd (create_council quiet_disk id ''t0'' demo_args no_councils)"

definition demo_council_doc :: jobj where
  "demo_council_doc = the (load_council demo_created ''c1'')"

definition demo_run :: "(cexc + report option) \<times> cstore" where
  "demo_run = review_command demo_env quiet_disk demo_council_doc ''plan text'' JNull [] demo_created"

lemma demo_created_loads: "load_council demo_created ''c1'' \<noteq> None"
  by code_simp

lemma demo_run_commits:
  "fst demo_run = Inr (Some (Committed 1 [(''gpt'', ''review''), (''codex'', ''review'')]))"
  by code_simp

lemma demo_run_reachable: "reachable_councils no_councils (snd demo_run)"
proof -
  have "council_step no_councils demo_created"
    by (rule council_step.create [of no_councils demo_args quiet_disk id "''t0''"
          "fst (create_council quiet_disk id ''t0'' demo_args no_councils)"])
      (simp_all add: demo_created_def, simp add: no_councils_def load_council_def)
  moreover have "council_step demo_created (snd demo_run)"
    by (rule council_step.review [of demo_created "''c1''" demo_council_doc demo_env quiet_disk
          "''plan text''" JNull "[]" "fst demo_run"])
      (use demo_created_loads in \<open>auto simp: demo_council_doc_def demo_run_def\<close>)
  ultimately show ?thesis unfolding reachable_councils_def by (meson rtranclp.simps)
qed

lemma demo_run_state:
  "map_option round_numbers (load_council (snd demo_run) ''c1'') = Some [1]"
  "map (\<lambda>(c, n, w, p). (c, n, w)) (sent (snd demo_run)) =
     [(''c1'', 1, ''gpt''), (''c1'', 1, ''codex''), (''c1'', 1, ''codex'')]"
  by (code_simp, code_simp)

section \<open>Bounds, index and budget\<close>



text \<open>the index of rounds is always 1, 2, ..., k and every round in it has its file, which
  records that number: a crash between the two writes of \<open>save_round\<close> leaves at most a file the
  index does not name, never an entry without its round.\<close>

theorem round_index_complete:
  assumes "reachable_councils no_councils s" and "load_council s cid = Some c"
  shows "map (\<lambda>rd. int_of (jget rd ''round'')) (load_rounds s cid) = round_numbers c \<and>
    (\<exists>k. round_numbers c = map int [1..<Suc k])"
proof -
  have c: "docs s (CouncilDoc cid) = Some c" using assms(2) by (simp add: load_council_def)
  have ok: "council_ok s cid c" by (rule store_okD(1) [OF reachable_ok [OF assms(1) no_councils_ok] c])
  then have "map (\<lambda>rd. int_of (jget rd ''round'')) (load_rounds s cid) = map (\<lambda>n. n) (round_numbers c)"
    unfolding load_rounds_ok(1) [OF ok c] map_map
    by (intro map_cong refl) (auto simp: council_ok_def rounds_ok_def)
  with ok show ?thesis by (simp add: council_ok_def index_ok_def)
qed

theorem round_index_complete_witness:
  "map (\<lambda>rd. int_of (jget rd ''round'')) (load_rounds (snd demo_run) ''c1'') = [1]"
  using round_index_complete [OF demo_run_reachable, of "''c1''"] demo_run_state(1) by auto

text \<open>C8: for the current round of a council, the packets ever sent to a reviewer are at most two
  plus the attempts an operator granted for that round, counted over all invocations, crashes and
  refused writes, because the counter is stored before each call.\<close>

theorem attempts_within_budget:
  assumes "reachable_councils no_councils s" and "load_council s cid = Some c"
  shows "calls_made s cid (next_round c) who
    \<le> MAX_ATTEMPTS_PER_ROUND + granted_extra (attempts_of c (attempt_key (next_round c) who))"
proof -
  have "council_ok s cid c"
    using assms by (intro store_okD(1) [OF reachable_ok [OF assms(1) no_councils_ok]])
      (simp add: load_council_def)
  then have "calls_made s cid (next_round c) who \<le> calls_of (attempts_of c (attempt_key (next_round c) who))"
      "calls_of (attempts_of c (attempt_key (next_round c) who)) \<le>
       attempt_limit (attempts_of c (attempt_key (next_round c) who))"
    by (simp_all add: council_ok_def budget_ok_def)
  then show ?thesis by (simp add: attempt_limit_def)
qed

theorem attempts_within_budget_witness:
  "\<exists>c. load_council (snd demo_run) ''c1'' = Some c \<and>
     calls_made (snd demo_run) ''c1'' (next_round c) ''codex''
       \<le> MAX_ATTEMPTS_PER_ROUND + granted_extra (attempts_of c (attempt_key (next_round c) ''codex''))"
  using attempts_within_budget [OF demo_run_reachable, of "''c1''"] demo_run_state(1) by auto

section \<open>What a commit stores\<close>

definition statuses_true :: "dispatching \<Rightarrow> bool" where
  "statuses_true st \<longleftrightarrow> (\<forall>w. (w, ''review'') \<in> set (d_statuses st) \<longrightarrow>
     (\<exists>r. map_of (d_results st) w = Some r \<and> validated r)) \<and>
     map fst (d_statuses st) = map fst (d_results st) \<and> distinct (map fst (d_results st))"

lemma statuses_true_record:
  assumes "statuses_true st" and "who \<notin> set (map fst (d_results st))"
    and "status = ''review'' \<Longrightarrow> validated r"
  shows "statuses_true (record_result who fp r status aid st)"
  unfolding statuses_true_def
proof (intro conjI allI impI)
  let ?st = "record_result who fp r status aid st"
  have "map_of (d_results st) who = None" using assms(2) by (simp add: map_of_eq_None_iff)
  then have new: "map_of (d_results ?st) who = Some r" by (simp add: record_result_def map_add_def)
  fix w
  assume "(w, ''review'') \<in> set (d_statuses ?st)"
  then consider "(w, ''review'') \<in> set (d_statuses st)" | "w = who" "status = ''review''"
    by (auto simp: record_result_def)
  then show "\<exists>x. map_of (d_results ?st) w = Some x \<and> validated x"
  proof cases
    case 1
    with assms(1) obtain x where x: "map_of (d_results st) w = Some x" "validated x"
      by (auto simp: statuses_true_def)
    then have "map_of (d_results ?st) w = Some x" by (simp add: record_result_def map_add_def)
    with x(2) show ?thesis by blast
  next
    case 2
    with new assms(3) show ?thesis by blast
  qed
next
  show "map fst (d_statuses (record_result who fp r status aid st)) =
      map fst (d_results (record_result who fp r status aid st))"
    using assms(1) by (simp add: statuses_true_def record_result_def)
  show "distinct (map fst (d_results (record_result who fp r status aid st)))"
    using assms(1,2) by (simp add: statuses_true_def record_result_def)
qed

lemma loop_status_review: "loop_status r discarded = ''review'' \<Longrightarrow> validated r"
  by (auto simp: loop_status_def split: if_splits)

lemma record_result_results [simp]:
  "d_results (record_result who fp r status aid st) = d_results st @ [(who, r)]"
  by (simp add: record_result_def)

lemma dispatch_one_statuses:
  assumes "dispatch_one env d n model hashes who packet st s = (Inr st', s')"
    and "statuses_true st" and "who \<notin> set (map fst (d_results st))"
  shows "statuses_true st' \<and> map fst (d_results st') = map fst (d_results st) @ [who]"
proof -
  have c: "statuses_true (st\<lparr>d_council := c\<rparr>)" for c
  proof -
    have "statuses_true (st\<lparr>d_council := c\<rparr>) = statuses_true st" by (simp add: statuses_true_def)
    with assms(2) show ?thesis by simp
  qed
  consider (discarded) fp where "st' = record_result who fp JNull ''residue_blocked'' [] st"
    | (cached) fp r aid where "st' = record_result who fp r ''review'' aid st" "validated r"
    | (loop) fp c r x aid where "st' = record_result who fp r (loop_status r x) aid (st\<lparr>d_council := c\<rparr>)"
    using assms(1)
    by (auto simp: dispatch_one_def Let_def cbind_Inr_iff split: if_splits option.splits)
  then show ?thesis
  proof cases
    case discarded
    then show ?thesis
      using statuses_true_record [OF assms(2,3), of "''residue_blocked''" JNull fp "[]"] by simp
  next
    case cached
    then show ?thesis
      using statuses_true_record [OF assms(2,3), of "''review''" r fp aid] by simp
  next
    case loop
    then show ?thesis
      using statuses_true_record [OF c, of who c "loop_status r x" r] assms(3) loop_status_review by simp
  qed
qed

lemma save_round_writes:
  assumes "save_round d c rd s = (Inr c', s')"
  shows "docs s' (RoundDoc (council_id_of c) (int_of (jget rd ''round''))) = Some rd"
  using save_round_effect [OF assms] by auto

lemma finish_round_commits:
  assumes "finish_round env d n p st s = (Inr (Committed m sts), s')"
    and "statuses_true st" and "map fst (d_results st) = [''gpt'', ''codex'']"
  shows "m = n \<and> (\<exists>rd. docs s' (RoundDoc (council_id_of (d_council st)) n) = Some rd \<and>
    is_substantive rd \<and> validated (jget rd ''gpt'') \<and> validated (jget rd ''codex''))"
proof -
  have all: "list_all (\<lambda>(w, v). v = ''review'') (d_statuses st)"
    and run: "cbind (save_round d (d_council st) (review_round n (now_at env (clock s)) p st)) (\<lambda>c'.
          cbind (persist_council d (clear_round n c')) (\<lambda>_. creturn (Committed n (d_statuses st)))) s
       = (Inr (Committed m sts), s')"
    using assms(1) by (auto simp: finish_round_def Let_def cbind_Inr_iff split: if_splits)
  have "map fst (d_statuses st) = [''gpt'', ''codex'']" using assms(2,3) by (simp add: statuses_true_def)
  then have "(''gpt'', ''review'') \<in> set (d_statuses st) \<and> (''codex'', ''review'') \<in> set (d_statuses st)"
    using all by (cases "d_statuses st"; cases "tl (d_statuses st)") auto
  then have v: "validated (result_of st ''gpt'')" "validated (result_of st ''codex'')"
    using assms(2) by (auto simp: statuses_true_def result_of_def)
  let ?rd = "review_round n (now_at env (clock s)) p st"
  obtain c' s1 where save: "save_round d (d_council st) ?rd s = (Inr c', s1)"
    and p: "cbind (persist_council d (clear_round n c')) (\<lambda>_. creturn (Committed n (d_statuses st))) s1
       = (Inr (Committed m sts), s')"
    using run by (auto simp: cbind_Inr_iff)
  have "docs s1 (RoundDoc (council_id_of (d_council st)) n) = Some ?rd"
    using save_round_writes [OF save] by simp
  moreover have "rounds_kept s1 s'" by (rule persist_return_rounds_kept [OF p])
  moreover have "m = n" using p by (auto simp: cbind_Inr_iff)
  moreover have "is_substantive ?rd" "jget ?rd ''gpt'' = result_of st ''gpt''"
      "jget ?rd ''codex'' = result_of st ''codex''"
    by (simp_all add: review_round_def is_substantive_def get_or_def jhas_def jget_Cons)
  ultimately show ?thesis using v by (simp add: rounds_kept_def)
qed

lemma dispatch_round_commits:
  assumes "working s cid c" and "n = next_round c"
    and "dispatch_round env d n model c p s = (Inr (Committed m sts), s')"
  shows "m = n \<and> (\<exists>rd. docs s' (RoundDoc cid n) = Some rd \<and> is_substantive rd \<and>
    validated (jget rd ''gpt'') \<and> validated (jget rd ''codex''))"
proof -
  define st0 where "st0 = \<lparr> d_council = c, d_results = [], d_statuses = [], d_fingerprints = [],
      d_findings = [] \<rparr>"
  obtain st1 s1 st2 s2 where
    d1: "dispatch_one env d n model (p_artifact_hashes p) ''gpt'' (p_gpt p) st0 s = (Inr st1, s1)"
    and d2: "dispatch_one env d n model (p_artifact_hashes p) ''codex'' (p_codex p) st1 s1 = (Inr st2, s2)"
    and f: "finish_round env d n p st2 s2 = (Inr (Committed m sts), s')"
    using assms(3) by (auto simp: dispatch_round_def st0_def [symmetric] cbind_Inr_iff)
  have w0: "working s cid (d_council st0)" "n = next_round (d_council st0)"
    using assms(1,2) by (simp_all add: st0_def)
  from dispatch_one_ok [OF w0 d1]
  have w1: "working s1 cid (d_council st1)" "same_skeleton (d_council st0) (d_council st1)" by auto
  then have n1: "n = next_round (d_council st1)" using same_skeleton_next w0(2) by metis
  from dispatch_one_ok [OF w1(1) n1 d2] have w2: "working s2 cid (d_council st2)" by auto
  then have id: "council_id_of (d_council st2) = cid"
    using working_council_ok by (simp add: council_ok_def)
  have "statuses_true st0" by (simp add: st0_def statuses_true_def)
  from dispatch_one_statuses [OF d1 this]
  have t1: "statuses_true st1" "map fst (d_results st1) = [''gpt'']" by (simp_all add: st0_def)
  from dispatch_one_statuses [OF d2 t1(1)] t1(2)
  have t2: "statuses_true st2" "map fst (d_results st2) = [''gpt'', ''codex'']"
    by (simp_all add: t1(2) flip: set_map)
  from finish_round_commits [OF f t2] id show ?thesis by simp
qed


lemma demo_created_reachable: "reachable_councils no_councils demo_created"
  unfolding reachable_councils_def
  by (rule r_into_rtranclp, rule council_step.create [of no_councils demo_args quiet_disk id "''t0''"
          "fst (create_council quiet_disk id ''t0'' demo_args no_councils)"])
    (simp_all add: demo_created_def, simp add: no_councils_def load_council_def)


section \<open>Grants and audit rounds\<close>

text \<open>A council whose codex budget is spent, and one message that authorises a retry.\<close>

definition spent_council :: jobj where
  "spent_council = put_attempts (attempt_key 1 ''codex'')
     [(''calls'', JInt 2), (''grants'', JArr []), (''last_call_at'', JStr ''t1'')] demo_council_doc"

definition retry_message :: jobj where
  "retry_message = [(''message_id'', JStr ''m1''), (''direction'', JStr ''inbound''),
     (''role'', JStr ''operator''), (''at'', JStr ''t2''), (''message'', JStr ''Council c1: retry codex once'')]"

definition spent_store :: cstore where
  "spent_store = no_councils\<lparr>docs := [CouncilDoc ''c1'' \<mapsto> spent_council]\<rparr>"

definition grant_once :: "cstore \<Rightarrow> grant_result option \<times> cstore" where
  "grant_once s = (case grant_attempts quiet_disk ''t3'' [retry_message]
       (the (load_council s ''c1'')) ''codex'' (JStr ''m1'') (JInt 2) s of
     (Inr g, s') \<Rightarrow> (Some g, s') | (Inl _, s') \<Rightarrow> (None, s'))"

text \<open>The check "not exhausted" adds the granted attempts to the calls made instead of to the
  limit, so an unused grant counts as spent: the same message is accepted twice and the budget
  becomes six although only two calls were made.\<close>

lemma unused_grants_stack:
  "fst (grant_once spent_store) = Some (Granted 1)"
  "fst (grant_once (snd (grant_once spent_store))) = Some (Granted 1)"
  "map_option (\<lambda>c. attempt_limit (attempts_of c (attempt_key 1 ''codex'')))
     (load_council (snd (grant_once (snd (grant_once spent_store)))) ''c1'') = Some 6"
  by (code_simp, code_simp, code_simp)

end
