(* ===== verification/Writer_Lock.thy ===== *)
theory Writer_Lock
  imports Os_Files Py_Access
begin

text \<open>
  Writer and archive mutual exclusion (\<open>tools/clearwright_writer_lock.py\<close>): liveness of a recorded
  owner, recovery of a stale exclusive flag, writer tokens and the archive-exclusive flag.

  A critical section runs under \<open>registry.lock\<close>, an operating-system lock, so each operation below
  is one step on the state of \<open>locks/\<close>: the token files by their name, the exclusive flag and the
  recovery records. What the operating system answers during a step is the record \<open>os_view\<close>, and
  which of its file operations succeed is \<open>io\<close>; both are arbitrary. Path questions about the
  archive tree (containment after resolution, existence, directory listings) are in \<open>archive_view\<close>.
\<close>

section \<open>Liveness\<close>

datatype life = Live | Dead | Indeterminate

record os_view =
  this_host :: string
  on_windows :: bool
  pid_exists :: "int \<Rightarrow> bool option"
  signaled :: "int \<Rightarrow> bool option"
  exit_recorded :: "int \<Rightarrow> bool"
  start_time :: "int \<Rightarrow> string option"

text \<open>A process number as the system calls accept it; another type raises \<open>TypeError\<close>.\<close>

fun pid_number :: "json \<Rightarrow> int option" where
  "pid_number (JInt i) = Some i"
| "pid_number (JBool b) = Some (if b then 1 else 0)"
| "pid_number _ = None"

definition judge :: "os_view \<Rightarrow> int \<Rightarrow> json \<Rightarrow> life" where
  "judge os pid proc_start =
     (case pid_exists os pid of
        None \<Rightarrow> Indeterminate
      | Some False \<Rightarrow> Dead
      | Some True \<Rightarrow>
          if on_windows os \<and> signaled os pid = Some True \<and> exit_recorded os pid then Dead
          else (case start_time os pid of
              None \<Rightarrow> Indeterminate
            | Some current \<Rightarrow>
                if proc_start = JNull then Indeterminate
                else if current \<noteq> py_str proc_start then Dead else Live))"

definition liveness :: "os_view \<Rightarrow> json \<Rightarrow> json \<Rightarrow> json \<Rightarrow> pyexc + life" where
  "liveness os pid host proc_start =
     (if \<not> truthy pid \<or> host \<noteq> JStr (this_host os) then Inr Indeterminate
      else case pid_number pid of
        None \<Rightarrow> Inl TypeError
      | Some p \<Rightarrow> Inr (judge os p proc_start))"

text \<open>\<open>_self_owner\<close>: an unreadable start time is recorded as the text \<open>None\<close>.\<close>

definition self_owner :: "os_view \<Rightarrow> int \<Rightarrow> json \<times> json \<times> json" where
  "self_owner os me = (JInt me, JStr (this_host os),
     JStr (case start_time os me of None \<Rightarrow> ''None'' | Some t \<Rightarrow> t))"

section \<open>State\<close>

record locks =
  tokens :: "string \<Rightarrow> content option"
  flag :: "content option"
  recovery :: "(string \<times> jobj) list"

record io =
  record_writes :: bool
  flag_removed :: bool
  token_written :: bool
  flag_written :: bool
  token_removed :: "string \<Rightarrow> bool"
  token_read :: "string \<Rightarrow> bool"

datatype listing = NotADirectory | Unreadable | Entries "string list"

record archive_view =
  is_abs :: "string \<Rightarrow> bool"
  base_of :: "string \<Rightarrow> string"
  inside_archive :: "string \<Rightarrow> bool"
  is_file :: "string \<Rightarrow> bool"
  archive_listing :: listing
  month_listing :: "string \<Rightarrow> listing"

text \<open>\<open>_read_json\<close> of a file that may be absent or torn.\<close>

definition read_doc :: "content option \<Rightarrow> json" where
  "read_doc f = (case f of Some (Doc j) \<Rightarrow> j | _ \<Rightarrow> JNull)"

section \<open>Recovery of a stale exclusive flag\<close>

definition PID_MAX :: int where "PID_MAX = 0x7FFFFFFF"

definition flag_identity_ok :: "jobj \<Rightarrow> bool" where
  "flag_identity_ok rec =
     ((case jget rec ''pid'' of JInt p \<Rightarrow> 0 < p \<and> p \<le> PID_MAX | _ \<Rightarrow> False) \<and>
      (case jget rec ''host'' of JStr h \<Rightarrow> h \<noteq> [] | _ \<Rightarrow> False) \<and>
      (case jget rec ''proc_start'' of JStr t \<Rightarrow> t \<noteq> [] | _ \<Rightarrow> False))"

datatype claim_state = ClaimAbsent | ClaimInvalid | Outstanding | Resolved

definition pending_path_state :: "archive_view \<Rightarrow> jobj \<Rightarrow> claim_state" where
  "pending_path_state av rec =
     (if \<not> jhas rec ''pending_path'' then ClaimAbsent
      else case (jget rec ''pending_path'', jget rec ''opid'') of
        (JStr p, JStr opid) \<Rightarrow>
          if p = [] \<or> opid = [] \<or> \<not> is_abs av p \<or>
             base_of av p \<noteq> ''pending-'' @ opid @ ''.json'' \<or> \<not> inside_archive av p
          then ClaimInvalid
          else if is_file av p then Outstanding else Resolved
      | _ \<Rightarrow> ClaimInvalid)"

text \<open>\<open>^pending-.+\.json$\<close>: the dollar also matches before one final newline.\<close>

definition pending_basename :: "string \<Rightarrow> bool" where
  "pending_basename n =
     list_ex (\<lambda>t. take 8 t = ''pending-'' \<and> drop (length t - 5) t = ''.json'' \<and> 14 \<le> length t \<and>
         CHR 0x0A \<notin> set t)
       (n # (if n \<noteq> [] \<and> last n = CHR 0x0A then [butlast n] else []))"

definition archive_has_pending_journal :: "archive_view \<Rightarrow> bool" where
  "archive_has_pending_journal av =
     (case archive_listing av of
        NotADirectory \<Rightarrow> False
      | Unreadable \<Rightarrow> True
      | Entries months \<Rightarrow> list_ex (\<lambda>m. case month_listing av m of
            NotADirectory \<Rightarrow> False
          | Unreadable \<Rightarrow> True
          | Entries names \<Rightarrow> list_ex pending_basename names) months)"

definition holder_char :: "char \<Rightarrow> bool" where
  "holder_char ch = (let n = of_char ch :: nat in
     (48 \<le> n \<and> n \<le> 57) \<or> (65 \<le> n \<and> n \<le> 90) \<or> (97 \<le> n \<and> n \<le> 122) \<or>
     ch \<in> {CHR ''.'', CHR ''_'', CHR ''-''})"

definition holder_key :: "(string \<Rightarrow> string) \<Rightarrow> jobj \<Rightarrow> string" where
  "holder_key sha rec =
     (case jget rec ''nonce'' of
        JStr n \<Rightarrow> if n \<noteq> [] \<and> length n \<le> 64 \<and> list_all holder_char n then n
                  else take 12 (sha (join ''|'' (map (\<lambda>k. py_repr (jget rec k)) [''pid'', ''proc_start'', ''created_at''])))
      | _ \<Rightarrow> take 12 (sha (join ''|'' (map (\<lambda>k. py_repr (jget rec k)) [''pid'', ''proc_start'', ''created_at'']))))"

record stamps =
  stamp :: string
  now_iso :: string
  sha :: "string \<Rightarrow> string"

text \<open>One record per holder and kind; the flag says whether a record exists afterwards.\<close>

definition write_recovery_record ::
    "io \<Rightarrow> stamps \<Rightarrow> os_view \<Rightarrow> int \<Rightarrow> string \<Rightarrow> jobj \<Rightarrow> string \<Rightarrow> string \<Rightarrow> bool \<Rightarrow> locks \<Rightarrow> bool \<times> locks"
where
  "write_recovery_record io tm os me kind holder state boundary recovered s =
     (let key = holder_key (sha tm) holder; (pid, host, start) = self_owner os me in
      if list_ex (\<lambda>(name, _). has_prefix (kind @ ''-'') name \<and> has_suffix (''-'' @ key @ ''.json'') name)
           (recovery s) then (True, s)
      else if \<not> record_writes io then (False, s)
      else (True, s\<lparr>recovery := recovery s @
             [(kind @ ''-'' @ stamp tm @ ''-'' @ key @ ''.json'',
               [(''recovered'', JBool recovered), (''state'', JStr state),
                (''boundary'', JStr boundary), (''holder'', JObj holder),
                (''recovered_by'', JObj [(''pid'', pid), (''host'', host), (''proc_start'', start)]),
                (''recovered_at'', JStr (now_iso tm))])]\<rparr>))"

datatype recovery_state =
    FlagAbsent | Malformed | PendingPathInvalid | HolderLive | HolderIndeterminate
  | InterruptedOperation | RecordUnwritable | FlagRemoveFailed | HolderDead

text \<open>\<open>_recover_stale_exclusive_locked\<close>: the flag goes only for a confirmed-dead holder with no
  unresolved journal, and only after the recovery record is written.\<close>

definition recover_stale_exclusive ::
    "io \<Rightarrow> stamps \<Rightarrow> os_view \<Rightarrow> archive_view \<Rightarrow> int \<Rightarrow> string \<Rightarrow> locks \<Rightarrow> (bool \<times> recovery_state) \<times> locks"
where
  "recover_stale_exclusive io tm os av me boundary s =
     (case flag s of
        None \<Rightarrow> ((False, FlagAbsent), s)
      | Some f \<Rightarrow>
        (case read_doc (Some f) of
           JObj rec \<Rightarrow>
             if \<not> flag_identity_ok rec then ((False, Malformed), s)
             else if pending_path_state av rec = ClaimInvalid then ((False, PendingPathInvalid), s)
             else (case liveness os (jget rec ''pid'') (jget rec ''host'') (jget rec ''proc_start'') of
                 Inr Dead \<Rightarrow>
                   if pending_path_state av rec = Outstanding \<or>
                      (pending_path_state av rec = ClaimAbsent \<and> archive_has_pending_journal av) then
                     ((False, InterruptedOperation), snd (write_recovery_record io tm os me
                        ''refusal'' rec ''interrupted_operation'' boundary False s))
                   else (case write_recovery_record io tm os me ''recovered'' rec ''dead'' boundary True s of
                       (False, s1) \<Rightarrow> ((False, RecordUnwritable), s1)
                     | (True, s1) \<Rightarrow>
                         if flag_removed io then ((True, HolderDead), s1\<lparr>flag := None\<rparr>)
                         else ((False, FlagRemoveFailed), s1))
               | Inr Live \<Rightarrow> ((False, HolderLive), s)
               | _ \<Rightarrow> ((False, HolderIndeterminate), s))
         | _ \<Rightarrow> ((False, Malformed), s)))"

section \<open>Writer tokens\<close>

datatype lock_error =
    Maintenance | AlreadyHeld | DrainTimeout | IoFailure | Escaped pyexc

definition token_doc :: "os_view \<Rightarrow> int \<Rightarrow> stamps \<Rightarrow> string \<Rightarrow> string \<Rightarrow> jobj" where
  "token_doc os me tm tid purpose =
     (let (pid, host, start) = self_owner os me in
      [(''token_id'', JStr tid), (''pid'', pid), (''host'', host), (''proc_start'', start),
       (''created_at'', JStr (now_iso tm)), (''heartbeat_at'', JStr (now_iso tm)),
       (''purpose'', JStr purpose)])"

definition acquire_write_token ::
    "io \<Rightarrow> stamps \<Rightarrow> os_view \<Rightarrow> archive_view \<Rightarrow> int \<Rightarrow> string \<Rightarrow> string \<Rightarrow> locks \<Rightarrow>
       (lock_error + string) \<times> locks" where
  "acquire_write_token io tm os av me tid purpose s =
     (let s1 = snd (recover_stale_exclusive io tm os av me ''write_token'' s) in
      if flag s1 \<noteq> None then (Inl Maintenance, s1)
      else if \<not> token_written io then (Inl IoFailure, s1)
      else (Inr tid, s1\<lparr>tokens := (tokens s1)(tid \<mapsto> Doc (JObj (token_doc os me tm tid purpose)))\<rparr>))"

definition release_write_token :: "io \<Rightarrow> string \<Rightarrow> locks \<Rightarrow> locks" where
  "release_write_token io tid s =
     (if tid = [] \<or> \<not> token_removed io tid then s else s\<lparr>tokens := (tokens s)(tid := None)\<rparr>)"

definition heartbeat_write_token ::
    "io \<Rightarrow> stamps \<Rightarrow> string \<Rightarrow> locks \<Rightarrow> (lock_error + bool) \<times> locks" where
  "heartbeat_write_token io tm tid s =
     (case read_doc (tokens s tid) of
        JObj rec \<Rightarrow>
          if jget rec ''token_id'' \<noteq> JStr tid then (Inr False, s)
          else if \<not> token_written io then (Inl IoFailure, s)
          else (Inr True, s\<lparr>tokens := (tokens s)(tid \<mapsto>
                  Doc (JObj (jput ''heartbeat_at'' (JStr (now_iso tm)) rec)))\<rparr>)
      | JNull \<Rightarrow> (Inr False, s)
      | _ \<Rightarrow> (Inl (Escaped AttributeError), s))"

section \<open>Archive exclusivity\<close>

text \<open>\<open>_list_tokens\<close>: token files that cannot be read or do not parse are left out.\<close>

definition list_tokens :: "io \<Rightarrow> string list \<Rightarrow> locks \<Rightarrow> json list" where
  "list_tokens io names s =
     filter truthy (map (\<lambda>n. if token_read io n then read_doc (tokens s n) else JNull) (sort names))"

text \<open>The sweep: a token of a confirmed-dead owner is removed, any other one remains.\<close>

fun sweep :: "io \<Rightarrow> os_view \<Rightarrow> json list \<Rightarrow> locks \<Rightarrow> (lock_error + json list) \<times> locks" where
  "sweep io os [] s = (Inr [], s)"
| "sweep io os (r # rs) s =
     (case r of
        JObj rec \<Rightarrow>
          (case liveness os (jget rec ''pid'') (jget rec ''host'') (jget rec ''proc_start'') of
             Inl e \<Rightarrow> (Inl (Escaped e), s)
           | Inr Dead \<Rightarrow>
               (case (jhas rec ''token_id'', jget rec ''token_id'') of
                  (True, JStr tid) \<Rightarrow>
                    sweep io os rs (if token_removed io tid then s\<lparr>tokens := (tokens s)(tid := None)\<rparr> else s)
                | (True, _) \<Rightarrow> (Inl (Escaped TypeError), s)
                | (False, _) \<Rightarrow> (Inl (Escaped KeyError), s))
           | Inr _ \<Rightarrow>
               (case sweep io os rs s of
                  (Inl e, s') \<Rightarrow> (Inl e, s')
                | (Inr rem, s') \<Rightarrow> (Inr (r # rem), s')))
      | _ \<Rightarrow> (Inl (Escaped AttributeError), s))"

definition flag_doc :: "os_view \<Rightarrow> int \<Rightarrow> stamps \<Rightarrow> json \<Rightarrow> string \<Rightarrow> string option \<Rightarrow> jobj" where
  "flag_doc os me tm opid nonce pending =
     (let (pid, host, start) = self_owner os me in
      [(''opid'', opid), (''nonce'', JStr nonce), (''pid'', pid), (''host'', host),
       (''proc_start'', start), (''created_at'', JStr (now_iso tm))] @
      (case pending of None \<Rightarrow> [] | Some p \<Rightarrow> [(''pending_path'', JStr p)]))"

text \<open>One pass of \<open>acquire_exclusive\<close> under the lock: the flag, or \<open>None\<close> to wait for writers.\<close>

definition exclusive_pass ::
    "io \<Rightarrow> stamps \<Rightarrow> os_view \<Rightarrow> archive_view \<Rightarrow> int \<Rightarrow> string list \<Rightarrow> json \<Rightarrow> string \<Rightarrow> string option \<Rightarrow>
       locks \<Rightarrow> (lock_error + jobj option) \<times> locks" where
  "exclusive_pass io tm os av me names opid nonce pending s =
     (let s1 = snd (recover_stale_exclusive io tm os av me ''acquire_exclusive'' s) in
      if flag s1 \<noteq> None then (Inl AlreadyHeld, s1)
      else case sweep io os (list_tokens io names s1) s1 of
          (Inl e, s2) \<Rightarrow> (Inl e, s2)
        | (Inr [], s2) \<Rightarrow>
            if \<not> flag_written io then (Inl IoFailure, s2)
            else let fl = flag_doc os me tm opid nonce pending in
              (Inr (Some fl), s2\<lparr>flag := Some (Doc (JObj fl))\<rparr>)
        | (Inr (_ # _), s2) \<Rightarrow> (Inr None, s2))"

text \<open>
  The whole loop: before each pass other processes may have changed the state, which is the first
  component of each element of the schedule; the deadline is its end.
\<close>

fun acquire_exclusive ::
    "((locks \<Rightarrow> locks) \<times> io \<times> stamps \<times> os_view \<times> archive_view \<times> string list) list \<Rightarrow> int \<Rightarrow> json \<Rightarrow>
       string \<Rightarrow> string option \<Rightarrow> locks \<Rightarrow> (lock_error + jobj) \<times> locks" where
  "acquire_exclusive [] me opid nonce pending s = (Inl DrainTimeout, s)"
| "acquire_exclusive ((others, io, tm, os, av, names) # later) me opid nonce pending s =
     (case exclusive_pass io tm os av me names opid nonce pending (others s) of
        (Inl e, s') \<Rightarrow> (Inl e, s')
      | (Inr (Some fl), s') \<Rightarrow> (Inr fl, s')
      | (Inr None, s') \<Rightarrow> acquire_exclusive later me opid nonce pending s')"

text \<open>\<open>release_exclusive\<close> answers true once the owner matches, also when the removal failed.\<close>

definition release_exclusive :: "io \<Rightarrow> json \<Rightarrow> string \<Rightarrow> locks \<Rightarrow> (pyexc + bool) \<times> locks" where
  "release_exclusive io opid nonce s =
     (if \<not> truthy (read_doc (flag s)) then (Inr False, s)
      else case read_doc (flag s) of
        JObj rec \<Rightarrow>
          if jget rec ''opid'' = opid \<and> jget rec ''nonce'' = JStr nonce
          then (Inr True, if flag_removed io then s\<lparr>flag := None\<rparr> else s)
          else (Inr False, s)
      | _ \<Rightarrow> (Inl AttributeError, s))"

definition current_exclusive :: "locks \<Rightarrow> json" where
  "current_exclusive s = read_doc (flag s)"

definition clear_stale_exclusive ::
    "io \<Rightarrow> stamps \<Rightarrow> os_view \<Rightarrow> archive_view \<Rightarrow> int \<Rightarrow> locks \<Rightarrow> bool \<times> locks" where
  "clear_stale_exclusive io tm os av me s =
     (let ((recovered, _), s') = recover_stale_exclusive io tm os av me ''clear_stale_exclusive'' s
      in (recovered, s'))"

definition force_clear_exclusive :: "io \<Rightarrow> locks \<Rightarrow> bool \<times> locks" where
  "force_clear_exclusive io s =
     (if flag s = None \<or> \<not> flag_removed io then (False, s) else (True, s\<lparr>flag := None\<rparr>))"

end
