(* ===== verification/Lock_Safety.thy ===== *)
theory Lock_Safety
  imports Writer_Lock
begin

text \<open>
  What the writer lock guarantees. The processes that use a queue root are actors \<open>(host, pid, start
  time)\<close>; \<open>writers\<close> and \<open>archivers\<close> say who is inside a write or an archive operation. A step is one
  critical section of \<open>tools/clearwright_writer_lock.py\<close>, or processes starting and dying. The
  operating system's answers are arbitrary except that they are not wrong about live processes
  (\<open>os_sound\<close>): it may decline to answer at any time.
\<close>

section \<open>Liveness never condemns a live process\<close>

type_synonym proc = "string \<times> int \<times> string"

definition os_sound :: "os_view \<Rightarrow> proc set \<Rightarrow> bool" where
  "os_sound os alive =
     (\<forall>(h, p, t) \<in> alive. h = this_host os \<longrightarrow>
        pid_exists os p \<noteq> Some False \<and>
        \<not> (signaled os p = Some True \<and> exit_recorded os p) \<and>
        (\<forall>t'. start_time os p = Some t' \<longrightarrow> t' = t))"

definition owner :: "jobj \<Rightarrow> proc \<Rightarrow> bool" where
  "owner rec p = (case p of (h, pid, t) \<Rightarrow>
     jget rec ''pid'' = JInt pid \<and> jget rec ''host'' = JStr h \<and> jget rec ''proc_start'' = JStr t)"

abbreviation verdict :: "os_view \<Rightarrow> jobj \<Rightarrow> pyexc + life" where
  "verdict os rec \<equiv> liveness os (jget rec ''pid'') (jget rec ''host'') (jget rec ''proc_start'')"

lemma live_owner_not_dead:
  assumes "os_sound os alive" and "p \<in> alive" and "owner rec p"
  shows "verdict os rec \<noteq> Inr Dead"
proof -
  obtain h pid t where p: "p = (h, pid, t)" by (cases p)
  with assms(1,2) have os: "h = this_host os \<longrightarrow> pid_exists os pid \<noteq> Some False \<and>
      \<not> (signaled os pid = Some True \<and> exit_recorded os pid) \<and>
      (\<forall>t'. start_time os pid = Some t' \<longrightarrow> t' = t)"
    unfolding os_sound_def by blast
  have "judge os pid (JStr t) \<noteq> Dead" if "h = this_host os"
    using os that by (cases "pid_exists os pid") (auto simp: judge_def split: option.splits)
  moreover have "jget rec ''pid'' = JInt pid" "jget rec ''host'' = JStr h" "jget rec ''proc_start'' = JStr t"
    using assms(3) p by (simp_all add: owner_def)
  ultimately show ?thesis by (simp add: liveness_def)
qed

lemma owner_unique: "owner rec p \<Longrightarrow> owner rec q \<Longrightarrow> p = q"
  by (cases p, cases q) (simp add: owner_def)

lemma self_owner_owner:
  "start_time os me = Some t \<Longrightarrow> self_owner os me = (JInt me, JStr (this_host os), JStr t)"
  by (simp add: self_owner_def)

lemma token_doc_fields:
  assumes "start_time os me = Some t"
  shows "owner (token_doc os me tm tid purpose) (this_host os, me, t)"
    and "jget (token_doc os me tm tid purpose) ''token_id'' = JStr tid"
  using assms by (simp_all add: token_doc_def self_owner_owner owner_def py_simps)

lemma flag_doc_fields:
  assumes "start_time os me = Some t"
  shows "owner (flag_doc os me tm opid nonce pending) (this_host os, me, t)"
    and "jget (flag_doc os me tm opid nonce pending) ''nonce'' = JStr nonce"
  using assms by (simp_all add: flag_doc_def self_owner_owner owner_def py_simps split: option.splits)

section \<open>Recovery\<close>

lemma write_recovery_record_frame [simp]:
  "flag (snd (write_recovery_record io tm os me kind holder state boundary r s)) = flag s"
  "tokens (snd (write_recovery_record io tm os me kind holder state boundary r s)) = tokens s"
  by (simp_all add: write_recovery_record_def Let_def split: prod.splits)

text \<open>A record of this holder and kind, as the directory listing shows it.\<close>

definition recorded :: "stamps \<Rightarrow> string \<Rightarrow> jobj \<Rightarrow> locks \<Rightarrow> bool" where
  "recorded tm kind holder s =
     (\<exists>(name, _) \<in> set (recovery s). has_prefix (kind @ ''-'') name \<and>
        has_suffix (''-'' @ holder_key (sha tm) holder @ ''.json'') name)"

lemma write_recovery_record_recorded:
  assumes "write_recovery_record io tm os me kind holder state boundary r s = (True, s')"
  shows "recorded tm kind holder s'"
proof (cases "recorded tm kind holder s")
  case True
  then show ?thesis
    using assms
    by (force simp: write_recovery_record_def recorded_def Let_def list_ex_iff split: prod.splits if_splits)
next
  case False
  define key where "key = holder_key (sha tm) holder"
  have "has_prefix (kind @ ''-'') (kind @ ''-'' @ stamp tm @ ''-'' @ key @ ''.json'')"
    by (metis append.assoc has_prefix_append)
  moreover have "has_suffix (''-'' @ key @ ''.json'') (kind @ ''-'' @ stamp tm @ ''-'' @ key @ ''.json'')"
    by (metis append.assoc has_suffix_append)
  ultimately show ?thesis
    using assms False
    by (auto simp: write_recovery_record_def recorded_def Let_def list_ex_iff key_def
        split: prod.splits if_splits)
qed

text \<open>The guard of recovery, declaratively.\<close>

definition unresolved :: "archive_view \<Rightarrow> jobj \<Rightarrow> bool" where
  "unresolved av rec = (pending_path_state av rec = Outstanding \<or>
     (pending_path_state av rec = ClaimAbsent \<and> archive_has_pending_journal av))"

definition recoverable :: "os_view \<Rightarrow> archive_view \<Rightarrow> jobj \<Rightarrow> bool" where
  "recoverable os av rec = (flag_identity_ok rec \<and> pending_path_state av rec \<noteq> ClaimInvalid \<and>
     verdict os rec = Inr Dead \<and> \<not> unresolved av rec)"

lemma recover_outcome:
  assumes "recover_stale_exclusive io tm os av me boundary s = ((recovered, st), s')"
  shows "tokens s' = tokens s"
    and "recovered \<Longrightarrow> flag s' = None \<and>
           (\<exists>rec. flag s = Some (Doc (JObj rec)) \<and> recoverable os av rec \<and> recorded tm ''recovered'' rec s')"
    and "\<not> recovered \<Longrightarrow> flag s' = flag s"
proof -
  let ?rec = "\<lambda>rec. write_recovery_record io tm os me ''recovered'' rec ''dead'' boundary True s"
  have w: "flag s1 = flag s" "tokens s1 = tokens s" "ok \<Longrightarrow> recorded tm ''recovered'' rec s1"
    if "?rec rec = (ok, s1)" for rec ok s1
    using write_recovery_record_frame [of io tm os me "''recovered''" rec "''dead''" boundary True s] that
      write_recovery_record_recorded [of io tm os me "''recovered''" rec "''dead''" boundary True s s1]
    by simp_all
  have rf: "recorded tm k h (s1\<lparr>flag := None\<rparr>) = recorded tm k h s1" for k h s1
    by (simp add: recorded_def)
  show "tokens s' = tokens s"
    using assms unfolding recover_stale_exclusive_def
    by (auto split: option.splits json.splits if_splits sum.splits life.splits prod.splits bool.splits
        dest!: w)
  show "flag s' = None \<and> (\<exists>rec. flag s = Some (Doc (JObj rec)) \<and> recoverable os av rec \<and>
      recorded tm ''recovered'' rec s')" if recovered
    using assms that unfolding recover_stale_exclusive_def recoverable_def unresolved_def
    by (auto simp: read_doc_def rf split: option.splits json.splits if_splits sum.splits life.splits
        prod.splits bool.splits content.splits dest!: w(3))
  show "flag s' = flag s" if "\<not> recovered"
    using assms that unfolding recover_stale_exclusive_def
    by (auto split: option.splits json.splits if_splits sum.splits life.splits prod.splits bool.splits
        dest!: w(1))
qed

section \<open>The sweep\<close>

definition dead_token :: "os_view \<Rightarrow> json \<Rightarrow> bool" where
  "dead_token os r = (case r of JObj rec \<Rightarrow> verdict os rec = Inr Dead | _ \<Rightarrow> False)"

text \<open>A sweep drops exactly the tokens of confirmed-dead owners from its answer, and removes no other
  token file.\<close>

lemma sweep_outcome:
  assumes "sweep io os rs s = (r, s')"
  shows "flag s' = flag s"
    and "tokens s' tid \<noteq> tokens s tid \<Longrightarrow> tokens s' tid = None \<and>
           (\<exists>rec. JObj rec \<in> set rs \<and> jget rec ''token_id'' = JStr tid \<and> verdict os rec = Inr Dead)"
    and "r = Inr rem \<Longrightarrow> rem = filter (\<lambda>r. \<not> dead_token os r) rs"
proof -
  have "flag s' = flag s \<and>
      (tokens s' tid \<noteq> tokens s tid \<longrightarrow> tokens s' tid = None \<and>
         (\<exists>rec. JObj rec \<in> set rs \<and> jget rec ''token_id'' = JStr tid \<and> verdict os rec = Inr Dead)) \<and>
      (\<forall>rem. r = Inr rem \<longrightarrow> rem = filter (\<lambda>r. \<not> dead_token os r) rs)"
    using assms
  proof (induction rs arbitrary: s r s')
    case Nil
    then show ?case by auto
  next
    case (Cons a rs)
    show ?case
    proof (cases a)
      case (JObj rec)
      show ?thesis
      proof (cases "verdict os rec")
        case (Inl e)
        with Cons.prems JObj show ?thesis by auto
      next
        case (Inr l)
        show ?thesis
        proof (cases "l = Dead")
          case True
          show ?thesis
          proof (cases "jhas rec ''token_id'' \<and> is_str (jget rec ''token_id'')")
            case True
            then obtain t where t: "jget rec ''token_id'' = JStr t" "jhas rec ''token_id''"
              by (cases "jget rec ''token_id''") auto
            let ?s = "if token_removed io t then s\<lparr>tokens := (tokens s)(t := None)\<rparr> else s"
            have "sweep io os rs ?s = (r, s')"
              using Cons.prems JObj Inr \<open>l = Dead\<close> t by simp
            note IH = Cons.IH [OF this]
            have "flag ?s = flag s" and "tokens ?s tid \<noteq> tokens s tid \<Longrightarrow> t = tid \<and> tokens ?s tid = None"
              by (auto split: if_splits)
            then show ?thesis
              using IH JObj Inr \<open>l = Dead\<close> t by (auto simp: dead_token_def)
          next
            case False
            then show ?thesis
              using Cons.prems JObj Inr \<open>l = Dead\<close>
              by (cases "jget rec ''token_id''") (auto split: bool.splits)
          qed
        next
          case False
          then obtain r1 where r1: "sweep io os rs s = (r1, s')"
            and r: "r = (case r1 of Inl e \<Rightarrow> Inl e | Inr rem \<Rightarrow> Inr (a # rem))"
            using Cons.prems JObj Inr by (cases l) (auto split: prod.splits sum.splits)
          show ?thesis
            using Cons.IH [OF r1] r JObj Inr False by (auto simp: dead_token_def split: sum.splits)
        qed
      qed
    qed (use Cons.prems in auto)
  qed
  then show "flag s' = flag s"
    and "tokens s' tid \<noteq> tokens s tid \<Longrightarrow> tokens s' tid = None \<and>
           (\<exists>rec. JObj rec \<in> set rs \<and> jget rec ''token_id'' = JStr tid \<and> verdict os rec = Inr Dead)"
    and "r = Inr rem \<Longrightarrow> rem = filter (\<lambda>r. \<not> dead_token os r) rs"
    by blast+
qed

section \<open>The system\<close>

record lock_sys =
  lk :: locks
  alive :: "proc set"
  writers :: "string \<Rightarrow> proc option"
  archivers :: "(string \<times> proc) set"

text \<open>A process that runs an acquisition: alive, and its start time readable.\<close>

definition acting :: "os_view \<Rightarrow> lock_sys \<Rightarrow> int \<Rightarrow> proc \<Rightarrow> bool" where
  "acting os s me p = (\<exists>t. start_time os me = Some t \<and> p = (this_host os, me, t) \<and> p \<in> alive s \<and>
     os_sound os (alive s))"

inductive lock_step :: "lock_sys \<Rightarrow> lock_sys \<Rightarrow> bool" where
  processes: "s' = s\<lparr>alive := A,
     writers := (\<lambda>t. case writers s t of Some p \<Rightarrow> if p \<in> A then Some p else None | None \<Rightarrow> None),
     archivers := {a \<in> archivers s. snd a \<in> A}\<rparr> \<Longrightarrow> lock_step s s'"
| write_enter: "acquire_write_token io tm os av me tid purpose (lk s) = (Inr t, l') \<Longrightarrow>
     acting os s me p \<Longrightarrow> tokens (lk s) tid = None \<Longrightarrow>
     lock_step s (s\<lparr>lk := l', writers := (writers s)(t \<mapsto> p)\<rparr>)"
| write_refused: "acquire_write_token io tm os av me tid purpose (lk s) = (Inl e, l') \<Longrightarrow>
     acting os s me p \<Longrightarrow> lock_step s (s\<lparr>lk := l'\<rparr>)"
| write_exit: "writers s tid = Some p \<Longrightarrow>
     lock_step s (s\<lparr>lk := release_write_token io tid (lk s), writers := (writers s)(tid := None)\<rparr>)"
| heartbeat: "heartbeat_write_token io tm tid (lk s) = (r, l') \<Longrightarrow> lock_step s (s\<lparr>lk := l'\<rparr>)"
| archive_enter: "exclusive_pass io tm os av me names opid nonce pending (lk s) = (Inr (Some fl), l') \<Longrightarrow>
     acting os s me p \<Longrightarrow> \<forall>t. tokens (lk s) t \<noteq> None \<longrightarrow> t \<in> set names \<and> token_read io t \<Longrightarrow>
     lock_step s (s\<lparr>lk := l', archivers := insert (nonce, p) (archivers s)\<rparr>)"
| archive_wait: "exclusive_pass io tm os av me names opid nonce pending (lk s) = (r, l') \<Longrightarrow>
     \<forall>fl. r \<noteq> Inr (Some fl) \<Longrightarrow> acting os s me p \<Longrightarrow> lock_step s (s\<lparr>lk := l'\<rparr>)"
| archive_exit: "(nonce, p) \<in> archivers s \<Longrightarrow> release_exclusive io opid nonce (lk s) = (r, l') \<Longrightarrow>
     lock_step s (s\<lparr>lk := l', archivers := archivers s - {(nonce, p)}\<rparr>)"
| clear_stale: "clear_stale_exclusive io tm os av me (lk s) = (r, l') \<Longrightarrow> acting os s me p \<Longrightarrow>
     lock_step s (s\<lparr>lk := l'\<rparr>)"
| override: "force_clear_exclusive io (lk s) = (r, l') \<Longrightarrow> archivers s = {} \<Longrightarrow>
     lock_step s (s\<lparr>lk := l'\<rparr>)"

inductive_cases lock_stepE: "lock_step s s'"

definition token_ok :: "string \<Rightarrow> content option \<Rightarrow> bool" where
  "token_ok tid c = (c \<noteq> None \<longrightarrow> (\<exists>rec. c = Some (Doc (JObj rec)) \<and> jget rec ''token_id'' = JStr tid))"

definition writer_ok :: "lock_sys \<Rightarrow> string \<Rightarrow> proc \<Rightarrow> bool" where
  "writer_ok s tid p = (p \<in> alive s \<and> (\<exists>rec. tokens (lk s) tid = Some (Doc (JObj rec)) \<and> owner rec p))"

definition archiver_ok :: "lock_sys \<Rightarrow> string \<Rightarrow> proc \<Rightarrow> bool" where
  "archiver_ok s nonce p = (p \<in> alive s \<and>
     (\<exists>rec. flag (lk s) = Some (Doc (JObj rec)) \<and> jget rec ''nonce'' = JStr nonce \<and> owner rec p))"

definition locks_ok :: "lock_sys \<Rightarrow> bool" where
  "locks_ok s = ((\<forall>tid. token_ok tid (tokens (lk s) tid)) \<and>
     (\<forall>tid p. writers s tid = Some p \<longrightarrow> writer_ok s tid p) \<and>
     (\<forall>(nonce, p) \<in> archivers s. archiver_ok s nonce p) \<and>
     (archivers s \<noteq> {} \<longrightarrow> writers s = Map.empty))"

text \<open>Recovery keeps the invariant: it never takes the flag of a live archiver.\<close>

lemma recover_keeps_archiver:
  assumes "recover_stale_exclusive io tm os av me b (lk s) = (r, l')" and "os_sound os (alive s)"
    and "archiver_ok s nonce p"
  shows "flag l' = flag (lk s)"
proof (rule ccontr)
  assume "flag l' \<noteq> flag (lk s)"
  moreover obtain rc st where r: "r = (rc, st)" by (cases r)
  ultimately obtain rec where "flag (lk s) = Some (Doc (JObj rec))" and "verdict os rec = Inr Dead"
    using recover_outcome [OF assms(1) [unfolded r]] unfolding recoverable_def by metis
  with assms(3) have "owner rec p" and "p \<in> alive s" by (auto simp: archiver_ok_def)
  with live_owner_not_dead assms(2) \<open>verdict os rec = Inr Dead\<close> show False by blast
qed

lemma recover_keeps_ok:
  assumes "recover_stale_exclusive io tm os av me b (lk s) = (r, l')" and "os_sound os (alive s)"
    and "locks_ok s"
  shows "locks_ok (s\<lparr>lk := l'\<rparr>)"
proof -
  have "tokens l' = tokens (lk s)"
    using recover_outcome(1) assms(1) by (metis surj_pair)
  moreover have "archiver_ok s n p \<Longrightarrow> flag l' = flag (lk s)" for n p
    using recover_keeps_archiver assms by blast
  ultimately show ?thesis
    using assms(3) by (fastforce simp: locks_ok_def writer_ok_def archiver_ok_def)
qed

section \<open>Every step keeps the system safe\<close>

lemma locks_okD:
  assumes "locks_ok s"
  shows "token_ok tid (tokens (lk s) tid)"
    and "writers s tid = Some p \<Longrightarrow> writer_ok s tid p"
    and "(nonce, p) \<in> archivers s \<Longrightarrow> archiver_ok s nonce p"
    and "archivers s \<noteq> {} \<Longrightarrow> writers s t = None"
  using assms unfolding locks_ok_def by (blast, blast, blast, simp)

lemma locks_okI:
  assumes "\<And>tid. token_ok tid (tokens (lk s) tid)"
    and "\<And>tid p. writers s tid = Some p \<Longrightarrow> writer_ok s tid p"
    and "\<And>nonce p. (nonce, p) \<in> archivers s \<Longrightarrow> archiver_ok s nonce p"
    and "\<And>nonce p t. (nonce, p) \<in> archivers s \<Longrightarrow> writers s t = None"
  shows "locks_ok s"
  using assms unfolding locks_ok_def by (auto simp: fun_eq_iff)

lemma processes_ok:
  assumes "locks_ok s"
  shows "locks_ok (s\<lparr>alive := A,
     writers := (\<lambda>t. case writers s t of Some p \<Rightarrow> if p \<in> A then Some p else None | None \<Rightarrow> None),
     archivers := {a \<in> archivers s. snd a \<in> A}\<rparr>)"
    (is "locks_ok ?s")
proof (rule locks_okI)
  show "token_ok tid (tokens (lk ?s) tid)" for tid using locks_okD(1) [OF assms] by simp
  show "writer_ok ?s tid p" if "writers ?s tid = Some p" for tid p
    using locks_okD(2) [OF assms, of tid p] that by (auto simp: writer_ok_def split: option.splits if_splits)
  show "archiver_ok ?s n p" if "(n, p) \<in> archivers ?s" for n p
    using locks_okD(3) [OF assms, of n p] that by (auto simp: archiver_ok_def)
  show "writers ?s t = None" if "(n, p) \<in> archivers ?s" for n p t
    using locks_okD(4) [OF assms, of t] that by (force split: option.splits)
qed

lemma write_enter_ok:
  assumes "acquire_write_token io tm os av me tid purpose (lk s) = (Inr t, l')"
    and "acting os s me p" and "locks_ok s"
  shows "locks_ok (s\<lparr>lk := l', writers := (writers s)(t \<mapsto> p)\<rparr>)"
proof -
  obtain r l1 where r: "recover_stale_exclusive io tm os av me ''write_token'' (lk s) = (r, l1)"
    by fastforce
  let ?tok = "token_doc os me tm tid purpose"
  have l': "t = tid" "flag l1 = None" "l' = l1\<lparr>tokens := (tokens l1)(tid \<mapsto> Doc (JObj ?tok))\<rparr>"
    using assms(1) r by (auto simp: acquire_write_token_def Let_def split: if_splits)
  obtain st where st: "start_time os me = Some st" "p = (this_host os, me, st)" "p \<in> alive s"
    and os: "os_sound os (alive s)"
    using assms(2) by (auto simp: acting_def)
  have tok: "owner ?tok p" "jget ?tok ''token_id'' = JStr tid"
    using token_doc_fields [OF st(1)] st(2) by simp_all
  have ok: "locks_ok (s\<lparr>lk := l1\<rparr>)" using recover_keeps_ok [OF r os assms(3)] .
  have none: "archivers s = {}"
    using ok l'(2) by (fastforce simp: locks_ok_def archiver_ok_def)
  show ?thesis
    using ok none tok st(3)
    by (auto simp: locks_ok_def l'(1,3) token_ok_def writer_ok_def)
qed

lemma write_refused_ok:
  assumes "acquire_write_token io tm os av me tid purpose (lk s) = (Inl e, l')"
    and "acting os s me p" and "locks_ok s"
  shows "locks_ok (s\<lparr>lk := l'\<rparr>)"
proof -
  obtain r l1 where r: "recover_stale_exclusive io tm os av me ''write_token'' (lk s) = (r, l1)"
    by fastforce
  then have "l' = l1" using assms(1) by (auto simp: acquire_write_token_def Let_def split: if_splits)
  then show ?thesis using recover_keeps_ok [OF r] assms(2,3) by (auto simp: acting_def)
qed

lemma write_exit_ok:
  assumes "locks_ok s"
  shows "locks_ok (s\<lparr>lk := release_write_token io tid (lk s), writers := (writers s)(tid := None)\<rparr>)"
    (is "locks_ok ?s")
proof (rule locks_okI)
  show "token_ok t (tokens (lk ?s) t)" for t
    using locks_okD(1) [OF assms, of t] by (auto simp: release_write_token_def token_ok_def)
  show "writer_ok ?s t p" if "writers ?s t = Some p" for t p
    using locks_okD(2) [OF assms, of t p] that
    by (auto simp: release_write_token_def writer_ok_def split: if_splits)
  show "archiver_ok ?s n p" if "(n, p) \<in> archivers ?s" for n p
    using locks_okD(3) [OF assms, of n p] that by (auto simp: release_write_token_def archiver_ok_def)
  show "writers ?s t = None" if "(n, p) \<in> archivers ?s" for n p t
    using locks_okD(4) [OF assms, of t] that by auto
qed

lemma owner_jput [simp]:
  "k \<notin> {''pid'', ''host'', ''proc_start''} \<Longrightarrow> owner (jput k v rec) p = owner rec p"
  by (cases p) (simp add: owner_def)

lemma heartbeat_ok:
  assumes "heartbeat_write_token io tm tid (lk s) = (r, l')" and "locks_ok s"
  shows "locks_ok (s\<lparr>lk := l'\<rparr>)"
proof (cases "l' = lk s")
  case True
  then show ?thesis using assms(2) by simp
next
  case False
  then obtain rec where rec: "tokens (lk s) tid = Some (Doc (JObj rec))" "jget rec ''token_id'' = JStr tid"
    and l': "l' = (lk s)\<lparr>tokens := (tokens (lk s))(tid \<mapsto>
               Doc (JObj (jput ''heartbeat_at'' (JStr (now_iso tm)) rec)))\<rparr>"
    using assms(1)
    by (auto simp: heartbeat_write_token_def read_doc_def
        split: json.splits if_splits option.splits content.splits)
  show ?thesis
  proof (rule locks_okI)
    show "token_ok t (tokens (lk (s\<lparr>lk := l'\<rparr>)) t)" for t
      using locks_okD(1) [OF assms(2), of t] rec by (auto simp: l' token_ok_def)
    show "writer_ok (s\<lparr>lk := l'\<rparr>) t p" if "writers (s\<lparr>lk := l'\<rparr>) t = Some p" for t p
      using locks_okD(2) [OF assms(2), of t p] that rec by (auto simp: l' writer_ok_def)
    show "archiver_ok (s\<lparr>lk := l'\<rparr>) n p" if "(n, p) \<in> archivers (s\<lparr>lk := l'\<rparr>)" for n p
      using locks_okD(3) [OF assms(2), of n p] that by (auto simp: l' archiver_ok_def)
    show "writers (s\<lparr>lk := l'\<rparr>) t = None" if "(n, p) \<in> archivers (s\<lparr>lk := l'\<rparr>)" for n p t
      using locks_okD(4) [OF assms(2), of t] that by auto
  qed
qed

text \<open>A pass keeps the invariant; when it grants the flag there is no writer left.\<close>

lemma pass_keeps_ok:
  assumes "exclusive_pass io tm os av me names opid nonce pending (lk s) = (r, l')"
    and "os_sound os (alive s)" and "locks_ok s"
  obtains l2 where "locks_ok (s\<lparr>lk := l2\<rparr>)"
    and "l' = (case r of Inr (Some fl) \<Rightarrow> l2\<lparr>flag := Some (Doc (JObj fl))\<rparr> | _ \<Rightarrow> l2)"
    and "\<And>fl. r = Inr (Some fl) \<Longrightarrow> flag l2 = None \<and> fl = flag_doc os me tm opid nonce pending \<and>
           filter (\<lambda>r. \<not> dead_token os r) (list_tokens io names (lk s)) = []"
proof -
  obtain rc l1 where rc: "recover_stale_exclusive io tm os av me ''acquire_exclusive'' (lk s) = (rc, l1)"
    by fastforce
  have ok1: "locks_ok (s\<lparr>lk := l1\<rparr>)" using recover_keeps_ok [OF rc assms(2,3)] .
  have tok1: "tokens l1 = tokens (lk s)" using recover_outcome(1) rc by (metis surj_pair)
  show thesis
  proof (cases "flag l1 = None")
    case False
    then have "l' = l1" "r = Inl AlreadyHeld"
      using assms(1) rc by (auto simp: exclusive_pass_def Let_def)
    with ok1 show thesis by (intro that [of l1]) simp_all
  next
    case True
    obtain sr l2 where sw: "sweep io os (list_tokens io names l1) l1 = (sr, l2)" by fastforce
    note out = sweep_outcome [OF sw]
    have "locks_ok (s\<lparr>lk := l2\<rparr>)"
    proof -
      have keep: "tokens l2 t = tokens l1 t" if "writers s t = Some p" for t p
      proof (rule ccontr)
        assume ch: "tokens l2 t \<noteq> tokens l1 t"
        then obtain rec where rec: "JObj rec \<in> set (list_tokens io names l1)"
          "jget rec ''token_id'' = JStr t" "verdict os rec = Inr Dead"
          using out(2) by blast
        from rec(1) obtain n where n: "tokens l1 n = Some (Doc (JObj rec))"
          by (auto simp: list_tokens_def read_doc_def split: if_splits option.splits content.splits)
        then have "n = t" using locks_okD(1) [OF ok1, of n] rec(2) by (simp add: token_ok_def)
        then have "owner rec p" "p \<in> alive s"
          using locks_okD(2) [OF ok1, of t p] n that by (auto simp: writer_ok_def)
        with live_owner_not_dead [OF assms(2)] rec(3) show False by blast
      qed
      have "tokens l2 t = None \<or> tokens l2 t = tokens l1 t" for t using out(2) by blast
      then have "token_ok t (tokens l2 t)" for t
        using locks_okD(1) [OF ok1, of t] by (metis token_ok_def lock_sys.select_convs(1) lock_sys.surjective lock_sys.update_convs(1))
      then show ?thesis
        using ok1 keep out(1) by (auto simp: locks_ok_def writer_ok_def archiver_ok_def)
    qed
    moreover have "l' = (case r of Inr (Some fl) \<Rightarrow> l2\<lparr>flag := Some (Doc (JObj fl))\<rparr> | _ \<Rightarrow> l2) \<and>
        (\<forall>fl. r = Inr (Some fl) \<longrightarrow> flag l2 = None \<and> fl = flag_doc os me tm opid nonce pending \<and> sr = Inr [])"
      using assms(1) rc True sw out(1)
      by (auto simp: exclusive_pass_def Let_def split: sum.splits list.splits if_splits)
    moreover have "list_tokens io names l1 = list_tokens io names (lk s)"
      by (simp only: list_tokens_def tok1)
    ultimately show thesis using that out(3) by metis
  qed
qed

lemma archive_enter_ok:
  assumes pass: "exclusive_pass io tm os av me names opid nonce pending (lk s) = (Inr (Some fl), l')"
    and act: "acting os s me p"
    and all: "\<forall>t. tokens (lk s) t \<noteq> None \<longrightarrow> t \<in> set names \<and> token_read io t" and ok: "locks_ok s"
  shows "locks_ok (s\<lparr>lk := l', archivers := insert (nonce, p) (archivers s)\<rparr>)"
proof -
  obtain st where st: "start_time os me = Some st" "p = (this_host os, me, st)" "p \<in> alive s"
    and os: "os_sound os (alive s)"
    using act by (auto simp: acting_def)
  obtain l2 where l2: "locks_ok (s\<lparr>lk := l2\<rparr>)" "l' = l2\<lparr>flag := Some (Doc (JObj fl))\<rparr>" "flag l2 = None"
    and fl: "fl = flag_doc os me tm opid nonce pending"
    and dead: "filter (\<lambda>r. \<not> dead_token os r) (list_tokens io names (lk s)) = []"
    using pass_keeps_ok [OF pass os ok] by auto
  have none: "writers s t = None" for t
  proof (rule ccontr)
    assume "writers s t \<noteq> None"
    then obtain q where "writers s t = Some q" by blast
    from locks_okD(2) [OF ok this]
    obtain rec where q: "q \<in> alive s" "tokens (lk s) t = Some (Doc (JObj rec))" "owner rec q"
      unfolding writer_ok_def by blast
    have "jget rec ''token_id'' = JStr t" using locks_okD(1) [OF ok, of t] q(2) by (simp add: token_ok_def)
    then have "truthy (JObj rec)" by auto
    moreover have "t \<in> set names" "token_read io t" using all q(2) by auto
    ultimately have "JObj rec \<in> set (list_tokens io names (lk s))"
      using q(2) by (force simp: list_tokens_def read_doc_def)
    with dead have "dead_token os (JObj rec)" by (auto simp: filter_empty_conv)
    then show False using live_owner_not_dead [OF os q(1,3)] by (simp add: dead_token_def)
  qed
  have none': "archivers s = {}" using l2(1,3) by (fastforce simp: locks_ok_def archiver_ok_def)
  have own: "owner fl p" "jget fl ''nonce'' = JStr nonce"
    using flag_doc_fields [OF st(1)] by (simp_all add: fl st(2))
  show ?thesis
    using locks_okD(1) [OF l2(1)] none none' own st(3)
    by (intro locks_okI) (auto simp: l2(2) archiver_ok_def)
qed

lemma archive_wait_ok:
  assumes "exclusive_pass io tm os av me names opid nonce pending (lk s) = (r, l')"
    and "\<forall>fl. r \<noteq> Inr (Some fl)" and "acting os s me p" and "locks_ok s"
  shows "locks_ok (s\<lparr>lk := l'\<rparr>)"
proof -
  have os: "os_sound os (alive s)" using assms(3) by (auto simp: acting_def)
  obtain l2 where l2: "locks_ok (s\<lparr>lk := l2\<rparr>)"
    and l': "l' = (case r of Inr (Some fl) \<Rightarrow> l2\<lparr>flag := Some (Doc (JObj fl))\<rparr> | _ \<Rightarrow> l2)"
    using pass_keeps_ok [OF assms(1) os assms(4)] by blast
  have "l' = l2" unfolding l' using assms(2) by (auto split: sum.split option.split)
  with l2 show ?thesis by simp
qed

lemma archive_exit_ok:
  assumes "(nonce, p) \<in> archivers s" and "release_exclusive io opid nonce (lk s) = (r, l')" and "locks_ok s"
  shows "locks_ok (s\<lparr>lk := l', archivers := archivers s - {(nonce, p)}\<rparr>)"
proof -
  have one: "(n, q) = (nonce, p)" if "(n, q) \<in> archivers s" for n q
  proof -
    obtain rec where rec: "flag (lk s) = Some (Doc (JObj rec))" "jget rec ''nonce'' = JStr nonce" "owner rec p"
      using locks_okD(3) [OF assms(3,1)] unfolding archiver_ok_def by blast
    moreover from this have "jget rec ''nonce'' = JStr n" "owner rec q"
      using locks_okD(3) [OF assms(3) that] unfolding archiver_ok_def by auto
    ultimately show ?thesis using owner_unique by simp
  qed
  then have "archivers s - {(nonce, p)} = {}" by auto
  moreover have "tokens l' = tokens (lk s)"
    using assms(2) by (auto simp: release_exclusive_def split: json.splits if_splits)
  ultimately show ?thesis
    using locks_okD(1,2) [OF assms(3)] by (intro locks_okI) (auto simp: writer_ok_def)
qed

lemma override_ok:
  assumes "force_clear_exclusive io (lk s) = (r, l')" and "archivers s = {}" and "locks_ok s"
  shows "locks_ok (s\<lparr>lk := l'\<rparr>)"
proof -
  have "tokens l' = tokens (lk s)"
    using assms(1) by (auto simp: force_clear_exclusive_def split: if_splits)
  then show ?thesis
    using locks_okD(1,2) [OF assms(3)] assms(2) by (intro locks_okI) (auto simp: writer_ok_def)
qed

lemma lock_step_ok: "locks_ok s \<Longrightarrow> lock_step s s' \<Longrightarrow> locks_ok s'"
proof (erule lock_stepE, goal_cases)
  case 1 then show ?case using processes_ok by simp
next
  case 9
  then show ?case
    using recover_keeps_ok
    by (fastforce simp: clear_stale_exclusive_def acting_def split: prod.splits)
qed (auto intro: write_enter_ok write_refused_ok write_exit_ok heartbeat_ok archive_enter_ok
    archive_wait_ok archive_exit_ok override_ok)

interpretation lock_runs: kept_by_steps lock_step locks_ok
  by unfold_locales (rule lock_step_ok)

text \<open>A queue root nobody uses yet.\<close>

definition no_locks :: lock_sys where
  "no_locks = \<lparr>lk = \<lparr>tokens = (\<lambda>_. None), flag = None, recovery = []\<rparr>, alive = {},
     writers = (\<lambda>_. None), archivers = {}\<rparr>"

definition reachable_locks :: "lock_sys \<Rightarrow> bool" where
  "reachable_locks s = lock_step\<^sup>*\<^sup>* no_locks s"

lemma reachable_locks_ok: "reachable_locks s \<Longrightarrow> locks_ok s"
  unfolding reachable_locks_def
  by (erule lock_runs.run_keeps) (simp add: no_locks_def locks_ok_def token_ok_def)

section \<open>A concrete run\<close>

abbreviation demo_proc :: proc where "demo_proc \<equiv> (''h'', 7, ''11'')"

definition demo_os :: os_view where
  "demo_os = \<lparr>this_host = ''h'', on_windows = False, pid_exists = (\<lambda>p. Some (p = 7)),
     signaled = (\<lambda>_. None), exit_recorded = (\<lambda>_. False),
     start_time = (\<lambda>p. if p = 7 then Some ''11'' else None)\<rparr>"

definition demo_io :: io where
  "demo_io = \<lparr>record_writes = True, flag_removed = True, token_written = True, flag_written = True,
     token_removed = (\<lambda>_. True), token_read = (\<lambda>_. True)\<rparr>"

definition demo_stamps :: stamps where
  "demo_stamps = \<lparr>stamp = ''1'', now_iso = ''2'', sha = (\<lambda>s. s)\<rparr>"

definition demo_archive :: archive_view where
  "demo_archive = \<lparr>is_abs = (\<lambda>_. True), base_of = (\<lambda>p. p), inside_archive = (\<lambda>_. True),
     is_file = (\<lambda>_. False), archive_listing = NotADirectory, month_listing = (\<lambda>_. NotADirectory)\<rparr>"

definition demo_token :: jobj where
  "demo_token = token_doc demo_os 7 demo_stamps ''w'' ''save''"

definition demo_locks :: locks where
  "demo_locks = \<lparr>tokens = [''w'' \<mapsto> Doc (JObj demo_token)], flag = None, recovery = []\<rparr>"

definition demo_writing :: lock_sys where
  "demo_writing = \<lparr>lk = demo_locks, alive = {demo_proc}, writers = [''w'' \<mapsto> demo_proc], archivers = {}\<rparr>"

lemmas demo_defs = demo_os_def demo_io_def demo_stamps_def demo_archive_def demo_token_def demo_locks_def

lemma demo_acting: "acting demo_os (no_locks\<lparr>alive := {demo_proc}\<rparr>) 7 demo_proc"
  by (simp add: acting_def os_sound_def demo_os_def)

lemma demo_writing_reachable: "reachable_locks demo_writing"
proof -
  let ?s = "no_locks\<lparr>alive := {demo_proc}\<rparr>"
  have "lock_step no_locks ?s"
    by (rule processes [where A = "{demo_proc}"]) (simp add: no_locks_def)
  moreover have "acquire_write_token demo_io demo_stamps demo_os demo_archive 7 ''w'' ''save'' (lk ?s)
      = (Inr ''w'', demo_locks)"
    by (simp add: acquire_write_token_def recover_stale_exclusive_def no_locks_def demo_defs Let_def)
  then have "lock_step ?s (?s\<lparr>lk := demo_locks, writers := (writers ?s)(''w'' \<mapsto> demo_proc)\<rparr>)"
    by (rule write_enter [OF _ demo_acting]) (simp add: no_locks_def)
  moreover have "?s\<lparr>lk := demo_locks, writers := (writers ?s)(''w'' \<mapsto> demo_proc)\<rparr> = demo_writing"
    by (simp add: no_locks_def demo_writing_def)
  ultimately show ?thesis unfolding reachable_locks_def
    by (metis (no_types, lifting) rtranclp.simps)
qed



text \<open>C13: the exclusive flag is recovered only from a holder that is well identified, confirmed dead and
  has no unresolved journal, and only with its recovery record on disk; every other outcome, an
  unwritable record and a failed removal included, leaves the flag as it was. Tokens are never touched.\<close>

theorem recovery_needs_proof_of_death:
  assumes "recover_stale_exclusive io tm os av me boundary s = ((recovered, st), s')"
  shows "tokens s' = tokens s \<and>
    (if recovered then flag s' = None \<and> (\<exists>rec. flag s = Some (Doc (JObj rec)) \<and> recoverable os av rec \<and>
         recorded tm ''recovered'' rec s')
     else flag s' = flag s)"
  using recover_outcome [OF assms] by simp

definition demo_dead_flag :: jobj where
  "demo_dead_flag = flag_doc demo_os 9 demo_stamps (JStr ''op'') ''n1'' (Some ''pending-op.json'')"

lemma recovery_needs_proof_of_death_witness:
  "\<exists>s'. recover_stale_exclusive demo_io demo_stamps demo_os demo_archive 7 ''write_token''
          (demo_locks\<lparr>flag := Some (Doc (JObj demo_dead_flag))\<rparr>) = ((True, HolderDead), s') \<and>
        flag s' = None \<and> recorded demo_stamps ''recovered'' demo_dead_flag s'"
proof -
  let ?s = "demo_locks\<lparr>flag := Some (Doc (JObj demo_dead_flag))\<rparr>"
  let ?r = "recover_stale_exclusive demo_io demo_stamps demo_os demo_archive 7 ''write_token'' ?s"
  have "fst ?r = (True, HolderDead)" by code_simp
  then obtain s' where "?r = ((True, HolderDead), s')" by (metis surjective_pairing)
  with recovery_needs_proof_of_death [OF this] show ?thesis by (auto simp: demo_locks_def)
qed

definition owned :: "io \<Rightarrow> string list \<Rightarrow> locks \<Rightarrow> bool" where
  "owned io names s = (\<forall>t \<in> set names. token_read io t \<and>
     (\<exists>rec p. tokens s t = Some (Doc (JObj rec)) \<and> jget rec ''token_id'' = JStr t \<and> owner rec p))"

lemma verdict_of_owner: "owner rec p \<Longrightarrow> \<exists>l. verdict os rec = Inr l"
  by (cases p) (auto simp: owner_def liveness_def)

lemma sweep_total:
  assumes "\<forall>r \<in> set rs. \<exists>rec p t. r = JObj rec \<and> jget rec ''token_id'' = JStr t \<and> owner rec p"
  shows "\<exists>s'. sweep io os rs s = (Inr (filter (\<lambda>r. \<not> dead_token os r) rs), s')"
  using assms
proof (induction rs arbitrary: s)
  case (Cons a rs)
  then obtain rec p t l where a: "a = JObj rec" "jget rec ''token_id'' = JStr t" "verdict os rec = Inr l"
    using verdict_of_owner by (metis list.set_intros(1))
  have "jhas rec ''token_id''" using a(2) by (intro jget_nonnull_has) simp
  moreover have IH: "\<exists>s'. sweep io os rs s1 = (Inr (filter (\<lambda>r. \<not> dead_token os r) rs), s')" for s1
    using Cons by simp
  moreover obtain s1 s2 where "sweep io os rs s = (Inr (filter (\<lambda>r. \<not> dead_token os r) rs), s1)"
    and "sweep io os rs (if token_removed io t then s\<lparr>tokens := (tokens s)(t := None)\<rparr> else s) =
      (Inr (filter (\<lambda>r. \<not> dead_token os r) rs), s2)"
    using IH by metis
  ultimately show ?case
    using a by (cases l) (simp_all add: dead_token_def)
qed simp

text \<open>with no flag set, and when every token file can be read and names its owner, a pass of the
  archive side is granted the flag exactly if the flag can be written and every listed token has a
  confirmed-dead owner; a live or indeterminate owner keeps the archive waiting.\<close>

theorem exclusive_granted_exactly:
  assumes "flag s = None" and "owned io names s"
  shows "(\<exists>fl s'. exclusive_pass io tm os av me names opid nonce pending s = (Inr (Some fl), s')) \<longleftrightarrow>
     flag_written io \<and>
     (\<forall>t \<in> set names. \<forall>rec. tokens s t = Some (Doc (JObj rec)) \<longrightarrow> verdict os rec = Inr Dead)"
proof -
  let ?docs = "list_tokens io names s"
  have truthy_tok: "truthy (JObj rec)" if "jget rec ''token_id'' = JStr t" for rec t using that by auto
  have docs: "r \<in> set ?docs \<longleftrightarrow> (\<exists>t \<in> set names. \<exists>rec. tokens s t = Some (Doc (JObj rec)) \<and> r = JObj rec)"
    for r
  proof -
    have "r \<in> set ?docs \<longleftrightarrow> truthy r \<and> (\<exists>t \<in> set names. token_read io t \<and> r = read_doc (tokens s t))"
      unfolding list_tokens_def by (auto split: if_splits)
    also have "\<dots> \<longleftrightarrow> truthy r \<and> (\<exists>t \<in> set names. r = read_doc (tokens s t))"
      using assms(2) unfolding owned_def by blast
    also have "\<dots> \<longleftrightarrow> (\<exists>t \<in> set names. \<exists>rec. tokens s t = Some (Doc (JObj rec)) \<and> r = JObj rec)"
    proof -
      have "truthy r \<and> r = read_doc (tokens s t) \<longleftrightarrow> (\<exists>rec. tokens s t = Some (Doc (JObj rec)) \<and> r = JObj rec)"
        if "t \<in> set names" for t
      proof -
        have "\<exists>rec p. tokens s t = Some (Doc (JObj rec)) \<and> jget rec ''token_id'' = JStr t \<and> owner rec p"
          using assms(2) that unfolding owned_def by simp
        then obtain rec where "tokens s t = Some (Doc (JObj rec))" "jget rec ''token_id'' = JStr t"
          by (elim exE conjE)
        moreover from truthy_tok [OF this(2)] have "truthy (JObj rec)" .
        ultimately show ?thesis by (auto simp: read_doc_def)
      qed
      then show ?thesis by blast
    qed
    finally show ?thesis .
  qed
  have "\<exists>rec p t. r = JObj rec \<and> jget rec ''token_id'' = JStr t \<and> owner rec p" if "r \<in> set ?docs" for r
    using assms(2) that unfolding docs by (fastforce simp: owned_def)
  then obtain s2 where s2: "sweep io os ?docs s = (Inr (filter (\<lambda>r. \<not> dead_token os r) ?docs), s2)"
    using sweep_total by blast
  have dead: "filter (\<lambda>r. \<not> dead_token os r) ?docs = [] \<longleftrightarrow>
      (\<forall>t \<in> set names. \<forall>rec. tokens s t = Some (Doc (JObj rec)) \<longrightarrow> verdict os rec = Inr Dead)"
    unfolding filter_empty_conv by (force simp: docs Ball_def dead_token_def)
  have "recover_stale_exclusive io tm os av me ''acquire_exclusive'' s = ((False, FlagAbsent), s)"
    using assms(1) by (simp add: recover_stale_exclusive_def)
  then have "exclusive_pass io tm os av me names opid nonce pending s =
      (if filter (\<lambda>r. \<not> dead_token os r) ?docs = [] then
         (if flag_written io then (Inr (Some (flag_doc os me tm opid nonce pending)),
            s2\<lparr>flag := Some (Doc (JObj (flag_doc os me tm opid nonce pending)))\<rparr>)
          else (Inl IoFailure, s2))
       else (Inr None, s2))"
    using assms(1) s2 by (simp add: exclusive_pass_def Let_def split: list.split)
  then show ?thesis unfolding dead [symmetric] by simp
qed

lemma exclusive_granted_exactly_witness:
  "\<not> (\<exists>fl s'. exclusive_pass demo_io demo_stamps demo_os demo_archive 7 [''w''] (JStr ''op'') ''n'' None
        demo_locks = (Inr (Some fl), s'))"
proof -
  have "flag demo_locks = None" by (simp add: demo_locks_def)
  moreover have "owned demo_io [''w''] demo_locks"
    using token_doc_fields [of demo_os 7 "''11''" demo_stamps "''w''" "''save''"]
    by (auto simp: owned_def demo_locks_def demo_io_def demo_token_def demo_os_def)
  moreover have "verdict demo_os demo_token = Inr Live" by code_simp
  ultimately show ?thesis
    using exclusive_granted_exactly [of demo_locks demo_io "[''w'']"] by (auto simp: demo_locks_def)
qed

text \<open>The loop around the passes; \<open>carries\<close> is the owner's nonce in the flag.\<close>

definition carries :: "string \<Rightarrow> locks \<Rightarrow> bool" where
  "carries nonce s = (\<exists>rec. flag s = Some (Doc (JObj rec)) \<and> jget rec ''nonce'' = JStr nonce)"

lemma pass_result:
  assumes "exclusive_pass io tm os av me names opid nonce pending s = (r, s')"
  shows "(\<exists>fl. r = Inr (Some fl) \<and> flag s' = Some (Doc (JObj fl)) \<and> jget fl ''nonce'' = JStr nonce \<and>
            jget fl ''opid'' = opid) \<or>
         (\<forall>fl. r \<noteq> Inr (Some fl)) \<and> (flag s' = flag s \<or> flag s' = None)"
proof -
  obtain rc st l1 where rc: "recover_stale_exclusive io tm os av me ''acquire_exclusive'' s = ((rc, st), l1)"
    by (metis surj_pair)
  have l1: "flag l1 = flag s \<or> flag l1 = None" using recover_outcome(2,3) [OF rc] by (cases rc) simp_all
  obtain sr l2 where sw: "sweep io os (list_tokens io names l1) l1 = (sr, l2)" by fastforce
  have l2: "flag l2 = flag l1" using sweep_outcome(1) [OF sw] .
  show ?thesis
    using assms rc sw l1 l2
    by (auto simp: exclusive_pass_def Let_def flag_doc_def self_owner_def py_simps
        split: sum.splits list.splits if_splits prod.splits option.splits)
qed



section \<open>What the guarantee rests on\<close>

text \<open>A writer whose start time could not be read records the text \<open>None\<close>, and is judged dead as soon
  as it can be read.\<close>

lemma unread_start_is_condemned:
  assumes "start_time os1 me = None" and "me \<noteq> 0" and "this_host os2 = this_host os1"
    and "pid_exists os2 me = Some True" and "start_time os2 me = Some t" and "t \<noteq> ''None''"
  shows "verdict os2 (token_doc os1 me tm tid purpose) = Inr Dead"
  using assms by (simp add: token_doc_def self_owner_def liveness_def judge_def py_simps)

text \<open>An unreadable token file is left out of the count: exclusivity is granted while its writer lives.\<close>

lemma unreadable_token_is_ignored:
  "\<exists>fl s'. exclusive_pass (demo_io\<lparr>token_read := (\<lambda>_. False)\<rparr>) demo_stamps demo_os demo_archive 7 [''w'']
     (JStr ''op'') ''n'' None demo_locks = (Inr (Some fl), s') \<and> tokens s' ''w'' \<noteq> None"
  by (simp add: exclusive_pass_def recover_stale_exclusive_def list_tokens_def demo_locks_def demo_io_def Let_def)

text \<open>A release whose file removal failed still answers that the flag was released.\<close>

lemma release_reports_success_on_failure:
  "flag_removed io = False \<Longrightarrow> flag s = Some (Doc (JObj rec)) \<Longrightarrow> rec \<noteq> [] \<Longrightarrow>
   jget rec ''opid'' = opid \<Longrightarrow> jget rec ''nonce'' = JStr nonce \<Longrightarrow>
   release_exclusive io opid nonce s = (Inr True, s)"
  by (simp add: release_exclusive_def read_doc_def)

text \<open>Writer tokens do not exclude each other: a second writer is admitted while the first one writes.\<close>

lemma second_writer_is_admitted:
  "\<exists>s'. acquire_write_token demo_io demo_stamps demo_os demo_archive 7 ''w2'' ''save'' demo_locks = (Inr ''w2'', s') \<and>
     tokens s' ''w'' = tokens demo_locks ''w'' \<and> tokens s' ''w2'' \<noteq> None"
  by (simp add: acquire_write_token_def recover_stale_exclusive_def demo_locks_def demo_io_def Let_def)

end
