(* ===== verification/Message_Store.thy ===== *)
theory Message_Store
  imports Writer_Lock "HOL-Library.Product_Lexorder"
begin

text \<open>
  The local communications log (\<open>tools/clearwright_message.py\<close>): building a message, the append-only
  store of one file per message, reading it back in order, and keyed writes that a retry cannot
  duplicate.

  The store is the list of the files of \<open>communications/\<close>; \<open>tlocks\<close> are the lock files of the
  per-thread mutex. File operations fail by the fault schedule, numbered by the store's clock, a
  reading environment says which files can be read, and the outcome of acquiring the writer token
  (\<open>Writer_Lock.acquire_write_token\<close>) is an argument. \<open>strftime\<close> is a pair of formatting functions.
\<close>

section \<open>Canonical content\<close>

fun crlf_to_lf :: "string \<Rightarrow> string" where
  "crlf_to_lf (a # b # s) =
     (if a = CHR 0x0D \<and> b = CHR 0x0A then CHR 0x0A # crlf_to_lf s else a # crlf_to_lf (b # s))"
| "crlf_to_lf s = s"

definition cr_to_lf :: "string \<Rightarrow> string" where
  "cr_to_lf s = map (\<lambda>c. if c = CHR 0x0D then CHR 0x0A else c) s"

definition canonical_text :: "string \<Rightarrow> string" where
  "canonical_text s = strip (cr_to_lf (crlf_to_lf s))"

definition canonical_content :: "json \<Rightarrow> pyexc + string" where
  "canonical_content j =
     (if \<not> truthy j then Inr (canonical_text [])
      else case j of JStr s \<Rightarrow> Inr (canonical_text s) | _ \<Rightarrow> Inl AttributeError)"

text \<open>Bytes of the UTF-8 encoding; a code point from 128 to 255 takes two.\<close>

definition utf8_length :: "string \<Rightarrow> nat" where
  "utf8_length s = sum_list (map (\<lambda>c. if (of_char c :: nat) < 128 then 1 else 2) s)"

definition MESSAGE_MAX_BYTES :: nat where "MESSAGE_MAX_BYTES = 65536"

section \<open>Building a message\<close>

definition DIRECTIONS :: "string list" where "DIRECTIONS = [''inbound'', ''outbound'', ''internal'']"
definition STATUSES :: "string list" where "STATUSES = [''posted'', ''read'', ''claimed'', ''responded'']"
definition INTENTS :: "string list" where "INTENTS = [''chat'', ''request'']"
definition CLOSURES :: "string list" where "CLOSURES = [''done'', ''closed_by_operator'']"

datatype msg_error =
    BadField string | TooLarge | Locked lock_error | Conflict jobj | Raised pyexc

record msg_args =
  m_actor :: json
  m_message :: json
  m_role :: json
  m_packet_id :: json
  m_thread_id :: json
  m_direction :: json
  m_status :: json
  m_source :: json
  m_simulated :: json
  m_work_item_id :: json
  m_intent :: json
  m_closure :: json
  m_closure_meta :: json
  m_idempotency_key :: json

text \<open>\<open>_monotonic_dt\<close>, in microseconds: the reading of the clock, or one more than the last value.\<close>

definition monotonic_dt :: "nat option \<Rightarrow> nat \<Rightarrow> nat" where
  "monotonic_dt prev now = (case prev of Some l \<Rightarrow> if now \<le> l then l + 1 else now | None \<Rightarrow> now)"

record clock_fmt =
  fmt_stamp :: "nat \<Rightarrow> string"
  fmt_iso :: "nat \<Rightarrow> string"

definition or_default :: "json \<Rightarrow> string \<Rightarrow> string" where
  "or_default j d = (if clean j = [] then d else clean j)"

definition one_of :: "string \<Rightarrow> string list \<Rightarrow> string \<Rightarrow> msg_error + unit" where
  "one_of field allowed v = require (v \<in> set allowed) (BadField field)"

text \<open>An optional field of the message, present when its cleaned text is not empty.\<close>

definition opt_field :: "string \<Rightarrow> json \<Rightarrow> jobj" where
  "opt_field k j = (if clean j = [] then [] else [(k, JStr (clean j))])"

definition assemble :: "clock_fmt \<Rightarrow> nat \<Rightarrow> nat \<Rightarrow> msg_args \<Rightarrow> string \<Rightarrow> jobj" where
  "assemble fm t1 t2 a content =
     [(''message_id'', JStr (''msg-'' @ fmt_stamp fm t1)),
      (''thread_id'', JStr (or_default (m_thread_id a) (''thr-'' @ fmt_stamp fm t1))),
      (''at'', JStr (fmt_iso fm t2)),
      (''identity_version'', JInt 2),
      (''actor'', JStr (strip (py_str (m_actor a)))),
      (''role'', JStr (or_default (m_role a) ''agent'')),
      (''direction'', JStr (or_default (m_direction a) ''inbound'')),
      (''status'', JStr (or_default (m_status a) ''posted'')),
      (''message'', JStr content),
      (''source'', JStr (or_default (m_source a) ''local-adapter'')),
      (''simulated'', JBool (truthy (m_simulated a)))] @
     opt_field ''packet_id'' (m_packet_id a) @
     opt_field ''work_item_id'' (m_work_item_id a) @
     opt_field ''intent'' (m_intent a) @
     opt_field ''closure'' (m_closure a) @
     (if clean (m_closure a) \<noteq> [] \<and> truthy (m_closure_meta a)
      then [(''closure_meta'', m_closure_meta a)] else []) @
     opt_field ''idempotency_key'' (m_idempotency_key a)"

text \<open>The checks in their order, with the canonical content they leave.\<close>

definition check_args :: "msg_args \<Rightarrow> msg_error + string" where
  "check_args a =
     sbind (require (truthy (m_actor a) \<and> \<not> blank (py_str (m_actor a))) (BadField ''actor'')) (\<lambda>_.
     sbind (require (truthy (m_message a) \<and> \<not> blank (py_str (m_message a))) (BadField ''message'')) (\<lambda>_.
     sbind (case canonical_content (m_message a) of Inl e \<Rightarrow> Inl (Raised e) | Inr c \<Rightarrow> Inr c) (\<lambda>content.
     sbind (require (utf8_length content \<le> MESSAGE_MAX_BYTES) TooLarge) (\<lambda>_.
     sbind (one_of ''direction'' DIRECTIONS (or_default (m_direction a) ''inbound'')) (\<lambda>_.
     sbind (one_of ''status'' STATUSES (or_default (m_status a) ''posted'')) (\<lambda>_.
     sbind (require (clean (m_intent a) = [] \<or> clean (m_intent a) \<in> set INTENTS) (BadField ''intent'')) (\<lambda>_.
     sbind (require (clean (m_closure a) = [] \<or> clean (m_closure a) \<in> set CLOSURES) (BadField ''closure'')) (\<lambda>_.
     sbind (require (m_closure_meta a = JNull \<or> is_obj (m_closure_meta a)) (BadField ''closure_meta'')) (\<lambda>_.
       Inr content)))))))))"

text \<open>The last time this process handed out goes in and comes back; the clock is read twice.\<close>

definition build_message ::
    "clock_fmt \<Rightarrow> nat \<Rightarrow> nat \<Rightarrow> nat option \<Rightarrow> msg_args \<Rightarrow> (msg_error + jobj) \<times> nat option" where
  "build_message fm now1 now2 prev a =
     (case check_args a of
        Inl e \<Rightarrow> (Inl e, prev)
      | Inr content \<Rightarrow>
          let t1 = monotonic_dt prev now1; t2 = monotonic_dt (Some t1) now2
          in (Inr (assemble fm t1 t2 a content), Some t2))"

section \<open>The store\<close>

record comms =
  mfiles :: "(string \<times> content) list"
  mtick :: nat
  tlocks :: "string list"

definition message_name :: "string \<Rightarrow> nat \<Rightarrow> string" where
  "message_name base n = base @ (if n = 0 then ''.json'' else ''-'' @ str_nat n @ ''.json'')"

definition free_name :: "string \<Rightarrow> comms \<Rightarrow> string option" where
  "free_name base s =
     List.find (\<lambda>n. n \<notin> fst ` set (mfiles s)) (map (message_name base) [0..<1000])"

definition add_file :: "string \<Rightarrow> content \<Rightarrow> comms \<Rightarrow> comms" where
  "add_file n c s = s\<lparr>mfiles := mfiles s @ [(n, c)]\<rparr>"

definition ticks :: "nat \<Rightarrow> comms \<Rightarrow> comms" where
  "ticks k s = s\<lparr>mtick := mtick s + k\<rparr>"

text \<open>
  \<open>write_message\<close>: the calls that may fail are making the directory and creating the file, writing
  the text (a torn file stays) and flushing it to disk (the whole text may stay).
\<close>

definition write_message ::
    "faults \<Rightarrow> lock_error option \<Rightarrow> jobj \<Rightarrow> comms \<Rightarrow> (msg_error + string) \<times> comms" where
  "write_message fault token msg s =
     (if fault (mtick s) then (Inl (Raised OSError), ticks 1 s)
      else if \<not> jhas msg ''message_id'' then (Inl (Raised KeyError), ticks 1 s)
      else case token of
        Some e \<Rightarrow> (Inl (Locked e), ticks 1 s)
      | None \<Rightarrow>
        (case jget msg ''message_id'' of
           JStr base \<Rightarrow>
             (case free_name base s of
                None \<Rightarrow> (Inl (Raised OSError), ticks 1 s)
              | Some n \<Rightarrow>
                  if fault (mtick s + 1) then (Inl (Raised OSError), ticks 2 s)
                  else if fault (mtick s + 2) then (Inl (Raised OSError), add_file n Torn (ticks 3 s))
                  else if fault (mtick s + 3) then
                    (Inl (Raised OSError), add_file n (Doc (JObj msg)) (ticks 4 s))
                  else (Inr n, add_file n (Doc (JObj msg)) (ticks 4 s)))
         | _ \<Rightarrow> (Inl (Raised TypeError), ticks 1 s)))"

record reading =
  listed :: bool
  readable :: "string \<Rightarrow> bool"

text \<open>One file of the listing: left out when it cannot be read or parsed; a document that is not an
  object raises.\<close>

definition read_row :: "reading \<Rightarrow> string \<times> content \<Rightarrow> pyexc + (json \<times> string \<times> jobj) list" where
  "read_row env row =
     (let (name, c) = row in
      if \<not> has_suffix ''.json'' name \<or> \<not> readable env name then Inr []
      else case c of
        Torn \<Rightarrow> Inr []
      | Doc (JObj m) \<Rightarrow> Inr [(get_or m ''at'' (JStr []), name, m)]
      | Doc _ \<Rightarrow> Inl AttributeError)"

text \<open>Timestamps are text, as \<open>build_message\<close> writes them; a mixture cannot be ordered.\<close>

definition sort_rows :: "(json \<times> string \<times> jobj) list \<Rightarrow> pyexc + jobj list" where
  "sort_rows rows =
     (if list_all (\<lambda>(at, _). is_str at) rows
      then Inr (map (\<lambda>(_, _, m). m) (sort_key (\<lambda>(at, name, _). (py_str at, name)) rows))
      else if length rows \<le> 1 then Inr (map (\<lambda>(_, _, m). m) rows)
      else Inl TypeError)"

text \<open>\<open>messages[-limit:]\<close>: a limit of zero is the whole list.\<close>

definition last_n :: "int option \<Rightarrow> 'a list \<Rightarrow> 'a list" where
  "last_n limit xs =
     (case limit of
        Some n \<Rightarrow> if 0 < n then drop (length xs - nat n) xs else xs
      | None \<Rightarrow> xs)"

definition matching :: "string \<Rightarrow> json \<Rightarrow> jobj list \<Rightarrow> jobj list" where
  "matching k v ms = (if truthy v then filter (\<lambda>m. jget m k = v) ms else ms)"

definition read_messages ::
    "reading \<Rightarrow> json \<Rightarrow> json \<Rightarrow> int option \<Rightarrow> comms \<Rightarrow> pyexc + jobj list" where
  "read_messages env packet thread limit s =
     sbind (require (listed env) OSError) (\<lambda>_.
     sbind (map_exc (read_row env) (mfiles s)) (\<lambda>rows.
     sbind (sort_rows (concat rows)) (\<lambda>ms.
       Inr (last_n limit (matching ''thread_id'' thread (matching ''packet_id'' packet ms))))))"

definition find_by_message_id :: "reading \<Rightarrow> json \<Rightarrow> json \<Rightarrow> comms \<Rightarrow> pyexc + jobj option" where
  "find_by_message_id env thread mid s =
     sbind (read_messages env JNull thread None s) (\<lambda>ms.
       Inr (List.find (\<lambda>m. jget m ''message_id'' = mid) ms))"

definition find_by_idempotency_key :: "reading \<Rightarrow> json \<Rightarrow> json \<Rightarrow> comms \<Rightarrow> pyexc + jobj option" where
  "find_by_idempotency_key env thread key s =
     (if \<not> truthy key then Inr None
      else sbind (read_messages env JNull thread None s) (\<lambda>ms.
        Inr (List.find (\<lambda>m. jget m ''idempotency_key'' = key) ms)))"

section \<open>Keyed writes\<close>

text \<open>The lock file of a thread.\<close>

definition idempotency_lock :: "(string \<Rightarrow> string) \<Rightarrow> json \<Rightarrow> pyexc + string" where
  "idempotency_lock hash thread =
     (case py_or thread (JStr []) of JStr t \<Rightarrow> Inr (take 16 (hash t)) | _ \<Rightarrow> Inl AttributeError)"

text \<open>The critical section: the existing message, a conflict, or a new record.\<close>

definition check_and_append ::
    "faults \<Rightarrow> lock_error option \<Rightarrow> reading \<Rightarrow> jobj \<Rightarrow> comms \<Rightarrow> (msg_error + jobj \<times> bool) \<times> comms" where
  "check_and_append fault token env msg s =
     (case find_by_idempotency_key env (jget msg ''thread_id'') (jget msg ''idempotency_key'') s of
        Inl e \<Rightarrow> (Inl (Raised e), s)
      | Inr (Some existing) \<Rightarrow>
          if jget existing ''work_item_id'' = jget msg ''work_item_id'' \<and>
             jget existing ''message'' = jget msg ''message''
          then (Inr (existing, True), s) else (Inl (Conflict existing), s)
      | Inr None \<Rightarrow>
          (case write_message fault token msg s of
             (Inl e, s') \<Rightarrow> (Inl e, s')
           | (Inr _, s') \<Rightarrow> (Inr (msg, False), s')))"

text \<open>Waiting on a lock file that stays ends in an \<open>OSError\<close>; leaving removes the file if it can.\<close>

definition write_message_idempotent ::
    "(string \<Rightarrow> string) \<Rightarrow> faults \<Rightarrow> lock_error option \<Rightarrow> reading \<Rightarrow> bool \<Rightarrow> jobj \<Rightarrow> comms \<Rightarrow>
       (msg_error + jobj \<times> bool) \<times> comms" where
  "write_message_idempotent hash fault token env unlocked msg s =
     (if \<not> truthy (jget msg ''idempotency_key'') then
        (case write_message fault token msg s of
           (Inl e, s') \<Rightarrow> (Inl e, s')
         | (Inr _, s') \<Rightarrow> (Inr (msg, False), s'))
      else case idempotency_lock hash (jget msg ''thread_id'') of
        Inl e \<Rightarrow> (Inl (Raised e), s)
      | Inr l \<Rightarrow>
          if l \<in> set (tlocks s) then (Inl (Raised OSError), s)
          else (case check_and_append fault token env msg s of
              (r, s') \<Rightarrow> (r, if unlocked then s' else s'\<lparr>tlocks := l # tlocks s'\<rparr>)))"

section \<open>The command line\<close>

text \<open>\<open>post\<close> and \<open>respond\<close>: the exit code, with the message built from the arguments.\<close>

definition record_command ::
    "bool \<Rightarrow> bool \<Rightarrow> bool \<Rightarrow> clock_fmt \<Rightarrow> nat \<Rightarrow> nat \<Rightarrow> nat option \<Rightarrow> faults \<Rightarrow> lock_error option \<Rightarrow>
       msg_args \<Rightarrow> comms \<Rightarrow> (msg_error + int) \<times> comms" where
  "record_command respond dry root_exists fm now1 now2 prev fault token a s =
     (if respond \<and> clean (m_thread_id a) = [] then (Inr 1, s)
      else let a' = a\<lparr>
          m_direction := py_or (m_direction a) (JStr (if respond then ''outbound'' else ''inbound'')),
          m_status := py_or (m_status a) (JStr (if respond then ''responded'' else ''posted'')),
          m_work_item_id := JNull, m_closure := JNull, m_closure_meta := JNull, m_idempotency_key := JNull\<rparr> in
      case fst (build_message fm now1 now2 prev a') of
        Inl (Raised e) \<Rightarrow> (Inl (Raised e), s)
      | Inl _ \<Rightarrow> (Inr 1, s)
      | Inr msg \<Rightarrow>
          if dry then (Inr 0, s)
          else if \<not> root_exists then (Inr 1, s)
          else (case write_message fault token msg s of
              (Inl (Raised OSError), s') \<Rightarrow> (Inr 1, s')
            | (Inl e, s') \<Rightarrow> (Inl e, s')
            | (Inr _, s') \<Rightarrow> (Inr 0, s')))"

end
