(* ===== verification/Gate_Store.thy ===== *)
theory Gate_Store
  imports Message_Store Council_Store
begin

text \<open>
  Plan-level gates (\<open>tools/clearwright_gate.py\<close>): the canonical subject of a work item, the store of
  one record per subject with its append-only list of gates, idempotent gate creation, and the two
  dispositions that only a qualifying operator message can record.

  \<open>gfiles\<close> maps the file name of a record (the SHA-256 digest of its subject) to its content. The
  environment \<open>genv\<close> holds what an operation gets from outside: the clock, the digest, the outcome of
  acquiring the writer token, whether the record can be read and written, and \<open>strptime\<close> for the
  stored timestamps as a function to microseconds.
\<close>

section \<open>Canonical subject\<close>

text \<open>\<open>wid[i:-j]\<close> and \<open>wid[i:]\<close>.\<close>

definition slice :: "nat \<Rightarrow> nat \<Rightarrow> string \<Rightarrow> string" where
  "slice i j s = drop i (take (length s - j) s)"

definition subject_of :: "string \<Rightarrow> string" where
  "subject_of wid =
     (if wid = [] then []
      else if has_prefix ''message:'' wid then wid
      else if has_prefix ''packet:'' wid \<and> has_suffix '':cta'' wid then ''packet:'' @ slice 7 4 wid
      else if has_prefix ''in_progress:'' wid then ''packet:'' @ drop 12 wid
      else if has_prefix ''rfi:'' wid then ''packet:'' @ drop 4 wid
      else if has_prefix ''packet:'' wid then ''packet:'' @ drop 7 wid
      else if CHR '':'' \<notin> set wid then ''packet:'' @ wid
      else wid)"

definition canonical_subject :: "json \<Rightarrow> string" where
  "canonical_subject work_item_id = subject_of (clean work_item_id)"

section \<open>The store\<close>

datatype gate_error = GateRefused jobj | TokenRefused lock_error | GateRaised pyexc

record gsys =
  gfiles :: "string \<Rightarrow> content option"
  gcomms :: comms

record genv =
  g_now :: string
  g_stamp :: string
  g_sha :: "string \<Rightarrow> string"
  g_token :: "lock_error option"
  g_readable :: bool
  g_writable :: bool
  g_instant :: "string \<Rightarrow> int option"

definition refused :: "string \<Rightarrow> jobj \<Rightarrow> gate_error" where
  "refused err details = GateRefused ([(''ok'', JBool False), (''error'', JStr err)] @ details)"

definition load_record :: "genv \<Rightarrow> gsys \<Rightarrow> string \<Rightarrow> gate_error + jobj" where
  "load_record env s subject =
     (case gfiles s (g_sha env subject) of
        None \<Rightarrow> Inr [(''subject'', JStr subject), (''gates'', JArr [])]
      | Some c \<Rightarrow>
          if \<not> g_readable env then Inl (GateRaised OSError)
          else (case c of
              Torn \<Rightarrow> Inl (GateRaised ValueError)
            | Doc (JObj rec) \<Rightarrow>
                if jget rec ''subject'' \<noteq> JStr subject then
                  Inl (refused ''gate_subject_mismatch''
                    [(''expected'', JStr subject), (''stored'', jget rec ''subject'')])
                else Inr (set_default ''gates'' (JArr []) rec)
            | Doc _ \<Rightarrow> Inl (GateRaised AttributeError)))"

text \<open>\<open>_write_record_locked\<close>, under a token the caller holds, and \<open>_write_record\<close>, which takes one.\<close>

definition write_record_locked :: "genv \<Rightarrow> jobj \<Rightarrow> gsys \<Rightarrow> (gate_error + unit) \<times> gsys" where
  "write_record_locked env rec s =
     (if \<not> g_writable env then (Inl (GateRaised OSError), s)
      else (Inr (), s\<lparr>gfiles := (gfiles s)(g_sha env (py_str (jget rec ''subject'')) \<mapsto> Doc (JObj rec))\<rparr>))"

definition write_record :: "genv \<Rightarrow> jobj \<Rightarrow> gsys \<Rightarrow> (gate_error + unit) \<times> gsys" where
  "write_record env rec s =
     (case g_token env of
        Some e \<Rightarrow> (Inl (TokenRefused e), s)
      | None \<Rightarrow> write_record_locked env rec s)"

definition raising :: "pyexc + 'a \<Rightarrow> gate_error + 'a" where
  "raising m = (case m of Inl e \<Rightarrow> Inl (GateRaised e) | Inr x \<Rightarrow> Inr x)"

definition load_gates :: "genv \<Rightarrow> gsys \<Rightarrow> json \<Rightarrow> gate_error + json" where
  "load_gates env s wid =
     (let subject = canonical_subject wid in
      if subject = [] then Inr (JArr [])
      else sbind (load_record env s subject) (\<lambda>rec. Inr (get_or rec ''gates'' (JArr []))))"

fun first_unresolved :: "json list \<Rightarrow> pyexc + (nat \<times> jobj) option" where
  "first_unresolved [] = Inr None"
| "first_unresolved (g # gs) =
     (case g of
        JObj gate \<Rightarrow>
          if jget gate ''disposition'' = JStr ''unresolved'' then Inr (Some (0, gate))
          else sbind (first_unresolved gs) (\<lambda>r. Inr (map_option (\<lambda>(i, x). (Suc i, x)) r))
      | _ \<Rightarrow> Inl AttributeError)"

definition active_gate :: "genv \<Rightarrow> gsys \<Rightarrow> json \<Rightarrow> gate_error + jobj option" where
  "active_gate env s wid =
     sbind (load_gates env s wid) (\<lambda>gates.
     sbind (raising (py_iter gates)) (\<lambda>gs.
     sbind (raising (first_unresolved gs)) (\<lambda>r. Inr (map_option snd r))))"

section \<open>Enforcement\<close>

definition refusal_payload :: "jobj \<Rightarrow> jobj" where
  "refusal_payload gate =
     [(''ok'', JBool False), (''error'', JStr ''unresolved_gate''), (''exit_equivalent'', JInt 9),
      (''work_item_id'', jget gate ''work_item_id_as_seen''), (''subject'', jget gate ''subject''),
      (''gate_id'', jget gate ''gate_id''), (''council_id'', jget gate ''council_id''),
      (''remediation'', JArr [
        JStr ''This work item has an unresolved plan-level gate; the governed workflow is stopped.'',
        JStr (''To proceed, the operator posts a durable inbound message (after the gate) naming the work item or council ''
          @ py_str (jget gate ''council_id'') @ '' and authorizing proceeding, then runs grant-proceed.''),
        JStr ''To accept unverified work instead, the operator authorizes and runs close.''])]"

definition require_open :: "genv \<Rightarrow> gsys \<Rightarrow> json \<Rightarrow> gate_error + unit" where
  "require_open env s wid =
     sbind (active_gate env s wid) (\<lambda>r. case r of
         None \<Rightarrow> Inr () | Some gate \<Rightarrow> Inl (GateRefused (refusal_payload gate)))"

definition is_blocked :: "genv \<Rightarrow> gsys \<Rightarrow> json \<Rightarrow> gate_error + bool" where
  "is_blocked env s wid = sbind (active_gate env s wid) (\<lambda>r. Inr (r \<noteq> None))"

section \<open>Escalation identity\<close>

definition GATE_POLICY_VERSION :: int where "GATE_POLICY_VERSION = 1"

text \<open>A JSON string literal with \<open>ensure_ascii=False\<close>.\<close>

definition json_char :: "char \<Rightarrow> string" where
  "json_char c = (let n = of_char c :: nat in
     if c = CHR 0x22 \<or> c = CHR 0x5C then [CHR 0x5C, c]
     else if n = 8 then [CHR 0x5C, CHR ''b''] else if n = 9 then [CHR 0x5C, CHR ''t'']
     else if n = 10 then [CHR 0x5C, CHR ''n''] else if n = 12 then [CHR 0x5C, CHR ''f'']
     else if n = 13 then [CHR 0x5C, CHR ''r'']
     else if n < 32 then [CHR 0x5C, CHR ''u'', CHR ''0'', CHR ''0'', hex_char (n div 16), hex_char (n mod 16)]
     else [c])"

definition json_string :: "string \<Rightarrow> string" where
  "json_string s = CHR 0x22 # concat (map json_char s) @ [CHR 0x22]"

text \<open>Below 256, normal form C changes nothing and case folding is lower case, and two letters for the
  sharp s.\<close>

definition casefold :: "string \<Rightarrow> string" where
  "casefold s = concat (map (\<lambda>c. if c = CHR 0xDF then ''ss'' else [lower_char c]) s)"

definition norm :: "bool \<Rightarrow> json \<Rightarrow> string" where
  "norm folded v = (let s = (if v = JNull then [] else py_str v) in if folded then casefold s else s)"

text \<open>The canonical serialisation: keys in order, no spaces.\<close>

definition dedup_blob :: "string \<Rightarrow> string \<Rightarrow> string \<Rightarrow> int \<Rightarrow> string \<Rightarrow> string \<Rightarrow> int \<Rightarrow> string" where
  "dedup_blob council oc ph rounds scope subject v =
     CHR ''{'' # json_string ''council'' @ '':'' @ json_string council @ '','' @
     json_string ''outcome'' @ '':'' @ json_string oc @ '','' @
     json_string ''phase'' @ '':'' @ json_string ph @ '','' @
     json_string ''rounds'' @ '':'' @ str_int rounds @ '','' @
     json_string ''scope'' @ '':'' @ json_string scope @ '','' @
     json_string ''subject'' @ '':'' @ json_string subject @ '','' @
     json_string ''v'' @ '':'' @ str_int v @ ''}''"

record escalation =
  e_council :: json
  e_phase :: json
  e_outcome :: json
  e_rounds :: json
  e_scope :: json

definition dedup_key :: "(string \<Rightarrow> string) \<Rightarrow> json \<Rightarrow> escalation \<Rightarrow> pyexc + string" where
  "dedup_key digest subject e =
     sbind (to_int (py_or (e_rounds e) (JInt 0))) (\<lambda>rounds.
       Inr (digest (dedup_blob (norm False (e_council e)) (norm True (e_outcome e)) (norm True (e_phase e))
         rounds (norm False (py_or (e_scope e) (JStr ''none''))) (norm False subject) GATE_POLICY_VERSION)))"

definition legacy_matches :: "(string \<Rightarrow> string) \<Rightarrow> jobj \<Rightarrow> string \<Rightarrow> escalation \<Rightarrow> pyexc + bool" where
  "legacy_matches digest gate subject e =
     (if \<not> truthy (jget gate ''council_id'') \<or> \<not> truthy (jget gate ''outcome'') then Inr False
      else sbind (dedup_key digest (py_or (jget gate ''subject'') (JStr subject))
             \<lparr>e_council = jget gate ''council_id'', e_phase = jget gate ''phase'',
              e_outcome = jget gate ''outcome'',
              e_rounds = get_or gate ''substantive_round_count'' (e_rounds e),
              e_scope = get_or gate ''scope_hash'' (e_scope e)\<rparr>) (\<lambda>legacy_key.
           sbind (dedup_key digest (JStr subject) e) (\<lambda>this_key. Inr (legacy_key = this_key))))"

section \<open>Idempotent creation\<close>

text \<open>\<open>any(...)\<close> over recorded events: the council, trigger and invocation already noted.\<close>

fun has_event :: "json \<Rightarrow> json \<Rightarrow> json list \<Rightarrow> pyexc + bool" where
  "has_event council invocation [] = Inr False"
| "has_event council invocation (e # es) =
     (case e of
        JObj ev \<Rightarrow>
          if jget ev ''council_id'' = council \<and> jget ev ''trigger'' = JStr ''reconcile'' \<and>
             jget ev ''invocation_id'' = invocation then Inr True
          else has_event council invocation es
      | _ \<Rightarrow> Inl AttributeError)"

text \<open>The lock-free fast path: the gate of this key, when this very event is already recorded.\<close>

fun recognized :: "string \<Rightarrow> json \<Rightarrow> json \<Rightarrow> json list \<Rightarrow> pyexc + jobj option" where
  "recognized key council invocation [] = Inr None"
| "recognized key council invocation (g # gs) =
     (case g of
        JObj gate \<Rightarrow>
          if jget gate ''dedup_key'' = JStr key then
            sbind (py_iter (py_or (jget gate ''deduplicated_events'') (JArr []))) (\<lambda>es.
            sbind (has_event council invocation es) (\<lambda>b. Inr (if b then Some gate else None)))
          else recognized key council invocation gs
      | _ \<Rightarrow> Inl AttributeError)"

text \<open>The gate of this key, or the first keyless gate of the same escalation (to be backfilled).\<close>

fun find_match ::
    "(string \<Rightarrow> string) \<Rightarrow> string \<Rightarrow> string \<Rightarrow> escalation \<Rightarrow> json list \<Rightarrow> pyexc + (nat \<times> bool) option" where
  "find_match digest key subject e [] = Inr None"
| "find_match digest key subject e (g # gs) =
     (case g of
        JObj gate \<Rightarrow>
          if jget gate ''dedup_key'' = JStr key then Inr (Some (0, False))
          else sbind (if truthy (jget gate ''dedup_key'') then Inr False else legacy_matches digest gate subject e)
            (\<lambda>legacy. if legacy then Inr (Some (0, True))
              else sbind (find_match digest key subject e gs)
                (\<lambda>r. Inr (map_option (\<lambda>(i, b). (Suc i, b)) r)))
      | _ \<Rightarrow> Inl AttributeError)"

text \<open>A list the code iterates and appends to; what other values raise.\<close>

definition mutable_list :: "json \<Rightarrow> pyexc + json list" where
  "mutable_list j = (case j of JArr xs \<Rightarrow> Inr xs | JStr _ \<Rightarrow> Inl AttributeError | JObj _ \<Rightarrow> Inl AttributeError
     | _ \<Rightarrow> Inl TypeError)"

definition new_event :: "json \<Rightarrow> json \<Rightarrow> string \<Rightarrow> json" where
  "new_event council invocation now = JObj [(''council_id'', council), (''trigger'', JStr ''reconcile''),
     (''invocation_id'', invocation), (''at'', JStr now)]"

definition new_gate :: "genv \<Rightarrow> string \<Rightarrow> json \<Rightarrow> escalation \<Rightarrow> string \<Rightarrow> jobj" where
  "new_gate env subject wid e key =
     [(''gate_id'', JStr (''gate-'' @ g_stamp env)), (''subject'', JStr subject),
      (''work_item_id_as_seen'', JStr (py_str wid)), (''work_item_id'', JStr subject),
      (''council_id'', e_council e), (''phase'', e_phase e), (''outcome'', e_outcome e),
      (''dedup_key'', JStr key), (''created_at'', JStr (g_now env)),
      (''disposition'', JStr ''unresolved''), (''authority'', JNull)]"

text \<open>Recognition of an existing gate: the backfilled key and the event, written only on a change.\<close>

definition recognize ::
    "genv \<Rightarrow> jobj \<Rightarrow> json list \<Rightarrow> nat \<Rightarrow> bool \<Rightarrow> string \<Rightarrow> json \<Rightarrow> json \<Rightarrow> gsys \<Rightarrow>
       (gate_error + jobj \<times> bool) \<times> gsys" where
  "recognize env rec gates i backfilled key council invocation s =
     (let gate0 = obj_of (gates ! i);
          gate1 = (if backfilled then jput ''dedup_key'' (JStr key) gate0 else gate0);
          gate2 = set_default ''deduplicated_events'' (JArr []) gate1 in
      case sbind (mutable_list (jget gate2 ''deduplicated_events'')) (\<lambda>es.
             sbind (has_event council invocation es) (\<lambda>b. Inr (es, b))) of
        Inl x \<Rightarrow> (Inl (GateRaised x), s)
      | Inr (es, seen) \<Rightarrow>
          let gate = (if seen then gate2
                else jput ''deduplicated_events'' (JArr (es @ [new_event council invocation (g_now env)])) gate2) in
          if seen \<and> \<not> backfilled then (Inr (gate, True), s)
          else (case write_record_locked env (jput ''gates'' (JArr (gates[i := JObj gate])) rec) s of
              (Inl x, s') \<Rightarrow> (Inl x, s')
            | (Inr _, s') \<Rightarrow> (Inr (gate, True), s')))"

definition ensure_locked ::
    "genv \<Rightarrow> string \<Rightarrow> string \<Rightarrow> json \<Rightarrow> escalation \<Rightarrow> json \<Rightarrow> gsys \<Rightarrow> (gate_error + jobj \<times> bool) \<times> gsys" where
  "ensure_locked env key subject wid e invocation s =
     (case sbind (load_record env s subject) (\<lambda>rec.
             sbind (raising (mutable_list (jget rec ''gates''))) (\<lambda>gates.
             sbind (raising (find_match (g_sha env) key subject e gates)) (\<lambda>m. Inr (rec, gates, m)))) of
        Inl x \<Rightarrow> (Inl x, s)
      | Inr (rec, gates, Some (i, backfilled)) \<Rightarrow>
          recognize env rec gates i backfilled key (e_council e) invocation s
      | Inr (rec, gates, None) \<Rightarrow>
          let gate = new_gate env subject wid e key in
          (case write_record_locked env (jput ''gates'' (JArr (gates @ [JObj gate])) rec) s of
             (Inl x, s') \<Rightarrow> (Inl x, s')
           | (Inr _, s') \<Rightarrow> (Inr (gate, False), s')))"

definition ensure_gate ::
    "genv \<Rightarrow> json \<Rightarrow> escalation \<Rightarrow> json \<Rightarrow> gsys \<Rightarrow> (gate_error + jobj \<times> bool) \<times> gsys" where
  "ensure_gate env wid e invocation s =
     (if \<not> truthy invocation then (Inl (refused ''invocation_id_required'' []), s)
      else let subject = canonical_subject wid in
      case sbind (raising (dedup_key (g_sha env) (JStr subject) e)) (\<lambda>key.
             sbind (load_record env s subject) (\<lambda>rec.
             sbind (raising (py_iter (jget rec ''gates''))) (\<lambda>gates.
             sbind (raising (recognized key (e_council e) invocation gates)) (\<lambda>r. Inr (key, r))))) of
        Inl x \<Rightarrow> (Inl x, s)
      | Inr (_, Some gate) \<Rightarrow> (Inr (gate, True), s)
      | Inr (key, None) \<Rightarrow>
          (case g_token env of
             Some t \<Rightarrow> (Inl (TokenRefused t), s)
           | None \<Rightarrow> ensure_locked env key subject wid e invocation s))"

text \<open>\<open>create_gate\<close>, kept for compatibility: refused while a gate is unresolved.\<close>

definition compat_gate :: "genv \<Rightarrow> string \<Rightarrow> json \<Rightarrow> json \<Rightarrow> json \<Rightarrow> json \<Rightarrow> jobj" where
  "compat_gate env subject wid council ph oc =
     [(''gate_id'', JStr (''gate-'' @ g_stamp env)), (''subject'', JStr subject),
      (''work_item_id_as_seen'', JStr (py_str wid)), (''council_id'', council),
      (''phase'', ph), (''outcome'', oc), (''created_at'', JStr (g_now env)),
      (''disposition'', JStr ''unresolved''), (''authority'', JNull)]"

definition create_gate :: "genv \<Rightarrow> json \<Rightarrow> json \<Rightarrow> json \<Rightarrow> json \<Rightarrow> gsys \<Rightarrow> (gate_error + jobj) \<times> gsys" where
  "create_gate env wid council ph oc s =
     (let subject = canonical_subject wid in
      case sbind (load_record env s subject) (\<lambda>rec.
             sbind (raising (mutable_list (jget rec ''gates''))) (\<lambda>gates.
             sbind (raising (first_unresolved gates)) (\<lambda>r. Inr (rec, gates, r)))) of
        Inl x \<Rightarrow> (Inl x, s)
      | Inr (_, _, Some (_, gate)) \<Rightarrow>
          (Inl (refused ''gate_already_unresolved''
             [(''subject'', JStr subject), (''gate_id'', jget gate ''gate_id'')]), s)
      | Inr (rec, gates, None) \<Rightarrow>
          (let gate = compat_gate env subject wid council ph oc in
           case write_record env (jput ''gates'' (JArr (gates @ [JObj gate])) rec) s of
             (Inl x, s') \<Rightarrow> (Inl x, s')
           | (Inr _, s') \<Rightarrow> (Inr gate, s')))"

section \<open>Authority\<close>

definition EXEMPT_MESSAGE_SOURCES :: "string list" where
  "EXEMPT_MESSAGE_SOURCES = [''use-cw-gate'', ''use-cw-annotation'', ''use-cw-summary'']"

definition PROCEED_PHRASES :: "string list" where
  "PROCEED_PHRASES = [''authorize proceeding'', ''authorized to proceed'', ''authorize continuation'',
     ''proceed despite'', ''resume execution despite'']"

definition CLOSE_PHRASES :: "string list" where
  "CLOSE_PHRASES = [''authorize closure'', ''authorize closing'', ''close work item'',
     ''accept without verification'']"

definition NEGATIONS :: "string list" where
  "NEGATIONS = [''not'', ''no'', ''never'', ''do not'', ''don'' @ [CHR 0x27] @ ''t'', ''cannot'',
     ''won'' @ [CHR 0x27] @ ''t'']"

definition iso_of :: "genv \<Rightarrow> json \<Rightarrow> int option" where
  "iso_of env j = (case j of JStr t \<Rightarrow> if t = [] then None else g_instant env t | _ \<Rightarrow> None)"

definition id_char :: "char \<Rightarrow> bool" where
  "id_char c = (let n = of_char c :: nat in
     (65 \<le> n \<and> n \<le> 90) \<or> (97 \<le> n \<and> n \<le> 122) \<or> (48 \<le> n \<and> n \<le> 58) \<or> n = 95 \<or> n = 45)"

fun token_from :: "bool \<Rightarrow> string \<Rightarrow> string \<Rightarrow> bool" where
  "token_from before tok [] = False"
| "token_from before tok (c # cs) =
     ((\<not> before \<and> has_prefix tok (c # cs) \<and>
         (case drop (length tok) (c # cs) of [] \<Rightarrow> True | x # _ \<Rightarrow> \<not> id_char x)) \<or>
      token_from (id_char c) tok cs)"

definition id_token_present :: "string \<Rightarrow> json \<Rightarrow> pyexc + bool" where
  "id_token_present body token =
     (if \<not> truthy token then Inr False
      else case token of JStr t \<Rightarrow> Inr (token_from False t body) | _ \<Rightarrow> Inl TypeError)"

text \<open>\<open>re.finditer\<close> of a literal: the starts of the non-overlapping occurrences.\<close>

fun occurrences :: "string \<Rightarrow> nat \<Rightarrow> nat \<Rightarrow> string \<Rightarrow> nat list" where
  "occurrences p pos skip [] = []"
| "occurrences p pos (Suc k) (c # cs) = occurrences p (Suc pos) k cs"
| "occurrences p pos 0 (c # cs) =
     (if has_prefix p (c # cs) then pos # occurrences p (Suc pos) (length p - 1) cs
      else occurrences p (Suc pos) 0 cs)"

definition quoted :: "string \<Rightarrow> nat \<Rightarrow> bool" where
  "quoted body start = (odd (length (filter (\<lambda>c. c = CHR 0x22) (take start body))) \<or>
     odd (length (filter (\<lambda>c. c = CHR 0x27) (take start body))))"

definition negated :: "string \<Rightarrow> nat \<Rightarrow> bool" where
  "negated low start = (let window = drop (start - 24) (take start low) in
     list_ex (\<lambda>neg. find_word True False neg window) NEGATIONS)"

definition phrase_authorizes :: "string \<Rightarrow> string list \<Rightarrow> bool" where
  "phrase_authorizes body phrases =
     (let low = lower body in
      list_ex (\<lambda>p. list_ex (\<lambda>start. \<not> quoted body start \<and> \<not> negated low start) (occurrences p 0 0 low))
        phrases)"

definition find_message :: "reading \<Rightarrow> json \<Rightarrow> gsys \<Rightarrow> pyexc + jobj option" where
  "find_message rd mid s =
     sbind (read_messages rd JNull JNull None (gcomms s)) (\<lambda>ms.
       Inr (List.find (\<lambda>m. jget m ''message_id'' = mid) ms))"

text \<open>\<open>names_target\<close>: the disjunction is evaluated from left to right.\<close>

definition names_target :: "string \<Rightarrow> jobj \<Rightarrow> pyexc + bool" where
  "names_target body gate =
     sbind (id_token_present body (jget gate ''work_item_id_as_seen'')) (\<lambda>a. if a then Inr True else
     sbind (id_token_present body (jget gate ''subject'')) (\<lambda>b. if b then Inr True else
       id_token_present body (jget gate ''council_id'')))"

text \<open>The criteria on the message found, in their order.\<close>

definition judge_message ::
    "genv \<Rightarrow> jobj \<Rightarrow> string list \<Rightarrow> json \<Rightarrow> jobj \<Rightarrow> gate_error + jobj" where
  "judge_message env gate phrases after_outcome msg =
     (let created = iso_of env (jget msg ''at'') in
      sbind (require (jget msg ''actor'' = JStr ''OPERATOR-0001'' \<and> jget msg ''direction'' = JStr ''inbound'')
        (refused ''authority_not_operator_inbound'' [])) (\<lambda>_.
      sbind (require (jget msg ''source'' \<notin> JStr ` set EXEMPT_MESSAGE_SOURCES)
        (refused ''authority_source_excluded'' [(''source'', jget msg ''source'')])) (\<lambda>_.
      sbind (require (case (created, iso_of env (jget gate ''created_at'')) of
                (Some c, Some g) \<Rightarrow> g < c | _ \<Rightarrow> False)
        (refused ''authority_not_after_gate''
          [(''message_at'', jget msg ''at''), (''gate_created_at'', jget gate ''created_at'')])) (\<lambda>_.
      sbind (require (after_outcome = JNull \<or>
                (case (created, iso_of env after_outcome) of (Some c, Some t) \<Rightarrow> t < c | _ \<Rightarrow> True))
        (refused ''authority_not_after_failed_outcome''
          [(''message_at'', jget msg ''at''), (''outcome_at'', after_outcome)])) (\<lambda>_.
      sbind (case get_or msg ''message'' (JStr []) of JStr b \<Rightarrow> Inr b | _ \<Rightarrow> Inl (GateRaised TypeError)) (\<lambda>body.
      sbind (raising (names_target body gate)) (\<lambda>named.
      sbind (require named (refused ''authority_missing_target_id''
          [(''expected_any'', JArr [jget gate ''work_item_id_as_seen'', jget gate ''council_id''])])) (\<lambda>_.
      sbind (require (phrase_authorizes body phrases) (refused ''authority_missing_phrase'' [])) (\<lambda>_.
        Inr msg)))))))))"

definition validate_authority ::
    "genv \<Rightarrow> reading \<Rightarrow> jobj \<Rightarrow> json \<Rightarrow> string list \<Rightarrow> json \<Rightarrow> gsys \<Rightarrow> gate_error + jobj" where
  "validate_authority env rd gate mid phrases after_outcome s =
     (case find_message rd mid s of
        Inl e \<Rightarrow> Inl (GateRaised e)
      | Inr None \<Rightarrow> Inl (refused ''authority_message_not_found'' [(''operator_message_id'', mid)])
      | Inr (Some msg) \<Rightarrow> judge_message env gate phrases after_outcome msg)"

section \<open>Dispositions\<close>

definition excerpt :: "jobj \<Rightarrow> string" where
  "excerpt msg = take 280 (text_of (jget msg ''message''))"

definition disposed :: "genv \<Rightarrow> string \<Rightarrow> jobj \<Rightarrow> jobj \<Rightarrow> jobj" where
  "disposed env disposition msg gate =
     jput ''authority'' (JObj [(''message_id'', jget msg ''message_id''),
         (''excerpt'', JStr (excerpt msg)), (''recorded_at'', JStr (g_now env))])
       (jput ''disposition'' (JStr disposition) gate)"

definition record_disposition ::
    "genv \<Rightarrow> json \<Rightarrow> string \<Rightarrow> jobj \<Rightarrow> gsys \<Rightarrow> (gate_error + jobj) \<times> gsys" where
  "record_disposition env wid disposition msg s =
     (let subject = canonical_subject wid in
      case sbind (load_record env s subject) (\<lambda>rec.
             sbind (raising (py_iter (jget rec ''gates''))) (\<lambda>gates.
             sbind (raising (first_unresolved gates)) (\<lambda>r. Inr (rec, gates, r)))) of
        Inl x \<Rightarrow> (Inl x, s)
      | Inr (_, _, None) \<Rightarrow> (Inl (refused ''no_unresolved_gate'' [(''subject'', JStr subject)]), s)
      | Inr (rec, gates, Some (i, gate0)) \<Rightarrow>
          let gate = disposed env disposition msg gate0 in
          (case write_record env (jput ''gates'' (JArr (gates[i := JObj gate])) rec) s of
             (Inl x, s') \<Rightarrow> (Inl x, s')
           | (Inr _, s') \<Rightarrow> (Inr gate, s')))"

definition dispose ::
    "genv \<Rightarrow> reading \<Rightarrow> json \<Rightarrow> json \<Rightarrow> string list \<Rightarrow> json \<Rightarrow> string \<Rightarrow> gsys \<Rightarrow> (gate_error + jobj) \<times> gsys" where
  "dispose env rd wid mid phrases after_outcome disposition s =
     (case active_gate env s wid of
        Inl x \<Rightarrow> (Inl x, s)
      | Inr None \<Rightarrow> (Inl (refused ''no_unresolved_gate'' [(''work_item_id'', JStr (py_str wid))]), s)
      | Inr (Some gate) \<Rightarrow>
          (case validate_authority env rd gate mid phrases after_outcome s of
             Inl x \<Rightarrow> (Inl x, s)
           | Inr msg \<Rightarrow> record_disposition env wid disposition msg s))"

definition grant_proceed :: "genv \<Rightarrow> reading \<Rightarrow> json \<Rightarrow> json \<Rightarrow> gsys \<Rightarrow> (gate_error + jobj) \<times> gsys" where
  "grant_proceed env rd wid mid s = dispose env rd wid mid PROCEED_PHRASES JNull ''resolved'' s"

definition close_gate_unresolved ::
    "genv \<Rightarrow> reading \<Rightarrow> json \<Rightarrow> json \<Rightarrow> json \<Rightarrow> gsys \<Rightarrow> (gate_error + jobj) \<times> gsys" where
  "close_gate_unresolved env rd wid mid after_outcome s =
     dispose env rd wid mid CLOSE_PHRASES after_outcome ''closed_unresolved'' s"

definition record_operator_closure ::
    "genv \<Rightarrow> json \<Rightarrow> jobj \<Rightarrow> gsys \<Rightarrow> (gate_error + jobj option) \<times> gsys" where
  "record_operator_closure env wid msg s =
     (case active_gate env s wid of
        Inl x \<Rightarrow> (Inl x, s)
      | Inr None \<Rightarrow> (Inr None, s)
      | Inr (Some _) \<Rightarrow>
          (case record_disposition env wid ''closed_unresolved'' msg s of
             (Inl x, s') \<Rightarrow> (Inl x, s')
           | (Inr gate, s') \<Rightarrow> (Inr (Some gate), s')))"

end
