(* ===== verification/Gate_Escalation.thy ===== *)
theory Gate_Escalation
  imports Gate_Store
begin

text \<open>
  Mandatory gates for escalated councils (\<open>tools/clearwright_gate.py\<close>): strict reads of the council
  records, the gate of one escalated council, the durable notice of a failure, and the healing sweep
  over all councils of a work item.

  \<open>cview\<close> is what the file system shows of the councils directory during the operation; a file that
  cannot be read is \<open>Torn\<close>. The notice is posted through \<open>Message_Store\<close>; resolving the origin thread
  of a work item (\<open>clearwright_work._resolve_target\<close>) and the text of an exception are arguments.
\<close>

record cview =
  c_root :: listing
  c_isdir :: "string \<Rightarrow> bool"
  c_council :: "string \<Rightarrow> content option"
  c_outcome :: "string \<Rightarrow> content option"
  c_round :: "string \<Rightarrow> int \<Rightarrow> content option"
  c_empty :: "string \<Rightarrow> bool option"

record nenv =
  n_fmt :: clock_fmt
  n_clock :: "nat \<times> nat"
  n_prev :: "nat option"
  n_faults :: faults
  n_token :: "lock_error option"
  n_reading :: reading
  n_unlocked :: bool
  n_thread_of :: "json \<Rightarrow> json"
  n_exc_text :: "gate_error \<Rightarrow> string"
  n_post_text :: "msg_error \<Rightarrow> string"

definition ESCALATION_OUTCOMES :: "string list" where
  "ESCALATION_OUTCOMES = [''operator_required'', ''hard_gate'']"

definition ESCALATION_PHASES :: "string list" where
  "ESCALATION_PHASES = [''plan'', ''incident'']"

text \<open>\<open>^cw-council-\d{8}T\d{12}$\<close>; the dollar also matches before one final newline.\<close>

definition council_dir_name :: "string \<Rightarrow> bool" where
  "council_dir_name name =
     list_ex (\<lambda>n. length n = 32 \<and> take 11 n = ''cw-council-'' \<and> list_all is_digit (take 8 (drop 11 n)) \<and>
         n ! 19 = CHR ''T'' \<and> list_all is_digit (drop 20 n))
       (name # (if name \<noteq> [] \<and> last name = CHR 0x0A then [butlast name] else []))"

definition round_int :: "json \<Rightarrow> bool" where
  "round_int j = (case j of JInt _ \<Rightarrow> True | _ \<Rightarrow> False)"

datatype strict = Absent | Malformed_file | Good jobj

definition strict_json :: "content option \<Rightarrow> strict" where
  "strict_json f =
     (case f of None \<Rightarrow> Absent | Some (Doc (JObj ob)) \<Rightarrow> Good ob | Some _ \<Rightarrow> Malformed_file)"

definition failure_payload :: "json \<Rightarrow> json \<Rightarrow> json \<Rightarrow> json \<Rightarrow> json \<Rightarrow> json \<Rightarrow> jobj" where
  "failure_payload invariant council wid ph oc detail =
     [(''ok'', JBool False), (''error'', JStr ''gate_creation_failed''),
      (''error_code'', JStr ''gate_creation_failed''), (''error_class'', JStr ''governance_integrity''),
      (''invariant'', invariant), (''council_id'', council), (''work_item_id'', wid),
      (''phase'', ph), (''outcome'', oc), (''detail'', detail)]"

section \<open>One escalated council\<close>

text \<open>The recorded rounds in order, each in its own file with its own number; the missing ones apart.\<close>

fun load_recorded ::
    "(int \<Rightarrow> content option) \<Rightarrow> int list \<Rightarrow> (int \<times> json) + (jobj list \<times> int list)" where
  "load_recorded file [] = Inr ([], [])"
| "load_recorded file (n # ns) =
     (case strict_json (file n) of
        Good rd \<Rightarrow>
          if jget rd ''round'' \<noteq> JInt n then Inl (n, jget rd ''round'')
          else sbind (load_recorded file ns) (\<lambda>(ok, missing). Inr (rd # ok, missing))
      | _ \<Rightarrow> sbind (load_recorded file ns) (\<lambda>(ok, missing). Inr (ok, n # missing)))"

definition round_list_ok :: "json \<Rightarrow> bool" where
  "round_list_ok j = (case j of JArr ns \<Rightarrow> list_all round_int ns \<and> distinct ns | _ \<Rightarrow> False)"

definition gate_success :: "jobj \<times> bool \<Rightarrow> jobj" where
  "gate_success r = [(''ok'', JBool True), (''gate'', JObj (fst r)), (''deduplicated'', JBool (snd r))]"

definition inconsistent :: "string \<Rightarrow> json \<Rightarrow> json \<Rightarrow> json \<Rightarrow> string \<Rightarrow> gate_error" where
  "inconsistent cid wid ph ov detail = GateRefused (failure_payload (JStr ''round_records_inconsistent'')
     (JStr cid) wid ph ov (JStr detail))"

definition ensure_escalation_gate ::
    "genv \<Rightarrow> cview \<Rightarrow> string \<Rightarrow> jobj \<Rightarrow> gsys \<Rightarrow> (gate_error + jobj option) \<times> gsys" where
  "ensure_escalation_gate env cv cid oc s =
     (let ov = jget oc ''outcome'' in
      case read_doc (c_council cv cid) of
        JObj c \<Rightarrow>
          (let wid = jget c ''work_item_id''; ph = jget c ''phase''; recorded = get_or c ''rounds'' (JArr []) in
           if \<not> truthy wid \<or> ph \<notin> JStr ` set ESCALATION_PHASES then (Inr None, s)
           else if \<not> round_list_ok recorded then
             (Inl (inconsistent cid wid ph ov (''recorded round list invalid: '' @ py_repr recorded)), s)
           else (case load_recorded (c_round cv cid) (sort (map int_of (arr_of recorded))) of
               Inl (n, rv) \<Rightarrow> (Inl (inconsistent cid wid ph ov
                 (''round file '' @ str_int n @ '' carries round='' @ py_repr rv)), s)
             | Inr (loaded, missing) \<Rightarrow>
                 if missing \<noteq> [] then
                   (Inl (GateRefused (failure_payload (JStr ''round_records_unreadable'') (JStr cid) wid ph ov
                      (JStr (''recorded rounds missing/unreadable: '' @ py_repr (JArr (map JInt missing)))))), s)
                 else
                   (let n = substantive_round_count loaded;
                        scope = py_or (jget c ''approved_scope_sha256'') (JStr ''none'');
                        inv = ''gateeval-'' @ cid @ ''-'' @ py_str ov @ ''-'' @ str_int n in
                    case ensure_gate env wid
                        \<lparr>e_council = JStr cid, e_phase = ph, e_outcome = ov, e_rounds = JInt n, e_scope = scope\<rparr>
                        (JStr inv) s of
                      (Inl x, s') \<Rightarrow> (Inl x, s')
                    | (Inr r, s') \<Rightarrow> (Inr (Some (gate_success r)), s'))))
      | _ \<Rightarrow> (Inl (GateRefused (failure_payload (JStr ''council_record_unreadable'') (JStr cid) JNull
                (jget oc ''phase'') ov (JStr (''council.json missing or unreadable for '' @ cid)))), s))"

section \<open>The failure notice\<close>

definition or_none :: "json \<Rightarrow> string \<Rightarrow> string" where
  "or_none j d = (if truthy j then py_str j else d)"

definition notice_key :: "(string \<Rightarrow> string) \<Rightarrow> jobj \<Rightarrow> string" where
  "notice_key digest payload =
     ''gate-fail:'' @ or_none (jget payload ''work_item_id'') ''none'' @ '':'' @
     or_none (jget payload ''council_id'') ''none'' @ '':'' @
     or_none (jget payload ''invariant'') ''none'' @ '':'' @
     take 8 (digest (py_str (py_or (jget payload ''detail'') (JStr []))))"

definition notice_text :: "jobj \<Rightarrow> string" where
  "notice_text payload =
     ''GOVERNANCE INTEGRITY: mandatory gate creation failed for work item '' @
     or_none (jget payload ''work_item_id'') ''<unknown>'' @ '' (council '' @
     or_none (jget payload ''council_id'') ''<none>'' @ ''). Invariant: '' @ py_str (jget payload ''invariant'') @
     ''. Detail: '' @ py_str (jget payload ''detail'') @
     ''. The governed workflow is fail-closed until the durable records are repaired; '' @
     ''no gate exists for this escalation and no advancement is permitted.''"

text \<open>The thread of the notice: the council record's, the context's, the work item's origin.\<close>

definition notice_thread :: "nenv \<Rightarrow> cview \<Rightarrow> jobj \<Rightarrow> json \<Rightarrow> json" where
  "notice_thread ne cv payload ctx_thread =
     (let cid = jget payload ''council_id'';
          a = (if truthy cid then (case read_doc (c_council cv (py_str cid)) of
                 JObj c \<Rightarrow> jget c ''thread_id'' | _ \<Rightarrow> JNull) else JNull);
          b = (if truthy a then a else ctx_thread);
          wid = jget payload ''work_item_id''
      in if \<not> truthy b \<and> truthy wid then n_thread_of ne wid else b)"

definition notice_args :: "string \<Rightarrow> string \<Rightarrow> json \<Rightarrow> json \<Rightarrow> msg_args" where
  "notice_args txt key thread wid = \<lparr>m_actor = JStr ''claude'', m_message = JStr txt, m_role = JStr ''orchestrator'',
     m_packet_id = JNull, m_thread_id = thread, m_direction = JStr ''internal'', m_status = JStr ''posted'',
     m_source = JStr ''use-cw-gate'', m_simulated = JBool False, m_work_item_id = wid, m_intent = JNull,
     m_closure = JNull, m_closure_meta = JNull, m_idempotency_key = JStr key\<rparr>"

definition post_notice ::
    "genv \<Rightarrow> nenv \<Rightarrow> cview \<Rightarrow> jobj \<Rightarrow> json \<Rightarrow> gsys \<Rightarrow> jobj \<times> gsys" where
  "post_notice env ne cv payload ctx_thread s =
     (let thread = notice_thread ne cv payload ctx_thread;
          a = notice_args (notice_text payload) (notice_key (g_sha env) payload) thread
                (jget payload ''work_item_id'') in
      case fst (build_message (n_fmt ne) (fst (n_clock ne)) (snd (n_clock ne)) (n_prev ne) a) of
        Inl e \<Rightarrow> (jput ''posting_failure'' (JStr (n_post_text ne e)) payload, s)
      | Inr msg \<Rightarrow>
          (case write_message_idempotent (g_sha env) (n_faults ne) (n_token ne) (n_reading ne)
              (n_unlocked ne) msg (gcomms s) of
             (Inl e, cs) \<Rightarrow> (jput ''posting_failure'' (JStr (n_post_text ne e)) payload, s\<lparr>gcomms := cs\<rparr>)
           | (Inr _, cs) \<Rightarrow> (payload, s\<lparr>gcomms := cs\<rparr>)))"

section \<open>The entry for one council\<close>

text \<open>Of the lock's errors only the maintenance refusal propagates; everything else fails closed.\<close>

definition failure_of :: "nenv \<Rightarrow> string \<Rightarrow> jobj \<Rightarrow> json \<Rightarrow> gate_error \<Rightarrow> jobj" where
  "failure_of ne cid oc ctx_wid x =
     (case x of
        GateRefused raw \<Rightarrow> failure_payload
          (py_or (jget raw ''invariant'') (py_or (jget raw ''error'') (JStr ''gate_error'')))
          (py_or (jget raw ''council_id'') (JStr cid)) (py_or (jget raw ''work_item_id'') ctx_wid)
          (py_or (jget raw ''phase'') (jget oc ''phase'')) (jget oc ''outcome'')
          (py_or (jget raw ''detail'') (py_or (jget raw ''error'') (JStr ''gate creation failed'')))
      | _ \<Rightarrow> failure_payload (JStr ''gate_error'') (JStr cid) ctx_wid (jget oc ''phase'')
          (jget oc ''outcome'') (JStr (n_exc_text ne x)))"

definition record_escalation_gate ::
    "genv \<Rightarrow> nenv \<Rightarrow> cview \<Rightarrow> string \<Rightarrow> jobj \<Rightarrow> json \<Rightarrow> json \<Rightarrow> gsys \<Rightarrow> (gate_error + jobj option) \<times> gsys" where
  "record_escalation_gate env ne cv cid oc ctx_wid ctx_thread s =
     (if oc = [] \<or> jget oc ''outcome'' \<notin> JStr ` set ESCALATION_OUTCOMES then (Inr None, s)
      else case ensure_escalation_gate env cv cid oc s of
        (Inr r, s') \<Rightarrow> (Inr r, s')
      | (Inl (TokenRefused Maintenance), s') \<Rightarrow> (Inl (TokenRefused Maintenance), s')
      | (Inl x, s') \<Rightarrow>
          (case post_notice env ne cv (failure_of ne cid oc ctx_wid x) ctx_thread s' of
             (payload, s'') \<Rightarrow> (Inr (Some payload), s'')))"

section \<open>The healing sweep\<close>

definition fail_closed ::
    "genv \<Rightarrow> nenv \<Rightarrow> cview \<Rightarrow> jobj \<Rightarrow> json \<Rightarrow> gsys \<Rightarrow> (gate_error + jobj) \<times> gsys" where
  "fail_closed env ne cv payload ctx_thread s =
     (case post_notice env ne cv payload ctx_thread s of (p, s') \<Rightarrow> (Inr p, s'))"

definition healed_payload :: "json list \<Rightarrow> jobj" where
  "healed_payload healed = [(''ok'', JBool True), (''healed'', JArr healed)]"

text \<open>What the sweep does with one directory: skip it, stop with a failure, or handle its outcome.\<close>

datatype candidate = Skip | Fail jobj json | Candidate jobj jobj

definition classify_council :: "cview \<Rightarrow> json \<Rightarrow> string \<Rightarrow> candidate" where
  "classify_council cv wid name =
     (if \<not> council_dir_name name \<or> \<not> c_isdir cv name then Skip
      else case strict_json (c_council cv name) of
        Absent \<Rightarrow>
          if c_empty cv name = Some True then Skip
          else Fail (failure_payload (JStr ''council_record_unreadable'') (JStr name) wid JNull JNull
            (JStr (''council.json absent but directory is non-empty: '' @ name))) JNull
      | Malformed_file \<Rightarrow>
          Fail (failure_payload (JStr ''council_record_unreadable'') (JStr name) wid JNull JNull
            (JStr (''council.json unreadable in '' @ name))) JNull
      | Good c \<Rightarrow>
          if canonical_subject (jget c ''work_item_id'') \<noteq> canonical_subject wid \<or>
             jget c ''phase'' \<notin> JStr ` set ESCALATION_PHASES then Skip
          else (case strict_json (c_outcome cv name) of
              Absent \<Rightarrow> Skip
            | Malformed_file \<Rightarrow> Fail (failure_payload (JStr ''outcome_record_unreadable'') (JStr name) wid
                (jget c ''phase'') JNull (JStr (''outcome.json unreadable or invalid in '' @ name)))
                (jget c ''thread_id'')
            | Good oc \<Rightarrow>
                if \<not> is_str (jget oc ''outcome'') then
                  Fail (failure_payload (JStr ''outcome_record_unreadable'') (JStr name) wid
                    (jget c ''phase'') JNull (JStr (''outcome.json unreadable or invalid in '' @ name)))
                    (jget c ''thread_id'')
                else if jget oc ''outcome'' \<notin> JStr ` set ESCALATION_OUTCOMES then Skip
                else Candidate c oc))"

text \<open>The result of one candidate may be refused with a payload whose \<open>ok\<close> is false.\<close>

fun heal_loop ::
    "genv \<Rightarrow> nenv \<Rightarrow> cview \<Rightarrow> json \<Rightarrow> json list \<Rightarrow> string list \<Rightarrow> gsys \<Rightarrow> (gate_error + jobj) \<times> gsys" where
  "heal_loop env ne cv wid healed [] s = (Inr (healed_payload healed), s)"
| "heal_loop env ne cv wid healed (name # names) s =
     (case classify_council cv wid name of
        Skip \<Rightarrow> heal_loop env ne cv wid healed names s
      | Fail payload ctx_thread \<Rightarrow> fail_closed env ne cv payload ctx_thread s
      | Candidate c oc \<Rightarrow>
          (case record_escalation_gate env ne cv name oc wid (jget c ''thread_id'') s of
             (Inl x, s') \<Rightarrow> (Inl x, s')
           | (Inr None, s') \<Rightarrow> heal_loop env ne cv wid healed names s'
           | (Inr (Some r), s') \<Rightarrow>
               if \<not> truthy (jget r ''ok'') then (Inr r, s')
               else heal_loop env ne cv wid (healed @ [JObj r]) names s'))"

definition heal_escalation_gates ::
    "genv \<Rightarrow> nenv \<Rightarrow> cview \<Rightarrow> json \<Rightarrow> gsys \<Rightarrow> (gate_error + jobj) \<times> gsys" where
  "heal_escalation_gates env ne cv wid s =
     (case c_root cv of
        NotADirectory \<Rightarrow> (Inr (healed_payload []), s)
      | Unreadable \<Rightarrow> fail_closed env ne cv
          (failure_payload (JStr ''council_discovery_failed'') JNull wid JNull JNull (JStr ''cannot list'')) JNull s
      | Entries names \<Rightarrow> heal_loop env ne cv wid [] (sort names) s)"

end
