(* ===== verification/Gate_Identity.thy ===== *)
theory Gate_Identity
  imports Gate_Store
begin

text \<open>
  Identities of gates: every alias of a packet is one canonical subject, and the versioned
  serialisation that identifies an escalation has no collisions of its own.
\<close>

section \<open>Subjects\<close>

lemma has_prefix_Cons: "has_prefix (c # p) (d # s) \<longleftrightarrow> c = d \<and> has_prefix p s"
  by (auto simp: has_prefix_def)

lemma has_prefix_iff: "has_prefix p s \<longleftrightarrow> (\<exists>t. s = p @ t)"
  by (auto simp: has_prefix_def) (metis append_take_drop_id)

lemma has_suffix_iff: "has_suffix p s \<longleftrightarrow> (\<exists>t. s = t @ p)"
  by (auto simp: has_suffix_def) (metis append_take_drop_id)

lemma prefix_colon: "has_prefix p s \<Longrightarrow> CHR '':'' \<in> set p \<Longrightarrow> CHR '':'' \<in> set s"
  by (auto simp: has_prefix_iff)

text \<open>A packet identifier as the queue uses it: some text without a colon.\<close>

definition packet_name :: "string \<Rightarrow> bool" where
  "packet_name pid = (pid \<noteq> [] \<and> CHR '':'' \<notin> set pid \<and> pid \<noteq> ''cta'')"

lemma no_prefix:
  assumes "CHR '':'' \<notin> set s"
  shows "\<not> has_prefix ''message:'' s" "\<not> has_prefix ''packet:'' s" "\<not> has_prefix ''in_progress:'' s"
    "\<not> has_prefix ''rfi:'' s"
  using assms prefix_colon by fastforce+

lemma cta_suffix:
  assumes "packet_name pid"
  shows "\<not> has_suffix '':cta'' (''packet:'' @ pid)"
proof
  assume "has_suffix '':cta'' (''packet:'' @ pid)"
  then obtain t where t: "''packet'' @ '':'' @ pid = t @ '':'' @ ''cta''" by (auto simp: has_suffix_iff)
  have split: "u = v \<and> x = y" if "u @ CHR '':'' # x = v @ CHR '':'' # y" "CHR '':'' \<notin> set x" "CHR '':'' \<notin> set y"
    for u v x y :: string
  proof -
    have "takeWhile (\<lambda>c. c \<noteq> CHR '':'') (rev x @ CHR '':'' # rev u) = rev x"
      "takeWhile (\<lambda>c. c \<noteq> CHR '':'') (rev y @ CHR '':'' # rev v) = rev y"
      using that(2,3) by (auto simp: takeWhile_tail)
    moreover have "rev x @ CHR '':'' # rev u = rev y @ CHR '':'' # rev v"
      using arg_cong [OF that(1), of rev] by simp
    ultimately have "x = y" by (metis rev_rev_ident)
    with that(1) show ?thesis by simp
  qed
  have "pid = ''cta''" using split [of "''packet''" pid t "''cta''"] t assms by (simp add: packet_name_def)
  with assms show False by (simp add: packet_name_def)
qed

text \<open>every alias of a packet -- the bare identifier, \<open>packet:\<close>, \<open>packet:...:cta\<close>,
  \<open>in_progress:\<close> and \<open>rfi:\<close> -- has the one subject \<open>packet:<id>\<close>, and the subject is its own subject;
  the identifier \<open>cta\<close> is the exception.\<close>

theorem aliases_share_one_subject:
  assumes "packet_name pid"
  shows "\<forall>wid \<in> {pid, ''packet:'' @ pid, ''packet:'' @ pid @ '':cta'', ''in_progress:'' @ pid, ''rfi:'' @ pid}.
    subject_of wid = ''packet:'' @ pid"
proof -
  note n = no_prefix [of pid]
  have c: "CHR '':'' \<notin> set pid" "pid \<noteq> []" using assms by (auto simp: packet_name_def)
  have "subject_of pid = ''packet:'' @ pid"
    using n c by (simp add: subject_of_def)
  moreover have "subject_of (''packet:'' @ pid) = ''packet:'' @ pid"
    using cta_suffix [OF assms] by (simp add: subject_of_def has_prefix_def)
  moreover have "subject_of (''packet:'' @ pid @ '':cta'') = ''packet:'' @ pid"
  proof -
    have "has_suffix '':cta'' (''packet:'' @ pid @ '':cta'')"
      using has_suffix_append [of "'':cta''" "''packet:'' @ pid"] by simp
    then show ?thesis by (simp add: subject_of_def has_prefix_def slice_def)
  qed
  moreover have "subject_of (''in_progress:'' @ pid) = ''packet:'' @ pid"
    by (simp add: subject_of_def has_prefix_def)
  moreover have "subject_of (''rfi:'' @ pid) = ''packet:'' @ pid"
    by (simp add: subject_of_def has_prefix_def)
  ultimately show ?thesis by blast
qed

lemma aliases_share_one_subject_witness:
  "subject_of ''packet:p1:cta'' = ''packet:p1'' \<and> subject_of ''rfi:p1'' = ''packet:p1''"
  using aliases_share_one_subject [of "''p1''"] by (simp add: packet_name_def)

text \<open>The exception: the alias of a packet called \<open>cta\<close> loses the identifier.\<close>

lemma packet_cta_alias: "subject_of ''packet:cta'' = ''packet:''" "subject_of ''cta'' = ''packet:cta''"
  by code_simp+

section \<open>Escalation identity\<close>

text \<open>Reading back the first character of an escaped text.\<close>

definition hex_value :: "char \<Rightarrow> nat" where
  "hex_value h = (if (of_char h :: nat) < 58 then of_char h - 48 else of_char h - 87)"

fun unescape :: "string \<Rightarrow> char \<times> string" where
  "unescape (x # e # s) =
     (if x \<noteq> CHR 0x5C then (x, e # s)
      else if e = CHR ''b'' then (char_of (8 :: nat), s) else if e = CHR ''t'' then (char_of (9 :: nat), s)
      else if e = CHR ''n'' then (char_of (10 :: nat), s) else if e = CHR ''f'' then (char_of (12 :: nat), s)
      else if e = CHR ''r'' then (char_of (13 :: nat), s)
      else if e = CHR ''u'' then (char_of (16 * hex_value (s ! 2) + hex_value (s ! 3)), drop 4 s)
      else (e, s))"
| "unescape (x # []) = (x, [])"
| "unescape [] = (CHR 0x00, [])"

lemma hex_value_hex_char: "d < 16 \<Longrightarrow> hex_value (hex_char d) = d"
  by (auto simp: hex_value_def hex_char_def)

lemma unescape_plain: "x \<noteq> CHR 0x5C \<Longrightarrow> unescape (x # s) = (x, s)"
  by (cases s) auto

lemma char_of_eqI: "(of_char c :: nat) = n \<Longrightarrow> char_of n = c"
  by auto

lemma unescape_json_char: "unescape (json_char c @ r) = (c, r)"
proof -
  let ?n = "of_char c :: nat"
  consider (esc) "c = CHR 0x22 \<or> c = CHR 0x5C" | (ctl) "?n < 32" "c \<noteq> CHR 0x22" "c \<noteq> CHR 0x5C"
    | (plain) "\<not> ?n < 32" "c \<noteq> CHR 0x22" "c \<noteq> CHR 0x5C" by blast
  then show ?thesis
  proof cases
    case esc
    then show ?thesis by (auto simp: json_char_def Let_def)
  next
    case ctl
    have "16 * (?n div 16) + ?n mod 16 = ?n" by simp
    moreover have "?n div 16 < 16" "?n mod 16 < 16" using ctl(1) by auto
    ultimately have u: "char_of (16 * hex_value (hex_char (?n div 16)) + hex_value (hex_char (?n mod 16))) = c"
      by (simp add: hex_value_hex_char)
    consider "?n = 8" | "?n = 9" | "?n = 10" | "?n = 12" | "?n = 13" | "?n \<notin> {8, 9, 10, 12, 13}" by blast
    then show ?thesis
      using ctl u by cases (auto simp: json_char_def Let_def char_of_eqI)
  next
    case plain
    then have "json_char c = [c]" by (auto simp: json_char_def Let_def)
    then show ?thesis using plain(3) by (simp add: unescape_plain)
  qed
qed

lemma json_char_no_quote: "json_char c \<noteq> [] \<and> hd (json_char c) \<noteq> CHR 0x22"
  by (simp add: json_char_def Let_def)

lemma json_char_inj:
  assumes "json_char c @ r = json_char d @ q"
  shows "c = d \<and> r = q"
proof -
  have "(c, r) = unescape (json_char c @ r)" by (simp only: unescape_json_char)
  also have "\<dots> = (d, q)" by (simp only: assms unescape_json_char)
  finally show ?thesis by simp
qed

lemma json_body_inj:
  "concat (map json_char a) @ CHR 0x22 # x = concat (map json_char b) @ CHR 0x22 # y \<Longrightarrow> a = b \<and> x = y"
proof (induction a arbitrary: b)
  case Nil
  then show ?case
  proof (cases b)
    case (Cons d ds)
    then show ?thesis using Nil json_char_no_quote [of d] by (cases "json_char d") auto
  qed simp
next
  case (Cons c cs)
  show ?case
  proof (cases b)
    case Nil
    then show ?thesis using Cons.prems json_char_no_quote [of c] by (cases "json_char c") auto
  next
    case (Cons d ds)
    then have "json_char c @ (concat (map json_char cs) @ CHR 0x22 # x) =
        json_char d @ (concat (map json_char ds) @ CHR 0x22 # y)"
      using Cons.prems by simp
    from json_char_inj [OF this] Cons.IH [of ds] Cons show ?thesis by simp
  qed
qed

lemma json_string_inj: "json_string a @ x = json_string b @ y \<Longrightarrow> a = b \<and> x = y"
  unfolding json_string_def using json_body_inj [of a x b y] by simp

lemma str_int_stop:
  assumes "str_int a @ CHR '','' # x = str_int b @ CHR '','' # y"
  shows "a = b \<and> x = y"
proof -
  have nc: "CHR '','' \<notin> set (str_int i)" for i
  proof
    assume "CHR '','' \<in> set (str_int i)"
    then obtain n where "CHR '','' \<in> set (nat_digits n)" by (auto simp: str_int_def split: if_splits)
    then obtain k where k: "k < 10" "CHR '','' = digit_char k" using nat_digits_are_digits by blast
    then have "(of_char (CHR '','') :: nat) = 48 + k" by (simp add: digit_char_def)
    then show False by simp
  qed
  have t: "takeWhile (\<lambda>c. c \<noteq> CHR '','') (str_int i @ CHR '','' # w) = str_int i" for i w
    using nc [of i] by (auto simp: takeWhile_tail)
  then have "str_int a = str_int b" using assms by metis
  then show ?thesis using assms by (simp add: str_int_inj)
qed

lemma dedup_blob_inj:
  assumes "dedup_blob c oc ph n sc su v = dedup_blob c' oc' ph' n' sc' su' v'"
  shows "c = c' \<and> oc = oc' \<and> ph = ph' \<and> n = n' \<and> sc = sc' \<and> su = su' \<and> v = v'"
proof -
  note eq = assms [unfolded dedup_blob_def, simplified]
  from eq have 1: "json_string c @ '','' @ json_string ''outcome'' @ '':'' @ json_string oc @ '','' @
     json_string ''phase'' @ '':'' @ json_string ph @ '','' @
     json_string ''rounds'' @ '':'' @ str_int n @ '','' @
     json_string ''scope'' @ '':'' @ json_string sc @ '','' @
     json_string ''subject'' @ '':'' @ json_string su @ '','' @
     json_string ''v'' @ '':'' @ str_int v @ ''}'' = 
     json_string c' @ '','' @ json_string ''outcome'' @ '':'' @ json_string oc' @ '','' @
     json_string ''phase'' @ '':'' @ json_string ph' @ '','' @
     json_string ''rounds'' @ '':'' @ str_int n' @ '','' @
     json_string ''scope'' @ '':'' @ json_string sc' @ '','' @
     json_string ''subject'' @ '':'' @ json_string su' @ '','' @
     json_string ''v'' @ '':'' @ str_int v' @ ''}''" by simp
  note c = json_string_inj [OF 1]
  from c have 2: "json_string oc @ '','' @
     json_string ''phase'' @ '':'' @ json_string ph @ '','' @
     json_string ''rounds'' @ '':'' @ str_int n @ '','' @
     json_string ''scope'' @ '':'' @ json_string sc @ '','' @
     json_string ''subject'' @ '':'' @ json_string su @ '','' @
     json_string ''v'' @ '':'' @ str_int v @ ''}'' = 
     json_string oc' @ '','' @
     json_string ''phase'' @ '':'' @ json_string ph' @ '','' @
     json_string ''rounds'' @ '':'' @ str_int n' @ '','' @
     json_string ''scope'' @ '':'' @ json_string sc' @ '','' @
     json_string ''subject'' @ '':'' @ json_string su' @ '','' @
     json_string ''v'' @ '':'' @ str_int v' @ ''}''" by simp
  note oc = json_string_inj [OF 2]
  from oc have 3: "json_string ph @ '','' @
     json_string ''rounds'' @ '':'' @ str_int n @ '','' @
     json_string ''scope'' @ '':'' @ json_string sc @ '','' @
     json_string ''subject'' @ '':'' @ json_string su @ '','' @
     json_string ''v'' @ '':'' @ str_int v @ ''}'' = 
     json_string ph' @ '','' @
     json_string ''rounds'' @ '':'' @ str_int n' @ '','' @
     json_string ''scope'' @ '':'' @ json_string sc' @ '','' @
     json_string ''subject'' @ '':'' @ json_string su' @ '','' @
     json_string ''v'' @ '':'' @ str_int v' @ ''}''" by simp
  note ph = json_string_inj [OF 3]
  from ph have 4: "str_int n @ CHR '','' # (json_string ''scope'' @ '':'' @ json_string sc @ '','' @
     json_string ''subject'' @ '':'' @ json_string su @ '','' @
     json_string ''v'' @ '':'' @ str_int v @ ''}'') = 
     str_int n' @ CHR '','' # (json_string ''scope'' @ '':'' @ json_string sc' @ '','' @
     json_string ''subject'' @ '':'' @ json_string su' @ '','' @
     json_string ''v'' @ '':'' @ str_int v' @ ''}'')" by simp
  note n = str_int_stop [OF 4]
  from n have 5: "json_string sc @ '','' @
     json_string ''subject'' @ '':'' @ json_string su @ '','' @
     json_string ''v'' @ '':'' @ str_int v @ ''}'' = 
     json_string sc' @ '','' @
     json_string ''subject'' @ '':'' @ json_string su' @ '','' @
     json_string ''v'' @ '':'' @ str_int v' @ ''}''" by simp
  note sc = json_string_inj [OF 5]
  from sc have 6: "json_string su @ '','' @ json_string ''v'' @ '':'' @ str_int v @ ''}'' = 
     json_string su' @ '','' @ json_string ''v'' @ '':'' @ str_int v' @ ''}''" by simp
  note su = json_string_inj [OF 6]
  from su have "str_int v = str_int v'" by simp
  then show ?thesis using c oc ph n sc su by (simp add: str_int_inj)
qed

text \<open>two escalations have the same serialisation exactly if council, outcome, phase, number of rounds,
  scope, subject and policy version all agree: no choice of texts makes delimiters collide.\<close>

theorem escalation_identity_injective:
  "dedup_blob c oc ph n sc su v = dedup_blob c' oc' ph' n' sc' su' v' \<longleftrightarrow>
     c = c' \<and> oc = oc' \<and> ph = ph' \<and> n = n' \<and> sc = sc' \<and> su = su' \<and> v = v'"
  using dedup_blob_inj by blast

end
