(* ===== verification/Message_Safety.thy ===== *)
theory Message_Safety
  imports Message_Store "HOL-Library.Multiset"
begin

text \<open>
  What the communications log guarantees: built messages are typed and canonical, ids never repeat in a
  process, the store only grows and is read back completely and in order, and a keyed message is
  recorded once however often it is posted.
\<close>

section \<open>Content\<close>

lemma crlf_to_lf_set: "set (crlf_to_lf s) \<subseteq> insert (CHR 0x0A) (set s)"
  by (induction s rule: crlf_to_lf.induct) auto

lemma crlf_to_lf_id: "CHR 0x0D \<notin> set s \<Longrightarrow> crlf_to_lf s = s"
  by (induction s rule: crlf_to_lf.induct) auto

lemma cr_to_lf_id: "CHR 0x0D \<notin> set s \<Longrightarrow> cr_to_lf s = s"
  by (induction s) (auto simp: cr_to_lf_def)

lemma set_strip: "set (strip s) \<subseteq> set s"
proof -
  have "set (lstrip t) \<subseteq> set t" for t by (auto simp: lstrip_def dest: set_dropWhileD)
  from this [of "rev (lstrip s)"] this [of s] show ?thesis by (auto simp: strip_def)
qed

lemma canonical_text_idem [simp]: "canonical_text (canonical_text s) = canonical_text s"
proof -
  have "CHR 0x0D \<notin> set (cr_to_lf t)" for t by (auto simp: cr_to_lf_def)
  then have "CHR 0x0D \<notin> set (canonical_text s)" using set_strip by (auto simp: canonical_text_def)
  then show ?thesis
    unfolding canonical_text_def [of "canonical_text s"]
    by (simp add: crlf_to_lf_id cr_to_lf_id) (simp add: canonical_text_def)
qed

lemma blank_crlf_to_lf: "blank (crlf_to_lf s) \<Longrightarrow> blank s"
proof (unfold blank_iff, induction s rule: crlf_to_lf.induct)
  case (1 a b s)
  have "is_ws (CHR 0x0D)" "is_ws (CHR 0x0A)" by (simp_all add: is_ws_def Let_def)
  with 1 show ?case by (auto split: if_splits)
qed auto

lemma blank_cr_to_lf: "blank (cr_to_lf s) = blank s"
proof -
  have "is_ws (CHR 0x0D)" "is_ws (CHR 0x0A)" by (simp_all add: is_ws_def Let_def)
  then show ?thesis by (auto simp: blank_iff cr_to_lf_def split: if_splits)
qed

lemma canonical_text_nonempty: "\<not> blank s \<Longrightarrow> canonical_text s \<noteq> []"
  using blank_crlf_to_lf blank_cr_to_lf unfolding canonical_text_def blank_def [symmetric] by blast

section \<open>Building\<close>

lemma jget_append: "jget (xs @ ys) k = (if jhas xs k then jget xs k else jget ys k)"
  by (simp add: jget_def jhas_iff_map_of map_add_def split: option.split)

lemma jhas_opt_field [simp]: "jhas (opt_field k j) k' \<longleftrightarrow> k = k' \<and> clean j \<noteq> []"
  by (auto simp: opt_field_def jhas_def)

lemma jget_opt_field [simp]:
  "jget (opt_field k j) k' = (if k = k' \<and> clean j \<noteq> [] then JStr (clean j) else JNull)"
  by (simp add: opt_field_def py_simps)

text \<open>The shape of every message.\<close>

definition opt_one_of :: "string list \<Rightarrow> json \<Rightarrow> bool" where
  "opt_one_of vs j = (j = JNull \<or> (\<exists>v \<in> set vs. j = JStr v))"

definition typed_message :: "jobj \<Rightarrow> bool" where
  "typed_message m =
     (list_all (\<lambda>k. is_str (jget m k) \<and> py_str (jget m k) \<noteq> [])
        [''message_id'', ''thread_id'', ''actor'', ''role'', ''source''] \<and>
      is_str (jget m ''at'') \<and>
      (\<exists>d \<in> set DIRECTIONS. jget m ''direction'' = JStr d) \<and>
      (\<exists>d \<in> set STATUSES. jget m ''status'' = JStr d) \<and>
      opt_one_of INTENTS (jget m ''intent'') \<and> opt_one_of CLOSURES (jget m ''closure'') \<and>
      (jget m ''closure_meta'' = JNull \<or> is_obj (jget m ''closure_meta'')) \<and>
      (jget m ''simulated'' \<in> {JBool True, JBool False}) \<and>
      jget m ''identity_version'' = JInt 2 \<and>
      (\<exists>c. jget m ''message'' = JStr c \<and> canonical_text c = c \<and> c \<noteq> [] \<and>
         utf8_length c \<le> MESSAGE_MAX_BYTES))"

lemma or_default_nonempty: "d \<noteq> [] \<Longrightarrow> or_default j d \<noteq> []"
  by (simp add: or_default_def)

lemma check_args_iff:
  "check_args a = Inr c \<longleftrightarrow>
     truthy (m_actor a) \<and> \<not> blank (py_str (m_actor a)) \<and>
     truthy (m_message a) \<and> \<not> blank (py_str (m_message a)) \<and> canonical_content (m_message a) = Inr c \<and>
     utf8_length c \<le> MESSAGE_MAX_BYTES \<and>
     or_default (m_direction a) ''inbound'' \<in> set DIRECTIONS \<and>
     or_default (m_status a) ''posted'' \<in> set STATUSES \<and>
     (clean (m_intent a) = [] \<or> clean (m_intent a) \<in> set INTENTS) \<and>
     (clean (m_closure a) = [] \<or> clean (m_closure a) \<in> set CLOSURES) \<and>
     (m_closure_meta a = JNull \<or> is_obj (m_closure_meta a))"
proof -
  have exc: "(case x of Inl e \<Rightarrow> Inl (Raised e) | Inr c \<Rightarrow> Inr c) = Inr c' \<longleftrightarrow> x = Inr c'" for x c'
    by (cases x) auto
  show ?thesis
    unfolding check_args_def sbind_Inr_iff one_of_def require_iff exc by simp
qed

lemma check_args_content:
  assumes "check_args a = Inr c"
  obtains s where "m_message a = JStr s" "c = canonical_text s" "\<not> blank s"
    "utf8_length c \<le> MESSAGE_MAX_BYTES"
proof -
  have "truthy (m_message a)" "\<not> blank (py_str (m_message a))" "canonical_content (m_message a) = Inr c"
    "utf8_length c \<le> MESSAGE_MAX_BYTES"
    using assms unfolding check_args_iff by blast+
  then show thesis using that by (cases "m_message a") (auto simp: canonical_content_def)
qed

lemma assemble_fields:
  "jget (assemble fm t1 t2 a c) ''message_id'' = JStr (''msg-'' @ fmt_stamp fm t1)"
  "jget (assemble fm t1 t2 a c) ''thread_id'' = JStr (or_default (m_thread_id a) (''thr-'' @ fmt_stamp fm t1))"
  "jget (assemble fm t1 t2 a c) ''at'' = JStr (fmt_iso fm t2)"
  "jget (assemble fm t1 t2 a c) ''identity_version'' = JInt 2"
  "jget (assemble fm t1 t2 a c) ''actor'' = JStr (strip (py_str (m_actor a)))"
  "jget (assemble fm t1 t2 a c) ''role'' = JStr (or_default (m_role a) ''agent'')"
  "jget (assemble fm t1 t2 a c) ''direction'' = JStr (or_default (m_direction a) ''inbound'')"
  "jget (assemble fm t1 t2 a c) ''status'' = JStr (or_default (m_status a) ''posted'')"
  "jget (assemble fm t1 t2 a c) ''message'' = JStr c"
  "jget (assemble fm t1 t2 a c) ''source'' = JStr (or_default (m_source a) ''local-adapter'')"
  "jget (assemble fm t1 t2 a c) ''simulated'' = JBool (truthy (m_simulated a))"
  by (simp_all add: assemble_def py_simps)

lemma assemble_options:
  "jget (assemble fm t1 t2 a c) ''intent'' =
     (if clean (m_intent a) = [] then JNull else JStr (clean (m_intent a)))"
  "jget (assemble fm t1 t2 a c) ''closure'' =
     (if clean (m_closure a) = [] then JNull else JStr (clean (m_closure a)))"
  "jget (assemble fm t1 t2 a c) ''idempotency_key'' =
     (if clean (m_idempotency_key a) = [] then JNull else JStr (clean (m_idempotency_key a)))"
  "jget (assemble fm t1 t2 a c) ''closure_meta'' =
     (if clean (m_closure a) \<noteq> [] \<and> truthy (m_closure_meta a) then m_closure_meta a else JNull)"
  by (simp_all add: assemble_def py_simps jget_append jhas_def opt_field_def)

lemma build_message_cases:
  assumes "build_message fm n1 n2 prev a = (Inr m, prev')"
  obtains c t1 where "check_args a = Inr c" "t1 = monotonic_dt prev n1"
    "m = assemble fm t1 (monotonic_dt (Some t1) n2) a c" "prev' = Some (monotonic_dt (Some t1) n2)"
  using assms by (auto simp: build_message_def Let_def split: sum.splits)

text \<open>whatever the arguments, a message that is built is well typed: the mandatory texts are not
  empty, direction, status, intent and closure are allowed values, and the content is canonical, not
  empty and within the size limit.\<close>

theorem built_message_typed:
  assumes "build_message fm n1 n2 prev a = (Inr m, prev')"
  shows "typed_message m"
proof -
  obtain c t1 where chk: "check_args a = Inr c"
    and m: "m = assemble fm t1 (monotonic_dt (Some t1) n2) a c"
    using build_message_cases [OF assms] by metis
  obtain s where s: "c = canonical_text s" "\<not> blank s" "utf8_length c \<le> MESSAGE_MAX_BYTES"
    using check_args_content [OF chk] by metis
  note c = chk [unfolded check_args_iff]
  have "strip (py_str (m_actor a)) \<noteq> []" using c by (simp add: blank_def)
  moreover have "opt_one_of INTENTS (jget m ''intent'')" and "opt_one_of CLOSURES (jget m ''closure'')"
    unfolding m assemble_options opt_one_of_def using c by auto
  moreover have "jget m ''closure_meta'' = JNull \<or> is_obj (jget m ''closure_meta'')"
    unfolding m assemble_options using c by auto
  ultimately show ?thesis
    unfolding typed_message_def using c s canonical_text_nonempty [OF s(2)]
    by (simp add: m assemble_fields or_default_nonempty)
qed

definition demo_args :: msg_args where
  "demo_args = \<lparr>m_actor = JStr ''claude'', m_message = JStr '' hi '', m_role = JNull, m_packet_id = JNull,
     m_thread_id = JStr ''t'', m_direction = JNull, m_status = JNull, m_source = JNull, m_simulated = JNull,
     m_work_item_id = JNull, m_intent = JStr ''request'', m_closure = JNull, m_closure_meta = JNull,
     m_idempotency_key = JStr ''k''\<rparr>"

definition demo_fmt :: clock_fmt where
  "demo_fmt = \<lparr>fmt_stamp = str_nat, fmt_iso = str_nat\<rparr>"

definition demo_msg :: jobj where
  "demo_msg = assemble demo_fmt 5 6 demo_args ''hi''"

lemma demo_checked: "check_args demo_args = Inr ''hi''"
proof -
  have "\<not> blank ''claude''" "\<not> blank '' hi ''" "canonical_text '' hi '' = ''hi''"
    "clean (JStr ''request'') = ''request''" "utf8_length ''hi'' = 2"
    by code_simp+
  then show ?thesis
    unfolding check_args_iff
    by (simp add: demo_args_def canonical_content_def MESSAGE_MAX_BYTES_def or_default_def DIRECTIONS_def
        STATUSES_def INTENTS_def)
qed

lemma demo_built: "build_message demo_fmt 5 6 None demo_args = (Inr demo_msg, Some 6)"
  by (simp add: build_message_def Let_def monotonic_dt_def demo_msg_def demo_checked)

lemma built_message_typed_witness: "typed_message demo_msg"
  by (rule built_message_typed [OF demo_built])

section \<open>Identifiers\<close>

text \<open>A process building messages one after another; it keeps the last time it handed out.\<close>

fun build_all :: "clock_fmt \<Rightarrow> nat option \<Rightarrow> (nat \<times> nat \<times> msg_args) list \<Rightarrow> jobj list" where
  "build_all fm prev [] = []"
| "build_all fm prev ((n1, n2, a) # reqs) =
     (case build_message fm n1 n2 prev a of
        (Inl _, prev') \<Rightarrow> build_all fm prev' reqs
      | (Inr m, prev') \<Rightarrow> m # build_all fm prev' reqs)"

lemma monotonic_dt_greater: "monotonic_dt (Some l) n > l"
  by (simp add: monotonic_dt_def)

lemma build_all_after:
  assumes "m \<in> set (build_all fm prev reqs)"
  shows "\<exists>t. (\<forall>l. prev = Some l \<longrightarrow> l < t) \<and> jget m ''message_id'' = JStr (''msg-'' @ fmt_stamp fm t)"
  using assms
proof (induction fm prev reqs rule: build_all.induct)
  case (2 fm prev n1 n2 a reqs)
  obtain r prev' where b: "build_message fm n1 n2 prev a = (r, prev')" by fastforce
  show ?case
  proof (cases r)
    case (Inl e)
    then have "prev' = prev" using b by (auto simp: build_message_def Let_def split: sum.splits)
    then show ?thesis using 2 b Inl by simp
  next
    case (Inr m0)
    obtain c where m0: "m0 = assemble fm (monotonic_dt prev n1) (monotonic_dt (Some (monotonic_dt prev n1)) n2) a c"
      and p': "prev' = Some (monotonic_dt (Some (monotonic_dt prev n1)) n2)"
      using build_message_cases [OF b [unfolded Inr]] by metis
    have first: "\<forall>l. prev = Some l \<longrightarrow> l < monotonic_dt prev n1"
      using monotonic_dt_greater by auto
    then have later: "\<forall>l. prev = Some l \<longrightarrow> l < monotonic_dt (Some (monotonic_dt prev n1)) n2"
      using monotonic_dt_greater by (meson less_trans)
    consider "m = m0" | "m \<in> set (build_all fm prev' reqs)" using 2(3) b Inr by auto
    then show ?thesis
    proof cases
      case 1
      then have "jget m ''message_id'' = JStr (''msg-'' @ fmt_stamp fm (monotonic_dt prev n1))"
        by (simp add: m0 assemble_fields)
      with first show ?thesis by blast
    next
      case 2
      then obtain t where "\<forall>l. prev' = Some l \<longrightarrow> l < t" "jget m ''message_id'' = JStr (''msg-'' @ fmt_stamp fm t)"
        using "2.IH"(2) [OF b [symmetric] Inr] by blast
      then have "monotonic_dt (Some (monotonic_dt prev n1)) n2 < t" using p' by blast
      then have "\<forall>l. prev = Some l \<longrightarrow> l < t" using later less_trans by blast
      with \<open>jget m ''message_id'' = JStr (''msg-'' @ fmt_stamp fm t)\<close> show ?thesis by blast
    qed
  qed
qed simp

text \<open>however the system clock jumps, no two messages that one process builds have the same id.\<close>

theorem message_ids_never_repeat:
  assumes "inj (fmt_stamp fm)"
  shows "distinct (map (\<lambda>m. jget m ''message_id'') (build_all fm prev reqs))"
  using assms
proof (induction fm prev reqs rule: build_all.induct)
  case (2 fm prev n1 n2 a reqs)
  obtain r prev' where b: "build_message fm n1 n2 prev a = (r, prev')" by fastforce
  show ?case
  proof (cases r)
    case (Inl e)
    then show ?thesis using "2.IH"(1) "2.prems" b by simp
  next
    case (Inr m0)
    let ?t1 = "monotonic_dt prev n1"
    obtain c where m0: "m0 = assemble fm ?t1 (monotonic_dt (Some ?t1) n2) a c"
      and p': "prev' = Some (monotonic_dt (Some ?t1) n2)"
      using build_message_cases [OF b [unfolded Inr]] by metis
    have "jget m ''message_id'' \<noteq> jget m0 ''message_id''" if "m \<in> set (build_all fm prev' reqs)" for m
    proof -
      from build_all_after [OF that] p'
      obtain t where t: "monotonic_dt (Some ?t1) n2 < t" "jget m ''message_id'' = JStr (''msg-'' @ fmt_stamp fm t)"
        by blast
      have "?t1 < t" using monotonic_dt_greater [of ?t1 n2] t(1) by (rule less_trans)
      then have "fmt_stamp fm t \<noteq> fmt_stamp fm ?t1" using injD [OF "2.prems", of t ?t1] by auto
      then show ?thesis using t(2) by (simp add: m0 assemble_fields)
    qed
    then show ?thesis using "2.IH"(2) "2.prems" b Inr by force
  qed
qed simp

lemma message_ids_never_repeat_witness:
  "distinct (map (\<lambda>m. jget m ''message_id'')
     (build_all (demo_fmt\<lparr>fmt_stamp := \<lambda>n. replicate n CHR ''x''\<rparr>) None [(5, 5, demo_args), (3, 3, demo_args)]))"
  by (rule message_ids_never_repeat) (simp add: inj_def)

section \<open>Reading\<close>

lemma read_row_result:
  assumes "read_row env row = Inr rs" and "(at, n, m) \<in> set rs"
  shows "row = (n, Doc (JObj m)) \<and> readable env n \<and> has_suffix ''.json'' n"
  using assms by (auto simp: read_row_def Let_def split: prod.splits if_splits content.splits json.splits)

lemma read_row_complete:
  assumes "read_row env (n, Doc (JObj m)) = Inr rs" and "readable env n" and "has_suffix ''.json'' n"
  shows "rs = [(get_or m ''at'' (JStr []), n, m)]"
  using assms by (simp add: read_row_def)

text \<open>The documents a read returns before filtering, and a store without foreign files.\<close>

definition docs_of :: "comms \<Rightarrow> jobj list" where
  "docs_of s = concat (map (\<lambda>(n, c). case c of Doc (JObj m) \<Rightarrow> [m] | _ \<Rightarrow> []) (mfiles s))"

definition clean_store :: "comms \<Rightarrow> bool" where
  "clean_store s = (\<forall>(n, c) \<in> set (mfiles s). has_suffix ''.json'' n \<and>
     (c \<noteq> Torn \<longrightarrow> (\<exists>m. c = Doc (JObj m) \<and> jhas m ''at'' \<and> is_str (jget m ''at''))))"

definition all_readable :: "reading \<Rightarrow> bool" where
  "all_readable env = (listed env \<and> (\<forall>n. readable env n))"

definition rows_of :: "comms \<Rightarrow> (json \<times> string \<times> jobj) list" where
  "rows_of s = concat (map (\<lambda>(n, c). case c of Doc (JObj m) \<Rightarrow> [(jget m ''at'', n, m)] | _ \<Rightarrow> []) (mfiles s))"

abbreviation row_of :: "string \<times> content \<Rightarrow> (json \<times> string \<times> jobj) list" where
  "row_of row \<equiv> (case row of (n, c) \<Rightarrow> (case c of Doc (JObj m) \<Rightarrow> [(jget m ''at'', n, m)] | _ \<Rightarrow> []))"

lemma clean_storeD:
  assumes "clean_store s" and "(n, c) \<in> set (mfiles s)"
  shows "has_suffix ''.json'' n"
    and "c = Torn \<or> (\<exists>m. c = Doc (JObj m) \<and> jhas m ''at'' \<and> is_str (jget m ''at''))"
  using assms unfolding clean_store_def by auto

lemma read_row_clean:
  assumes "clean_store s" and "all_readable env" and "row \<in> set (mfiles s)"
  shows "read_row env row = Inr (row_of row)"
proof -
  obtain n c where row: "row = (n, c)" by (cases row)
  note D = clean_storeD [OF assms(1) assms(3) [unfolded row]]
  have "readable env n" using assms(2) by (simp add: all_readable_def)
  then show ?thesis
    using D(2) by (elim disjE exE conjE) (simp_all add: row read_row_def D(1) get_or_def)
qed

lemma rows_of_read:
  assumes "clean_store s" and "all_readable env"
  shows "map_exc (read_row env) (mfiles s) = Inr (map row_of (mfiles s))"
  by (rule map_exc_total) (rule read_row_clean [OF assms])

lemma map_rows_of: "map (\<lambda>(_, _, m). m) (rows_of s) = docs_of s"
  unfolding rows_of_def docs_of_def map_concat map_map
  by (rule arg_cong [where f = concat], rule map_cong [OF refl])
    (simp split: prod.split content.split json.split)

lemma rows_ofD:
  "(at, n, m) \<in> set (rows_of s) \<Longrightarrow> (n, Doc (JObj m)) \<in> set (mfiles s) \<and> at = jget m ''at''"
  by (auto simp: rows_of_def split: content.splits json.splits)

lemma read_messages_sorted_rows:
  assumes "clean_store s" and "all_readable env"
  shows "read_messages env packet thread limit s = Inr (last_n limit
     (matching ''thread_id'' thread (matching ''packet_id'' packet
        (map (\<lambda>(_, _, m). m) (sort_key (\<lambda>(at, name, _). (py_str at, name)) (rows_of s))))))"
proof -
  have "list_all (\<lambda>(at, _). is_str at) (rows_of s)"
  proof -
    have "is_str at" if "(at, n, m) \<in> set (rows_of s)" for at n m
    proof -
      show ?thesis using clean_storeD(2) [OF assms(1)] rows_ofD [OF that] by fastforce
    qed
    then show ?thesis by (auto simp: list_all_iff)
  qed
  moreover have "concat (map row_of (mfiles s)) = rows_of s" by (simp add: rows_of_def)
  moreover have "listed env" using assms(2) by (simp add: all_readable_def)
  ultimately show ?thesis
    unfolding read_messages_def rows_of_read [OF assms] by (simp add: sort_rows_def)
qed

lemma sorted_rows_at:
  "sorted (map (\<lambda>m. py_str (jget m ''at''))
     (map (\<lambda>(_, _, m). m) (sort_key (\<lambda>(at, name, _). (py_str at, name)) (rows_of s))))"
proof -
  let ?rows = "sort_key (\<lambda>(at, name, _). (py_str at, name)) (rows_of s)"
  have "sorted (map (\<lambda>(at, name, _). (py_str at, name)) ?rows)" by (rule sorted_sort_key)
  then have "sorted (map fst (map (\<lambda>(at, name, _). (py_str at, name)) ?rows))"
    by (auto simp: sorted_map less_eq_prod_def elim!: sorted_wrt_mono_rel [rotated])
  moreover have "map fst (map (\<lambda>(at, name, _). (py_str at, name)) ?rows) =
      map (\<lambda>m. py_str (jget m ''at'')) (map (\<lambda>(_, _, m). m) ?rows)"
    unfolding map_map by (rule map_cong [OF refl]) (auto dest!: rows_ofD)
  ultimately show ?thesis by (simp only:)
qed

lemma mset_matching: "mset (matching k v ms) = (if truthy v then filter_mset (\<lambda>m. jget m k = v) (mset ms) else mset ms)"
  by (simp add: matching_def)

lemma sorted_matching: "sorted (map f ms) \<Longrightarrow> sorted (map f (matching k v ms))"
  by (simp add: matching_def sorted_filter)

text \<open>when every file can be read, a read returns every stored message that matches the filters,
  exactly once, in the order of the timestamps.\<close>

theorem read_complete_and_ordered:
  assumes "clean_store s" and "all_readable env"
  shows "\<exists>ms. read_messages env packet thread None s = Inr ms \<and>
     mset ms = mset (matching ''thread_id'' thread (matching ''packet_id'' packet (docs_of s))) \<and>
     sorted (map (\<lambda>m. py_str (jget m ''at'')) ms)"
proof -
  let ?all = "map (\<lambda>(_, _, m). m) (sort_key (\<lambda>(at, name, _). (py_str at, name)) (rows_of s))"
  have "mset ?all = mset (docs_of s)" by (simp flip: map_rows_of)
  then show ?thesis
    unfolding read_messages_sorted_rows [OF assms]
    by (simp add: last_n_def mset_matching sorted_matching sorted_rows_at del: map_map)
qed

definition demo_comms :: comms where
  "demo_comms = \<lparr>mfiles = [(''msg-5.json'', Doc (JObj demo_msg)), (''x.json'', Torn)], mtick = 0, tlocks = []\<rparr>"

definition demo_reading :: reading where
  "demo_reading = \<lparr>listed = True, readable = (\<lambda>_. True)\<rparr>"

lemma demo_msg_fields:
  "jget demo_msg ''message_id'' = JStr (''msg-'' @ str_nat 5)" "jget demo_msg ''thread_id'' = JStr ''t''"
  "jget demo_msg ''idempotency_key'' = JStr ''k''" "jget demo_msg ''at'' = JStr (str_nat 6)"
  "jget demo_msg ''message'' = JStr ''hi''" "jhas demo_msg ''at''" "jhas demo_msg ''message_id''"
proof -
  have c: "strip ''t'' = ''t''" "strip ''k'' = ''k''" by code_simp+
  show "jget demo_msg ''message_id'' = JStr (''msg-'' @ str_nat 5)" "jget demo_msg ''thread_id'' = JStr ''t''"
    "jget demo_msg ''idempotency_key'' = JStr ''k''" "jget demo_msg ''at'' = JStr (str_nat 6)"
    "jget demo_msg ''message'' = JStr ''hi''"
    by (simp_all add: demo_msg_def assemble_fields assemble_options demo_fmt_def demo_args_def or_default_def c)
  then show "jhas demo_msg ''at''" "jhas demo_msg ''message_id''"
    by (simp_all add: jget_nonnull_has)
qed

lemma demo_clean: "clean_store demo_comms" "all_readable demo_reading"
  by (simp_all add: clean_store_def demo_comms_def all_readable_def demo_reading_def has_suffix_def demo_msg_fields)

lemma read_complete_and_ordered_witness:
  "\<exists>ms. read_messages demo_reading JNull (JStr ''t'') None demo_comms = Inr ms \<and> mset ms = {#demo_msg#}"
  using read_complete_and_ordered [OF demo_clean, of JNull "JStr ''t''"]
  by (auto simp: demo_comms_def docs_of_def matching_def demo_msg_fields)

text \<open>A limit of zero does not mean none: the whole list comes back.\<close>

lemma limit_zero_is_no_limit:
  "read_messages env packet thread (Some 0) s = read_messages env packet thread None s"
  by (simp add: read_messages_def last_n_def)

section \<open>Writing\<close>

lemma message_name_json: "has_suffix ''.json'' (message_name base n)"
proof -
  have "message_name base n = (base @ (if n = 0 then [] else ''-'' @ str_nat n)) @ ''.json''"
    by (simp add: message_name_def)
  then show ?thesis by (simp only: has_suffix_append)
qed

lemma free_nameD:
  assumes "free_name base s = Some n"
  shows "n \<notin> fst ` set (mfiles s) \<and> has_suffix ''.json'' n"
  using assms message_name_json by (auto simp: free_name_def find_Some_iff)

lemma mfiles_add [simp]: "mfiles (add_file n c (ticks k s)) = mfiles s @ [(n, c)]"
  by (simp add: add_file_def ticks_def)

lemma mfiles_ticks [simp]: "mfiles (ticks k s) = mfiles s"
  by (simp add: ticks_def)

text \<open>A write adds at most one file, under a free name; it succeeds exactly with the whole message.\<close>

lemma write_message_files:
  assumes "write_message fault token msg s = (r, s')"
  shows "(mfiles s' = mfiles s \<and> (\<exists>e. r = Inl e)) \<or>
     (\<exists>n c. mfiles s' = mfiles s @ [(n, c)] \<and> n \<notin> fst ` set (mfiles s) \<and> has_suffix ''.json'' n \<and>
        (c = Torn \<or> c = Doc (JObj msg)) \<and> token = None \<and>
        (\<forall>n'. r = Inr n' \<longrightarrow> n' = n \<and> c = Doc (JObj msg)))"
proof (cases "\<exists>base n. jget msg ''message_id'' = JStr base \<and> free_name base s = Some n \<and> token = None \<and>
    jhas msg ''message_id'' \<and> \<not> fault (mtick s)")
  case True
  then obtain base n where b: "jget msg ''message_id'' = JStr base" "free_name base s = Some n" "token = None"
    "jhas msg ''message_id''" "\<not> fault (mtick s)" by blast
  then show ?thesis
    using assms free_nameD [OF b(2)] by (auto simp: write_message_def split: if_splits)
next
  case False
  then show ?thesis
    using assms
    by (cases "jget msg ''message_id''"; cases token) (auto simp: write_message_def split: if_splits option.splits)
qed

section \<open>Histories\<close>

definition wf_message :: "jobj \<Rightarrow> bool" where
  "wf_message m = (jhas m ''at'' \<and> is_str (jget m ''at''))"

lemma typed_wf: "typed_message m \<Longrightarrow> wf_message m"
  unfolding typed_message_def wf_message_def
  by (cases "jget m ''at''") (auto intro: jget_nonnull_has)

text \<open>
  The writers of the store: plain writes of messages without a key, keyed writes (which may end in a
  crash that leaves the thread's lock file behind), and lock files removed by hand. A keyed writer
  reads every file; what the file operations do is arbitrary.
\<close>

inductive comms_step :: "comms \<Rightarrow> comms \<Rightarrow> bool" where
  plain: "write_message fault token msg s = (r, s') \<Longrightarrow> \<not> truthy (jget msg ''idempotency_key'') \<Longrightarrow>
     wf_message msg \<Longrightarrow> comms_step s s'"
| keyed: "write_message_idempotent hash fault token env unlocked msg s = (r, s') \<Longrightarrow> \<forall>n. readable env n \<Longrightarrow>
     wf_message msg \<Longrightarrow> comms_step s s'"
| cleared: "comms_step s (s\<lparr>tlocks := ls\<rparr>)"

inductive_cases comms_stepE: "comms_step s s'"

definition has_key :: "json \<Rightarrow> json \<Rightarrow> string \<times> content \<Rightarrow> bool" where
  "has_key t k row = (case snd row of
     Doc (JObj m) \<Rightarrow> jget m ''thread_id'' = t \<and> jget m ''idempotency_key'' = k | _ \<Rightarrow> False)"

definition comms_ok :: "comms \<Rightarrow> bool" where
  "comms_ok s = (clean_store s \<and> distinct (map fst (mfiles s)) \<and>
     (\<forall>t k. truthy k \<longrightarrow> length (filter (has_key t k) (mfiles s)) \<le> 1))"

lemma docs_ofD: "(n, Doc (JObj m)) \<in> set (mfiles s) \<Longrightarrow> m \<in> set (docs_of s)"
  by (force simp: docs_of_def)

lemma docs_ofE: "m \<in> set (docs_of s) \<Longrightarrow> \<exists>n. (n, Doc (JObj m)) \<in> set (mfiles s)"
  by (auto simp: docs_of_def split: content.splits json.splits)

text \<open>When no message with the key is found, none with that thread and key is stored.\<close>

lemma not_found:
  assumes "clean_store s" and "\<forall>n. readable env n"
    and "find_by_idempotency_key env t k s = Inr None" and "truthy k"
  shows "filter (has_key t k) (mfiles s) = []"
proof -
  have env: "all_readable env"
    using assms(2-4) by (auto simp: all_readable_def find_by_idempotency_key_def read_messages_def sbind_Inr_iff)
  obtain ms where ms: "read_messages env JNull t None s = Inr ms"
    "mset ms = mset (matching ''thread_id'' t (matching ''packet_id'' JNull (docs_of s)))"
    using read_complete_and_ordered [OF assms(1) env, of JNull t] by blast
  have none: "List.find (\<lambda>m. jget m ''idempotency_key'' = k) ms = None"
    using assms(3,4) ms(1) by (simp add: find_by_idempotency_key_def)
  have "\<not> has_key t k (n, c)" if "(n, c) \<in> set (mfiles s)" for n c
  proof
    assume "has_key t k (n, c)"
    then obtain m where m: "c = Doc (JObj m)" "jget m ''thread_id'' = t" "jget m ''idempotency_key'' = k"
      by (auto simp: has_key_def split: content.splits json.splits)
    then have "m \<in> set ms"
      using docs_ofD [of n m s] that arg_cong [OF ms(2), of set_mset] by (auto simp: matching_def)
    with none m(3) show False by (auto simp: find_None_iff)
  qed
  then show ?thesis by (auto simp: filter_empty_conv)
qed

lemma comms_ok_add:
  assumes "comms_ok s" and "mfiles s' = mfiles s @ [(n, c)]" and "n \<notin> fst ` set (mfiles s)"
    and "has_suffix ''.json'' n" and "c = Torn \<or> c = Doc (JObj msg)" and "wf_message msg"
    and "\<And>t k. truthy k \<Longrightarrow> has_key t k (n, c) \<Longrightarrow> filter (has_key t k) (mfiles s) = []"
  shows "comms_ok s'"
  using assms unfolding comms_ok_def clean_store_def wf_message_def by auto

lemma write_ok:
  assumes "write_message fault token msg s = (r, s')" and "comms_ok s" and "wf_message msg"
    and "\<And>k. truthy k \<Longrightarrow> jget msg ''idempotency_key'' = k \<Longrightarrow>
           filter (has_key (jget msg ''thread_id'') k) (mfiles s) = []"
  shows "comms_ok s'"
  using write_message_files [OF assms(1)]
proof
  assume "mfiles s' = mfiles s \<and> (\<exists>e. r = Inl e)"
  then show ?thesis using assms(2) by (simp add: comms_ok_def clean_store_def)
next
  assume "\<exists>n c. mfiles s' = mfiles s @ [(n, c)] \<and> n \<notin> fst ` set (mfiles s) \<and> has_suffix ''.json'' n \<and>
        (c = Torn \<or> c = Doc (JObj msg)) \<and> token = None \<and> (\<forall>n'. r = Inr n' \<longrightarrow> n' = n \<and> c = Doc (JObj msg))"
  then obtain n c where n: "mfiles s' = mfiles s @ [(n, c)]" "n \<notin> fst ` set (mfiles s)" "has_suffix ''.json'' n"
    "c = Torn \<or> c = Doc (JObj msg)" by blast
  show ?thesis
  proof (rule comms_ok_add [OF assms(2) n assms(3)])
    show "filter (has_key t k) (mfiles s) = []" if "truthy k" "has_key t k (n, c)" for t k
      using that n(4) assms(4) [of k] by (auto simp: has_key_def)
  qed
qed

lemma comms_ok_locks [simp]: "comms_ok (s\<lparr>tlocks := ls\<rparr>) = comms_ok s"
  by (simp add: comms_ok_def clean_store_def)

lemma check_and_append_ok:
  assumes "check_and_append fault token env msg s = (r, s')" and "\<forall>n. readable env n"
    and "truthy (jget msg ''idempotency_key'')" and "comms_ok s" and "wf_message msg"
  shows "comms_ok s'"
proof (cases "find_by_idempotency_key env (jget msg ''thread_id'') (jget msg ''idempotency_key'') s = Inr None")
  case True
  then obtain r1 where w: "write_message fault token msg s = (r1, s')"
    using assms(1) by (auto simp: check_and_append_def split: prod.splits sum.splits)
  have "clean_store s" using assms(4) by (simp add: comms_ok_def)
  then show ?thesis using write_ok [OF w assms(4,5)] not_found [OF _ assms(2) True assms(3)] by blast
next
  case False
  then have "s' = s"
    using assms(1) by (auto simp: check_and_append_def split: sum.splits option.splits if_splits)
  then show ?thesis using assms(4) by simp
qed

lemma idempotent_ok:
  assumes "write_message_idempotent hash fault token env unlocked msg s = (r, s')" and "\<forall>n. readable env n"
    and "comms_ok s" and "wf_message msg"
  shows "comms_ok s'"
proof (cases "truthy (jget msg ''idempotency_key'')")
  case False
  then obtain r1 where w: "write_message fault token msg s = (r1, s')"
    using assms(1) by (auto simp: write_message_idempotent_def split: prod.splits sum.splits)
  show ?thesis using write_ok [OF w assms(3,4)] False by blast
next
  case True
  show ?thesis
  proof (cases "s' = s")
    case False
    then obtain l s1 where "check_and_append fault token env msg s = (r, s1)"
      and "s' = s1 \<or> s' = s1\<lparr>tlocks := l\<rparr>"
      using assms(1) True
      by (auto simp: write_message_idempotent_def split: sum.splits if_splits prod.splits)
    then show ?thesis using check_and_append_ok [OF _ assms(2) True assms(3,4)] by auto
  qed (use assms(3) in simp)
qed

lemma comms_step_ok: "comms_ok s \<Longrightarrow> comms_step s s' \<Longrightarrow> comms_ok s'"
  by (erule comms_stepE) (auto intro: write_ok idempotent_ok)

interpretation comms_runs: kept_by_steps comms_step comms_ok
  by unfold_locales (rule comms_step_ok)

definition no_messages :: comms where
  "no_messages = \<lparr>mfiles = [], mtick = 0, tlocks = []\<rparr>"

definition reachable_comms :: "comms \<Rightarrow> bool" where
  "reachable_comms s = comms_step\<^sup>*\<^sup>* no_messages s"

lemma reachable_comms_ok: "reachable_comms s \<Longrightarrow> comms_ok s"
  unfolding reachable_comms_def
  by (erule comms_runs.run_keeps) (simp add: no_messages_def comms_ok_def clean_store_def)

text \<open>A later state of the log: new files, each torn or holding a message of a given kind.\<close>

definition appends :: "(jobj \<Rightarrow> bool) \<Rightarrow> comms \<Rightarrow> comms \<Rightarrow> bool" where
  "appends P s s' = (\<exists>new. mfiles s' = mfiles s @ new \<and>
     list_all (\<lambda>(n, c). c = Torn \<or> (\<exists>m. c = Doc (JObj m) \<and> P m)) new)"

lemma appends_files: "mfiles s' = mfiles s \<Longrightarrow> appends P s s'"
  by (simp add: appends_def)

lemma appends_trans: "appends P s s1 \<Longrightarrow> appends P s1 s2 \<Longrightarrow> appends P s s2"
  by (auto simp: appends_def)

lemma appends_mono: "appends P s s' \<Longrightarrow> (\<And>m. P m \<Longrightarrow> Q m) \<Longrightarrow> appends Q s s'"
  unfolding appends_def by (elim exE conjE, intro exI conjI, assumption, erule list.pred_mono_strong) auto

lemma appends_prefix: "appends P s s' \<Longrightarrow> prefix (mfiles s) (mfiles s')"
  by (auto simp: appends_def)

lemma write_appends: "write_message fault token msg s = (r, s') \<Longrightarrow> appends (\<lambda>m. m = msg) s s'"
  by (drule write_message_files) (auto simp: appends_def)

lemma check_and_append_appends:
  "check_and_append fault token env msg s = (r, s') \<Longrightarrow> appends (\<lambda>m. m = msg) s s'"
  by (auto simp: check_and_append_def appends_files split: sum.splits option.splits if_splits prod.splits
      dest: write_appends)

lemma idempotent_appends:
  assumes "write_message_idempotent hash fault token env unlocked msg s = (r, s')"
  shows "appends (\<lambda>m. m = msg) s s'"
proof (cases "truthy (jget msg ''idempotency_key'')")
  case False
  then obtain r1 where "write_message fault token msg s = (r1, s')"
    using assms by (auto simp: write_message_idempotent_def split: prod.splits sum.splits)
  then show ?thesis by (rule write_appends)
next
  case True
  obtain r1 s1 where c: "check_and_append fault token env msg s = (r1, s1)" by fastforce
  then have "mfiles s' = mfiles s \<or> mfiles s' = mfiles s1"
    using assms True by (auto simp: write_message_idempotent_def split: sum.splits if_splits prod.splits)
  then show ?thesis using check_and_append_appends [OF c] by (auto simp: appends_def)
qed

lemma comms_step_grows: "comms_step s s' \<Longrightarrow> \<exists>new. mfiles s' = mfiles s @ new"
  by (erule comms_stepE) (auto dest!: write_appends idempotent_appends simp: appends_def)

text \<open>whatever writers do and whichever file operations fail, files already in the log are never
  changed or removed: a later state only has more files after them.\<close>

theorem log_only_grows:
  assumes "comms_step\<^sup>*\<^sup>* s s'"
  shows "prefix (mfiles s) (mfiles s')"
  using assms
  by (induction rule: rtranclp_induct) (auto dest!: comms_step_grows simp: prefix_def)

definition no_faults :: faults where "no_faults = (\<lambda>_. False)"

lemma demo_keyed: 
  "write_message_idempotent (\<lambda>x. x) no_faults None demo_reading True demo_msg no_messages =
     (Inr (demo_msg, False), no_messages\<lparr>mfiles := [(message_name (''msg-'' @ str_nat 5) 0, Doc (JObj demo_msg))], mtick := 4\<rparr>)"
proof -
  have "free_name (''msg-'' @ str_nat 5) no_messages = Some (message_name (''msg-'' @ str_nat 5) 0)"
    by (simp add: free_name_def no_messages_def upt_rec [of 0])
  then show ?thesis
    by (simp add: write_message_idempotent_def demo_msg_fields idempotency_lock_def py_or_def no_messages_def
        check_and_append_def find_by_idempotency_key_def read_messages_def demo_reading_def sort_rows_def
        matching_def last_n_def write_message_def no_faults_def add_file_def ticks_def)
qed

definition demo_logged :: comms where
  "demo_logged = no_messages\<lparr>mfiles := [(message_name (''msg-'' @ str_nat 5) 0, Doc (JObj demo_msg))], mtick := 4\<rparr>"

lemma demo_step: "comms_step no_messages demo_logged"
  unfolding demo_logged_def
  by (rule keyed [OF demo_keyed]) (simp_all add: demo_reading_def wf_message_def demo_msg_fields)

lemma demo_logged_reachable: "reachable_comms demo_logged"
  using demo_step unfolding reachable_comms_def by blast

lemma log_only_grows_witness: "prefix (mfiles no_messages) (mfiles demo_logged)"
  by (rule log_only_grows) (use demo_step in blast)



text \<open>A keyed post whose thread lock file was left behind, by a process that died while holding it or
  could not remove it, is refused without writing, and so is every later one until the file is removed
  by hand: nothing takes a stale lock over.\<close>

lemma stale_lock_blocks_keyed_posts:
  assumes "truthy (jget msg ''idempotency_key'')" and "jget msg ''thread_id'' = JStr t"
    and "take 16 (hash t) \<in> set (tlocks s)"
  shows "write_message_idempotent hash fault token env unlocked msg s = (Inl (Raised OSError), s)"
  using assms by (auto simp: write_message_idempotent_def idempotency_lock_def py_or_def)

lemma stale_lock_blocks_keyed_posts_witness:
  "write_message_idempotent (\<lambda>x. x) no_faults None demo_reading True demo_msg (no_messages\<lparr>tlocks := [''t'']\<rparr>) =
     (Inl (Raised OSError), no_messages\<lparr>tlocks := [''t'']\<rparr>)"
  by (rule stale_lock_blocks_keyed_posts [where t = "''t''"]) (simp_all add: demo_msg_fields)

end
