(* ===== verification/Gate_Safety.thy ===== *)
theory Gate_Safety
  imports Gate_Escalation Gate_Identity Message_Safety
begin

text \<open>
  What the gates guarantee: a gate only leaves the unresolved state on a qualifying operator message,
  an item counts as open only without an unresolved gate, creation is idempotent, and a sweep that
  reports success has a gate for every escalated council. Each operation is one step here; two writers
  of one record that interleave are the subject of \<open>interleaved_writes_lose_a_gate\<close>.
\<close>

section \<open>Authority\<close>

text \<open>A token occurs bounded by characters outside the identifier set.\<close>

definition mentions :: "string \<Rightarrow> string \<Rightarrow> bool" where
  "mentions body tok = (\<exists>u v. body = u @ tok @ v \<and> (u \<noteq> [] \<longrightarrow> \<not> id_char (last u)) \<and>
     (v \<noteq> [] \<longrightarrow> \<not> id_char (hd v)))"

lemma bounded_here:
  "has_prefix tok w \<and> (case drop (length tok) w of [] \<Rightarrow> True | x # _ \<Rightarrow> \<not> id_char x) \<longleftrightarrow>
     (\<exists>v. w = tok @ v \<and> (v \<noteq> [] \<longrightarrow> \<not> id_char (hd v)))"
proof (cases "has_prefix tok w")
  case True
  then obtain v where "w = tok @ v" by (auto simp: has_prefix_iff)
  then show ?thesis by (cases v) (auto simp: has_prefix_iff)
qed (auto simp: has_prefix_iff)

lemma split_first:
  "(\<not> b \<and> (\<exists>v. w = t @ v \<and> P v) \<or> (\<exists>u v. w = u @ t @ v \<and> u \<noteq> [] \<and> Q u \<and> P v)) =
     (\<exists>u v. w = u @ t @ v \<and> (if u = [] then \<not> b else Q u) \<and> P v)"
  (is "?l = ?r")
proof
  assume ?l
  then show ?r
  proof
    assume "\<not> b \<and> (\<exists>v. w = t @ v \<and> P v)"
    then show ?r by (metis append_Nil)
  next
    assume "\<exists>u v. w = u @ t @ v \<and> u \<noteq> [] \<and> Q u \<and> P v"
    then obtain u v where "w = u @ t @ v" "u \<noteq> []" "Q u" "P v" by blast
    then have "w = u @ t @ v \<and> (if u = [] then \<not> b else Q u) \<and> P v" by simp
    then show ?r by blast
  qed
next
  assume ?r
  then obtain u v where "w = u @ t @ v" "if u = [] then \<not> b else Q u" "P v" by blast
  then show ?l by (cases "u = []") auto
qed

lemma token_from_iff:
  assumes "tok \<noteq> []"
  shows "token_from before tok s \<longleftrightarrow>
    (\<exists>u v. s = u @ tok @ v \<and> (if u = [] then \<not> before else \<not> id_char (last u)) \<and>
       (v \<noteq> [] \<longrightarrow> \<not> id_char (hd v)))"
  using assms
proof (induction before tok s rule: token_from.induct)
  case (1 before tok)
  then show ?case by simp
next
  case (2 before tok c cs)
  let ?here = "\<not> before \<and> has_prefix tok (c # cs) \<and>
      (case drop (length tok) (c # cs) of [] \<Rightarrow> True | x # _ \<Rightarrow> \<not> id_char x)"
  have here: "?here \<longleftrightarrow> \<not> before \<and> (\<exists>v. c # cs = tok @ v \<and> (v \<noteq> [] \<longrightarrow> \<not> id_char (hd v)))"
    using bounded_here [of tok "c # cs"] by blast
  have later: "(\<exists>u v. cs = u @ tok @ v \<and> (if u = [] then \<not> id_char c else \<not> id_char (last u)) \<and>
       (v \<noteq> [] \<longrightarrow> \<not> id_char (hd v))) \<longleftrightarrow>
      (\<exists>u v. c # cs = u @ tok @ v \<and> u \<noteq> [] \<and> \<not> id_char (last u) \<and> (v \<noteq> [] \<longrightarrow> \<not> id_char (hd v)))"
    (is "?l \<longleftrightarrow> ?r")
  proof
    assume ?l
    then obtain u v where "cs = u @ tok @ v" "if u = [] then \<not> id_char c else \<not> id_char (last u)"
      "v \<noteq> [] \<longrightarrow> \<not> id_char (hd v)" by blast
    then show ?r by (intro exI [of _ "c # u"] exI [of _ v]) (auto split: if_splits)
  next
    assume ?r
    then obtain u v where u: "c # cs = u @ tok @ v" "u \<noteq> []" "\<not> id_char (last u)"
      "v \<noteq> [] \<longrightarrow> \<not> id_char (hd v)" by blast
    then obtain u' where "u = c # u'" by (cases u) auto
    with u show ?l by (intro exI [of _ u'] exI [of _ v]) (auto split: if_splits)
  qed
  have "token_from before tok (c # cs) \<longleftrightarrow> ?here \<or> token_from (id_char c) tok cs" by simp
  also have "\<dots> \<longleftrightarrow> (\<exists>u v. c # cs = u @ tok @ v \<and> (if u = [] then \<not> before else \<not> id_char (last u)) \<and>
       (v \<noteq> [] \<longrightarrow> \<not> id_char (hd v)))"
    unfolding here "2.IH" [OF "2.prems"] later by (rule split_first)
  finally show ?case .
qed

lemma mentions_iff: "tok \<noteq> [] \<Longrightarrow> token_from False tok body \<longleftrightarrow> mentions body tok"
  unfolding mentions_def by (subst token_from_iff) (auto split: if_splits)

text \<open>The identifiers of a gate are texts or absent, as the gate functions write them.\<close>

definition typed_gate :: "jobj \<Rightarrow> bool" where
  "typed_gate g = list_all (\<lambda>k. is_str (jget g k) \<or> jget g k = JNull)
     [''work_item_id_as_seen'', ''subject'', ''council_id'']"

definition target_named :: "jobj \<Rightarrow> string \<Rightarrow> bool" where
  "target_named g body = (\<exists>k \<in> {''work_item_id_as_seen'', ''subject'', ''council_id''}. \<exists>t.
     jget g k = JStr t \<and> t \<noteq> [] \<and> mentions body t)"

lemma id_token_iff:
  assumes "is_str j \<or> j = JNull"
  shows "id_token_present body j = Inr (\<exists>t. j = JStr t \<and> t \<noteq> [] \<and> mentions body t)"
  using assms by (cases j) (auto simp: id_token_present_def mentions_iff)

lemma names_target_iff:
  assumes "typed_gate g"
  shows "names_target body g = Inr (target_named g body)"
proof -
  have "is_str (jget g k) \<or> jget g k = JNull"
    if "k \<in> {''work_item_id_as_seen'', ''subject'', ''council_id''}" for k
    using assms that by (auto simp: typed_gate_def)
  note t = id_token_iff [OF this]
  show ?thesis
    by (auto simp: names_target_def target_named_def t)
qed

definition after :: "int option \<Rightarrow> int option \<Rightarrow> bool" where
  "after a b = (case (a, b) of (Some x, Some y) \<Rightarrow> y < x | _ \<Rightarrow> False)"

text \<open>The rule: an operator's inbound message, not written by the tools themselves, later than the gate
  and (for a closure) than the failed outcome, naming the work item or council and authorising.\<close>

definition authority_rule :: "genv \<Rightarrow> jobj \<Rightarrow> string list \<Rightarrow> json \<Rightarrow> jobj \<Rightarrow> bool" where
  "authority_rule env gate phrases after_outcome msg =
     (jget msg ''actor'' = JStr ''OPERATOR-0001'' \<and> jget msg ''direction'' = JStr ''inbound'' \<and>
      jget msg ''source'' \<notin> JStr ` set EXEMPT_MESSAGE_SOURCES \<and>
      after (iso_of env (jget msg ''at'')) (iso_of env (jget gate ''created_at'')) \<and>
      (iso_of env after_outcome \<noteq> None \<longrightarrow> after (iso_of env (jget msg ''at'')) (iso_of env after_outcome)) \<and>
      (\<exists>body. get_or msg ''message'' (JStr []) = JStr body \<and> target_named gate body \<and>
         phrase_authorizes body phrases))"

lemma raising_Inr [simp]: "raising m = Inr x \<longleftrightarrow> m = Inr x"
  by (cases m) (auto simp: raising_def)

lemma raising_Inl [simp]: "raising (Inl e) = Inl (GateRaised e)" "raising (Inr x) = Inr x"
  by (simp_all add: raising_def)

lemma judge_message_iff:
  assumes "typed_gate gate"
  shows "judge_message env gate phrases after_outcome msg = Inr m \<longleftrightarrow>
    m = msg \<and> authority_rule env gate phrases after_outcome msg"
proof -
  have body: "(case get_or msg ''message'' (JStr []) of JStr b \<Rightarrow> Inr b | _ \<Rightarrow> Inl (GateRaised TypeError)) = Inr b
      \<longleftrightarrow> get_or msg ''message'' (JStr []) = JStr b" for b :: string
    by (cases "get_or msg ''message'' (JStr [])") auto
  have iso: "(after_outcome = JNull \<or> (case (iso_of env (jget msg ''at''), iso_of env after_outcome) of
        (Some c, Some t) \<Rightarrow> t < c | _ \<Rightarrow> True)) \<longleftrightarrow>
      (iso_of env after_outcome \<noteq> None \<longrightarrow> after (iso_of env (jget msg ''at'')) (iso_of env after_outcome))"
    if "after (iso_of env (jget msg ''at'')) (iso_of env (jget gate ''created_at''))"
    using that by (auto simp: after_def iso_of_def [of env JNull] split: option.splits)
  show ?thesis
    unfolding judge_message_def Let_def sbind_Inr_iff raising_Inr require_iff names_target_iff [OF assms]
      authority_rule_def after_def [symmetric] body
    using iso by (auto simp: after_def)
qed

text \<open>a message authorises a disposition exactly when it is found under its id and satisfies the
  authority rule.\<close>

theorem authority_exact:
  assumes "typed_gate gate"
  shows "validate_authority env rd gate mid phrases after_outcome s = Inr msg \<longleftrightarrow>
    find_message rd mid s = Inr (Some msg) \<and> authority_rule env gate phrases after_outcome msg"
  using judge_message_iff [OF assms]
  by (auto simp: validate_authority_def split: sum.splits option.splits)

text \<open>Without any assumption on the gate, an accepted message satisfies the rule.\<close>

lemma id_token_True: "id_token_present body j = Inr True \<Longrightarrow> \<exists>t. j = JStr t \<and> t \<noteq> [] \<and> mentions body t"
  by (cases j) (auto simp: id_token_present_def mentions_iff split: if_splits)

lemma names_target_True: "names_target body g = Inr True \<Longrightarrow> target_named g body"
proof -
  assume a: "names_target body g = Inr True"
  then have "\<exists>k \<in> {''work_item_id_as_seen'', ''subject'', ''council_id''}. id_token_present body (jget g k) = Inr True"
    by (auto simp: names_target_def sbind_def split: sum.splits if_splits)
  then show ?thesis unfolding target_named_def using id_token_True by blast
qed

lemma judge_message_rule:
  assumes "judge_message env gate phrases after_outcome msg = Inr m"
  shows "m = msg" and "authority_rule env gate phrases after_outcome msg"
proof -
  have body: "(case get_or msg ''message'' (JStr []) of JStr b \<Rightarrow> Inr b | _ \<Rightarrow> Inl (GateRaised TypeError)) = Inr b
      \<longleftrightarrow> get_or msg ''message'' (JStr []) = JStr b" for b :: string
    by (cases "get_or msg ''message'' (JStr [])") auto
  have *: "m = msg \<and> authority_rule env gate phrases after_outcome msg"
    using assms
    unfolding judge_message_def Let_def sbind_Inr_iff raising_Inr require_iff authority_rule_def
      after_def [symmetric] body
    by (auto simp: after_def iso_of_def [of env JNull] dest!: names_target_True split: option.splits)
  then show "m = msg" and "authority_rule env gate phrases after_outcome msg" by blast+
qed

section \<open>How a gate can change\<close>

definition gates_of :: "gsys \<Rightarrow> string \<Rightarrow> json list" where
  "gates_of s key = (case gfiles s key of Some (Doc (JObj rec)) \<Rightarrow> arr_of (jget rec ''gates'') | _ \<Rightarrow> [])"

definition gate_at :: "gsys \<Rightarrow> string \<Rightarrow> nat \<Rightarrow> jobj \<Rightarrow> bool" where
  "gate_at s key i g = (i < length (gates_of s key) \<and> gates_of s key ! i = JObj g)"

text \<open>The fields that identify a gate, and the ones its life may change.\<close>

definition evolves :: "genv \<Rightarrow> jobj list \<Rightarrow> jobj \<Rightarrow> jobj \<Rightarrow> bool" where
  "evolves env log g g' =
     ((\<forall>k. k \<notin> {''dedup_key'', ''deduplicated_events'', ''disposition'', ''authority''} \<longrightarrow> jget g' k = jget g k) \<and>
      (truthy (jget g ''dedup_key'') \<longrightarrow> jget g' ''dedup_key'' = jget g ''dedup_key'') \<and>
      (jget g' ''disposition'' = jget g ''disposition'' \<and> jget g' ''authority'' = jget g ''authority'' \<or>
       jget g ''disposition'' = JStr ''unresolved'' \<and>
       (\<exists>msg \<in> set log. jget (obj_of (jget g' ''authority'')) ''message_id'' = jget msg ''message_id'' \<and>
          (jget g' ''disposition'' = JStr ''resolved'' \<and> authority_rule env g PROCEED_PHRASES JNull msg \<or>
           jget g' ''disposition'' = JStr ''closed_unresolved'' \<and>
           (\<exists>t. authority_rule env g CLOSE_PHRASES t msg)))))"

lemma evolves_refl [simp]: "evolves env log g g"
  by (simp add: evolves_def)

lemma authority_rule_cong:
  assumes "\<And>k. k \<in> {''created_at'', ''work_item_id_as_seen'', ''subject'', ''council_id''} \<Longrightarrow> jget g' k = jget g k"
  shows "authority_rule env g' phrases t msg = authority_rule env g phrases t msg"
  using assms by (simp add: authority_rule_def target_named_def)

lemma evolves_trans:
  assumes "evolves env log g g1" and "evolves env log' g1 g2" and "set log \<subseteq> set log'"
  shows "evolves env log' g g2"
proof -
  have rule: "authority_rule env g1 phrases t msg = authority_rule env g phrases t msg" for phrases t msg
  proof (rule authority_rule_cong)
    fix k assume "k \<in> {''created_at'', ''work_item_id_as_seen'', ''subject'', ''council_id''}"
    then have "k \<notin> {''dedup_key'', ''deduplicated_events'', ''disposition'', ''authority''}" by fastforce
    then show "jget g1 k = jget g k" using assms(1) unfolding evolves_def by blast
  qed
  let ?auth = "\<lambda>log x y. jget x ''disposition'' = JStr ''unresolved'' \<and>
    (\<exists>msg \<in> set log. jget (obj_of (jget y ''authority'')) ''message_id'' = jget msg ''message_id'' \<and>
          (jget y ''disposition'' = JStr ''resolved'' \<and> authority_rule env x PROCEED_PHRASES JNull msg \<or>
           jget y ''disposition'' = JStr ''closed_unresolved'' \<and>
           (\<exists>t. authority_rule env x CLOSE_PHRASES t msg)))"
  let ?same = "\<lambda>x y. jget y ''disposition'' = jget x ''disposition'' \<and> jget y ''authority'' = jget x ''authority''"
  have 1: "?same g g1 \<or> ?auth log g g1" and 2: "?same g1 g2 \<or> ?auth log' g1 g2"
    using assms(1,2) unfolding evolves_def by blast+
  have "?same g g2 \<or> ?auth log' g g2"
  proof (cases "?same g g1")
    case True
    then show ?thesis using 2 unfolding rule by auto
  next
    case False
    with 1 have a: "?auth log g g1" by blast
    then have "jget g1 ''disposition'' \<noteq> JStr ''unresolved''" by auto
    with 2 have same: "?same g1 g2" by blast
    have "?auth log' g g1" using a assms(3) by blast
    then have "?auth log' g g2" using same by (simp only:)
    then show ?thesis ..
  qed
  moreover have "\<forall>k. k \<notin> {''dedup_key'', ''deduplicated_events'', ''disposition'', ''authority''} \<longrightarrow> jget g2 k = jget g k"
    using assms(1,2) unfolding evolves_def by metis
  moreover have "truthy (jget g ''dedup_key'') \<longrightarrow> jget g2 ''dedup_key'' = jget g ''dedup_key''"
    using assms(1,2) unfolding evolves_def by metis
  ultimately show ?thesis unfolding evolves_def by blast
qed

definition grows :: "genv \<Rightarrow> gsys \<Rightarrow> gsys \<Rightarrow> bool" where
  "grows env s s' = (prefix (mfiles (gcomms s)) (mfiles (gcomms s')) \<and>
     (\<forall>key i g. gate_at s key i g \<longrightarrow> (\<exists>g'. gate_at s' key i g' \<and> evolves env (docs_of (gcomms s')) g g')))"

text \<open>Operations that never dispose of a gate keep every disposition, and log at most failure notices.\<close>

abbreviation is_notice :: "jobj \<Rightarrow> bool" where
  "is_notice m \<equiv> jget m ''source'' = JStr ''use-cw-gate''"

definition keeps :: "genv \<Rightarrow> gsys \<Rightarrow> gsys \<Rightarrow> bool" where
  "keeps env s s' = (appends is_notice (gcomms s) (gcomms s') \<and>
     (\<forall>key i g. gate_at s key i g \<longrightarrow> (\<exists>g'. gate_at s' key i g' \<and> evolves env [] g g')))"

lemma evolves_mono: "evolves env [] g g' \<Longrightarrow> evolves env log g g'"
  by (simp add: evolves_def)

lemma keeps_grows: "keeps env s s' \<Longrightarrow> grows env s s'"
  unfolding keeps_def grows_def by (meson evolves_mono appends_prefix)

lemma keeps_refl: "keeps env s s"
  by (simp add: keeps_def appends_files) (metis evolves_refl)

lemma keeps_trans: "keeps env s s1 \<Longrightarrow> keeps env s1 s2 \<Longrightarrow> keeps env s s2"
  unfolding keeps_def by (meson evolves_trans appends_trans subset_refl)

lemma prefix_docs_of: "prefix (mfiles s) (mfiles s') \<Longrightarrow> set (docs_of s) \<subseteq> set (docs_of s')"
  by (auto simp: prefix_def docs_of_def)

lemma grows_refl: "grows env s s"
  by (simp add: grows_def) (metis evolves_refl)

lemma grows_trans: "grows env s s1 \<Longrightarrow> grows env s1 s2 \<Longrightarrow> grows env s s2"
  unfolding grows_def by (meson evolves_trans prefix_docs_of prefix_order.trans)

text \<open>One write of a record just loaded.\<close>

lemma load_record_gates:
  assumes "load_record env s subject = Inr rec"
  shows "jget rec ''subject'' = JStr subject"
    and "arr_of (jget rec ''gates'') = gates_of s (g_sha env subject)"
proof -
  have none: "\<not> jhas ob k \<Longrightarrow> jget ob k = JNull" for ob k using jget_nonnull_has by blast
  show "jget rec ''subject'' = JStr subject" and "arr_of (jget rec ''gates'') = gates_of s (g_sha env subject)"
    using assms
    by (auto simp: load_record_def gates_of_def set_default_def py_simps none refused_def
        split: option.splits content.splits json.splits if_splits)
qed

lemma write_record_locked_result:
  assumes "write_record_locked env rec s = (r, s')" and "jget rec ''subject'' = JStr subject"
  shows "(r = Inr () \<and> s' = s\<lparr>gfiles := (gfiles s)(g_sha env subject \<mapsto> Doc (JObj rec))\<rparr>) \<or>
     ((\<exists>x. r = Inl x) \<and> s' = s)"
  using assms by (auto simp: write_record_locked_def split: if_splits)

lemma gates_of_write:
  "gates_of (s\<lparr>gfiles := (gfiles s)(k \<mapsto> Doc (JObj rec))\<rparr>) key =
     (if key = k then arr_of (jget rec ''gates'') else gates_of s key)"
  by (simp add: gates_of_def)

lemma grows_write:
  assumes "length (gates_of s k) \<le> length gs'"
    and "\<And>i g. i < length (gates_of s k) \<Longrightarrow> gates_of s k ! i = JObj g \<Longrightarrow>
           \<exists>g'. gs' ! i = JObj g' \<and> evolves env (docs_of (gcomms s)) g g'"
    and "jget rec ''gates'' = JArr gs'"
  shows "grows env s (s\<lparr>gfiles := (gfiles s)(k \<mapsto> Doc (JObj rec))\<rparr>)"
proof -
  let ?s = "s\<lparr>gfiles := (gfiles s)(k \<mapsto> Doc (JObj rec))\<rparr>"
  have "\<exists>g'. gate_at ?s key i g' \<and> evolves env (docs_of (gcomms ?s)) g g'" if g: "gate_at s key i g" for key i g
  proof (cases "key = k")
    case True
    then show ?thesis
      using assms(1,2) g unfolding gate_at_def gates_of_write assms(3) by fastforce
  next
    case False
    then show ?thesis using g by (auto simp: gate_at_def gates_of_write)
  qed
  then show ?thesis by (simp add: grows_def)
qed

lemma keeps_write:
  assumes "length (gates_of s k) \<le> length gs'"
    and "\<And>i g. i < length (gates_of s k) \<Longrightarrow> gates_of s k ! i = JObj g \<Longrightarrow>
           \<exists>g'. gs' ! i = JObj g' \<and> evolves env [] g g'"
    and "jget rec ''gates'' = JArr gs'"
  shows "keeps env s (s\<lparr>gfiles := (gfiles s)(k \<mapsto> Doc (JObj rec))\<rparr>)"
proof -
  let ?s = "s\<lparr>gfiles := (gfiles s)(k \<mapsto> Doc (JObj rec))\<rparr>"
  have "\<exists>g'. gate_at ?s key i g' \<and> evolves env [] g g'" if g: "gate_at s key i g" for key i g
  proof (cases "key = k")
    case True
    then show ?thesis
      using assms(1,2) g unfolding gate_at_def gates_of_write assms(3) by fastforce
  next
    case False
    then show ?thesis using g by (auto simp: gate_at_def gates_of_write)
  qed
  then show ?thesis by (simp add: keeps_def appends_files)
qed

section \<open>Every operation\<close>

lemma find_match_Some:
  assumes "find_match digest key subject e gs = Inr (Some (i, b))"
  shows "i < length gs \<and> (\<exists>g. gs ! i = JObj g \<and> (b \<longrightarrow> \<not> truthy (jget g ''dedup_key'')) \<and>
     (\<not> b \<longrightarrow> jget g ''dedup_key'' = JStr key))"
  using assms
proof (induction gs arbitrary: i)
  case (Cons a gs)
  then obtain g where a: "a = JObj g" by (cases a) auto
  show ?case
  proof (cases "jget g ''dedup_key'' = JStr key")
    case True
    then show ?thesis using Cons.prems a by auto
  next
    case False
    then obtain legacy where l: "(if truthy (jget g ''dedup_key'') then Inr False
        else legacy_matches digest g subject e) = Inr legacy"
      using Cons.prems a by (auto simp: sbind_Inr_iff)
    show ?thesis
    proof (cases legacy)
      case True
      then show ?thesis using Cons.prems a False l by (auto split: if_splits)
    next
      case False
      then obtain j where "find_match digest key subject e gs = Inr (Some (j, b))" "i = Suc j"
        using Cons.prems a \<open>jget g ''dedup_key'' \<noteq> JStr key\<close> l by (auto simp: sbind_Inr_iff)
      then show ?thesis using Cons.IH [of j] by simp
    qed
  qed
qed simp

lemma mutable_list_Inr: "mutable_list j = Inr xs \<longleftrightarrow> j = JArr xs"
  by (cases j) (auto simp: mutable_list_def)

lemma first_unresolved_Some:
  "first_unresolved gs = Inr (Some (i, g)) \<Longrightarrow> i < length gs \<and> gs ! i = JObj g \<and>
     jget g ''disposition'' = JStr ''unresolved''"
  by (induction gs arbitrary: i g) (auto simp: sbind_Inr_iff split: json.splits if_splits)

lemma first_unresolved_None:
  "first_unresolved gs = Inr None \<Longrightarrow> i < length gs \<Longrightarrow> gs ! i = JObj g \<Longrightarrow>
     jget g ''disposition'' \<noteq> JStr ''unresolved''"
  by (induction gs arbitrary: i) (auto simp: sbind_Inr_iff nth_Cons split: json.splits if_splits nat.splits)

lemma py_iter_objects: "py_iter j = Inr xs \<Longrightarrow> i < length xs \<Longrightarrow> xs ! i = JObj g \<Longrightarrow> j = JArr xs"
  by (cases j) auto

lemma jget_set_default [simp]: "k \<noteq> k' \<Longrightarrow> jget (set_default k v ob) k' = jget ob k'"
  by (simp add: set_default_def)

text \<open>The gate that recognition leaves: its key set when backfilled, its events extended at most.\<close>

definition recognized_gate :: "bool \<Rightarrow> string \<Rightarrow> jobj \<Rightarrow> jobj \<Rightarrow> bool" where
  "recognized_gate b key g gate =
     (let g2 = set_default ''deduplicated_events'' (JArr []) (if b then jput ''dedup_key'' (JStr key) g else g) in
      gate = g2 \<or> (\<exists>v. gate = jput ''deduplicated_events'' v g2))"

lemma recognized_gate_evolves:
  "recognized_gate b key g gate \<Longrightarrow> b \<longrightarrow> \<not> truthy (jget g ''dedup_key'') \<Longrightarrow> evolves env log g gate"
  by (auto simp: recognized_gate_def Let_def evolves_def)

lemma recognized_gate_key:
  "recognized_gate b key g gate \<Longrightarrow> \<not> b \<longrightarrow> jget g ''dedup_key'' = JStr key \<Longrightarrow> jget gate ''dedup_key'' = JStr key"
  by (auto simp: recognized_gate_def Let_def split: if_splits)

lemma recognize_cases:
  assumes "recognize env rec gates i b key council invo s = (r, s')"
    and "load_record env s subject = Inr rec" and "gates ! i = JObj g"
  obtains (failed) x where "r = Inl x" "s' = s"
  | (seen) gate where "r = Inr (gate, True)" "s' = s" "\<not> b" "recognized_gate b key g gate"
  | (written) gate where "r = Inr (gate, True)" "recognized_gate b key g gate"
      "s' = s\<lparr>gfiles := (gfiles s)(g_sha env subject \<mapsto> Doc (JObj (jput ''gates'' (JArr (gates[i := JObj gate])) rec)))\<rparr>"
proof -
  let ?g2 = "set_default ''deduplicated_events'' (JArr []) (if b then jput ''dedup_key'' (JStr key) g else g)"
  let ?m = "sbind (mutable_list (jget ?g2 ''deduplicated_events'')) (\<lambda>es.
      sbind (has_event council invo es) (\<lambda>b. Inr (es, b)))"
  have r: "recognize env rec gates i b key council invo s =
     (case ?m of
        Inl x \<Rightarrow> (Inl (GateRaised x), s)
      | Inr (es, seen) \<Rightarrow>
          let gate = (if seen then ?g2
                else jput ''deduplicated_events'' (JArr (es @ [new_event council invo (g_now env)])) ?g2) in
          if seen \<and> \<not> b then (Inr (gate, True), s)
          else (case write_record_locked env (jput ''gates'' (JArr (gates[i := JObj gate])) rec) s of
              (Inl x, s') \<Rightarrow> (Inl x, s')
            | (Inr _, s') \<Rightarrow> (Inr (gate, True), s')))"
    unfolding recognize_def Let_def assms(3) obj_of.simps ..
  show thesis
  proof (cases ?m)
    case (Inl x)
    then show ?thesis using assms(1) failed unfolding r by auto
  next
    case (Inr p)
    obtain es sn where p: "p = (es, sn)" by (cases p)
    define gate where "gate = (if sn then ?g2
      else jput ''deduplicated_events'' (JArr (es @ [new_event council invo (g_now env)])) ?g2)"
    let ?rec = "jput ''gates'' (JArr (gates[i := JObj gate])) rec"
    have rg: "recognized_gate b key g gate" by (auto simp: recognized_gate_def Let_def gate_def)
    obtain wr ws where w: "write_record_locked env ?rec s = (wr, ws)" by fastforce
    have subj: "jget ?rec ''subject'' = JStr subject" using load_record_gates(1) [OF assms(2)] by simp
    have res: "(r, s') = (if sn \<and> \<not> b then (Inr (gate, True), s)
        else case wr of Inl x \<Rightarrow> (Inl x, ws) | Inr _ \<Rightarrow> (Inr (gate, True), ws))"
      using assms(1) unfolding r Inr p Let_def prod.case sum.case gate_def [symmetric] w by auto
    show ?thesis
    proof (cases "sn \<and> \<not> b")
      case True
      then show ?thesis using res seen [of gate] rg by simp
    next
      case False
      then show ?thesis
        using res write_record_locked_result [OF w subj] failed written [of gate] rg
        by (auto split: sum.splits if_splits)
    qed
  qed
qed

lemma recognize_keeps:
  assumes "recognize env rec gates i b key council invo s = (r, s')"
    and "load_record env s subject = Inr rec" and "jget rec ''gates'' = JArr gates"
    and "i < length gates" and "gates ! i = JObj g" and "b \<longrightarrow> \<not> truthy (jget g ''dedup_key'')"
  shows "keeps env s s'"
  using assms(1,2,5)
proof (cases rule: recognize_cases)
  case (written gate)
  have gs: "gates_of s (g_sha env subject) = gates" using load_record_gates(2) [OF assms(2)] assms(3) by simp
  have e: "evolves env log g gate" for log using recognized_gate_evolves written(2) assms(6) by blast
  show ?thesis unfolding written(3)
    by (rule keeps_write [where gs' = "gates[i := JObj gate]"])
      (use gs assms(4,5) e in \<open>auto simp: nth_list_update\<close>)
qed (simp_all add: keeps_refl)

lemma recognize_result:
  assumes "recognize env rec gates i b key council invo s = (Inr (gate, d), s')"
    and "load_record env s subject = Inr rec" and "jget rec ''gates'' = JArr gates"
    and "i < length gates" and "gates ! i = JObj g" and "\<not> b \<longrightarrow> jget g ''dedup_key'' = JStr key"
  shows "d \<and> length (gates_of s' (g_sha env subject)) = length gates \<and>
    (\<exists>g'. gate_at s' (g_sha env subject) i g' \<and> jget g' ''dedup_key'' = JStr key)"
  using assms(1,2,5)
proof (cases rule: recognize_cases)
  case (seen gate0)
  have gs: "gates_of s (g_sha env subject) = gates" using load_record_gates(2) [OF assms(2)] assms(3) by simp
  show ?thesis using seen assms(4-6) gs by (auto simp: gate_at_def)
next
  case (written gate0)
  then have "jget gate0 ''dedup_key'' = JStr key" using recognized_gate_key assms(6) by blast
  then show ?thesis using written assms(4) by (auto simp: gate_at_def gates_of_write)
qed simp

lemma write_record_cases:
  assumes "write_record env rec s = (r, s')" and "jget rec ''subject'' = JStr subject"
  shows "s' = s \<or> (r = Inr () \<and> s' = s\<lparr>gfiles := (gfiles s)(g_sha env subject \<mapsto> Doc (JObj rec))\<rparr>)"
  using assms by (auto simp: write_record_def write_record_locked_def split: option.splits if_splits)

lemma append_keeps:
  assumes "load_record env s subject = Inr rec" and "jget rec ''gates'' = JArr gates"
  shows "keeps env s (s\<lparr>gfiles := (gfiles s)(g_sha env subject \<mapsto>
     Doc (JObj (jput ''gates'' (JArr (gates @ [JObj g])) rec)))\<rparr>)"
proof (rule keeps_write [where gs' = "gates @ [JObj g]"])
  have "gates_of s (g_sha env subject) = gates" using load_record_gates(2) [OF assms(1)] assms(2) by simp
  then show "length (gates_of s (g_sha env subject)) \<le> length (gates @ [JObj g])"
    and "\<And>i g'. i < length (gates_of s (g_sha env subject)) \<Longrightarrow> gates_of s (g_sha env subject) ! i = JObj g' \<Longrightarrow>
      \<exists>g''. (gates @ [JObj g]) ! i = JObj g'' \<and> evolves env [] g' g''"
    by (auto simp: nth_append)
qed simp

lemma ensure_locked_keeps:
  assumes "ensure_locked env key subject wid e invo s = (r, s')"
  shows "keeps env s s'"
proof -
  let ?m = "sbind (load_record env s subject) (\<lambda>rec.
     sbind (raising (mutable_list (jget rec ''gates''))) (\<lambda>gates.
     sbind (raising (find_match (g_sha env) key subject e gates)) (\<lambda>m. Inr (rec, gates, m))))"
  show ?thesis
  proof (cases ?m)
    case (Inl x)
    then show ?thesis using assms by (simp add: ensure_locked_def keeps_refl)
  next
    case (Inr p)
    then obtain rec gates m where load: "load_record env s subject = Inr rec" "jget rec ''gates'' = JArr gates"
      and m: "find_match (g_sha env) key subject e gates = Inr m" and p: "p = (rec, gates, m)"
      by (auto simp: sbind_Inr_iff mutable_list_Inr)
    show ?thesis
    proof (cases m)
      case None
      let ?rec = "jput ''gates'' (JArr (gates @ [JObj (new_gate env subject wid e key)])) rec"
      have "s' = snd (write_record_locked env ?rec s)"
        using assms Inr p None by (auto simp: ensure_locked_def Let_def split: prod.splits sum.splits)
      then consider "s' = s" | "s' = s\<lparr>gfiles := (gfiles s)(g_sha env subject \<mapsto> Doc (JObj ?rec))\<rparr>"
        using load_record_gates(1) [OF load(1)] by (auto simp: write_record_locked_def split: if_splits)
      then show ?thesis using append_keeps [OF load] keeps_refl by cases auto
    next
      case (Some ib)
      obtain i b where ib: "ib = (i, b)" by (cases ib)
      have m': "find_match (g_sha env) key subject e gates = Inr (Some (i, b))" using m Some ib by simp
      obtain g where g: "i < length gates" "gates ! i = JObj g" "b \<longrightarrow> \<not> truthy (jget g ''dedup_key'')"
        using find_match_Some [OF m'] by blast
      have "recognize env rec gates i b key (e_council e) invo s = (r, s')"
        using assms Inr p Some ib by (simp add: ensure_locked_def)
      then show ?thesis by (rule recognize_keeps [OF _ load g])
    qed
  qed
qed

lemma ensure_gate_keeps: "ensure_gate env wid e invo s = (r, s') \<Longrightarrow> keeps env s s'"
  unfolding ensure_gate_def Let_def
  by (auto simp: keeps_refl ensure_locked_keeps split: if_splits sum.splits prod.splits option.splits)

lemma create_gate_keeps:
  assumes "create_gate env wid council ph oc s = (r, s')"
  shows "keeps env s s'"
proof -
  let ?subject = "canonical_subject wid"
  let ?m = "sbind (load_record env s ?subject) (\<lambda>rec.
     sbind (raising (mutable_list (jget rec ''gates''))) (\<lambda>gates.
     sbind (raising (first_unresolved gates)) (\<lambda>r. Inr (rec, gates, r))))"
  show ?thesis
  proof (cases "\<exists>rec gates. ?m = Inr (rec, gates, None)")
    case False
    then have "s' = s" using assms by (auto simp: create_gate_def Let_def split: sum.splits prod.splits option.splits)
    then show ?thesis by (simp add: keeps_refl)
  next
    case True
    then obtain rec gates where m: "?m = Inr (rec, gates, None)" by blast
    then have load: "load_record env s ?subject = Inr rec" "jget rec ''gates'' = JArr gates"
      by (auto simp: sbind_Inr_iff mutable_list_Inr)
    let ?g = "compat_gate env ?subject wid council ph oc"
    obtain wr where "write_record env (jput ''gates'' (JArr (gates @ [JObj ?g])) rec) s = (wr, s')"
      using assms m by (auto simp: create_gate_def Let_def split: prod.splits sum.splits)
    note w = write_record_cases [OF this, of ?subject]
    have "jget (jput ''gates'' (JArr (gates @ [JObj ?g])) rec) ''subject'' = JStr ?subject"
      using load_record_gates(1) [OF load(1)] by simp
    from w [OF this] consider "s' = s" | "s' = s\<lparr>gfiles := (gfiles s)(g_sha env ?subject \<mapsto>
        Doc (JObj (jput ''gates'' (JArr (gates @ [JObj ?g])) rec)))\<rparr>" by blast
    then show ?thesis using append_keeps [OF load] keeps_refl by cases auto
  qed
qed

lemma read_messages_docs: "read_messages env p t l s = Inr ms \<Longrightarrow> set ms \<subseteq> set (docs_of s)"
proof -
  assume a: "read_messages env p t l s = Inr ms"
  then obtain rows ms0 where rows: "map_exc (read_row env) (mfiles s) = Inr rows"
    and ms0: "sort_rows (concat rows) = Inr ms0"
    and ms: "ms = last_n l (matching ''thread_id'' t (matching ''packet_id'' p ms0))"
    by (auto simp: read_messages_def sbind_Inr_iff)
  have "set ms \<subseteq> set ms0"
    unfolding ms last_n_def matching_def by (auto split: option.splits if_splits dest: in_set_dropD)
  also have "set ms0 \<subseteq> (\<lambda>(_, _, m). m) ` set (concat rows)"
    using ms0 by (auto simp: sort_rows_def split: if_splits)
  also have "\<dots> \<subseteq> set (docs_of s)"
  proof
    fix m assume "m \<in> (\<lambda>(_, _, m). m) ` set (concat rows)"
    then obtain rs at n where rs: "rs \<in> set rows" "(at, n, m) \<in> set rs" by auto
    obtain row where "row \<in> set (mfiles s)" "read_row env row = Inr rs"
      using map_exc_results [OF rows rs(1)] by blast
    then show "m \<in> set (docs_of s)" using read_row_result rs(2) docs_ofD by blast
  qed
  finally show ?thesis .
qed

lemma find_message_docs:
  assumes "find_message rd mid s = Inr (Some msg)"
  shows "msg \<in> set (docs_of (gcomms s)) \<and> jget msg ''message_id'' = mid"
proof -
  obtain ms where ms: "read_messages rd JNull JNull None (gcomms s) = Inr ms"
    and f: "List.find (\<lambda>m. jget m ''message_id'' = mid) ms = Some msg"
    using assms by (auto simp: find_message_def sbind_Inr_iff)
  then have "msg \<in> set ms \<and> jget msg ''message_id'' = mid" by (auto simp: find_Some_iff)
  then show ?thesis using read_messages_docs [OF ms] by blast
qed

text \<open>Disposing of the active gate.\<close>

lemma dispose_grows:
  assumes "dispose env rd wid mid phrases t disposition s = (r, s')"
    and "disposition = ''resolved'' \<and> phrases = PROCEED_PHRASES \<and> t = JNull \<or>
         disposition = ''closed_unresolved'' \<and> phrases = CLOSE_PHRASES"
  shows "grows env s s'"
proof -
  let ?subject = "canonical_subject wid"
  show ?thesis
  proof (cases "s' = s")
    case False
    then obtain gate msg where active: "active_gate env s wid = Inr (Some gate)"
      and auth: "validate_authority env rd gate mid phrases t s = Inr msg"
      and rd: "record_disposition env wid disposition msg s = (r, s')"
      using assms(1) by (auto simp: dispose_def split: sum.splits option.splits)
    obtain rec gates i gate0 where load: "load_record env s ?subject = Inr rec"
      and it: "py_iter (jget rec ''gates'') = Inr gates" and fu: "first_unresolved gates = Inr (Some (i, gate0))"
      and w: "s' = snd (write_record env (jput ''gates'' (JArr (gates[i := JObj (disposed env disposition msg gate0)])) rec) s)"
      using rd False
      by (auto simp: record_disposition_def Let_def sbind_def raising_def split: sum.splits option.splits prod.splits)
    note fu' = first_unresolved_Some [OF fu]
    have arr: "jget rec ''gates'' = JArr gates" using py_iter_objects [OF it] fu' by blast
    have gs: "gates_of s (g_sha env ?subject) = gates" using load_record_gates(2) [OF load] arr by simp
    have "gate = gate0"
      using active load it fu load_record_gates(1) [OF load] jget_nonnull_has [of rec "''gates''"] arr
      by (auto simp: active_gate_def load_gates_def Let_def get_or_def split: if_splits)
    have msg: "msg \<in> set (docs_of (gcomms s))" "authority_rule env gate0 phrases t msg"
      using auth find_message_docs [of rd mid s] judge_message_rule [of env gate phrases t] \<open>gate = gate0\<close>
      by (auto simp: validate_authority_def split: sum.splits option.splits)
    have ev: "evolves env (docs_of (gcomms s)) gate0 (disposed env disposition msg gate0)"
      using msg assms(2) fu' by (auto simp: evolves_def disposed_def py_simps)
    have subj: "jget (jput ''gates'' (JArr (gates[i := JObj (disposed env disposition msg gate0)])) rec) ''subject''
        = JStr ?subject" using load_record_gates(1) [OF load] by simp
    have s': "s' = s\<lparr>gfiles := (gfiles s)(g_sha env ?subject \<mapsto>
        Doc (JObj (jput ''gates'' (JArr (gates[i := JObj (disposed env disposition msg gate0)])) rec)))\<rparr>"
      using write_record_cases [OF _ subj, of env s] w False by (metis prod.collapse)
    show ?thesis unfolding s'
      by (rule grows_write [where gs' = "gates[i := JObj (disposed env disposition msg gate0)]"])
        (use gs fu' ev in \<open>auto simp: nth_list_update\<close>)
  qed (simp add: grows_refl)
qed

text \<open>The healing sweep.\<close>

lemma grows_comms: "prefix (mfiles (gcomms s)) (mfiles c) \<Longrightarrow> grows env s (s\<lparr>gcomms := c\<rparr>)"
  by (auto simp: grows_def gate_at_def gates_of_def intro: evolves_refl)

lemma keeps_comms: "appends is_notice (gcomms s) c \<Longrightarrow> keeps env s (s\<lparr>gcomms := c\<rparr>)"
  by (auto simp: keeps_def gate_at_def gates_of_def intro: evolves_refl)

lemma notice_source: "strip ''use-cw-gate'' = ''use-cw-gate''"
  by code_simp

lemma built_notice:
  "fst (build_message fm t1 t2 prev (notice_args txt key thread wid)) = Inr msg \<Longrightarrow> is_notice msg"
  by (cases "build_message fm t1 t2 prev (notice_args txt key thread wid)")
    (auto elim!: build_message_cases simp: assemble_fields notice_args_def or_default_def notice_source)

lemma post_notice_keeps: "post_notice env ne cv payload t s = (p, s') \<Longrightarrow> keeps env s s'"
  unfolding post_notice_def Let_def
  by (auto simp: keeps_refl split: sum.splits prod.splits
      dest!: built_notice idempotent_appends intro!: keeps_comms intro: appends_mono)

lemma ensure_escalation_keeps:
  "ensure_escalation_gate env cv cid oc s = (r, s') \<Longrightarrow> keeps env s s'"
  unfolding ensure_escalation_gate_def Let_def
  by (auto simp: keeps_refl split: json.splits if_splits sum.splits prod.splits intro: ensure_gate_keeps)

lemma record_escalation_keeps:
  assumes "record_escalation_gate env ne cv cid oc w t s = (r, s')"
  shows "keeps env s s'"
proof -
  obtain r1 s1 where e: "ensure_escalation_gate env cv cid oc s = (r1, s1)" by fastforce
  note g1 = ensure_escalation_keeps [OF e]
  have "s' = s \<or> s' = s1 \<or> (\<exists>x. s' = snd (post_notice env ne cv (failure_of ne cid oc w x) t s1))"
    using assms e unfolding record_escalation_gate_def
    by (auto split: if_splits sum.splits gate_error.splits lock_error.splits prod.splits)
      (metis snd_conv)+
  then show ?thesis
    using g1 keeps_refl keeps_trans post_notice_keeps by (metis prod.collapse)
qed

lemma heal_loop_keeps: "heal_loop env ne cv wid healed names s = (r, s') \<Longrightarrow> keeps env s s'"
proof (induction env ne cv wid healed names s rule: heal_loop.induct)
  case (2 env ne cv wid healed name names s)
  show ?case
  proof (cases "classify_council cv wid name")
    case Skip
    then show ?thesis using 2 by simp
  next
    case (Fail payload t)
    then show ?thesis
      using "2.prems" by (auto simp: fail_closed_def split: prod.splits intro: post_notice_keeps)
  next
    case (Candidate c oc)
    obtain r1 s1 where r1: "record_escalation_gate env ne cv name oc wid (jget c ''thread_id'') s = (r1, s1)"
      by fastforce
    note g1 = record_escalation_keeps [OF r1]
    have "s' = s1 \<or> keeps env s1 s'"
      using "2.prems" "2.IH"(2) [OF Candidate r1 [symmetric]] "2.IH"(3) [OF Candidate r1 [symmetric]] Candidate r1
      by (auto split: sum.splits option.splits if_splits)
    then show ?thesis using g1 keeps_trans by blast
  qed
qed (simp add: keeps_refl)

lemma heal_keeps: "heal_escalation_gates env ne cv wid s = (r, s') \<Longrightarrow> keeps env s s'"
  unfolding heal_escalation_gates_def fail_closed_def
  by (auto simp: keeps_refl split: listing.splits prod.splits intro: heal_loop_keeps post_notice_keeps)

text \<open>A sweep that succeeds posts nothing.\<close>

lemma write_record_locked_comms: "write_record_locked env rec s = (r, s') \<Longrightarrow> gcomms s' = gcomms s"
  by (auto simp: write_record_locked_def split: if_splits)

lemma ensure_gate_comms: "ensure_gate env wid e invo s = (r, s') \<Longrightarrow> gcomms s' = gcomms s"
  by (auto simp: ensure_gate_def ensure_locked_def recognize_def Let_def
      split: if_splits sum.splits prod.splits option.splits dest!: write_record_locked_comms)

lemma ensure_escalation_comms: "ensure_escalation_gate env cv cid oc s = (r, s') \<Longrightarrow> gcomms s' = gcomms s"
  by (auto simp: ensure_escalation_gate_def Let_def
      split: json.splits if_splits sum.splits prod.splits dest: ensure_gate_comms)

lemmas heal_grows = heal_keeps [THEN keeps_grows]
lemmas heal_loop_grows = heal_loop_keeps [THEN keeps_grows]
lemmas ensure_gate_grows = ensure_gate_keeps [THEN keeps_grows]
lemmas create_gate_grows = create_gate_keeps [THEN keeps_grows]

section \<open>Histories\<close>

definition same_world :: "genv \<Rightarrow> genv \<Rightarrow> bool" where
  "same_world env0 env = (g_sha env = g_sha env0 \<and> g_instant env = g_instant env0)"

text \<open>
  The operations on gates, and writers of the message log. Digests and the reading of timestamps are
  fixed; the rest of the environment is arbitrary in every step.
\<close>

inductive gate_step :: "genv \<Rightarrow> gsys \<Rightarrow> gsys \<Rightarrow> bool" for env0 where
  ensure: "ensure_gate env wid e invo s = (r, s') \<Longrightarrow> same_world env0 env \<Longrightarrow> gate_step env0 s s'"
| create: "create_gate env wid council ph oc s = (r, s') \<Longrightarrow> same_world env0 env \<Longrightarrow> gate_step env0 s s'"
| proceed: "grant_proceed env rd wid mid s = (r, s') \<Longrightarrow> same_world env0 env \<Longrightarrow> gate_step env0 s s'"
| close: "close_gate_unresolved env rd wid mid t s = (r, s') \<Longrightarrow> same_world env0 env \<Longrightarrow> gate_step env0 s s'"
| heal: "heal_escalation_gates env ne cv wid s = (r, s') \<Longrightarrow> same_world env0 env \<Longrightarrow> gate_step env0 s s'"
| log: "comms_step (gcomms s) c \<Longrightarrow> gate_step env0 s (s\<lparr>gcomms := c\<rparr>)"

inductive_cases gate_stepE: "gate_step env0 s s'"

lemma evolves_same_world:
  assumes "same_world env0 env"
  shows "evolves env = evolves env0"
proof -
  have iso: "iso_of env = iso_of env0" using assms by (simp add: iso_of_def fun_eq_iff same_world_def split: json.split)
  have "authority_rule env = authority_rule env0" by (simp add: authority_rule_def fun_eq_iff iso)
  then show ?thesis by (simp add: evolves_def fun_eq_iff)
qed

lemma grows_same_world: "grows env s s' \<Longrightarrow> same_world env0 env \<Longrightarrow> grows env0 s s'"
  by (simp add: grows_def evolves_same_world)

lemma keeps_same_world: "keeps env s s' \<Longrightarrow> same_world env0 env \<Longrightarrow> keeps env0 s s'"
  by (simp add: keeps_def evolves_same_world)

lemma gate_step_grows: "gate_step env0 s s' \<Longrightarrow> grows env0 s s'"
proof (erule gate_stepE, goal_cases)
  case 3 then show ?case
    using dispose_grows grows_same_world by (fastforce simp: grant_proceed_def)
next
  case 4 then show ?case
    using dispose_grows grows_same_world by (fastforce simp: close_gate_unresolved_def)
next
  case 6 then show ?case
    using comms_step_grows by (fastforce simp: prefix_def intro: grows_comms)
qed (auto intro: grows_same_world ensure_gate_grows create_gate_grows heal_grows)

lemma run_grows: "(gate_step env0)\<^sup>*\<^sup>* s s' \<Longrightarrow> grows env0 s s'"
  by (induction rule: rtranclp_induct) (auto intro: grows_refl grows_trans gate_step_grows)

section \<open>A concrete gate\<close>

definition demo_genv :: genv where
  "demo_genv = \<lparr>g_now = ''5'', g_stamp = ''5'', g_sha = (\<lambda>x. x), g_token = None, g_readable = True,
     g_writable = True, g_instant = (\<lambda>t. Some (int (length t)))\<rparr>"

definition demo_gate :: jobj where
  "demo_gate = compat_gate demo_genv ''packet:p1'' (JStr ''p1'') (JStr ''c1'') (JStr ''plan'') (JStr ''hard_gate'')"

definition demo_gsys :: gsys where
  "demo_gsys = \<lparr>gfiles = [''packet:p1'' \<mapsto> Doc (JObj [(''subject'', JStr ''packet:p1''),
     (''gates'', JArr [JObj demo_gate])])], gcomms = no_messages\<rparr>"

definition demo_empty :: gsys where
  "demo_empty = \<lparr>gfiles = (\<lambda>_. None), gcomms = no_messages\<rparr>"

lemma demo_subject: "canonical_subject (JStr ''p1'') = ''packet:p1''"
  by code_simp

lemma demo_created:
  "create_gate demo_genv (JStr ''p1'') (JStr ''c1'') (JStr ''plan'') (JStr ''hard_gate'') demo_empty = (Inr demo_gate, demo_gsys)"
  by (simp add: create_gate_def demo_subject load_record_def demo_empty_def demo_genv_def py_simps mutable_list_def
      write_record_def write_record_locked_def demo_gsys_def demo_gate_def Let_def)

lemma demo_gate_at: "gate_at demo_gsys ''packet:p1'' 0 demo_gate" "jget demo_gate ''disposition'' = JStr ''unresolved''"
  by (simp_all add: gate_at_def gates_of_def demo_gsys_def py_simps demo_gate_def compat_gate_def)

section \<open>Gates hold until an operator authorises\<close>



lemma active_gate_None:
  assumes "active_gate env s wid = Inr None" and "canonical_subject wid \<noteq> []"
    and "gate_at s (g_sha env (canonical_subject wid)) i g"
  shows "jget g ''disposition'' \<noteq> JStr ''unresolved''"
proof -
  obtain rec gs where load: "load_record env s (canonical_subject wid) = Inr rec"
    and it: "py_iter (get_or rec ''gates'' (JArr [])) = Inr gs" and none: "first_unresolved gs = Inr None"
    using assms(1,2)
    by (auto simp: active_gate_def load_gates_def Let_def sbind_Inr_iff split: option.splits)
  have "gs ! i = JObj g \<and> i < length gs"
  proof -
    have g: "i < length (arr_of (jget rec ''gates''))" "arr_of (jget rec ''gates'') ! i = JObj g"
      using assms(3) load_record_gates(2) [OF load] by (simp_all add: gate_at_def)
    then obtain xs where xs: "jget rec ''gates'' = JArr xs" by (cases "jget rec ''gates''") auto
    then have "jhas rec ''gates''" by (intro jget_nonnull_has) simp
    then show ?thesis using it xs g by (simp add: get_or_def)
  qed
  then show ?thesis using first_unresolved_None [OF none] by blast
qed

text \<open>enforcement is fail-closed: a work item counts as open only if no gate of its subject is
  unresolved; an unreadable or malformed record is an error and never an open item.\<close>

theorem open_means_no_unresolved_gate:
  assumes "require_open env s wid = Inr ()" and "canonical_subject wid \<noteq> []"
    and "gate_at s (g_sha env (canonical_subject wid)) i g"
  shows "jget g ''disposition'' \<noteq> JStr ''unresolved''"
proof -
  have "active_gate env s wid = Inr None"
    using assms(1) by (auto simp: require_open_def sbind_Inr_iff split: option.splits)
  then show ?thesis using assms(2,3) by (rule active_gate_None)
qed

definition demo_resolved :: gsys where
  "demo_resolved = \<lparr>gfiles = [''packet:p1'' \<mapsto> Doc (JObj [(''subject'', JStr ''packet:p1''),
     (''gates'', JArr [JObj (jput ''disposition'' (JStr ''resolved'') demo_gate)])])], gcomms = no_messages\<rparr>"

lemma open_means_no_unresolved_gate_witness:
  "require_open demo_genv demo_resolved (JStr ''p1'') = Inr () \<and>
   jget (jput ''disposition'' (JStr ''resolved'') demo_gate) ''disposition'' \<noteq> JStr ''unresolved''"
proof -
  have o: "require_open demo_genv demo_resolved (JStr ''p1'') = Inr ()"
    by (simp add: require_open_def active_gate_def load_gates_def demo_subject load_record_def demo_resolved_def
        get_or_def jhas_def py_simps demo_genv_def set_default_def)
  have g: "gate_at demo_resolved ''packet:p1'' 0 (jput ''disposition'' (JStr ''resolved'') demo_gate)"
    by (simp add: gate_at_def gates_of_def demo_resolved_def py_simps)
  have "g_sha demo_genv (canonical_subject (JStr ''p1'')) = ''packet:p1''" by (simp add: demo_subject demo_genv_def)
  then have "gate_at demo_resolved (g_sha demo_genv (canonical_subject (JStr ''p1''))) 0
      (jput ''disposition'' (JStr ''resolved'') demo_gate)" using g by simp
  from open_means_no_unresolved_gate [OF o _ this] o show ?thesis by (simp add: demo_subject)
qed

section \<open>Idempotent escalation\<close>

definition key_of_escalation :: "genv \<Rightarrow> json \<Rightarrow> escalation \<Rightarrow> string \<Rightarrow> bool" where
  "key_of_escalation env wid e key = (dedup_key (g_sha env) (JStr (canonical_subject wid)) e = Inr key)"

text \<open>A gate of the work item's subject carries this escalation's key.\<close>

definition has_gate :: "genv \<Rightarrow> json \<Rightarrow> escalation \<Rightarrow> gsys \<Rightarrow> bool" where
  "has_gate env wid e s = (\<exists>key i g. key_of_escalation env wid e key \<and>
     gate_at s (g_sha env (canonical_subject wid)) i g \<and> jget g ''dedup_key'' = JStr key)"

lemma recognized_Some:
  "recognized key council invo gs = Inr (Some gate) \<Longrightarrow>
     \<exists>i. i < length gs \<and> gs ! i = JObj gate \<and> jget gate ''dedup_key'' = JStr key"
proof (induction gs)
  case (Cons a gs)
  then obtain g where a: "a = JObj g" by (cases a) auto
  show ?case
  proof (cases "jget g ''dedup_key'' = JStr key")
    case True
    then have "gate = g" using Cons.prems a by (auto simp: sbind_Inr_iff split: if_splits)
    then show ?thesis using True a by (intro exI [of _ 0]) simp
  next
    case False
    then obtain i where "i < length gs \<and> gs ! i = JObj gate \<and> jget gate ''dedup_key'' = JStr key"
      using Cons a by auto
    then show ?thesis by (intro exI [of _ "Suc i"]) simp
  qed
qed simp

lemma find_match_None:
  "find_match digest key subject e gs = Inr None \<Longrightarrow> i < length gs \<Longrightarrow> gs ! i = JObj g \<Longrightarrow>
     jget g ''dedup_key'' \<noteq> JStr key"
proof (induction gs arbitrary: i)
  case (Cons a gs)
  then obtain g0 where a: "a = JObj g0" by (cases a) auto
  then have ne: "jget g0 ''dedup_key'' \<noteq> JStr key" and rest: "find_match digest key subject e gs = Inr None"
    using Cons.prems(1) by (auto simp: sbind_Inr_iff split: if_splits)
  show ?case
  proof (cases i)
    case 0 then show ?thesis using a ne Cons.prems(3) by simp
  next
    case (Suc j) then show ?thesis using Cons.IH [OF rest, of j] Cons.prems(2,3) by simp
  qed
qed simp

lemma ensure_locked_result:
  assumes "ensure_locked env key subject wid e invo s = (Inr (gate, d), s')"
  defines "k \<equiv> g_sha env subject"
  shows "(\<exists>i g. gate_at s' k i g \<and> jget g ''dedup_key'' = JStr key) \<and>
    (\<not> d \<longrightarrow> length (gates_of s' k) = Suc (length (gates_of s k)) \<and> jget gate ''disposition'' = JStr ''unresolved'' \<and>
       (\<exists>i. gate_at s' k i gate)) \<and>
    (d \<longrightarrow> length (gates_of s' k) = length (gates_of s k)) \<and>
    ((\<exists>i g. gate_at s k i g \<and> jget g ''dedup_key'' = JStr key) \<longrightarrow> d)"
proof -
  let ?m = "sbind (load_record env s subject) (\<lambda>rec.
     sbind (raising (mutable_list (jget rec ''gates''))) (\<lambda>gates.
     sbind (raising (find_match (g_sha env) key subject e gates)) (\<lambda>m. Inr (rec, gates, m))))"
  obtain p where p: "?m = Inr p"
    using assms(1) by (cases ?m) (simp_all add: ensure_locked_def)
  then obtain rec gates m where load: "load_record env s subject = Inr rec" "jget rec ''gates'' = JArr gates"
    and m: "find_match (g_sha env) key subject e gates = Inr m" and p': "p = (rec, gates, m)"
    by (auto simp: sbind_Inr_iff mutable_list_Inr)
  have gs: "gates_of s k = gates" using load_record_gates(2) [OF load(1)] load(2) by (simp add: k_def)
  show ?thesis
  proof (cases m)
    case None
    let ?g = "new_gate env subject wid e key"
    let ?rec = "jput ''gates'' (JArr (gates @ [JObj ?g])) rec"
    obtain u where w: "write_record_locked env ?rec s = (Inr u, s')" and r: "gate = ?g" "\<not> d"
      using assms(1) p p' None by (auto simp: ensure_locked_def Let_def split: prod.splits sum.splits)
    have "jget ?rec ''subject'' = JStr subject" using load_record_gates(1) [OF load(1)] by simp
    from write_record_locked_result [OF w this]
    have s': "s' = s\<lparr>gfiles := (gfiles s)(k \<mapsto> Doc (JObj ?rec))\<rparr>" by (simp add: k_def)
    have g: "jget ?g ''dedup_key'' = JStr key" "jget ?g ''disposition'' = JStr ''unresolved''"
      by (simp_all add: new_gate_def py_simps)
    have "gate_at s' k (length gates) ?g" by (simp add: gate_at_def s' gates_of_write)
    moreover have "\<not> (\<exists>i g. gate_at s k i g \<and> jget g ''dedup_key'' = JStr key)"
      using find_match_None [OF m [unfolded None]] gs by (auto simp: gate_at_def)
    ultimately show ?thesis using r g gs by (auto simp: s' gates_of_write)
  next
    case (Some ib)
    obtain i b where ib: "ib = (i, b)" by (cases ib)
    have m': "find_match (g_sha env) key subject e gates = Inr (Some (i, b))" using m Some ib by simp
    obtain g where g: "i < length gates" "gates ! i = JObj g" "\<not> b \<longrightarrow> jget g ''dedup_key'' = JStr key"
      using find_match_Some [OF m'] by blast
    have "recognize env rec gates i b key (e_council e) invo s = (Inr (gate, d), s')"
      using assms(1) p p' Some ib by (simp add: ensure_locked_def)
    from recognize_result [OF this load g] show ?thesis using gs by (auto simp: k_def)
  qed
qed

lemma ensure_gate_result:
  assumes "ensure_gate env wid e invo s = (Inr (gate, d), s')"
  defines "k \<equiv> g_sha env (canonical_subject wid)"
  shows "has_gate env wid e s' \<and>
    (\<not> d \<longrightarrow> length (gates_of s' k) = Suc (length (gates_of s k)) \<and> jget gate ''disposition'' = JStr ''unresolved'' \<and>
       (\<exists>i. gate_at s' k i gate)) \<and>
    (d \<longrightarrow> length (gates_of s' k) = length (gates_of s k)) \<and> (has_gate env wid e s \<longrightarrow> d)"
proof -
  let ?subject = "canonical_subject wid"
  let ?m = "sbind (raising (dedup_key (g_sha env) (JStr ?subject) e)) (\<lambda>key.
     sbind (load_record env s ?subject) (\<lambda>rec.
     sbind (raising (py_iter (jget rec ''gates''))) (\<lambda>gates.
     sbind (raising (recognized key (e_council e) invo gates)) (\<lambda>r. Inr (key, r)))))"
  have inv: "truthy invo" using assms(1) by (auto simp: ensure_gate_def split: if_splits)
  obtain p where p: "?m = Inr p" using assms(1) inv by (cases ?m) (simp_all add: ensure_gate_def Let_def)
  then obtain key rec gates ro where key: "dedup_key (g_sha env) (JStr ?subject) e = Inr key"
    and load: "load_record env s ?subject = Inr rec" and it: "py_iter (jget rec ''gates'') = Inr gates"
    and ro: "recognized key (e_council e) invo gates = Inr ro" and p': "p = (key, ro)"
    by (auto simp: sbind_Inr_iff)
  have hg: "has_gate env wid e s1 \<longleftrightarrow> (\<exists>i g. gate_at s1 k i g \<and> jget g ''dedup_key'' = JStr key)" for s1
    using key by (auto simp: has_gate_def key_of_escalation_def k_def)
  show ?thesis
  proof (cases ro)
    case (Some g)
    then have r: "gate = g" "d" "s' = s" using assms(1) inv p p' by (simp_all add: ensure_gate_def Let_def)
    obtain i where i: "i < length gates" "gates ! i = JObj g" "jget g ''dedup_key'' = JStr key"
      using recognized_Some ro Some by blast
    have "gates_of s k = gates"
      using load_record_gates(2) [OF load] py_iter_objects [OF it i(1,2)] by (simp add: k_def)
    then show ?thesis using i r unfolding hg by (auto simp: gate_at_def)
  next
    case None
    then have "ensure_locked env key ?subject wid e invo s = (Inr (gate, d), s')"
      using assms(1) inv p p' by (simp add: ensure_gate_def Let_def split: option.splits)
    from ensure_locked_result [OF this] show ?thesis unfolding hg k_def by blast
  qed
qed

text \<open>a successful escalation leaves a gate with its key, a newly created one is unresolved, and
  reporting the same escalation again, at any later time and by any invocation, is recognised and adds
  no gate.\<close>

theorem escalation_gated_once:
  assumes "ensure_gate env wid e invo s = (Inr (gate, d), s')" and "same_world env env'"
    and "ensure_gate env' wid e invo' s' = (Inr (gate', d'), s'')"
  shows "has_gate env wid e s' \<and> (\<not> d \<longrightarrow> jget gate ''disposition'' = JStr ''unresolved'') \<and> d' \<and>
    length (gates_of s'' (g_sha env (canonical_subject wid))) = length (gates_of s' (g_sha env (canonical_subject wid)))"
proof -
  have "has_gate env' wid e s1 = has_gate env wid e s1" for s1
    using assms(2) by (simp add: has_gate_def key_of_escalation_def same_world_def)
  then show ?thesis
    using ensure_gate_result [OF assms(1)] ensure_gate_result [OF assms(3)] assms(2)
    by (auto simp: same_world_def)
qed

definition demo_escalation :: escalation where
  "demo_escalation = \<lparr>e_council = JStr ''c1'', e_phase = JStr ''plan'', e_outcome = JStr ''hard_gate'',
     e_rounds = JInt 2, e_scope = JNull\<rparr>"

definition demo_ensured :: gsys where
  "demo_ensured = snd (ensure_gate demo_genv (JStr ''p1'') demo_escalation (JStr ''i1'') demo_empty)"

lemma demo_dedup: "\<exists>key. dedup_key (g_sha demo_genv) (JStr ''packet:p1'') demo_escalation = Inr key"
  by (simp add: dedup_key_def demo_escalation_def to_int_def py_or_def)

lemma demo_ensure_first:
  "\<exists>gate. ensure_gate demo_genv (JStr ''p1'') demo_escalation (JStr ''i1'') demo_empty = (Inr (gate, False), demo_ensured)"
proof -
  obtain key where "dedup_key (g_sha demo_genv) (JStr ''packet:p1'') demo_escalation = Inr key" using demo_dedup by blast
  then show ?thesis
    by (simp add: demo_ensured_def ensure_gate_def demo_subject Let_def load_record_def demo_empty_def py_simps
        demo_genv_def ensure_locked_def mutable_list_def write_record_locked_def)
qed

lemma demo_ensure_again:
  "\<exists>gate d s'. ensure_gate demo_genv (JStr ''p1'') demo_escalation (JStr ''i2'') demo_ensured = (Inr (gate, d), s')"
proof -
  obtain key where key: "dedup_key (g_sha demo_genv) (JStr ''packet:p1'') demo_escalation = Inr key" using demo_dedup by blast
  have s: "demo_ensured = \<lparr>gfiles = [''packet:p1'' \<mapsto> Doc (JObj [(''subject'', JStr ''packet:p1''),
      (''gates'', JArr [JObj (new_gate demo_genv ''packet:p1'' (JStr ''p1'') demo_escalation key)])])],
      gcomms = no_messages\<rparr>"
    using key
    by (simp add: demo_ensured_def ensure_gate_def demo_subject Let_def load_record_def demo_empty_def py_simps
        demo_genv_def ensure_locked_def mutable_list_def write_record_locked_def)
  show ?thesis
    using key unfolding s
    by (simp add: ensure_gate_def demo_subject Let_def load_record_def py_simps set_default_def jhas_def py_or_def
        demo_genv_def ensure_locked_def mutable_list_def write_record_locked_def new_gate_def recognize_def) blast
qed

lemma escalation_gated_once_witness:
  "\<exists>gate d s'. ensure_gate demo_genv (JStr ''p1'') demo_escalation (JStr ''i2'') demo_ensured = (Inr (gate, d), s') \<and> d \<and>
     has_gate demo_genv (JStr ''p1'') demo_escalation demo_ensured"
proof -
  obtain gate where 1: "ensure_gate demo_genv (JStr ''p1'') demo_escalation (JStr ''i1'') demo_empty =
      (Inr (gate, False), demo_ensured)" using demo_ensure_first by blast
  obtain gate' d s' where 2: "ensure_gate demo_genv (JStr ''p1'') demo_escalation (JStr ''i2'') demo_ensured =
      (Inr (gate', d), s')" using demo_ensure_again by blast
  have "same_world demo_genv demo_genv" by (simp add: same_world_def)
  from escalation_gated_once [OF 1 this 2] 2 show ?thesis by blast
qed

text \<open>Two escalations of one work item that run at the same time: the second process read the record
  before the first one wrote it. The writer token admits both, so the second write drops the first gate.\<close>

definition write_from ::
    "genv \<Rightarrow> gsys \<Rightarrow> string \<Rightarrow> jobj \<Rightarrow> gsys \<Rightarrow> gsys" where
  "write_from env read_state subject gate s =
     (case load_record env read_state subject of
        Inl _ \<Rightarrow> s
      | Inr rec \<Rightarrow> snd (write_record_locked env
          (jput ''gates'' (JArr (arr_of (jget rec ''gates'') @ [JObj gate])) rec) s))"

lemma interleaved_writes_lose_a_gate:
  assumes "g_writable env" and "gfiles s (g_sha env subject) = None"
  shows "gates_of (write_from env s subject b (write_from env s subject a s)) (g_sha env subject) = [JObj b]"
  using assms
  by (simp add: write_from_def load_record_def py_simps write_record_locked_def gates_of_def)

section \<open>The healing sweep\<close>

lemma has_gate_grows:
  assumes "grows env s s'" and "has_gate env wid e s" and "\<forall>x. g_sha env x \<noteq> []"
  shows "has_gate env wid e s'"
proof -
  obtain key i g where g: "key_of_escalation env wid e key" "gate_at s (g_sha env (canonical_subject wid)) i g"
    "jget g ''dedup_key'' = JStr key"
    using assms(2) by (auto simp: has_gate_def)
  then have "truthy (jget g ''dedup_key'')"
    using assms(3) by (auto simp: key_of_escalation_def dedup_key_def sbind_Inr_iff)
  moreover obtain g' where "gate_at s' (g_sha env (canonical_subject wid)) i g'"
    and "evolves env (docs_of (gcomms s')) g g'"
    using assms(1) g(2) unfolding grows_def by blast
  ultimately show ?thesis using g unfolding has_gate_def evolves_def by metis
qed

text \<open>The gate an escalated council must have, for its recorded rounds.\<close>

definition escalation_of :: "cview \<Rightarrow> string \<Rightarrow> jobj \<Rightarrow> jobj \<Rightarrow> jobj list \<Rightarrow> escalation" where
  "escalation_of cv name c oc loaded =
     \<lparr>e_council = JStr name, e_phase = jget c ''phase'', e_outcome = jget oc ''outcome'',
      e_rounds = JInt (substantive_round_count loaded),
      e_scope = py_or (jget c ''approved_scope_sha256'') (JStr ''none'')\<rparr>"

definition gated :: "genv \<Rightarrow> cview \<Rightarrow> string \<Rightarrow> jobj \<Rightarrow> jobj \<Rightarrow> gsys \<Rightarrow> bool" where
  "gated env cv name c oc s =
     (\<exists>loaded. load_recorded (c_round cv name) (sort (map int_of (arr_of (get_or c ''rounds'' (JArr []))))) =
          Inr (loaded, []) \<and>
        has_gate env (jget c ''work_item_id'') (escalation_of cv name c oc loaded) s)"

lemma ensure_escalation_gated:
  assumes "ensure_escalation_gate env cv name oc s = (Inr r, s')" and "c_council cv name = Some (Doc (JObj c))"
    and "truthy (jget c ''work_item_id'')" and "jget c ''phase'' \<in> JStr ` set ESCALATION_PHASES"
  shows "gated env cv name c oc s'"
proof -
  let ?recorded = "get_or c ''rounds'' (JArr [])"
  have rd: "read_doc (c_council cv name) = JObj c" using assms(2) by (simp add: read_doc_def)
  have ok: "round_list_ok ?recorded"
    using assms(1,3,4) rd by (auto simp: ensure_escalation_gate_def Let_def split: if_splits)
  obtain loaded where l: "load_recorded (c_round cv name) (sort (map int_of (arr_of ?recorded))) = Inr (loaded, [])"
    using assms(1,3,4) rd ok
    by (auto simp: ensure_escalation_gate_def Let_def split: sum.splits if_splits)
  then obtain g where "ensure_gate env (jget c ''work_item_id'') (escalation_of cv name c oc loaded)
      (JStr (''gateeval-'' @ name @ ''-'' @ py_str (jget oc ''outcome'') @ ''-'' @ str_int (substantive_round_count loaded))) s
      = (Inr g, s')"
    using assms(1,3,4) rd ok
    by (auto simp: ensure_escalation_gate_def Let_def escalation_of_def split: sum.splits if_splits prod.splits)
  then have "has_gate env (jget c ''work_item_id'') (escalation_of cv name c oc loaded) s'"
    using ensure_gate_result by (cases g) blast
  then show ?thesis using l by (auto simp: gated_def)
qed

lemma post_notice_not_ok:
  "post_notice env ne cv payload t s = (p, s') \<Longrightarrow> jget p ''ok'' = jget payload ''ok''"
  by (auto simp: post_notice_def Let_def split: sum.splits prod.splits)

lemma failure_not_ok: "jget (failure_payload a b c d e f) ''ok'' = JBool False"
  by (simp add: failure_payload_def py_simps)

lemma failure_of_not_ok: "jget (failure_of ne cid oc w x) ''ok'' = JBool False"
  by (simp add: failure_of_def failure_not_ok split: gate_error.split)

lemma record_escalation_gated:
  assumes "record_escalation_gate env ne cv name oc w t s = (Inr r, s')"
    and "r = None \<or> (\<exists>p. r = Some p \<and> truthy (jget p ''ok''))"
    and "jget oc ''outcome'' \<in> JStr ` set ESCALATION_OUTCOMES"
    and "c_council cv name = Some (Doc (JObj c))" and "truthy (jget c ''work_item_id'')"
    and "jget c ''phase'' \<in> JStr ` set ESCALATION_PHASES"
  shows "gated env cv name c oc s'"
proof -
  obtain er s1 where e: "ensure_escalation_gate env cv name oc s = (er, s1)" by fastforce
  have ne: "oc \<noteq> []" using assms(3) by auto
  show ?thesis
  proof (cases er)
    case (Inr r1)
    then have "s1 = s'" using assms(1,3) e ne by (auto simp: record_escalation_gate_def)
    then show ?thesis using ensure_escalation_gated e Inr assms(4-6) by blast
  next
    case (Inl x)
    obtain p s2 where pn: "post_notice env ne cv (failure_of ne name oc w x) t s1 = (p, s2)" by fastforce
    have "jget p ''ok'' = JBool False" using post_notice_not_ok [OF pn] failure_of_not_ok by simp
    moreover have "r = Some p"
      using assms(1,3) e ne Inl pn
      by (auto simp: record_escalation_gate_def split: gate_error.splits lock_error.splits)
    ultimately show ?thesis using assms(2) by auto
  qed
qed

lemma classify_candidate:
  assumes "classify_council cv wid name = Candidate c oc"
  shows "c_council cv name = Some (Doc (JObj c))" and "jget c ''phase'' \<in> JStr ` set ESCALATION_PHASES"
    and "jget oc ''outcome'' \<in> JStr ` set ESCALATION_OUTCOMES"
    and "canonical_subject (jget c ''work_item_id'') = canonical_subject wid"
  using assms
  by (auto simp: classify_council_def strict_json_def split: if_splits strict.splits option.splits
      content.splits json.splits)

lemma classify_fail:
  assumes "classify_council cv wid name = Fail payload t"
  shows "jget payload ''ok'' = JBool False"
  using assms
  by (auto simp: classify_council_def failure_not_ok split: if_splits strict.splits)

lemma heal_loop_complete:
  assumes "heal_loop env ne cv wid healed names s = (Inr p, s')" and "truthy (jget p ''ok'')"
    and "\<forall>x. g_sha env x \<noteq> []" and "name \<in> set names"
  shows "(\<forall>payload t. classify_council cv wid name \<noteq> Fail payload t) \<and>
    (\<forall>c oc. classify_council cv wid name = Candidate c oc \<and> truthy (jget c ''work_item_id'') \<longrightarrow>
       gated env cv name c oc s')"
  using assms(1,2,4)
proof (induction names arbitrary: healed s)
  case (Cons a names)
  show ?case
  proof (cases "classify_council cv wid a")
    case Skip
    then have "heal_loop env ne cv wid healed names s = (Inr p, s')" using Cons.prems(1) by simp
    then show ?thesis using Cons.IH Cons.prems(2,3) Skip by auto
  next
    case (Fail payload t)
    then have "post_notice env ne cv payload t s = (p, s')"
      using Cons.prems(1) by (simp add: fail_closed_def split: prod.splits)
    then have "jget p ''ok'' = JBool False" using post_notice_not_ok classify_fail Fail by metis
    then show ?thesis using Cons.prems(2) by simp
  next
    case (Candidate c oc)
    obtain r1 s1 where r1: "record_escalation_gate env ne cv a oc wid (jget c ''thread_id'') s = (r1, s1)"
      by fastforce
    obtain r healed' where r: "r1 = Inr r" "r = None \<or> (\<exists>q. r = Some q \<and> truthy (jget q ''ok''))"
      and rest: "heal_loop env ne cv wid healed' names s1 = (Inr p, s')"
    proof (cases r1)
      case (Inl x)
      then show thesis using Cons.prems(1) Candidate r1 by simp
    next
      case (Inr r)
      show thesis
      proof (cases r)
        case None
        then show thesis using that [of r healed] Cons.prems(1) Candidate r1 Inr by simp
      next
        case (Some q)
        then have "truthy (jget q ''ok'')"
          using Cons.prems(1,2) Candidate r1 Inr by (auto split: if_splits)
        then show thesis using that [of r "healed @ [JObj q]"] Cons.prems(1) Candidate r1 Inr Some by simp
      qed
    qed
    have g: "grows env s1 s'" using heal_loop_grows [OF rest] .
    show ?thesis
    proof (cases "name = a")
      case True
      have "gated env cv a c oc s'" if "truthy (jget c ''work_item_id'')"
      proof -
        have "gated env cv a c oc s1"
          using record_escalation_gated [OF r1 [unfolded r(1)] r(2)] classify_candidate [OF Candidate] that by blast
        then show ?thesis using has_gate_grows [OF g _ assms(3)] by (auto simp: gated_def)
      qed
      then show ?thesis using Candidate True by auto
    next
      case False
      then show ?thesis using Cons.IH [OF rest Cons.prems(2)] Cons.prems(3) by simp
    qed
  qed
qed simp

lemma heal_complete:
  assumes "heal_escalation_gates env ne cv wid s = (Inr p, s')" and "truthy (jget p ''ok'')"
    and "\<forall>x. g_sha env x \<noteq> []" and "c_root cv = Entries names" and "name \<in> set names"
  shows "(\<forall>payload t. classify_council cv wid name \<noteq> Fail payload t) \<and>
    (\<forall>c oc. classify_council cv wid name = Candidate c oc \<and> truthy (jget c ''work_item_id'') \<longrightarrow>
       gated env cv name c oc s')"
proof -
  have "heal_loop env ne cv wid [] (sort names) s = (Inr p, s')"
    using assms(1,4) by (simp add: heal_escalation_gates_def)
  moreover have "name \<in> set (sort names)" using assms(5) by simp
  ultimately show ?thesis using heal_loop_complete assms(2,3) by blast
qed

lemma record_escalation_comms:
  assumes "record_escalation_gate env ne cv cid oc w t s = (Inr r, s')"
    and "r = None \<or> (\<exists>p. r = Some p \<and> truthy (jget p ''ok''))"
  shows "gcomms s' = gcomms s"
proof (cases "oc = [] \<or> jget oc ''outcome'' \<notin> JStr ` set ESCALATION_OUTCOMES")
  case True
  then show ?thesis using assms by (simp add: record_escalation_gate_def)
next
  case False
  obtain er s1 where e: "ensure_escalation_gate env cv cid oc s = (er, s1)" by fastforce
  show ?thesis
  proof (cases er)
    case (Inr r1)
    then show ?thesis using assms(1) False e by (auto simp: record_escalation_gate_def ensure_escalation_comms)
  next
    case (Inl x)
    obtain p s2 where pn: "post_notice env ne cv (failure_of ne cid oc w x) t s1 = (p, s2)" by fastforce
    have "\<not> truthy (jget p ''ok'')" using post_notice_not_ok [OF pn] failure_of_not_ok by simp
    moreover have "r = Some p"
      using assms(1) False e Inl pn
      by (auto simp: record_escalation_gate_def split: gate_error.splits lock_error.splits)
    ultimately show ?thesis using assms(2) by auto
  qed
qed

lemma heal_loop_comms:
  assumes "heal_loop env ne cv wid healed names s = (Inr p, s')" and "truthy (jget p ''ok'')"
  shows "gcomms s' = gcomms s"
  using assms
proof (induction names arbitrary: healed s)
  case (Cons a names)
  show ?case
  proof (cases "classify_council cv wid a")
    case Skip
    then show ?thesis using Cons by simp
  next
    case (Fail payload t)
    then have "post_notice env ne cv payload t s = (p, s')"
      using Cons.prems(1) by (simp add: fail_closed_def split: prod.splits)
    then have "jget p ''ok'' = JBool False" using post_notice_not_ok classify_fail Fail by metis
    then show ?thesis using Cons.prems(2) by simp
  next
    case (Candidate c oc)
    obtain r1 s1 where r1: "record_escalation_gate env ne cv a oc wid (jget c ''thread_id'') s = (r1, s1)"
      by fastforce
    then obtain r healed' where r: "r1 = Inr r" "r = None \<or> (\<exists>q. r = Some q \<and> truthy (jget q ''ok''))"
      and rest: "heal_loop env ne cv wid healed' names s1 = (Inr p, s')"
      using Cons.prems Candidate by (auto split: sum.splits option.splits if_splits)
    show ?thesis
      using Cons.IH [OF rest Cons.prems(2)] record_escalation_comms [OF r1 [unfolded r(1)] r(2)] by simp
  qed
qed simp

lemma heal_comms:
  assumes "heal_escalation_gates env ne cv wid s = (Inr p, s')" and "truthy (jget p ''ok'')"
  shows "gcomms s' = gcomms s"
proof (cases "c_root cv")
  case Unreadable
  then obtain a b c d e f where "post_notice env ne cv (failure_payload a b c d e f) JNull s = (p, s')"
    using assms(1) by (auto simp: heal_escalation_gates_def fail_closed_def split: prod.splits)
  from post_notice_not_ok [OF this] have "jget p ''ok'' = JBool False" by (simp add: failure_not_ok)
  then show ?thesis using assms(2) by simp
qed (use assms heal_loop_comms in \<open>auto simp: heal_escalation_gates_def\<close>)

text \<open>when a healing sweep reports success, no council directory of the listing was malformed, and
  every plan or incident council of the work item whose recorded outcome escalates has its gate, under
  the key of its recorded rounds and scope.\<close>

theorem healed_means_gated:
  assumes "heal_escalation_gates env ne cv wid s = (Inr p, s')" and "jget p ''ok'' = JBool True"
    and "\<forall>x. g_sha env x \<noteq> []" and "c_root cv = Entries names" and "name \<in> set names"
  shows "(\<forall>payload t. classify_council cv wid name \<noteq> Fail payload t) \<and>
    (\<forall>c oc. classify_council cv wid name = Candidate c oc \<and> truthy (jget c ''work_item_id'') \<longrightarrow>
       gated env cv name c oc s')"
proof -
  have "truthy (jget p ''ok'')" unfolding assms(2) by simp
  then show ?thesis by (rule heal_complete [OF assms(1) _ assms(3-5)])
qed

definition demo_cid :: string where "demo_cid = ''cw-council-20260101T000000000000''"

definition demo_council_doc :: jobj where
  "demo_council_doc = [(''work_item_id'', JStr ''p1''), (''phase'', JStr ''plan''), (''rounds'', JArr [])]"

definition demo_cview :: cview where
  "demo_cview = \<lparr>c_root = Entries [demo_cid, ''tmp''], c_isdir = (\<lambda>_. True),
     c_council = (\<lambda>_. Some (Doc (JObj demo_council_doc))),
     c_outcome = (\<lambda>_. Some (Doc (JObj [(''outcome'', JStr ''hard_gate'')]))),
     c_round = (\<lambda>_ _. None), c_empty = (\<lambda>_. None)\<rparr>"

definition demo_nenv :: nenv where
  "demo_nenv = \<lparr>n_fmt = demo_fmt, n_clock = (5, 6), n_prev = None, n_faults = no_faults, n_token = None,
     n_reading = demo_reading, n_unlocked = True, n_thread_of = (\<lambda>_. JStr ''t''), n_exc_text = (\<lambda>_. ''x''),
     n_post_text = (\<lambda>_. ''y'')\<rparr>"

definition demo_genv1 :: genv where
  "demo_genv1 = demo_genv\<lparr>g_sha := (\<lambda>x. CHR ''k'' # x)\<rparr>"

lemma demo_names: "council_dir_name demo_cid" "\<not> council_dir_name ''tmp''"
  by code_simp+

lemma demo_classified:
  "classify_council demo_cview (JStr ''p1'') demo_cid = Candidate demo_council_doc [(''outcome'', JStr ''hard_gate'')]"
  by (simp add: classify_council_def demo_names demo_cview_def strict_json_def demo_council_doc_def py_simps
      ESCALATION_PHASES_def ESCALATION_OUTCOMES_def)

lemma demo_healed:
  "\<exists>p s'. heal_escalation_gates demo_genv1 demo_nenv demo_cview (JStr ''p1'') demo_empty = (Inr p, s') \<and>
     jget p ''ok'' = JBool True"
proof -
  have skip: "classify_council demo_cview (JStr ''p1'') ''tmp'' = Skip"
    by (simp add: classify_council_def demo_names)
  let ?e = "escalation_of demo_cview demo_cid demo_council_doc [(''outcome'', JStr ''hard_gate'')] []"
  have "\<exists>key. dedup_key (g_sha demo_genv1) (JStr ''packet:p1'') ?e = Inr key"
    by (simp add: dedup_key_def escalation_of_def to_int_def py_or_def substantive_round_count_def)
  then obtain key where key: "dedup_key (g_sha demo_genv1) (JStr ''packet:p1'') ?e = Inr key" by blast
  have ens: "\<exists>g s1. ensure_gate demo_genv1 (JStr ''p1'') ?e invo demo_empty = (Inr g, s1)" if "truthy invo" for invo
    using key that
    by (simp add: ensure_gate_def demo_subject Let_def load_record_def demo_empty_def py_simps demo_genv1_def
        demo_genv_def ensure_locked_def mutable_list_def write_record_locked_def) blast
  let ?i = "JStr (''gateeval-'' @ demo_cid @ ''-'' @ py_str (JStr ''hard_gate'') @ ''-'' @ str_int (substantive_round_count []))"
  have "truthy ?i" by simp
  then obtain g s1 where g: "ensure_gate demo_genv1 (JStr ''p1'') ?e ?i demo_empty = (Inr g, s1)" using ens by blast
  have "ensure_escalation_gate demo_genv1 demo_cview demo_cid [(''outcome'', JStr ''hard_gate'')] demo_empty
      = (Inr (Some (gate_success g)), s1)"
    using g unfolding ensure_escalation_gate_def escalation_of_def
    by (simp add: demo_cview_def read_doc_def demo_council_doc_def py_simps get_or_def jhas_def
        ESCALATION_PHASES_def round_list_ok_def)
  then have "record_escalation_gate demo_genv1 demo_nenv demo_cview demo_cid [(''outcome'', JStr ''hard_gate'')]
      (JStr ''p1'') JNull demo_empty = (Inr (Some (gate_success g)), s1)"
    by (simp add: record_escalation_gate_def py_simps ESCALATION_OUTCOMES_def)
  moreover have "sort [demo_cid, ''tmp''] = [demo_cid, ''tmp'']" by code_simp
  ultimately show ?thesis
    using demo_classified skip
    by (simp add: heal_escalation_gates_def demo_cview_def healed_payload_def py_simps gate_success_def demo_council_doc_def)
qed

lemma healed_means_gated_witness:
  "\<exists>s'. gated demo_genv1 demo_cview demo_cid demo_council_doc [(''outcome'', JStr ''hard_gate'')] s'"
proof -
  obtain p s' where h: "heal_escalation_gates demo_genv1 demo_nenv demo_cview (JStr ''p1'') demo_empty = (Inr p, s')"
    "jget p ''ok'' = JBool True" using demo_healed by blast
  have "\<forall>x. g_sha demo_genv1 x \<noteq> []" by (simp add: demo_genv1_def)
  from healed_means_gated [OF h this, of "[demo_cid, ''tmp'']" demo_cid] demo_classified
  show ?thesis by (auto simp: demo_cview_def demo_council_doc_def py_simps)
qed

section \<open>Failures are noticed\<close>

definition noticed :: "genv \<Rightarrow> jobj \<Rightarrow> gsys \<Rightarrow> bool" where
  "noticed env p s = (jget p ''posting_failure'' \<noteq> JNull \<or>
     (\<exists>m \<in> set (docs_of (gcomms s)). jget m ''idempotency_key'' = JStr (strip (notice_key (g_sha env) p))))"

lemma idempotent_recorded:
  assumes "write_message_idempotent hash fault token env unlocked msg s = (Inr r, s')"
    and "truthy (jget msg ''idempotency_key'')"
  shows "\<exists>m \<in> set (docs_of s'). jget m ''idempotency_key'' = jget msg ''idempotency_key''"
proof -
  obtain s1 where c: "check_and_append fault token env msg s = (Inr r, s1)" and f: "mfiles s' = mfiles s1"
    using assms by (auto simp: write_message_idempotent_def split: sum.splits if_splits prod.splits)
  have docs: "docs_of s' = docs_of s1" using f by (simp add: docs_of_def)
  show ?thesis
  proof (cases "find_by_idempotency_key env (jget msg ''thread_id'') (jget msg ''idempotency_key'') s")
    case (Inl e)
    then show ?thesis using c by (simp add: check_and_append_def)
  next
    case (Inr o1)
    show ?thesis
    proof (cases o1)
      case None
      then obtain n where w: "write_message fault token msg s = (Inr n, s1)"
        using c Inr by (auto simp: check_and_append_def split: prod.splits sum.splits)
      then obtain c where "(n, Doc (JObj msg)) \<in> set (mfiles s1)"
        using write_message_files [OF w] by auto
      then show ?thesis using docs_ofD docs by metis
    next
      case (Some m)
      then have s1: "s1 = s" using c Inr by (auto simp: check_and_append_def split: if_splits)
      obtain ms where ms: "read_messages env JNull (jget msg ''thread_id'') None s = Inr ms"
        and f: "List.find (\<lambda>m. jget m ''idempotency_key'' = jget msg ''idempotency_key'') ms = Some m"
        using Inr Some assms(2) by (auto simp: find_by_idempotency_key_def sbind_Inr_iff)
      have "m \<in> set ms" "jget m ''idempotency_key'' = jget msg ''idempotency_key''"
        using f by (auto simp: find_Some_iff)
      then show ?thesis using read_messages_docs [OF ms] docs s1 by auto
    qed
  qed
qed

lemma notice_key_not_blank: "strip (notice_key digest p) \<noteq> []"
proof -
  have "\<not> is_ws (CHR ''g'')" by (simp add: is_ws_def Let_def)
  then have "\<not> blank (CHR ''g'' # x)" for x by (auto simp: blank_iff)
  then show ?thesis by (simp add: notice_key_def blank_def)
qed

lemma notice_key_jput: "notice_key digest (jput ''posting_failure'' v p) = notice_key digest p"
  by (simp add: notice_key_def)

lemma post_notice_noticed:
  assumes "post_notice env ne cv payload t s = (p, s')"
  shows "noticed env p s'"
proof -
  let ?a = "notice_args (notice_text payload) (notice_key (g_sha env) payload)
    (notice_thread ne cv payload t) (jget payload ''work_item_id'')"
  let ?b = "build_message (n_fmt ne) (fst (n_clock ne)) (snd (n_clock ne)) (n_prev ne) ?a"
  show ?thesis
  proof (cases "fst ?b")
    case (Inl e)
    then have "p = jput ''posting_failure'' (JStr (n_post_text ne e)) payload"
      using assms by (simp add: post_notice_def Let_def)
    then show ?thesis by (simp add: noticed_def)
  next
    case (Inr msg)
    then obtain c t1 t2 where msg: "msg = assemble (n_fmt ne) t1 t2 ?a c"
      using build_message_cases [of _ _ _ _ ?a msg] by (metis prod.collapse)
    have key: "jget msg ''idempotency_key'' = JStr (strip (notice_key (g_sha env) payload))"
      unfolding msg assemble_options by (simp add: notice_args_def notice_key_not_blank)
    obtain r cs where w: "write_message_idempotent (g_sha env) (n_faults ne) (n_token ne) (n_reading ne)
        (n_unlocked ne) msg (gcomms s) = (r, cs)" by fastforce
    show ?thesis
    proof (cases r)
      case (Inl e)
      then have "p = jput ''posting_failure'' (JStr (n_post_text ne e)) payload"
        using assms Inr w by (simp add: post_notice_def Let_def)
      then show ?thesis by (simp add: noticed_def)
    next
      case r: (Inr x)
      then have "p = payload" "gcomms s' = cs" using assms Inr w by (auto simp: post_notice_def Let_def)
      moreover have "truthy (jget msg ''idempotency_key'')" using key notice_key_not_blank by simp
      ultimately show ?thesis
        using idempotent_recorded [OF w [unfolded r]] key by (auto simp: noticed_def)
    qed
  qed
qed

lemma record_escalation_noticed:
  assumes "record_escalation_gate env ne cv cid oc w t s = (Inr (Some p), s')" and "\<not> truthy (jget p ''ok'')"
  shows "noticed env p s'"
proof -
  obtain er s1 where e: "ensure_escalation_gate env cv cid oc s = (er, s1)" by fastforce
  show ?thesis
  proof (cases er)
    case (Inr r)
    then have "r = Some p" using assms(1) e by (auto simp: record_escalation_gate_def split: if_splits)
    then obtain g where "p = gate_success g"
      using e Inr unfolding ensure_escalation_gate_def Let_def
      by (auto split: json.splits if_splits sum.splits prod.splits)
    then show ?thesis using assms(2) by (simp add: gate_success_def py_simps)
  next
    case (Inl x)
    then have "post_notice env ne cv (failure_of ne cid oc w x) t s1 = (p, s')"
      using assms(1) e
      by (auto simp: record_escalation_gate_def split: if_splits gate_error.splits lock_error.splits prod.splits)
    then show ?thesis by (rule post_notice_noticed)
  qed
qed

lemma heal_loop_noticed:
  "heal_loop env ne cv wid healed names s = (Inr p, s') \<Longrightarrow> \<not> truthy (jget p ''ok'') \<Longrightarrow> noticed env p s'"
proof (induction names arbitrary: healed s)
  case Nil
  then show ?case by (auto simp: healed_payload_def py_simps)
next
  case (Cons a names)
  show ?case
  proof (cases "classify_council cv wid a")
    case (Fail payload t)
    then show ?thesis using Cons.prems(1) by (auto simp: fail_closed_def split: prod.splits intro: post_notice_noticed)
  next
    case (Candidate c oc)
    obtain r1 s1 where r1: "record_escalation_gate env ne cv a oc wid (jget c ''thread_id'') s = (r1, s1)"
      by fastforce
    consider (e) x where "r1 = Inl x" | (none) "r1 = Inr None" | (some) q where "r1 = Inr (Some q)"
      by (metis option.exhaust sum.exhaust)
    then show ?thesis
    proof cases
      case e then show ?thesis using Cons.prems(1) Candidate r1 by simp
    next
      case none then show ?thesis using Cons.prems Cons.IH [of healed s1] Candidate r1 by simp
    next
      case some
      show ?thesis
      proof (cases "truthy (jget q ''ok'')")
        case True
        then show ?thesis using Cons.prems Cons.IH [of "healed @ [JObj q]" s1] Candidate r1 some by simp
      next
        case False
        then have "p = q" "s' = s1" using Cons.prems(1) Candidate r1 some by simp_all
        then show ?thesis using record_escalation_noticed [OF r1 [unfolded some]] False by simp
      qed
    qed
  qed (use Cons in simp)
qed

text \<open>a sweep that does not report success leaves a notice under the key of that failure in the
  message log, or its result carries the reason why the notice could not be posted.\<close>

theorem failures_are_noticed:
  assumes "heal_escalation_gates env ne cv wid s = (Inr p, s')" and "\<not> truthy (jget p ''ok'')"
  shows "noticed env p s'"
  using assms
  by (auto simp: heal_escalation_gates_def fail_closed_def healed_payload_def py_simps
      split: listing.splits prod.splits intro: heal_loop_noticed post_notice_noticed)

lemma failures_are_noticed_witness:
  "\<exists>p s'. heal_escalation_gates demo_genv1 demo_nenv (demo_cview\<lparr>c_root := Unreadable\<rparr>) (JStr ''p1'') demo_empty
     = (Inr p, s') \<and> \<not> truthy (jget p ''ok'') \<and> noticed demo_genv1 p s'"
proof -
  let ?cv = "demo_cview\<lparr>c_root := Unreadable\<rparr>"
  let ?f = "failure_payload (JStr ''council_discovery_failed'') JNull (JStr ''p1'') JNull JNull (JStr ''cannot list'')"
  obtain p s' where n: "post_notice demo_genv1 demo_nenv ?cv ?f JNull demo_empty = (p, s')" by fastforce
  then have h: "heal_escalation_gates demo_genv1 demo_nenv ?cv (JStr ''p1'') demo_empty = (Inr p, s')"
    by (simp add: heal_escalation_gates_def fail_closed_def)
  have "\<not> truthy (jget p ''ok'')" using post_notice_not_ok [OF n] failure_not_ok by simp
  with failures_are_noticed [OF h this] h show ?thesis by blast
qed

definition demo_operator :: jobj where
  "demo_operator = [(''message_id'', JStr ''m1''), (''at'', JStr ''123456''), (''actor'', JStr ''OPERATOR-0001''),
     (''direction'', JStr ''inbound''), (''source'', JStr ''composer''),
     (''message'', JStr ''p1, authorize proceeding'')]"

lemma demo_authorised: "authority_rule demo_genv demo_gate PROCEED_PHRASES JNull demo_operator"
proof -
  have "token_from False ''p1'' ''p1, authorize proceeding''" by code_simp
  then have "mentions ''p1, authorize proceeding'' ''p1''" by (subst mentions_iff [symmetric]) simp_all
  moreover have "jget demo_gate ''work_item_id_as_seen'' = JStr ''p1''"
    by (simp add: demo_gate_def compat_gate_def py_simps)
  ultimately have "target_named demo_gate ''p1, authorize proceeding''"
    unfolding target_named_def by blast
  moreover have "phrase_authorizes ''p1, authorize proceeding'' PROCEED_PHRASES" by code_simp
  ultimately show ?thesis
    by (simp add: authority_rule_def demo_operator_def py_simps get_or_def jhas_def EXEMPT_MESSAGE_SOURCES_def
        after_def iso_of_def demo_genv_def demo_gate_def compat_gate_def)
qed

lemma authority_exact_witness:
  "validate_authority demo_genv demo_reading demo_gate (JStr ''m1'') PROCEED_PHRASES JNull
     (demo_gsys\<lparr>gcomms := no_messages\<lparr>mfiles := [(''m1.json'', Doc (JObj demo_operator))]\<rparr>\<rparr>) = Inr demo_operator"
proof -
  let ?s = "demo_gsys\<lparr>gcomms := no_messages\<lparr>mfiles := [(''m1.json'', Doc (JObj demo_operator))]\<rparr>\<rparr>"
  have "typed_gate demo_gate" by (simp add: typed_gate_def demo_gate_def compat_gate_def py_simps)
  moreover have "find_message demo_reading (JStr ''m1'') ?s = Inr (Some demo_operator)"
    by (simp add: find_message_def read_messages_def demo_reading_def read_row_def has_suffix_def sort_rows_def
        demo_operator_def get_or_def jhas_def py_simps last_n_def matching_def)
  ultimately show ?thesis using authority_exact demo_authorised by blast
qed

section \<open>Limits of the rules\<close>

text \<open>The negation window is the last 24 characters before the phrase, so a negation further away does
  not count.\<close>

lemma distant_negation_authorizes:
  "phrase_authorizes ''I do not under any circumstances authorize proceeding'' PROCEED_PHRASES"
  "\<not> phrase_authorizes ''I do not authorize proceeding'' PROCEED_PHRASES"
  by code_simp+

text \<open>A closure is checked against the time of the failed outcome only when that time can be read.\<close>

lemma unreadable_outcome_time_is_ignored:
  assumes "iso_of env t = None"
  shows "authority_rule env g phrases t msg = authority_rule env g phrases JNull msg"
  using assms by (simp add: authority_rule_def iso_of_def)

end
