(* ===== verification/Archive_Journal.thy ===== *)
theory Archive_Journal
  imports Os_Files Py_Access "HOL-Library.Product_Lexorder"
begin

text \<open>
  The journalled archive move and its recovery (\<open>tools/clearwright_archive.py\<close>, from \<open>write_journal\<close>
  to \<open>read_archived_messages\<close>): a durable journal names every planned move, each move is one rename
  followed by one line of the completion log, and an interrupted run is resumed forward.

  \<open>data\<close> holds the record files of the queue and of the archive tree, in any order; the files the
  archive keeps about itself (journals, completion logs, manifests, the index) have fields of their
  own, keyed by month directory and operation id. Every operation on the file system advances a clock,
  and the hazard schedule says what happens at each: nothing, an \<open>OSError\<close> before any effect, a crash
  in the middle, or a crash just after. SHA-256 of a file and the clock are parameters.
\<close>

section \<open>State and hazards\<close>

datatype mishap = Fine | Fails | Tears | Dies

record item =
  it_id :: string
  it_type :: string
  it_src :: path
  it_dst :: path
  it_sha :: string

record journal =
  j_opid :: string
  j_created :: string
  j_plan_hash :: json
  j_approval :: json
  j_message :: json
  j_planned :: "item list"

record row =
  r_id :: string
  r_type :: string
  r_original :: path
  r_archived :: path
  r_sha :: string

record manifest =
  mf_opid :: string
  mf_generated :: string
  mf_plan_hash :: json
  mf_approval :: json
  mf_message :: json
  mf_rows :: "row list"

text \<open>The index: for each id its type and its archive paths, in insertion order.\<close>

type_synonym aindex = "(string \<times> string \<times> path list) list"

text \<open>A completion log: its well-formed lines and an unterminated last line, which may be a complete
  record or a fragment.\<close>

datatype tail = NoTail | Fragment | Unterminated path

record clog =
  logged :: "path list"
  tail :: tail

type_synonym jkey = "string \<times> string"

record archive =
  data :: "(path \<times> content) list"
  pend :: "(jkey \<times> journal option) list"
  completed :: "(jkey \<times> journal option) list"
  clogs :: "jkey \<Rightarrow> clog"
  manifests :: "(jkey \<times> manifest option) list"
  index :: "aindex option"
  atick :: nat

record aenv =
  ae_root :: path
  hazard :: "nat \<Rightarrow> mishap"
  whole_line :: "nat \<Rightarrow> bool"
  digest :: "content \<Rightarrow> string"
  now_iso :: "nat \<Rightarrow> string"

definition stored :: "archive \<Rightarrow> path \<Rightarrow> content option" where
  "stored s p = map_of (data s) p"

datatype halt =
    BothExist path | HashMismatchRecovery path | MissingSource path | SourceDrift path
  | PostMoveMismatch path

datatype aexc = Halted halt | Interrupted | Escaped pyexc

type_synonym 'a am = "archive \<Rightarrow> (aexc + 'a) \<times> archive"

definition areturn :: "'a \<Rightarrow> 'a am" where
  "areturn x s = (Inr x, s)"

definition araise :: "aexc \<Rightarrow> 'a am" where
  "araise e s = (Inl e, s)"

definition abind :: "'a am \<Rightarrow> ('a \<Rightarrow> 'b am) \<Rightarrow> 'b am" where
  "abind m f s = (case m s of (Inl e, s') \<Rightarrow> (Inl e, s') | (Inr x, s') \<Rightarrow> f x s')"

definition aget :: "(archive \<Rightarrow> 'a) \<Rightarrow> 'a am" where
  "aget f s = (Inr (f s), s)"

text \<open>One operation with its whole effect and what a crash in the middle leaves.\<close>

definition os_step :: "aenv \<Rightarrow> (archive \<Rightarrow> archive) \<Rightarrow> (archive \<Rightarrow> archive) \<Rightarrow> unit am" where
  "os_step env eff torn s =
     (case hazard env (atick s) of
        Fine \<Rightarrow> (Inr (), (eff s)\<lparr>atick := Suc (atick s)\<rparr>)
      | Fails \<Rightarrow> (Inl Interrupted, s\<lparr>atick := Suc (atick s)\<rparr>)
      | Tears \<Rightarrow> (Inl Interrupted, (torn s)\<lparr>atick := Suc (atick s)\<rparr>)
      | Dies \<Rightarrow> (Inl Interrupted, (eff s)\<lparr>atick := Suc (atick s)\<rparr>))"

text \<open>\<open>_atomic_write\<close>: a temporary file that is then renamed, so a crash leaves the target as it was.\<close>

definition atomic_write :: "aenv \<Rightarrow> (archive \<Rightarrow> archive) \<Rightarrow> unit am" where
  "atomic_write env eff = os_step env eff (\<lambda>s. s)"

text \<open>A read that raises on an error.\<close>

definition reading_ok :: "aenv \<Rightarrow> unit am" where
  "reading_ok env = os_step env (\<lambda>s. s) (\<lambda>s. s)"

text \<open>\<open>_sha256_file\<close>.\<close>

definition sha_file :: "aenv \<Rightarrow> path \<Rightarrow> string am" where
  "sha_file env p = abind (reading_ok env) (\<lambda>_ s.
     case stored s p of None \<Rightarrow> (Inl Interrupted, s) | Some c \<Rightarrow> (Inr (digest env c), s))"

section \<open>Journal\<close>

definition archive_root :: "path \<Rightarrow> path" where
  "archive_root root = dirname root @ [''archive'']"

definition new_journal :: "jkey \<Rightarrow> string \<Rightarrow> item list \<Rightarrow> json \<Rightarrow> jobj option \<Rightarrow> journal" where
  "new_journal k now planned plan_hash approval =
     (let a = (case approval of None \<Rightarrow> [] | Some a \<Rightarrow> a) in
      \<lparr>j_opid = snd k, j_created = now, j_plan_hash = plan_hash, j_approval = jget a ''approval_id'',
       j_message = jget a ''operator_message_id'', j_planned = planned\<rparr>)"

definition write_journal ::
    "aenv \<Rightarrow> jkey \<Rightarrow> item list \<Rightarrow> json \<Rightarrow> jobj option \<Rightarrow> journal am" where
  "write_journal env k planned plan_hash approval s =
     (let j = new_journal k (now_iso env (atick s)) planned plan_hash approval in
      abind (atomic_write env (\<lambda>s. s\<lparr>pend := AList.update k (Some j) (pend s)\<rparr>)) (\<lambda>_. areturn j) s)"

text \<open>\<open>_completed_rel_paths\<close>: the lines that parse, a truncated last line being ignored.\<close>

definition completed_paths :: "clog \<Rightarrow> path list" where
  "completed_paths l = logged l @ (case tail l of Unterminated p \<Rightarrow> [p] | _ \<Rightarrow> [])"

definition completed_rel_paths :: "aenv \<Rightarrow> jkey \<Rightarrow> path list am" where
  "completed_rel_paths env k = abind (reading_ok env) (\<lambda>_. aget (\<lambda>s. completed_paths (clogs s k)))"

text \<open>\<open>_append_completion\<close>: text appended to an unterminated line continues that line, and the
  continued line does not parse. A crash in the middle leaves a fragment or, as
  \<open>whole_line\<close> says, a complete record without its newline.\<close>

definition append_line :: "path \<Rightarrow> clog \<Rightarrow> clog" where
  "append_line p l =
     (if tail l = NoTail then l\<lparr>logged := logged l @ [p]\<rparr> else l\<lparr>tail := NoTail\<rparr>)"

definition torn_line :: "bool \<Rightarrow> path \<Rightarrow> clog \<Rightarrow> clog" where
  "torn_line whole p l =
     (if tail l = NoTail \<and> whole then l\<lparr>tail := Unterminated p\<rparr> else l\<lparr>tail := Fragment\<rparr>)"

definition on_log :: "jkey \<Rightarrow> (clog \<Rightarrow> clog) \<Rightarrow> archive \<Rightarrow> archive" where
  "on_log k f s = s\<lparr>clogs := (clogs s)(k := f (clogs s k))\<rparr>"

definition append_completion :: "aenv \<Rightarrow> jkey \<Rightarrow> item \<Rightarrow> unit am" where
  "append_completion env k it s =
     os_step env (on_log k (append_line (it_dst it)))
       (on_log k (torn_line (whole_line env (atick s)) (it_dst it))) s"

definition rename_file :: "path \<Rightarrow> path \<Rightarrow> archive \<Rightarrow> archive" where
  "rename_file src dst s =
     (case stored s src of
        None \<Rightarrow> s
      | Some c \<Rightarrow> s\<lparr>data := (dst, c) # AList.delete dst (AList.delete src (data s))\<rparr>)"

definition rename_step :: "aenv \<Rightarrow> path \<Rightarrow> path \<Rightarrow> unit am" where
  "rename_step env src dst = os_step env (rename_file src dst) (\<lambda>s. s)"

definition check_sha :: "aenv \<Rightarrow> item \<Rightarrow> path \<Rightarrow> halt \<Rightarrow> unit am" where
  "check_sha env it p h =
     abind (sha_file env p) (\<lambda>d. if d \<noteq> it_sha it then araise (Halted h) else areturn ())"

text \<open>The body of the loop for an item whose destination is not yet logged.\<close>

definition move_item :: "aenv \<Rightarrow> jkey \<Rightarrow> item \<Rightarrow> unit am" where
  "move_item env k it s =
     (let src = it_src it; dst = it_dst it in
      if stored s src \<noteq> None \<and> stored s dst \<noteq> None then (Inl (Halted (BothExist dst)), s)
      else if stored s src = None \<and> stored s dst \<noteq> None then
        abind (check_sha env it dst (HashMismatchRecovery dst)) (\<lambda>_. append_completion env k it) s
      else if stored s src = None then (Inl (Halted (MissingSource src)), s)
      else abind (check_sha env it src (SourceDrift src)) (\<lambda>_.
        abind (reading_ok env) (\<lambda>_.
        abind (rename_step env src dst) (\<lambda>_.
        abind (check_sha env it dst (PostMoveMismatch dst)) (\<lambda>_.
          append_completion env k it)))) s)"

fun move_items ::
    "aenv \<Rightarrow> jkey \<Rightarrow> path list \<Rightarrow> item list \<Rightarrow> unit am" where
  "move_items env k done [] = areturn ()"
| "move_items env k done (it # its) =
     (if it_dst it \<in> set done then move_items env k done its
      else abind (move_item env k it) (\<lambda>_. move_items env k done its))"

definition execute_journal :: "aenv \<Rightarrow> jkey \<Rightarrow> journal \<Rightarrow> unit am" where
  "execute_journal env k j =
     abind (completed_rel_paths env k) (\<lambda>done. move_items env k done (j_planned j))"

section \<open>Manifest and index\<close>

text \<open>\<open>os.path.relpath\<close>.\<close>

fun up_and_down :: "path \<Rightarrow> path \<Rightarrow> path" where
  "up_and_down (a # as) (b # bs) =
     (if a = b then up_and_down as bs else replicate (length (a # as)) ''..'' @ b # bs)"
| "up_and_down as bs = replicate (length as) ''..'' @ bs"

definition relpath :: "path \<Rightarrow> path \<Rightarrow> path" where
  "relpath p start = (if up_and_down start p = [] then [''.''] else up_and_down start p)"

definition row_of :: "path \<Rightarrow> item \<Rightarrow> row" where
  "row_of root it = \<lparr>r_id = it_id it, r_type = it_type it, r_original = relpath (it_src it) root,
     r_archived = it_dst it, r_sha = it_sha it\<rparr>"

definition build_manifest :: "path \<Rightarrow> string \<Rightarrow> journal \<Rightarrow> jobj \<Rightarrow> manifest" where
  "build_manifest root now j approval =
     \<lparr>mf_opid = j_opid j, mf_generated = now, mf_plan_hash = jget approval ''approved_plan_sha256'',
      mf_approval = jget approval ''approval_id'', mf_message = jget approval ''operator_message_id'',
      mf_rows = map (row_of root) (j_planned j)\<rparr>"

text \<open>\<open>idx["ids"].setdefault(...)\<close> and the append of a new path.\<close>

definition merge_row :: "row \<Rightarrow> aindex \<Rightarrow> aindex" where
  "merge_row r idx =
     (let (ty, ps) = (case map_of idx (r_id r) of Some e \<Rightarrow> e | None \<Rightarrow> (r_type r, [])) in
      AList.update (r_id r) (ty, if r_archived r \<in> set ps then ps else ps @ [r_archived r]) idx)"

definition merge_manifest_into_index :: "aindex \<Rightarrow> manifest \<Rightarrow> aindex" where
  "merge_manifest_into_index idx mf = foldl (\<lambda>i r. merge_row r i) idx (mf_rows mf)"

definition read_index :: "archive \<Rightarrow> aindex" where
  "read_index s = (case index s of None \<Rightarrow> [] | Some i \<Rightarrow> i)"

text \<open>\<open>_read_json\<close> answers null for a file that is missing, torn or cannot be read; only a crash stops.\<close>

definition read_json :: "aenv \<Rightarrow> (archive \<Rightarrow> 'a option) \<Rightarrow> 'a option am" where
  "read_json env f s =
     (case hazard env (atick s) of
        Fine \<Rightarrow> (Inr (f s), s\<lparr>atick := Suc (atick s)\<rparr>)
      | Fails \<Rightarrow> (Inr None, s\<lparr>atick := Suc (atick s)\<rparr>)
      | _ \<Rightarrow> (Inl Interrupted, s\<lparr>atick := Suc (atick s)\<rparr>))"

definition merge_index :: "aenv \<Rightarrow> manifest \<Rightarrow> unit am" where
  "merge_index env mf =
     abind (read_json env index) (\<lambda>i.
       atomic_write env (\<lambda>s. s\<lparr>index := Some (merge_manifest_into_index (case i of None \<Rightarrow> [] | Some x \<Rightarrow> x) mf)\<rparr>))"

definition sorted_entries :: "string \<Rightarrow> (jkey \<times> 'a) list \<Rightarrow> jkey list" where
  "sorted_entries kind es = sort_key (\<lambda>k. (fst k, kind @ snd k @ ''.json'')) (map fst es)"

definition entry :: "jkey \<Rightarrow> (jkey \<times> 'a option) list \<Rightarrow> 'a option" where
  "entry k es = (case map_of es k of Some (Some x) \<Rightarrow> Some x | _ \<Rightarrow> None)"

fun rebuild_from :: "aenv \<Rightarrow> jkey list \<Rightarrow> aindex \<Rightarrow> aindex am" where
  "rebuild_from env [] idx = areturn idx"
| "rebuild_from env (k # ks) idx =
     abind (read_json env (\<lambda>s. entry k (manifests s))) (\<lambda>m.
       rebuild_from env ks (case m of None \<Rightarrow> idx | Some mf \<Rightarrow> merge_manifest_into_index idx mf))"

definition rebuild_index :: "aenv \<Rightarrow> aindex am" where
  "rebuild_index env s =
     abind (rebuild_from env (sorted_entries ''manifest-'' (manifests s)) []) (\<lambda>idx.
     abind (atomic_write env (\<lambda>s. s\<lparr>index := Some idx\<rparr>)) (\<lambda>_. areturn idx)) s"

definition publish :: "aenv \<Rightarrow> jkey \<Rightarrow> journal \<Rightarrow> manifest \<Rightarrow> manifest am" where
  "publish env k j mf =
     abind (atomic_write env (\<lambda>s. s\<lparr>manifests := AList.update k (Some mf) (manifests s)\<rparr>)) (\<lambda>_.
     abind (merge_index env mf) (\<lambda>_.
     abind (os_step env (\<lambda>s. s\<lparr>pend := AList.delete k (pend s),
              completed := AList.update k (Some j) (completed s)\<rparr>) (\<lambda>s. s)) (\<lambda>_.
       areturn mf)))"

definition finalize_journal :: "aenv \<Rightarrow> jkey \<Rightarrow> journal \<Rightarrow> jobj \<Rightarrow> manifest am" where
  "finalize_journal env k j approval s =
     publish env k j (build_manifest (ae_root env) (now_iso env (atick s)) j approval) s"

section \<open>Recovery\<close>

datatype recovery = Completed string | HaltedAt string halt

text \<open>The approval lineage that the journal carries.\<close>

definition lineage :: "journal \<Rightarrow> jobj" where
  "lineage j = [(''approved_plan_sha256'', j_plan_hash j), (''approval_id'', j_approval j),
     (''operator_message_id'', j_message j)]"

definition resume :: "aenv \<Rightarrow> jkey \<Rightarrow> journal \<Rightarrow> recovery am" where
  "resume env k j s =
     (case abind (execute_journal env k j) (\<lambda>_. finalize_journal env k j (lineage j)) s of
        (Inr _, s') \<Rightarrow> (Inr (Completed (j_opid j)), s')
      | (Inl (Halted h), s') \<Rightarrow> (Inr (HaltedAt (j_opid j) h), s')
      | (Inl e, s') \<Rightarrow> (Inl e, s'))"

fun recover_keys :: "aenv \<Rightarrow> jkey list \<Rightarrow> recovery list am" where
  "recover_keys env [] = areturn []"
| "recover_keys env (k # ks) =
     abind (read_json env (\<lambda>s. entry k (pend s))) (\<lambda>oj.
       case oj of
         None \<Rightarrow> recover_keys env ks
       | Some j \<Rightarrow> abind (resume env k j) (\<lambda>r.
           abind (recover_keys env ks) (\<lambda>rs. areturn (r # rs))))"

definition recover_pending :: "aenv \<Rightarrow> recovery list am" where
  "recover_pending env s = recover_keys env (sorted_entries ''pending-'' (pend s)) s"

section \<open>Reading the archive\<close>

definition resolve_archived :: "archive \<Rightarrow> string \<Rightarrow> (string \<times> path list) option" where
  "resolve_archived s rid = map_of (read_index s) rid"

definition path_str :: "path \<Rightarrow> string" where
  "path_str p = concat (map (\<lambda>c. ''/'' @ c) p)"

definition archived_copy :: "path \<Rightarrow> jobj \<Rightarrow> jobj" where
  "archived_copy p m = jput ''source_archive_path'' (JStr (path_str p)) (jput ''archived'' (JBool True) m)"

text \<open>The message files among the paths; a document that is not an object raises.\<close>

definition read_message_file :: "archive \<Rightarrow> path \<Rightarrow> pyexc + jobj list" where
  "read_message_file s p =
     (if ''communications'' \<notin> set (dirname p) then Inr []
      else case stored s p of
        Some (Doc (JObj m)) \<Rightarrow> Inr [archived_copy p m]
      | Some (Doc JNull) \<Rightarrow> Inr []
      | Some (Doc _) \<Rightarrow> Inl TypeError
      | _ \<Rightarrow> Inr [])"

text \<open>\<open>m.get("at") or ""\<close>: text sorts; a mixture with anything else raises.\<close>

definition sort_by_at :: "jobj list \<Rightarrow> pyexc + jobj list" where
  "sort_by_at ms =
     (if list_all (\<lambda>m. is_str (py_or (jget m ''at'') (JStr []))) ms
      then Inr (sort_key (\<lambda>m. py_str (py_or (jget m ''at'') (JStr []))) ms)
      else if length ms \<le> 1 then Inr ms else Inl TypeError)"

definition read_archived_messages :: "archive \<Rightarrow> string \<Rightarrow> pyexc + jobj list" where
  "read_archived_messages s thread =
     (case resolve_archived s thread of
        Some (ty, ps) \<Rightarrow>
          if ty \<noteq> ''thread'' then Inr []
          else sbind (map_exc (read_message_file s) ps) (\<lambda>ms. sort_by_at (concat ms))
      | None \<Rightarrow> Inr [])"

end
