(* ===== verification/Archive_Recovery.thy ===== *)
theory Archive_Recovery
  imports Archive_Journal "HOL-Library.Multiset"
begin

text \<open>
  What the journalled move guarantees. An abstract archive is a map from paths to contents that changes
  by atomic moves of planned items with the approved hash; every run of the detailed operations, whatever
  fails or crashes in it, is a run of the abstract one. Hence no content is ever lost or changed.
  Then: an interrupted archive is completed by recovery, and archived threads read back.
\<close>

section \<open>The monad\<close>

lemma abind_cases:
  "abind m f s = (case m s of (Inl e, s') \<Rightarrow> (Inl e, s') | (Inr x, s') \<Rightarrow> f x s')"
  by (simp add: abind_def)

lemma areturn_simps [simp]: "areturn x s = (Inr x, s)" "araise e s = (Inl e, s)"
  by (simp_all add: areturn_def araise_def)

text \<open>What an operation leaves alone: \<open>unchanged g m\<close> says that \<open>m\<close> never changes \<open>g\<close> of the state.\<close>

definition unchanged :: "(archive \<Rightarrow> 'b) \<Rightarrow> 'a am \<Rightarrow> bool" where
  "unchanged g m = (\<forall>s. g (snd (m s)) = g s)"

named_theorems unch \<open>operations that leave a part of the state alone\<close>

lemma unchangedD: "unchanged g m \<Longrightarrow> g (snd (m s)) = g s"
  by (simp add: unchanged_def)

lemma unchanged_abind [unch]:
  "unchanged g m \<Longrightarrow> (\<And>x. unchanged g (f x)) \<Longrightarrow> unchanged g (abind m f)"
  by (auto simp: unchanged_def abind_def split: prod.splits sum.splits) (metis snd_conv)+

lemma unchanged_return [unch]:
  "unchanged g (areturn x)" "unchanged g (araise e)" "unchanged g (aget h)"
  by (simp_all add: unchanged_def aget_def)

lemma unchanged_if [unch]: "unchanged g a \<Longrightarrow> unchanged g b \<Longrightarrow> unchanged g (if c then a else b)"
  by simp

lemma unchanged_os_step [unch]:
  "(\<And>s. g (eff s) = g s) \<Longrightarrow> (\<And>s. g (torn s) = g s) \<Longrightarrow> (\<And>s n. g (s\<lparr>atick := n\<rparr>) = g s) \<Longrightarrow>
   unchanged g (os_step env eff torn)"
  by (auto simp: unchanged_def os_step_def split: mishap.splits)

lemma unchanged_reading_ok [unch]:
  "(\<And>s n. g (s\<lparr>atick := n\<rparr>) = g s) \<Longrightarrow> unchanged g (reading_ok env)"
  by (auto simp: reading_ok_def intro: unch)

lemma unchanged_sha [unch]:
  "(\<And>s n. g (s\<lparr>atick := n\<rparr>) = g s) \<Longrightarrow> unchanged g (sha_file env p)"
  using unchanged_reading_ok [of g env]
  by (auto simp: sha_file_def unchanged_def abind_def split: prod.splits sum.splits option.splits)
    (metis snd_conv)+

lemma unchanged_check [unch]:
  "(\<And>s n. g (s\<lparr>atick := n\<rparr>) = g s) \<Longrightarrow> unchanged g (check_sha env it p h)"
  unfolding check_sha_def by (intro unch)

lemma unchanged_read_json [unch]:
  "(\<And>s n. g (s\<lparr>atick := n\<rparr>) = g s) \<Longrightarrow> unchanged g (read_json env f)"
  by (auto simp: unchanged_def read_json_def split: mishap.splits)

lemma unchanged_append [unch]:
  "(\<And>s n. g (s\<lparr>atick := n\<rparr>) = g s) \<Longrightarrow> (\<And>s c. g (s\<lparr>clogs := c\<rparr>) = g s) \<Longrightarrow>
   unchanged g (append_completion env k it)"
  by (auto simp: unchanged_def append_completion_def os_step_def on_log_def split: mishap.splits)

lemma unchanged_completed [unch]:
  "(\<And>s n. g (s\<lparr>atick := n\<rparr>) = g s) \<Longrightarrow> unchanged g (completed_rel_paths env k)"
  unfolding completed_rel_paths_def by (intro unch)

section \<open>One move\<close>

lemma reading_ok_cases:
  "reading_ok env s = (Inr (), s\<lparr>atick := Suc (atick s)\<rparr>) \<or>
   reading_ok env s = (Inl Interrupted, s\<lparr>atick := Suc (atick s)\<rparr>)"
  by (simp add: reading_ok_def os_step_def split: mishap.splits)

lemma stored_tick [simp]: "stored (s\<lparr>atick := n\<rparr>) = stored s"
  "stored (s\<lparr>clogs := c\<rparr>) = stored s" "stored (s\<lparr>pend := pd\<rparr>) = stored s"
  "stored (s\<lparr>manifests := ms\<rparr>) = stored s" "stored (s\<lparr>index := ix\<rparr>) = stored s"
  "stored (s\<lparr>completed := cp\<rparr>) = stored s"
  by (simp_all add: stored_def fun_eq_iff)

lemma stored_rename:
  "stored (rename_file src dst s) =
     (case stored s src of None \<Rightarrow> stored s
      | Some c \<Rightarrow> (stored s)(src := None, dst := Some c))"
  by (auto simp: rename_file_def stored_def fun_eq_iff delete_conv split: option.splits)

text \<open>Checking a hash succeeds only on a stored file with that hash, and changes no file.\<close>

lemma check_sha_Inr:
  assumes "check_sha env it p h s = (Inr u, s')"
  shows "\<exists>c. stored s p = Some c \<and> digest env c = it_sha it"
proof -
  consider "reading_ok env s = (Inr (), s\<lparr>atick := Suc (atick s)\<rparr>)"
    | "reading_ok env s = (Inl Interrupted, s\<lparr>atick := Suc (atick s)\<rparr>)"
    using reading_ok_cases by blast
  then show ?thesis
    using assms
    by cases (auto simp: check_sha_def sha_file_def abind_def split: option.splits if_splits)
qed

text \<open>The abstract archive: files and planned items; a move is atomic and checks the hash.\<close>

inductive amove :: "(content \<Rightarrow> string) \<Rightarrow> item set \<Rightarrow> (path \<Rightarrow> content option) \<Rightarrow> (path \<Rightarrow> content option) \<Rightarrow> bool"
  for dg :: "content \<Rightarrow> string" and P :: "item set" where
  amove: "it \<in> P \<Longrightarrow> f (it_src it) = Some c \<Longrightarrow> f (it_dst it) = None \<Longrightarrow> dg c = it_sha it \<Longrightarrow>
    amove dg P f (f(it_src it := None, it_dst it := Some c))"

lemma amove_mono: "amove dg P f g \<Longrightarrow> P \<subseteq> Q \<Longrightarrow> amove dg Q f g"
  by (auto elim!: amove.cases intro: amove.intros)

lemma amoves_mono: "(amove dg P)\<^sup>*\<^sup>* f g \<Longrightarrow> P \<subseteq> Q \<Longrightarrow> (amove dg Q)\<^sup>*\<^sup>* f g"
  by (erule rtranclp_mono [THEN predicate2D, rotated]) (auto intro: amove_mono)

text \<open>The body of the loop moves its own item, with the right hash, or moves nothing.\<close>

lemma move_item_refines:
  "stored (snd (move_item env k it s)) = stored s \<or>
   amove (digest env) {it} (stored s) (stored (snd (move_item env k it s)))"
proof -
  let ?src = "it_src it" and ?dst = "it_dst it"
  have same: "unchanged stored (check_sha env it p h)" "unchanged stored (append_completion env k it)"
    "unchanged stored (reading_ok env)" for p h by (auto intro!: unch)
  have rest: "stored (snd (abind (check_sha env it ?dst h) (\<lambda>_. append_completion env k it) t)) = stored t"
    for h t using unchangedD [OF unchanged_abind [OF same(1) same(2)]] by simp
  show ?thesis
  proof (cases "stored s ?src \<noteq> None \<and> stored s ?dst = None")
    case False
    then show ?thesis using rest by (auto simp: move_item_def Let_def)
  next
    case True
    then obtain c where c: "stored s ?src = Some c" "stored s ?dst = None" by auto
    obtain r1 s1 where 1: "check_sha env it ?src (SourceDrift ?src) s = (r1, s1)" by fastforce
    have s1: "stored s1 = stored s" using unchangedD [OF same(1)] 1 by (metis snd_conv)
    obtain r2 s2 where 2: "reading_ok env s1 = (r2, s2)" by fastforce
    have s2: "stored s2 = stored s" using unchangedD [OF same(3)] 2 s1 by (metis snd_conv)
    obtain r3 s3 where 3: "rename_step env ?src ?dst s2 = (r3, s3)" by fastforce
    have ren: "stored s3 = stored s \<or> stored s3 = (stored s)(?src := None, ?dst := Some c)"
      using 3 c s2 by (auto simp: rename_step_def os_step_def stored_rename split: mishap.splits)
    show ?thesis
    proof (cases r1)
      case (Inl e)
      then show ?thesis using True 1 s1 by (auto simp: move_item_def abind_def Let_def)
    next
      case Inr1: (Inr u)
      then have sha: "digest env c = it_sha it" using check_sha_Inr 1 c by fastforce
      have "stored (snd (move_item env k it s)) \<in> {stored s2, stored s3}"
        using True Inr1 1 2 3 rest
        by (cases r2; cases r3) (auto simp: move_item_def Let_def abind_cases [of "check_sha env it ?src _"]
            abind_cases [of "reading_ok env"] abind_cases [of "rename_step env ?src ?dst"])
      then show ?thesis using ren s2 c sha amove.intros [of it "{it}" "stored s" c "digest env"] by auto
    qed
  qed
qed

lemma move_items_refine:
  "(amove (digest env) (set its))\<^sup>*\<^sup>* (stored s) (stored (snd (move_items env k done its s)))"
proof (induction its arbitrary: s)
  case (Cons it its)
  have tail: "(amove (digest env) (set (it # its)))\<^sup>*\<^sup>* (stored t) (stored (snd (move_items env k done its t)))" for t
    using Cons.IH by (rule amoves_mono) auto
  obtain r t where t: "move_item env k it s = (r, t)" by fastforce
  have "(amove (digest env) (set (it # its)))\<^sup>*\<^sup>* (stored s) (stored t)"
    using move_item_refines [of env k it s] t by (auto intro: amove_mono)
  then show ?case using tail t by (cases r) (auto simp: abind_def intro: rtranclp_trans)
qed simp

lemma execute_refines:
  "(amove (digest env) (set (j_planned j)))\<^sup>*\<^sup>* (stored s) (stored (snd (execute_journal env k j s)))"
proof -
  have c: "unchanged stored (completed_rel_paths env k)" by (auto intro!: unch)
  obtain r t where t: "completed_rel_paths env k s = (r, t)" by fastforce
  have "stored t = stored s" using unchangedD [OF c] t by (metis snd_conv)
  then show ?thesis
    using move_items_refine [of env "j_planned j" t k] t by (cases r) (auto simp: execute_journal_def abind_def)
qed

section \<open>The whole archive refines atomic verified moves\<close>

lemma unchanged_move_item [unch]:
  assumes "\<And>s n. g (s\<lparr>atick := n\<rparr>) = g s" and "\<And>s c. g (s\<lparr>clogs := c\<rparr>) = g s"
    and "\<And>s d. g (s\<lparr>data := d\<rparr>) = g s"
  shows "unchanged g (move_item env k it)"
proof -
  have ren: "unchanged g (rename_step env a b)" for a b
    unfolding rename_step_def by (rule unch) (auto simp: rename_file_def assms split: option.splits)
  note parts = assms(1,2) ren unch
  have "g (snd (abind (check_sha env it p h) (\<lambda>_. append_completion env k it) s)) = g s" for p h s
    by (rule unchangedD) (auto intro!: parts)
  moreover have "g (snd (abind (check_sha env it p h) (\<lambda>_. abind (reading_ok env) (\<lambda>_.
      abind (rename_step env a b) (\<lambda>_. abind (check_sha env it q h') (\<lambda>_. append_completion env k it)))) s)) = g s"
    for p h q h' a b s
    by (rule unchangedD) (auto intro!: parts)
  ultimately show ?thesis by (simp add: unchanged_def move_item_def Let_def)
qed

lemma unchanged_move_items [unch]:
  assumes "\<And>s n. g (s\<lparr>atick := n\<rparr>) = g s" and "\<And>s c. g (s\<lparr>clogs := c\<rparr>) = g s"
    and "\<And>s d. g (s\<lparr>data := d\<rparr>) = g s"
  shows "unchanged g (move_items env k done its)"
  using assms by (induction its) (auto intro!: unch)

lemma unchanged_execute [unch]:
  assumes "\<And>s n. g (s\<lparr>atick := n\<rparr>) = g s" and "\<And>s c. g (s\<lparr>clogs := c\<rparr>) = g s"
    and "\<And>s d. g (s\<lparr>data := d\<rparr>) = g s"
  shows "unchanged g (execute_journal env k j)"
  unfolding execute_journal_def using assms by (auto intro!: unch)

lemma unchanged_atomic_write [unch]:
  "(\<And>s. g (eff s) = g s) \<Longrightarrow> (\<And>s n. g (s\<lparr>atick := n\<rparr>) = g s) \<Longrightarrow> unchanged g (atomic_write env eff)"
  unfolding atomic_write_def by (rule unch) auto

lemma unchanged_merge_index [unch]:
  "(\<And>s i. g (s\<lparr>index := i\<rparr>) = g s) \<Longrightarrow> (\<And>s n. g (s\<lparr>atick := n\<rparr>) = g s) \<Longrightarrow> unchanged g (merge_index env mf)"
  unfolding merge_index_def by (auto intro!: unch)

lemma stored_finalize [simp]: "stored (snd (finalize_journal env k j a s)) = stored s"
proof -
  have "unchanged stored (publish env k j mf)" for mf
    unfolding publish_def by (intro unch) simp_all
  then show ?thesis unfolding finalize_journal_def by (rule unchangedD)
qed

text \<open>Planned items only leave the set of pending journals, except when a journal is written.\<close>

definition planned_items :: "archive \<Rightarrow> item set" where
  "planned_items s = {it. \<exists>k j. (k, Some j) \<in> set (pend s) \<and> it \<in> set (j_planned j)}"

definition shrinks :: "'a am \<Rightarrow> bool" where
  "shrinks m = (\<forall>s. set (pend (snd (m s))) \<subseteq> set (pend s))"

lemma shrinks_unchanged: "unchanged pend m \<Longrightarrow> shrinks m"
  by (simp add: shrinks_def unchanged_def)

lemma shrinks_abind:
  assumes "shrinks m" and "\<And>x. shrinks (f x)"
  shows "shrinks (abind m f)"
  unfolding shrinks_def
proof
  fix s
  obtain r t where t: "m s = (r, t)" by fastforce
  then have "set (pend t) \<subseteq> set (pend s)" using assms(1) by (metis shrinks_def snd_conv)
  moreover have "set (pend (snd (f x t))) \<subseteq> set (pend t)" for x using assms(2) by (simp add: shrinks_def)
  ultimately show "set (pend (snd (abind m f s))) \<subseteq> set (pend s)"
    using t by (cases r) (auto simp: abind_def)
qed

lemma shrinks_delete: "shrinks (os_step env (\<lambda>s. s\<lparr>pend := AList.delete k (pend s), completed := c s\<rparr>) (\<lambda>s. s))"
  by (auto simp: shrinks_def os_step_def AList.delete_eq split: mishap.splits)

lemma shrinks_finalize: "set (pend (snd (finalize_journal env k j a s))) \<subseteq> set (pend s)"
proof -
  have "shrinks (publish env k j mf)" for mf
    unfolding publish_def
    by (intro shrinks_abind shrinks_delete shrinks_unchanged unch) simp_all
  then show ?thesis by (simp add: finalize_journal_def shrinks_def)
qed

lemma planned_mono: "set (pend t) \<subseteq> set (pend s) \<Longrightarrow> planned_items t \<subseteq> planned_items s"
  by (auto simp: planned_items_def)

lemma entry_planned: "entry k (pend s) = Some j \<Longrightarrow> set (j_planned j) \<subseteq> planned_items s"
  unfolding entry_def planned_items_def by (fastforce split: option.splits dest!: map_of_SomeD)

text \<open>What an operation may do to the files and to the set of planned items.\<close>

definition refines :: "aenv \<Rightarrow> 'a am \<Rightarrow> bool" where
  "refines env m =
     (\<forall>s P. planned_items s \<subseteq> P \<longrightarrow> planned_items (snd (m s)) \<subseteq> P \<and>
        (amove (digest env) P)\<^sup>*\<^sup>* (stored s) (stored (snd (m s))))"

lemma refinesI:
  "(\<And>s. stored (snd (m s)) = stored s) \<Longrightarrow> shrinks m \<Longrightarrow> refines env m"
  unfolding refines_def shrinks_def using planned_mono by (metis rtranclp.rtrancl_refl subset_trans)

lemma refines_abind:
  assumes "refines env m" and "\<And>x. refines env (f x)"
  shows "refines env (abind m f)"
  unfolding refines_def
proof (intro allI impI)
  fix s P
  assume P: "planned_items s \<subseteq> P"
  obtain r t where t: "m s = (r, t)" by fastforce
  have 1: "planned_items t \<subseteq> P" "(amove (digest env) P)\<^sup>*\<^sup>* (stored s) (stored t)"
    using assms(1) P t by (metis refines_def snd_conv)+
  have 2: "planned_items (snd (f x t)) \<subseteq> P \<and> (amove (digest env) P)\<^sup>*\<^sup>* (stored t) (stored (snd (f x t)))" for x
    using assms(2) 1(1) by (simp add: refines_def)
  show "planned_items (snd (abind m f s)) \<subseteq> P \<and>
      (amove (digest env) P)\<^sup>*\<^sup>* (stored s) (stored (snd (abind m f s)))"
    using 1 2 t by (cases r) (auto simp: abind_def intro: rtranclp_trans)
qed

lemma refines_return: "refines env (areturn x)"
  by (rule refinesI) (simp_all add: shrinks_def)

lemma refines_read_json: "refines env (read_json env f)"
  by (rule refinesI) (simp_all add: shrinks_def read_json_def split: mishap.splits)

lemma refines_execute:
  assumes "entry k (pend s) = Some j" and "planned_items s \<subseteq> P"
  shows "planned_items (snd (execute_journal env k j s)) \<subseteq> P"
    and "(amove (digest env) P)\<^sup>*\<^sup>* (stored s) (stored (snd (execute_journal env k j s)))"
proof -
  have "unchanged pend (execute_journal env k j)" by (intro unch) simp_all
  then show "planned_items (snd (execute_journal env k j s)) \<subseteq> P"
    using assms(2) by (simp add: planned_items_def unchanged_def)
  show "(amove (digest env) P)\<^sup>*\<^sup>* (stored s) (stored (snd (execute_journal env k j s)))"
    using execute_refines entry_planned [OF assms(1)] assms(2) by (meson amoves_mono subset_trans)
qed

lemma snd_resume:
  "snd (resume env k j s) =
     snd (abind (execute_journal env k j) (\<lambda>_. finalize_journal env k j (lineage j)) s)"
  by (auto simp: resume_def split: prod.splits sum.splits aexc.splits)

lemma refines_resume:
  assumes "entry k (pend s) = Some j" and "planned_items s \<subseteq> P"
  shows "planned_items (snd (resume env k j s)) \<subseteq> P \<and>
    (amove (digest env) P)\<^sup>*\<^sup>* (stored s) (stored (snd (resume env k j s)))"
proof -
  obtain r t where t: "execute_journal env k j s = (r, t)" by fastforce
  have 1: "planned_items t \<subseteq> P" "(amove (digest env) P)\<^sup>*\<^sup>* (stored s) (stored t)"
    using refines_execute [OF assms] t by (metis snd_conv)+
  have "planned_items (snd (finalize_journal env k j a t)) \<subseteq> P" for a
    using planned_mono [OF shrinks_finalize] 1(1) by (meson subset_trans)
  then show ?thesis using 1 t by (cases r) (auto simp: snd_resume abind_def)
qed

lemma refines_recover_keys: "refines env (recover_keys env ks)"
proof (induction ks)
  case (Cons k ks)
  show ?case unfolding refines_def
  proof (intro allI impI)
    fix s P
    assume P: "planned_items s \<subseteq> P"
    let ?tail = "\<lambda>r. abind (recover_keys env ks) (\<lambda>rs. areturn (r # rs))"
    have tail: "refines env (?tail r)" for r by (intro refines_abind Cons refines_return)
    obtain oj t where t: "read_json env (\<lambda>s. entry k (pend s)) s = (oj, t)" by fastforce
    then have st: "stored t = stored s" "pend t = pend s" "\<And>j. oj = Inr (Some j) \<Longrightarrow> entry k (pend s) = Some j"
      by (auto simp: read_json_def split: mishap.splits)
    then have Pt: "planned_items t \<subseteq> P" using P by (simp add: planned_items_def)
    consider e where "oj = Inl e" | "oj = Inr None" | j where "oj = Inr (Some j)"
      by (metis option.exhaust sum.exhaust)
    then show "planned_items (snd (recover_keys env (k # ks) s)) \<subseteq> P \<and>
        (amove (digest env) P)\<^sup>*\<^sup>* (stored s) (stored (snd (recover_keys env (k # ks) s)))"
    proof cases
      case 1 then show ?thesis using t st Pt by (simp add: abind_def)
    next
      case 2 then show ?thesis using t st(1) Cons [unfolded refines_def, rule_format, OF Pt] by (simp add: abind_def)
    next
      case (3 j)
      obtain r u where u: "resume env k j t = (r, u)" by fastforce
      have ru: "planned_items u \<subseteq> P" "(amove (digest env) P)\<^sup>*\<^sup>* (stored t) (stored u)"
        using refines_resume [of k t j P env] st 3 Pt u by auto
      have tl: "planned_items (snd (?tail x u)) \<subseteq> P \<and> (amove (digest env) P)\<^sup>*\<^sup>* (stored u) (stored (snd (?tail x u)))" for x
        using tail ru(1) by (simp add: refines_def)
      have "snd (recover_keys env (k # ks) s) = (case r of Inl e \<Rightarrow> u | Inr x \<Rightarrow> snd (?tail x u))"
        using t u 3 by (simp add: abind_def split: sum.splits)
      then show ?thesis using ru tl st by (cases r) (auto intro: rtranclp_trans)
    qed
  qed
qed (simp only: recover_keys.simps refines_return)

text \<open>One operation of the archive, under any hazards.\<close>

inductive archive_step :: "(content \<Rightarrow> string) \<Rightarrow> archive \<Rightarrow> archive \<Rightarrow> bool" for dg :: "content \<Rightarrow> string" where
  plan: "archive_step dg s (snd (write_journal env k its h a s))"
| run: "digest env = dg \<Longrightarrow> entry k (pend s) = Some j \<Longrightarrow>
    archive_step dg s (snd (execute_journal env k j s))"
| finish: "archive_step dg s (snd (finalize_journal env k j a s))"
| recover: "digest env = dg \<Longrightarrow> archive_step dg s (snd (recover_pending env s))"
| rebuild: "archive_step dg s (snd (rebuild_index env s))"

text \<open>The abstract system: items are planned, and planned items are moved.\<close>

inductive abstract_step :: "(content \<Rightarrow> string) \<Rightarrow> (path \<Rightarrow> content option) \<times> item set \<Rightarrow>
    (path \<Rightarrow> content option) \<times> item set \<Rightarrow> bool" for dg :: "content \<Rightarrow> string" where
  plan: "abstract_step dg (f, P) (f, P \<union> Q)"
| move: "amove dg P f g \<Longrightarrow> abstract_step dg (f, P) (g, P)"

definition implements :: "archive \<Rightarrow> (path \<Rightarrow> content option) \<times> item set \<Rightarrow> bool" where
  "implements s a = (stored s = fst a \<and> planned_items s \<subseteq> snd a)"

lemma abstract_moves: "(amove dg P)\<^sup>*\<^sup>* f g \<Longrightarrow> (abstract_step dg)\<^sup>*\<^sup>* (f, P) (g, P)"
  by (induction rule: rtranclp_induct) (auto intro: abstract_step.move rtranclp.rtrancl_into_rtrancl)

lemma set_update_subset: "set (AList.update k v xs) \<subseteq> insert (k, v) (set xs)"
  by (induction xs) auto

lemma write_journal_effect:
  "stored (snd (write_journal env k its h a s)) = stored s"
  "planned_items (snd (write_journal env k its h a s)) \<subseteq> planned_items s \<union> set its"
proof -
  show "stored (snd (write_journal env k its h a s)) = stored s"
    by (simp add: write_journal_def abind_def atomic_write_def os_step_def Let_def split: mishap.splits)
  let ?j = "new_journal k (now_iso env (atick s)) its h a"
  have "pend (snd (write_journal env k its h a s)) \<in> {pend s, AList.update k (Some ?j) (pend s)}"
    by (simp add: write_journal_def abind_def atomic_write_def os_step_def Let_def split: mishap.splits)
  then have sub: "set (pend (snd (write_journal env k its h a s))) \<subseteq> insert (k, Some ?j) (set (pend s))"
    using set_update_subset [of k "Some ?j" "pend s"] by auto
  have j: "j_planned ?j = its" by (simp add: new_journal_def Let_def)
  show "planned_items (snd (write_journal env k its h a s)) \<subseteq> planned_items s \<union> set its"
  proof
    fix it
    assume "it \<in> planned_items (snd (write_journal env k its h a s))"
    then obtain k' j' where kj: "(k', Some j') \<in> insert (k, Some ?j) (set (pend s))" "it \<in> set (j_planned j')"
      using sub unfolding planned_items_def by blast
    then consider "j' = ?j" | "(k', Some j') \<in> set (pend s)" by auto
    then show "it \<in> planned_items s \<union> set its"
      using kj(2) j by cases (simp, auto simp: planned_items_def simp del: split_paired_Ex)
  qed
qed

lemma unchanged_rebuild_from [unch]:
  "(\<And>s n. g (s\<lparr>atick := n\<rparr>) = g s) \<Longrightarrow> unchanged g (rebuild_from env ks idx)"
  by (induction ks arbitrary: idx) (auto intro!: unch)

lemma rebuild_index_unchanged:
  assumes "\<And>s n. g (s\<lparr>atick := n\<rparr>) = g s" and "\<And>s i. g (s\<lparr>index := i\<rparr>) = g s"
  shows "g (snd (rebuild_index env s)) = g s"
  unfolding rebuild_index_def using assms by (intro unchangedD unch) auto

interpretation archive_sim: step_simulation "archive_step dg" "abstract_step dg" implements for dg
proof
  fix s t and a :: "(path \<Rightarrow> content option) \<times> item set"
  assume a: "implements s a" and "archive_step dg s t"
  obtain P where P: "a = (stored s, P)" "planned_items s \<subseteq> P"
    using a by (cases a) (auto simp: implements_def)
  have moves: "\<exists>a'. (abstract_step dg)\<^sup>*\<^sup>* a a' \<and> implements t a'" if "planned_items t \<subseteq> P" "(amove dg P)\<^sup>*\<^sup>* (stored s) (stored t)"
    using that P abstract_moves by (intro exI [of _ "(stored t, P)"]) (auto simp: implements_def)
  from \<open>archive_step dg s t\<close> show "\<exists>a'. (abstract_step dg)\<^sup>*\<^sup>* a a' \<and> implements t a'"
  proof cases
    case (plan env k its h ap)
    then have "abstract_step dg a (stored t, P \<union> set its)" "implements t (stored t, P \<union> set its)"
      using P write_journal_effect [of env k its h ap s] abstract_step.plan [of dg "stored s" P "set its"]
      by (auto simp: implements_def)
    then show ?thesis by blast
  next
    case (run env k j)
    then show ?thesis using refines_execute [of k s j P env] P by (intro moves) auto
  next
    case (finish env k j ap)
    then show ?thesis using planned_mono [OF shrinks_finalize, of env k j ap s] P by (intro moves) auto
  next
    case (recover env)
    then show ?thesis using refines_recover_keys P(2)
      by (intro moves) (auto simp: recover_pending_def refines_def)
  next
    case (rebuild env)
    have "stored t = stored s" "planned_items t = planned_items s"
      unfolding rebuild by (intro rebuild_index_unchanged; simp add: planned_items_def)+
    then show ?thesis using P by (intro moves) auto
  qed
qed

section \<open>No content is lost\<close>

definition contents :: "(path \<Rightarrow> content option) \<Rightarrow> content multiset" where
  "contents f = image_mset (\<lambda>p. the (f p)) (mset_set (dom f))"

lemma amove_contents:
  assumes "amove dg P f g" and "finite (dom f)"
  shows "finite (dom g) \<and> contents g = contents f"
  using assms(1)
proof cases
  case (amove it c)
  let ?s = "it_src it" and ?d = "it_dst it"
  let ?R = "dom f - {?s}"
  have ne: "?s \<noteq> ?d" and d: "?d \<notin> dom f" using amove by auto
  have dg: "dom g = insert ?d ?R" using amove ne by auto
  have same: "the (g p) = the (f p)" if "p \<in> ?R" for p using that amove d by auto
  have "contents g = add_mset c (image_mset (\<lambda>p. the (g p)) (mset_set ?R))"
    using assms(2) d amove by (simp add: contents_def dg)
  also have "image_mset (\<lambda>p. the (g p)) (mset_set ?R) = image_mset (\<lambda>p. the (f p)) (mset_set ?R)"
    using assms(2) same by (intro image_mset_cong) auto
  also have "add_mset c \<dots> = contents f"
    using assms(2) amove by (simp add: contents_def mset_set.remove [of "dom f" ?s] domI)
  finally show ?thesis using assms(2) dg by simp
qed

lemma abstract_step_contents:
  "(abstract_step dg)\<^sup>*\<^sup>* a b \<Longrightarrow> finite (dom (fst a)) \<Longrightarrow>
   finite (dom (fst b)) \<and> contents (fst b) = contents (fst a)"
  by (induction rule: rtranclp_induct) (auto elim!: abstract_step.cases dest: amove_contents)

lemma finite_stored [simp]: "finite (dom (stored s))"
  by (simp add: stored_def [abs_def] finite_dom_map_of)

lemma archive_run_contents:
  "(archive_step dg)\<^sup>*\<^sup>* s t \<Longrightarrow> contents (stored t) = contents (stored s)"
proof -
  assume "(archive_step dg)\<^sup>*\<^sup>* s t"
  moreover have "implements s (stored s, planned_items s)" by (simp add: implements_def)
  ultimately obtain b where "(abstract_step dg)\<^sup>*\<^sup>* (stored s, planned_items s) b" "implements t b"
    by (blast dest: archive_sim.run_simulates)
  then show ?thesis using abstract_step_contents by (fastforce simp: implements_def)
qed

section \<open>Interrupted runs\<close>

text \<open>A plan that can be carried out on the files \<open>f\<close>: every source is there with the approved hash and
  every destination is free; the same file may be planned twice.\<close>

definition ready :: "(content \<Rightarrow> string) \<Rightarrow> item list \<Rightarrow> (path \<Rightarrow> content option) \<Rightarrow> bool" where
  "ready dg its f =
     ((\<forall>it \<in> set its. (\<exists>c. f (it_src it) = Some c \<and> dg c = it_sha it) \<and> f (it_dst it) = None) \<and>
      (\<forall>a \<in> set its. \<forall>b \<in> set its. it_src a = it_src b \<longleftrightarrow> it_dst a = it_dst b))"

definition moved :: "archive \<Rightarrow> item \<Rightarrow> bool" where
  "moved s it = (stored s (it_src it) = None)"

text \<open>Every planned file is at its source or at its destination, other files are untouched, and the log
  names only files that have been moved.\<close>

definition progress :: "jkey \<Rightarrow> item list \<Rightarrow> (path \<Rightarrow> content option) \<Rightarrow> archive \<Rightarrow> bool" where
  "progress k its f s =
     ((\<forall>it \<in> set its. stored s (it_src it) = f (it_src it) \<and> stored s (it_dst it) = None \<or>
        stored s (it_src it) = None \<and> stored s (it_dst it) = f (it_src it)) \<and>
      (\<forall>p. p \<notin> it_src ` set its \<longrightarrow> p \<notin> it_dst ` set its \<longrightarrow> stored s p = f p) \<and>
      (\<forall>it \<in> set its. it_dst it \<in> set (completed_paths (clogs s k)) \<longrightarrow> moved s it))"

lemma progress_cong:
  "stored t = stored s \<Longrightarrow> clogs t k = clogs s k \<Longrightarrow> progress k its f t = progress k its f s"
  by (simp add: progress_def moved_def)

lemma progress_tick [simp]: "progress k its f (s\<lparr>atick := n\<rparr>) = progress k its f s"
  by (rule progress_cong) simp_all

lemma moved_tick [simp]: "moved (s\<lparr>atick := n\<rparr>) = moved s"
  "moved (s\<lparr>index := i\<rparr>) = moved s" "moved (s\<lparr>manifests := m\<rparr>) = moved s"
  by (simp_all add: moved_def fun_eq_iff)

definition calm :: "aenv \<Rightarrow> bool" where
  "calm env = (\<forall>n. hazard env n = Fine)"

lemma disturbed:
  "hazard env n = Fails \<Longrightarrow> \<not> calm env" "hazard env n = Tears \<Longrightarrow> \<not> calm env"
  "hazard env n = Dies \<Longrightarrow> \<not> calm env"
  by (auto simp: calm_def) (metis mishap.distinct)+

text \<open>The hoare-style contract of the pieces of a move: what they keep, and that they end in success when
  undisturbed and otherwise only in an interruption.\<close>

definition safe_step :: "aenv \<Rightarrow> (archive \<Rightarrow> bool) \<Rightarrow> 'a am \<Rightarrow> (archive \<Rightarrow> bool) \<Rightarrow> (archive \<Rightarrow> bool) \<Rightarrow> bool" where
  "safe_step env A m B I =
     (\<forall>s. A s \<longrightarrow> (case m s of (Inr x, t) \<Rightarrow> B t \<and> I t
        | (Inl e, t) \<Rightarrow> e = Interrupted \<and> \<not> calm env \<and> I t))"

lemma safe_abind:
  assumes "safe_step env A m B I" and "\<And>x. safe_step env (\<lambda>s. B s \<and> I s) (f x) C I"
  shows "safe_step env A (abind m f) C I"
  unfolding safe_step_def
proof (intro allI impI)
  fix s assume "A s"
  obtain r t where t: "m s = (r, t)" by fastforce
  show "case abind m f s of (Inr x, t) \<Rightarrow> C t \<and> I t | (Inl e, t) \<Rightarrow> e = Interrupted \<and> \<not> calm env \<and> I t"
    using assms(1) [unfolded safe_step_def, rule_format, OF \<open>A s\<close>] t
      assms(2) [unfolded safe_step_def, rule_format, of t]
    by (cases r) (auto simp: abind_def)
qed

lemma safe_os_step:
  assumes "\<And>s n. A s \<Longrightarrow> B ((eff s)\<lparr>atick := n\<rparr>)" and "\<And>s n. A s \<Longrightarrow> I ((eff s)\<lparr>atick := n\<rparr>)"
    and "\<And>s n. A s \<Longrightarrow> I ((torn s)\<lparr>atick := n\<rparr>)" and "\<And>s n. A s \<Longrightarrow> I (s\<lparr>atick := n\<rparr>)"
  shows "safe_step env A (os_step env eff torn) B I"
  using assms by (auto simp: safe_step_def os_step_def dest: disturbed split: mishap.splits)

lemma safe_return: "(\<And>s. A s \<Longrightarrow> B s \<and> I s) \<Longrightarrow> safe_step env A (areturn x) B I"
  by (simp add: safe_step_def)

lemma safe_weaken:
  "safe_step env A m B I \<Longrightarrow> (\<And>s. A' s \<Longrightarrow> A s) \<Longrightarrow> (\<And>s. B s \<Longrightarrow> B' s) \<Longrightarrow> safe_step env A' m B' I"
  unfolding safe_step_def by (fastforce split: prod.splits sum.splits)

lemma safe_check_sha:
  assumes "\<And>s. A s \<Longrightarrow> \<exists>c. stored s p = Some c \<and> digest env c = it_sha it"
    and "\<And>s n. A s \<Longrightarrow> A (s\<lparr>atick := n\<rparr>)" and "\<And>s. A s \<Longrightarrow> I s"
  shows "safe_step env A (check_sha env it p h) A I"
  unfolding safe_step_def
proof (intro allI impI)
  fix s assume A: "A s"
  obtain c where c: "stored s p = Some c" "digest env c = it_sha it" using assms(1) [OF A] by blast
  have "A (s\<lparr>atick := Suc (atick s)\<rparr>)" using assms(2) A by blast
  then show "case check_sha env it p h s of (Inr x, t) \<Rightarrow> A t \<and> I t
      | (Inl e, t) \<Rightarrow> e = Interrupted \<and> \<not> calm env \<and> I t"
    using c assms(3) by (auto simp: check_sha_def sha_file_def reading_ok_def os_step_def abind_def
        dest: disturbed split: mishap.splits)
qed

definition on_course :: "jkey \<Rightarrow> item list \<Rightarrow> (path \<Rightarrow> content option) \<Rightarrow> item set \<Rightarrow> archive \<Rightarrow> bool" where
  "on_course k its f M s = (progress k its f s \<and> (\<forall>it \<in> M. moved s it))"

lemma on_course_tick [simp]: "on_course k its f M (s\<lparr>atick := n\<rparr>) = on_course k its f M s"
  by (simp add: on_course_def)

lemma set_completed_append:
  "set (completed_paths (append_line p l)) \<subseteq> insert p (set (completed_paths l))"
  "set (completed_paths (torn_line w p l)) \<subseteq> insert p (set (completed_paths l))"
  by (auto simp: completed_paths_def append_line_def torn_line_def split: tail.splits)

lemma on_course_log:
  assumes "ready dg its f" and "it \<in> set its" and "on_course k its f M s" and "moved s it"
    and "set (completed_paths (g (clogs s k))) \<subseteq> insert (it_dst it) (set (completed_paths (clogs s k)))"
  shows "on_course k its f M (on_log k g s)" and "moved (on_log k g s) it"
proof -
  have st: "stored (on_log k g s) = stored s" and mv: "moved (on_log k g s) = moved s"
    by (simp_all add: on_log_def moved_def fun_eq_iff)
  have "moved s x" if x: "x \<in> set its" "it_dst x \<in> set (completed_paths (g (clogs s k)))" for x
  proof (cases "it_dst x = it_dst it")
    case True
    then have "it_src x = it_src it" using assms(1,2) x(1) by (auto simp: ready_def)
    then show ?thesis using assms(4) by (simp add: moved_def)
  next
    case False
    then show ?thesis using assms(3,5) x by (auto simp: on_course_def progress_def)
  qed
  then show "on_course k its f M (on_log k g s)"
    using assms(3) by (simp add: on_course_def progress_def st mv) (simp add: on_log_def)
  show "moved (on_log k g s) it" using assms(4) by (simp add: mv)
qed

lemma safe_append:
  assumes "ready dg its f" and "it \<in> set its"
  shows "safe_step env (\<lambda>s. on_course k its f M s \<and> moved s it) (append_completion env k it)
    (\<lambda>s. moved s it) (on_course k its f M)"
proof -
  have "safe_step env (\<lambda>s. on_course k its f M s \<and> moved s it)
      (os_step env (on_log k (append_line (it_dst it))) (on_log k (torn_line w (it_dst it))))
      (\<lambda>s. moved s it) (on_course k its f M)" for w
    by (rule safe_os_step) (auto intro!: on_course_log [OF assms] set_completed_append)
  then show ?thesis by (simp add: safe_step_def append_completion_def)
qed

lemma ready_apart:
  assumes "ready dg its f" and "a \<in> set its" and "b \<in> set its"
  shows "it_src a \<noteq> it_dst b"
  using assms unfolding ready_def by (metis option.distinct(1))

lemma on_course_rename:
  assumes "ready dg its f" and "it \<in> set its" and "M \<subseteq> set its"
    and "on_course k its f M s" and "\<not> moved s it"
  shows "on_course k its f M (rename_file (it_src it) (it_dst it) s)"
    and "moved (rename_file (it_src it) (it_dst it) s) it"
proof -
  let ?t = "rename_file (it_src it) (it_dst it) s"
  obtain c where c: "stored s (it_src it) = Some c" using assms(5) by (auto simp: moved_def)
  then have cf: "f (it_src it) = Some c" using assms(2,4) by (auto simp: on_course_def progress_def)
  have st: "stored ?t = (stored s)(it_src it := None, it_dst it := Some c)"
    using c by (simp add: stored_rename)
  have log: "clogs ?t = clogs s" by (simp add: rename_file_def split: option.splits)
  have ap: "it_src x \<noteq> it_dst it" "it_dst x \<noteq> it_src it" "it_src x = it_src it \<longleftrightarrow> it_dst x = it_dst it"
    if "x \<in> set its" for x
    using ready_apart [OF assms(1)] assms(1,2) that by (auto simp: ready_def) metis+
  have keep: "moved ?t x" if "moved s x" "x \<in> set its" for x
    using that ap [OF that(2)] by (auto simp: moved_def st)
  have "stored ?t (it_src x) = f (it_src x) \<and> stored ?t (it_dst x) = None \<or>
      stored ?t (it_src x) = None \<and> stored ?t (it_dst x) = f (it_src x)" if x: "x \<in> set its" for x
  proof (cases "it_src x = it_src it")
    case True
    then show ?thesis using ap [OF x] ap [OF assms(2)] cf by (simp add: st)
  next
    case False
    then show ?thesis using ap [OF x] x assms(4) by (auto simp: st on_course_def progress_def)
  qed
  moreover have "stored ?t p = f p" if "p \<notin> it_src ` set its" "p \<notin> it_dst ` set its" for p
  proof -
    have "p \<noteq> it_src it" "p \<noteq> it_dst it" using that assms(2) by auto
    then show ?thesis using that assms(4) by (simp add: st on_course_def progress_def)
  qed
  ultimately show "on_course k its f M ?t"
    using keep assms(3,4) log by (auto simp: on_course_def progress_def)
  show "moved ?t it" using ap [OF assms(2)] by (simp add: moved_def st)
qed

lemma safe_move_item:
  assumes "ready (digest env) its f" and "it \<in> set its" and "M \<subseteq> set its"
  shows "safe_step env (on_course k its f M) (move_item env k it) (\<lambda>s. moved s it) (on_course k its f M)"
proof -
  let ?src = "it_src it" and ?dst = "it_dst it" and ?C = "on_course k its f M"
  obtain c where c: "f ?src = Some c" "digest env c = it_sha it" "f ?dst = None"
    using assms(1,2) by (auto simp: ready_def)
  have here: "stored s ?src = Some c \<and> stored s ?dst = None \<or> stored s ?src = None \<and> stored s ?dst = Some c"
    if "?C s" for s using that assms(2) c by (auto simp: on_course_def progress_def)
  have at: "?C s \<Longrightarrow> moved s it \<Longrightarrow> stored s ?dst = Some c" "?C s \<Longrightarrow> \<not> moved s it \<Longrightarrow> stored s ?src = Some c" for s
    using here [of s] by (auto simp: moved_def)
  let ?tail = "\<lambda>h. abind (check_sha env it ?dst h) (\<lambda>_. append_completion env k it)"
  have tail: "safe_step env (\<lambda>s. ?C s \<and> moved s it) (?tail h) (\<lambda>s. moved s it) ?C" for h
  proof (rule safe_abind)
    show "safe_step env (\<lambda>s. ?C s \<and> moved s it) (check_sha env it ?dst h) (\<lambda>s. ?C s \<and> moved s it) ?C"
      using c by (intro safe_check_sha) (auto simp: at)
    show "safe_step env (\<lambda>s. (?C s \<and> moved s it) \<and> ?C s) (append_completion env k it) (\<lambda>s. moved s it) ?C"
      for x :: unit using safe_append [OF assms(1,2)] by (rule safe_weaken) auto
  qed
  have ren: "safe_step env (\<lambda>s. ?C s \<and> \<not> moved s it) (rename_step env ?src ?dst) (\<lambda>s. ?C s \<and> moved s it) ?C"
    unfolding rename_step_def
    by (rule safe_os_step) (auto intro!: on_course_rename [OF assms])
  have whole: "safe_step env (\<lambda>s. ?C s \<and> \<not> moved s it) (abind (check_sha env it ?src h) (\<lambda>_.
      abind (reading_ok env) (\<lambda>_. abind (rename_step env ?src ?dst) (\<lambda>_. ?tail h')))) (\<lambda>s. moved s it) ?C" for h h'
  proof (intro safe_abind)
    show "safe_step env (\<lambda>s. ?C s \<and> \<not> moved s it) (check_sha env it ?src h) (\<lambda>s. ?C s \<and> \<not> moved s it) ?C"
      using c by (intro safe_check_sha) (auto simp: at)
    show "safe_step env (\<lambda>s. (?C s \<and> \<not> moved s it) \<and> ?C s) (reading_ok env) (\<lambda>s. ?C s \<and> \<not> moved s it) ?C"
      for x :: unit unfolding reading_ok_def by (rule safe_os_step) auto
    show "safe_step env (\<lambda>s. (?C s \<and> \<not> moved s it) \<and> ?C s) (rename_step env ?src ?dst) (\<lambda>s. ?C s \<and> moved s it) ?C"
      for x y :: unit using ren by (rule safe_weaken) auto
    show "safe_step env (\<lambda>s. (?C s \<and> moved s it) \<and> ?C s) (check_sha env it ?dst h') (\<lambda>s. ?C s \<and> moved s it) ?C"
      for x y z :: unit
      by (rule safe_weaken [of _ "\<lambda>s. ?C s \<and> moved s it"], rule safe_check_sha) (use c in \<open>auto simp: at\<close>)
    show "safe_step env (\<lambda>s. (?C s \<and> moved s it) \<and> ?C s) (append_completion env k it) (\<lambda>s. moved s it) ?C"
      for x y z u :: unit using safe_append [OF assms(1,2)] by (rule safe_weaken) auto
  qed
  show ?thesis
    unfolding safe_step_def
  proof (intro allI impI)
    fix s assume C: "?C s"
    show "case move_item env k it s of (Inr x, t) \<Rightarrow> moved t it \<and> ?C t
        | (Inl e, t) \<Rightarrow> e = Interrupted \<and> \<not> calm env \<and> ?C t"
    proof (cases "moved s it")
      case True
      then have "move_item env k it s = ?tail (HashMismatchRecovery ?dst) s"
        using here [OF C] by (auto simp: move_item_def Let_def moved_def)
      then show ?thesis using tail [of "HashMismatchRecovery ?dst", unfolded safe_step_def, rule_format, of s] C True by simp
    next
      case False
      then have "move_item env k it s = abind (check_sha env it ?src (SourceDrift ?src)) (\<lambda>_.
          abind (reading_ok env) (\<lambda>_. abind (rename_step env ?src ?dst) (\<lambda>_. ?tail (PostMoveMismatch ?dst)))) s"
        using here [OF C] by (auto simp: move_item_def Let_def moved_def)
      then show ?thesis using whole [of "SourceDrift ?src" "PostMoveMismatch ?dst", unfolded safe_step_def, rule_format, of s] C False
        by simp
    qed
  qed
qed

lemma safe_move_items:
  assumes "ready (digest env) its f" and "set its' \<subseteq> set its" and "M \<subseteq> set its"
    and "\<And>s it. on_course k its f M s \<Longrightarrow> it \<in> set its \<Longrightarrow> it_dst it \<in> set done \<Longrightarrow> moved s it"
  shows "safe_step env (on_course k its f M) (move_items env k done its')
    (on_course k its f (M \<union> set its')) (on_course k its f M)"
  using assms(2-)
proof (induction its' arbitrary: M)
  case Nil
  show ?case unfolding move_items.simps by (rule safe_return) simp
next
  case (Cons it its')
  have it: "it \<in> set its" "set its' \<subseteq> set its" using Cons.prems(1) by auto
  show ?case
  proof (cases "it_dst it \<in> set done")
    case True
    have "safe_step env (on_course k its f M) (move_items env k done its')
        (on_course k its f (M \<union> set its')) (on_course k its f M)"
      using it(2) Cons.prems(2,3) by (rule Cons.IH)
    then show ?thesis using True Cons.prems(3) [OF _ it(1) True]
      by (auto simp: safe_step_def on_course_def split: prod.splits sum.splits)
        (metis (no_types, lifting) Cons.prems(3) Un_iff it(1) on_course_def True)+
  next
    case False
    have rest: "safe_step env (on_course k its f (insert it M)) (move_items env k done its')
        (on_course k its f (insert it M \<union> set its')) (on_course k its f (insert it M))"
    proof (rule Cons.IH [OF it(2)])
      show "insert it M \<subseteq> set its" using it(1) Cons.prems(2) by auto
      show "moved s x" if "on_course k its f (insert it M) s" "x \<in> set its" "it_dst x \<in> set done" for s x
        using that Cons.prems(3) by (auto simp: on_course_def)
    qed
    have "safe_step env (on_course k its f M) (abind (move_item env k it) (\<lambda>_. move_items env k done its'))
        (on_course k its f (M \<union> set (it # its'))) (on_course k its f M)"
    proof (rule safe_abind)
      show "safe_step env (on_course k its f M) (move_item env k it) (\<lambda>s. moved s it) (on_course k its f M)"
        using assms(1) it(1) Cons.prems(2) by (rule safe_move_item)
      show "safe_step env (\<lambda>s. moved s it \<and> on_course k its f M s) (move_items env k done its')
          (on_course k its f (M \<union> set (it # its'))) (on_course k its f M)" for x :: unit
        using rest by (auto simp: safe_step_def on_course_def split: prod.splits sum.splits) blast+
    qed
    then show ?thesis using False by simp
  qed
qed

lemma safe_execute:
  assumes "ready (digest env) (j_planned j) f"
  shows "safe_step env (progress k (j_planned j) f) (execute_journal env k j)
    (\<lambda>s. \<forall>it \<in> set (j_planned j). moved s it) (progress k (j_planned j) f)"
  unfolding safe_step_def
proof (intro allI impI)
  fix s assume s: "progress k (j_planned j) f s"
  let ?its = "j_planned j" and ?done = "completed_paths (clogs s k)"
  let ?M = "{it \<in> set ?its. it_dst it \<in> set ?done}"
  let ?s = "s\<lparr>atick := Suc (atick s)\<rparr>"
  have on: "on_course k ?its f ?M ?s" using s by (auto simp: on_course_def progress_def)
  have "safe_step env (on_course k ?its f ?M) (move_items env k ?done ?its)
      (on_course k ?its f (?M \<union> set ?its)) (on_course k ?its f ?M)"
    using assms by (rule safe_move_items) (auto simp: on_course_def)
  from this [unfolded safe_step_def, rule_format, OF on]
  show "case execute_journal env k j s of
      (Inr x, t) \<Rightarrow> (\<forall>it \<in> set ?its. moved t it) \<and> progress k ?its f t
    | (Inl e, t) \<Rightarrow> e = Interrupted \<and> \<not> calm env \<and> progress k ?its f t"
    using s
    by (auto simp: execute_journal_def completed_rel_paths_def aget_def reading_ok_def os_step_def abind_def
        on_course_def dest: disturbed split: mishap.splits sum.splits prod.splits)
qed

section \<open>The index\<close>

definition add_paths :: "path list \<Rightarrow> path list \<Rightarrow> path list" where
  "add_paths ps qs = foldl (\<lambda>ps q. if q \<in> set ps then ps else ps @ [q]) ps qs"

lemma add_paths_simps [simp]:
  "add_paths ps [] = ps"
  "add_paths ps (q # qs) = add_paths (if q \<in> set ps then ps else ps @ [q]) qs"
  by (simp_all add: add_paths_def)

lemma set_add_paths [simp]: "set (add_paths ps qs) = set ps \<union> set qs"
  by (induction qs arbitrary: ps) auto

lemma add_paths_known: "set qs \<subseteq> set ps \<Longrightarrow> add_paths ps qs = ps"
  by (induction qs) auto

lemma add_paths_new: "distinct qs \<Longrightarrow> set ps \<inter> set qs = {} \<Longrightarrow> add_paths ps qs = ps @ qs"
  by (induction qs arbitrary: ps) auto

definition merged_entry :: "(string \<times> path list) option \<Rightarrow> (string \<times> path) list \<Rightarrow> (string \<times> path list) option" where
  "merged_entry e rs =
     (case rs of [] \<Rightarrow> e
      | (ty, _) # _ \<Rightarrow> (case e of None \<Rightarrow> Some (ty, add_paths [] (map snd rs))
          | Some (ty', ps) \<Rightarrow> Some (ty', add_paths ps (map snd rs))))"

definition rows_for :: "string \<Rightarrow> row list \<Rightarrow> (string \<times> path) list" where
  "rows_for rid rs = map (\<lambda>r. (r_type r, r_archived r)) (filter (\<lambda>r. r_id r = rid) rs)"

lemma map_of_merge_row:
  "map_of (merge_row r idx) rid =
     (if r_id r = rid then merged_entry (map_of idx rid) [(r_type r, r_archived r)] else map_of idx rid)"
  by (auto simp: merge_row_def Let_def merged_entry_def update_conv' split: option.splits prod.splits)

lemma merged_entry_twice:
  "merged_entry (merged_entry e [x]) xs = merged_entry e (x # xs)"
  by (cases x; cases xs; cases e) (auto simp: merged_entry_def split: option.splits)

lemma map_of_merge:
  "map_of (merge_manifest_into_index idx mf) rid = merged_entry (map_of idx rid) (rows_for rid (mf_rows mf))"
proof -
  have "map_of (foldl (\<lambda>i r. merge_row r i) idx rs) rid = merged_entry (map_of idx rid) (rows_for rid rs)" for rs
  proof (induction rs arbitrary: idx)
    case (Cons r rs)
    then show ?case by (simp add: map_of_merge_row rows_for_def merged_entry_twice)
  qed (simp add: rows_for_def merged_entry_def)
  then show ?thesis by (simp add: merge_manifest_into_index_def)
qed

text \<open>What the index says of an id of the journal once its manifest is merged.\<close>

definition journal_rows :: "journal \<Rightarrow> string \<Rightarrow> (string \<times> path) list" where
  "journal_rows j rid = map (\<lambda>it. (it_type it, it_dst it)) (filter (\<lambda>it. it_id it = rid) (j_planned j))"

definition journal_entry :: "journal \<Rightarrow> string \<Rightarrow> (string \<times> path list) option" where
  "journal_entry j rid = merged_entry None (journal_rows j rid)"

lemma merged_entry_again: "merged_entry (merged_entry None rs) rs = merged_entry None rs"
proof -
  have "add_paths (add_paths [x] qs) qs = add_paths [x] qs" for x qs
    by (rule add_paths_known) auto
  then show ?thesis by (cases rs) (auto simp: merged_entry_def split: prod.splits)
qed

lemma rows_for_row_of: "rows_for rid (map (row_of root) its) =
    map (\<lambda>it. (it_type it, it_dst it)) (filter (\<lambda>it. it_id it = rid) its)"
  by (induction its) (auto simp: rows_for_def row_of_def)

lemma map_of_merge_journal:
  assumes "map_of idx rid \<in> {None, journal_entry j rid}" and "mf_rows mf = map (row_of root) (j_planned j)"
  shows "map_of (merge_manifest_into_index idx mf) rid = journal_entry j rid"
  using assms by (auto simp: map_of_merge rows_for_row_of journal_entry_def journal_rows_def merged_entry_again)

section \<open>Recovery\<close>

definition ids :: "journal \<Rightarrow> string set" where
  "ids j = it_id ` set (j_planned j)"

definition archived_files :: "item list \<Rightarrow> (path \<Rightarrow> content option) \<Rightarrow> path \<Rightarrow> content option" where
  "archived_files its f p =
     (if p \<in> it_src ` set its then None
      else case List.find (\<lambda>it. it_dst it = p) its of Some it \<Rightarrow> f (it_src it) | None \<Rightarrow> f p)"

text \<open>A journal that is still pending and one that has been carried out.\<close>

definition working :: "jkey \<Rightarrow> journal \<Rightarrow> (path \<Rightarrow> content option) \<Rightarrow> archive \<Rightarrow> bool" where
  "working k j f s =
     (pend s = [(k, Some j)] \<and> progress k (j_planned j) f s \<and>
      (\<forall>rid \<in> ids j. map_of (read_index s) rid \<in> {None, journal_entry j rid}))"

definition traced :: "jkey \<Rightarrow> journal \<Rightarrow> archive \<Rightarrow> bool" where
  "traced k j s =
     (\<exists>mf root. entry k (manifests s) = Some mf \<and> mf_plan_hash mf = j_plan_hash j \<and>
        mf_approval mf = j_approval j \<and> mf_message mf = j_message j \<and>
        mf_rows mf = map (row_of root) (j_planned j))"

definition finished :: "jkey \<Rightarrow> journal \<Rightarrow> (path \<Rightarrow> content option) \<Rightarrow> archive \<Rightarrow> bool" where
  "finished k j f s =
     (pend s = [] \<and> stored s = archived_files (j_planned j) f \<and> traced k j s \<and>
      (\<forall>rid \<in> ids j. map_of (read_index s) rid = journal_entry j rid))"

lemma all_moved:
  assumes "ready dg its f" and "progress k its f s" and "\<forall>it \<in> set its. moved s it"
  shows "stored s = archived_files its f"
proof
  fix p
  consider it where "it \<in> set its" "it_src it = p"
    | it where "p \<notin> it_src ` set its" "List.find (\<lambda>it. it_dst it = p) its = Some it"
    | "p \<notin> it_src ` set its" "List.find (\<lambda>it. it_dst it = p) its = None" by (metis image_iff option.exhaust)
  then show "stored s p = archived_files its f p"
  proof cases
    case (1 it)
    then have "p \<in> it_src ` set its" by auto
    then show ?thesis using 1 assms(3) by (auto simp: archived_files_def moved_def)
  next
    case (2 it)
    then have "it \<in> set its" "it_dst it = p" by (auto simp: find_Some_iff)
    moreover obtain c where "f (it_src it) = Some c" using assms(1) calculation(1) by (auto simp: ready_def)
    ultimately show ?thesis using 2 assms(2,3) by (auto simp: archived_files_def moved_def progress_def)
  next
    case 3
    then have "p \<notin> it_dst ` set its" by (auto simp: find_None_iff)
    then show ?thesis using 3 assms(2) by (simp add: archived_files_def progress_def)
  qed
qed

lemma merge_index_safe:
  assumes "\<And>s n. A s \<Longrightarrow> A (s\<lparr>atick := n\<rparr>)" and "\<And>s. A s \<Longrightarrow> I s"
    and "\<And>s n idx. A s \<Longrightarrow> idx \<in> {[], read_index s} \<Longrightarrow>
      B (s\<lparr>index := Some (merge_manifest_into_index idx mf), atick := n\<rparr>) \<and>
      I (s\<lparr>index := Some (merge_manifest_into_index idx mf), atick := n\<rparr>)"
  shows "safe_step env A (merge_index env mf) B I"
  unfolding safe_step_def
proof (intro allI impI)
  fix s assume A: "A s"
  have w: "case atomic_write env (\<lambda>s. s\<lparr>index := Some (merge_manifest_into_index idx mf)\<rparr>) (s\<lparr>atick := n\<rparr>) of
      (Inr x, t) \<Rightarrow> B t \<and> I t | (Inl e, t) \<Rightarrow> e = Interrupted \<and> \<not> calm env \<and> I t"
    if "idx \<in> {[], read_index s}" for idx n
    using assms(1) [OF A] assms(2) assms(3) [OF A that]
    by (auto simp: atomic_write_def os_step_def dest: disturbed split: mishap.splits)
  have "I (s\<lparr>atick := Suc (atick s)\<rparr>)" using assms(1,2) A by blast
  then show "case merge_index env mf s of (Inr x, t) \<Rightarrow> B t \<and> I t
      | (Inl e, t) \<Rightarrow> e = Interrupted \<and> \<not> calm env \<and> I t"
    using w [of "read_index s"] w [of "[]"]
    by (auto simp: merge_index_def read_json_def abind_def read_index_def dest: disturbed
        split: mishap.splits option.splits)
qed

lemma working_tick [simp]: "working k j f (s\<lparr>atick := n\<rparr>) = working k j f s"
  "working k j f (s\<lparr>manifests := m\<rparr>) = working k j f s"
  by (simp_all add: working_def progress_def moved_def read_index_def)

lemma finished_tick [simp]: "finished k j f (s\<lparr>atick := n\<rparr>) = finished k j f s"
  by (simp add: finished_def read_index_def traced_def)

text \<open>Publishing a journal whose files have all been moved.\<close>

lemma safe_publish:
  assumes "ready dg (j_planned j) f" and "mf_rows mf = map (row_of root) (j_planned j)"
    and "mf_plan_hash mf = j_plan_hash j" "mf_approval mf = j_approval j" "mf_message mf = j_message j"
  shows "safe_step env (\<lambda>s. working k j f s \<and> (\<forall>it \<in> set (j_planned j). moved s it)) (publish env k j mf)
    (finished k j f) (\<lambda>s. working k j f s \<or> finished k j f s)"
proof -
  let ?moved = "\<lambda>s. \<forall>it \<in> set (j_planned j). moved s it"
  let ?I = "\<lambda>s. working k j f s \<or> finished k j f s"
  let ?A = "\<lambda>s. working k j f s \<and> ?moved s"
  let ?B = "\<lambda>s. ?A s \<and> entry k (manifests s) = Some mf"
  let ?C = "\<lambda>s. ?B s \<and> (\<forall>rid \<in> ids j. map_of (read_index s) rid = journal_entry j rid)"
  have 1: "safe_step env ?A (atomic_write env (\<lambda>s. s\<lparr>manifests := AList.update k (Some mf) (manifests s)\<rparr>)) ?B ?I"
    unfolding atomic_write_def by (rule safe_os_step) (auto simp: entry_def update_conv')
  have 2: "safe_step env (\<lambda>s. ?B s \<and> ?I s) (merge_index env mf) ?C ?I" (is "safe_step env ?B' _ _ _")
  proof (rule merge_index_safe)
    fix s n idx
    assume s: "?B' s" "idx \<in> {[], read_index s}"
    let ?t = "s\<lparr>index := Some (merge_manifest_into_index idx mf), atick := n\<rparr>"
    have "map_of (read_index ?t) rid = journal_entry j rid" if "rid \<in> ids j" for rid
      using map_of_merge_journal [OF _ assms(2), of idx rid] s that by (auto simp: read_index_def working_def)
    then have "?C ?t" using s by (auto simp: working_def progress_def)
    then show "?C ?t \<and> ?I ?t" by blast
  qed auto
  have fin: "finished k j f (s\<lparr>pend := AList.delete k (pend s), completed := c, atick := n\<rparr>)" if "?C s" for s c n
  proof -
    have "stored s = archived_files (j_planned j) f"
      using that by (intro all_moved [OF assms(1), of k]) (auto simp: working_def)
    then show ?thesis using that assms(2-) by (auto simp: finished_def working_def read_index_def traced_def)
  qed
  have 3: "safe_step env (\<lambda>s. ?C s \<and> ?I s) (os_step env (\<lambda>s. s\<lparr>pend := AList.delete k (pend s),
      completed := AList.update k (Some j) (completed s)\<rparr>) (\<lambda>s. s)) (finished k j f) ?I"
    by (rule safe_os_step) (use fin in \<open>auto\<close>)
  show ?thesis
    unfolding publish_def
    by (rule safe_abind [OF 1], rule safe_abind [OF 2], rule safe_abind [OF 3], rule safe_return) auto
qed

text \<open>The moves and the publication of a journal, under an approval with the journal's lineage.\<close>

definition same_lineage :: "journal \<Rightarrow> jobj \<Rightarrow> bool" where
  "same_lineage j a = (jget a ''approved_plan_sha256'' = j_plan_hash j \<and> jget a ''approval_id'' = j_approval j \<and>
     jget a ''operator_message_id'' = j_message j)"

lemma safe_carry_out:
  assumes "ready (digest env) (j_planned j) f" and "working k j f s" and "same_lineage j a"
  shows "case abind (execute_journal env k j) (\<lambda>_. finalize_journal env k j a) s of (Inr _, t) \<Rightarrow> finished k j f t
    | (Inl e, t) \<Rightarrow> e = Interrupted \<and> \<not> calm env \<and> (working k j f t \<or> finished k j f t)"
proof -
  obtain r t where t: "execute_journal env k j s = (r, t)" by fastforce
  have "unchanged (\<lambda>s. (pend s, index s)) (execute_journal env k j)" by (intro unch) simp_all
  then have same: "pend t = pend s" "read_index t = read_index s"
    using t by (auto simp: unchanged_def read_index_def) (metis prod.inject snd_conv)+
  have ex: "case r of Inr _ \<Rightarrow> (\<forall>it \<in> set (j_planned j). moved t it) \<and> progress k (j_planned j) f t
      | Inl e \<Rightarrow> e = Interrupted \<and> \<not> calm env \<and> progress k (j_planned j) f t"
    using safe_execute [OF assms(1), of k, unfolded safe_step_def, rule_format, of s] assms(2) t
    by (cases r) (auto simp: working_def)
  then have w: "working k j f t" using assms(2) same by (cases r) (auto simp: working_def)
  define mf where "mf = build_manifest (ae_root env) (now_iso env (atick t)) j a"
  have fields: "mf_rows mf = map (row_of (ae_root env)) (j_planned j)" "mf_plan_hash mf = j_plan_hash j"
    "mf_approval mf = j_approval j" "mf_message mf = j_message j"
    using assms(3) by (simp_all add: mf_def build_manifest_def same_lineage_def)
  have "safe_step env (\<lambda>s. working k j f s \<and> (\<forall>it \<in> set (j_planned j). moved s it)) (publish env k j mf)
      (finished k j f) (\<lambda>s. working k j f s \<or> finished k j f s)"
    using assms(1) fields by (rule safe_publish)
  from this [unfolded safe_step_def, rule_format, of t]
  show ?thesis using ex w t
    by (cases r) (auto simp: abind_def finalize_journal_def mf_def [symmetric] split: prod.splits sum.splits)
qed

lemma safe_resume:
  assumes "ready (digest env) (j_planned j) f" and "working k j f s"
  shows "case resume env k j s of (Inr r, t) \<Rightarrow> r = Completed (j_opid j) \<and> finished k j f t
    | (Inl e, t) \<Rightarrow> e = Interrupted \<and> \<not> calm env \<and> (working k j f t \<or> finished k j f t)"
proof -
  have "same_lineage j (lineage j)" by (simp add: same_lineage_def lineage_def py_simps)
  from safe_carry_out [OF assms this] show ?thesis
    by (auto simp: resume_def split: prod.splits sum.splits)
qed

text \<open>Attempts to carry out one journal: resumed runs and recoveries, with any hazards.\<close>

inductive attempt :: "(content \<Rightarrow> string) \<Rightarrow> jkey \<Rightarrow> journal \<Rightarrow> archive \<Rightarrow> archive \<Rightarrow> bool"
  for dg :: "content \<Rightarrow> string" and k :: jkey and j :: journal where
  run: "digest env = dg \<Longrightarrow> entry k (pend s) = Some j \<Longrightarrow> attempt dg k j s (snd (resume env k j s))"
| recover: "digest env = dg \<Longrightarrow> attempt dg k j s (snd (recover_pending env s))"

lemma sorted_single [simp]: "sorted_entries kind [(k, x)] = [k]" "sorted_entries kind [] = []"
  by (simp_all add: sorted_entries_def)

lemma recover_working:
  assumes "ready (digest env) (j_planned j) f" and "working k j f s"
  shows "working k j f (snd (recover_pending env s)) \<or> finished k j f (snd (recover_pending env s))"
    and "calm env \<Longrightarrow> \<exists>t. recover_pending env s = (Inr [Completed (j_opid j)], t) \<and> finished k j f t"
proof -
  let ?s = "s\<lparr>atick := Suc (atick s)\<rparr>"
  have p: "pend s = [(k, Some j)]" using assms(2) by (simp add: working_def)
  have r: "case resume env k j ?s of (Inr r, t) \<Rightarrow> r = Completed (j_opid j) \<and> finished k j f t
    | (Inl e, t) \<Rightarrow> e = Interrupted \<and> \<not> calm env \<and> (working k j f t \<or> finished k j f t)"
    using assms by (intro safe_resume) simp_all
  show "working k j f (snd (recover_pending env s)) \<or> finished k j f (snd (recover_pending env s))"
    using r assms(2) p
    by (auto simp: recover_pending_def read_json_def abind_def entry_def split: mishap.splits sum.splits prod.splits)
  show "\<exists>t. recover_pending env s = (Inr [Completed (j_opid j)], t) \<and> finished k j f t" if "calm env"
    using r that p by (auto simp: recover_pending_def read_json_def abind_def entry_def calm_def
        split: mishap.splits sum.splits prod.splits)
qed

lemma recover_finished: "finished k j f s \<Longrightarrow> recover_pending env s = (Inr [], s)"
  by (simp add: recover_pending_def finished_def)

lemma attempt_keeps:
  assumes "ready dg (j_planned j) f" and "attempt dg k j s t" and "working k j f s \<or> finished k j f s"
  shows "working k j f t \<or> finished k j f t"
  using assms(2)
proof cases
  case (run env)
  then have "working k j f s" using assms(3) by (auto simp: finished_def entry_def)
  then show ?thesis using safe_resume [of env j f k s] assms(1) run by (auto split: prod.splits sum.splits)
next
  case (recover env)
  then show ?thesis using recover_working(1) recover_finished assms(1,3) by (metis snd_conv)
qed

interpretation attempts: kept_by_steps "attempt dg k j"
    "\<lambda>s. ready dg (j_planned j) f \<longrightarrow> working k j f s \<or> finished k j f s" for dg k j f
  by unfold_locales (use attempt_keeps in blast)

text \<open>A freshly written journal.\<close>

definition fresh :: "jkey \<Rightarrow> journal \<Rightarrow> archive \<Rightarrow> bool" where
  "fresh k j s =
     (pend s = [(k, Some j)] \<and> completed_paths (clogs s k) = [] \<and>
      (\<forall>rid \<in> ids j. resolve_archived s rid = None))"

lemma fresh_working: "fresh k j s \<Longrightarrow> ready dg (j_planned j) (stored s) \<Longrightarrow> working k j (stored s) s"
  by (auto simp: fresh_def working_def progress_def ready_def resolve_archived_def)

end
