(* ===== verification/Archive_Safety.thy ===== *)
theory Archive_Safety
  imports Archive_Recovery
begin

text \<open>
  The properties of the archive: it refines atomic verified moves, loses no content, is completed by
  recovery after any interruptions, and what it archived under a thread reads back.
\<close>


text \<open>A small archive: one message file of thread \<open>t1\<close>.\<close>

definition demo_message :: jobj where
  "demo_message = [(''message_id'', JStr ''m1''), (''thread_id'', JStr ''t1''), (''at'', JStr ''2026-01-01'')]"

definition demo_item :: item where
  "demo_item = \<lparr>it_id = ''t1'', it_type = ''thread'', it_src = [''q'', ''communications'', ''m1.json''],
     it_dst = [''archive'', ''2026-02'', ''communications'', ''m1.json''], it_sha = ''h''\<rparr>"

definition demo_journal :: journal where
  "demo_journal = \<lparr>j_opid = ''op'', j_created = ''now'', j_plan_hash = JStr ''p'', j_approval = JStr ''a'',
     j_message = JStr ''msg'', j_planned = [demo_item]\<rparr>"

definition demo_key :: jkey where "demo_key = (''2026-02'', ''op'')"

definition demo_state :: archive where
  "demo_state = \<lparr>data = [(it_src demo_item, Doc (JObj demo_message))], pend = [(demo_key, Some demo_journal)],
     completed = [], clogs = (\<lambda>_. \<lparr>logged = [], tail = NoTail\<rparr>), manifests = [], index = None, atick = 0\<rparr>"

definition demo_env :: "mishap \<Rightarrow> aenv" where
  "demo_env h = \<lparr>ae_root = [''q''], hazard = (\<lambda>n. if n = 5 then h else Fine), whole_line = (\<lambda>_. True),
     digest = (\<lambda>_. ''h''), now_iso = (\<lambda>_. ''now'')\<rparr>"


text \<open>C36: No sequence of archive operations, however interrupted, loses, duplicates or changes the content of
  a record file: the stored contents are the same with the same multiplicities.\<close>

theorem archive_loses_no_content:
  assumes "(archive_step dg)\<^sup>*\<^sup>* s t"
  shows "contents (stored t) = contents (stored s)"
  using assms by (rule archive_run_contents)

theorem archive_loses_no_content_witness:
  "contents (stored (snd (recover_pending (demo_env Tears) demo_state))) = contents (stored demo_state)"
  by (rule archive_loses_no_content [of "\<lambda>_. ''h''"], rule r_into_rtranclp, rule archive_step.recover)
    (simp add: demo_env_def)

text \<open>C35: An archive run that was interrupted any number of times, at any operation, even between a rename and
  its log line or inside the line, is completed by one undisturbed recovery: no journal stays pending,
  exactly the planned files have moved to their destinations, the manifest names every planned move with
  the hash and the operator approval the journal was written under, and recovery never halts on the way.\<close>

theorem recovery_completes_archive:
  assumes "fresh k j s0" and "ready dg (j_planned j) (stored s0)" and "(attempt dg k j)\<^sup>*\<^sup>* s0 s"
    and "calm env" and "digest env = dg"
  shows "\<exists>rs t. recover_pending env s = (Inr rs, t) \<and> set rs \<subseteq> {Completed (j_opid j)} \<and> pend t = [] \<and>
    stored t = archived_files (j_planned j) (stored s0) \<and> traced k j t"
proof -
  have "working k j (stored s0) s \<or> finished k j (stored s0) s"
    using attempts.run_keeps [OF assms(3), of "stored s0"] fresh_working [OF assms(1,2)] assms(2) by blast
  then show ?thesis
  proof
    assume "working k j (stored s0) s"
    then obtain t where "recover_pending env s = (Inr [Completed (j_opid j)], t)" "finished k j (stored s0) t"
      using recover_working(2) assms(2,4,5) by blast
    then show ?thesis by (auto simp: finished_def)
  qed (auto simp: recover_finished, auto simp: finished_def)
qed

lemma demo_fresh: "fresh demo_key demo_journal demo_state"
  by (simp add: fresh_def demo_state_def completed_paths_def resolve_archived_def read_index_def)

lemma demo_ready: "ready (\<lambda>_. ''h'') (j_planned demo_journal) (stored demo_state)"
  by (simp add: ready_def demo_journal_def demo_state_def stored_def demo_item_def)

theorem recovery_completes_archive_witness:
  "\<exists>rs t. recover_pending (demo_env Fine) (snd (recover_pending (demo_env Dies) demo_state)) = (Inr rs, t) \<and>
     set rs \<subseteq> {Completed (j_opid demo_journal)} \<and> pend t = [] \<and>
     stored t = archived_files (j_planned demo_journal) (stored demo_state) \<and> traced demo_key demo_journal t"
  by (rule recovery_completes_archive [OF demo_fresh demo_ready], rule r_into_rtranclp, rule attempt.recover)
    (simp_all add: demo_env_def calm_def)

text \<open>The messages of a thread as the archive returns them.\<close>

definition at_key :: "jobj \<Rightarrow> string" where
  "at_key m = py_str (py_or (jget m ''at'') (JStr []))"

definition is_message_item :: "item \<Rightarrow> bool" where
  "is_message_item it = (''communications'' \<in> set (dirname (it_dst it)))"

definition thread_items :: "journal \<Rightarrow> string \<Rightarrow> item list" where
  "thread_items j tid = filter (\<lambda>it. it_id it = tid) (j_planned j)"

definition holds_message :: "(path \<Rightarrow> content option) \<Rightarrow> item \<Rightarrow> bool" where
  "holds_message f it = (\<exists>m. f (it_src it) = Some (Doc (JObj m)) \<and> is_str (py_or (jget m ''at'') (JStr [])))"

definition message_of :: "(path \<Rightarrow> content option) \<Rightarrow> item \<Rightarrow> jobj" where
  "message_of f it = (case f (it_src it) of Some (Doc j) \<Rightarrow> obj_of j | _ \<Rightarrow> [])"

lemma message_at: "holds_message f it \<Longrightarrow> is_str (py_or (jget (message_of f it) ''at'') (JStr []))"
  by (auto simp: holds_message_def message_of_def)

lemma archived_file_at:
  assumes "ready dg its f" and "it \<in> set its"
  shows "archived_files its f (it_dst it) = f (it_src it)"
proof -
  have "it_dst it \<notin> it_src ` set its" using ready_apart [OF assms(1)] assms(2) by fastforce
  moreover obtain x where "List.find (\<lambda>x. it_dst x = it_dst it) its = Some x"
    using assms(2) by (metis (mono_tags, lifting) find_None_iff not_Some_eq)
  moreover from this have "x \<in> set its" "it_dst x = it_dst it" by (auto simp: find_Some_iff)
  moreover from this have "it_src x = it_src it" using assms by (simp add: ready_def)
  ultimately show ?thesis by (simp add: archived_files_def)
qed

lemma map_exc_map: "(\<And>x. x \<in> set xs \<Longrightarrow> f (h x) = Inr (g x)) \<Longrightarrow> map_exc f (map h xs) = Inr (map g xs)"
  by (induction xs) auto

lemma thread_entry:
  assumes "thread_items j tid \<noteq> []" and "distinct (map it_dst (thread_items j tid))"
    and "\<And>it. it \<in> set (thread_items j tid) \<Longrightarrow> it_type it = ''thread''"
  shows "journal_entry j tid = Some (''thread'', map it_dst (thread_items j tid))"
proof -
  obtain it its where its: "thread_items j tid = it # its" using assms(1) by (cases "thread_items j tid") auto
  have "it_type it = ''thread''" using assms(3) its by simp
  moreover have "add_paths [] (map it_dst (it # its)) = map it_dst (it # its)"
    using assms(2) its by (subst add_paths_new) auto
  ultimately show ?thesis
    using its by (simp add: journal_entry_def journal_rows_def thread_items_def merged_entry_def comp_def)
qed

text \<open>C37: What was archived under a thread reads back. When a thread's files have been archived, with whatever
  interruptions on the way, reading the archived thread returns every message of the thread, each with its
  fields as they were stored before plus the mark of the archive and the archive path, in the order of
  their timestamps, and nothing else.\<close>

theorem archived_thread_reads_back:
  assumes "fresh k j s0" and "ready dg (j_planned j) (stored s0)" and "(attempt dg k j)\<^sup>*\<^sup>* s0 t"
    and "pend t = []" and "thread_items j tid \<noteq> []" and "distinct (map it_dst (thread_items j tid))"
    and "\<And>it. it \<in> set (thread_items j tid) \<Longrightarrow> it_type it = ''thread''"
    and "\<And>it. it \<in> set (thread_items j tid) \<Longrightarrow> is_message_item it \<Longrightarrow> holds_message (stored s0) it"
  shows "read_archived_messages t tid =
    Inr (sort_key at_key (map (\<lambda>it. archived_copy (it_dst it) (message_of (stored s0) it))
      (filter is_message_item (thread_items j tid))))"
proof -
  let ?its = "thread_items j tid" and ?f = "stored s0"
  let ?msg = "\<lambda>it. archived_copy (it_dst it) (message_of ?f it)"
  have fin: "finished k j ?f t"
    using attempts.run_keeps [OF assms(3), of ?f] fresh_working [OF assms(1,2)] assms(2,4)
    by (auto simp: working_def)
  have sub: "set ?its \<subseteq> set (j_planned j)" and ids: "tid \<in> ids j"
    using assms(5) by (auto simp: thread_items_def ids_def filter_empty_conv)
  have entry: "resolve_archived t tid = Some (''thread'', map it_dst ?its)"
    using fin ids thread_entry [OF assms(5,6,7)] by (simp add: finished_def resolve_archived_def)
  have read: "read_message_file t (it_dst it) = Inr (if is_message_item it then [?msg it] else [])"
    if it: "it \<in> set ?its" for it
  proof -
    have "stored t (it_dst it) = ?f (it_src it)"
      using fin archived_file_at [OF assms(2)] it sub by (auto simp: finished_def)
    then show ?thesis using assms(8) [OF it]
      by (auto simp: read_message_file_def is_message_item_def holds_message_def message_of_def)
  qed
  then have "map_exc (read_message_file t) (map it_dst ?its) =
      Inr (map (\<lambda>it. if is_message_item it then [?msg it] else []) ?its)"
    by (rule map_exc_map)
  moreover have "concat (map (\<lambda>it. if is_message_item it then [?msg it] else []) xs) =
      map ?msg (filter is_message_item xs)" for xs by (induction xs) auto
  moreover have "list_all (\<lambda>m. is_str (py_or (jget m ''at'') (JStr []))) (map ?msg (filter is_message_item ?its))"
    using message_at [OF assms(8)] by (auto simp: list_all_iff archived_copy_def)
  ultimately show ?thesis
    using entry by (simp add: read_archived_messages_def sort_by_at_def at_key_def [abs_def])
qed

lemma demo_thread: "thread_items demo_journal ''t1'' = [demo_item]"
  by (simp add: thread_items_def demo_journal_def demo_item_def)

theorem archived_thread_reads_back_witness:
  "read_archived_messages (snd (recover_pending (demo_env Fine) demo_state)) ''t1'' =
    Inr (sort_key at_key (map (\<lambda>it. archived_copy (it_dst it) (message_of (stored demo_state) it))
      (filter is_message_item (thread_items demo_journal ''t1''))))"
proof (rule archived_thread_reads_back [OF demo_fresh demo_ready])
  show "(attempt (\<lambda>_. ''h'') demo_key demo_journal)\<^sup>*\<^sup>* demo_state (snd (recover_pending (demo_env Fine) demo_state))"
    by (rule r_into_rtranclp, rule attempt.recover) (simp add: demo_env_def)
  show "pend (snd (recover_pending (demo_env Fine) demo_state)) = []"
    using recover_working(2) [of "demo_env Fine" demo_journal "stored demo_state" demo_key demo_state]
      fresh_working [OF demo_fresh demo_ready] demo_ready
    by (auto simp: finished_def calm_def demo_env_def)
qed (auto simp: demo_thread demo_item_def holds_message_def demo_state_def stored_def demo_message_def py_simps py_or_def)

section \<open>Rebuilding the index\<close>

text \<open>All rows of the readable manifests, in the order of their names.\<close>

definition manifest_rows :: "archive \<Rightarrow> row list" where
  "manifest_rows s = concat (map (\<lambda>k. case entry k (manifests s) of Some mf \<Rightarrow> mf_rows mf | None \<Rightarrow> [])
     (sorted_entries ''manifest-'' (manifests s)))"

lemma rebuild_from_calm:
  assumes "calm env"
  shows "\<exists>idx' n. rebuild_from env ks idx s = (Inr idx', s\<lparr>atick := n\<rparr>) \<and>
    idx' = foldl (\<lambda>i r. merge_row r i) idx
      (concat (map (\<lambda>k. case entry k (manifests s) of Some mf \<Rightarrow> mf_rows mf | None \<Rightarrow> []) ks))"
proof (induction ks arbitrary: idx s)
  case (Cons k ks)
  let ?s = "s\<lparr>atick := Suc (atick s)\<rparr>"
  let ?idx = "case entry k (manifests s) of None \<Rightarrow> idx | Some mf \<Rightarrow> merge_manifest_into_index idx mf"
  have "rebuild_from env (k # ks) idx s = rebuild_from env ks ?idx ?s"
    using assms by (simp add: abind_def read_json_def calm_def)
  then show ?case
    using Cons.IH [of ?idx ?s] by (auto simp: merge_manifest_into_index_def split: option.splits)
next
  case Nil
  show ?case by (rule exI [of _ idx], rule exI [of _ "atick s"], cases s) simp
qed

lemma paths_of_rows:
  "(case merged_entry None rs of None \<Rightarrow> {} | Some (ty, ps) \<Rightarrow> set ps) = snd ` set rs"
  by (cases rs) (auto simp: merged_entry_def split: prod.splits)

text \<open>An undisturbed rebuild heals a torn, stale or missing index: afterwards an id resolves exactly to the
  archive paths that the manifests on disk record for it, whatever the index held before.\<close>

theorem rebuilt_index_exact:
  assumes "calm env" and "snd (rebuild_index env s) = t"
  shows "(case resolve_archived t rid of None \<Rightarrow> {} | Some (ty, ps) \<Rightarrow> set ps) =
    r_archived ` {r \<in> set (manifest_rows s). r_id r = rid}"
proof -
  obtain idx n where r: "rebuild_from env (sorted_entries ''manifest-'' (manifests s)) [] s = (Inr idx, s\<lparr>atick := n\<rparr>)"
    "idx = foldl (\<lambda>i r. merge_row r i) [] (manifest_rows s)"
    using rebuild_from_calm [OF assms(1)] unfolding manifest_rows_def by blast
  have "read_index t = idx"
    using r(1) assms by (auto simp: rebuild_index_def abind_def atomic_write_def os_step_def calm_def read_index_def)
  then have "resolve_archived t rid = merged_entry None (rows_for rid (manifest_rows s))"
    using map_of_merge [of "[]" "\<lparr>mf_opid = [], mf_generated = [], mf_plan_hash = JNull, mf_approval = JNull,
        mf_message = JNull, mf_rows = manifest_rows s\<rparr>" rid] r(2)
    by (simp add: resolve_archived_def merge_manifest_into_index_def)
  then show ?thesis by (simp add: paths_of_rows rows_for_def image_image)
qed

theorem rebuilt_index_exact_witness:
  "(case resolve_archived (snd (rebuild_index (demo_env Fine) (snd (recover_pending (demo_env Fine) demo_state)))) ''t1'' of
      None \<Rightarrow> {} | Some (ty, ps) \<Rightarrow> set ps) =
    r_archived ` {r \<in> set (manifest_rows (snd (recover_pending (demo_env Fine) demo_state))). r_id r = ''t1''}"
  by (rule rebuilt_index_exact [OF _ refl]) (simp add: demo_env_def calm_def)

text \<open>A read error of the index while merging drops every id archived before: the merge starts from nothing.\<close>

lemma unreadable_index_is_dropped:
  assumes "hazard env (atick s) = Fails" and "hazard env (Suc (atick s)) = Fine" and "rid \<notin> r_id ` set (mf_rows mf)"
  shows "resolve_archived (snd (merge_index env mf s)) rid = None"
proof -
  have "rows_for rid (mf_rows mf) = []" using assms(3) by (auto simp: rows_for_def filter_empty_conv)
  then show ?thesis
    using assms(1,2) by (simp add: merge_index_def read_json_def abind_def atomic_write_def os_step_def
        resolve_archived_def read_index_def map_of_merge merged_entry_def)
qed

end
