(* ===== verification/Work_Identity.thy ===== *)
theory Work_Identity
  imports Gate_Escalation
begin

text \<open>
  The identity of work items (\<open>tools/clearwright_identity.py\<close>): every actionable message is the origin
  of its own work item. For messages of the current identity version a closed rule decides; older ones
  are origins when a manifest, computed once and then frozen, lists them.

  The state adds the manifest file and its marker to the gates and messages; \<open>ident_env\<close> says what a run
  gets from outside: the names in the gates directory, which of these files can be read, the writer token
  and whether the two files can be written. A Python set of ids is a list of distinct ids.
\<close>

section \<open>State\<close>

record idsys =
  i_gates :: gsys
  i_manifest :: "content option"
  i_marker :: "content option"

record ident_env =
  ie_gate_names :: "string list option"
  ie_gate_readable :: "string \<Rightarrow> bool"
  ie_reading :: reading
  ie_token :: "lock_error option"
  ie_manifest_writable :: bool
  ie_marker_writable :: bool
  ie_now :: string

definition GOVERNANCE_RECORD_SOURCES :: "string list" where
  "GOVERNANCE_RECORD_SOURCES = [''use-cw-gate'', ''use-cw-annotation'', ''use-cw-summary'']"

definition NON_ORIGIN_ROLES :: "string list" where
  "NON_ORIGIN_ROLES = [''reviewer'']"

definition REVIEWER_SOURCES :: "string list" where
  "REVIEWER_SOURCES = [''openai-api'', ''codex-cli'', ''openai-api-review'', ''codex-review'', ''openai-responses'']"

definition AUTHORITY_MARKERS :: "string list" where
  "AUTHORITY_MARKERS = [''operator authority'', ''authority message'', ''i authorize '', ''close work item '',
     ''close and supersede'', ''overnight clearwright maintenance authorization'']"

definition RECOGNIZED_CLOSURES :: "string list" where
  "RECOGNIZED_CLOSURES = [''done'', ''closed_by_operator'']"

section \<open>Ids\<close>

definition work_item_id_for :: "json \<Rightarrow> string" where
  "work_item_id_for mid = ''message:'' @ py_str mid"

definition or_text :: "json \<Rightarrow> string" where
  "or_text j = py_str (py_or j (JStr []))"

definition message_id_of :: "json \<Rightarrow> string option" where
  "message_id_of wid =
     (if has_prefix ''message:'' (or_text wid) then Some (drop 8 (or_text wid)) else None)"

definition folded :: "json \<Rightarrow> string" where
  "folded j = casefold (strip (or_text j))"

section \<open>Origins\<close>

definition is_v2 :: "jobj \<Rightarrow> pyexc + bool" where
  "is_v2 m = sbind (to_int (py_or (jget m ''identity_version'') (JInt 0))) (\<lambda>v. Inr (2 \<le> v))"

definition v2_is_origin :: "jobj \<Rightarrow> bool" where
  "v2_is_origin m =
     (jget m ''direction'' = JStr ''inbound'' \<and> jget m ''intent'' = JStr ''request'' \<and>
      \<not> truthy (jget m ''closure'') \<and> jget m ''status'' \<notin> {JStr ''claimed'', JStr ''responded''})"

definition looks_like_authority :: "jobj \<Rightarrow> bool" where
  "looks_like_authority m =
     list_ex (\<lambda>k. has_prefix k (folded (jget m ''message'')) \<or> contains k (folded (jget m ''message'')))
       AUTHORITY_MARKERS"

text \<open>\<open>x in s\<close> for a set of strings; an unhashable value raises.\<close>

definition in_set :: "json \<Rightarrow> string list \<Rightarrow> pyexc + bool" where
  "in_set j xs = (if hashable j then Inr (j \<in> JStr ` set xs) else Inl TypeError)"

text \<open>\<open>if c: return False\<close>, in sequence.\<close>

fun none_of :: "(pyexc + bool) list \<Rightarrow> pyexc + bool" where
  "none_of [] = Inr True"
| "none_of (c # cs) = sbind c (\<lambda>b. if b then Inr False else none_of cs)"

definition legacy_convention_origin :: "jobj \<Rightarrow> pyexc + bool" where
  "legacy_convention_origin m =
     none_of [
       Inr (jget m ''direction'' \<noteq> JStr ''inbound''),
       Inr (jget m ''intent'' = JStr ''chat''),
       Inr (jget m ''status'' \<in> {JStr ''claimed'', JStr ''responded''}),
       Inr (truthy (jget m ''closure'')),
       in_set (jget m ''source'') GOVERNANCE_RECORD_SOURCES,
       in_set (jget m ''role'') NON_ORIGIN_ROLES,
       in_set (jget m ''source'') REVIEWER_SOURCES,
       Inr (truthy (jget m ''work_item_id'') \<and>
            jget m ''work_item_id'' \<noteq> JStr (''message:'' @ py_str (jget m ''message_id'')))]"

section \<open>Messages that were authority\<close>

text \<open>\<open>(g or \<lbrace>\<rbrace>).get("authority") or \<lbrace>\<rbrace>\<close>, then its message id.\<close>

definition authority_id :: "json \<Rightarrow> pyexc + json list" where
  "authority_id g =
     sbind (py_get (py_or g (JObj [])) ''authority'') (\<lambda>a.
     sbind (py_get (py_or a (JObj [])) ''message_id'') (\<lambda>mid.
       if \<not> truthy mid then Inr [] else if hashable mid then Inr [mid] else Inl TypeError))"

text \<open>One file of the gates directory: a list is read entry by entry, any other document as one entry.\<close>

definition gate_file_ids :: "ident_env \<Rightarrow> idsys \<Rightarrow> string \<Rightarrow> pyexc + json list" where
  "gate_file_ids env s name =
     (if \<not> has_suffix ''.json'' name \<or> \<not> ie_gate_readable env name then Inr []
      else case gfiles (i_gates s) (take (length name - 5) name) of
        Some (Doc d) \<Rightarrow>
          sbind (map_exc authority_id (case d of JArr gs \<Rightarrow> gs | _ \<Rightarrow> [d])) (\<lambda>xs. Inr (concat xs))
      | _ \<Rightarrow> Inr [])"

definition closure_ids :: "jobj \<Rightarrow> pyexc + json list" where
  "closure_ids m =
     (if \<not> truthy (jget m ''closure'') then Inr []
      else sbind (map_exc (\<lambda>k. sbind (py_get (py_or (jget m ''closure_meta'') (JObj [])) k) (\<lambda>v.
             if \<not> truthy v then Inr [] else if hashable v then Inr [v] else Inl TypeError))
             [''operator_message_id'', ''authority_message_id'']) (\<lambda>xs. Inr (concat xs)))"

definition authority_referenced_ids :: "ident_env \<Rightarrow> idsys \<Rightarrow> pyexc + json list" where
  "authority_referenced_ids env s =
     sbind (case ie_gate_names env of None \<Rightarrow> Inr []
            | Some names \<Rightarrow> map_exc (gate_file_ids env s) (sort names)) (\<lambda>gs.
     sbind (read_messages (ie_reading env) JNull JNull None (gcomms (i_gates s))) (\<lambda>ms.
     sbind (map_exc closure_ids ms) (\<lambda>cs. Inr (concat gs @ concat cs))))"

section \<open>The legacy manifest\<close>

definition in_ids :: "json \<Rightarrow> json list \<Rightarrow> pyexc + bool" where
  "in_ids j ids = (if hashable j then Inr (key_of j \<in> key_of ` set ids) else Inl TypeError)"

text \<open>Whether one message is listed as an origin, or excluded with a reason, or neither.\<close>

datatype verdict_of = Origin | Excluded string | Neither

fun is_excluded :: "verdict_of \<Rightarrow> bool" where
  "is_excluded (Excluded _) = True"
| "is_excluded _ = False"

fun reason_of :: "verdict_of \<Rightarrow> string" where
  "reason_of (Excluded r) = r"
| "reason_of _ = []"

definition legacy_verdict :: "json list \<Rightarrow> jobj \<Rightarrow> pyexc + verdict_of" where
  "legacy_verdict referenced m =
     sbind (is_v2 m) (\<lambda>v2. if v2 \<or> \<not> truthy (jget m ''message_id'') then Inr Neither
       else sbind (legacy_convention_origin m) (\<lambda>ok. if \<not> ok then Inr Neither
         else sbind (in_ids (jget m ''message_id'') referenced) (\<lambda>r.
           Inr (if r then Excluded ''provenance''
                else if looks_like_authority m then Excluded ''payload_marker'' else Origin))))"

text \<open>\<open>sorted(ids)\<close> of ids that are text or integers; a mixture does not compare.\<close>

fun is_integer :: "json \<Rightarrow> bool" where
  "is_integer (JInt _) = True"
| "is_integer _ = False"

fun integer_of :: "json \<Rightarrow> int" where
  "integer_of (JInt i) = i"
| "integer_of _ = 0"

definition sort_on :: "('a \<Rightarrow> json) \<Rightarrow> 'a list \<Rightarrow> pyexc + 'a list" where
  "sort_on key xs =
     (if list_all (\<lambda>x. is_str (key x)) xs then Inr (sort_key (\<lambda>x. py_str (key x)) xs)
      else if list_all (\<lambda>x. is_integer (key x)) xs then Inr (sort_key (\<lambda>x. integer_of (key x)) xs)
      else if length xs \<le> 1 then Inr xs else Inl TypeError)"

definition build_legacy_manifest :: "ident_env \<Rightarrow> idsys \<Rightarrow> pyexc + jobj" where
  "build_legacy_manifest env s =
     sbind (authority_referenced_ids env s) (\<lambda>referenced.
     sbind (read_messages (ie_reading env) JNull JNull None (gcomms (i_gates s))) (\<lambda>ms.
     sbind (map_exc (\<lambda>m. sbind (legacy_verdict referenced m) (\<lambda>v. Inr (jget m ''message_id'', v))) ms) (\<lambda>vs.
     sbind (sort_on (\<lambda>x. x) (map fst (filter (\<lambda>(_, v). v = Origin) vs))) (\<lambda>origins.
     sbind (sort_on fst (filter (\<lambda>(_, v). is_excluded v) vs)) (\<lambda>excluded.
       Inr [(''schema_version'', JInt 1), (''generated_at'', JStr (ie_now env)),
            (''origin_message_ids'', JArr origins),
            (''excluded'', JArr (map (\<lambda>(mid, v). JObj [(''id'', mid), (''reason'', JStr (reason_of v))])
              excluded))])))))"

text \<open>\<open>_read_json\<close>.\<close>

definition manifest_doc :: "idsys \<Rightarrow> json" where
  "manifest_doc s = read_doc (i_manifest s)"

datatype ident_error = ILocked lock_error | IRaised pyexc

definition iraise :: "pyexc + 'a \<Rightarrow> ident_error + 'a" where
  "iraise m = (case m of Inl e \<Rightarrow> Inl (IRaised e) | Inr x \<Rightarrow> Inr x)"

text \<open>\<open>migrate_legacy_origins\<close>, under a writer token: the manifest, then the marker.\<close>

definition migrate_legacy_origins :: "ident_env \<Rightarrow> idsys \<Rightarrow> (ident_error + json) \<times> idsys" where
  "migrate_legacy_origins env s =
     (case ie_token env of
        Some e \<Rightarrow> (Inl (ILocked e), s)
      | None \<Rightarrow>
          if manifest_doc s \<noteq> JNull then (Inr (manifest_doc s), s)
          else case build_legacy_manifest env s of
            Inl e \<Rightarrow> (Inl (IRaised e), s)
          | Inr manifest \<Rightarrow>
              if \<not> ie_manifest_writable env then (Inl (IRaised OSError), s)
              else let s1 = s\<lparr>i_manifest := Some (Doc (JObj manifest))\<rparr> in
              if \<not> ie_marker_writable env then (Inl (IRaised OSError), s1)
              else (Inr (JObj manifest), s1\<lparr>i_marker := Some (Doc (JObj [
                 (''migrated_at'', jget manifest ''generated_at''),
                 (''manifest_count'', JInt (int (length (arr_of (jget manifest ''origin_message_ids'')))))]))\<rparr>))"

text \<open>\<open>set(m.get("origin_message_ids") or [])\<close>.\<close>

definition manifest_ids :: "json \<Rightarrow> pyexc + json list" where
  "manifest_ids d =
     sbind (py_get d ''origin_message_ids'') (\<lambda>v.
     sbind (py_iter (py_or v (JArr []))) (\<lambda>xs.
       if list_all hashable xs then Inr xs else Inl TypeError))"

definition legacy_origin_ids :: "ident_env \<Rightarrow> idsys \<Rightarrow> pyexc + json list" where
  "legacy_origin_ids env s =
     (if manifest_doc s \<noteq> JNull then manifest_ids (manifest_doc s)
      else if i_marker s \<noteq> None then Inr []
      else sbind (build_legacy_manifest env s) (\<lambda>m. manifest_ids (JObj m)))"

definition ensure_migrated :: "ident_env \<Rightarrow> idsys \<Rightarrow> (ident_error + unit) \<times> idsys" where
  "ensure_migrated env s =
     (if manifest_doc s = JNull \<and> i_marker s = None
      then (case migrate_legacy_origins env s of (Inl e, s') \<Rightarrow> (Inl e, s') | (Inr _, s') \<Rightarrow> (Inr (), s'))
      else (Inr (), s))"

definition manifest_status :: "idsys \<Rightarrow> string option" where
  "manifest_status s =
     (if manifest_doc s = JNull \<and> i_marker s \<noteq> None then Some ''legacy_manifest_missing'' else None)"

end
