(* ===== verification/Work_View.thy ===== *)
theory Work_View
  imports Work_Identity
begin

text \<open>
  How derived work items are presented (the first half of \<open>tools/clearwright_work.py\<close>): the last
  activity of an item, its class, its runner and presentation states, the default view, the filters and
  the counts. All of it is computed from records already loaded and writes nothing.

  Times are microseconds; \<open>fmt\<close> is \<open>datetime.fromisoformat\<close> read as an instant in UTC, \<open>None\<close> where it
  raises.
\<close>

section \<open>Constants\<close>

definition HOUR :: int where "HOUR = 3600000000"
definition RECENT_WINDOW :: int where "RECENT_WINDOW = 24 * HOUR"
definition STALE_WINDOW :: int where "STALE_WINDOW = 24 * HOUR"
definition RUNNING_WINDOW :: int where "RUNNING_WINDOW = 900000000"

definition ACTIONABLE :: "string list" where
  "ACTIONABLE = [''open'', ''claimed'', ''planning'', ''verification'', ''operator_required'']"

definition DEFAULT_VIEW_STATES :: "string list" where
  "DEFAULT_VIEW_STATES = [''needs_operator'', ''blocked'', ''running'', ''waiting_on_claude'',
     ''waiting_on_operator'', ''recently_completed'']"

section \<open>Times\<close>

text \<open>\<open>str.isdigit\<close> below 256 includes the superscripts.\<close>

definition is_digit_like :: "char \<Rightarrow> bool" where
  "is_digit_like c = (is_digit c \<or> (of_char c :: nat) \<in> {178, 179, 185})"

text \<open>The normalised text: a final \<open>Z\<close> becomes an offset, the fraction has at most six digits.\<close>

definition normal_iso :: "string \<Rightarrow> string" where
  "normal_iso at =
     (let s0 = strip at;
          s = (if has_suffix ''Z'' s0 then butlast s0 @ ''+00:00'' else s0);
          head = takeWhile (\<lambda>c. c \<noteq> CHR ''.'') s
      in if CHR ''.'' \<notin> set s then s
         else let rest = drop (Suc (length head)) s;
                  frac = takeWhile is_digit_like rest;
                  six = take 6 frac
              in head @ ''.'' @ (if six = [] then ''0'' else six) @ drop (length frac) rest)"

definition view_iso :: "(string \<Rightarrow> int option) \<Rightarrow> json \<Rightarrow> int option" where
  "view_iso fmt at = (case at of JStr s \<Rightarrow> if s = [] then None else fmt (normal_iso s) | _ \<Rightarrow> None)"

text \<open>\<open>_age_seconds\<close>: \<open>None\<close> is infinitely old; a time in the future has age zero.\<close>

definition age :: "(string \<Rightarrow> int option) \<Rightarrow> json \<Rightarrow> json \<Rightarrow> int \<Rightarrow> int option" where
  "age fmt activity_at created_at now =
     (case (case view_iso fmt activity_at of Some t \<Rightarrow> Some t | None \<Rightarrow> view_iso fmt created_at) of
        None \<Rightarrow> None | Some t \<Rightarrow> Some (max 0 (now - t)))"

definition within :: "int option \<Rightarrow> int \<Rightarrow> bool" where
  "within a w = (case a of Some x \<Rightarrow> x \<le> w | None \<Rightarrow> False)"

section \<open>Last activity\<close>

definition message_event_class :: "jobj \<Rightarrow> nat \<times> string" where
  "message_event_class m =
     (if folded (jget m ''closure'') \<in> set RECOGNIZED_CLOSURES then (1, ''completion'')
      else if jget m ''status'' = JStr ''claimed'' then (6, ''claim'')
      else if jget m ''status'' = JStr ''responded'' \<or> jget m ''direction'' = JStr ''outbound'' then (7, ''response'')
      else if jget m ''status'' = JStr ''posted'' \<or> jget m ''direction'' = JStr ''internal'' then (5, ''progress'')
      else (8, ''evidence''))"

record activity =
  ac_at :: json
  ac_prec :: nat
  ac_source :: string
  ac_label :: string

definition message_activity :: "jobj \<Rightarrow> activity list" where
  "message_activity m =
     (if \<not> truthy (jget m ''at'') then []
      else [\<lparr>ac_at = jget m ''at'', ac_prec = fst (message_event_class m),
             ac_source = or_text (jget m ''message_id''), ac_label = snd (message_event_class m)\<rparr>])"

definition council_activity :: "jobj \<Rightarrow> activity list" where
  "council_activity c =
     (if \<not> truthy (jget c ''created_at'') then []
      else [\<lparr>ac_at = jget c ''created_at'', ac_prec = 3, ac_source = or_text (jget c ''council_id''),
             ac_label = ''council''\<rparr>])"

definition gate_activity :: "jobj option \<Rightarrow> activity list" where
  "gate_activity gate =
     (case gate of None \<Rightarrow> []
      | Some g \<Rightarrow>
          (let at = py_or (jget g ''resolved_at'') (jget g ''created_at'') in
           if \<not> truthy at then []
           else [\<lparr>ac_at = at, ac_prec = 4, ac_source = or_text (jget g ''gate_id''), ac_label = ''gate''\<rparr>]))"

definition activity_candidates :: "jobj list \<Rightarrow> jobj list \<Rightarrow> jobj option \<Rightarrow> activity list" where
  "activity_candidates bound councils gate =
     concat (map message_activity bound) @ concat (map council_activity councils) @ gate_activity gate"

text \<open>The total order: later first, then the smaller precedence, then the smaller source id.\<close>

definition beats :: "int \<times> activity \<Rightarrow> int \<times> activity \<Rightarrow> bool" where
  "beats x y =
     (fst y < fst x \<or> fst x = fst y \<and> (ac_prec (snd x) < ac_prec (snd y) \<or>
        ac_prec (snd x) = ac_prec (snd y) \<and> ac_source (snd x) < ac_source (snd y)))"

fun winner_from :: "(string \<Rightarrow> int option) \<Rightarrow> (int \<times> activity) option \<Rightarrow> activity list \<Rightarrow> (int \<times> activity) option" where
  "winner_from fmt best [] = best"
| "winner_from fmt best (a # as) =
     (case view_iso fmt (ac_at a) of
        None \<Rightarrow> winner_from fmt best as
      | Some t \<Rightarrow> winner_from fmt (case best of None \<Rightarrow> Some (t, a)
          | Some b \<Rightarrow> if beats (t, a) b then Some (t, a) else Some b) as)"

definition total_order_winner :: "(string \<Rightarrow> int option) \<Rightarrow> activity list \<Rightarrow> activity option" where
  "total_order_winner fmt as = map_option snd (winner_from fmt None as)"

definition last_activity :: "(string \<Rightarrow> int option) \<Rightarrow> jobj list \<Rightarrow> jobj list \<Rightarrow> jobj option \<Rightarrow> json \<times> string \<times> json" where
  "last_activity fmt bound councils gate =
     (case total_order_winner fmt (activity_candidates bound councils gate) of
        None \<Rightarrow> (JNull, ''created'', JNull)
      | Some a \<Rightarrow> (ac_at a, ac_label a, JStr (ac_source a)))"

section \<open>Classes and states\<close>

definition has_lifecycle :: "jobj list \<Rightarrow> jobj list \<Rightarrow> jobj option \<Rightarrow> jobj option \<Rightarrow> bool" where
  "has_lifecycle bound councils gate claim_msg =
     (claim_msg \<notin> {None, Some []} \<or> councils \<noteq> [] \<or> gate \<noteq> None \<or>
      list_ex (\<lambda>m. truthy (jget m ''closure'') \<or>
        jget m ''status'' \<in> JStr ` set [''claimed'', ''posted'', ''responded'']) bound)"

definition stripped :: "json \<Rightarrow> string" where
  "stripped j = strip (or_text j)"

definition classify_record :: "jobj \<Rightarrow> bool \<Rightarrow> string \<Rightarrow> string" where
  "classify_record origin lifecycle status =
     (if stripped (jget origin ''intent'') = ''chat'' then ''chat''
      else if lifecycle then ''governed_work''
      else if stripped (jget origin ''intent'') = ''request'' then ''governed_work''
      else if stripped (jget origin ''role'') = ''operator'' \<and> stripped (jget origin ''source'') = ''operator-ui''
        then ''authority''
      else if status \<in> set ACTIONABLE then ''governed_work''
      else ''note'')"

text \<open>\<open>by_id\<close> keeps the last message of each id.\<close>

definition awaiting_operator_reply :: "(string \<Rightarrow> int option) \<Rightarrow> jobj list \<Rightarrow> bool" where
  "awaiting_operator_reply fmt bound =
     (case total_order_winner fmt (concat (map message_activity bound)) of
        None \<Rightarrow> False
      | Some a \<Rightarrow>
          (case List.find (\<lambda>m. or_text (jget m ''message_id'') = ac_source a)
              (rev (filter (\<lambda>m. truthy (jget m ''at'')) bound)) of
             None \<Rightarrow> False
           | Some latest \<Rightarrow>
               jget latest ''direction'' = JStr ''outbound'' \<and> or_text (jget latest ''status'') \<noteq> ''responded'' \<and>
               or_text (jget latest ''role'') \<noteq> ''operator'' \<and> truthy (jget latest ''awaiting_operator'')))"

definition is_claim :: "jobj \<Rightarrow> bool" where
  "is_claim m = (jget m ''status'' = JStr ''claimed'' \<and> truthy (jget m ''at''))"

definition latest_claim :: "(string \<Rightarrow> int option) \<Rightarrow> jobj list \<Rightarrow> jobj option" where
  "latest_claim fmt bound =
     (let claims = filter is_claim bound in
      case total_order_winner fmt (map (\<lambda>m. \<lparr>ac_at = jget m ''at'', ac_prec = 6,
          ac_source = or_text (jget m ''message_id''), ac_label = ''claim''\<rparr>) claims) of
        None \<Rightarrow> None
      | Some a \<Rightarrow> List.find (\<lambda>m. or_text (jget m ''message_id'') = ac_source a) claims)"

definition runner_state :: "(string \<Rightarrow> int option) \<Rightarrow> bool \<Rightarrow> json \<Rightarrow> bool \<Rightarrow> bool \<Rightarrow> bool \<Rightarrow> bool \<Rightarrow> string \<Rightarrow> int \<Rightarrow> string" where
  "runner_state fmt claimed claim_at active_runner in_council awaiting has_gate status now =
     (if \<not> claimed then ''unowned''
      else if active_runner then ''active_runner''
      else if in_council then ''waiting_on_council''
      else if has_gate \<or> status = ''operator_required'' \<or> awaiting then ''waiting_on_operator''
      else if within (age fmt claim_at claim_at now) RUNNING_WINDOW then ''claimed_idle''
      else if \<not> within (age fmt claim_at claim_at now) STALE_WINDOW then ''stale_or_no_heartbeat''
      else ''claimed_idle'')"

record signals =
  sg_status :: string
  sg_needs_operator :: bool
  sg_blocked :: bool
  sg_awaiting :: bool
  sg_claimed :: bool
  sg_active :: bool
  sg_last :: json
  sg_created :: json

definition presentation_state :: "(string \<Rightarrow> int option) \<Rightarrow> signals \<Rightarrow> int \<Rightarrow> string" where
  "presentation_state fmt g now =
     (let a = age fmt (sg_last g) (sg_created g) now in
      if sg_status g = ''superseded'' then ''superseded''
      else if sg_status g \<in> {''done'', ''closed''} then
        (if within a RECENT_WINDOW then ''recently_completed'' else ''historical'')
      else if sg_needs_operator g then ''needs_operator''
      else if sg_blocked g then ''blocked''
      else if sg_awaiting g then ''waiting_on_operator''
      else if sg_claimed g then
        (if sg_active g then ''running'' else if within a STALE_WINDOW then ''waiting_on_claude'' else ''stale'')
      else if \<not> within a STALE_WINDOW then ''stale''
      else ''waiting_on_claude'')"

section \<open>Views of the list\<close>

definition ungoverned :: "jobj \<Rightarrow> bool" where
  "ungoverned it = (jget it ''kind'' = JStr ''message'' \<and>
     get_or it ''record_class'' (JStr ''governed_work'') \<noteq> JStr ''governed_work'')"

text \<open>Membership in a set of states; an unhashable value raises.\<close>

definition in_default_view :: "jobj \<Rightarrow> pyexc + bool" where
  "in_default_view it =
     (if ungoverned it then Inr False else in_set (jget it ''presentation_state'') DEFAULT_VIEW_STATES)"

definition SORT_RANK :: "(string \<times> nat) list" where
  "SORT_RANK = [(''needs_operator'', 0), (''running'', 1), (''blocked'', 2), (''waiting_on_operator'', 3),
     (''waiting_on_claude'', 3), (''recently_completed'', 4), (''stale'', 5), (''superseded'', 6),
     (''historical'', 7)]"

definition FILTER_STATES :: "(string \<times> string list) list" where
  "FILTER_STATES = [(''needs_attention'', [''needs_operator'']), (''running'', [''running'']),
     (''blocked'', [''blocked'']), (''stale'', [''stale'']), (''recently_completed'', [''recently_completed''])]"

text \<open>\<open>_neg_time\<close>: the text whose order is the reverse one, character by character.\<close>

definition neg_text :: "string \<Rightarrow> string" where
  "neg_text s = map (\<lambda>c. if (of_char c :: nat) < 255 then char_of (255 - of_char c :: nat) else c) s"

definition neg_time :: "json \<Rightarrow> pyexc + string" where
  "neg_time at =
     (if \<not> truthy at then Inr [] else case at of JStr s \<Rightarrow> Inr (neg_text s) | _ \<Rightarrow> Inl TypeError)"

definition matches_query :: "string \<Rightarrow> jobj \<Rightarrow> bool" where
  "matches_query q it =
     (q = [] \<or> contains q (casefold (or_text (jget it ''title''))) \<or>
      contains q (casefold (or_text (jget it ''work_item_id''))))"

definition in_scope :: "string \<Rightarrow> string \<Rightarrow> jobj \<Rightarrow> pyexc + bool" where
  "in_scope mode q it =
     sbind (if mode = ''all'' then Inr True
            else if mode = ''current'' then in_default_view it
            else case map_of FILTER_STATES mode of
                None \<Rightarrow> in_default_view it
              | Some states \<Rightarrow> if ungoverned it then Inr False
                  else in_set (jget it ''presentation_state'') states) (\<lambda>keep.
       Inr (keep \<and> matches_query q it))"

definition rank_of :: "json \<Rightarrow> pyexc + nat" where
  "rank_of j = (if \<not> hashable j then Inl TypeError
     else case j of JStr s \<Rightarrow> Inr (case map_of SORT_RANK s of Some r \<Rightarrow> r | None \<Rightarrow> 9) | _ \<Rightarrow> Inr 9)"

definition view_key :: "jobj \<Rightarrow> pyexc + (nat \<times> string)" where
  "view_key it = sbind (rank_of (jget it ''presentation_state'')) (\<lambda>r.
     sbind (neg_time (py_or (jget it ''last_activity_at'') (jget it ''created_at''))) (\<lambda>t. Inr (r, t)))"

definition queue_view :: "string \<Rightarrow> string \<Rightarrow> jobj list \<Rightarrow> pyexc + jobj list" where
  "queue_view mode query items =
     (let q = casefold (strip query) in
      sbind (map_exc (\<lambda>it. sbind (in_scope mode q it) (\<lambda>b. Inr (it, b))) items) (\<lambda>marked.
      sbind (map_exc (\<lambda>it. sbind (view_key it) (\<lambda>k. Inr (k, it))) (map fst (filter snd marked))) (\<lambda>keyed.
        Inr (map snd (sort_key fst keyed)))))"

definition attention_counts :: "jobj list \<Rightarrow> pyexc + (string \<times> nat) list" where
  "attention_counts items =
     (let governed = filter (\<lambda>it. \<not> ungoverned it) items in
      if \<not> list_all (\<lambda>it. hashable (jget it ''presentation_state'')) governed then Inl TypeError
      else Inr (map (\<lambda>k. (k, length (filter (\<lambda>it. jget it ''presentation_state'' = JStr k) governed)))
        [''running'', ''needs_operator'', ''blocked'', ''stale'']))"

end
