(* ===== verification/Work_Items.thy ===== *)
theory Work_Items
  imports Work_View Packet_Claim
begin

text \<open>
  The work-item loop (the second half of \<open>tools/clearwright_work.py\<close>): work items derived from packets,
  messages, gates and councils, and the three operations on them. Claiming, responding and posting
  progress first heal missing gates and refuse an agent on a gated item, then write one message; the
  claim of a packet item also moves the packet.

  A run gets from outside: the gate environment, the views of the councils directory and of the packet
  lanes, the clocks and outcomes of its own message (\<open>e_post\<close>) and of a failure notice (\<open>e_notice\<close>), the
  faults of the packet move, and the order in which a Python set of origins is walked.
\<close>

section \<open>State and environment\<close>

record wsys =
  w_id :: idsys
  w_packets :: world

record wenv =
  e_gate :: genv
  e_notice :: nenv
  e_post :: nenv
  e_councils :: cview
  e_ident :: ident_env
  e_root :: path
  e_lane :: "string \<Rightarrow> string list option"
  e_readable :: "path \<Rightarrow> bool"
  e_order :: "json list \<Rightarrow> json list"
  e_fmt :: "string \<Rightarrow> int option"
  e_now :: int
  e_claimed_at :: string
  e_faults :: faults

abbreviation gates :: "wsys \<Rightarrow> gsys" where
  "gates s \<equiv> i_gates (w_id s)"

abbreviation messages :: "wsys \<Rightarrow> comms" where
  "messages s \<equiv> gcomms (gates s)"

definition put_gates :: "gsys \<Rightarrow> wsys \<Rightarrow> wsys" where
  "put_gates g s = s\<lparr>w_id := (w_id s)\<lparr>i_gates := g\<rparr>\<rparr>"

definition put_messages :: "comms \<Rightarrow> wsys \<Rightarrow> wsys" where
  "put_messages c s = put_gates ((gates s)\<lparr>gcomms := c\<rparr>) s"

datatype work_exc = WGate gate_error | WLock lock_error | WRaised pyexc

definition wraise :: "pyexc + 'a \<Rightarrow> work_exc + 'a" where
  "wraise m = (case m of Inl e \<Rightarrow> Inl (WRaised e) | Inr x \<Rightarrow> Inr x)"

definition LANES :: "string list" where
  "LANES = [''clearance_outbox'', ''clearance_in_progress'', ''clearance_done'', ''clearance_failed'']"

section \<open>Packets\<close>

record prow =
  p_id :: json
  p_status :: json
  p_lane :: string
  p_title :: json
  p_path :: path

text \<open>A file that cannot be read or parsed is skipped; a document that is not an object raises.\<close>

definition packet_row :: "wenv \<Rightarrow> wsys \<Rightarrow> string \<Rightarrow> string \<Rightarrow> pyexc + prow list" where
  "packet_row env s lane name =
     (let path = e_root env @ [lane, name] in
      if \<not> has_suffix ''.json'' name \<or> \<not> e_readable env path then Inr []
      else case files (w_packets s) path of
        Some (Doc (JObj p)) \<Rightarrow> Inr [\<lparr>p_id = jget p ''packet_id'', p_status = jget p ''status'', p_lane = lane,
            p_title = jget p ''title'', p_path = path\<rparr>]
      | Some (Doc _) \<Rightarrow> Inl AttributeError
      | _ \<Rightarrow> Inr [])"

definition lane_rows :: "wenv \<Rightarrow> wsys \<Rightarrow> string \<Rightarrow> pyexc + prow list" where
  "lane_rows env s lane =
     (case e_lane env lane of
        None \<Rightarrow> Inr []
      | Some names \<Rightarrow> sbind (map_exc (packet_row env s lane) (sort names)) (\<lambda>rs. Inr (concat rs)))"

definition read_packets :: "wenv \<Rightarrow> wsys \<Rightarrow> pyexc + prow list" where
  "read_packets env s = sbind (map_exc (lane_rows env s) LANES) (\<lambda>rs. Inr (concat rs))"

definition find_packet_path :: "wenv \<Rightarrow> wsys \<Rightarrow> string \<Rightarrow> string \<Rightarrow> pyexc + path option" where
  "find_packet_path env s pid lane =
     sbind (read_packets env s) (\<lambda>rows.
       Inr (map_option p_path (List.find (\<lambda>p. p_id p = JStr pid \<and> p_lane p = lane) rows)))"

definition work_item :: "string \<Rightarrow> string \<Rightarrow> string \<Rightarrow> string \<Rightarrow> jobj \<Rightarrow> jobj" where
  "work_item wid kind status next_action extra =
     [(''work_item_id'', JStr wid), (''kind'', JStr kind), (''status'', JStr status),
      (''next_action'', JStr next_action)] @ filter (\<lambda>(k, v). v \<noteq> JNull \<and> v \<noteq> JStr []) extra"

definition packet_extra :: "prow \<Rightarrow> string \<Rightarrow> string \<Rightarrow> jobj" where
  "packet_extra p state runner =
     [(''packet_id'', p_id p), (''title'', p_title p), (''summary'', p_title p),
      (''record_class'', JStr ''governed_work''), (''presentation_state'', JStr state),
      (''runner_state'', JStr runner), (''last_activity_event'', JStr ''created'')]"

definition packet_item :: "prow \<Rightarrow> jobj list" where
  "packet_item p =
     (if \<not> truthy (p_id p) then []
      else if p_lane p = ''clearance_outbox'' \<and> p_status p = JStr ''CTA'' then
        [work_item (''packet:'' @ py_str (p_id p) @ '':cta'') ''packet'' ''open'' ''claim''
           (packet_extra p ''needs_operator'' ''waiting_on_operator'')]
      else if p_lane p = ''clearance_outbox'' \<and> p_status p = JStr ''RFI_PENDING'' then
        [work_item (''rfi:'' @ py_str (p_id p)) ''rfi'' ''open'' ''answer clarification''
           (packet_extra p ''needs_operator'' ''waiting_on_operator'')]
      else if p_lane p = ''clearance_in_progress'' \<and> p_status p = JStr ''IN_PROGRESS'' then
        [work_item (''in_progress:'' @ py_str (p_id p)) ''in_progress'' ''open'' ''post progress or complete''
           (packet_extra p ''waiting_on_claude'' ''unknown'')]
      else [])"

section \<open>Origins and bound records\<close>

text \<open>The origin id a message contributes, if any; ids are looked up in and added to sets.\<close>

definition origin_id :: "json list \<Rightarrow> jobj \<Rightarrow> pyexc + json list" where
  "origin_id legacy m =
     (let mid = jget m ''message_id'' in
      if \<not> truthy mid then Inr []
      else sbind (is_v2 m) (\<lambda>v2.
        if v2 then (if \<not> v2_is_origin m then Inr [] else if hashable mid then Inr [mid] else Inl TypeError)
        else sbind (in_ids mid legacy) (\<lambda>b. Inr (if b then [mid] else []))))"

fun distinct_ids :: "json list \<Rightarrow> json list" where
  "distinct_ids [] = []"
| "distinct_ids (x # xs) = x # filter (\<lambda>y. key_of y \<noteq> key_of x) (distinct_ids xs)"

definition origin_message_ids :: "wenv \<Rightarrow> wsys \<Rightarrow> jobj list \<Rightarrow> pyexc + json list" where
  "origin_message_ids env s ms =
     sbind (legacy_origin_ids (e_ident env) (w_id s)) (\<lambda>legacy.
     sbind (map_exc (origin_id legacy) ms) (\<lambda>ids. Inr (distinct_ids (concat ids))))"

text \<open>\<open>by_id\<close>: the last message of each id.\<close>

definition by_id :: "jobj list \<Rightarrow> json \<Rightarrow> jobj" where
  "by_id ms mid =
     (case List.find (\<lambda>m. truthy (jget m ''message_id'') \<and> key_of (jget m ''message_id'') = key_of mid) (rev ms) of
        Some m \<Rightarrow> m | None \<Rightarrow> [])"

definition thread_of :: "jobj \<Rightarrow> json" where
  "thread_of m = py_or (jget m ''thread_id'') (JStr ''thr-unknown'')"

definition unbound_in :: "json \<Rightarrow> jobj \<Rightarrow> bool" where
  "unbound_in tid r = (\<not> truthy (jget r ''work_item_id'') \<and> jget r ''thread_id'' = tid)"

definition bound_records :: "jobj list \<Rightarrow> string \<Rightarrow> json \<Rightarrow> bool \<Rightarrow> jobj list \<times> bool" where
  "bound_records ms wid tid single =
     (filter (\<lambda>r. jget r ''work_item_id'' = JStr wid \<or> unbound_in tid r \<and> single) ms,
      \<not> single \<and> list_ex (\<lambda>r. jget r ''work_item_id'' \<noteq> JStr wid \<and> unbound_in tid r) ms)"

section \<open>State of a message item\<close>

definition recognized_closure :: "jobj \<Rightarrow> bool" where
  "recognized_closure m = (truthy (jget m ''closure'') \<and> folded (jget m ''closure'') \<in> set RECOGNIZED_CLOSURES)"

text \<open>\<open>max(xs, key=...)\<close>: the first of the largest.\<close>

fun first_max :: "('a \<Rightarrow> string) \<Rightarrow> 'a \<Rightarrow> 'a list \<Rightarrow> 'a" where
  "first_max key best [] = best"
| "first_max key best (x # xs) = first_max key (if key best < key x then x else best) xs"

definition closing_record :: "jobj list \<Rightarrow> pyexc + jobj" where
  "closing_record ms =
     (if length ms = 1 then Inr (hd ms)
      else if list_all (\<lambda>m. is_str (py_or (jget m ''at'') (JStr []))) ms
      then Inr (first_max (\<lambda>m. or_text (jget m ''at'')) (hd ms) (tl ms))
      else Inl TypeError)"

definition superseding :: "jobj \<Rightarrow> pyexc + bool" where
  "superseding m =
     sbind (py_get (py_or (jget m ''closure_meta'') (JObj [])) ''reason'') (\<lambda>r.
     sbind (py_get (py_or (jget m ''closure_meta'') (JObj [])) ''disposition'') (\<lambda>d.
       Inr (casefold (or_text d) = ''superseded'' \<or>
            contains ''supersede'' (casefold (or_text (py_or r (jget m ''message'')))))))"

definition warning :: "string \<Rightarrow> string \<Rightarrow> jobj \<Rightarrow> jobj" where
  "warning code wid details = [(''code'', JStr code), (''work_item_id'', JStr wid)] @ details"

definition record_ids :: "jobj list \<Rightarrow> json" where
  "record_ids ms = JArr (map (\<lambda>m. jget m ''message_id'') ms)"

definition state_warnings :: "jobj list \<Rightarrow> jobj option \<Rightarrow> string \<Rightarrow> jobj list" where
  "state_warnings bound gate wid =
     (let recognized = filter recognized_closure bound;
          claims = filter (\<lambda>m. jget m ''status'' = JStr ''claimed'') bound
      in map (\<lambda>m. warning ''unknown_closure_value'' wid
             [(''record_id'', jget m ''message_id''), (''value'', jget m ''closure'')])
           (filter (\<lambda>m. truthy (jget m ''closure'') \<and> \<not> recognized_closure m) bound) @
         (if 1 < length recognized then [warning ''conflicting_closures'' wid [(''record_ids'', record_ids recognized)]]
          else []) @
         (if 1 < length claims then [warning ''duplicate_claim'' wid [(''record_ids'', record_ids claims)]] else []) @
         (if recognized \<noteq> [] \<and> gate \<noteq> None
          then [warning ''gate_open_at_closure'' wid [(''gate_id'', jget (the gate) ''gate_id'')]] else []))"

definition unmet :: "string \<Rightarrow> jobj list \<Rightarrow> bool" where
  "unmet phase councils =
     (case List.find (\<lambda>c. jget c ''phase'' = JStr phase) councils of
        None \<Rightarrow> False | Some c \<Rightarrow> jget c ''outcome'' \<noteq> JStr ''agreement_threshold_met'')"

definition is_response :: "jobj \<Rightarrow> bool" where
  "is_response m = (jget m ''direction'' = JStr ''outbound'' \<or> jget m ''status'' = JStr ''responded'')"

definition derive_state :: "jobj option \<Rightarrow> jobj list \<Rightarrow> jobj option \<Rightarrow> jobj list \<Rightarrow> pyexc + string" where
  "derive_state origin bound gate councils =
     (if origin = None then Inr ''malformed''
      else if filter recognized_closure bound \<noteq> [] then
        sbind (closing_record (filter recognized_closure bound)) (\<lambda>w.
        sbind (superseding w) (\<lambda>sup.
          Inr (if folded (jget w ''closure'') = ''closed_by_operator''
               then (if sup then ''superseded'' else ''closed'') else ''done'')))
      else if gate \<noteq> None then Inr ''operator_required''
      else if list_ex is_response bound then Inr ''done''
      else if unmet ''verify'' councils then Inr ''verification''
      else if unmet ''plan'' councils then Inr ''planning''
      else Inr (if list_ex (\<lambda>m. jget m ''status'' = JStr ''claimed'') bound then ''claimed'' else ''open''))"

definition council_in_flight :: "jobj list \<Rightarrow> bool" where
  "council_in_flight councils = list_ex (\<lambda>c. jget c ''outcome'' \<noteq> JStr ''agreement_threshold_met'') councils"

definition next_action_for :: "string \<Rightarrow> string" where
  "next_action_for st =
     (case map_of [(''open'', ''respond''), (''claimed'', ''respond''), (''planning'', ''continue plan council''),
        (''operator_required'', ''resolve gate (operator authority required)''),
        (''verification'', ''run or finish verification''), (''done'', ''none (terminal)''),
        (''closed'', ''none (closed by operator)''), (''superseded'', ''none (superseded)''),
        (''malformed'', ''inspect origin record'')] st of
        Some a \<Rightarrow> a | None \<Rightarrow> ''respond'')"

end
