(* ===== verification/Work_Actions.thy ===== *)
theory Work_Actions
  imports Work_Items
begin

text \<open>
  The derived list of work items, and the operations of a worker on one of them: claim, respond and
  progress (\<open>tools/clearwright_work.py\<close>), with the summaries of councils they read
  (\<open>list_councils\<close> of \<open>tools/clearwright_review_council.py\<close>).
\<close>

section \<open>Councils as summaries\<close>

definition summary :: "json \<Rightarrow> json \<Rightarrow> pyexc + jobj" where
  "summary council oc =
     sbind (case council of JObj c \<Rightarrow> Inr c | _ \<Rightarrow> Inl AttributeError) (\<lambda>c.
     sbind (py_len (get_or c ''rounds'' (JArr []))) (\<lambda>n.
     sbind (case py_or oc (JObj []) of JObj x \<Rightarrow> Inr x | _ \<Rightarrow> Inl AttributeError) (\<lambda>x.
       Inr ([(''council_id'', jget c ''council_id''), (''thread_id'', jget c ''thread_id''),
         (''work_item_id'', jget c ''work_item_id''), (''packet_id'', jget c ''packet_id''),
         (''phase'', jget c ''phase''), (''min_rounds'', jget c ''min_rounds''),
         (''max_rounds'', jget c ''max_rounds''), (''current_round'', JInt (int n)),
         (''created_at'', jget c ''created_at''), (''outcome'', jget x ''outcome''),
         (''ready_to_proceed'', get_or x ''ready_to_proceed'' (JBool False)),
         (''operator_required'', get_or x ''operator_required'' (JBool False)),
         (''hard_gate'', get_or x ''hard_gate'' (JBool False)),
         (''gpt_status'', jget x ''gpt_status''), (''codex_status'', jget x ''codex_status'')]))))"

definition council_row :: "cview \<Rightarrow> string \<Rightarrow> pyexc + jobj list" where
  "council_row cv cid =
     (if \<not> truthy (read_doc (c_council cv cid)) then Inr []
      else sbind (summary (read_doc (c_council cv cid)) (read_doc (c_outcome cv cid))) (\<lambda>x. Inr [x]))"

text \<open>Newest first; the order of equal keys is that of the listing, as \<open>reverse=True\<close> keeps it.\<close>

definition created_key :: "jobj \<Rightarrow> json" where
  "created_key c = py_or (jget c ''created_at'') (JStr [])"

definition list_councils :: "cview \<Rightarrow> pyexc + jobj list" where
  "list_councils cv =
     (case c_root cv of
        NotADirectory \<Rightarrow> Inr []
      | Unreadable \<Rightarrow> Inl OSError
      | Entries names \<Rightarrow>
          sbind (map_exc (council_row cv) names) (\<lambda>rows.
          sbind (sort_on created_key (rev (concat rows))) (\<lambda>cs. Inr (rev cs))))"

section \<open>The derived list\<close>

text \<open>The gate of the display: any error reads as no gate.\<close>

definition shown_gate :: "wenv \<Rightarrow> wsys \<Rightarrow> string \<Rightarrow> jobj option" where
  "shown_gate env s wid = (case active_gate (e_gate env) (gates s) (JStr wid) of Inr g \<Rightarrow> g | Inl _ \<Rightarrow> None)"

definition councils_of :: "jobj list \<Rightarrow> string \<Rightarrow> json \<Rightarrow> bool \<Rightarrow> jobj list" where
  "councils_of all wid tid single =
     (let own = filter (\<lambda>c. jget c ''work_item_id'' = JStr wid) all in
      if own = [] \<and> single then filter (\<lambda>c. jget c ''thread_id'' = tid) all else own)"

definition single_in_thread :: "jobj list \<Rightarrow> json list \<Rightarrow> json \<Rightarrow> bool" where
  "single_in_thread ms origins tid =
     (length (filter (\<lambda>mid. key_of (thread_of (by_id ms mid)) = key_of tid) origins) \<le> 1)"

text \<open>\<open>now\<close>-dependent fields of one message item, from its bound records.\<close>

definition presented ::
    "wenv \<Rightarrow> bool \<Rightarrow> json \<Rightarrow> jobj \<Rightarrow> jobj list \<Rightarrow> jobj list \<Rightarrow> jobj option \<Rightarrow> bool \<Rightarrow> string \<Rightarrow> jobj" where
  "presented env running mid origin bound councils gate warned st =
     (let fmt = e_fmt env; now = e_now env;
          claim = latest_claim fmt bound; claim_at = jget (case claim of Some c \<Rightarrow> c | None \<Rightarrow> []) ''at'';
          act = filter (\<lambda>m. jget m ''message_id'' \<noteq> mid) bound;
          la = last_activity fmt act councils gate;
          run_at = fst (last_activity fmt (filter (\<lambda>m. jget m ''status'' \<noteq> JStr ''claimed'') act) councils gate);
          active = (claim \<noteq> None \<and> run_at \<noteq> JNull \<and> within (age fmt run_at JNull now) RUNNING_WINDOW) \<or> running;
          awaiting = awaiting_operator_reply fmt bound;
          sg = \<lparr>sg_status = st, sg_needs_operator = (st = ''operator_required''),
                sg_blocked = (st = ''malformed'' \<or> warned), sg_awaiting = awaiting, sg_claimed = (claim \<noteq> None),
                sg_active = active, sg_last = fst la, sg_created = jget origin ''at''\<rparr>
      in [(''thread_id'', thread_of origin), (''packet_id'', jget origin ''packet_id''),
          (''actor'', jget origin ''actor''), (''source'', jget origin ''source''),
          (''title'', jget origin ''message''), (''summary'', jget origin ''message''),
          (''created_at'', jget origin ''at''),
          (''claimed_by'', jget (case claim of Some c \<Rightarrow> c | None \<Rightarrow> []) ''actor''), (''claimed_at'', claim_at),
          (''last_activity_at'', fst la), (''last_activity_event'', JStr (fst (snd la))),
          (''last_activity_source_id'', snd (snd la)),
          (''runner_state'', JStr (runner_state fmt (claim \<noteq> None) claim_at active (council_in_flight councils)
             awaiting (gate \<noteq> None) st now)),
          (''record_class'', JStr (classify_record origin (has_lifecycle act councils gate claim) st)),
          (''presentation_state'', JStr (presentation_state fmt sg now))])"

definition item_warnings ::
    "wenv \<Rightarrow> wsys \<Rightarrow> jobj list \<Rightarrow> json list \<Rightarrow> json \<Rightarrow> jobj list" where
  "item_warnings env s ms origins mid =
     (let wid = work_item_id_for mid; tid = thread_of (by_id ms mid);
          (bound, ambiguous) = bound_records ms wid tid (single_in_thread ms origins tid)
      in (if ambiguous then [warning ''legacy_ambiguity'' wid [(''thread_id'', tid)]] else []) @
         state_warnings bound (shown_gate env s wid) wid)"

definition message_item ::
    "wenv \<Rightarrow> wsys \<Rightarrow> (json \<Rightarrow> bool) \<Rightarrow> jobj list \<Rightarrow> json list \<Rightarrow> jobj list \<Rightarrow> json \<Rightarrow> pyexc + jobj" where
  "message_item env s running ms origins all mid =
     (let origin = by_id ms mid; wid = work_item_id_for mid; tid = thread_of origin;
          single = single_in_thread ms origins tid;
          bound = fst (bound_records ms wid tid single);
          gate = shown_gate env s wid;
          councils = councils_of all wid tid single
      in sbind (derive_state (Some origin) bound gate councils) (\<lambda>st.
           Inr (work_item wid ''message'' st (next_action_for st)
             (presented env (running (JStr wid) \<or> running tid) mid origin bound councils gate
               (item_warnings env s ms origins mid \<noteq> []) st))))"

definition TERMINAL_STATES :: "string list" where
  "TERMINAL_STATES = [''done'', ''closed'', ''superseded'']"

definition kind_order :: "json \<Rightarrow> nat" where
  "kind_order j = (case map_of [(''packet'', 0), (''rfi'', 1), (''in_progress'', 2), (''message'', 3)] (py_str j) of
     Some n \<Rightarrow> n | None \<Rightarrow> 9)"

definition derive_work_items :: "wenv \<Rightarrow> wsys \<Rightarrow> bool \<Rightarrow> (json \<Rightarrow> bool) \<Rightarrow> pyexc + jobj list" where
  "derive_work_items env s include_all running =
     sbind (read_packets env s) (\<lambda>packets.
     sbind (read_messages (ie_reading (e_ident env)) JNull JNull None (messages s)) (\<lambda>ms.
     sbind (require (list_all (\<lambda>m. hashable (jget m ''message_id'')) ms) TypeError) (\<lambda>_.
     sbind (origin_message_ids env s ms) (\<lambda>ids.
     sbind (require (list_all (\<lambda>mid. hashable (thread_of (by_id ms mid))) ids) TypeError) (\<lambda>_.
     sbind (list_councils (e_councils env)) (\<lambda>all.
     sbind (map_exc (message_item env s running ms (e_order env ids) all) (e_order env ids)) (\<lambda>mitems.
       let items = concat (map packet_item packets) @ mitems;
           kept = (if include_all then items
             else filter (\<lambda>it. jget it ''status'' \<notin> JStr ` set TERMINAL_STATES) items)
       in sbind (map_exc (\<lambda>it. sbind (neg_time (jget it ''created_at'')) (\<lambda>t. Inr ((kind_order (jget it ''kind''), t), it))) kept) (\<lambda>keyed.
            Inr (map snd (sort_key fst keyed))))))))))"

definition no_run :: "json \<Rightarrow> bool" where
  "no_run j = False"

text \<open>\<open>integrity_warnings\<close>: the status of the manifest, then the warnings of every item.\<close>

definition integrity_warnings :: "wenv \<Rightarrow> wsys \<Rightarrow> pyexc + jobj list" where
  "integrity_warnings env s =
     sbind (read_messages (ie_reading (e_ident env)) JNull JNull None (messages s)) (\<lambda>ms.
     sbind (require (list_all (\<lambda>m. hashable (jget m ''message_id'')) ms) TypeError) (\<lambda>_.
     sbind (origin_message_ids env s ms) (\<lambda>ids.
     sbind (require (list_all (\<lambda>mid. hashable (thread_of (by_id ms mid))) ids) TypeError) (\<lambda>_.
     sbind (list_councils (e_councils env)) (\<lambda>all.
     sbind (map_exc (message_item env s no_run ms (e_order env ids) all) (e_order env ids)) (\<lambda>_.
       Inr ((case manifest_status (w_id s) of Some c \<Rightarrow> [[(''code'', JStr c)]] | None \<Rightarrow> []) @
            concat (map (item_warnings env s ms (e_order env ids)) (e_order env ids)))))))))"

section \<open>One work item\<close>

definition parse_work_item_id :: "json \<Rightarrow> (string \<times> string) option" where
  "parse_work_item_id work_item_id =
     (let wid = or_text work_item_id in
      if has_prefix ''message:'' wid then Some (''message'', drop 8 wid)
      else if has_prefix ''packet:'' wid \<and> has_suffix '':cta'' wid then Some (''packet'', slice 7 4 wid)
      else if has_prefix ''in_progress:'' wid then Some (''in_progress'', drop 12 wid)
      else if has_prefix ''rfi:'' wid then Some (''rfi'', drop 4 wid)
      else None)"

definition resolve_target :: "wenv \<Rightarrow> wsys \<Rightarrow> json \<Rightarrow> pyexc + (json \<times> json)" where
  "resolve_target env s wid =
     (case parse_work_item_id wid of
        None \<Rightarrow> Inr (JNull, JNull)
      | Some (kind, ref) \<Rightarrow>
          if kind = ''message'' then
            sbind (read_messages (ie_reading (e_ident env)) JNull JNull None (messages s)) (\<lambda>ms.
              Inr (case List.find (\<lambda>m. jget m ''message_id'' = JStr ref) ms of
                Some m \<Rightarrow> (jget m ''thread_id'', jget m ''packet_id'') | None \<Rightarrow> (JNull, JNull)))
          else
            sbind (read_messages (ie_reading (e_ident env)) (JStr ref) JNull None (messages s)) (\<lambda>ms.
              Inr (case List.find (\<lambda>m. truthy (jget m ''thread_id'')) ms of
                Some m \<Rightarrow> jget m ''thread_id'' | None \<Rightarrow> JNull, JStr ref)))"

definition find_work_item :: "wenv \<Rightarrow> wsys \<Rightarrow> json \<Rightarrow> pyexc + jobj option" where
  "find_work_item env s wid =
     sbind (derive_work_items env s True no_run) (\<lambda>items.
       case List.find (\<lambda>it. jget it ''work_item_id'' = wid) items of
         Some it \<Rightarrow> Inr (Some it)
       | None \<Rightarrow>
           (case message_id_of wid of
              None \<Rightarrow> Inr None
            | Some mid \<Rightarrow>
                if mid = [] then Inr None
                else
                  sbind (read_messages (ie_reading (e_ident env)) JNull JNull None (messages s)) (\<lambda>ms.
                  sbind (origin_message_ids env s ms) (\<lambda>ids.
                    if JStr mid \<notin> set ids then Inr None
                    else Inr (map_option (\<lambda>m. work_item (or_text wid) ''message'' ''open'' ''respond''
                        [(''thread_id'', jget m ''thread_id''), (''title'', jget m ''message''),
                         (''created_at'', jget m ''at'')])
                      (List.find (\<lambda>m. jget m ''message_id'' = JStr mid) ms))))))"

section \<open>The gate before every mutation\<close>

definition OPERATOR_ACTOR :: string where "OPERATOR_ACTOR = ''OPERATOR-0001''"

definition refusal :: "string \<Rightarrow> jobj \<Rightarrow> jobj" where
  "refusal err details = [(''ok'', JBool False), (''error'', JStr err)] @ details"

definition maintenance :: jobj where
  "maintenance = refusal ''maintenance_in_progress'' [(''error_code'', JStr ''maintenance_in_progress'')]"

text \<open>The origin thread a failure notice goes to.\<close>

definition notice_env :: "wenv \<Rightarrow> wsys \<Rightarrow> nenv" where
  "notice_env env s = (e_notice env)\<lparr>n_thread_of := (\<lambda>wid.
     case resolve_target env s wid of Inr (t, _) \<Rightarrow> t | Inl _ \<Rightarrow> JNull)\<rparr>"

text \<open>\<open>_gate_block\<close>: heal first, exempt the operator, refuse everyone else on an unresolved gate.\<close>

definition gate_block :: "wenv \<Rightarrow> wsys \<Rightarrow> json \<Rightarrow> json \<Rightarrow> (work_exc + jobj option) \<times> wsys" where
  "gate_block env s wid actor =
     (case heal_escalation_gates (e_gate env) (notice_env env s) (e_councils env) wid (gates s) of
        (Inl (TokenRefused Maintenance), g) \<Rightarrow> (Inr (Some maintenance), put_gates g s)
      | (Inl x, g) \<Rightarrow> (Inl (WGate x), put_gates g s)
      | (Inr healed, g) \<Rightarrow>
          let s' = put_gates g s in
          if \<not> truthy (jget healed ''ok'') then (Inr (Some healed), s')
          else if strip (py_str actor) = OPERATOR_ACTOR then (Inr None, s')
          else case active_gate (e_gate env) (gates s') wid of
              Inl x \<Rightarrow> (Inl (WGate x), s')
            | Inr None \<Rightarrow> (Inr None, s')
            | Inr (Some gate) \<Rightarrow> (Inr (Some (refusal_payload gate)), s'))"

section \<open>The message of an operation\<close>

definition work_args :: "json \<Rightarrow> json \<Rightarrow> json \<Rightarrow> string \<Rightarrow> string \<Rightarrow> json \<Rightarrow> json \<Rightarrow> json \<Rightarrow> json \<Rightarrow> msg_args" where
  "work_args actor text role direction status source wid thread packet =
     \<lparr>m_actor = actor, m_message = text, m_role = role, m_packet_id = packet, m_thread_id = thread,
      m_direction = JStr direction, m_status = JStr status, m_source = source, m_simulated = JBool False,
      m_work_item_id = wid, m_intent = JNull, m_closure = JNull, m_closure_meta = JNull,
      m_idempotency_key = JNull\<rparr>"

text \<open>Migration of the manifest, the target thread, the message and its write; \<open>str(exc)\<close> is a parameter
  of the environment.\<close>

definition post_bound ::
    "wenv \<Rightarrow> wsys \<Rightarrow> json \<Rightarrow> (json \<Rightarrow> json \<Rightarrow> msg_args) \<Rightarrow> (work_exc + jobj + jobj) \<times> wsys" where
  "post_bound env s wid args =
     (case ensure_migrated (e_ident env) (w_id s) of
        (Inl (ILocked Maintenance), i) \<Rightarrow> (Inr (Inl maintenance), s\<lparr>w_id := i\<rparr>)
      | (Inl (ILocked e), i) \<Rightarrow> (Inl (WLock e), s\<lparr>w_id := i\<rparr>)
      | (Inl (IRaised e), i) \<Rightarrow> (Inl (WRaised e), s\<lparr>w_id := i\<rparr>)
      | (Inr _, i) \<Rightarrow>
          let s1 = s\<lparr>w_id := i\<rparr>; pe = e_post env in
          (case resolve_target env s1 wid of
             Inl e \<Rightarrow> (Inl (WRaised e), s1)
           | Inr (thread, packet) \<Rightarrow>
               (case fst (build_message (n_fmt pe) (fst (n_clock pe)) (snd (n_clock pe)) (n_prev pe) (args thread packet)) of
                  Inl (msg_error.Raised e) \<Rightarrow> (Inl (WRaised e), s1)
                | Inl e \<Rightarrow> (Inr (Inl (refusal (n_post_text pe e) [])), s1)
                | Inr msg \<Rightarrow>
                    (case write_message (n_faults pe) (n_token pe) msg (messages s1) of
                       (Inr _, c) \<Rightarrow> (Inr (Inr msg), put_messages c s1)
                     | (Inl (msg_error.Locked Maintenance), c) \<Rightarrow>
                         (Inr (Inl (refusal ''maintenance_in_progress'' [])), put_messages c s1)
                     | (Inl (msg_error.Locked e), c) \<Rightarrow> (Inl (WLock e), put_messages c s1)
                     | (Inl (msg_error.Raised OSError), c) \<Rightarrow>
                         (Inr (Inl (refusal (n_post_text pe (msg_error.Raised OSError)) [])), put_messages c s1)
                     | (Inl (msg_error.Raised e), c) \<Rightarrow> (Inl (WRaised e), put_messages c s1)
                     | (Inl e, c) \<Rightarrow> (Inr (Inl (refusal (n_post_text pe e) [])), put_messages c s1)))))"

text \<open>The checks that precede a mutation: a known id that exists, and no gate in the way.\<close>

definition admitted :: "wenv \<Rightarrow> wsys \<Rightarrow> json \<Rightarrow> json \<Rightarrow> (work_exc + jobj option) \<times> wsys" where
  "admitted env s wid actor =
     (if parse_work_item_id wid = None then (Inr (Some (refusal ''unrecognized work_item_id'' [])), s)
      else case find_work_item env s wid of
        Inl e \<Rightarrow> (Inl (WRaised e), s)
      | Inr None \<Rightarrow> (Inr (Some (refusal ''work_item_not_found'' [(''work_item_id'', wid)])), s)
      | Inr (Some _) \<Rightarrow> gate_block env s wid actor)"

definition posted_ok :: "json \<Rightarrow> jobj \<Rightarrow> jobj" where
  "posted_ok wid msg = [(''ok'', JBool True), (''work_item_id'', wid), (''message'', JObj msg),
     (''thread_id'', jget msg ''thread_id'')]"

definition post_item ::
    "wenv \<Rightarrow> wsys \<Rightarrow> json \<Rightarrow> json \<Rightarrow> (json \<Rightarrow> json \<Rightarrow> msg_args) \<Rightarrow> (work_exc + jobj) \<times> wsys" where
  "post_item env s wid actor args =
     (case admitted env s wid actor of
        (Inl x, s1) \<Rightarrow> (Inl x, s1)
      | (Inr (Some r), s1) \<Rightarrow> (Inr r, s1)
      | (Inr None, s1) \<Rightarrow>
          (case post_bound env s1 wid args of
             (Inl x, s2) \<Rightarrow> (Inl x, s2)
           | (Inr (Inl r), s2) \<Rightarrow> (Inr r, s2)
           | (Inr (Inr msg), s2) \<Rightarrow> (Inr (posted_ok wid msg), s2)))"

definition respond_work_item ::
    "wenv \<Rightarrow> wsys \<Rightarrow> json \<Rightarrow> json \<Rightarrow> json \<Rightarrow> json \<Rightarrow> json \<Rightarrow> (work_exc + jobj) \<times> wsys" where
  "respond_work_item env s wid actor text role source =
     post_item env s wid actor (work_args actor text role ''outbound'' ''responded'' source wid)"

definition progress_work_item ::
    "wenv \<Rightarrow> wsys \<Rightarrow> json \<Rightarrow> json \<Rightarrow> json \<Rightarrow> json \<Rightarrow> json \<Rightarrow> (work_exc + jobj) \<times> wsys" where
  "progress_work_item env s wid actor text role source =
     post_item env s wid actor (work_args actor text role ''internal'' ''posted'' source wid)"

section \<open>Claiming\<close>

text \<open>The packet of a packet item is moved before the claim message is written.\<close>

definition claim_packet :: "wenv \<Rightarrow> wsys \<Rightarrow> string \<Rightarrow> json \<Rightarrow> (work_exc + jobj option) \<times> wsys" where
  "claim_packet env s ref actor =
     (case find_packet_path env s ref ''clearance_outbox'' of
        Inl e \<Rightarrow> (Inl (WRaised e), s)
      | Inr None \<Rightarrow> (Inr (Some (refusal (''CTA packet '' @ repr_str ref @ '' not found in the outbox'') [])), s)
      | Inr (Some path) \<Rightarrow>
          (case claim (e_faults env) (e_claimed_at env) path (strip (py_str actor)) False (w_packets s) of
             (code, w) \<Rightarrow>
               if code \<noteq> 0 then
                 (Inr (Some (refusal (''claim tool refused the packet claim (exit '' @ str_int code @ '')'') [])),
                  s\<lparr>w_packets := w\<rparr>)
               else (Inr None, s\<lparr>w_packets := w\<rparr>)))"

definition claim_work_item ::
    "wenv \<Rightarrow> wsys \<Rightarrow> json \<Rightarrow> json \<Rightarrow> json \<Rightarrow> json \<Rightarrow> (work_exc + jobj) \<times> wsys" where
  "claim_work_item env s wid actor role source =
     (if \<not> truthy actor \<or> blank (py_str actor)
      then (Inr (refusal ''actor is required and must be non-empty'' []), s)
      else case admitted env s wid actor of
        (Inl x, s1) \<Rightarrow> (Inl x, s1)
      | (Inr (Some r), s1) \<Rightarrow> (Inr r, s1)
      | (Inr None, s1) \<Rightarrow>
          (case parse_work_item_id wid of
             None \<Rightarrow> (Inr (refusal ''unrecognized work_item_id'' []), s1)
           | Some (kind, ref) \<Rightarrow>
               let (pr, s2) = (if kind = ''packet'' then claim_packet env s1 ref actor else (Inr None, s1));
                   text = (if kind = ''packet'' then ''claimed CTA packet '' @ ref
                           else ''claimed work item '' @ py_str wid)
               in case pr of
                 Inl x \<Rightarrow> (Inl x, s2)
               | Inr (Some r) \<Rightarrow> (Inr r, s2)
               | Inr None \<Rightarrow>
                   (case post_bound env s2 wid (work_args actor (JStr text) role ''internal'' ''claimed'' source wid) of
                      (Inl x, s3) \<Rightarrow> (Inl x, s3)
                    | (Inr (Inl r), s3) \<Rightarrow> (Inr r, s3)
                    | (Inr (Inr msg), s3) \<Rightarrow>
                        (Inr ([(''ok'', JBool True), (''work_item_id'', wid), (''kind'', JStr kind),
                           (''message'', JObj msg), (''thread_id'', jget msg ''thread_id'')] @
                           (if kind = ''packet'' then [(''packet_claimed'', JStr ref)] else [])), s3))))"

end
