(* ===== verification/Archive_Plan.thy ===== *)
theory Archive_Plan
  imports Work_Actions Archive_Journal
begin

text \<open>
  What may be archived and under whose authority (the first half of \<open>tools/clearwright_archive.py\<close>): pins,
  retention of threads, the live candidates, the approved inventory, the hash-bound move plan and the
  approvals of the operator; with the reading of agent events (\<open>read_events\<close> of
  \<open>tools/clearwright_agent_event.py\<close>).

  One computation sees one \<open>pview\<close> of the live queue: the state of the work-item loop, the pins, the
  modification times and hashes of files, the events, the directories of councils and the clock. Two
  computations may see different views. SHA-256, \<open>strptime\<close> and \<open>strftime\<close>, the real path of the
  queue root and the iteration order of a Python set are fields of the view.
\<close>

section \<open>The live view\<close>

record pview =
  v_env :: wenv
  v_sys :: wsys
  v_pins :: "content option"
  v_order :: "json list \<Rightarrow> json list"
  v_instant :: "string \<Rightarrow> int option"
  v_now :: int
  v_month :: string
  v_mtime :: "path \<Rightarrow> int option"
  v_events :: comms
  v_event_reading :: reading
  v_council_files :: "string \<Rightarrow> string list option"
  v_isfile :: "path \<Rightarrow> bool"
  v_sha :: "path \<Rightarrow> string option"
  v_real :: string
  v_digest :: "json \<Rightarrow> string"

abbreviation v_root :: "pview \<Rightarrow> path" where
  "v_root v \<equiv> e_root (v_env v)"

definition RETENTION :: int where "RETENTION = 72 * HOUR"
definition LATEST_RUNS_KEPT :: nat where "LATEST_RUNS_KEPT = 5"

definition SMOKE_KEYWORDS :: "string list" where
  "SMOKE_KEYWORDS = [''smoke'', ''proof'', ''e2e'', ''harness check'', ''adapter-fix'']"

definition cutoff :: "pview \<Rightarrow> int" where
  "cutoff v = v_now v - RETENTION"

text \<open>\<open>_parse_iso\<close>: \<open>strptime\<close> raises on a value that is not text.\<close>

definition parse_stamp :: "pview \<Rightarrow> json \<Rightarrow> pyexc + int option" where
  "parse_stamp v j =
     (if \<not> truthy j then Inr None
      else case j of JStr t \<Rightarrow> Inr (v_instant v t) | _ \<Rightarrow> Inl TypeError)"

text \<open>A set of ids: adding one that cannot be hashed raises.\<close>

definition id_set :: "json list \<Rightarrow> pyexc + json list" where
  "id_set ids = (if list_all hashable ids then Inr ids else Inl TypeError)"

section \<open>Pins\<close>

definition pinned_ids :: "content option \<Rightarrow> pyexc + json list" where
  "pinned_ids f =
     (case py_or (read_doc f) (JObj []) of
        JObj d \<Rightarrow> sbind (py_iter (get_or d ''pinned'' (JArr []))) id_set
      | _ \<Rightarrow> Inl AttributeError)"

text \<open>\<open>pin\<close> and \<open>unpin\<close> under a writer token: the sorted ids as written.\<close>

definition pins_doc :: "json list \<Rightarrow> content" where
  "pins_doc ids = Doc (JObj [(''pinned'', JArr ids)])"

definition update_pins ::
    "lock_error option \<Rightarrow> bool \<Rightarrow> (json list \<Rightarrow> json list) \<Rightarrow> json \<Rightarrow> content option \<Rightarrow>
       (lock_error + json list) \<times> content option" where
  "update_pins token writable change rid f =
     (case token of
        Some e \<Rightarrow> (Inl e, f)
      | None \<Rightarrow>
        (case sbind (pinned_ids f) (\<lambda>ids. sbind (in_ids rid ids) (\<lambda>_. sort_on (\<lambda>x. x) (distinct_ids (change ids)))) of
           Inl e \<Rightarrow> (Inl (lock_error.Escaped e), f)
         | Inr ids \<Rightarrow> if writable then (Inr ids, Some (pins_doc ids)) else (Inl (lock_error.Escaped OSError), f)))"

definition pin ::
    "lock_error option \<Rightarrow> bool \<Rightarrow> json \<Rightarrow> content option \<Rightarrow> (lock_error + json list) \<times> content option" where
  "pin token writable rid f = update_pins token writable (\<lambda>ids. ids @ [rid]) rid f"

definition unpin ::
    "lock_error option \<Rightarrow> bool \<Rightarrow> json \<Rightarrow> content option \<Rightarrow> (lock_error + json list) \<times> content option" where
  "unpin token writable rid f = update_pins token writable (filter (\<lambda>i. key_of i \<noteq> key_of rid)) rid f"

section \<open>Terminal threads\<close>

text \<open>\<open>_message_files\<close>: the documents of the message files in the order of their names.\<close>

definition message_path :: "pview \<Rightarrow> string \<Rightarrow> path" where
  "message_path v name = v_root v @ [''communications'', name]"

definition message_doc :: "pview \<Rightarrow> string \<times> content \<Rightarrow> (path \<times> json) list" where
  "message_doc v row =
     (let (name, c) = row in
      if \<not> has_suffix ''.json'' name \<or> \<not> readable (ie_reading (e_ident (v_env v))) name \<or> read_doc (Some c) = JNull
      then [] else [(message_path v name, read_doc (Some c))])"

definition message_files :: "pview \<Rightarrow> pyexc + (path \<times> json) list" where
  "message_files v =
     (if listed (ie_reading (e_ident (v_env v)))
      then Inr (concat (map (message_doc v) (sort_key fst (mfiles (messages (v_sys v))))))
      else Inl OSError)"

definition as_object :: "json \<Rightarrow> pyexc + jobj" where
  "as_object j = (case j of JObj m \<Rightarrow> Inr m | _ \<Rightarrow> Inl AttributeError)"

text \<open>Only the statuses \<open>open\<close> and \<open>claimed\<close> count as open here.\<close>

definition open_thread_ids :: "pview \<Rightarrow> pyexc + json list" where
  "open_thread_ids v =
     sbind (derive_work_items (v_env v) (v_sys v) False no_run) (\<lambda>items.
       id_set (filter truthy (map (\<lambda>it. jget it ''thread_id'')
         (filter (\<lambda>it. jget it ''kind'' = JStr ''message'' \<and>
            jget it ''status'' \<in> {JStr ''open'', JStr ''claimed''}) items))))"

definition nonterminal_packet_ids :: "pview \<Rightarrow> pyexc + json list" where
  "nonterminal_packet_ids v =
     sbind (derive_work_items (v_env v) (v_sys v) False no_run) (\<lambda>items.
       id_set (filter truthy (map (\<lambda>it. jget it ''packet_id'')
         (filter (\<lambda>it. jget it ''kind'' \<in> {JStr ''packet'', JStr ''rfi'', JStr ''in_progress''}) items))))"

definition thread_row :: "path \<times> json \<Rightarrow> pyexc + jobj" where
  "thread_row d =
     sbind (as_object (snd d)) (\<lambda>m.
     sbind (require (truthy (jget m ''thread_id'') \<longrightarrow> hashable (jget m ''thread_id'')) TypeError) (\<lambda>_. Inr m))"

definition threads_of :: "jobj list \<Rightarrow> json list" where
  "threads_of ms = distinct_ids (filter truthy (map (\<lambda>m. jget m ''thread_id'') ms))"

definition in_thread :: "jobj list \<Rightarrow> json \<Rightarrow> jobj list" where
  "in_thread ms tid = filter (\<lambda>m. truthy (jget m ''thread_id'') \<and> key_of (jget m ''thread_id'') = key_of tid) ms"

fun any_exc :: "('a \<Rightarrow> 'e + bool) \<Rightarrow> 'a list \<Rightarrow> 'e + bool" where
  "any_exc f [] = Inr False"
| "any_exc f (x # xs) = sbind (f x) (\<lambda>b. if b then Inr True else any_exc f xs)"

definition is_terminal :: "json list \<Rightarrow> json list \<Rightarrow> jobj list \<Rightarrow> json \<Rightarrow> pyexc + bool" where
  "is_terminal opn packets ms tid =
     sbind (in_ids tid opn) (\<lambda>is_open.
       if is_open then Inr False
       else sbind (any_exc (\<lambda>m. in_ids (jget m ''packet_id'') packets) (in_thread ms tid)) (\<lambda>b. Inr (\<not> b)))"

fun filter_exc :: "('a \<Rightarrow> 'e + bool) \<Rightarrow> 'a list \<Rightarrow> 'e + 'a list" where
  "filter_exc f [] = Inr []"
| "filter_exc f (x # xs) = sbind (f x) (\<lambda>b. sbind (filter_exc f xs) (\<lambda>ys. Inr (if b then x # ys else ys)))"

definition terminal_thread_ids :: "pview \<Rightarrow> pyexc + (json list \<times> jobj list)" where
  "terminal_thread_ids v =
     sbind (open_thread_ids v) (\<lambda>opn.
     sbind (nonterminal_packet_ids v) (\<lambda>packets.
     sbind (message_files v) (\<lambda>ds.
     sbind (map_exc thread_row ds) (\<lambda>ms.
     sbind (filter_exc (is_terminal opn packets ms) (threads_of ms)) (\<lambda>tids. Inr (tids, ms))))))"

section \<open>Retention\<close>

definition at_of :: "jobj \<Rightarrow> json" where
  "at_of m = py_or (jget m ''at'') (JStr [])"

text \<open>\<open>max\<close> of the timestamps. A mixture cannot be compared; other comparable values would raise in
  \<open>_parse_iso\<close>, which is applied to the result at once.\<close>

definition thread_last_at :: "jobj list \<Rightarrow> pyexc + string" where
  "thread_last_at ms =
     (if list_all (\<lambda>m. is_str (at_of m)) ms
      then Inr (foldr (\<lambda>m t. max (py_str (at_of m)) t) ms []) else Inl TypeError)"

definition thread_origin :: "jobj list \<Rightarrow> jobj" where
  "thread_origin ms = (case sort_key (\<lambda>m. py_str (at_of m)) ms of [] \<Rightarrow> [] | m # _ \<Rightarrow> m)"

definition is_smoke_origin :: "jobj \<Rightarrow> pyexc + bool" where
  "is_smoke_origin origin =
     (if origin = [] then Inr False
      else case py_or (jget origin ''message'') (JStr []) of
        JStr t \<Rightarrow> Inr (list_ex (\<lambda>k. find_word True False k (lower t)) SMOKE_KEYWORDS)
      | _ \<Rightarrow> Inl AttributeError)"

record trow =
  t_id :: json
  t_last :: string
  t_smoke :: bool
  t_recent :: bool
  t_pinned :: bool

definition retention_row :: "pview \<Rightarrow> json list \<Rightarrow> jobj list \<Rightarrow> json \<Rightarrow> pyexc + trow" where
  "retention_row v pins ms tid =
     (let own = in_thread ms tid in
      sbind (thread_last_at own) (\<lambda>t.
      sbind (parse_stamp v (JStr t)) (\<lambda>dt.
      sbind (is_smoke_origin (thread_origin own)) (\<lambda>smoke.
      sbind (in_ids tid pins) (\<lambda>pinned.
        Inr \<lparr>t_id = tid, t_last = t, t_smoke = smoke,
             t_recent = (case dt of None \<Rightarrow> True | Some x \<Rightarrow> cutoff v \<le> x), t_pinned = pinned\<rparr>)))))"

text \<open>\<open>sorted(..., reverse=True)\<close> keeps the order of equal keys.\<close>

definition newest_first :: "trow list \<Rightarrow> trow list" where
  "newest_first rs = rev (sort_key t_last (rev rs))"

definition genuine :: "trow list \<Rightarrow> trow list" where
  "genuine rows = filter (\<lambda>r. \<not> t_smoke r \<and> \<not> t_pinned r) rows"

definition old_runs :: "trow list \<Rightarrow> trow list" where
  "old_runs rows = newest_first (filter (\<lambda>r. \<not> t_recent r) (genuine rows))"

definition kept_rows :: "trow list \<Rightarrow> trow list" where
  "kept_rows rows = filter t_pinned rows @ filter t_recent (genuine rows) @ take LATEST_RUNS_KEPT (old_runs rows)"

definition archived_rows :: "trow list \<Rightarrow> trow list" where
  "archived_rows rows =
     filter (\<lambda>r. t_smoke r \<and> \<not> t_pinned r) rows @ drop LATEST_RUNS_KEPT (old_runs rows)"

definition thread_rows :: "pview \<Rightarrow> pyexc + trow list" where
  "thread_rows v =
     sbind (pinned_ids (v_pins v)) (\<lambda>pins.
     sbind (terminal_thread_ids v) (\<lambda>(tids, ms).
       map_exc (retention_row v pins ms) (v_order v tids)))"

definition classify_threads :: "pview \<Rightarrow> pyexc + (json list \<times> json list)" where
  "classify_threads v =
     sbind (thread_rows v) (\<lambda>rows. Inr (map t_id (kept_rows rows), map t_id (archived_rows rows)))"

section \<open>Candidates\<close>

text \<open>\<open>read_events\<close> sorts like the messages.\<close>

definition read_events :: "pview \<Rightarrow> pyexc + jobj list" where
  "read_events v = read_messages (v_event_reading v) JNull JNull None (v_events v)"

text \<open>The ids of old events up to the first one that raises: the whole loop is under \<open>except Exception\<close>.\<close>

fun old_events :: "pview \<Rightarrow> json list \<Rightarrow> jobj list \<Rightarrow> json list" where
  "old_events v pins [] = []"
| "old_events v pins (e # es) =
     (let eid = jget e ''event_id'' in
      if \<not> truthy eid then old_events v pins es
      else case in_ids eid pins of
        Inl _ \<Rightarrow> []
      | Inr True \<Rightarrow> old_events v pins es
      | Inr False \<Rightarrow>
          (case parse_stamp v (at_of e) of
             Inl _ \<Rightarrow> []
           | Inr None \<Rightarrow> old_events v pins es
           | Inr (Some t) \<Rightarrow> if t < cutoff v then eid # old_events v pins es else old_events v pins es))"

definition event_candidates :: "pview \<Rightarrow> json list \<Rightarrow> json list" where
  "event_candidates v pins = (case read_events v of Inl _ \<Rightarrow> [] | Inr es \<Rightarrow> old_events v pins es)"

definition council_candidate :: "json list \<Rightarrow> jobj \<Rightarrow> pyexc + json list" where
  "council_candidate threads c =
     sbind (in_ids (jget c ''thread_id'') threads) (\<lambda>b. Inr (if b then [jget c ''council_id''] else []))"

definition packet_candidate :: "pview \<Rightarrow> json list \<Rightarrow> prow \<Rightarrow> pyexc + json list" where
  "packet_candidate v pins p =
     (if p_lane p \<noteq> ''clearance_done'' then Inr []
      else sbind (in_ids (p_id p) pins) (\<lambda>pinned.
        if pinned then Inr []
        else case v_mtime v (p_path p) of
          None \<Rightarrow> Inr []
        | Some t \<Rightarrow> Inr (if t < cutoff v then [p_id p] else [])))"

record candidates =
  cd_threads :: "json list"
  cd_councils :: "json list"
  cd_packets :: "json list"
  cd_events :: "json list"
  cd_keep :: "json list"

definition compute_live_candidates :: "pview \<Rightarrow> pyexc + candidates" where
  "compute_live_candidates v =
     sbind (pinned_ids (v_pins v)) (\<lambda>pins.
     sbind (classify_threads v) (\<lambda>(keep, arch).
     sbind (list_councils (e_councils (v_env v))) (\<lambda>cs.
     sbind (map_exc (council_candidate arch) cs) (\<lambda>cids.
     sbind (sort_on (\<lambda>x. x) (concat cids)) (\<lambda>councils.
     sbind (read_packets (v_env v) (v_sys v)) (\<lambda>packets.
     sbind (map_exc (packet_candidate v pins) packets) (\<lambda>pids.
     sbind (sort_on (\<lambda>x. x) arch) (\<lambda>threads.
     sbind (sort_on (\<lambda>x. x) (concat pids)) (\<lambda>clearance.
     sbind (sort_on (\<lambda>x. x) (event_candidates v pins)) (\<lambda>events.
     sbind (sort_on (\<lambda>x. x) keep) (\<lambda>kept.
       Inr \<lparr>cd_threads = threads, cd_councils = councils, cd_packets = clearance, cd_events = events,
            cd_keep = kept\<rparr>)))))))))))"

end
