(* ===== verification/Archive_Authority.thy ===== *)
theory Archive_Authority
  imports Archive_Plan
begin

text \<open>
  The approved inventory, the hash-bound plan of moves and the operator's authority over it
  (\<open>tools/clearwright_archive.py\<close>): \<open>load_inventory\<close>, \<open>generate_plan\<close>, the approval records and the message
  behind them, and the audited override of a stuck exclusive flag.
\<close>

section \<open>The inventory\<close>

definition TYPES :: "string list" where
  "TYPES = [''thread'', ''council'', ''clearance_packet'', ''agent_event'']"

definition of_type :: "candidates \<Rightarrow> string \<Rightarrow> json list" where
  "of_type c ty =
     (if ty = ''thread'' then cd_threads c else if ty = ''council'' then cd_councils c
      else if ty = ''clearance_packet'' then cd_packets c else if ty = ''agent_event'' then cd_events c else [])"

definition without :: "string list \<Rightarrow> jobj \<Rightarrow> jobj" where
  "without ks ob = filter (\<lambda>(k, _). k \<notin> set ks) ob"

definition compute_inventory_hash :: "(json \<Rightarrow> string) \<Rightarrow> jobj \<Rightarrow> string" where
  "compute_inventory_hash dg inventory = dg (JObj (without [''content_hash'', ''generated_at''] inventory))"

definition load_inventory :: "(json \<Rightarrow> string) \<Rightarrow> content option \<Rightarrow> (pyexc + string) + jobj" where
  "load_inventory dg f =
     (case f of
        None \<Rightarrow> Inl (Inl OSError)
      | Some Torn \<Rightarrow> Inl (Inl ValueError)
      | Some (Doc (JObj d)) \<Rightarrow>
          if jget d ''content_hash'' \<noteq> JStr (compute_inventory_hash dg d)
          then Inl (Inr ''inventory_hash_mismatch'') else Inr d
      | Some (Doc _) \<Rightarrow> Inl (Inl AttributeError))"

definition record_key :: "json \<Rightarrow> pyexc + (json \<times> json)" where
  "record_key r = sbind (py_item r ''type'') (\<lambda>ty. sbind (py_item r ''id'') (\<lambda>i. Inr (ty, i)))"

definition inventory_records :: "jobj \<Rightarrow> pyexc + (json \<times> json) list" where
  "inventory_records d =
     sbind (py_item (JObj d) ''records'') (\<lambda>rs.
     sbind (py_iter rs) (\<lambda>xs. map_exc record_key xs))"

text \<open>\<open>build_inventory\<close>: the rows sorted by type and id, with their hash.\<close>

definition build_inventory :: "(json \<Rightarrow> string) \<Rightarrow> string \<Rightarrow> (string \<times> string \<times> jobj) list \<Rightarrow> jobj" where
  "build_inventory dg now rows =
     (let d = [(''schema_version'', JInt 1), (''generated_at'', JStr now),
        (''records'', JArr (map (\<lambda>(ty, i, rest). JObj ([(''type'', JStr ty), (''id'', JStr i)] @ rest))
           (sort_key (\<lambda>(ty, i, _). (ty, i)) rows)))]
      in jput ''content_hash'' (JStr (compute_inventory_hash dg d)) d)"

text \<open>\<open>diff_against_approved\<close>: for each type the computed ids that are not approved, and the approved ids that
  do not qualify, sorted.\<close>

definition minus_ids :: "json list \<Rightarrow> json list \<Rightarrow> json list" where
  "minus_ids xs ys = filter (\<lambda>x. key_of x \<notin> key_of ` set ys) (distinct_ids xs)"

definition approved_of :: "(json \<times> json) list \<Rightarrow> string \<Rightarrow> json list" where
  "approved_of recs ty = map snd (filter (\<lambda>(t, _). t = JStr ty) recs)"

definition differences :: "(string \<Rightarrow> json list) \<Rightarrow> (string \<Rightarrow> json list) \<Rightarrow> pyexc + (string \<times> json list) list" where
  "differences f g =
     sbind (map_exc (\<lambda>ty. sbind (sort_on (\<lambda>x. x) (minus_ids (f ty) (g ty))) (\<lambda>ids. Inr (ty, ids))) TYPES)
       (\<lambda>ds. Inr (filter (\<lambda>(_, ids). ids \<noteq> []) ds))"

definition diff_against_approved ::
    "candidates \<Rightarrow> (json \<times> json) list \<Rightarrow> pyexc + ((string \<times> json list) list \<times> (string \<times> json list) list)" where
  "diff_against_approved c recs =
     sbind (require (list_all (\<lambda>(t, i). hashable t \<and> hashable i) recs) TypeError) (\<lambda>_.
     sbind (require (list_all (\<lambda>ty. list_all hashable (of_type c ty)) TYPES) TypeError) (\<lambda>_.
     sbind (differences (of_type c) (approved_of recs)) (\<lambda>extra.
     sbind (differences (approved_of recs) (of_type c)) (\<lambda>missing. Inr (extra, missing)))))"

section \<open>The plan\<close>

text \<open>A name that holds a path separator is kept as one component of a path.\<close>

definition sidecars :: "pview \<Rightarrow> string \<Rightarrow> path list" where
  "sidecars v mid =
     filter (v_isfile v) (map (\<lambda>d. v_root v @ [d, mid @ ''.json'']) [''task_envelopes'', ''summaries''])"

definition thread_files :: "pview \<Rightarrow> json \<Rightarrow> path \<times> json \<Rightarrow> pyexc + path list" where
  "thread_files v rid d =
     sbind (as_object (snd d)) (\<lambda>m.
       if key_of (jget m ''thread_id'') \<noteq> key_of rid then Inr []
       else if \<not> truthy (jget m ''message_id'') then Inr [fst d]
       else case jget m ''message_id'' of JStr mid \<Rightarrow> Inr (fst d # sidecars v mid) | _ \<Rightarrow> Inl TypeError)"

definition resolve_record_files :: "pview \<Rightarrow> string \<Rightarrow> json \<Rightarrow> pyexc + path list" where
  "resolve_record_files v ty rid =
     (if ty = ''thread'' then
        sbind (message_files v) (\<lambda>ds. sbind (map_exc (thread_files v rid) ds) (\<lambda>ps. Inr (concat ps)))
      else if ty = ''council'' then
        (case rid of
           JStr c \<Rightarrow> Inr (case v_council_files v c of None \<Rightarrow> []
             | Some names \<Rightarrow> map (\<lambda>n. v_root v @ [''review_councils'', c, n]) (sort names))
         | _ \<Rightarrow> Inl TypeError)
      else if ty = ''clearance_packet'' then
        sbind (read_packets (v_env v) (v_sys v)) (\<lambda>rows.
          Inr (map p_path (filter (\<lambda>p. key_of (p_id p) = key_of rid) rows)))
      else if ty = ''agent_event'' then
        (case rid of
           JStr e \<Rightarrow> Inr (filter (v_isfile v) [v_root v @ [''agent_events'', e @ ''.json'']])
         | _ \<Rightarrow> Inl TypeError)
      else Inr [])"

record pentry =
  pe_id :: json
  pe_type :: string
  pe_src :: path
  pe_rel :: path
  pe_dst :: path
  pe_sha :: string

definition plan_entry :: "pview \<Rightarrow> string \<Rightarrow> json \<Rightarrow> path \<Rightarrow> pyexc + pentry" where
  "plan_entry v ty rid src =
     (case v_sha v src of
        None \<Rightarrow> Inl OSError
      | Some h \<Rightarrow> Inr \<lparr>pe_id = rid, pe_type = ty, pe_src = src, pe_rel = relpath src (v_root v),
          pe_dst = archive_root (v_root v) @ [v_month v] @ relpath src (v_root v), pe_sha = h\<rparr>)"

text \<open>The type of a record as one of the four kinds of candidate; any other type has none.\<close>

definition kind_text :: "json \<Rightarrow> string" where
  "kind_text ty = (case ty of JStr t \<Rightarrow> t | _ \<Rightarrow> [])"

definition qualifies :: "candidates \<Rightarrow> json \<times> json \<Rightarrow> bool" where
  "qualifies c r = (key_of (snd r) \<in> key_of ` set (of_type c (kind_text (fst r))))"

definition record_entries :: "pview \<Rightarrow> candidates \<Rightarrow> json \<times> json \<Rightarrow> pyexc + pentry list" where
  "record_entries v c r =
     (if \<not> qualifies c r then Inr []
      else sbind (resolve_record_files v (kind_text (fst r)) (snd r)) (\<lambda>srcs.
        map_exc (plan_entry v (kind_text (fst r)) (snd r)) srcs))"

definition rel_text :: "path \<Rightarrow> string" where
  "rel_text p = join ''/'' p"

definition entry_order :: "pentry \<Rightarrow> string \<times> int \<times> string \<times> string" where
  "entry_order e = (pe_type e, integer_of (pe_id e), kind_text (pe_id e), rel_text (pe_rel e))"

record plan =
  pl_entries :: "pentry list"
  pl_hash :: string
  pl_skipped :: "(string \<times> json list) list"

definition entry_doc :: "pentry \<Rightarrow> json" where
  "entry_doc e = JObj [(''id'', pe_id e), (''type'', JStr (pe_type e)), (''rel_path'', JStr (rel_text (pe_rel e))),
     (''sha256'', JStr (pe_sha e))]"

definition compute_plan_hash :: "pview \<Rightarrow> pentry list \<Rightarrow> string" where
  "compute_plan_hash v es =
     v_digest v (JObj [(''schema_version'', JInt 1), (''queue_root'', JStr (v_real v)),
       (''entries'', JArr (map entry_doc es))])"

datatype planning = OutsideInventory "(string \<times> json list) list" | Planned plan

definition generate_plan :: "pview \<Rightarrow> jobj \<Rightarrow> pyexc + planning" where
  "generate_plan v inventory =
     sbind (compute_live_candidates v) (\<lambda>c.
     sbind (inventory_records inventory) (\<lambda>recs.
     sbind (diff_against_approved c recs) (\<lambda>(extra, missing).
       if extra \<noteq> [] then Inr (OutsideInventory extra)
       else sbind (map_exc (record_entries v c) recs) (\<lambda>ess.
         let es = sort_key entry_order (concat ess)
         in Inr (Planned \<lparr>pl_entries = es, pl_hash = compute_plan_hash v es, pl_skipped = missing\<rparr>)))))"

definition dry_run :: "pview \<Rightarrow> content option \<Rightarrow> ((pyexc + string) + planning)" where
  "dry_run v f =
     sbind (load_inventory (v_digest v) f) (\<lambda>inv.
       case generate_plan v inv of Inl e \<Rightarrow> Inl (Inl e) | Inr p \<Rightarrow> Inr p)"

section \<open>Approvals\<close>

record approval_env =
  ap_id :: string
  ap_now :: string
  ap_root :: string
  ap_writable :: bool
  ap_readable :: "string \<Rightarrow> bool"
  ap_instant :: "string \<Rightarrow> int option"

type_synonym approvals = "(string \<times> content) list"

definition hex64 :: "string \<Rightarrow> bool" where
  "hex64 t = (length t = 64 \<and> list_all (\<lambda>c. is_digit c \<or> c \<in> set ''abcdef'') t)"

definition approval_record :: "approval_env \<Rightarrow> string \<Rightarrow> json \<Rightarrow> json \<Rightarrow> jobj" where
  "approval_record env h mid operator =
     [(''schema_version'', JInt 1), (''approval_id'', JStr (ap_id env)), (''queue_root'', JStr (ap_root env)),
      (''archive_operation'', JStr ''archive_execute''), (''approved_plan_sha256'', JStr h),
      (''operator_message_id'', mid), (''created_at'', JStr (ap_now env)), (''operator'', operator),
      (''revoked'', JBool False)]"

definition write_approval ::
    "approval_env \<Rightarrow> json \<Rightarrow> json \<Rightarrow> json \<Rightarrow> approvals \<Rightarrow> ((pyexc + string) + jobj) \<times> approvals" where
  "write_approval env plan_hash mid operator s =
     (let h = lower (clean plan_hash); rec = approval_record env h mid operator in
      if \<not> hex64 h then (Inl (Inr ''approved_plan_sha256 must be a full 64-hex-character sha256''), s)
      else if \<not> ap_writable env then (Inl (Inl OSError), s)
      else (Inr rec, AList.update (ap_id env @ ''.json'') (Doc (JObj rec)) s))"

definition read_approval :: "approval_env \<Rightarrow> approvals \<Rightarrow> string \<Rightarrow> json" where
  "read_approval env s name = (if ap_readable env name then read_doc (map_of s name) else JNull)"

definition revoke_approval ::
    "approval_env \<Rightarrow> string \<Rightarrow> approvals \<Rightarrow> ((pyexc + string) + jobj) \<times> approvals" where
  "revoke_approval env aid s =
     (case read_approval env s (aid @ ''.json'') of
        JNull \<Rightarrow> (Inl (Inr (''approval not found: '' @ aid)), s)
      | JObj rec \<Rightarrow>
          if \<not> ap_writable env then (Inl (Inl OSError), s)
          else (Inr (jput ''revoked'' (JBool True) rec),
            AList.update (aid @ ''.json'') (Doc (JObj (jput ''revoked'' (JBool True) rec))) s)
      | _ \<Rightarrow> (Inl (Inl TypeError), s))"

definition list_approvals :: "approval_env \<Rightarrow> approvals \<Rightarrow> json list" where
  "list_approvals env s =
     filter truthy (map (read_approval env s) (filter (has_suffix ''.json'') (sort (remdups (map fst s)))))"

text \<open>A record for this plan, with the time it was created.\<close>

definition eligible_record :: "approval_env \<Rightarrow> string \<Rightarrow> json \<Rightarrow> pyexc + (int \<times> jobj) list" where
  "eligible_record env h j =
     sbind (as_object j) (\<lambda>rec.
       if key_of (jget rec ''schema_version'') \<noteq> JInt 1 \<or> truthy (jget rec ''revoked'') \<or>
          jget rec ''archive_operation'' \<noteq> JStr ''archive_execute'' \<or> jget rec ''queue_root'' \<noteq> JStr (ap_root env) \<or>
          lower (py_str (py_or (jget rec ''approved_plan_sha256'') (JStr []))) \<noteq> h
       then Inr []
       else case py_or (jget rec ''created_at'') (JStr []) of
         JStr t \<Rightarrow> Inr (if t = [] then [] else case ap_instant env t of None \<Rightarrow> [] | Some x \<Rightarrow> [(x, rec)])
       | _ \<Rightarrow> Inl TypeError)"

definition find_eligible_approval :: "approval_env \<Rightarrow> string \<Rightarrow> approvals \<Rightarrow> pyexc + (string + jobj)" where
  "find_eligible_approval env plan_hash s =
     sbind (map_exc (eligible_record env (lower (strip plan_hash))) (list_approvals env s)) (\<lambda>css.
       let cs = sort_key fst (concat css) in
       if cs = [] then Inr (Inl ''no_archive_authority'')
       else case filter (\<lambda>c. fst c = fst (last cs)) cs of
         [c] \<Rightarrow> Inr (Inr (snd c))
       | _ \<Rightarrow> Inr (Inl ''ambiguous_archive_authority''))"

definition operator_inbound :: "jobj \<Rightarrow> bool" where
  "operator_inbound m = (jget m ''actor'' = JStr ''OPERATOR-0001'' \<and> jget m ''direction'' = JStr ''inbound'')"

definition message_with :: "reading \<Rightarrow> comms \<Rightarrow> json \<Rightarrow> pyexc + jobj option" where
  "message_with rd c mid =
     sbind (read_messages rd JNull JNull None c) (\<lambda>ms.
       Inr (List.find (\<lambda>m. key_of (jget m ''message_id'') = key_of mid) ms))"

definition validate_approval_message :: "reading \<Rightarrow> comms \<Rightarrow> jobj \<Rightarrow> pyexc + string option" where
  "validate_approval_message rd c approval =
     sbind (message_with rd c (jget approval ''operator_message_id'')) (\<lambda>found.
       case found of
         None \<Rightarrow> Inr (Some ''authority_message_not_found'')
       | Some m \<Rightarrow>
           if \<not> operator_inbound m then Inr (Some ''authority_not_operator_inbound'')
           else sbind (py_in (get_or approval ''approved_plan_sha256'' (JStr [])) (py_or (jget m ''message'') (JStr [])))
             (\<lambda>b. Inr (if b then None else Some ''authority_missing_hash_token'')))"

section \<open>The override\<close>

definition life_text :: "life \<Rightarrow> string" where
  "life_text l = (case l of Live \<Rightarrow> ''live'' | Dead \<Rightarrow> ''dead'' | Indeterminate \<Rightarrow> ''indeterminate'')"

definition override_record :: "string \<Rightarrow> string \<Rightarrow> json \<Rightarrow> json \<Rightarrow> jobj \<Rightarrow> life \<Rightarrow> jobj" where
  "override_record oid now mid why fl l =
     [(''schema_version'', JInt 1), (''override_id'', JStr oid), (''at'', JStr now), (''operator_message_id'', mid),
      (''reason'', why), (''flag'', JObj fl), (''liveness_at_override'', JStr (life_text l))]"

definition apply_override ::
    "bool \<Rightarrow> io \<Rightarrow> os_view \<Rightarrow> string \<Rightarrow> string \<Rightarrow> reading \<Rightarrow> comms \<Rightarrow> json \<Rightarrow> json \<Rightarrow> locks \<times> jobj list \<Rightarrow>
       ((pyexc + string) + jobj) \<times> (locks \<times> jobj list)" where
  "apply_override writable io os oid now rd c mid why s =
     (case message_with rd c mid of
        Inl e \<Rightarrow> (Inl (Inl e), s)
      | Inr found \<Rightarrow>
          if (case found of None \<Rightarrow> True | Some m \<Rightarrow> \<not> operator_inbound m)
          then (Inl (Inr ''override authority message not found or not operator-inbound''), s)
          else case current_exclusive (fst s) of
            JNull \<Rightarrow> (Inl (Inr ''no exclusive flag is currently held''), s)
          | JObj fl \<Rightarrow>
              (case liveness os (jget fl ''pid'') (jget fl ''host'') (jget fl ''proc_start'') of
                 Inl e \<Rightarrow> (Inl (Inl e), s)
               | Inr Live \<Rightarrow> (Inl (Inr ''refused: the exclusive owner is confirmed live''), s)
               | Inr l \<Rightarrow>
                   if \<not> writable then (Inl (Inl OSError), s)
                   else let rec = override_record oid now mid why fl l in
                     (Inr rec, (snd (force_clear_exclusive io (fst s)), snd s @ [rec])))
          | _ \<Rightarrow> (Inl (Inl AttributeError), s))"

end
