(* ===== verification/Archive_Execute.thy ===== *)
theory Archive_Execute
  imports Archive_Authority Archive_Recovery
begin

text \<open>
  Executing the archive (\<open>execute\<close> of \<open>tools/clearwright_archive.py\<close>): recovery of interrupted runs, the plan,
  its approval, the exclusive flag, the plan again under the flag, and only then the journal and the moves.

  The two computations of the plan see two views; the hashes of files come from the archive's own state at
  that moment. \<open>x_passes\<close> are the attempts to get the flag with what other processes do between them.
  An interrupted run is one that met an \<open>OSError\<close>, after which the flag is released, or a
  crash, after which nothing runs: \<open>x_survives\<close> says which.
\<close>

record asys =
  as_arch :: archive
  as_locks :: locks
  as_approvals :: approvals

record xenv =
  x_arch :: aenv
  x_inventory :: "content option"
  x_first :: pview
  x_second :: pview
  x_approval :: approval_env
  x_month :: string
  x_opid :: string
  x_nonce :: string
  x_pid :: int
  x_passes :: "((locks \<Rightarrow> locks) \<times> io \<times> stamps \<times> os_view \<times> archive_view \<times> string list) list"
  x_release :: io
  x_survives :: bool

datatype exec_error =
    ExecHalted halt | ExecInterrupted | ExecLock lock_error | ExecRaised pyexc | ExecRefused string

datatype execution =
    NotInInventory "(string \<times> json list) list"
  | NoAuthority string string
  | Drifted string "string option"
  | Executed string manifest

definition exec_key :: "xenv \<Rightarrow> jkey" where
  "exec_key x = (x_month x, x_opid x)"

text \<open>The view with the hashes of the files as they are now.\<close>

definition at_state :: "xenv \<Rightarrow> pview \<Rightarrow> asys \<Rightarrow> pview" where
  "at_state x v s = v\<lparr>v_sha := (\<lambda>p. map_option (digest (x_arch x)) (stored (as_arch s) p))\<rparr>"

text \<open>Ids are text in the index; an id of another type is written as its text.\<close>

definition item_of :: "pentry \<Rightarrow> item" where
  "item_of e = \<lparr>it_id = py_str (pe_id e), it_type = pe_type e, it_src = pe_src e, it_dst = pe_dst e, it_sha = pe_sha e\<rparr>"

definition lift_error :: "aexc \<Rightarrow> exec_error" where
  "lift_error e = (case e of
      Halted h \<Rightarrow> ExecHalted h | Interrupted \<Rightarrow> ExecInterrupted | aexc.Escaped x \<Rightarrow> ExecRaised x)"

definition run_plan :: "xenv \<Rightarrow> plan \<Rightarrow> string \<Rightarrow> jobj \<Rightarrow> manifest am" where
  "run_plan x p h approval =
     abind (write_journal (x_arch x) (exec_key x) (map item_of (pl_entries p)) (JStr h) (Some approval)) (\<lambda>j.
     abind (execute_journal (x_arch x) (exec_key x) j) (\<lambda>_.
       finalize_journal (x_arch x) (exec_key x) j approval))"

text \<open>The body of the \<open>try\<close> block, while the flag is held.\<close>

definition locked_body :: "xenv \<Rightarrow> jobj \<Rightarrow> string \<Rightarrow> jobj \<Rightarrow> asys \<Rightarrow> (exec_error + execution) \<times> asys" where
  "locked_body x inventory h approval s =
     (case generate_plan (at_state x (x_second x) s) inventory of
        Inl e \<Rightarrow> (Inl (ExecRaised e), s)
      | Inr (OutsideInventory _) \<Rightarrow> (Inr (Drifted h None), s)
      | Inr (Planned p) \<Rightarrow>
          if pl_hash p \<noteq> h then (Inr (Drifted h (Some (pl_hash p))), s)
          else (case run_plan x p h approval (as_arch s) of
              (Inl e, a) \<Rightarrow> (Inl (lift_error e), s\<lparr>as_arch := a\<rparr>)
            | (Inr mf, a) \<Rightarrow> (Inr (Executed (x_opid x) mf), s\<lparr>as_arch := a\<rparr>)))"

definition released :: "xenv \<Rightarrow> (exec_error + execution) \<times> asys \<Rightarrow> (exec_error + execution) \<times> asys" where
  "released x rs =
     (case rs of (r, s) \<Rightarrow>
        if r = Inl ExecInterrupted \<and> \<not> x_survives x then (r, s)
        else (case release_exclusive (x_release x) (JStr (x_opid x)) (x_nonce x) (as_locks s) of
            (Inl e, l) \<Rightarrow> (Inl (ExecRaised e), s\<lparr>as_locks := l\<rparr>)
          | (Inr _, l) \<Rightarrow> (r, s\<lparr>as_locks := l\<rparr>)))"

definition under_exclusivity :: "xenv \<Rightarrow> jobj \<Rightarrow> string \<Rightarrow> jobj \<Rightarrow> asys \<Rightarrow> (exec_error + execution) \<times> asys" where
  "under_exclusivity x inventory h approval s =
     (let pending = path_str (archive_root (v_root (x_first x)) @ [x_month x, ''pending-'' @ x_opid x @ ''.json'']) in
      case acquire_exclusive (x_passes x) (x_pid x) (JStr (x_opid x)) (x_nonce x) (Some pending) (as_locks s) of
        (Inl e, l) \<Rightarrow> (Inl (ExecLock e), s\<lparr>as_locks := l\<rparr>)
      | (Inr _, l) \<Rightarrow> released x (locked_body x inventory h approval (s\<lparr>as_locks := l\<rparr>)))"

text \<open>From the plan to its authority: the approval and the operator's message behind it.\<close>

definition authority :: "xenv \<Rightarrow> string \<Rightarrow> asys \<Rightarrow> pyexc + (string + jobj)" where
  "authority x h s =
     sbind (find_eligible_approval (x_approval x) h (as_approvals s)) (\<lambda>found.
       case found of
         Inl err \<Rightarrow> Inr (Inl err)
       | Inr a \<Rightarrow>
           sbind (validate_approval_message (ie_reading (e_ident (v_env (x_first x)))) (messages (v_sys (x_first x))) a)
             (\<lambda>problem. Inr (case problem of Some err \<Rightarrow> Inl err | None \<Rightarrow> Inr a)))"

definition execute_planned :: "xenv \<Rightarrow> jobj \<Rightarrow> asys \<Rightarrow> (exec_error + execution) \<times> asys" where
  "execute_planned x inventory s =
     (case generate_plan (at_state x (x_first x) s) inventory of
        Inl e \<Rightarrow> (Inl (ExecRaised e), s)
      | Inr (OutsideInventory extra) \<Rightarrow> (Inr (NotInInventory extra), s)
      | Inr (Planned p) \<Rightarrow>
          (case authority x (pl_hash p) s of
             Inl e \<Rightarrow> (Inl (ExecRaised e), s)
           | Inr (Inl err) \<Rightarrow> (Inr (NoAuthority err (pl_hash p)), s)
           | Inr (Inr a) \<Rightarrow> under_exclusivity x inventory (pl_hash p) a s))"

definition execute :: "xenv \<Rightarrow> asys \<Rightarrow> (exec_error + execution) \<times> asys" where
  "execute x s =
     (case recover_pending (x_arch x) (as_arch s) of
        (Inl e, a) \<Rightarrow> (Inl (lift_error e), s\<lparr>as_arch := a\<rparr>)
      | (Inr _, a) \<Rightarrow>
          (case load_inventory (v_digest (x_first x)) (x_inventory x) of
             Inl (Inl e) \<Rightarrow> (Inl (ExecRaised e), s\<lparr>as_arch := a\<rparr>)
           | Inl (Inr err) \<Rightarrow> (Inl (ExecRefused err), s\<lparr>as_arch := a\<rparr>)
           | Inr inventory \<Rightarrow> execute_planned x inventory (s\<lparr>as_arch := a\<rparr>)))"

end
