(* ===== verification/Work_Safety.thy ===== *)
theory Work_Safety
  imports Work_Actions Gate_Safety Queue_System
begin

text \<open>
  What the work-item loop guarantees: a gated item is frozen for agents, an operation that succeeds has
  passed every check before its one record, unknown ids write nothing, and the derived list shows what
  the records say.
\<close>

section \<open>Worker operations\<close>

inductive worker_op :: "wenv \<Rightarrow> json \<Rightarrow> json \<Rightarrow> wsys \<Rightarrow> work_exc + jobj \<Rightarrow> wsys \<Rightarrow> bool" for env wid actor where
  claimed: "claim_work_item env s wid actor role source = (r, s') \<Longrightarrow> worker_op env wid actor s r s'"
| responded: "respond_work_item env s wid actor txt role source = (r, s') \<Longrightarrow> worker_op env wid actor s r s'"
| progressed: "progress_work_item env s wid actor txt role source = (r, s') \<Longrightarrow> worker_op env wid actor s r s'"

inductive_cases worker_opE: "worker_op env wid actor s r s'"

definition is_operator :: "json \<Rightarrow> bool" where
  "is_operator actor = (strip (py_str actor) = OPERATOR_ACTOR)"

definition succeeded :: "work_exc + jobj \<Rightarrow> bool" where
  "succeeded r = (\<exists>p. r = Inr p \<and> truthy (jget p ''ok''))"

lemma succeeded_simps [simp]: "\<not> succeeded (Inl x)" "succeeded (Inr p) \<longleftrightarrow> truthy (jget p ''ok'')"
  by (simp_all add: succeeded_def)

lemma not_ok [simp]:
  "jget (refusal err details) ''ok'' = JBool False" "jget (refusal_payload gate) ''ok'' = JBool False"
  "jget maintenance ''ok'' = JBool False"
  by (simp_all add: refusal_def refusal_payload_def maintenance_def py_simps)

section \<open>Before the mutation\<close>

text \<open>What a refused operation leaves alone: packets, manifest and marker; gates evolve by healing only.\<close>

definition untouched :: "genv \<Rightarrow> wsys \<Rightarrow> wsys \<Rightarrow> bool" where
  "untouched env s s' =
     (w_packets s' = w_packets s \<and> i_manifest (w_id s') = i_manifest (w_id s) \<and>
      i_marker (w_id s') = i_marker (w_id s) \<and> keeps env (gates s) (gates s'))"

lemma untouched_refl: "untouched env s s"
  by (simp add: untouched_def keeps_refl)

lemma untouched_trans: "untouched env s s1 \<Longrightarrow> untouched env s1 s2 \<Longrightarrow> untouched env s s2"
  unfolding untouched_def using keeps_trans by metis

lemma gates_put [simp]: "gates (put_gates g s) = g" "w_packets (put_gates g s) = w_packets s"
    "i_manifest (w_id (put_gates g s)) = i_manifest (w_id s)" "i_marker (w_id (put_gates g s)) = i_marker (w_id s)"
  by (simp_all add: put_gates_def)

lemma put_messages_fields [simp]: "messages (put_messages c s) = c" "w_packets (put_messages c s) = w_packets s"
    "gfiles (gates (put_messages c s)) = gfiles (gates s)"
  by (simp_all add: put_messages_def put_gates_def)

lemma untouched_put: "keeps env (gates s) g \<Longrightarrow> untouched env s (put_gates g s)"
  by (simp add: untouched_def)

text \<open>The guard before every mutation, from what it lets through.\<close>

lemma gate_block_cases:
  assumes "gate_block env s wid actor = (r, s')"
  obtains g where "s' = put_gates g s" "keeps (e_gate env) (gates s) g"
    and "\<And>p. r = Inr (Some p) \<Longrightarrow> \<not> truthy (jget p ''ok'')"
    and "r = Inr None \<Longrightarrow> (is_operator actor \<or> active_gate (e_gate env) g wid = Inr None) \<and>
      (\<exists>p. heal_escalation_gates (e_gate env) (notice_env env s) (e_councils env) wid (gates s) = (Inr p, g) \<and>
         truthy (jget p ''ok''))"
proof -
  obtain h g where h: "heal_escalation_gates (e_gate env) (notice_env env s) (e_councils env) wid (gates s) = (h, g)"
    by fastforce
  have s': "s' = put_gates g s"
    using assms h unfolding gate_block_def
    by (auto simp: Let_def split: sum.splits gate_error.splits lock_error.splits if_splits option.splits)
  have no: "\<not> truthy (jget p ''ok'')" if "r = Inr (Some p)" for p
    using assms h that unfolding gate_block_def
    by (auto simp: Let_def split: sum.splits gate_error.splits lock_error.splits if_splits option.splits)
  have yes: "(is_operator actor \<or> active_gate (e_gate env) g wid = Inr None) \<and>
      (\<exists>p. heal_escalation_gates (e_gate env) (notice_env env s) (e_councils env) wid (gates s) = (Inr p, g) \<and>
         truthy (jget p ''ok''))" if "r = Inr None"
    using assms h that unfolding gate_block_def
    by (auto simp: Let_def is_operator_def split: sum.splits gate_error.splits lock_error.splits if_splits option.splits)
  show thesis using that [OF s' heal_keeps [OF h] no yes] .
qed

text \<open>An item that may be worked on, with the sweep that was run for it.\<close>

definition cleared :: "wenv \<Rightarrow> wsys \<Rightarrow> json \<Rightarrow> json \<Rightarrow> wsys \<Rightarrow> bool" where
  "cleared env s wid actor s1 =
     (\<exists>kr it p g. parse_work_item_id wid = Some kr \<and> find_work_item env s wid = Inr (Some it) \<and>
        heal_escalation_gates (e_gate env) (notice_env env s) (e_councils env) wid (gates s) = (Inr p, g) \<and>
        truthy (jget p ''ok'') \<and> s1 = put_gates g s \<and>
        (is_operator actor \<or> active_gate (e_gate env) g wid = Inr None))"

lemma admitted_cases:
  assumes "admitted env s wid actor = (r, s')"
  shows "untouched (e_gate env) s s'" and "r = Inr (Some p) \<Longrightarrow> \<not> truthy (jget p ''ok'')"
    and "r = Inr None \<Longrightarrow> cleared env s wid actor s'"
    and "find_work_item env s wid \<in> {Inr None} \<union> range Inl \<or> parse_work_item_id wid = None \<Longrightarrow> s' = s \<and> r \<noteq> Inr None"
proof -
  consider (refused) "s' = s" "r \<noteq> Inr None" "\<And>p. r = Inr (Some p) \<Longrightarrow> \<not> truthy (jget p ''ok'')"
    | (guard) it kr where "find_work_item env s wid = Inr (Some it)" "parse_work_item_id wid = Some kr"
        "gate_block env s wid actor = (r, s')"
    using assms unfolding admitted_def by (auto split: if_splits sum.splits option.splits)
  then have all: "untouched (e_gate env) s s' \<and> (\<forall>p. r = Inr (Some p) \<longrightarrow> \<not> truthy (jget p ''ok'')) \<and>
    (r = Inr None \<longrightarrow> cleared env s wid actor s') \<and>
    (find_work_item env s wid \<in> {Inr None} \<union> range Inl \<or> parse_work_item_id wid = None \<longrightarrow> s' = s \<and> r \<noteq> Inr None)"
  proof cases
    case refused
    then show ?thesis by (auto simp: untouched_refl)
  next
    case guard
    show ?thesis
    proof (rule gate_block_cases [OF guard(3)], goal_cases)
      case (1 g)
      have "untouched (e_gate env) s s'" using 1(1,2) by (simp add: untouched_put)
      moreover have "cleared env s wid actor s'" if "r = Inr None"
        using 1(1) 1(4) [OF that] guard(1,2) unfolding cleared_def by blast
      ultimately show ?thesis using 1(3) guard(1,2) by auto
    qed
  qed
  show "untouched (e_gate env) s s'" using all by blast
  show "r = Inr (Some p) \<Longrightarrow> \<not> truthy (jget p ''ok'')" using all by blast
  show "r = Inr None \<Longrightarrow> cleared env s wid actor s'" using all by blast
  show "find_work_item env s wid \<in> {Inr None} \<union> range Inl \<or> parse_work_item_id wid = None \<Longrightarrow> s' = s \<and> r \<noteq> Inr None"
    using all by blast
qed

text \<open>An operation either stops at its checks, or goes on from a state in which the item is cleared.\<close>

lemma worker_op_cases:
  assumes "worker_op env wid actor s r s'"
  obtains "untouched (e_gate env) s s'" "\<not> succeeded r" "find_work_item env s wid = Inr None \<Longrightarrow> s' = s"
  | s1 where "cleared env s wid actor s1" "admitted env s wid actor = (Inr None, s1)"
proof -
  obtain a s1 where a: "admitted env s wid actor = (a, s1)" by fastforce
  have "a = Inr None \<or> (untouched (e_gate env) s s' \<and> \<not> succeeded r \<and> (find_work_item env s wid = Inr None \<longrightarrow> s' = s))"
    using assms admitted_cases [OF a]
    by (auto elim!: worker_opE simp: a claim_work_item_def respond_work_item_def progress_work_item_def post_item_def
        untouched_refl split: if_splits sum.splits option.splits)
  then show thesis using that a admitted_cases(3) [OF a] by blast
qed

section \<open>A concrete queue\<close>

definition demo_post :: nenv where
  "demo_post = demo_nenv\<lparr>n_clock := (7, 8)\<rparr>"

definition demo_ident :: ident_env where
  "demo_ident = \<lparr>ie_gate_names = None, ie_gate_readable = (\<lambda>_. True), ie_reading = demo_reading, ie_token = None,
     ie_manifest_writable = True, ie_marker_writable = True, ie_now = ''n''\<rparr>"

definition demo_wenv :: wenv where
  "demo_wenv = \<lparr>e_gate = demo_genv, e_notice = demo_nenv, e_post = demo_post,
     e_councils = demo_cview\<lparr>c_root := NotADirectory\<rparr>, e_ident = demo_ident, e_root = [''q''],
     e_lane = (\<lambda>l. if l = OUTBOX then Some [''p1.json''] else None), e_readable = (\<lambda>_. True), e_order = (\<lambda>xs. xs),
     e_fmt = (\<lambda>_. Some 0), e_now = 0, e_claimed_at = ''2026-01-01T00:00:00Z'', e_faults = (\<lambda>_. False)\<rparr>"

definition demo_wsys :: "gsys \<Rightarrow> wsys" where
  "demo_wsys g = \<lparr>w_id = \<lparr>i_gates = g, i_manifest = Some (Doc (JObj [(''origin_message_ids'', JArr [])])), i_marker = None\<rparr>,
     w_packets = demo_world OUTBOX ''CTA''\<rparr>"

definition demo_wid :: json where
  "demo_wid = JStr ''packet:p1:cta''"

lemma demo_wid_subject: "canonical_subject demo_wid = ''packet:p1''" "clean demo_wid = ''packet:p1:cta''"
    "parse_work_item_id demo_wid = Some (''packet'', ''p1'')"
  by code_simp+

lemma demo_refused:
  "\<exists>r s'. respond_work_item demo_wenv (demo_wsys demo_gsys) demo_wid (JStr ''claude'') (JStr ''hi'') JNull JNull = (r, s') \<and>
     \<not> succeeded r"
proof -
  have "(case fst (admitted demo_wenv (demo_wsys demo_gsys) demo_wid (JStr ''claude''))
      of Inr (Some p) \<Rightarrow> \<not> truthy (jget p ''ok'') | _ \<Rightarrow> False)" by code_simp
  then show ?thesis
    by (cases "admitted demo_wenv (demo_wsys demo_gsys) demo_wid (JStr ''claude'')")
      (auto simp: respond_work_item_def post_item_def split: sum.splits option.splits)
qed

lemma not_operator: "\<not> is_operator (JStr ''claude'')"
  by code_simp

section \<open>Gated items\<close>

text \<open>An agent works on an item of the given subject, under any of its ids.\<close>

inductive agent_step :: "genv \<Rightarrow> string \<Rightarrow> wsys \<Rightarrow> wsys \<Rightarrow> bool" for env0 subject where
  agent: "worker_op env wid actor s r s' \<Longrightarrow> \<not> is_operator actor \<Longrightarrow> same_world env0 (e_gate env) \<Longrightarrow>
     canonical_subject wid = subject \<Longrightarrow> agent_step env0 subject s s'"

definition blocked :: "genv \<Rightarrow> string \<Rightarrow> nat \<Rightarrow> json \<Rightarrow> wsys \<Rightarrow> bool" where
  "blocked env0 subject i gid s =
     (\<exists>g. gate_at (gates s) (g_sha env0 subject) i g \<and> jget g ''disposition'' = JStr ''unresolved'' \<and>
        jget g ''gate_id'' = gid)"

lemma untouched_same_world: "untouched env s s' \<Longrightarrow> same_world env0 env \<Longrightarrow> untouched env0 s s'"
  using keeps_same_world by (auto simp: untouched_def)

lemma blocked_keeps:
  assumes "keeps env0 (gates s) (gates s')" and "blocked env0 subject i gid s"
  shows "blocked env0 subject i gid s'"
proof -
  obtain g where g: "gate_at (gates s) (g_sha env0 subject) i g" "jget g ''disposition'' = JStr ''unresolved''"
    "jget g ''gate_id'' = gid" using assms(2) by (auto simp: blocked_def)
  obtain g' where g': "gate_at (gates s') (g_sha env0 subject) i g'" "evolves env0 [] g g'"
    using assms(1) g(1) unfolding keeps_def by blast
  have "jget g' ''disposition'' = JStr ''unresolved'' \<and> jget g' ''gate_id'' = gid"
    using g'(2) g(2,3) by (simp add: evolves_def)
  then show ?thesis using g'(1) unfolding blocked_def by blast
qed

lemma blocked_refuses:
  assumes "worker_op env wid actor s r s'" and "\<not> is_operator actor" and "same_world env0 (e_gate env)"
    and "canonical_subject wid = subject" and "subject \<noteq> []" and "blocked env0 subject i gid s"
  shows "untouched env0 s s' \<and> \<not> succeeded r"
  using assms(1)
proof (cases rule: worker_op_cases)
  case 1
  then show ?thesis using untouched_same_world assms(3) by blast
next
  case (2 s1)
  then obtain p g where h: "heal_escalation_gates (e_gate env) (notice_env env s) (e_councils env) wid (gates s) = (Inr p, g)"
    and none: "active_gate (e_gate env) g wid = Inr None"
    using assms(2) by (auto simp: cleared_def)
  have "keeps env0 (gates s) (gates (put_gates g s))"
    using keeps_same_world [OF heal_keeps [OF h] assms(3)] by simp
  from blocked_keeps [OF this assms(6)] obtain x where
    "gate_at g (g_sha (e_gate env) (canonical_subject wid)) i x" "jget x ''disposition'' = JStr ''unresolved''"
    using assms(3,4) by (auto simp: blocked_def same_world_def)
  then show ?thesis using active_gate_None [OF none] assms(4,5) by blast
qed

lemma agent_run:
  assumes "(agent_step env0 subject)\<^sup>*\<^sup>* s s'" and "blocked env0 subject i gid s" and "subject \<noteq> []"
  shows "untouched env0 s s' \<and> blocked env0 subject i gid s'"
  using assms(1)
proof (induction rule: rtranclp_induct)
  case base
  then show ?case using assms(2) untouched_refl by blast
next
  case (step s1 s2)
  have u: "untouched env0 s1 s2"
    using step.hyps(2) blocked_refuses [OF _ _ _ _ assms(3)] step.IH by (auto elim!: agent_step.cases)
  then have "blocked env0 subject i gid s2"
    using blocked_keeps step.IH by (auto simp: untouched_def)
  then show ?case using untouched_trans u step.IH by blast
qed



section \<open>Unknown items\<close>

text \<open>an operation on an id that does not resolve is refused and changes nothing: no gate is healed,
  nothing is migrated and no record is written.\<close>

theorem unknown_items_write_nothing:
  assumes "worker_op env wid actor s r s'" and "find_work_item env s wid = Inr None"
  shows "s' = s \<and> \<not> succeeded r"
  using assms(1)
proof (cases rule: worker_op_cases)
  case 1
  then show ?thesis using assms(2) by blast
next
  case (2 s1)
  then show ?thesis using assms(2) by (auto simp: cleared_def)
qed

lemma unknown_items_write_nothing_witness:
  "snd (respond_work_item demo_wenv (demo_wsys demo_gsys) (JStr ''packet:p2:cta'') (JStr ''claude'') (JStr ''hi'') JNull JNull) =
     demo_wsys demo_gsys"
proof -
  obtain r s' where r: "respond_work_item demo_wenv (demo_wsys demo_gsys) (JStr ''packet:p2:cta'') (JStr ''claude'') (JStr ''hi'')
      JNull JNull = (r, s')" by fastforce
  have "find_work_item demo_wenv (demo_wsys demo_gsys) (JStr ''packet:p2:cta'') = Inr None" by code_simp
  from unknown_items_write_nothing [OF responded [OF r] this] show ?thesis using r by simp
qed

section \<open>The record of an operation\<close>

lemma ensure_migrated_frame:
  "ensure_migrated env s = (r, s') \<Longrightarrow> i_gates s' = i_gates s \<and>
     (manifest_doc s \<noteq> JNull \<longrightarrow> i_manifest s' = i_manifest s \<and> i_marker s' = i_marker s)"
  by (auto simp: ensure_migrated_def migrate_legacy_origins_def Let_def split: if_splits option.splits sum.splits prod.splits)

text \<open>One operation's message: written by exactly one new file, or not at all.\<close>

lemma post_bound_success:
  assumes "post_bound env s wid args = (Inr (Inr msg), s')"
  obtains n t p fm t1 t2 prev where "mfiles (messages s') = mfiles (messages s) @ [(n, Doc (JObj msg))]"
    "n \<notin> fst ` set (mfiles (messages s))" "has_suffix ''.json'' n"
    "fst (build_message fm t1 t2 prev (args t p)) = Inr msg" "w_packets s' = w_packets s"
    "gfiles (gates s') = gfiles (gates s)"
    "manifest_doc (w_id s) \<noteq> JNull \<Longrightarrow> i_manifest (w_id s') = i_manifest (w_id s) \<and> i_marker (w_id s') = i_marker (w_id s)"
proof -
  obtain mr i where m: "ensure_migrated (e_ident env) (w_id s) = (mr, i)" by fastforce
  note frame = ensure_migrated_frame [OF m]
  let ?s1 = "s\<lparr>w_id := i\<rparr>" and ?pe = "e_post env"
  obtain t p where b: "fst (build_message (n_fmt ?pe) (fst (n_clock ?pe)) (snd (n_clock ?pe)) (n_prev ?pe) (args t p)) = Inr msg"
    and w: "\<exists>n c. write_message (n_faults ?pe) (n_token ?pe) msg (messages ?s1) = (Inr n, c) \<and> s' = put_messages c ?s1"
    using assms m unfolding post_bound_def
    by (auto simp: Let_def split: sum.splits ident_error.splits lock_error.splits prod.splits msg_error.splits pyexc.splits)
  then obtain n c where w: "write_message (n_faults ?pe) (n_token ?pe) msg (messages ?s1) = (Inr n, c)"
    and s': "s' = put_messages c ?s1" by blast
  show thesis
    using write_message_files [OF w] s' frame
    by (intro that [OF _ _ _ b]) (auto simp: put_messages_def put_gates_def)
qed

text \<open>The directions and states of the records that workers write.\<close>

definition WORKER_RECORDS :: "(string \<times> string) list" where
  "WORKER_RECORDS = [(''internal'', ''claimed''), (''outbound'', ''responded''), (''internal'', ''posted'')]"

definition work_record :: "json \<Rightarrow> json \<Rightarrow> string \<times> string \<Rightarrow> jobj \<Rightarrow> bool" where
  "work_record wid actor ds m =
     (jget m ''work_item_id'' = (if clean wid = [] then JNull else JStr (clean wid)) \<and>
      jget m ''actor'' = JStr (strip (py_str actor)) \<and>
      jget m ''direction'' = JStr (fst ds) \<and> jget m ''status'' = JStr (snd ds) \<and> jget m ''closure'' = JNull \<and>
      jget m ''identity_version'' = JInt 2 \<and> is_str (jget m ''message_id'') \<and> is_str (jget m ''at'') \<and> jhas m ''at'')"

lemma stripped_words: "strip ''internal'' = ''internal''" "strip ''outbound'' = ''outbound''"
    "strip ''claimed'' = ''claimed''" "strip ''responded'' = ''responded''" "strip ''posted'' = ''posted''"
  by code_simp+

lemma assemble_work_item:
  "jget (assemble fm t1 t2 a c) ''work_item_id'' = (if clean (m_work_item_id a) = [] then JNull else JStr (clean (m_work_item_id a)))"
  by (simp add: assemble_def py_simps jget_append jhas_def opt_field_def)

lemma built_work_record:
  assumes "fst (build_message fm t1 t2 prev (work_args actor txt role (fst ds) (snd ds) source wid t p)) = Inr msg"
    and "ds \<in> set WORKER_RECORDS"
  shows "work_record wid actor ds msg"
proof -
  obtain prev' where b: "build_message fm t1 t2 prev (work_args actor txt role (fst ds) (snd ds) source wid t p) = (Inr msg, prev')"
    using assms(1) by (metis prod.collapse)
  show ?thesis
    by (rule build_message_cases [OF b])
      (use assms(2) in \<open>auto simp: work_record_def assemble_fields assemble_options assemble_work_item work_args_def
         or_default_def WORKER_RECORDS_def stripped_words, auto simp: assemble_def jhas_def\<close>)
qed

text \<open>Such a record is neither an origin nor a closure.\<close>

lemma work_record_inert:
  assumes "work_record wid actor ds m" and "ds \<in> set WORKER_RECORDS"
  shows "origin_id legacy m = Inr []" and "\<not> recognized_closure m"
proof -
  have "is_v2 m = Inr True" using assms(1) by (simp add: is_v2_def work_record_def py_or_def to_int_def)
  moreover have "\<not> v2_is_origin m" using assms by (auto simp: v2_is_origin_def work_record_def WORKER_RECORDS_def)
  ultimately show "origin_id legacy m = Inr []" by (simp add: origin_id_def Let_def)
  show "\<not> recognized_closure m" using assms(1) by (simp add: recognized_closure_def work_record_def)
qed

text \<open>A successful operation, as one step: checks passed, one record, and for a packet its move.\<close>

definition posted_as ::
    "wenv \<Rightarrow> json \<Rightarrow> json \<Rightarrow> string \<times> string \<Rightarrow> jobj \<Rightarrow> wsys \<Rightarrow> jobj \<Rightarrow> wsys \<Rightarrow> bool" where
  "posted_as env wid actor ds msg s2 p s' =
     (jget p ''message'' = JObj msg \<and>
      (\<exists>txt role source. post_bound env s2 wid (work_args actor txt role (fst ds) (snd ds) source wid) = (Inr (Inr msg), s')))"

lemma post_bound_refused:
  assumes "post_bound env s wid args = (Inr (Inl p), s')"
  shows "\<not> truthy (jget p ''ok'')"
  using assms unfolding post_bound_def
  by (auto simp: Let_def split: sum.splits ident_error.splits lock_error.splits prod.splits msg_error.splits pyexc.splits)

lemma post_item_success:
  assumes "post_item env s wid actor (work_args actor txt role (fst ds) (snd ds) source wid) = (Inr p, s')"
    and "truthy (jget p ''ok'')" and "admitted env s wid actor = (Inr None, s1)"
  shows "\<exists>msg. posted_as env wid actor ds msg s1 p s'"
proof -
  obtain pr s2 where pb: "post_bound env s1 wid (work_args actor txt role (fst ds) (snd ds) source wid) = (pr, s2)"
    by fastforce
  have "\<exists>msg. pr = Inr (Inr msg) \<and> s2 = s' \<and> jget p ''message'' = JObj msg"
    using assms pb post_bound_refused [of env s1 wid _ p s']
    by (auto simp: post_item_def posted_ok_def py_simps split: sum.splits)
  then show ?thesis using pb unfolding posted_as_def by blast
qed

definition moved_packet :: "wenv \<Rightarrow> json \<Rightarrow> json \<Rightarrow> wsys \<Rightarrow> wsys \<Rightarrow> bool" where
  "moved_packet env wid actor s1 s2 =
     (\<exists>ref. parse_work_item_id wid = Some (''packet'', ref) \<and> claim_packet env s1 ref actor = (Inr None, s2))"

lemma claim_packet_success:
  assumes "claim_packet env s ref actor = (r, s')"
  shows "w_id s' = w_id s" and "r = Inr (Some p) \<Longrightarrow> \<not> truthy (jget p ''ok'')"
  using assms by (auto simp: claim_packet_def split: sum.splits option.splits prod.splits if_splits)

lemma claim_item_success:
  assumes "claim_work_item env s wid actor role source = (Inr p, s')"
    and "truthy (jget p ''ok'')" and "admitted env s wid actor = (Inr None, s1)"
  shows "\<exists>msg s2. posted_as env wid actor (''internal'', ''claimed'') msg s2 p s' \<and>
    (if \<exists>ref. parse_work_item_id wid = Some (''packet'', ref) then moved_packet env wid actor s1 s2 else s2 = s1)"
proof -
  have a: "\<not> (\<not> truthy actor \<or> blank (py_str actor))"
  proof
    assume "\<not> truthy actor \<or> blank (py_str actor)"
    then have "p = refusal ''actor is required and must be non-empty'' []"
      using assms(1) by (simp only: claim_work_item_def if_True simp_thms) simp
    then show False using assms(2) by simp
  qed
  then obtain kind ref where k: "parse_work_item_id wid = Some (kind, ref)"
    using assms by (auto simp: claim_work_item_def split: option.splits)
  obtain pr s2 where cp: "(if kind = ''packet'' then claim_packet env s1 ref actor else (Inr None, s1)) = (pr, s2)"
    by fastforce
  have "\<not> truthy (jget q ''ok'')" if "pr = Inr (Some q)" for q
    using cp that claim_packet_success(2) by (auto split: if_splits)
  then have pr: "pr = Inr None"
    using assms a k cp by (auto simp: claim_work_item_def Let_def split: sum.splits option.splits)
  let ?txt = "if kind = ''packet'' then ''claimed CTA packet '' @ ref else ''claimed work item '' @ py_str wid"
  obtain br s3 where pb: "post_bound env s2 wid (work_args actor (JStr ?txt) role ''internal'' ''claimed'' source wid) = (br, s3)"
    by fastforce
  have "\<exists>msg. br = Inr (Inr msg) \<and> s3 = s' \<and> jget p ''message'' = JObj msg"
    using assms a k cp pr pb post_bound_refused [of env s2 wid _ p s']
    by (auto simp: claim_work_item_def Let_def py_simps split: sum.splits)
  moreover have "if \<exists>ref. parse_work_item_id wid = Some (''packet'', ref) then moved_packet env wid actor s1 s2 else s2 = s1"
    using cp pr k by (auto simp: moved_packet_def split: if_splits)
  ultimately show ?thesis using pb unfolding posted_as_def fst_conv snd_conv by blast
qed

lemma worker_op_success:
  assumes "worker_op env wid actor s r s'" and "succeeded r"
  obtains s1 s2 p msg ds where "cleared env s wid actor s1" "r = Inr p" "ds \<in> set WORKER_RECORDS"
    "posted_as env wid actor ds msg s2 p s'" "s2 = s1 \<or> moved_packet env wid actor s1 s2"
proof -
  from assms(1) obtain s1 where c: "cleared env s wid actor s1" and a: "admitted env s wid actor = (Inr None, s1)"
    by (cases rule: worker_op_cases) (use assms(2) in blast)+
  obtain p where p: "r = Inr p" "truthy (jget p ''ok'')" using assms(2) by (auto simp: succeeded_def)
  from assms(1) show thesis
  proof (cases rule: worker_op.cases)
    case (claimed role source)
    have "claim_work_item env s wid actor role source = (Inr p, s')" using claimed p(1) by simp
    from claim_item_success [OF this p(2) a] show thesis
      using that [OF c p(1), of "(''internal'', ''claimed'')"]
      by (auto simp: WORKER_RECORDS_def split: if_splits)
  next
    case (responded body role source)
    then show thesis
      using post_item_success [of env s wid actor body role "(''outbound'', ''responded'')" source p s', OF _ p(2) a]
        that [OF c p(1), of "(''outbound'', ''responded'')"]
        p(1) by (auto simp: WORKER_RECORDS_def respond_work_item_def)
  next
    case (progressed body role source)
    then show thesis
      using post_item_success [of env s wid actor body role "(''internal'', ''posted'')" source p s', OF _ p(2) a]
        that [OF c p(1), of "(''internal'', ''posted'')"]
        p(1) by (auto simp: WORKER_RECORDS_def progress_work_item_def)
  qed
qed

lemma cleared_frame:
  assumes "cleared env s wid actor s1"
  shows "messages s1 = messages s" "w_packets s1 = w_packets s" "i_manifest (w_id s1) = i_manifest (w_id s)"
    "i_marker (w_id s1) = i_marker (w_id s)"
  using assms heal_comms by (auto simp: cleared_def)

lemma moved_packet_frame: "moved_packet env wid actor s1 s2 \<Longrightarrow> w_id s2 = w_id s1"
  using claim_packet_success(1) by (auto simp: moved_packet_def)

section \<open>Operations that complete\<close>

lemma free_name_first:
  assumes "message_name base 0 \<notin> fst ` set (mfiles c)"
  shows "free_name base c = Some (message_name base 0)"
  using assms by (simp add: free_name_def upt_rec [of 0])

text \<open>Nothing stands in the way of the record: the manifest is there, the text is allowed and the log takes
  a new file.\<close>

definition log_open :: "wenv \<Rightarrow> wsys \<Rightarrow> bool" where
  "log_open env s =
     (manifest_doc (w_id s) \<noteq> JNull \<and> n_token (e_post env) = None \<and> (\<forall>k. \<not> n_faults (e_post env) k) \<and>
      message_name (''msg-'' @ fmt_stamp (n_fmt (e_post env)) (monotonic_dt (n_prev (e_post env)) (fst (n_clock (e_post env))))) 0
        \<notin> fst ` set (mfiles (messages s)))"

text \<open>The message the clock of the environment makes of some arguments, and the state with it in the log.\<close>

definition next_message :: "wenv \<Rightarrow> msg_args \<Rightarrow> string \<Rightarrow> jobj" where
  "next_message env a c =
     (let pe = e_post env; t1 = monotonic_dt (n_prev pe) (fst (n_clock pe))
      in assemble (n_fmt pe) t1 (monotonic_dt (Some t1) (snd (n_clock pe))) a c)"

definition with_message :: "wenv \<Rightarrow> jobj \<Rightarrow> wsys \<Rightarrow> wsys" where
  "with_message env msg s =
     put_messages (add_file (message_name (py_str (jget msg ''message_id'')) 0) (Doc (JObj msg)) (ticks 4 (messages s))) s"

lemma post_bound_completes:
  assumes "log_open env s" and "resolve_target env s wid = Inr (t, p)" and "check_args (args t p) = Inr c"
  shows "post_bound env s wid args = (Inr (Inr (next_message env (args t p) c)),
    with_message env (next_message env (args t p) c) s)"
proof -
  let ?pe = "e_post env" and ?msg = "next_message env (args t p) c"
  let ?t1 = "monotonic_dt (n_prev ?pe) (fst (n_clock ?pe))"
  have m: "ensure_migrated (e_ident env) (w_id s) = (Inr (), w_id s)"
    using assms(1) by (simp add: ensure_migrated_def log_open_def)
  have b: "fst (build_message (n_fmt ?pe) (fst (n_clock ?pe)) (snd (n_clock ?pe)) (n_prev ?pe) (args t p)) = Inr ?msg"
    using assms(3) by (simp add: build_message_def Let_def next_message_def)
  have id: "jget ?msg ''message_id'' = JStr (''msg-'' @ fmt_stamp (n_fmt ?pe) ?t1)"
    by (simp add: next_message_def Let_def assemble_fields)
  moreover have "jhas ?msg ''message_id''" by (intro jget_nonnull_has) (simp add: id)
  moreover have "free_name (''msg-'' @ fmt_stamp (n_fmt ?pe) ?t1) (messages s) =
      Some (message_name (''msg-'' @ fmt_stamp (n_fmt ?pe) ?t1) 0)"
    by (rule free_name_first) (use assms(1) in \<open>simp add: log_open_def\<close>)
  ultimately have "write_message (n_faults ?pe) (n_token ?pe) ?msg (messages s) =
      (Inr (message_name (py_str (jget ?msg ''message_id'')) 0),
       add_file (message_name (py_str (jget ?msg ''message_id'')) 0) (Doc (JObj ?msg)) (ticks 4 (messages s)))"
    using assms(1) by (simp add: write_message_def log_open_def)
  then show ?thesis unfolding post_bound_def m using assms(2) b by (simp add: Let_def with_message_def)
qed

lemma cleared_admitted:
  assumes "parse_work_item_id wid \<noteq> None" and "find_work_item env s wid = Inr (Some it)"
    and "heal_escalation_gates (e_gate env) (notice_env env s) (e_councils env) wid (gates s) = (Inr h, g)"
    and "truthy (jget h ''ok'')" and "is_operator actor \<or> active_gate (e_gate env) g wid = Inr None"
  shows "admitted env s wid actor = (Inr None, put_gates g s)"
  using assms by (auto simp: admitted_def gate_block_def Let_def is_operator_def)

lemma cleared_completes:
  assumes "parse_work_item_id wid \<noteq> None" and "find_work_item env s wid = Inr (Some it)"
    and "heal_escalation_gates (e_gate env) (notice_env env s) (e_councils env) wid (gates s) = (Inr h, g)"
    and "truthy (jget h ''ok'')" and "is_operator actor \<or> active_gate (e_gate env) g wid = Inr None"
    and "log_open env s" and "resolve_target env (put_gates g s) wid = Inr (t, p)"
    and "check_args (work_args actor body role ''outbound'' ''responded'' source wid t p) = Inr c"
  shows "succeeded (fst (respond_work_item env s wid actor body role source)) \<and>
    succeeded (fst (progress_work_item env s wid actor body role source))"
proof (intro conjI)
  have a: "admitted env s wid actor = (Inr None, put_gates g s)"
    by (rule cleared_admitted [OF assms(1-5)])
  have open': "log_open env (put_gates g s)"
    using assms(6) heal_comms [OF assms(3,4)] by (simp add: log_open_def manifest_doc_def)
  have c': "check_args (work_args actor body role ''internal'' ''posted'' source wid t p) = Inr c"
    using assms(8) by (simp add: check_args_iff work_args_def or_default_def stripped_words DIRECTIONS_def STATUSES_def)
  show "succeeded (fst (respond_work_item env s wid actor body role source))"
    using post_bound_completes [OF open' assms(7), of "work_args actor body role ''outbound'' ''responded'' source wid", OF assms(8)] a by (auto simp: respond_work_item_def post_item_def posted_ok_def py_simps)
  show "succeeded (fst (progress_work_item env s wid actor body role source))"
    using post_bound_completes [OF open' assms(7), of "work_args actor body role ''internal'' ''posted'' source wid", OF c'] a by (auto simp: progress_work_item_def post_item_def posted_ok_def py_simps)
qed

text \<open>an operation that nothing stands against completes: on a known item, with the sweep succeeding and no
  unresolved gate, a well-formed text and a log that accepts the file, responding and posting progress succeed.\<close>

theorem cleared_operations_complete:
  assumes "parse_work_item_id wid \<noteq> None" and "find_work_item env s wid = Inr (Some it)"
    and "heal_escalation_gates (e_gate env) (notice_env env s) (e_councils env) wid (gates s) = (Inr h, g)"
    and "truthy (jget h ''ok'')" and "is_operator actor \<or> active_gate (e_gate env) g wid = Inr None"
    and "log_open env s" and "resolve_target env (put_gates g s) wid = Inr (t, p)"
    and "check_args (work_args actor body role ''outbound'' ''responded'' source wid t p) = Inr c"
  shows "succeeded (fst (respond_work_item env s wid actor body role source)) \<and>
    succeeded (fst (progress_work_item env s wid actor body role source))"
  using assms by (rule cleared_completes)

lemma demo_text: "check_args (work_args (JStr ''claude'') (JStr ''hi'') JNull ''outbound'' ''responded'' JNull demo_wid t p) = Inr ''hi''"
proof -
  have "\<not> blank ''claude''" "\<not> blank ''hi''" "canonical_text ''hi'' = ''hi''" "utf8_length ''hi'' = 2"
    by code_simp+
  then show ?thesis
    by (simp add: check_args_iff work_args_def canonical_content_def MESSAGE_MAX_BYTES_def or_default_def stripped_words
        DIRECTIONS_def STATUSES_def)
qed

lemma demo_open: "log_open demo_wenv (demo_wsys g)" if "mfiles (gcomms g) = []"
  using that by (simp add: log_open_def demo_wenv_def demo_wsys_def manifest_doc_def read_doc_def demo_post_def
      demo_nenv_def no_faults_def)

lemma demo_clear:
  "\<exists>it. find_work_item demo_wenv (demo_wsys demo_empty) demo_wid = Inr (Some it)"
  "\<exists>h. heal_escalation_gates (e_gate demo_wenv) (notice_env demo_wenv (demo_wsys demo_empty)) (e_councils demo_wenv) demo_wid
     (gates (demo_wsys demo_empty)) = (Inr h, demo_empty) \<and> truthy (jget h ''ok'')"
  "active_gate (e_gate demo_wenv) demo_empty demo_wid = Inr None"
  "resolve_target demo_wenv (demo_wsys demo_empty) demo_wid = Inr (JNull, JStr ''p1'')"
proof -
  have "(case find_work_item demo_wenv (demo_wsys demo_empty) demo_wid of Inr (Some _) \<Rightarrow> True | _ \<Rightarrow> False)" by code_simp
  then show "\<exists>it. find_work_item demo_wenv (demo_wsys demo_empty) demo_wid = Inr (Some it)"
    by (auto split: sum.splits option.splits)
  show "\<exists>h. heal_escalation_gates (e_gate demo_wenv) (notice_env demo_wenv (demo_wsys demo_empty)) (e_councils demo_wenv) demo_wid
     (gates (demo_wsys demo_empty)) = (Inr h, demo_empty) \<and> truthy (jget h ''ok'')"
    by (simp add: heal_escalation_gates_def demo_wenv_def demo_wsys_def healed_payload_def py_simps)
qed code_simp+

lemma cleared_operations_complete_witness:
  "succeeded (fst (progress_work_item demo_wenv (demo_wsys demo_empty) demo_wid (JStr ''claude'') (JStr ''hi'') JNull JNull))"
proof -
  obtain it h where f: "find_work_item demo_wenv (demo_wsys demo_empty) demo_wid = Inr (Some it)"
    and h: "heal_escalation_gates (e_gate demo_wenv) (notice_env demo_wenv (demo_wsys demo_empty)) (e_councils demo_wenv) demo_wid
     (gates (demo_wsys demo_empty)) = (Inr h, demo_empty)" "truthy (jget h ''ok'')" using demo_clear by blast
  have same: "put_gates demo_empty (demo_wsys demo_empty) = demo_wsys demo_empty" by (simp add: put_gates_def demo_wsys_def)
  have "log_open demo_wenv (demo_wsys demo_empty)" by (rule demo_open) (simp add: demo_empty_def no_messages_def)
  from cleared_operations_complete [OF _ f h _ this _ demo_text, unfolded same, OF _ _ demo_clear(4)]
  show ?thesis using demo_clear(3) by (simp add: demo_wid_subject)
qed

lemma demo_claim_packet:
  "\<exists>s'. claim_packet demo_wenv (demo_wsys demo_empty) ''p1'' (JStr ''claude'') = (Inr None, s') \<and> w_id s' = w_id (demo_wsys demo_empty)"
proof -
  have f: "find_packet_path demo_wenv (demo_wsys demo_empty) ''p1'' ''clearance_outbox'' = Inr (Some (demo_src OUTBOX))"
    by code_simp
  have "fst (claim (\<lambda>_. False) ''2026-01-01T00:00:00Z'' (demo_src OUTBOX) (strip (py_str (JStr ''claude''))) False
      (demo_world OUTBOX ''CTA'')) = 0"
    by (rule claim_completes [where p = "demo_packet ''CTA''" and s = "''CTA''"])
      (simp_all add: demo_well_formed ALLOWED_STATUS_def CLAIMABLE_def demo_lease demo_target)
  then show ?thesis
    using f by (auto simp: claim_packet_def demo_wenv_def demo_wsys_def split: prod.splits)
qed

lemma same_ids:
  assumes "w_id s1 = w_id s"
  shows "log_open env s1 = log_open env s" and "resolve_target env s1 wid = resolve_target env s wid"
  by (simp_all only: log_open_def resolve_target_def assms)

lemma demo_claimed:
  "\<exists>p s'. claim_work_item demo_wenv (demo_wsys demo_empty) demo_wid (JStr ''claude'') JNull JNull = (Inr p, s') \<and>
     truthy (jget p ''ok'')"
proof -
  obtain s2 where s2: "claim_packet demo_wenv (demo_wsys demo_empty) ''p1'' (JStr ''claude'') = (Inr None, s2)"
    "w_id s2 = w_id (demo_wsys demo_empty)" using demo_claim_packet by blast
  have same: "put_gates demo_empty (demo_wsys demo_empty) = demo_wsys demo_empty" by (simp add: put_gates_def demo_wsys_def)
  have a: "admitted demo_wenv (demo_wsys demo_empty) demo_wid (JStr ''claude'') = (Inr None, demo_wsys demo_empty)"
    using demo_clear(1-3) cleared_admitted [of demo_wid demo_wenv "demo_wsys demo_empty", unfolded demo_wid_subject]
    by (metis option.distinct(1) same)
  have txt': "\<not> blank ''claude''" "\<not> blank ''claimed CTA packet p1''" "canonical_text ''claimed CTA packet p1'' = ''claimed CTA packet p1''"
    "utf8_length ''claimed CTA packet p1'' = 21" by code_simp+
  have c: "check_args (work_args (JStr ''claude'') (JStr ''claimed CTA packet p1'') JNull ''internal'' ''claimed'' JNull demo_wid
      JNull (JStr ''p1'')) = Inr ''claimed CTA packet p1''"
    using txt' by (simp add: check_args_iff work_args_def canonical_content_def MESSAGE_MAX_BYTES_def or_default_def
        stripped_words DIRECTIONS_def STATUSES_def)
  have "log_open demo_wenv s2" "resolve_target demo_wenv s2 demo_wid = Inr (JNull, JStr ''p1'')"
    using demo_open [of demo_empty] demo_clear(4) same_ids [OF s2(2)] by (simp_all add: demo_empty_def no_messages_def)
  from post_bound_completes [OF this, of "work_args (JStr ''claude'') (JStr ''claimed CTA packet p1'') JNull ''internal'' ''claimed'' JNull demo_wid", OF c]
  show ?thesis
    using a s2(1) txt'(1) by (auto simp: claim_work_item_def Let_def demo_wid_subject py_simps)
qed

text \<open>Everything a successful operation does, and the message it returns.\<close>

lemma worker_op_effect:
  assumes "worker_op env wid actor s r s'" and "succeeded r"
  obtains s1 n msg ds p where "cleared env s wid actor s1" "r = Inr p" "jget p ''message'' = JObj msg"
    "ds \<in> set WORKER_RECORDS" "work_record wid actor ds msg"
    "mfiles (messages s') = mfiles (messages s) @ [(n, Doc (JObj msg))]" "n \<notin> fst ` set (mfiles (messages s))"
    "has_suffix ''.json'' n" "gfiles (gates s') = gfiles (gates s1)"
    "manifest_doc (w_id s) \<noteq> JNull \<Longrightarrow> i_manifest (w_id s') = i_manifest (w_id s) \<and> i_marker (w_id s') = i_marker (w_id s)"
    "w_packets s' = w_packets s \<or> (\<exists>s2. moved_packet env wid actor s1 s2 \<and> w_packets s' = w_packets s2)"
proof -
  obtain s1 s2 p msg ds where c: "cleared env s wid actor s1" and p: "r = Inr p" and ds: "ds \<in> set WORKER_RECORDS"
    and post: "posted_as env wid actor ds msg s2 p s'" and mv: "s2 = s1 \<or> moved_packet env wid actor s1 s2"
    by (rule worker_op_success [OF assms])
  have id2: "w_id s2 = w_id s1" using mv moved_packet_frame by auto
  note f = cleared_frame [OF c]
  obtain txt' role source where
    pb: "post_bound env s2 wid (work_args actor txt' role (fst ds) (snd ds) source wid) = (Inr (Inr msg), s')"
    and res: "jget p ''message'' = JObj msg" using post by (auto simp: posted_as_def)
  show thesis
  proof (rule post_bound_success [OF pb], goal_cases)
    case (1 n t q fm t1 t2 prev)
    show thesis
    proof (rule that [OF c p res ds built_work_record [OF 1(4) ds]])
      show "mfiles (messages s') = mfiles (messages s) @ [(n, Doc (JObj msg))]" using 1(1) id2 f by simp
      show "n \<notin> fst ` set (mfiles (messages s))" using 1(2) id2 f by simp
      show "has_suffix ''.json'' n" by (rule 1(3))
      show "gfiles (gates s') = gfiles (gates s1)" using 1(6) id2 by simp
      show "i_manifest (w_id s') = i_manifest (w_id s) \<and> i_marker (w_id s') = i_marker (w_id s)"
        if "manifest_doc (w_id s) \<noteq> JNull"
        using 1(7) that id2 f by (simp add: manifest_doc_def)
      show "w_packets s' = w_packets s \<or> (\<exists>s2. moved_packet env wid actor s1 s2 \<and> w_packets s' = w_packets s2)"
        using 1(5) mv f by auto
    qed
  qed
qed

text \<open>an operation on a work item that succeeds wrote exactly one new message, bound to the item and
  signed by its actor, and neither an origin nor a closure; packets are unchanged unless the item is a packet
  that was claimed.\<close>

theorem one_record_per_operation:
  assumes "worker_op env wid actor s r s'" and "succeeded r"
  shows "\<exists>n msg. mfiles (messages s') = mfiles (messages s) @ [(n, Doc (JObj msg))] \<and>
    n \<notin> fst ` set (mfiles (messages s)) \<and>
    jget msg ''work_item_id'' = (if clean wid = [] then JNull else JStr (clean wid)) \<and>
    jget msg ''actor'' = JStr (strip (py_str actor)) \<and>
    (\<exists>(d, st) \<in> set WORKER_RECORDS. jget msg ''direction'' = JStr d \<and> jget msg ''status'' = JStr st) \<and>
    (\<forall>legacy. origin_id legacy msg = Inr []) \<and> \<not> recognized_closure msg \<and>
    (w_packets s' \<noteq> w_packets s \<longrightarrow> (\<exists>ref. parse_work_item_id wid = Some (''packet'', ref)))"
proof (rule worker_op_effect [OF assms], goal_cases)
  case (1 s1 n msg ds p)
  note rec = 1(5) [unfolded work_record_def]
  have "\<exists>(d, st) \<in> set WORKER_RECORDS. jget msg ''direction'' = JStr d \<and> jget msg ''status'' = JStr st"
    using rec 1(4) by (intro bexI [of _ ds]) (auto split: prod.split)
  moreover have "\<exists>ref. parse_work_item_id wid = Some (''packet'', ref)" if "w_packets s' \<noteq> w_packets s"
    using 1(11) that by (auto simp: moved_packet_def)
  ultimately show ?case
    using rec 1(6,7) work_record_inert [OF 1(5,4)] by blast
qed

lemma one_record_per_operation_witness:
  "\<exists>s' n msg. mfiles (messages s') = mfiles (messages (demo_wsys demo_empty)) @ [(n, Doc (JObj msg))] \<and>
     jget msg ''work_item_id'' = JStr ''packet:p1:cta''"
proof -
  obtain p s' where c: "claim_work_item demo_wenv (demo_wsys demo_empty) demo_wid (JStr ''claude'') JNull JNull = (Inr p, s')"
    "truthy (jget p ''ok'')" using demo_claimed by blast
  have "succeeded (Inr p)" using c(2) by simp
  from one_record_per_operation [OF claimed [OF c(1)] this] show ?thesis by (auto simp: demo_wid_subject)
qed

text \<open>C26: an operation that succeeds has passed every check: the id resolves to an item, every escalated
  council of the item has its gate, none of its council records is malformed, and unless the actor is the
  operator no gate of the item is unresolved.\<close>

theorem success_means_cleared:
  assumes "worker_op env wid actor s r s'" and "succeeded r" and "\<forall>x. g_sha (e_gate env) x \<noteq> []"
    and "c_root (e_councils env) = Entries names" and "name \<in> set names"
  shows "(\<exists>it. find_work_item env s wid = Inr (Some it)) \<and>
    (\<forall>payload t. classify_council (e_councils env) wid name \<noteq> Fail payload t) \<and>
    (\<forall>c oc. classify_council (e_councils env) wid name = Candidate c oc \<and> truthy (jget c ''work_item_id'') \<longrightarrow>
       gated (e_gate env) (e_councils env) name c oc (gates s')) \<and>
    (is_operator actor \<or> canonical_subject wid = [] \<or>
       (\<forall>i g. gate_at (gates s') (g_sha (e_gate env) (canonical_subject wid)) i g \<longrightarrow>
          jget g ''disposition'' \<noteq> JStr ''unresolved''))"
proof (rule worker_op_effect [OF assms(1,2)])
  fix s1
  assume c: "cleared env s wid actor s1" and same: "gfiles (gates s') = gfiles (gates s1)"
  have at: "gate_at (gates s') = gate_at (gates s1)" by (simp add: fun_eq_iff gate_at_def gates_of_def same)
  obtain it p g where f: "find_work_item env s wid = Inr (Some it)" and s1: "s1 = put_gates g s"
    and h: "heal_escalation_gates (e_gate env) (notice_env env s) (e_councils env) wid (gates s) = (Inr p, g)"
      "truthy (jget p ''ok'')"
    and act: "is_operator actor \<or> active_gate (e_gate env) g wid = Inr None" using c by (auto simp: cleared_def)
  have gated: "gated e cv nm c oc (gates s') = gated e cv nm c oc g" for e cv nm c oc
    using at s1 by (simp add: gated_def has_gate_def)
  show ?thesis
    using f heal_complete [OF h assms(3-5)] act active_gate_None at s1 unfolding gated by (metis gates_put(1))
qed

lemma success_means_cleared_witness:
  "\<exists>s'. \<forall>i g. gate_at (gates s') ''kpacket:p1'' i g \<longrightarrow> jget g ''disposition'' \<noteq> JStr ''unresolved''"
proof -
  let ?env = "demo_wenv\<lparr>e_gate := demo_genv1, e_councils := demo_cview\<lparr>c_root := Entries [''tmp'']\<rparr>\<rparr>"
  let ?s = "demo_wsys demo_empty"
  have "(case find_work_item ?env ?s demo_wid of Inr (Some _) \<Rightarrow> True | _ \<Rightarrow> False)" by code_simp
  then obtain it where f: "find_work_item ?env ?s demo_wid = Inr (Some it)" by (auto split: sum.splits option.splits)
  have h: "heal_escalation_gates (e_gate ?env) (notice_env ?env ?s) (e_councils ?env) demo_wid (gates ?s) =
      (Inr (healed_payload []), demo_empty)"
    using demo_names(2)
    by (simp add: heal_escalation_gates_def demo_wsys_def classify_council_def)
  have no: "active_gate (e_gate ?env) demo_empty demo_wid = Inr None" by code_simp
  have same: "put_gates demo_empty ?s = ?s" by (simp add: put_gates_def demo_wsys_def)
  have "log_open ?env ?s"
    using demo_open [of demo_empty] by (simp add: log_open_def demo_empty_def no_messages_def)
  moreover have "resolve_target ?env ?s demo_wid = Inr (JNull, JStr ''p1'')" by code_simp
  ultimately have "succeeded (fst (respond_work_item ?env ?s demo_wid (JStr ''claude'') (JStr ''hi'') JNull JNull))"
    using cleared_completes [OF _ f h _ _ _ _ demo_text, unfolded same] no
    by (simp add: demo_wid_subject healed_payload_def py_simps)
  then obtain r s' where r: "respond_work_item ?env ?s demo_wid (JStr ''claude'') (JStr ''hi'') JNull JNull = (r, s')"
    "succeeded r" by (metis prod.collapse)
  have key: "g_sha demo_genv1 (canonical_subject demo_wid) = ''kpacket:p1''" by (simp add: demo_wid_subject demo_genv1_def)
  have "\<forall>x. g_sha (e_gate ?env) x \<noteq> []" by (simp add: demo_genv1_def)
  from success_means_cleared [OF responded [OF r(1)] r(2) this, of "[''tmp'']" "''tmp''"] not_operator key show ?thesis
    by (auto simp: demo_wid_subject)
qed

lemma read_packets_cong:
  assumes "w_packets s1 = w_packets s"
  shows "read_packets env s1 = read_packets env s"
proof -
  have "packet_row env s1 = packet_row env s" by (intro ext) (simp only: packet_row_def assms)
  then have "lane_rows env s1 = lane_rows env s" by (intro ext) (simp only: lane_rows_def)
  then show ?thesis by (simp add: read_packets_def)
qed

lemma claim_packet_effect:
  assumes "claim_packet env s ref actor = (Inr None, s')"
  shows "\<exists>rows row q. read_packets env s = Inr rows \<and> row \<in> set rows \<and> p_id row = JStr ref \<and>
    p_lane row = ''clearance_outbox'' \<and> files (w_packets s) (p_path row) = Some (Doc (JObj q)) \<and>
    parent_name (p_path row) = OUTBOX \<and> files (w_packets s) (target_of IN_PROGRESS_DIR (p_path row)) = None \<and>
    files (w_packets s') = (files (w_packets s))(target_of IN_PROGRESS_DIR (p_path row) :=
      Some (Doc (JObj (build_claimed (e_claimed_at env) q (basename (p_path row)) (strip (py_str actor))))),
      p_path row := None)"
proof -
  obtain src w where f: "find_packet_path env s ref ''clearance_outbox'' = Inr (Some src)"
    and c: "claim (e_faults env) (e_claimed_at env) src (strip (py_str actor)) False (w_packets s) = (0, w)"
    and s': "s' = s\<lparr>w_packets := w\<rparr>"
    using assms by (auto simp: claim_packet_def split: sum.splits option.splits prod.splits if_splits)
  obtain rows row where "read_packets env s = Inr rows" "row \<in> set rows" "p_id row = JStr ref"
    "p_lane row = ''clearance_outbox''" "p_path row = src"
    using f by (auto simp: find_packet_path_def sbind_Inr_iff find_Some_iff dest: nth_mem)
  then show ?thesis using claim_success [OF c] s' by (intro exI [of _ rows] exI [of _ row]) auto
qed

text \<open>claiming a packet item claims the packet itself: one packet that the outbox lists under this id is
  written into the in-progress lane under the same name, claimed by the actor, and only then removed from the
  outbox; no other file changes, and the claim is recorded.\<close>

theorem claimed_packet_moves_once:
  assumes "claim_work_item env s wid actor role source = (Inr p, s')" and "truthy (jget p ''ok'')"
    and "parse_work_item_id wid = Some (''packet'', ref)"
  shows "\<exists>rows row q n msg. read_packets env s = Inr rows \<and> row \<in> set rows \<and> p_id row = JStr ref \<and>
    p_lane row = ''clearance_outbox'' \<and> files (w_packets s) (p_path row) = Some (Doc (JObj q)) \<and>
    files (w_packets s) (target_of IN_PROGRESS_DIR (p_path row)) = None \<and>
    files (w_packets s') = (files (w_packets s))(target_of IN_PROGRESS_DIR (p_path row) :=
      Some (Doc (JObj (build_claimed (e_claimed_at env) q (basename (p_path row)) (strip (py_str actor))))),
      p_path row := None) \<and>
    mfiles (messages s') = mfiles (messages s) @ [(n, Doc (JObj msg))] \<and> jget msg ''status'' = JStr ''claimed''"
proof -
  have w: "worker_op env wid actor s (Inr p) s'" by (rule claimed [OF assms(1)])
  obtain s1 where a: "admitted env s wid actor = (Inr None, s1)" and c: "cleared env s wid actor s1"
    using w by (cases rule: worker_op_cases) (use assms(2) in auto)
  note f = cleared_frame [OF c]
  obtain msg s2 where post: "posted_as env wid actor (''internal'', ''claimed'') msg s2 p s'"
    and mv: "moved_packet env wid actor s1 s2"
    using claim_item_success [OF assms(1,2) a] assms(3) by (auto split: if_splits)
  obtain txt' role source where
    pb: "post_bound env s2 wid (work_args actor txt' role ''internal'' ''claimed'' source wid) = (Inr (Inr msg), s')"
    using post by (auto simp: posted_as_def)
  have cp: "claim_packet env s1 ref actor = (Inr None, s2)" using mv assms(3) by (simp add: moved_packet_def)
  have id2: "w_id s2 = w_id s1" by (rule moved_packet_frame [OF mv])
  show ?thesis
  proof (rule post_bound_success [OF pb], goal_cases)
    case (1 n t q fm t1 t2 prev)
    have "jget msg ''status'' = JStr ''claimed''"
      using built_work_record [of _ _ _ _ _ _ _ "(''internal'', ''claimed'')"] 1(4)
      by (fastforce simp: work_record_def WORKER_RECORDS_def)
    then show ?case
      using claim_packet_effect [OF cp] 1(1,5) id2 f read_packets_cong [OF f(2)] by auto
  qed
qed

lemma claimed_packet_moves_once_witness:
  "\<exists>(s' :: wsys) q. files (w_packets s') (demo_src IN_PROGRESS_DIR) = Some (Doc (JObj q)) \<and> jget q ''claimed_by'' = JStr ''claude''"
proof -
  obtain p s' where c: "claim_work_item demo_wenv (demo_wsys demo_empty) demo_wid (JStr ''claude'') JNull JNull = (Inr p, s')"
    "truthy (jget p ''ok'')" using demo_claimed by blast
  have rows: "read_packets demo_wenv (demo_wsys demo_empty) = Inr [\<lparr>p_id = JStr ''p1'', p_status = JStr ''CTA'',
      p_lane = OUTBOX, p_title = JStr ''t'', p_path = demo_src OUTBOX\<rparr>]" by code_simp
  have who: "strip (py_str (JStr ''claude'')) = ''claude''" by code_simp
  from claimed_packet_moves_once [OF c demo_wid_subject(3)] obtain q where
    "files (w_packets s') (demo_src IN_PROGRESS_DIR) =
       Some (Doc (JObj (build_claimed ''2026-01-01T00:00:00Z'' q ''p1.json'' ''claude'')))"
    unfolding rows who by (auto simp: demo_wenv_def demo_target)
  moreover have "jget (build_claimed ''2026-01-01T00:00:00Z'' q ''p1.json'' ''claude'') ''claimed_by'' = JStr ''claude''"
    by (simp add: build_claimed_def Let_def split: option.split)
  ultimately show ?thesis by blast
qed

section \<open>Histories of workers\<close>

inductive worker_step :: "genv \<Rightarrow> wsys \<Rightarrow> wsys \<Rightarrow> bool" for env0 where
  worker: "worker_op env wid actor s r s' \<Longrightarrow> same_world env0 (e_gate env) \<Longrightarrow> worker_step env0 s s'"

text \<open>What no worker operation, whatever its outcome, takes away.\<close>

definition preserved :: "genv \<Rightarrow> wsys \<Rightarrow> wsys \<Rightarrow> bool" where
  "preserved env s s' =
     (prefix (mfiles (messages s)) (mfiles (messages s')) \<and>
      (manifest_doc (w_id s) \<noteq> JNull \<longrightarrow> i_manifest (w_id s') = i_manifest (w_id s) \<and> i_marker (w_id s') = i_marker (w_id s)) \<and>
      (\<forall>key i g. gate_at (gates s) key i g \<longrightarrow> (\<exists>g'. gate_at (gates s') key i g' \<and> evolves env [] g g')))"

lemma preserved_trans: "preserved env s s1 \<Longrightarrow> preserved env s1 s2 \<Longrightarrow> preserved env s s2"
proof -
  assume a: "preserved env s s1" and b: "preserved env s1 s2"
  have "\<exists>g''. gate_at (gates s2) key i g'' \<and> evolves env [] g g''" if "gate_at (gates s) key i g" for key i g
    using a b that unfolding preserved_def by (meson evolves_trans subset_refl)
  then show ?thesis
    using a b prefix_order.trans by (auto simp: preserved_def manifest_doc_def)
qed

lemma untouched_preserved: "untouched env s s' \<Longrightarrow> preserved env s s'"
  by (auto simp: untouched_def preserved_def keeps_def dest: appends_prefix)

lemma preserved_frame:
  "prefix (mfiles (messages s)) (mfiles (messages s')) \<Longrightarrow> gfiles (gates s') = gfiles (gates s) \<Longrightarrow>
   (manifest_doc (w_id s) \<noteq> JNull \<longrightarrow> i_manifest (w_id s') = i_manifest (w_id s) \<and> i_marker (w_id s') = i_marker (w_id s)) \<Longrightarrow>
   preserved env s s'"
  by (auto simp: preserved_def gate_at_def gates_of_def intro: evolves_refl)

lemma post_bound_preserved:
  assumes "post_bound env s wid args = (r, s')"
  shows "preserved env0 s s'"
proof -
  obtain mr i where m: "ensure_migrated (e_ident env) (w_id s) = (mr, i)" by fastforce
  note frame = ensure_migrated_frame [OF m]
  have w: "s' = s\<lparr>w_id := i\<rparr> \<or> (\<exists>f tok msg q c. write_message f tok msg (messages (s\<lparr>w_id := i\<rparr>)) = (q, c) \<and>
      s' = put_messages c (s\<lparr>w_id := i\<rparr>))"
    using assms m unfolding post_bound_def
    by (auto simp: Let_def split: sum.splits ident_error.splits lock_error.splits prod.splits msg_error.splits pyexc.splits)
      metis+
  then show ?thesis
  proof (elim disjE exE conjE)
    assume "s' = s\<lparr>w_id := i\<rparr>"
    then show ?thesis using frame by (intro preserved_frame) auto
  next
    fix f tok msg q c
    assume wm: "write_message f tok msg (messages (s\<lparr>w_id := i\<rparr>)) = (q, c)" and s': "s' = put_messages c (s\<lparr>w_id := i\<rparr>)"
    have "prefix (mfiles (messages s)) (mfiles c)" using appends_prefix [OF write_appends [OF wm]] frame by simp
    then show ?thesis using frame s' by (intro preserved_frame) (auto simp: put_messages_def put_gates_def)
  qed
qed

lemma claim_packet_preserved: "claim_packet env s ref actor = (r, s') \<Longrightarrow> preserved env0 s s'"
  by (rule preserved_frame) (auto dest: claim_packet_success(1))

lemma worker_op_preserved:
  assumes "worker_op env wid actor s r s'"
  shows "preserved (e_gate env) s s'"
proof -
  obtain a s1 where a: "admitted env s wid actor = (a, s1)" by fastforce
  note u = untouched_preserved [OF admitted_cases(1) [OF a]]
  have self: "preserved (e_gate env) t t" for t by (rule preserved_frame) auto
  have "s' = s \<or> s' = s1 \<or> preserved (e_gate env) s1 s'"
    using assms
  proof (cases rule: worker_op.cases)
    case (claimed role source)
    show ?thesis
    proof (cases "a = Inr None \<and> parse_work_item_id wid \<noteq> None \<and> truthy actor \<and> \<not> blank (py_str actor)")
      case False
      then show ?thesis
        using claimed a by (auto simp: claim_work_item_def split: sum.splits option.splits if_splits)
    next
      case True
      obtain kind ref where k: "parse_work_item_id wid = Some (kind, ref)" using True by auto
      obtain pr s2 where cp: "(if kind = ''packet'' then claim_packet env s1 ref actor else (Inr None, s1)) = (pr, s2)"
        by fastforce
      have p2: "preserved (e_gate env) s1 s2" using cp self claim_packet_preserved by (auto split: if_splits)
      let ?txt = "if kind = ''packet'' then ''claimed CTA packet '' @ ref else ''claimed work item '' @ py_str wid"
      obtain br s3 where pb: "post_bound env s2 wid (work_args actor (JStr ?txt) role ''internal'' ''claimed'' source wid) = (br, s3)"
        by fastforce
      have "s' = s2 \<or> s' = s3"
        using claimed a True k cp pb
        by (auto simp: claim_work_item_def Let_def split: sum.splits option.splits)
      then show ?thesis using p2 preserved_trans [OF p2 post_bound_preserved [OF pb]] by blast
    qed
  next
    case (responded body role source)
    then show ?thesis
      using a by (auto simp: respond_work_item_def post_item_def split: sum.splits option.splits prod.splits
          dest: post_bound_preserved)
  next
    case (progressed body role source)
    then show ?thesis
      using a by (auto simp: progress_work_item_def post_item_def split: sum.splits option.splits prod.splits
          dest: post_bound_preserved)
  qed
  then show ?thesis using u self preserved_trans by blast
qed

lemma preserved_same_world: "preserved env s s' \<Longrightarrow> same_world env0 env \<Longrightarrow> preserved env0 s s'"
  by (simp add: preserved_def evolves_same_world)

lemma worker_run_preserved: "(worker_step env0)\<^sup>*\<^sup>* s s' \<Longrightarrow> preserved env0 s s'"
proof (induction rule: rtranclp_induct)
  case base
  show ?case by (rule preserved_frame) auto
next
  case (step s1 s2)
  then show ?case
    using preserved_same_world worker_op_preserved preserved_trans by (metis worker_step.cases)
qed

text \<open>C27: workers never dispose of a gate: in any history of claims, answers and progress notes by anyone, with
  any failures, every gate keeps its identity, disposition and authority, no record of the log is lost, and the
  migrated origins stay frozen.\<close>

theorem workers_never_dispose:
  assumes "(worker_step env0)\<^sup>*\<^sup>* s s'"
  shows "prefix (mfiles (messages s)) (mfiles (messages s')) \<and>
    (manifest_doc (w_id s) \<noteq> JNull \<longrightarrow> i_manifest (w_id s') = i_manifest (w_id s) \<and> i_marker (w_id s') = i_marker (w_id s)) \<and>
    (\<forall>key i g. gate_at (gates s) key i g \<longrightarrow> (\<exists>g'. gate_at (gates s') key i g' \<and>
       jget g' ''gate_id'' = jget g ''gate_id'' \<and> jget g' ''disposition'' = jget g ''disposition'' \<and>
       jget g' ''authority'' = jget g ''authority''))"
proof -
  have p: "preserved env0 s s'" by (rule worker_run_preserved [OF assms])
  have "jget g' ''gate_id'' = jget g ''gate_id'' \<and> jget g' ''disposition'' = jget g ''disposition'' \<and>
      jget g' ''authority'' = jget g ''authority''" if "evolves env0 [] g g'" for g g'
    using that by (simp add: evolves_def)
  then show ?thesis using p unfolding preserved_def by meson
qed

lemma workers_never_dispose_witness:
  "\<exists>(s' :: wsys) g'. gate_at (gates s') ''packet:p1'' 0 g' \<and> jget g' ''disposition'' = JStr ''unresolved''"
proof -
  obtain r s' where r: "respond_work_item demo_wenv (demo_wsys demo_gsys) demo_wid (JStr ''claude'') (JStr ''hi'') JNull JNull = (r, s')"
    using demo_refused by blast
  have "worker_step demo_genv (demo_wsys demo_gsys) s'"
    by (rule worker [OF responded [OF r]]) (simp add: same_world_def demo_wenv_def)
  then have "(worker_step demo_genv)\<^sup>*\<^sup>* (demo_wsys demo_gsys) s'" by blast
  moreover have "gate_at (gates (demo_wsys demo_gsys)) ''packet:p1'' 0 demo_gate"
    using demo_gate_at(1) by (simp add: demo_wsys_def)
  ultimately show ?thesis using workers_never_dispose demo_gate_at(2) by metis
qed

end
