(* ===== verification/Archive_Retention.thy ===== *)
theory Archive_Retention
  imports Archive_Authority Work_Safety "HOL-Library.Multiset"
begin

text \<open>
  What the retention rule and the plan guarantee: which threads stay and which may go, that a plan exists only
  when every candidate is approved, and that its entries are due, approved and not pinned.
\<close>

section \<open>Filters and sorts\<close>

lemma filter_exc_Inr: "filter_exc f xs = Inr ys \<Longrightarrow> ys = filter (\<lambda>x. f x = Inr True) xs \<and> (\<forall>x \<in> set xs. \<exists>b. f x = Inr b)"
  by (induction xs arbitrary: ys) (auto simp: sbind_Inr_iff split: if_splits)

lemma map_exc_Inr_map: "map_exc f xs = Inr ys \<Longrightarrow> (\<And>x y. f x = Inr y \<Longrightarrow> g y = h x) \<Longrightarrow> map g ys = map h xs"
  by (induction xs arbitrary: ys) (auto split: sum.splits)

lemma set_newest_first [simp]: "set (newest_first rs) = set rs"
  by (simp add: newest_first_def)

lemma distinct_newest_first [simp]: "distinct (newest_first rs) = distinct rs"
  by (simp add: newest_first_def)

lemma newest_first_order: "sorted_wrt (\<lambda>a b. t_last b \<le> t_last a) (newest_first rs)"
proof -
  have "sorted_wrt (\<lambda>a b. t_last a \<le> t_last b) (sort_key t_last (rev rs))"
    using sorted_sort_key [of t_last "rev rs"] by (simp add: sorted_map)
  then show ?thesis by (simp add: newest_first_def sorted_wrt_rev)
qed

text \<open>In a list from the newest to the oldest, what comes after the first \<open>n\<close> has \<open>n\<close> others at least as new,
  and each of the first \<open>n\<close> has fewer than \<open>n\<close> newer ones.\<close>

lemma after_first_n:
  assumes "sorted_wrt (\<lambda>a b. t_last b \<le> t_last a) xs" and "distinct xs" and "r \<in> set (drop n xs)"
  shows "n \<le> card {q \<in> set xs. q \<noteq> r \<and> t_last r \<le> t_last q}"
proof -
  have n: "n < length xs" using assms(3) by (metis drop_all leI list.set(1) empty_iff)
  have split: "sorted_wrt (\<lambda>a b. t_last b \<le> t_last a) (take n xs @ drop n xs)" using assms(1) by simp
  then have "t_last r \<le> t_last q" if "q \<in> set (take n xs)" for q
    using that assms(3) unfolding sorted_wrt_append by blast
  moreover have "set (take n xs) \<inter> set (drop n xs) = {}"
    using assms(2) by (metis append_take_drop_id distinct_append)
  ultimately have "set (take n xs) \<subseteq> {q \<in> set xs. q \<noteq> r \<and> t_last r \<le> t_last q}"
    using assms(3) by (auto dest: in_set_takeD)
  then have "card (set (take n xs)) \<le> card {q \<in> set xs. q \<noteq> r \<and> t_last r \<le> t_last q}"
    by (rule card_mono [rotated]) simp
  moreover have "card (set (take n xs)) = n" using n assms(2) by (simp add: distinct_card)
  ultimately show ?thesis by simp
qed

lemma within_first_n:
  assumes "sorted_wrt (\<lambda>a b. t_last b \<le> t_last a) xs" and "r \<in> set (take n xs)"
  shows "card {q \<in> set xs. t_last r < t_last q} < n"
proof -
  obtain i where i: "i < n" "i < length xs" "xs ! i = r"
    using assms(2) by (auto simp: in_set_conv_nth)
  have "q \<in> set (take i xs)" if q: "q \<in> set xs" "t_last r < t_last q" for q
  proof -
    obtain k where k: "k < length xs" "xs ! k = q" using q(1) by (auto simp: in_set_conv_nth)
    have "k < i"
    proof (rule ccontr)
      assume "\<not> k < i"
      then have "k = i \<or> i < k" by auto
      then have "t_last q \<le> t_last r" using sorted_wrt_nth_less [OF assms(1), of i k] k i by auto
      then show False using q(2) by simp
    qed
    then show ?thesis using k i by (auto simp: in_set_conv_nth)
  qed
  then have "card {q \<in> set xs. t_last r < t_last q} \<le> card (set (take i xs))"
    by (intro card_mono) auto
  also have "\<dots> \<le> i" using card_length [of "take i xs"] i(2) by simp
  finally show ?thesis using i(1) by simp
qed

section \<open>Rows of terminal threads\<close>

definition old_genuine :: "trow list \<Rightarrow> trow set" where
  "old_genuine rows = {r \<in> set rows. \<not> t_smoke r \<and> \<not> t_pinned r \<and> \<not> t_recent r}"

lemma set_old_runs: "set (old_runs rows) = old_genuine rows"
  by (auto simp: old_runs_def genuine_def old_genuine_def)

lemma distinct_old_runs: "distinct rows \<Longrightarrow> distinct (old_runs rows)"
  by (simp add: old_runs_def genuine_def)

lemma old_runs_order: "sorted_wrt (\<lambda>a b. t_last b \<le> t_last a) (old_runs rows)"
  unfolding old_runs_def by (rule newest_first_order)

lemma archived_row_iff:
  "r \<in> set (archived_rows rows) \<longleftrightarrow> r \<in> set rows \<and> \<not> t_pinned r \<and> t_smoke r \<or>
     r \<in> set (drop LATEST_RUNS_KEPT (old_runs rows))"
  by (auto simp: archived_rows_def)

lemma kept_row_iff:
  "r \<in> set (kept_rows rows) \<longleftrightarrow> r \<in> set rows \<and> (t_pinned r \<or> \<not> t_smoke r \<and> t_recent r) \<or>
     r \<in> set (take LATEST_RUNS_KEPT (old_runs rows))"
  by (auto simp: kept_rows_def genuine_def)

lemma rows_split:
  assumes "distinct rows"
  shows "set (kept_rows rows) \<union> set (archived_rows rows) = set rows"
    and "set (kept_rows rows) \<inter> set (archived_rows rows) = {}"
proof -
  let ?n = LATEST_RUNS_KEPT and ?xs = "old_runs rows"
  have parts: "set (take ?n ?xs) \<union> set (drop ?n ?xs) = old_genuine rows"
    "set (take ?n ?xs) \<inter> set (drop ?n ?xs) = {}"
    using distinct_old_runs [OF assms] set_old_runs [of rows]
    by (metis append_take_drop_id set_append, metis append_take_drop_id distinct_append)
  show "set (kept_rows rows) \<union> set (archived_rows rows) = set rows"
  proof (rule set_eqI)
    fix r
    show "r \<in> set (kept_rows rows) \<union> set (archived_rows rows) \<longleftrightarrow> r \<in> set rows"
      using parts(1) unfolding Un_iff archived_row_iff kept_row_iff old_genuine_def set_eq_iff mem_Collect_eq by blast
  qed
  show "set (kept_rows rows) \<inter> set (archived_rows rows) = {}"
  proof (rule equals0I)
    fix r
    assume r: "r \<in> set (kept_rows rows) \<inter> set (archived_rows rows)"
    moreover have "r \<in> old_genuine rows" if "r \<in> set (take ?n ?xs) \<union> set (drop ?n ?xs)" using that parts(1) by simp
    ultimately show False
      using parts(2) unfolding Int_iff archived_row_iff kept_row_iff old_genuine_def mem_Collect_eq by blast
  qed
qed

lemma distinct_ids_keys: "distinct (map key_of (distinct_ids xs))"
  by (induction xs) (auto simp: distinct_map_filter)

lemma distinct_ids_subset: "set (distinct_ids xs) \<subseteq> set xs"
  by (induction xs) auto

lemma distinct_ids_cover [simp]: "key_of ` set (distinct_ids xs) = key_of ` set xs"
proof (induction xs)
  case (Cons x xs)
  have "key_of ` set (distinct_ids (x # xs)) = insert (key_of x) (key_of ` set (distinct_ids xs))" by auto
  with Cons show ?case by simp
qed simp

lemma thread_rows_shape:
  assumes "thread_rows v = Inr rows" and "\<And>xs. mset (v_order v xs) = mset xs"
  shows "\<exists>tids ms. terminal_thread_ids v = Inr (tids, ms) \<and> set (map t_id rows) = set tids \<and>
    distinct (map (key_of \<circ> t_id) rows)"
proof -
  obtain pins tids ms where 1: "pinned_ids (v_pins v) = Inr pins" "terminal_thread_ids v = Inr (tids, ms)"
    "map_exc (retention_row v pins ms) (v_order v tids) = Inr rows"
    using assms(1) by (auto simp: thread_rows_def sbind_Inr_iff)
  have ids: "map t_id rows = map (\<lambda>t. t) (v_order v tids)"
    using 1(3) by (rule map_exc_Inr_map) (auto simp: retention_row_def Let_def sbind_Inr_iff)
  obtain opn packets where "filter_exc (is_terminal opn packets ms) (threads_of ms) = Inr tids"
    using 1(2) by (auto simp: terminal_thread_ids_def sbind_Inr_iff)
  then have "tids = filter (\<lambda>t. is_terminal opn packets ms t = Inr True) (threads_of ms)"
    using filter_exc_Inr by blast
  then have "distinct (map key_of tids)"
    using distinct_ids_keys by (simp add: threads_of_def distinct_map_filter)
  then have "distinct (map key_of (v_order v tids))"
    using assms(2) by (metis mset_map mset_eq_imp_distinct_iff)
  then have "distinct (map (key_of \<circ> t_id) rows)" using ids by (metis list.map_comp list.map_ident)
  moreover have "set (map t_id rows) = set tids" using ids assms(2) by (metis list.map_ident set_mset_mset)
  ultimately show ?thesis using 1(2) by blast
qed

text \<open>The row of a thread is the only one with its id.\<close>

lemma row_of_id:
  assumes "distinct (map (key_of \<circ> t_id) rows)" and "r \<in> set rows" and "set xs \<subseteq> set rows" and "t_id r \<in> t_id ` set xs"
  shows "r \<in> set xs"
proof -
  obtain q where q: "q \<in> set xs" "t_id q = t_id r" using assms(4) by auto
  then have "q = r" using assms(1-3) by (metis comp_apply distinct_map inj_on_eq_iff subsetD)
  with q show ?thesis by simp
qed

lemma retention_cases:
  assumes "distinct rows" and "r \<in> set rows"
  shows "r \<in> set (archived_rows rows) \<Longrightarrow> \<not> t_pinned r \<and> (t_smoke r \<or> \<not> t_recent r \<and>
      LATEST_RUNS_KEPT \<le> card {q \<in> old_genuine rows. q \<noteq> r \<and> t_last r \<le> t_last q})"
    and "r \<in> set (kept_rows rows) \<Longrightarrow> t_pinned r \<or> \<not> t_smoke r \<and> (t_recent r \<or>
      card {q \<in> old_genuine rows. t_last r < t_last q} < LATEST_RUNS_KEPT)"
proof -
  have old: "r \<in> old_genuine rows" if "r \<in> set (take n (old_runs rows)) \<or> r \<in> set (drop n (old_runs rows))" for n
    using that set_old_runs [of rows] by (metis in_set_dropD in_set_takeD)
  {
    assume "r \<in> set (archived_rows rows)"
    then show "\<not> t_pinned r \<and> (t_smoke r \<or> \<not> t_recent r \<and>
        LATEST_RUNS_KEPT \<le> card {q \<in> old_genuine rows. q \<noteq> r \<and> t_last r \<le> t_last q})"
      unfolding archived_row_iff
      using after_first_n [OF old_runs_order distinct_old_runs [OF assms(1)]] old
      by (auto simp: set_old_runs) (auto simp: old_genuine_def)
  next
    assume "r \<in> set (kept_rows rows)"
    then show "t_pinned r \<or> \<not> t_smoke r \<and> (t_recent r \<or>
        card {q \<in> old_genuine rows. t_last r < t_last q} < LATEST_RUNS_KEPT)"
      unfolding kept_row_iff
      using within_first_n [OF old_runs_order] old
      by (auto simp: set_old_runs) (auto simp: old_genuine_def)
  }
qed

section \<open>The plan\<close>

lemma set_sort_on: "sort_on key xs = Inr ys \<Longrightarrow> set ys = set xs"
  by (auto simp: sort_on_def split: if_splits)

lemma differences_empty:
  assumes "differences f g = Inr []" and "ty \<in> set TYPES" and "i \<in> set (f ty)"
  shows "key_of i \<in> key_of ` set (g ty)"
proof (rule ccontr)
  assume n: "key_of i \<notin> key_of ` set (g ty)"
  obtain ds where ds: "map_exc (\<lambda>ty. sbind (sort_on (\<lambda>x. x) (minus_ids (f ty) (g ty))) (\<lambda>ids. Inr (ty, ids))) TYPES = Inr ds"
    "filter (\<lambda>(_, ids). ids \<noteq> []) ds = []"
    using assms(1) by (auto simp: differences_def sbind_Inr_iff)
  have "map fst ds = map (\<lambda>ty. ty) TYPES" using ds(1) by (rule map_exc_Inr_map) (auto simp: sbind_Inr_iff)
  then obtain ids where mem: "(ty, ids) \<in> set ds" using assms(2) by (metis (no_types) fst_conv imageE list.map_ident list.set_map prod.collapse)
  then have "sort_on (\<lambda>x. x) (minus_ids (f ty) (g ty)) = Inr ids"
    using map_exc_results [OF ds(1) mem] by (auto simp: sbind_Inr_iff)
  then have empty: "minus_ids (f ty) (g ty) = []"
    using ds(2) mem set_sort_on by (fastforce simp: filter_empty_conv)
  have "key_of i \<in> key_of ` set (distinct_ids (f ty))" using assms(3) by simp
  then obtain x where "x \<in> set (distinct_ids (f ty))" "key_of x = key_of i" by (metis imageE)
  then show False using empty n by (metis (mono_tags, lifting) filter_empty_conv minus_ids_def)
qed

text \<open>The entries of a plan are exactly the files of the qualifying records.\<close>

lemma map_exc_concat_set:
  "map_exc f xs = Inr yss \<Longrightarrow> y \<in> set (concat yss) \<longleftrightarrow> (\<exists>x \<in> set xs. \<exists>ys. f x = Inr ys \<and> y \<in> set ys)"
  by (induction xs arbitrary: yss) (auto split: sum.splits)

lemma map_exc_entry: "map_exc f xs = Inr ys \<Longrightarrow> x \<in> set xs \<Longrightarrow> \<exists>y. f x = Inr y"
  by (induction xs arbitrary: ys) (auto split: sum.splits)

lemma map_exc_set: "map_exc f xs = Inr ys \<Longrightarrow> y \<in> set ys \<longleftrightarrow> (\<exists>x \<in> set xs. f x = Inr y)"
  by (induction xs arbitrary: ys) (auto split: sum.splits)

lemma in_record_entries:
  assumes "record_entries v c r = Inr es"
  shows "e \<in> set es \<longleftrightarrow> qualifies c r \<and> (\<exists>srcs. resolve_record_files v (kind_text (fst r)) (snd r) = Inr srcs \<and>
     (\<exists>src \<in> set srcs. plan_entry v (kind_text (fst r)) (snd r) src = Inr e))"
  using assms by (auto simp: record_entries_def sbind_Inr_iff map_exc_set split: if_splits)

lemma generate_plan_parts:
  assumes "generate_plan v d = Inr (Planned p)"
  obtains c recs missing ess where "compute_live_candidates v = Inr c" "inventory_records d = Inr recs"
    "diff_against_approved c recs = Inr ([], missing)" "map_exc (record_entries v c) recs = Inr ess"
    "pl_entries p = sort_key entry_order (concat ess)" "pl_hash p = compute_plan_hash v (pl_entries p)"
    "pl_skipped p = missing"
  using assms by (auto simp: generate_plan_def sbind_Inr_iff Let_def split: if_splits)

lemma plan_entry_fields:
  "plan_entry v ty rid src = Inr e \<Longrightarrow> pe_id e = rid \<and> pe_type e = ty \<and> pe_src e = src \<and> v_sha v src = Some (pe_sha e) \<and>
     pe_dst e = archive_root (v_root v) @ [v_month v] @ relpath src (v_root v)"
  by (auto simp: plan_entry_def split: option.splits)

section \<open>Pins\<close>

lemma in_ids_Inr: "in_ids j ids = Inr b \<Longrightarrow> b \<longleftrightarrow> key_of j \<in> key_of ` set ids"
  by (auto simp: in_ids_def split: if_splits)

lemma old_events_unpinned: "i \<in> set (old_events v pins es) \<Longrightarrow> key_of i \<notin> key_of ` set pins"
proof (induction es)
  case (Cons e es)
  show ?case
    using Cons.prems Cons.IH in_ids_Inr [of "jget e ''event_id''" pins False]
    by (auto simp: Let_def split: if_splits sum.splits bool.splits option.splits dest: sym)
qed simp

lemma packet_candidate_unpinned:
  "packet_candidate v pins p = Inr is \<Longrightarrow> i \<in> set is \<Longrightarrow> key_of i \<notin> key_of ` set pins"
  using in_ids_Inr [of "p_id p" pins]
  by (auto simp: packet_candidate_def sbind_Inr_iff split: if_splits option.splits)

lemma archived_thread_unpinned:
  assumes "classify_threads v = Inr (keep, arch)" and "pinned_ids (v_pins v) = Inr pins" and "i \<in> set arch"
  shows "key_of i \<notin> key_of ` set pins"
proof -
  obtain rows tids ms where 1: "map_exc (retention_row v pins ms) (v_order v tids) = Inr rows"
    "arch = map t_id (archived_rows rows)"
    using assms(1,2) by (auto simp: classify_threads_def thread_rows_def sbind_Inr_iff)
  then obtain r where r: "r \<in> set (archived_rows rows)" "i = t_id r" using assms(3) by auto
  then have "r \<in> set rows" "\<not> t_pinned r"
    using set_old_runs [of rows] by (auto simp: archived_row_iff old_genuine_def dest!: in_set_dropD)
  then obtain t where "retention_row v pins ms t = Inr r" using 1(1) map_exc_results by meson
  then show ?thesis using \<open>\<not> t_pinned r\<close> r(2) in_ids_Inr [of t pins]
    by (auto simp: retention_row_def Let_def sbind_Inr_iff)
qed

lemma candidates_unpinned:
  assumes "compute_live_candidates v = Inr c" and "pinned_ids (v_pins v) = Inr pins"
    and "i \<in> set (cd_threads c) \<union> set (cd_packets c) \<union> set (cd_events c)"
  shows "key_of i \<notin> key_of ` set pins"
proof -
  obtain keep arch packets pids where 1: "classify_threads v = Inr (keep, arch)" "sort_on (\<lambda>x. x) arch = Inr (cd_threads c)"
    "map_exc (packet_candidate v pins) packets = Inr pids" "sort_on (\<lambda>x. x) (concat pids) = Inr (cd_packets c)"
    "sort_on (\<lambda>x. x) (event_candidates v pins) = Inr (cd_events c)"
    using assms(1,2) by (auto simp: compute_live_candidates_def sbind_Inr_iff)
  consider "i \<in> set arch" | "i \<in> set (concat pids)" | "i \<in> set (event_candidates v pins)"
    using assms(3) 1(2,4,5) set_sort_on by blast
  then show ?thesis
  proof cases
    case 1
    then show ?thesis using archived_thread_unpinned \<open>classify_threads v = _\<close> assms(2) by blast
  next
    case 2
    then show ?thesis using map_exc_concat_set [OF 1(3)] packet_candidate_unpinned by blast
  next
    case 3
    then obtain es where "i \<in> set (old_events v pins es)"
      by (auto simp: event_candidates_def split: sum.splits)
    then show ?thesis by (rule old_events_unpinned)
  qed
qed

lemma planned_unpinned:
  assumes "generate_plan v d = Inr (Planned p)" and "pinned_ids (v_pins v) = Inr pins"
    and "e \<in> set (pl_entries p)" and "pe_type e \<noteq> ''council''"
  shows "key_of (pe_id e) \<notin> key_of ` set pins"
proof -
  obtain c recs missing ess where 1: "compute_live_candidates v = Inr c"
    "map_exc (record_entries v c) recs = Inr ess" "pl_entries p = sort_key entry_order (concat ess)"
    using generate_plan_parts [OF assms(1)] by metis
  have "e \<in> set (concat ess)" using assms(3) 1(3) by simp
  then obtain r es where "record_entries v c r = Inr es" "e \<in> set es"
    using map_exc_concat_set [OF 1(2)] by blast
  then have "qualifies c r" "pe_id e = snd r" "pe_type e = kind_text (fst r)"
    using in_record_entries plan_entry_fields by blast+
  then obtain i where "i \<in> set (of_type c (pe_type e))" "key_of i = key_of (pe_id e)"
    by (auto simp: qualifies_def)
  then show ?thesis
    using candidates_unpinned [OF 1(1) assms(2), of i] assms(4) by (auto simp: of_type_def split: if_splits)
qed

section \<open>Properties\<close>


text \<open>A queue with an old thread, a smoke run of the same day and a pinned one.\<close>

definition note_in :: "string \<Rightarrow> string \<Rightarrow> string \<Rightarrow> string \<Rightarrow> jobj" where
  "note_in mid tid at body = [(''message_id'', JStr mid), (''thread_id'', JStr tid), (''at'', JStr at),
     (''actor'', JStr ''A1''), (''message'', JStr body)]"

definition demo_notes :: comms where
  "demo_notes = no_messages\<lparr>mfiles := [(''a.json'', Doc (JObj (note_in ''a'' ''ta'' ''1'' ''deploy''))),
     (''b.json'', Doc (JObj (note_in ''b'' ''tb'' ''9'' ''Smoke run''))),
     (''c.json'', Doc (JObj (note_in ''c'' ''tc'' ''9'' ''smoke again'')))]\<rparr>"

definition demo_view :: pview where
  "demo_view = \<lparr>v_env = demo_wenv\<lparr>e_lane := (\<lambda>_. None)\<rparr>, v_sys = demo_wsys (demo_empty\<lparr>gcomms := demo_notes\<rparr>),
     v_pins = Some (pins_doc [JStr ''tc'']), v_order = rev,
     v_instant = (\<lambda>t. Some (if t = ''1'' then 0 else 400 * HOUR)), v_now = 401 * HOUR, v_month = ''2026-02'',
     v_mtime = (\<lambda>_. None), v_events = no_messages, v_event_reading = demo_reading, v_council_files = (\<lambda>_. None),
     v_isfile = (\<lambda>_. False), v_sha = (\<lambda>p. Some (last p)), v_real = ''/q'', v_digest = (\<lambda>_. ''h'')\<rparr>"

definition demo_rows :: "trow list" where
  "demo_rows = [\<lparr>t_id = JStr ''tc'', t_last = ''9'', t_smoke = True, t_recent = True, t_pinned = True\<rparr>,
     \<lparr>t_id = JStr ''tb'', t_last = ''9'', t_smoke = True, t_recent = True, t_pinned = False\<rparr>,
     \<lparr>t_id = JStr ''ta'', t_last = ''1'', t_smoke = False, t_recent = False, t_pinned = False\<rparr>]"

lemma demo_thread_rows: "thread_rows demo_view = Inr demo_rows"
  by code_simp

lemma demo_classes: "classify_threads demo_view = Inr ([JStr ''tc'', JStr ''ta''], [JStr ''tb''])"
  by code_simp



definition demo_inventory :: jobj where
  "demo_inventory = [(''records'', JArr [JObj [(''type'', JStr ''thread''), (''id'', JStr ''tb'')],
       JObj [(''type'', JStr ''thread''), (''id'', JStr ''tc'')]]), (''content_hash'', JStr ''h'')]"

definition demo_plan :: plan where
  "demo_plan = \<lparr>pl_entries = [\<lparr>pe_id = JStr ''tb'', pe_type = ''thread'', pe_src = [''q'', ''communications'', ''b.json''],
       pe_rel = [''communications'', ''b.json''],
       pe_dst = [''archive'', ''2026-02'', ''communications'', ''b.json''], pe_sha = ''b.json''\<rparr>], pl_hash = ''h'',
     pl_skipped = [(''thread'', [JStr ''tc''])]\<rparr>"

lemma demo_planned: "generate_plan demo_view demo_inventory = Inr (Planned demo_plan)"
  by code_simp


text \<open>A pinned thread, packet or event is never in a move plan, whatever its age and although the inventory
  names it.\<close>

theorem pinned_records_stay:
  assumes "generate_plan v d = Inr (Planned p)" and "pinned_ids (v_pins v) = Inr pins"
    and "e \<in> set (pl_entries p)" and "pe_type e \<noteq> ''council''"
  shows "key_of (pe_id e) \<notin> key_of ` set pins"
  using assms by (rule planned_unpinned)

theorem pinned_records_stay_witness:
  "key_of (JStr ''tb'') \<notin> key_of ` set [JStr ''tc'']"
  using pinned_records_stay [OF demo_planned, of "[JStr ''tc'']" "hd (pl_entries demo_plan)"]
  by (simp add: demo_plan_def demo_view_def pinned_ids_def pins_doc_def read_doc_def py_or_def get_or_def jhas_def
      id_set_def hashable_def py_simps)

section \<open>Where the rule differs from its description\<close>

text \<open>A council is archived with its thread although the council itself is pinned.\<close>

definition council_view :: pview where
  "council_view = demo_view\<lparr>v_env := (v_env demo_view)\<lparr>e_councils := demo_cview\<lparr>c_root := Entries [''k''],
       c_council := (\<lambda>_. Some (Doc (JObj [(''council_id'', JStr ''k''), (''thread_id'', JStr ''tb'')]))), c_outcome := (\<lambda>_. None)\<rparr>\<rparr>,
     v_pins := Some (pins_doc [JStr ''k'']),
     v_council_files := (\<lambda>_. Some [''council.json''])\<rparr>"

lemma pinned_council_is_archived:
  "pinned_ids (v_pins council_view) = Inr [JStr ''k'']"
  "(case compute_live_candidates council_view of Inr c \<Rightarrow> cd_councils c = [JStr ''k''] | _ \<Rightarrow> False)"
  by code_simp+

text \<open>The documents keep work that carries an unresolved gate; the code counts only open and claimed items, so a
  thread whose gate waits for the operator is a candidate.\<close>

definition gated_note :: jobj where
  "gated_note = note_in ''g'' ''tg'' ''1'' ''run the smoke tests'' @ [(''identity_version'', JInt 2), (''direction'', JStr ''inbound''), (''intent'', JStr ''request''),
     (''status'', JStr ''posted'')]"

definition gated_view :: pview where
  "gated_view = demo_view\<lparr>v_sys := demo_wsys
     \<lparr>gfiles = [''message:g'' \<mapsto> Doc (JObj [(''subject'', JStr ''message:g''), (''gates'', JArr [JObj demo_gate])])],
      gcomms = no_messages\<lparr>mfiles := [(''g.json'', Doc (JObj gated_note))]\<rparr>\<rparr>\<rparr>"

lemma gated_thread_is_archived:
  "(case derive_work_items (v_env gated_view) (v_sys gated_view) False no_run of
      Inr [it] \<Rightarrow> jget it ''status'' = JStr ''operator_required'' \<and> jget it ''thread_id'' = JStr ''tg'' | _ \<Rightarrow> False)"
  "classify_threads gated_view = Inr ([], [JStr ''tg''])"
  by code_simp+

text \<open>The files of a packet record are found by the packet id in every lane, so a packet in progress moves with
  an old finished one of the same id.\<close>

definition twin_view :: pview where
  "twin_view = demo_view\<lparr>v_env := demo_wenv\<lparr>e_lane := (\<lambda>l. if l \<in> {''clearance_in_progress'', ''clearance_done''}
       then Some [l @ ''.json''] else None)\<rparr>,
     v_sys := (demo_wsys demo_empty)\<lparr>w_packets := \<lparr>files = (\<lambda>_. Some (Doc (JObj [(''packet_id'', JStr ''p1''),
       (''status'', JStr ''IN_PROGRESS'')]))), tick = 0\<rparr>\<rparr>, v_mtime := (\<lambda>_. Some 0)\<rparr>"

lemma live_twin_is_archived:
  "(case compute_live_candidates twin_view of Inr c \<Rightarrow> cd_packets c = [JStr ''p1''] | _ \<Rightarrow> False)"
  "resolve_record_files twin_view ''clearance_packet'' (JStr ''p1'') =
     Inr [[''q'', ''clearance_in_progress'', ''clearance_in_progress.json''], [''q'', ''clearance_done'', ''clearance_done.json'']]"
  by code_simp+

text \<open>With equal timestamps the threads that stay depend on the order in which the set is walked.\<close>

definition old_row :: "int \<Rightarrow> trow" where
  "old_row n = \<lparr>t_id = JInt n, t_last = ''1'', t_smoke = False, t_recent = False, t_pinned = False\<rparr>"

lemma ties_depend_on_the_walk:
  "JInt 6 \<in> set (map t_id (archived_rows (map old_row [1, 2, 3, 4, 5, 6])))"
  "JInt 6 \<notin> set (map t_id (archived_rows (map old_row [6, 5, 4, 3, 2, 1])))"
  by code_simp+

end
