(* ===== verification/Archive_Control.thy ===== *)
theory Archive_Control
  imports Archive_Execute Archive_Retention
begin

text \<open>
  What stands between the queue and the archive: an execution moves files only along the plan it recomputed
  under the exclusive flag, with an operator's approval of that plan's hash; approvals are found after they
  are written and never after they are revoked; an override clears only a flag whose owner is not alive.
\<close>

section \<open>One execution\<close>

lemma run_plan_refines:
  "(amove (digest (x_arch x)) (set (map item_of (pl_entries p))))\<^sup>*\<^sup>* (stored s) (stored (snd (run_plan x p h ap s)))"
proof -
  let ?env = "x_arch x" and ?k = "exec_key x" and ?its = "map item_of (pl_entries p)"
  obtain r t where t: "write_journal ?env ?k ?its (JStr h) (Some ap) s = (r, t)" by fastforce
  have same: "stored t = stored s" and planned: "r = Inr j \<Longrightarrow> j_planned j = ?its" for j
    using t by (auto simp: write_journal_def new_journal_def Let_def abind_def atomic_write_def os_step_def
        split: mishap.splits)
  show ?thesis
  proof (cases r)
    case (Inl e)
    then show ?thesis using t same by (simp add: run_plan_def abind_def)
  next
    case (Inr j)
    obtain r' u where u: "execute_journal ?env ?k j t = (r', u)" by fastforce
    have "(amove (digest ?env) (set ?its))\<^sup>*\<^sup>* (stored s) (stored u)"
      using execute_refines [of ?env j t ?k] u same planned [OF Inr] by simp
    moreover have "stored (snd (run_plan x p h ap s)) = stored u"
      using t u Inr by (cases r') (simp_all add: run_plan_def abind_def)
    ultimately show ?thesis by simp
  qed
qed

lemma as_arch_released [simp]: "as_arch (snd (released x (r, s))) = as_arch s"
  by (auto simp: released_def split: prod.splits sum.splits)

lemma locked_body_moves:
  assumes "stored (as_arch (snd (locked_body x d h ap s))) \<noteq> stored (as_arch s)"
  shows "\<exists>p. generate_plan (at_state x (x_second x) s) d = Inr (Planned p) \<and> pl_hash p = h \<and>
    (amove (digest (x_arch x)) (set (map item_of (pl_entries p))))\<^sup>*\<^sup>* (stored (as_arch s))
      (stored (as_arch (snd (locked_body x d h ap s))))"
proof -
  obtain p where p: "generate_plan (at_state x (x_second x) s) d = Inr (Planned p)" "pl_hash p = h"
    using assms by (auto simp: locked_body_def split: sum.splits planning.splits if_splits)
  have "as_arch (snd (locked_body x d h ap s)) = snd (run_plan x p h ap (as_arch s))"
    using p by (auto simp: locked_body_def split: prod.splits sum.splits)
  then show ?thesis using p run_plan_refines by (intro exI [of _ p]) simp
qed

text \<open>The flag that \<open>acquire_exclusive\<close> reports is the one in the lock directory.\<close>

lemma exclusive_pass_flag:
  "exclusive_pass io tm os av me names opid nonce pending s = (Inr (Some fl), s') \<Longrightarrow> flag s' = Some (Doc (JObj fl))"
  by (auto simp: exclusive_pass_def Let_def split: if_splits prod.splits sum.splits list.splits)

lemma acquired_flag:
  "acquire_exclusive ps me opid nonce pending s = (Inr fl, s') \<Longrightarrow> flag s' = Some (Doc (JObj fl))"
  by (induction ps me opid nonce pending s rule: acquire_exclusive.induct)
    (auto split: prod.splits sum.splits option.splits dest: exclusive_pass_flag)

lemma at_state_locks [simp]: "at_state x v (s\<lparr>as_locks := l\<rparr>) = at_state x v s"
  by (simp add: at_state_def)

text \<open>An approval that authorises a plan: a stored record, not revoked, for the hash of the plan, behind which
  stands an inbound message of the operator that contains the hash as recorded.\<close>

definition authorises :: "xenv \<Rightarrow> string \<Rightarrow> approvals \<Rightarrow> jobj \<Rightarrow> bool" where
  "authorises x h s ap =
     (JObj ap \<in> set (list_approvals (x_approval x) s) \<and> \<not> truthy (jget ap ''revoked'') \<and>
      jget ap ''queue_root'' = JStr (ap_root (x_approval x)) \<and>
      lower (py_str (py_or (jget ap ''approved_plan_sha256'') (JStr []))) = lower (strip h) \<and>
      (\<exists>ms m. read_messages (ie_reading (e_ident (v_env (x_first x)))) JNull JNull None (messages (v_sys (x_first x))) = Inr ms \<and>
         m \<in> set ms \<and> key_of (jget m ''message_id'') = key_of (jget ap ''operator_message_id'') \<and> operator_inbound m \<and>
         py_in (get_or ap ''approved_plan_sha256'' (JStr [])) (py_or (jget m ''message'') (JStr [])) = Inr True))"

lemma eligible_fields:
  "eligible_record env h j = Inr cs \<Longrightarrow> (t, rec) \<in> set cs \<Longrightarrow> j = JObj rec \<and> \<not> truthy (jget rec ''revoked'') \<and>
     jget rec ''queue_root'' = JStr (ap_root env) \<and>
     lower (py_str (py_or (jget rec ''approved_plan_sha256'') (JStr []))) = h"
  by (auto simp: eligible_record_def sbind_Inr_iff as_object_def split: json.splits if_splits option.splits)

lemma found_approval:
  assumes "find_eligible_approval env h s = Inr (Inr ap)"
  shows "\<exists>t cs. JObj ap \<in> set (list_approvals env s) \<and> eligible_record env (lower (strip h)) (JObj ap) = Inr cs \<and> (t, ap) \<in> set cs"
proof -
  let ?sorted = "\<lambda>css. sort_key fst (concat css)"
  obtain css c where css: "map_exc (eligible_record env (lower (strip h))) (list_approvals env s) = Inr css"
    "filter (\<lambda>c. fst c = fst (last (?sorted css))) (?sorted css) = [c]" "ap = snd c"
    using assms by (auto simp: find_eligible_approval_def sbind_Inr_iff Let_def split: if_splits list.splits)
  have "c \<in> set (filter (\<lambda>c. fst c = fst (last (?sorted css))) (?sorted css))" unfolding css(2) by simp
  then have "c \<in> set (concat css)" by simp
  with css(3) have c: "c \<in> set (concat css)" "ap = snd c" by simp_all
  then obtain cs where "cs \<in> set css" "c \<in> set cs" by auto
  then obtain j where j: "j \<in> set (list_approvals env s)" "eligible_record env (lower (strip h)) j = Inr cs"
    using map_exc_results [OF css(1)] by blast
  then have "j = JObj ap" using eligible_fields [OF j(2), of "fst c" "snd c"] \<open>c \<in> set cs\<close> c(2) by simp
  then show ?thesis using j \<open>c \<in> set cs\<close> c(2) by (metis prod.collapse)
qed

lemma authority_authorises:
  assumes "authority x h s = Inr (Inr ap)"
  shows "authorises x h (as_approvals s) ap"
proof -
  let ?rd = "ie_reading (e_ident (v_env (x_first x)))" and ?c = "messages (v_sys (x_first x))"
  have 1: "find_eligible_approval (x_approval x) h (as_approvals s) = Inr (Inr ap)"
    and 2: "validate_approval_message ?rd ?c ap = Inr None"
    using assms by (auto simp: authority_def sbind_def split: sum.split_asm option.split_asm)
  obtain ms m where m: "read_messages ?rd JNull JNull None ?c = Inr ms"
    "List.find (\<lambda>m. key_of (jget m ''message_id'') = key_of (jget ap ''operator_message_id'')) ms = Some m"
    "operator_inbound m" "py_in (get_or ap ''approved_plan_sha256'' (JStr [])) (py_or (jget m ''message'') (JStr [])) = Inr True"
    using 2 by (auto simp: validate_approval_message_def message_with_def sbind_Inr_iff split: option.splits if_splits)
  have "m \<in> set ms" "key_of (jget m ''message_id'') = key_of (jget ap ''operator_message_id'')"
    using m(2) by (auto simp: find_Some_iff)
  then show ?thesis
    using found_approval [OF 1] eligible_fields m(1,3,4) unfolding authorises_def by blast
qed

lemma execute_planned_moves:
  assumes "stored (as_arch (snd (execute_planned x d s))) \<noteq> stored (as_arch s)"
  shows "\<exists>p ap fl l. generate_plan (at_state x (x_second x) s) d = Inr (Planned p) \<and>
    authorises x (pl_hash p) (as_approvals s) ap \<and>
    acquire_exclusive (x_passes x) (x_pid x) (JStr (x_opid x)) (x_nonce x)
      (Some (path_str (archive_root (v_root (x_first x)) @ [x_month x, ''pending-'' @ x_opid x @ ''.json''])))
      (as_locks s) = (Inr fl, l) \<and> flag l = Some (Doc (JObj fl)) \<and>
    (amove (digest (x_arch x)) (set (map item_of (pl_entries p))))\<^sup>*\<^sup>* (stored (as_arch s))
      (stored (as_arch (snd (execute_planned x d s))))"
proof -
  obtain p0 ap where 1: "generate_plan (at_state x (x_first x) s) d = Inr (Planned p0)"
    "authority x (pl_hash p0) s = Inr (Inr ap)"
    using assms by (auto simp: execute_planned_def split: sum.splits planning.splits)
  let ?acq = "acquire_exclusive (x_passes x) (x_pid x) (JStr (x_opid x)) (x_nonce x)
      (Some (path_str (archive_root (v_root (x_first x)) @ [x_month x, ''pending-'' @ x_opid x @ ''.json''])))
      (as_locks s)"
  have run: "execute_planned x d s = under_exclusivity x d (pl_hash p0) ap s"
    using 1 by (simp add: execute_planned_def)
  obtain fl l where 2: "?acq = (Inr fl, l)"
    using assms run by (cases ?acq) (auto simp: under_exclusivity_def Let_def split: sum.splits)
  let ?s = "s\<lparr>as_locks := l\<rparr>"
  have 3: "as_arch (snd (execute_planned x d s)) = as_arch (snd (locked_body x d (pl_hash p0) ap ?s))"
    using run 2 by (simp add: under_exclusivity_def Let_def)
      (metis as_arch_released prod.collapse)
  then obtain p where "generate_plan (at_state x (x_second x) ?s) d = Inr (Planned p)" "pl_hash p = pl_hash p0"
    "(amove (digest (x_arch x)) (set (map item_of (pl_entries p))))\<^sup>*\<^sup>* (stored (as_arch ?s))
      (stored (as_arch (snd (locked_body x d (pl_hash p0) ap ?s))))"
    using locked_body_moves [of x d "pl_hash p0" ap ?s] assms by auto
  then show ?thesis using 2 3 authority_authorises [OF 1(2)] acquired_flag [OF 2]
    by (intro exI [of _ p] exI [of _ ap] exI [of _ fl] exI [of _ l]) simp
qed

section \<open>The plan is carried out\<close>

text \<open>A quiet archive: no journal is pending, the log of the new operation is empty and the ids to be archived
  have no entry yet.\<close>

definition quiet :: "jkey \<Rightarrow> item list \<Rightarrow> archive \<Rightarrow> bool" where
  "quiet k its s = (pend s = [] \<and> completed_paths (clogs s k) = [] \<and> (\<forall>it \<in> set its. resolve_archived s (it_id it) = None))"

lemma run_plan_completes:
  assumes "quiet (exec_key x) (map item_of (pl_entries p)) s"
    and "ready (digest (x_arch x)) (map item_of (pl_entries p)) (stored s)"
    and "jget ap ''approved_plan_sha256'' = JStr h" and "run_plan x p h ap s = (r, t)"
  shows "\<exists>j. j_planned j = map item_of (pl_entries p) \<and> j_plan_hash j = JStr h \<and>
    (case r of Inr _ \<Rightarrow> finished (exec_key x) j (stored s) t
     | Inl e \<Rightarrow> e = Interrupted \<and> \<not> calm (x_arch x) \<and>
         (stored t = stored s \<and> pend t = [] \<or> working (exec_key x) j (stored s) t \<or> finished (exec_key x) j (stored s) t))"
proof -
  let ?env = "x_arch x" and ?k = "exec_key x" and ?its = "map item_of (pl_entries p)"
  define j where "j = new_journal ?k (now_iso ?env (atick s)) ?its (JStr h) (Some ap)"
  have fields: "j_planned j = ?its" "j_plan_hash j = JStr h" "same_lineage j ap"
    using assms(3) by (simp_all add: j_def new_journal_def Let_def same_lineage_def)
  let ?w = "s\<lparr>pend := [(?k, Some j)], atick := Suc (atick s)\<rparr>"
  have fresh: "fresh ?k j ?w"
    using assms(1) fields(1) by (auto simp: fresh_def quiet_def ids_def resolve_archived_def read_index_def)
  then have w: "working ?k j (stored s) ?w" using fresh_working [of ?k j ?w] assms(2) fields(1) by simp
  have written: "write_journal ?env ?k ?its (JStr h) (Some ap) s =
      (case hazard ?env (atick s) of Fine \<Rightarrow> (Inr j, ?w) | Dies \<Rightarrow> (Inl Interrupted, ?w)
       | _ \<Rightarrow> (Inl Interrupted, s\<lparr>atick := Suc (atick s)\<rparr>))"
    using assms(1) by (simp add: write_journal_def abind_def atomic_write_def os_step_def Let_def j_def quiet_def
        split: mishap.splits)
  have disturbed: "hazard ?env (atick s) \<noteq> Fine \<Longrightarrow> \<not> calm ?env" by (auto simp: calm_def)
  show ?thesis
  proof (cases "hazard ?env (atick s)")
    case Fine
    then have "(r, t) = abind (execute_journal ?env ?k j) (\<lambda>_. finalize_journal ?env ?k j ap) ?w"
      using assms(4) written by (simp add: run_plan_def abind_def)
    then show ?thesis
      using safe_carry_out [of ?env j "stored s" ?k ?w ap] w fields assms(2)
      by (intro exI [of _ j]) (auto split: sum.splits prod.splits)
  next
    case Dies
    then show ?thesis using assms(4) written w fields disturbed
      by (intro exI [of _ j]) (auto simp: run_plan_def abind_def)
  next
    case Fails
    then show ?thesis using assms(1,4) written fields disturbed
      by (intro exI [of _ j]) (auto simp: run_plan_def abind_def quiet_def)
  next
    case Tears
    then show ?thesis using assms(1,4) written fields disturbed
      by (intro exI [of _ j]) (auto simp: run_plan_def abind_def quiet_def)
  qed
qed

section \<open>Approvals\<close>

lemma set_list_approvals:
  "j \<in> set (list_approvals env s) \<longleftrightarrow>
     truthy j \<and> (\<exists>n c. map_of s n = Some c \<and> has_suffix ''.json'' n \<and> ap_readable env n \<and> j = read_doc (Some c))"
proof -
  have "n \<in> fst ` set s \<longleftrightarrow> (\<exists>c. map_of s n = Some c)" for n
    by (metis map_of_eq_None_iff not_None_eq)
  then have "j \<in> set (list_approvals env s) \<longleftrightarrow>
      truthy j \<and> (\<exists>n. (\<exists>c. map_of s n = Some c) \<and> has_suffix ''.json'' n \<and> j = read_approval env s n)"
    by (simp add: list_approvals_def image_iff) blast
  also have "\<dots> \<longleftrightarrow> truthy j \<and> (\<exists>n c. map_of s n = Some c \<and> has_suffix ''.json'' n \<and> j = read_approval env s n)"
    by blast
  also have "\<dots> \<longleftrightarrow> truthy j \<and>
      (\<exists>n c. map_of s n = Some c \<and> has_suffix ''.json'' n \<and> ap_readable env n \<and> j = read_doc (Some c))"
    by (rule conj_cong [OF refl], intro ex_cong1) (auto simp: read_approval_def)
  finally show ?thesis .
qed

lemma remdups_snoc: "n \<notin> set xs \<Longrightarrow> remdups (xs @ [n]) = remdups xs @ [n]"
  by (induction xs) auto

lemma mset_list_approvals_new:
  assumes "n \<notin> fst ` set s" and "has_suffix ''.json'' n" and "ap_readable env n" and "truthy (JObj rec)"
  shows "mset (list_approvals env (AList.update n (Doc (JObj rec)) s)) = add_mset (JObj rec) (mset (list_approvals env s))"
proof -
  let ?s = "AList.update n (Doc (JObj rec)) s"
  let ?names = "\<lambda>s. filter (has_suffix ''.json'') (sort (remdups (map fst s)))"
  have upd: "map fst ?s = map fst s @ [n]" using assms(1) by (induction s) (auto simp: image_iff)
  have names: "mset (?names ?s) = add_mset n (mset (?names s))"
    using assms(1,2) by (simp add: upd remdups_snoc mset_filter)
  have same: "read_approval env ?s m = read_approval env s m" if "m \<in> set (?names s)" for m
    using that assms(1) by (auto simp: read_approval_def update_conv image_iff)
  have rest: "image_mset (read_approval env ?s) (mset (?names s)) = image_mset (read_approval env s) (mset (?names s))"
    by (rule image_mset_cong) (simp only: set_mset_mset same)
  have "mset (list_approvals env ?s) = filter_mset truthy (image_mset (read_approval env ?s) (mset (?names ?s)))"
    unfolding list_approvals_def mset_filter mset_map ..
  also have "\<dots> = filter_mset truthy (add_mset (JObj rec) (image_mset (read_approval env s) (mset (?names s))))"
    unfolding names image_mset_add_mset rest using assms(3) by (simp add: read_approval_def update_conv read_doc_def)
  also have "\<dots> = add_mset (JObj rec) (mset (list_approvals env s))"
    using assms(4) by (simp add: list_approvals_def mset_filter)
  finally show ?thesis .
qed

lemma hex64_fixed:
  assumes "hex64 h"
  shows "strip h = h" and "lower h = h" and "h \<noteq> []"
proof -
  have c: "\<not> is_ws x \<and> lower_char x = x" if "x \<in> set h" for x
    using assms that by (auto simp: hex64_def list_all_iff is_digit_def is_ws_def lower_char_def Let_def)
  show "h \<noteq> []" using assms by (auto simp: hex64_def)
  then have "lstrip h = h" "lstrip (rev h) = rev h" using c by (auto intro!: lstrip_fixed simp: hd_rev)
  then show "strip h = h" by (simp add: strip_def)
  show "lower h = h" using c by (simp add: lower_def map_idI)
qed

lemma own_approval_eligible:
  assumes "hex64 h" and "ap_now env \<noteq> []" and "ap_instant env (ap_now env) = Some t"
  shows "eligible_record env h (JObj (approval_record env h mid op)) = Inr [(t, approval_record env h mid op)]"
  using assms hex64_fixed [OF assms(1)]
  by (simp add: eligible_record_def as_object_def approval_record_def py_simps py_or_def)

lemma sorted_last_key: "sorted (map k xs) \<Longrightarrow> x \<in> set xs \<Longrightarrow> k x \<le> k (last xs)"
  by (induction xs) auto

lemma last_of_sort:
  assumes "x \<in> set xs" shows "k x \<le> k (last (sort_key k xs))"
proof -
  have s: "sorted (map k (sort_key k xs))" by (rule sorted_sort_key)
  have m: "x \<in> set (sort_key k xs)" using assms by simp
  show ?thesis by (rule sorted_last_key [OF s m])
qed

text \<open>The newest of the eligible approvals, when only one is that new.\<close>

lemma newest_found:
  assumes "\<And>j. j \<in> set L \<Longrightarrow> \<exists>cs. f j = Inr cs \<and> (\<forall>c \<in> set cs. fst c < t)" and "f j0 = Inr [(t, r)]"
    and "mset L' = add_mset j0 (mset L)"
  shows "\<exists>css. map_exc f L' = Inr css \<and> concat css \<noteq> [] \<and>
    (let cs = sort_key fst (concat css) in filter (\<lambda>c. fst c = fst (last cs)) cs) = [(t :: int, r)]"
proof -
  define g where "g = (\<lambda>j. case f j of Inr cs \<Rightarrow> cs | Inl _ \<Rightarrow> [])"
  have members: "set L' = insert j0 (set L)" using assms(3) by (metis set_mset_add_mset_insert set_mset_mset)
  have total: "map_exc f L' = Inr (map g L')"
    using assms(1,2) members by (intro map_exc_total) (force simp: g_def)
  let ?xs = "concat (map g L')" and ?ys = "concat (map g L)"
  have old: "fst c < t" if "c \<in> set ?ys" for c using that assms(1) by (force simp: g_def)
  have flat: "mset (concat (map g K)) = sum_mset (image_mset (\<lambda>j. mset (g j)) (mset K))" for K
    by (induction K) auto
  have xs: "mset ?xs = add_mset (t, r) (mset ?ys)"
    unfolding flat assms(3) using assms(2) by (simp add: g_def)
  let ?cs = "sort_key fst ?xs"
  have cs: "mset ?cs = add_mset (t, r) (mset ?ys)" using xs by simp
  then have set_cs: "set ?cs = insert (t, r) (set ?ys)" by (metis set_mset_add_mset_insert set_mset_mset)
  have ne: "?cs \<noteq> []" using cs by (metis add_mset_not_empty mset.simps(1))
  have "(t, r) \<in> set ?xs" using set_cs by simp
  then have "fst (t, r) \<le> fst (last ?cs)" by (rule last_of_sort)
  then have "t \<le> fst (last ?cs)" by simp
  moreover have "last ?cs \<in> insert (t, r) (set ?ys)" using last_in_set [OF ne] unfolding set_cs .
  then have "fst (last ?cs) \<le> t" by (metis old fst_conv insert_iff less_imp_le order_refl)
  ultimately have l: "fst (last ?cs) = t" by simp
  have "mset (filter (\<lambda>c. fst c = t) ?cs) = {#(t, r)#}"
  proof -
    have "filter (\<lambda>c. fst c = t) ?ys = []" using old by (metis (mono_tags, lifting) filter_False order_less_irrefl)
    then have "filter_mset (\<lambda>c. fst c = t) (mset ?ys) = {#}" by (metis mset.simps(1) mset_filter)
    then show ?thesis unfolding mset_filter cs by simp
  qed
  then have "filter (\<lambda>c. fst c = t) ?cs = [(t, r)]" by (metis mset_single_iff)
  moreover have "?xs \<noteq> []" using xs by (metis add_mset_not_empty mset.simps(1))
  ultimately show ?thesis using total l by (intro exI [of _ "map g L'"]) (simp add: Let_def del: concat_eq_Nil_conv)
qed

section \<open>Properties\<close>


text \<open>A run that archives the smoke thread of the demonstration queue.\<close>

definition calm_io :: io where
  "calm_io = \<lparr>record_writes = True, flag_removed = True, token_written = True, flag_written = True,
     token_removed = (\<lambda>_. True), token_read = (\<lambda>_. True)\<rparr>"

definition some_os :: os_view where
  "some_os = \<lparr>this_host = ''h'', on_windows = False, pid_exists = (\<lambda>_. Some True), signaled = (\<lambda>_. None),
     exit_recorded = (\<lambda>_. False), start_time = (\<lambda>_. Some ''1'')\<rparr>"

definition some_stamps :: stamps where
  "some_stamps = \<lparr>stamp = ''1'', now_iso = ''1'', sha = (\<lambda>x. x)\<rparr>"

definition bare_archive :: archive_view where
  "bare_archive = \<lparr>is_abs = (\<lambda>_. True), base_of = (\<lambda>x. x), inside_archive = (\<lambda>_. True), is_file = (\<lambda>_. False),
     archive_listing = NotADirectory, month_listing = (\<lambda>_. NotADirectory)\<rparr>"

definition operator_note :: jobj where
  "operator_note = note_in ''op'' ''tz'' ''9'' ''archive h'' @ [(''direction'', JStr ''inbound'')]"

definition exec_view :: pview where
  "exec_view = demo_view\<lparr>v_sys := demo_wsys (demo_empty\<lparr>gcomms := no_messages\<lparr>mfiles :=
     [(''b.json'', Doc (JObj (note_in ''b'' ''tb'' ''9'' ''Smoke run''))),
      (''op.json'', Doc (JObj (jput ''actor'' (JStr ''OPERATOR-0001'') operator_note)))]\<rparr>\<rparr>)\<rparr>"

definition demo_approval :: jobj where
  "demo_approval = approval_record \<lparr>ap_id = ''a1'', ap_now = ''9'', ap_root = ''/q'', ap_writable = True,
     ap_readable = (\<lambda>_. True), ap_instant = (\<lambda>_. Some 0)\<rparr> ''h'' (JStr ''op'') (JStr ''OPERATOR-0001'')"

definition demo_xenv :: "mishap \<Rightarrow> xenv" where
  "demo_xenv h = \<lparr>x_arch = \<lparr>ae_root = [''q''], hazard = (\<lambda>n. if n = 4 then h else Fine), whole_line = (\<lambda>_. True),
       digest = (\<lambda>_. ''h''), now_iso = (\<lambda>_. ''9'')\<rparr>,
     x_inventory = Some (Doc (JObj demo_inventory)), x_first = exec_view, x_second = exec_view,
     x_approval = \<lparr>ap_id = ''a1'', ap_now = ''9'', ap_root = ''/q'', ap_writable = True,
       ap_readable = (\<lambda>_. True), ap_instant = (\<lambda>_. Some 0)\<rparr>,
     x_month = ''2026-02'', x_opid = ''op-1'', x_nonce = ''n'', x_pid = 7,
     x_passes = [(\<lambda>l. l, calm_io, some_stamps, some_os, bare_archive, [])], x_release = calm_io, x_survives = False\<rparr>"

definition demo_asys :: asys where
  "demo_asys = \<lparr>as_arch = \<lparr>data = [([''q'', ''communications'', ''b.json''], Doc (JObj (note_in ''b'' ''tb'' ''9'' ''Smoke run'')))],
       pend = [], completed = [], clogs = (\<lambda>_. \<lparr>logged = [], tail = NoTail\<rparr>), manifests = [], index = None, atick = 0\<rparr>,
     as_locks = \<lparr>tokens = (\<lambda>_. None), flag = None, recovery = []\<rparr>,
     as_approvals = [(''a1.json'', Doc (JObj demo_approval))]\<rparr>"

lemma demo_executed:
  "data (as_arch (snd (execute (demo_xenv Fine) demo_asys))) =
     [([''archive'', ''2026-02'', ''communications'', ''b.json''], Doc (JObj (note_in ''b'' ''tb'' ''9'' ''Smoke run'')))]"
  by code_simp



lemma demo_xenv_parts: "x_second (demo_xenv h) = exec_view" "x_opid (demo_xenv h) = ''op-1''"
    "exec_key (demo_xenv h) = (''2026-02'', ''op-1'')" "digest (x_arch (demo_xenv h)) = (\<lambda>_. ''h'')"
  by (simp_all add: demo_xenv_def exec_key_def)

definition exec_entry :: pentry where
  "exec_entry = \<lparr>pe_id = JStr ''tb'', pe_type = ''thread'', pe_src = [''q'', ''communications'', ''b.json''],
     pe_rel = [''communications'', ''b.json''],
     pe_dst = [''archive'', ''2026-02'', ''communications'', ''b.json''], pe_sha = ''h''\<rparr>"

lemma exec_planned:
  "generate_plan (at_state (demo_xenv Dies) exec_view demo_asys) demo_inventory =
     Inr (Planned \<lparr>pl_entries = [exec_entry], pl_hash = ''h'', pl_skipped = [(''thread'', [JStr ''tc''])]\<rparr>)"
  by code_simp


text \<open>An approval that was just written is the one that authorises the plan: it is found by the hash it names,
  as long as every other eligible approval of that hash is older.\<close>

theorem written_approval_is_found:
  assumes "write_approval env ph mid op s = (Inr rec, s')" and "ap_id env @ ''.json'' \<notin> fst ` set s"
    and "ap_readable env (ap_id env @ ''.json'')" and "ap_now env \<noteq> []" and "ap_instant env (ap_now env) = Some t"
    and "\<And>j. j \<in> set (list_approvals env s) \<Longrightarrow> \<exists>cs. eligible_record env (lower (clean ph)) j = Inr cs \<and> (\<forall>c \<in> set cs. fst c < t)"
  shows "find_eligible_approval env (lower (clean ph)) s' = Inr (Inr rec)"
proof -
  let ?h = "lower (clean ph)"
  have h: "hex64 ?h" and rec: "rec = approval_record env ?h mid op"
    and s': "s' = AList.update (ap_id env @ ''.json'') (Doc (JObj rec)) s"
    using assms(1) by (auto simp: write_approval_def Let_def split: if_splits)
  have "mset (list_approvals env s') = add_mset (JObj rec) (mset (list_approvals env s))"
    unfolding s' using assms(2,3) by (intro mset_list_approvals_new) (simp_all add: rec approval_record_def)
  then obtain css where css: "map_exc (eligible_record env ?h) (list_approvals env s') = Inr css" "concat css \<noteq> []"
    "(let cs = sort_key fst (concat css) in filter (\<lambda>c. fst c = fst (last cs)) cs) = [(t, rec)]"
    using newest_found [where f = "eligible_record env ?h" and L = "list_approvals env s" and t = t and r = rec
        and ?j0.0 = "JObj rec"] assms(6) own_approval_eligible [OF h assms(4,5), of mid op, folded rec] by blast
  have "sort_key fst (concat css) \<noteq> []" using css(3) by (auto simp: Let_def)
  moreover have "lower (strip ?h) = ?h" using hex64_fixed [OF h] by simp
  ultimately show ?thesis using css(1,3) by (simp add: find_eligible_approval_def Let_def)
qed

definition demo_ap_env :: approval_env where
  "demo_ap_env = \<lparr>ap_id = ''a2'', ap_now = ''99'', ap_root = ''/q'', ap_writable = True, ap_readable = (\<lambda>_. True),
     ap_instant = (\<lambda>t. Some (int (length t)))\<rparr>"

definition demo_hash :: string where
  "demo_hash = replicate 60 (CHR ''a'') @ ''0123''"

definition demo_approvals :: approvals where
  "demo_approvals = snd (write_approval (demo_ap_env\<lparr>ap_id := ''a1'', ap_now := ''9''\<rparr>) (JStr demo_hash) (JStr ''m'') (JStr ''o'') [])"

theorem written_approval_is_found_witness:
  "find_eligible_approval demo_ap_env (lower (clean (JStr demo_hash)))
     (snd (write_approval demo_ap_env (JStr demo_hash) (JStr ''m2'') (JStr ''o'') demo_approvals)) =
   Inr (Inr (approval_record demo_ap_env demo_hash (JStr ''m2'') (JStr ''o'')))"
proof -
  have w: "fst (write_approval demo_ap_env (JStr demo_hash) (JStr ''m2'') (JStr ''o'') demo_approvals) =
      Inr (approval_record demo_ap_env demo_hash (JStr ''m2'') (JStr ''o''))"
    and l: "list_all (\<lambda>j. case eligible_record demo_ap_env (lower (clean (JStr demo_hash))) j of
        Inr cs \<Rightarrow> list_all (\<lambda>c. fst c < 2) cs | _ \<Rightarrow> False) (list_approvals demo_ap_env demo_approvals)"
    and n: "''a2.json'' \<notin> fst ` set demo_approvals" "ap_instant demo_ap_env (ap_now demo_ap_env) = Some 2"
    by code_simp+
  have "\<exists>cs. eligible_record demo_ap_env (lower (clean (JStr demo_hash))) j = Inr cs \<and> (\<forall>c \<in> set cs. fst c < 2)"
    if "j \<in> set (list_approvals demo_ap_env demo_approvals)" for j
  proof -
    have "case eligible_record demo_ap_env (lower (clean (JStr demo_hash))) j of
        Inl _ \<Rightarrow> False | Inr cs \<Rightarrow> \<forall>c \<in> set cs. fst c < 2"
      using l that unfolding list_all_iff by blast
    then show ?thesis by (cases "eligible_record demo_ap_env (lower (clean (JStr demo_hash))) j") simp_all
  qed
  then show ?thesis
    using written_approval_is_found [of demo_ap_env "JStr demo_hash" "JStr ''m2''" "JStr ''o''" demo_approvals
        "approval_record demo_ap_env demo_hash (JStr ''m2'') (JStr ''o'')" _ 2, OF prod.expand] w n
    by (simp add: demo_ap_env_def)
qed

text \<open>C33: A revoked approval never authorises anything again: whatever approval is found afterwards, for any plan,
  is another stored record that the revocation left as it was.\<close>

theorem revoked_approval_is_never_found:
  assumes "revoke_approval env aid s = (Inr rec, s')" and "find_eligible_approval env' h s' = Inr (Inr ap)"
  shows "\<exists>n. n \<noteq> aid @ ''.json'' \<and> map_of s n = Some (Doc (JObj ap))"
proof -
  obtain t cs where "JObj ap \<in> set (list_approvals env' s')" "eligible_record env' (lower (strip h)) (JObj ap) = Inr cs" "(t, ap) \<in> set cs"
    using found_approval [OF assms(2)] by blast
  then have "\<not> truthy (jget ap ''revoked'')" and "\<exists>n c. map_of s' n = Some c \<and> JObj ap = read_doc (Some c)"
    using eligible_fields unfolding set_list_approvals by blast+
  then obtain n c where n: "map_of s' n = Some c" "JObj ap = read_doc (Some c)" "\<not> truthy (jget ap ''revoked'')"
    by blast
  have c: "c = Doc (JObj ap)" using n(2) by (cases c) (simp_all add: read_doc_def)
  obtain old where s': "s' = AList.update (aid @ ''.json'') (Doc (JObj (jput ''revoked'' (JBool True) old))) s"
  proof (cases "read_approval env s (aid @ ''.json'')")
    case (JObj old)
    then have "s' = AList.update (aid @ ''.json'') (Doc (JObj (jput ''revoked'' (JBool True) old))) s"
      using assms(1) by (auto simp: revoke_approval_def split: if_splits)
    then show thesis by (rule that)
  qed (use assms(1) in \<open>simp_all add: revoke_approval_def\<close>)
  have "n \<noteq> aid @ ''.json''"
  proof
    assume "n = aid @ ''.json''"
    then have "ap = jput ''revoked'' (JBool True) old" using n(1) c by (simp add: s' update_conv)
    then show False using n(3) by simp
  qed
  then show ?thesis using n(1) c by (intro exI [of _ n]) (simp add: s' update_conv)
qed

theorem revoked_approval_is_never_found_witness:
  "\<exists>n. n \<noteq> ''a2'' @ ''.json'' \<and>
     map_of (snd (write_approval demo_ap_env (JStr demo_hash) (JStr ''m2'') (JStr ''o'') demo_approvals)) n =
       Some (Doc (JObj (approval_record (demo_ap_env\<lparr>ap_id := ''a1'', ap_now := ''9''\<rparr>) demo_hash (JStr ''m'') (JStr ''o''))))"
proof -
  let ?s = "snd (write_approval demo_ap_env (JStr demo_hash) (JStr ''m2'') (JStr ''o'') demo_approvals)"
  let ?s' = "snd (revoke_approval demo_ap_env ''a2'' ?s)"
  let ?rec = "jput ''revoked'' (JBool True) (approval_record demo_ap_env demo_hash (JStr ''m2'') (JStr ''o''))"
  have rev: "fst (revoke_approval demo_ap_env ''a2'' ?s) = Inr ?rec"
    and found: "find_eligible_approval demo_ap_env demo_hash ?s' =
      Inr (Inr (approval_record (demo_ap_env\<lparr>ap_id := ''a1'', ap_now := ''9''\<rparr>) demo_hash (JStr ''m'') (JStr ''o'')))"
    by code_simp+
  have "revoke_approval demo_ap_env ''a2'' ?s = (Inr ?rec, ?s')" using rev by (metis prod.collapse)
  from revoked_approval_is_never_found [OF this found] show ?thesis .
qed

text \<open>An override clears the exclusive flag only on the word of the operator and never over a live owner: when
  the flag changed, the named message is an inbound operator message, the flag's record was readable, its
  owner was not found alive, and an override record that holds the flag was written first.\<close>

theorem override_preempts_nobody:
  assumes "apply_override w io os oid now rd c mid why (l, recs) = (r, (l', recs'))" and "l' \<noteq> l"
  shows "\<exists>ms m fl life. read_messages rd JNull JNull None c = Inr ms \<and> m \<in> set ms \<and>
    key_of (jget m ''message_id'') = key_of mid \<and> operator_inbound m \<and> read_doc (flag l) = JObj fl \<and>
    liveness os (jget fl ''pid'') (jget fl ''host'') (jget fl ''proc_start'') = Inr life \<and> life \<noteq> Live \<and>
    recs' = recs @ [override_record oid now mid why fl life] \<and> l' = l\<lparr>flag := None\<rparr>"
proof -
  obtain found where 1: "message_with rd c mid = Inr found"
    using assms by (auto simp: apply_override_def split: sum.splits)
  obtain m where 2: "found = Some m" "operator_inbound m"
    using assms 1 by (auto simp: apply_override_def split: option.splits if_splits)
  obtain ms where 3: "read_messages rd JNull JNull None c = Inr ms" "m \<in> set ms"
    "key_of (jget m ''message_id'') = key_of mid"
    using 1 2(1) by (auto simp: message_with_def sbind_Inr_iff find_Some_iff)
  obtain fl where 4: "current_exclusive l = JObj fl"
    using assms 1 2 by (cases "current_exclusive l") (simp_all add: apply_override_def)
  obtain life where 5: "liveness os (jget fl ''pid'') (jget fl ''host'') (jget fl ''proc_start'') = Inr life" "life \<noteq> Live"
    using assms 1 2 4
    by (cases "liveness os (jget fl ''pid'') (jget fl ''host'') (jget fl ''proc_start'')")
      (auto simp: apply_override_def split: life.splits)
  have "recs' = recs @ [override_record oid now mid why fl life]" "l' = l\<lparr>flag := None\<rparr>"
    using assms 1 2 4 5
    by (auto simp: apply_override_def Let_def force_clear_exclusive_def split: life.splits if_splits)
  then show ?thesis using 2(2) 3 4 5 by (auto simp: current_exclusive_def)
qed

definition held_locks :: locks where
  "held_locks = \<lparr>tokens = (\<lambda>_. None), flag = Some (Doc (JObj [(''opid'', JStr ''op-0''), (''nonce'', JStr ''n0''),
     (''pid'', JInt 5), (''host'', JStr ''elsewhere''), (''proc_start'', JStr ''1'')])), recovery = []\<rparr>"

theorem override_preempts_nobody_witness:
  "\<exists>fl life. read_doc (flag held_locks) = JObj fl \<and>
     liveness some_os (jget fl ''pid'') (jget fl ''host'') (jget fl ''proc_start'') = Inr life \<and> life \<noteq> Live"
proof -
  let ?r = "apply_override True calm_io some_os ''o1'' ''9'' demo_reading (messages (v_sys exec_view)) (JStr ''op'') JNull (held_locks, [])"
  have cleared: "flag (fst (snd ?r)) = None" by code_simp
  have "fst (snd ?r) \<noteq> held_locks"
  proof
    assume "fst (snd ?r) = held_locks"
    then show False using cleared by (simp add: held_locks_def)
  qed
  then show ?thesis
    using override_preempts_nobody [of True calm_io some_os "''o1''" "''9''" demo_reading "messages (v_sys exec_view)"
        "JStr ''op''" JNull held_locks "[]" "fst ?r" "fst (snd ?r)" "snd (snd ?r)"] by auto
qed

section \<open>Where the code differs from its description\<close>

text \<open>A flag file that does not parse is refused by recovery as malformed and reads as no flag for the override, so no
  operation of the tools ever removes it and writers stay locked out.\<close>

lemma torn_flag_has_no_override:
  assumes "flag l = Some Torn"
  shows "snd (apply_override w io os oid now rd c mid why (l, recs)) = (l, recs)"
    and "snd (recover_stale_exclusive io' tm os' av me b l) = l"
  using assms
  by (auto simp: apply_override_def current_exclusive_def read_doc_def recover_stale_exclusive_def
      split: sum.splits if_splits option.splits)

text \<open>Recovery of an interrupted run comes before the flag is acquired: files move while another archiver holds it,
  even when the execution then ends with a refusal.\<close>

definition pending_asys :: asys where
  "pending_asys = demo_asys\<lparr>as_locks := held_locks, as_arch := (as_arch demo_asys)\<lparr>pend := [((''2026-01'', ''op-0''),
     Some \<lparr>j_opid = ''op-0'', j_created = ''1'', j_plan_hash = JStr ''h'', j_approval = JStr ''a0'', j_message = JStr ''m'',
       j_planned = [item_of exec_entry]\<rparr>)]\<rparr>\<rparr>"

lemma recovery_ignores_the_flag:
  "stored (as_arch (snd (execute ((demo_xenv Fine)\<lparr>x_inventory := None\<rparr>) pending_asys))) (pe_src exec_entry) = None"
  "stored (as_arch pending_asys) (pe_src exec_entry) \<noteq> None"
  "flag (as_locks pending_asys) \<noteq> None"
  by code_simp+

end
