(* ===== verification/Archive_Read.thy ===== *)
theory Archive_Read
  imports Archive_Recovery Work_Identity Council_Store
begin

text \<open>
  The rest of \<open>tools/clearwright_archive.py\<close>: the archive-aware reads of councils, packets and summaries, and the
  rotation of the invocation log.
\<close>

section \<open>Reads that fall back to the archive\<close>

text \<open>\<open>by_name\<close>: the documents of the paths that parse, under their base names; a later one replaces an
  earlier one.\<close>

definition add_doc :: "archive \<Rightarrow> jobj \<Rightarrow> path \<Rightarrow> jobj" where
  "add_doc s ob p = (case stored s p of
      Some (Doc j) \<Rightarrow> if j = JNull then ob else jput (basename p) j ob | _ \<Rightarrow> ob)"

definition docs_by_name :: "archive \<Rightarrow> path list \<Rightarrow> jobj" where
  "docs_by_name s ps = foldl (add_doc s) [] ps"

definition round_docs :: "jobj \<Rightarrow> json list" where
  "round_docs ob = map snd (filter (\<lambda>(k, _). has_prefix ''round-'' k \<and> has_suffix ''.json'' k) ob)"

definition round_number :: "json \<Rightarrow> pyexc + (json \<times> json)" where
  "round_number j = (case j of JObj r \<Rightarrow> Inr (get_or r ''round'' (JInt 0), j) | _ \<Rightarrow> Inl AttributeError)"

definition read_archived_council :: "archive \<Rightarrow> string \<Rightarrow> pyexc + (json \<times> json list \<times> json) option" where
  "read_archived_council s cid =
     (case resolve_archived s cid of
        None \<Rightarrow> Inr None
      | Some (ty, ps) \<Rightarrow>
          let docs = docs_by_name s ps in
          if ty \<noteq> ''council'' \<or> \<not> jhas docs ''council.json'' then Inr None
          else sbind (map_exc round_number (round_docs docs)) (\<lambda>rs.
            sbind (sort_on fst rs) (\<lambda>rs'.
              Inr (Some (jget docs ''council.json'', map snd rs', jget docs ''outcome.json'')))))"

text \<open>The first archived packet file of that name which can be read.\<close>

definition read_archived_clearance_packet :: "archive \<Rightarrow> string \<Rightarrow> (path \<times> json) option" where
  "read_archived_clearance_packet s name =
     List.find (\<lambda>(p, j). j \<noteq> JNull)
       (map (\<lambda>p. (p, read_doc (stored s p)))
         (filter (\<lambda>p. basename p = name)
           (concat (map (\<lambda>(_, ty, ps). if ty = ''clearance_packet'' then ps else []) (read_index s)))))"

definition read_archived_summary :: "archive \<Rightarrow> string \<Rightarrow> pyexc + jobj option" where
  "read_archived_summary s mid =
     (case filter (\<lambda>j. j \<noteq> JNull) (map (\<lambda>p. read_doc (stored s p))
         (filter (\<lambda>p. basename p = mid @ ''.json'' \<and> ''summaries'' \<in> set (dirname p))
           (concat (map (\<lambda>(_, _, ps). ps) (read_index s))))) of
        [] \<Rightarrow> Inr None
      | JObj m # _ \<Rightarrow> Inr (Some (jput ''archived'' (JBool True) m))
      | _ \<Rightarrow> Inl TypeError)"

section \<open>Rotating the invocation log\<close>

text \<open>The log is a file with a first line, which may not parse, and a size. Archived logs are known by the month
  directory they are in and their name, with their size; an empty placeholder has size 0.\<close>

record ilog =
  live_log :: "(json option \<times> nat) option"
  old_logs :: "((string \<times> string) \<times> nat) list"

record rotation_env =
  ro_stat :: bool
  ro_mtime_month :: string
  ro_now_month :: string
  ro_month_of :: "string \<Rightarrow> string option"
  ro_mkdir :: bool
  ro_create :: bool
  ro_replace :: bool

definition INVOCATION_LOG_MAX_BYTES :: nat where
  "INVOCATION_LOG_MAX_BYTES = 5 * 1024 * 1024"

definition log_creation_month :: "rotation_env \<Rightarrow> json option \<Rightarrow> pyexc + string option" where
  "log_creation_month env first_line =
     (case first_line of
        None \<Rightarrow> Inr None
      | Some (JObj rec) \<Rightarrow>
          (case py_or (jget rec ''at'') (JStr []) of
             JStr t \<Rightarrow> Inr (if t = [] then None else ro_month_of env t)
           | _ \<Rightarrow> Inl TypeError)
      | Some _ \<Rightarrow> Inl AttributeError)"

definition rotated_name :: "string \<Rightarrow> nat \<Rightarrow> string" where
  "rotated_name month n = ''invocation_log-'' @ month @ (if n = 0 then [] else ''-'' @ str_nat n) @ ''.jsonl''"

definition free_log :: "rotation_env \<Rightarrow> string \<Rightarrow> ilog \<Rightarrow> (string \<times> string) option" where
  "free_log env month s =
     List.find (\<lambda>k. k \<notin> fst ` set (old_logs s)) (map (\<lambda>n. (ro_now_month env, rotated_name month n)) [0..<1000])"

definition move_log :: "rotation_env \<Rightarrow> string \<Rightarrow> nat \<Rightarrow> ilog \<Rightarrow> (string \<times> string) option \<times> ilog" where
  "move_log env month bytes s =
     (if \<not> ro_mkdir env then (None, s)
      else case free_log env month s of
        None \<Rightarrow> (None, s)
      | Some k \<Rightarrow>
          if \<not> ro_create env then (None, s)
          else if \<not> ro_replace env then (None, s\<lparr>old_logs := (k, 0) # old_logs s\<rparr>)
          else (Some k, s\<lparr>live_log := None, old_logs := (k, bytes) # old_logs s\<rparr>))"

definition rotate_invocation_log_if_needed ::
    "rotation_env \<Rightarrow> ilog \<Rightarrow> (pyexc + (string \<times> string) option) \<times> ilog" where
  "rotate_invocation_log_if_needed env s =
     (case live_log s of
        None \<Rightarrow> (Inr None, s)
      | Some (first_line, bytes) \<Rightarrow>
          if \<not> ro_stat env then (Inr None, s)
          else case log_creation_month env first_line of
            Inl e \<Rightarrow> (Inl e, s)
          | Inr m \<Rightarrow>
              let month = (case m of Some t \<Rightarrow> if t = [] then ro_mtime_month env else t | None \<Rightarrow> ro_mtime_month env) in
              if bytes < INVOCATION_LOG_MAX_BYTES \<and> month = ro_now_month env then (Inr None, s)
              else (case move_log env month bytes s of (k, s') \<Rightarrow> (Inr k, s')))"

text \<open>A rotation never replaces an archived log, and the live log goes only into a fresh name, whole.\<close>

lemma rotation_keeps_logs:
  assumes "rotate_invocation_log_if_needed env s = (r, s')"
  shows "\<exists>new. old_logs s' = new @ old_logs s \<and> fst ` set new \<inter> fst ` set (old_logs s) = {} \<and>
    (live_log s' = live_log s \<and> (\<forall>(k, n) \<in> set new. n = 0) \<or>
     live_log s' = None \<and> (\<exists>k l n. live_log s = Some (l, n) \<and> new = [(k, n)] \<and> r = Inr (Some k)))"
proof -
  have fresh: "k \<notin> fst ` set (old_logs s)" if "free_log env month s = Some k" for k month
    using that by (auto simp: free_log_def find_Some_iff)
  show ?thesis
    using assms fresh
    by (auto simp: rotate_invocation_log_if_needed_def move_log_def Let_def
        split: option.splits sum.splits if_splits prod.splits)
qed

text \<open>The rotation is documented never to raise; a first line that is JSON but not an object makes it raise.\<close>

lemma rotation_raises_on_odd_line:
  assumes "live_log s = Some (Some (JArr []), n)" and "ro_stat env"
  shows "fst (rotate_invocation_log_if_needed env s) = Inl AttributeError"
  using assms by (simp add: rotate_invocation_log_if_needed_def log_creation_month_def)

end
