(* ===== verification/Work_Derived.thy ===== *)
theory Work_Derived
  imports Work_Safety
begin

text \<open>
  What the derived list of work items shows: an operation on one item leaves the others as they were, the
  default list hides exactly the terminal items, a gated item stays on it, and an answer takes it off.
\<close>

section \<open>One item's gates are no other's\<close>

definition elsewhere_same :: "string \<Rightarrow> gsys \<Rightarrow> gsys \<Rightarrow> bool" where
  "elsewhere_same k s s' = (\<forall>key. key \<noteq> k \<longrightarrow> gfiles s' key = gfiles s key)"

lemma elsewhere_refl [simp]: "elsewhere_same k s s"
  by (simp add: elsewhere_same_def)

lemma elsewhere_trans: "elsewhere_same k s s1 \<Longrightarrow> elsewhere_same k s1 s2 \<Longrightarrow> elsewhere_same k s s2"
  by (simp add: elsewhere_same_def)

lemma write_elsewhere:
  "write_record_locked env rec s = (r, s') \<Longrightarrow> jget rec ''subject'' = JStr subject \<Longrightarrow>
     elsewhere_same (g_sha env subject) s s'"
  by (drule write_record_locked_result) (auto simp: elsewhere_same_def)

lemma ensure_locked_elsewhere:
  assumes "ensure_locked env key subject wid e invo s = (r, s')"
  shows "elsewhere_same (g_sha env subject) s s'"
proof -
  have w: "elsewhere_same (g_sha env subject) s t"
    if "load_record env s subject = Inr rec" "write_record_locked env (jput ''gates'' j rec) s = (q, t)" for rec j q t
    using write_elsewhere [OF that(2)] load_record_gates(1) [OF that(1)] by simp
  show ?thesis
    using assms w
    by (auto simp: ensure_locked_def recognize_def Let_def sbind_Inr_iff split: if_splits sum.splits prod.splits option.splits)
qed

lemma ensure_gate_elsewhere:
  "ensure_gate env wid e invo s = (r, s') \<Longrightarrow> elsewhere_same (g_sha env (canonical_subject wid)) s s'"
  unfolding ensure_gate_def Let_def
  by (auto split: if_splits sum.splits prod.splits option.splits dest: ensure_locked_elsewhere)

lemma record_escalation_elsewhere:
  assumes "record_escalation_gate env ne cv cid oc w t s = (r, s')" and "read_doc (c_council cv cid) = JObj c"
  shows "elsewhere_same (g_sha env (canonical_subject (jget c ''work_item_id''))) s s'"
proof -
  obtain r1 s1 where e: "ensure_escalation_gate env cv cid oc s = (r1, s1)" by fastforce
  have "elsewhere_same (g_sha env (canonical_subject (jget c ''work_item_id''))) s s1"
    using e assms(2) unfolding ensure_escalation_gate_def Let_def
    by (auto split: if_splits sum.splits prod.splits dest: ensure_gate_elsewhere)
  moreover have "gfiles s' = gfiles s \<or> gfiles s' = gfiles s1"
    using assms(1) e unfolding record_escalation_gate_def post_notice_def Let_def
    by (auto split: if_splits sum.splits gate_error.splits lock_error.splits prod.splits)
  ultimately show ?thesis by (auto simp: elsewhere_same_def)
qed

lemma heal_loop_elsewhere:
  "heal_loop env ne cv wid healed names s = (r, s') \<Longrightarrow> elsewhere_same (g_sha env (canonical_subject wid)) s s'"
proof (induction names arbitrary: healed s)
  case (Cons a names)
  show ?case
  proof (cases "classify_council cv wid a")
    case Skip
    then show ?thesis using Cons by simp
  next
    case (Fail payload t)
    then show ?thesis
      using Cons.prems
      by (auto simp: fail_closed_def post_notice_def Let_def elsewhere_same_def split: prod.splits sum.splits)
  next
    case (Candidate c oc)
    obtain r1 s1 where r1: "record_escalation_gate env ne cv a oc wid (jget c ''thread_id'') s = (r1, s1)"
      by fastforce
    have "elsewhere_same (g_sha env (canonical_subject wid)) s s1"
      using record_escalation_elsewhere [OF r1] classify_candidate [OF Candidate] by (simp add: read_doc_def)
    moreover have "s' = s1 \<or> elsewhere_same (g_sha env (canonical_subject wid)) s1 s'"
      using Cons.prems Cons.IH Candidate r1 by (auto split: sum.splits option.splits if_splits)
    ultimately show ?thesis using elsewhere_trans by blast
  qed
qed simp

lemma heal_elsewhere:
  "heal_escalation_gates env ne cv wid s = (r, s') \<Longrightarrow> elsewhere_same (g_sha env (canonical_subject wid)) s s'"
  unfolding heal_escalation_gates_def
  by (auto simp: fail_closed_def post_notice_def Let_def elsewhere_same_def
      split: Writer_Lock.listing.splits prod.splits sum.splits dest: heal_loop_elsewhere)

lemma active_gate_cong:
  "gfiles s' (g_sha env (canonical_subject wid)) = gfiles s (g_sha env (canonical_subject wid)) \<Longrightarrow>
     active_gate env s' wid = active_gate env s wid"
  by (simp add: active_gate_def load_gates_def load_record_def Let_def)

section \<open>A concrete inbox\<close>

definition demo_inbox :: "gsys \<Rightarrow> wsys" where
  "demo_inbox g = demo_wsys (g\<lparr>gcomms := demo_logged\<rparr>)"

definition demo_item :: json where
  "demo_item = JStr ''message:msg-5''"

definition demo_item_gate :: gsys where
  "demo_item_gate = \<lparr>gfiles = [''message:msg-5'' \<mapsto> Doc (JObj [(''subject'', JStr ''message:msg-5''),
     (''gates'', JArr [JObj demo_gate])])], gcomms = demo_logged\<rparr>"

lemma demo_inbox_log: "clean_store demo_logged" "all_readable demo_reading"
    "read_messages demo_reading JNull JNull None demo_logged = Inr [demo_msg]"
proof -
  show "clean_store demo_logged" "all_readable demo_reading"
    using reachable_comms_ok [OF demo_logged_reachable] by (simp_all add: comms_ok_def all_readable_def demo_reading_def)
  show "read_messages demo_reading JNull JNull None demo_logged = Inr [demo_msg]" by code_simp
qed

lemma demo_inbox_reading: "ie_reading (e_ident demo_wenv) = demo_reading" "messages (demo_inbox g) = demo_logged"
    "gates (demo_inbox g) = g\<lparr>gcomms := demo_logged\<rparr>" "manifest_doc (w_id (demo_inbox g)) \<noteq> JNull"
    "e_gate demo_wenv = demo_genv" "g_sha demo_genv = (\<lambda>x. x)"
  by (simp_all add: demo_wenv_def demo_ident_def demo_inbox_def demo_wsys_def manifest_doc_def read_doc_def demo_genv_def)

lemma demo_origins: "origin_message_ids demo_wenv (demo_inbox g) [demo_msg] = Inr [JStr ''msg-5'']"
proof -
  have "origin_message_ids demo_wenv (demo_inbox demo_empty) [demo_msg] = Inr [JStr ''msg-5'']" by code_simp
  then show ?thesis
    by (simp add: origin_message_ids_def legacy_origin_ids_def demo_inbox_def demo_wsys_def manifest_doc_def read_doc_def)
qed

definition demo_answer :: "json \<Rightarrow> json \<Rightarrow> json \<Rightarrow> jobj" where
  "demo_answer wid t q = next_message demo_wenv
     (work_args (JStr ''claude'') (JStr ''hi'') JNull ''outbound'' ''responded'' JNull wid t q) ''hi''"

lemma demo_respond:
  assumes "wid = demo_wid \<and> t = JNull \<and> q = JStr ''p1'' \<or> wid = demo_item \<and> t = JStr ''t'' \<and> q = JNull"
  shows "respond_work_item demo_wenv (demo_inbox demo_empty) wid (JStr ''claude'') (JStr ''hi'') JNull JNull =
    (Inr (posted_ok wid (demo_answer wid t q)), with_message demo_wenv (demo_answer wid t q) (demo_inbox demo_empty))"
proof -
  let ?s = "demo_inbox demo_empty"
  have w: "wid = demo_wid \<or> wid = demo_item" using assms by blast
  have p: "parse_work_item_id wid \<noteq> None" using w by (elim disjE; hypsubst) code_simp+
  have "(case find_work_item demo_wenv ?s wid of Inr (Some _) \<Rightarrow> True | _ \<Rightarrow> False)"
    using w by (elim disjE; hypsubst) code_simp+
  then obtain it where f: "find_work_item demo_wenv ?s wid = Inr (Some it)" by (auto split: sum.splits option.splits)
  have h: "heal_escalation_gates (e_gate demo_wenv) (notice_env demo_wenv ?s) (e_councils demo_wenv) wid (gates ?s) =
      (Inr (healed_payload []), gates ?s)"
    by (simp add: heal_escalation_gates_def demo_wenv_def)
  have no: "active_gate (e_gate demo_wenv) (gates ?s) wid = Inr None"
    using w by (elim disjE; hypsubst) code_simp+
  have same: "put_gates (gates ?s) ?s = ?s" by (simp add: put_gates_def)
  have "admitted demo_wenv ?s wid (JStr ''claude'') = (Inr None, put_gates (gates ?s) ?s)"
    by (rule cleared_admitted [OF p f h]) (simp_all add: no healed_payload_def py_simps)
  then have a: "admitted demo_wenv ?s wid (JStr ''claude'') = (Inr None, ?s)" unfolding same .
  have "message_name (''msg-'' @ str_nat 7) 0 \<noteq> message_name (''msg-'' @ str_nat 5) 0" by code_simp
  then have open': "log_open demo_wenv ?s"
    by (simp add: log_open_def demo_inbox_reading demo_wenv_def demo_post_def demo_nenv_def no_faults_def
        demo_logged_def monotonic_dt_def demo_fmt_def)
  have t: "resolve_target demo_wenv ?s wid = Inr (t, q)"
    using assms by (elim disjE conjE; hypsubst) code_simp+
  have c: "check_args (work_args (JStr ''claude'') (JStr ''hi'') JNull ''outbound'' ''responded'' JNull wid t q) = Inr ''hi''"
    using demo_text by (simp add: check_args_iff work_args_def)
  show ?thesis
    using post_bound_completes [OF open' t, of "work_args (JStr ''claude'') (JStr ''hi'') JNull ''outbound'' ''responded'' JNull wid", OF c] a
    by (simp add: respond_work_item_def post_item_def demo_answer_def)
qed

section \<open>A record among the others\<close>

text \<open>The log after one more file, as it is read: the new message, and the others as before.\<close>

lemma read_one_more:
  assumes "clean_store c" and "all_readable rd" and "mfiles c' = mfiles c @ [(n, Doc (JObj m))]"
    and "has_suffix ''.json'' n" and "jhas m ''at''" and "is_str (jget m ''at'')"
    and "read_messages rd JNull JNull None c = Inr ms"
  shows "\<exists>ms'. read_messages rd JNull JNull None c' = Inr ms' \<and> set ms' = insert m (set ms) \<and>
    (\<forall>P. \<not> P m \<longrightarrow> filter P ms' = filter P ms)"
proof -
  let ?k = "\<lambda>(at, name, _). (py_str at, name)" and ?d = "\<lambda>(_, _, m). m :: jobj"
  have clean: "clean_store c'" using assms(1,3-6) by (auto simp: clean_store_def)
  have rows: "rows_of c' = rows_of c @ [(jget m ''at'', n, m)]"
    using assms(3) by (simp add: rows_of_def)
  have ms: "ms = map ?d (sort_key ?k (rows_of c))"
    using assms(7) read_messages_sorted_rows [OF assms(1,2), of JNull JNull None] by (simp add: last_n_def matching_def)
  have ms': "read_messages rd JNull JNull None c' = Inr (map ?d (sort_key ?k (rows_of c @ [(jget m ''at'', n, m)])))"
    using read_messages_sorted_rows [OF clean assms(2), of JNull JNull None] rows by (simp add: last_n_def matching_def)
  have "filter P (map ?d (sort_key ?k (rows_of c @ [(jget m ''at'', n, m)]))) = filter P ms" if "\<not> P m" for P
    using that by (simp add: ms filter_map filter_sort)
  moreover have "set (map ?d (sort_key ?k (rows_of c @ [(jget m ''at'', n, m)]))) = insert m (set ms)"
    by (auto simp: ms)
  ultimately show ?thesis using ms' by blast
qed

text \<open>Records of another item: the new one is invisible to every record selection that does not match it.\<close>

lemma map_exc_skip:
  assumes "\<And>x. x \<in> set xs \<Longrightarrow> \<not> P x \<Longrightarrow> f x = Inr []"
  shows "sbind (map_exc f xs) (\<lambda>ys. Inr (concat ys)) = sbind (map_exc f (filter P xs)) (\<lambda>ys. Inr (concat ys))"
  using assms
proof (induction xs)
  case (Cons a xs)
  then have IH: "sbind (map_exc f xs) (\<lambda>ys. Inr (concat ys)) = sbind (map_exc f (filter P xs)) (\<lambda>ys. Inr (concat ys))"
    by simp
  show ?case
  proof (cases "P a")
    case True
    then show ?thesis
      using IH by (cases "f a"; cases "map_exc f xs"; cases "map_exc f (filter P xs)") auto
  next
    case False
    then show ?thesis
      using IH Cons.prems [of a] by (cases "map_exc f xs"; cases "map_exc f (filter P xs)") auto
  qed
qed simp

lemma origin_ids_skip:
  assumes "legacy_origin_ids (e_ident env) (w_id s') = legacy_origin_ids (e_ident env) (w_id s)"
    and "\<And>legacy. origin_id legacy m = Inr []" and "filter (\<lambda>x. x \<noteq> m) ms' = ms"
  shows "origin_message_ids env s' ms' = origin_message_ids env s ms"
proof -
  have "sbind (map_exc (origin_id legacy) ms') (\<lambda>ys. Inr (concat ys)) =
      sbind (map_exc (origin_id legacy) ms) (\<lambda>ys. Inr (concat ys))" for legacy
    using map_exc_skip [of ms' "\<lambda>x. x \<noteq> m" "origin_id legacy"] assms(2,3) by auto
  moreover have "sbind (map_exc f xs) (\<lambda>ids. Inr (distinct_ids (concat ids))) =
      sbind (sbind (map_exc f xs) (\<lambda>ys. Inr (concat ys))) (\<lambda>ids. Inr (distinct_ids ids))"
    for f :: "jobj \<Rightarrow> pyexc + json list" and xs
    by (cases "map_exc f xs") simp_all
  ultimately show ?thesis unfolding origin_message_ids_def assms(1) by simp
qed

lemma set_distinct_ids: "set (distinct_ids xs) \<subseteq> set xs"
  by (induction xs) auto

lemma origin_ids_from:
  assumes "origin_message_ids env s ms = Inr ids" and "mid \<in> set ids"
  shows "\<exists>m \<in> set ms. jget m ''message_id'' = mid \<and> truthy mid"
proof -
  obtain legacy xss where "map_exc (origin_id legacy) ms = Inr xss" "ids = distinct_ids (concat xss)"
    using assms(1) by (auto simp: origin_message_ids_def sbind_Inr_iff)
  then have "mid \<in> set (concat xss)" using assms(2) set_distinct_ids [of "concat xss"] by blast
  then obtain xs where xs: "xs \<in> set xss" "mid \<in> set xs" by auto
  obtain m where "m \<in> set ms" "origin_id legacy m = Inr xs"
    using map_exc_results [OF \<open>map_exc (origin_id legacy) ms = Inr xss\<close> xs(1)] by blast
  then show ?thesis
    using xs(2) by (intro bexI [of _ m]) (auto simp: origin_id_def Let_def sbind_Inr_iff split: if_splits)
qed

lemma find_filter: "List.find P xs = (case filter P xs of [] \<Rightarrow> None | x # _ \<Rightarrow> Some x)"
  by (induction xs) auto

lemma by_id_skip:
  assumes "\<forall>P. \<not> P m \<longrightarrow> filter P ms' = filter P ms" and "key_of (jget m ''message_id'') \<noteq> key_of mid"
  shows "by_id ms' mid = by_id ms mid"
proof -
  let ?P = "\<lambda>m. truthy (jget m ''message_id'') \<and> key_of (jget m ''message_id'') = key_of mid"
  have "\<not> ?P m" using assms(2) by simp
  then have "filter ?P ms' = filter ?P ms" by (rule assms(1) [rule_format])
  then show ?thesis by (simp add: by_id_def find_filter rev_filter [symmetric])
qed

text \<open>A record bound to one item does not change the record set of another.\<close>

lemma bound_skip:
  assumes "\<forall>P. \<not> P m \<longrightarrow> filter P ms' = filter P ms" and "set ms' = insert m (set ms)"
    and "jget m ''work_item_id'' = JStr w" and "w \<noteq> []" and "w \<noteq> wid"
  shows "bound_records ms' wid tid single = bound_records ms wid tid single"
proof -
  have no: "\<not> unbound_in tid m" "jget m ''work_item_id'' \<noteq> JStr wid" using assms(3-5) by (auto simp: unbound_in_def)
  let ?P = "\<lambda>r. jget r ''work_item_id'' = JStr wid \<or> unbound_in tid r \<and> single"
  have "\<not> ?P m" using no by simp
  then have "filter ?P ms' = filter ?P ms" by (rule assms(1) [rule_format])
  moreover have "list_ex (\<lambda>r. jget r ''work_item_id'' \<noteq> JStr wid \<and> unbound_in tid r) ms' =
      list_ex (\<lambda>r. jget r ''work_item_id'' \<noteq> JStr wid \<and> unbound_in tid r) ms"
    using assms(2) no by (auto simp: list_ex_iff)
  ultimately show ?thesis by (simp add: bound_records_def)
qed

lemma message_item_skip:
  assumes f: "\<forall>P. \<not> P m \<longrightarrow> filter P ms' = filter P ms" and ins: "set ms' = insert m (set ms)"
    and w: "jget m ''work_item_id'' = JStr w" "w \<noteq> []" "w \<noteq> work_item_id_for mid"
    and fresh: "\<And>mid'. mid' \<in> insert mid (set origins) \<Longrightarrow> key_of (jget m ''message_id'') \<noteq> key_of mid'"
    and gate: "shown_gate env s' (work_item_id_for mid) = shown_gate env s (work_item_id_for mid)"
  shows "message_item env s' running ms' origins all mid = message_item env s running ms origins all mid"
proof -
  have by_id: "by_id ms' mid' = by_id ms mid'" if "mid' \<in> insert mid (set origins)" for mid'
    by (rule by_id_skip [OF f fresh [OF that]])
  have "map (\<lambda>mid. thread_of (by_id ms' mid)) origins = map (\<lambda>mid. thread_of (by_id ms mid)) origins"
    using by_id by simp
  then have single: "single_in_thread ms' origins = single_in_thread ms origins"
    using by_id by (intro ext) (simp add: single_in_thread_def cong: filter_cong)
  note bound = bound_skip [OF f ins w]
  have "item_warnings env s' ms' origins mid = item_warnings env s ms origins mid"
    by (simp add: item_warnings_def Let_def by_id single bound gate)
  then show ?thesis
    by (simp add: message_item_def Let_def by_id single bound gate)
qed

text \<open>work items are independent: after an operation on one item, a reader derives the same origins, and
  every item of another id and subject is derived field for field as before.\<close>

theorem other_items_unaffected:
  assumes "worker_op env wid actor s (Inr p) s'" and "truthy (jget p ''ok'')" and "clean wid \<noteq> []"
    and "clean_store (messages s)" and "all_readable (ie_reading (e_ident env'))" and "manifest_doc (w_id s) \<noteq> JNull"
    and "read_messages (ie_reading (e_ident env')) JNull JNull None (messages s) = Inr ms"
    and "origin_message_ids env' s ms = Inr ids"
    and "\<forall>m \<in> set ms. jget m ''message_id'' \<noteq> jget (obj_of (jget p ''message'')) ''message_id''"
    and "g_sha (e_gate env') = g_sha (e_gate env)"
  shows "\<exists>ms'. read_messages (ie_reading (e_ident env')) JNull JNull None (messages s') = Inr ms' \<and>
    origin_message_ids env' s' ms' = Inr ids \<and>
    (\<forall>mid \<in> set ids. work_item_id_for mid \<noteq> clean wid \<and>
       g_sha (e_gate env) (canonical_subject (JStr (work_item_id_for mid))) \<noteq> g_sha (e_gate env) (canonical_subject wid) \<longrightarrow>
       message_item env' s' running ms' ids all mid = message_item env' s running ms ids all mid)"
proof (rule worker_op_effect [OF assms(1)], simp add: assms(2), goal_cases)
  case (1 s1 n m ds q)
  note rec = 1(5) [unfolded work_record_def]
  have at_m: "is_str (jget m ''at'') \<and> jhas m ''at''" using rec by simp
  have q: "q = p" and jm: "jget p ''message'' = JObj m" using 1(2,3) by simp_all
  obtain ms' where ms': "read_messages (ie_reading (e_ident env')) JNull JNull None (messages s') = Inr ms'"
    "set ms' = insert m (set ms)" "\<forall>P. \<not> P m \<longrightarrow> filter P ms' = filter P ms"
    using read_one_more [OF assms(4,5) 1(6,8) conjunct2 [OF at_m] conjunct1 [OF at_m] assms(7)] by blast
  have fresh_in: "m \<notin> set ms" using assms(9) jm by auto
  have legacy: "legacy_origin_ids (e_ident env') (w_id s') = legacy_origin_ids (e_ident env') (w_id s)"
    using 1(10) [OF assms(6)] assms(6) by (simp add: legacy_origin_ids_def manifest_doc_def)
  have others: "filter (\<lambda>x. x \<noteq> m) ms' = ms"
    using ms'(3) [rule_format, of "\<lambda>x. x \<noteq> m"] fresh_in by (simp add: filter_id_conv) (metis filter_True)
  have ids: "origin_message_ids env' s' ms' = Inr ids"
    using origin_ids_skip [OF legacy work_record_inert(1) [OF 1(5,4)] others] assms(8) by (rule trans)
  have key: "key_of (jget m ''message_id'') \<noteq> key_of mid" if mid: "mid \<in> set ids" for mid
  proof -
    obtain m0 where m0: "m0 \<in> set ms" "jget m0 ''message_id'' = mid"
      using origin_ids_from [OF assms(8) mid] by blast
    then have "mid \<noteq> jget m ''message_id''" using assms(9) jm by auto
    then show ?thesis using rec by (cases "jget m ''message_id''"; cases mid) auto
  qed
  have at: "gfiles (gates s') k = gfiles (gates s) k" if "k \<noteq> g_sha (e_gate env) (canonical_subject wid)" for k
  proof -
    obtain hp g where h: "heal_escalation_gates (e_gate env) (notice_env env s) (e_councils env) wid (gates s) = (Inr hp, g)"
      "s1 = put_gates g s" using 1(1) by (auto simp: cleared_def)
    show ?thesis using heal_elsewhere [OF h(1)] h(2) 1(9) that by (simp add: elsewhere_same_def)
  qed
  have "message_item env' s' running ms' ids all mid = message_item env' s running ms ids all mid"
    if mid: "mid \<in> set ids" and other: "work_item_id_for mid \<noteq> clean wid"
      and subj: "g_sha (e_gate env) (canonical_subject (JStr (work_item_id_for mid))) \<noteq> g_sha (e_gate env) (canonical_subject wid)"
    for mid
  proof (rule message_item_skip [OF ms'(3,2)])
    show "jget m ''work_item_id'' = JStr (clean wid)" using rec assms(3) by simp
    show "clean wid \<noteq> work_item_id_for mid" using other by simp
    show "key_of (jget m ''message_id'') \<noteq> key_of mid'" if "mid' \<in> insert mid (set ids)" for mid'
      using key that mid by auto
    show "shown_gate env' s' (work_item_id_for mid) = shown_gate env' s (work_item_id_for mid)"
      unfolding shown_gate_def
      using active_gate_cong [of "gates s'" "e_gate env'" "JStr (work_item_id_for mid)" "gates s"] at [OF subj] assms(10) by simp
  qed (rule assms(3))
  then show ?case using ms'(1) ids by blast
qed

lemma other_items_unaffected_witness:
  "\<exists>ms'. message_item demo_wenv (with_message demo_wenv (demo_answer demo_wid JNull (JStr ''p1'')) (demo_inbox demo_empty)) no_run
       ms' [JStr ''msg-5''] [] (JStr ''msg-5'') =
     message_item demo_wenv (demo_inbox demo_empty) no_run [demo_msg] [JStr ''msg-5''] [] (JStr ''msg-5'')"
proof -
  have r: "respond_work_item demo_wenv (demo_inbox demo_empty) demo_wid (JStr ''claude'') (JStr ''hi'') JNull JNull =
    (Inr (posted_ok demo_wid (demo_answer demo_wid JNull (JStr ''p1''))),
     with_message demo_wenv (demo_answer demo_wid JNull (JStr ''p1'')) (demo_inbox demo_empty))"
    by (rule demo_respond) simp
  have ok: "truthy (jget (posted_ok demo_wid (demo_answer demo_wid JNull (JStr ''p1''))) ''ok'')"
    by (simp add: posted_ok_def py_simps)
  have "str_nat 7 \<noteq> str_nat 5" by code_simp
  then have fresh: "\<forall>m \<in> set [demo_msg]. jget m ''message_id'' \<noteq>
      jget (obj_of (jget (posted_ok demo_wid (demo_answer demo_wid JNull (JStr ''p1''))) ''message'')) ''message_id''"
    by (simp add: posted_ok_def py_simps demo_msg_fields demo_answer_def next_message_def Let_def assemble_fields
        demo_wenv_def demo_post_def demo_nenv_def monotonic_dt_def demo_fmt_def)
  have sub: "canonical_subject (JStr (work_item_id_for (JStr ''msg-5''))) \<noteq> canonical_subject demo_wid"
      "work_item_id_for (JStr ''msg-5'') \<noteq> clean demo_wid" by code_simp+
  from other_items_unaffected [OF responded [OF r] ok _ _ _ _ _ demo_origins fresh, of no_run "[]"] demo_inbox_log sub
  show ?thesis by (auto simp: demo_inbox_reading demo_wid_subject)
qed

section \<open>The derived list\<close>

lemma sbind_map_filter:
  assumes "map_exc (\<lambda>it. sbind (g it) (\<lambda>t. Inr (t, it))) xs = Inr keyed"
  shows "map_exc (\<lambda>it. sbind (g it) (\<lambda>t. Inr (t, it))) (filter P xs) = Inr (filter (\<lambda>x. P (snd x)) keyed) \<and>
    map snd keyed = xs"
  using assms by (induction xs arbitrary: keyed) (auto simp: sbind_Inr_iff split: sum.splits)

lemma map_exc_Inr_mem: "map_exc f xs = Inr ys \<Longrightarrow> x \<in> set xs \<Longrightarrow> \<exists>y \<in> set ys. f x = Inr y"
  by (induction xs arbitrary: ys) (auto split: sum.splits)

text \<open>The list, with everything it was derived from.\<close>

lemma derive_all_iff:
  "derive_work_items env s True running = Inr items \<longleftrightarrow>
     (\<exists>packets ms ids all mitems keyed.
        read_packets env s = Inr packets \<and>
        read_messages (ie_reading (e_ident env)) JNull JNull None (messages s) = Inr ms \<and>
        list_all (\<lambda>m. hashable (jget m ''message_id'')) ms \<and> origin_message_ids env s ms = Inr ids \<and>
        list_all (\<lambda>mid. hashable (thread_of (by_id ms mid))) ids \<and> list_councils (e_councils env) = Inr all \<and>
        map_exc (message_item env s running ms (e_order env ids) all) (e_order env ids) = Inr mitems \<and>
        map_exc (\<lambda>it. sbind (neg_time (jget it ''created_at'')) (\<lambda>t. Inr ((kind_order (jget it ''kind''), t), it)))
          (concat (map packet_item packets) @ mitems) = Inr keyed \<and>
        items = map snd (sort_key fst keyed))"
  unfolding derive_work_items_def Let_def
  apply (rule iffI)
   apply (fastforce simp: sbind_Inr_iff require_def split: if_splits)
  apply (elim exE conjE)
  apply (simp add: require_def)
  done

lemma hidden_terminal:
  assumes "derive_work_items env s True running = Inr items"
  shows "derive_work_items env s False running =
    Inr (filter (\<lambda>it. jget it ''status'' \<notin> JStr ` set TERMINAL_STATES) items)"
proof -
  let ?P = "\<lambda>it. jget it ''status'' \<notin> JStr ` set TERMINAL_STATES"
  let ?g = "\<lambda>it. sbind (neg_time (jget it ''created_at'')) (\<lambda>t. Inr (kind_order (jget it ''kind''), t))"
  have key: "sbind (neg_time (jget it ''created_at'')) (\<lambda>t. Inr ((kind_order (jget it ''kind''), t), it)) =
      sbind (?g it) (\<lambda>t. Inr (t, it))" for it :: jobj
    by (cases "neg_time (jget it ''created_at'')") simp_all
  obtain packets ms ids all mitems keyed where
    base: "read_packets env s = Inr packets"
      "read_messages (ie_reading (e_ident env)) JNull JNull None (messages s) = Inr ms"
      "list_all (\<lambda>m. hashable (jget m ''message_id'')) ms" "origin_message_ids env s ms = Inr ids"
      "list_all (\<lambda>mid. hashable (thread_of (by_id ms mid))) ids" "list_councils (e_councils env) = Inr all"
      "map_exc (message_item env s running ms (e_order env ids) all) (e_order env ids) = Inr mitems"
    and k: "map_exc (\<lambda>it. sbind (neg_time (jget it ''created_at'')) (\<lambda>t. Inr ((kind_order (jget it ''kind''), t), it)))
          (concat (map packet_item packets) @ mitems) = Inr keyed"
    and items: "items = map snd (sort_key fst keyed)"
    using assms unfolding derive_all_iff by blast
  have "map_exc (\<lambda>it. sbind (neg_time (jget it ''created_at'')) (\<lambda>t. Inr ((kind_order (jget it ''kind''), t), it)))
      (filter ?P (concat (map packet_item packets) @ mitems)) = Inr (filter (\<lambda>x. ?P (snd x)) keyed)"
    using sbind_map_filter [OF k [unfolded key], of ?P] unfolding key by blast
  moreover have "map snd (sort_key fst (filter (\<lambda>x. ?P (snd x)) keyed)) = filter ?P items"
    by (simp add: items filter_map filter_sort [symmetric] comp_def)
  ultimately show ?thesis
    unfolding derive_work_items_def Let_def by (simp add: base require_def)
qed

text \<open>the default list hides exactly the terminal items: it is the full list without those that are done,
  closed or superseded, in the same order.\<close>

theorem default_list_exact:
  assumes "derive_work_items env s True running = Inr items"
  shows "derive_work_items env s False running =
    Inr (filter (\<lambda>it. jget it ''status'' \<notin> JStr ` set TERMINAL_STATES) items)"
  using assms by (rule hidden_terminal)

lemma default_list_exact_witness:
  "\<exists>items. derive_work_items demo_wenv (demo_inbox demo_empty) False no_run = Inr items \<and> length items = 2"
proof -
  have "(case derive_work_items demo_wenv (demo_inbox demo_empty) True no_run of
      Inr items \<Rightarrow> length (filter (\<lambda>it. jget it ''status'' \<notin> JStr ` set TERMINAL_STATES) items) = 2 | Inl _ \<Rightarrow> False)"
    by code_simp
  then show ?thesis using default_list_exact [of demo_wenv "demo_inbox demo_empty" no_run] by (auto split: sum.splits)
qed

text \<open>Every origin of the walk has its item in the full list.\<close>

lemma origin_listed:
  assumes "derive_work_items env s True running = Inr items"
    and "read_messages (ie_reading (e_ident env)) JNull JNull None (messages s) = Inr ms"
    and "origin_message_ids env s ms = Inr ids" and "mid \<in> set (e_order env ids)"
  obtains all it where "list_councils (e_councils env) = Inr all" "it \<in> set items"
    "message_item env s running ms (e_order env ids) all mid = Inr it"
proof -
  obtain packets all mitems keyed where all: "list_councils (e_councils env) = Inr all"
    and m: "map_exc (message_item env s running ms (e_order env ids) all) (e_order env ids) = Inr mitems"
    and k: "map_exc (\<lambda>it. sbind (neg_time (jget it ''created_at'')) (\<lambda>t. Inr ((kind_order (jget it ''kind''), t), it)))
          (concat (map packet_item packets) @ mitems) = Inr keyed"
    and items: "items = map snd (sort_key fst keyed)"
    using assms(1-3) unfolding derive_all_iff by auto
  have key: "sbind (neg_time (jget it ''created_at'')) (\<lambda>t. Inr ((kind_order (jget it ''kind''), t), it)) =
      sbind (sbind (neg_time (jget it ''created_at'')) (\<lambda>t. Inr (kind_order (jget it ''kind''), t))) (\<lambda>t. Inr (t, it))"
    for it :: jobj
    by (cases "neg_time (jget it ''created_at'')") simp_all
  have "map snd keyed = concat (map packet_item packets) @ mitems"
    using sbind_map_filter [OF k [unfolded key]] by blast
  then have "set mitems \<subseteq> set items" unfolding items by (metis set_append set_map set_sort sup.cobounded2)
  moreover obtain it where "it \<in> set mitems" "message_item env s running ms (e_order env ids) all mid = Inr it"
    using m assms(4) map_exc_Inr_mem by metis
  ultimately show thesis using that all by blast
qed

text \<open>What the state of an item can be, from its records and gate.\<close>

lemma message_item_state:
  assumes "message_item env s running ms origins all mid = Inr it"
  obtains st where "jget it ''status'' = JStr st" "jget it ''work_item_id'' = JStr (work_item_id_for mid)"
    "derive_state (Some (by_id ms mid))
       (fst (bound_records ms (work_item_id_for mid) (thread_of (by_id ms mid)) (single_in_thread ms origins (thread_of (by_id ms mid)))))
       (shown_gate env s (work_item_id_for mid))
       (councils_of all (work_item_id_for mid) (thread_of (by_id ms mid)) (single_in_thread ms origins (thread_of (by_id ms mid)))) = Inr st"
  using assms by (auto simp: message_item_def Let_def sbind_Inr_iff work_item_def py_simps)

lemma derive_state_gated:
  assumes "filter recognized_closure bound = []"
  shows "derive_state (Some o') bound (Some g) councils = Inr ''operator_required''"
  using assms by (simp add: derive_state_def)

lemma derive_state_answered:
  assumes "derive_state (Some o') bound None councils = Inr st" and "list_ex is_response bound"
  shows "st \<in> set TERMINAL_STATES"
  using assms by (auto simp: derive_state_def sbind_Inr_iff TERMINAL_STATES_def split: if_splits)

text \<open>C28: a gated item never disappears: while a gate of an origin is unresolved and none of its records
  closes it, it is in the default list, as operator_required, whatever else is recorded for it.\<close>

theorem gated_items_stay_listed:
  assumes "derive_work_items env s True running = Inr items"
    and "read_messages (ie_reading (e_ident env)) JNull JNull None (messages s) = Inr ms"
    and "origin_message_ids env s ms = Inr ids" and "mid \<in> set (e_order env ids)"
    and "active_gate (e_gate env) (gates s) (JStr (work_item_id_for mid)) = Inr (Some g)"
    and "\<forall>m \<in> set ms. recognized_closure m \<longrightarrow> jget m ''work_item_id'' \<noteq> JStr (work_item_id_for mid) \<and> truthy (jget m ''work_item_id'')"
  shows "\<exists>shown it. derive_work_items env s False running = Inr shown \<and> it \<in> set shown \<and>
    jget it ''work_item_id'' = JStr (work_item_id_for mid) \<and> jget it ''status'' = JStr ''operator_required''"
proof (rule origin_listed [OF assms(1-4)], goal_cases)
  case (1 all it)
  show ?case
  proof (rule message_item_state [OF 1(3)], goal_cases)
    case (1 st)
    let ?b = "fst (bound_records ms (work_item_id_for mid) (thread_of (by_id ms mid))
        (single_in_thread ms (e_order env ids) (thread_of (by_id ms mid))))"
    have "filter recognized_closure ?b = []"
      using assms(6) by (auto simp: filter_empty_conv bound_records_def unbound_in_def)
    moreover have "shown_gate env s (work_item_id_for mid) = Some g" using assms(5) by (simp add: shown_gate_def)
    ultimately have "st = ''operator_required''" using 1(3) derive_state_gated by simp
    moreover have "derive_work_items env s False running =
        Inr (filter (\<lambda>it. jget it ''status'' \<notin> JStr ` set TERMINAL_STATES) items)"
      by (rule hidden_terminal [OF assms(1)])
    ultimately show ?case
      using 1(1,2) \<open>it \<in> set items\<close>
      by (intro exI [of _ "filter (\<lambda>it. jget it ''status'' \<notin> JStr ` set TERMINAL_STATES) items"] exI [of _ it])
        (simp add: TERMINAL_STATES_def)
  qed
qed

lemma gated_items_stay_listed_witness:
  "\<exists>shown it. derive_work_items demo_wenv (demo_inbox demo_item_gate) False no_run = Inr shown \<and> it \<in> set shown \<and>
     jget it ''status'' = JStr ''operator_required''"
proof -
  have "(case derive_work_items demo_wenv (demo_inbox demo_item_gate) True no_run of Inr _ \<Rightarrow> True | Inl _ \<Rightarrow> False)"
    by code_simp
  then obtain items where d: "derive_work_items demo_wenv (demo_inbox demo_item_gate) True no_run = Inr items"
    by (auto split: sum.splits)
  have "(case active_gate demo_genv demo_item_gate (JStr (work_item_id_for (JStr ''msg-5''))) of Inr (Some _) \<Rightarrow> True | _ \<Rightarrow> False)"
    by code_simp
  then obtain g where g: "active_gate (e_gate demo_wenv) (gates (demo_inbox demo_item_gate))
      (JStr (work_item_id_for (JStr ''msg-5''))) = Inr (Some g)"
    by (auto simp: demo_inbox_reading demo_item_gate_def split: sum.splits option.splits)
  have "JStr ''msg-5'' \<in> set (e_order demo_wenv [JStr ''msg-5''])" by (simp add: demo_wenv_def)
  moreover have "\<not> recognized_closure demo_msg" by code_simp
  ultimately show ?thesis
    using gated_items_stay_listed [OF d _ demo_origins _ g] demo_inbox_log(3) by (auto simp: demo_inbox_reading)
qed

text \<open>an answer ends an item: when an agent's response to a message item succeeds, whoever derives the list
  next, with the same gates, shows the item done, closed or superseded, so the default list no longer has it.\<close>

theorem answered_items_are_terminal:
  assumes "respond_work_item env s wid actor body role source = (Inr p, s')" and "truthy (jget p ''ok'')"
    and "\<not> is_operator actor" and "clean wid = work_item_id_for mid" and "clean wid \<noteq> []"
    and "clean_store (messages s)" and "all_readable (ie_reading (e_ident env'))" and "e_gate env' = e_gate env"
    and "read_messages (ie_reading (e_ident env')) JNull JNull None (messages s) = Inr ms0"
    and "read_messages (ie_reading (e_ident env')) JNull JNull None (messages s') = Inr ms"
    and "origin_message_ids env' s' ms = Inr ids" and "mid \<in> set (e_order env' ids)"
    and "derive_work_items env' s' True running = Inr items"
  shows "\<exists>it \<in> set items. jget it ''work_item_id'' = JStr (work_item_id_for mid) \<and>
    jget it ''status'' \<in> JStr ` set TERMINAL_STATES"
proof -
  have w: "worker_op env wid actor s (Inr p) s'" by (rule responded [OF assms(1)])
  obtain s1 where a: "admitted env s wid actor = (Inr None, s1)" and c: "cleared env s wid actor s1"
    using w by (cases rule: worker_op_cases) (use assms(2) in auto)
  obtain msg where post: "posted_as env wid actor (''outbound'', ''responded'') msg s1 p s'"
    using post_item_success [of env s wid actor body role "(''outbound'', ''responded'')" source p s', OF _ assms(2) a]
      assms(1) by (auto simp: respond_work_item_def)
  then obtain txt' role' source' where
    pb: "post_bound env s1 wid (work_args actor txt' role' ''outbound'' ''responded'' source' wid) = (Inr (Inr msg), s')"
    by (auto simp: posted_as_def)
  show ?thesis
  proof (rule post_bound_success [OF pb], goal_cases)
    case (1 n t q fm t1 t2 prev)
    have rec: "work_record wid actor (''outbound'', ''responded'') msg"
      using built_work_record [of fm t1 t2 prev actor txt' role' "(''outbound'', ''responded'')"] 1(4)
      by (simp add: WORKER_RECORDS_def)
    have files: "mfiles (messages s') = mfiles (messages s) @ [(n, Doc (JObj msg))]"
      using 1(1) cleared_frame(1) [OF c] by simp
    have at_m: "is_str (jget msg ''at'') \<and> jhas msg ''at''" using rec by (simp add: work_record_def)
    have mem: "msg \<in> set ms"
      using read_one_more [OF assms(6,7) files 1(3) conjunct2 [OF at_m] conjunct1 [OF at_m] assms(9)] assms(10)
      by auto
    have gate: "shown_gate env' s' (work_item_id_for mid) = None"
    proof -
      obtain g where g: "s1 = put_gates g s" "active_gate (e_gate env) g wid = Inr None"
        using c assms(3) by (auto simp: cleared_def)
      have "canonical_subject (JStr (work_item_id_for mid)) = canonical_subject wid"
        using assms(4) [symmetric] by (simp add: canonical_subject_def) (simp add: clean_def)
      then have "active_gate (e_gate env) (gates s') (JStr (work_item_id_for mid)) = active_gate (e_gate env) g wid"
        using 1(6) g(1) by (simp add: active_gate_def load_gates_def load_record_def Let_def)
      then show ?thesis using g(2) assms(8) by (simp add: shown_gate_def)
    qed
    show ?case
    proof (rule origin_listed [OF assms(13,10,11,12)], goal_cases)
      case (1 all it)
      let ?b = "fst (bound_records ms (work_item_id_for mid) (thread_of (by_id ms mid))
          (single_in_thread ms (e_order env' ids) (thread_of (by_id ms mid))))"
      obtain st councils where st: "jget it ''status'' = JStr st" "jget it ''work_item_id'' = JStr (work_item_id_for mid)"
        "derive_state (Some (by_id ms mid)) ?b None councils = Inr st"
        using message_item_state [OF 1(3)] gate by metis
      have "msg \<in> set ?b" using mem rec assms(4,5) by (auto simp: bound_records_def work_record_def)
      then have "list_ex is_response ?b" using rec by (auto simp: list_ex_iff is_response_def work_record_def)
      then have "st \<in> set TERMINAL_STATES" by (rule derive_state_answered [OF st(3)])
      then show ?case using st(1,2) 1(2) by auto
    qed
  qed
qed

lemma answered_items_are_terminal_witness:
  "\<exists>items. derive_work_items demo_wenv (with_message demo_wenv (demo_answer demo_item (JStr ''t'') JNull) (demo_inbox demo_empty))
       True no_run = Inr items \<and>
     (\<exists>it \<in> set items. jget it ''work_item_id'' = JStr ''message:msg-5'' \<and> jget it ''status'' \<in> JStr ` set TERMINAL_STATES)"
proof -
  let ?s = "with_message demo_wenv (demo_answer demo_item (JStr ''t'') JNull) (demo_inbox demo_empty)"
  have r: "respond_work_item demo_wenv (demo_inbox demo_empty) demo_item (JStr ''claude'') (JStr ''hi'') JNull JNull =
    (Inr (posted_ok demo_item (demo_answer demo_item (JStr ''t'') JNull)), ?s)"
    by (rule demo_respond) simp
  have ok: "truthy (jget (posted_ok demo_item (demo_answer demo_item (JStr ''t'') JNull)) ''ok'')"
    by (simp add: posted_ok_def py_simps)
  have "(case derive_work_items demo_wenv ?s True no_run of Inr _ \<Rightarrow> True | Inl _ \<Rightarrow> False)" by code_simp
  then obtain items where d: "derive_work_items demo_wenv ?s True no_run = Inr items" by (auto split: sum.splits)
  have "(case read_messages demo_reading JNull JNull None (messages ?s) of Inr ms \<Rightarrow>
      origin_message_ids demo_wenv ?s ms = Inr [JStr ''msg-5''] | Inl _ \<Rightarrow> False)" by code_simp
  then obtain ms where ms: "read_messages demo_reading JNull JNull None (messages ?s) = Inr ms"
    "origin_message_ids demo_wenv ?s ms = Inr [JStr ''msg-5'']" by (auto split: sum.splits)
  have c: "clean demo_item = work_item_id_for (JStr ''msg-5'')" "clean demo_item \<noteq> []"
      "work_item_id_for (JStr ''msg-5'') = ''message:msg-5''" by code_simp+
  have "JStr ''msg-5'' \<in> set (e_order demo_wenv [JStr ''msg-5''])" by (simp add: demo_wenv_def)
  from answered_items_are_terminal [OF r ok not_operator c(1,2) _ _ refl _ _ ms(2) this d] demo_inbox_log ms(1) d
  show ?thesis by (auto simp: demo_inbox_reading c(3))
qed

section \<open>The latest activity\<close>

lemma beats_irrefl [simp]: "\<not> beats x x"
  by (simp add: beats_def)

lemma beats_trans: "beats x y \<Longrightarrow> beats y z \<Longrightarrow> beats x z"
  by (auto simp: beats_def)

lemma not_beats_trans: "\<not> beats y x \<Longrightarrow> \<not> beats z y \<Longrightarrow> \<not> beats z x"
  by (auto simp: beats_def)

lemma winner_from_spec:
  assumes "winner_from fmt best as = r"
  shows "(r = None \<longleftrightarrow> best = None \<and> (\<forall>a \<in> set as. view_iso fmt (ac_at a) = None)) \<and>
    (\<forall>w. r = Some w \<longrightarrow>
       (best = Some w \<or> snd w \<in> set as \<and> view_iso fmt (ac_at (snd w)) = Some (fst w)) \<and>
       (\<forall>b. best = Some b \<longrightarrow> \<not> beats b w) \<and>
       (\<forall>a t. a \<in> set as \<and> view_iso fmt (ac_at a) = Some t \<longrightarrow> \<not> beats (t, a) w))"
  using assms
proof (induction fmt best as arbitrary: r rule: winner_from.induct)
  case (2 fmt best a as)
  show ?case
  proof (cases "view_iso fmt (ac_at a)")
    case None
    then show ?thesis using 2(1) [OF None] 2(3) by auto
  next
    case (Some t)
    define best' where "best' = (case best of None \<Rightarrow> Some (t, a) | Some b \<Rightarrow> if beats (t, a) b then Some (t, a) else Some b)"
    have r: "winner_from fmt best' as = r" using 2(3) Some by (simp add: best'_def)
    note IH = 2(2) [OF Some r [unfolded best'_def], folded best'_def]
    obtain w where w: "r = Some w" using IH by (auto simp: best'_def split: option.splits if_splits)
    have not_beaten: "\<not> beats (t, a) w" "\<forall>b. best = Some b \<longrightarrow> \<not> beats b w"
    proof -
      obtain b' where b': "best' = Some b'" by (cases best') (auto simp: best'_def split: option.splits if_splits)
      then have b'w: "\<not> beats b' w" using IH w by blast
      have "\<not> beats (t, a) b'" "\<forall>b. best = Some b \<longrightarrow> \<not> beats b b'"
        using b' beats_trans [of "(t, a)" _ "(t, a)"] by (auto simp: best'_def split: option.splits if_splits)
      then show "\<not> beats (t, a) w" "\<forall>b. best = Some b \<longrightarrow> \<not> beats b w"
        using not_beats_trans [OF b'w] by blast+
    qed
    have from': "best = Some w \<or> snd w \<in> set (a # as) \<and> view_iso fmt (ac_at (snd w)) = Some (fst w)"
      using IH w Some by (auto simp: best'_def split: option.splits if_splits)
    have rest: "\<not> beats (u, b) w" if "b \<in> set as" "view_iso fmt (ac_at b) = Some u" for b u
      using IH w that by blast
    show ?thesis unfolding w using from' rest not_beaten Some by auto
  qed
qed auto

text \<open>the last activity of an item does not depend on the order or the multiplicity of its records: if no
  two records share instant, precedence and source id, every listing of them has the same winner, and no
  record of the item beats it.\<close>

theorem last_activity_order_independent:
  assumes "set as = set bs"
    and "\<forall>a \<in> set as. \<forall>b \<in> set as. view_iso fmt (ac_at a) = view_iso fmt (ac_at b) \<and> ac_prec a = ac_prec b \<and>
      ac_source a = ac_source b \<longrightarrow> a = b"
  shows "total_order_winner fmt as = total_order_winner fmt bs \<and>
    (\<forall>w. total_order_winner fmt as = Some w \<longrightarrow> w \<in> set as \<and>
       (\<forall>a \<in> set as. \<forall>t u. view_iso fmt (ac_at a) = Some t \<and> view_iso fmt (ac_at w) = Some u \<longrightarrow> \<not> beats (t, a) (u, w)))"
proof -
  note A = winner_from_spec [OF refl, of fmt None as] and B = winner_from_spec [OF refl, of fmt None bs]
  show ?thesis
  proof (cases "winner_from fmt None as")
    case None
    then show ?thesis using A B assms(1) by (simp add: total_order_winner_def)
  next
    case (Some w)
    then obtain v where v: "winner_from fmt None bs = Some v"
      using A B assms(1) by (cases "winner_from fmt None bs") auto
    have w: "snd w \<in> set as" "view_iso fmt (ac_at (snd w)) = Some (fst w)"
      "\<And>a t. a \<in> set as \<Longrightarrow> view_iso fmt (ac_at a) = Some t \<Longrightarrow> \<not> beats (t, a) w" using A Some by auto
    have v': "snd v \<in> set as" "view_iso fmt (ac_at (snd v)) = Some (fst v)"
      "\<And>a t. a \<in> set as \<Longrightarrow> view_iso fmt (ac_at a) = Some t \<Longrightarrow> \<not> beats (t, a) v" using B v assms(1) by auto
    have "\<not> beats v w" "\<not> beats w v" using w(3) [OF v'(1,2)] v'(3) [OF w(1,2)] by simp_all
    then have "fst v = fst w \<and> ac_prec (snd v) = ac_prec (snd w) \<and> ac_source (snd v) = ac_source (snd w)"
      by (auto simp: beats_def)
    then have "snd v = snd w" using assms(2) w(1,2) v'(1,2) by metis
    then show ?thesis using w v Some by (auto simp: total_order_winner_def)
  qed
qed

definition demo_activity :: "nat \<Rightarrow> activity" where
  "demo_activity n = \<lparr>ac_at = JStr ''t'', ac_prec = n, ac_source = ''m'', ac_label = ''progress''\<rparr>"

lemma last_activity_order_independent_witness:
  "total_order_winner (\<lambda>_. Some 0) [demo_activity 6, demo_activity 5] =
   total_order_winner (\<lambda>_. Some 0) [demo_activity 5, demo_activity 6, demo_activity 5]"
  using last_activity_order_independent [of "[demo_activity 6, demo_activity 5]"
      "[demo_activity 5, demo_activity 6, demo_activity 5]" "\<lambda>_. Some 0"]
  by (auto simp: demo_activity_def)

section \<open>Where the code falls short\<close>

text \<open>The ids of gate authorities are read from the top level of a gates file, where the gate store never
  writes them: they lie inside \<open>gates\<close>.\<close>

lemma gate_authority_is_not_seen:
  assumes "gfiles (i_gates s) (take (length name - 5) name) = Some (Doc (JObj rec))" and "jget rec ''authority'' = JNull"
  shows "gate_file_ids env s name = Inr []"
  using assms by (simp add: gate_file_ids_def authority_id_def py_get_def py_or_def)

text \<open>An item without a time sorts before every dated one of its kind.\<close>

lemma undated_items_come_first:
  assumes "\<not> truthy at" and "neg_time at' = Inr t"
  shows "\<exists>u. neg_time at = Inr u \<and> u \<le> t"
  using assms by (simp add: neg_time_def)

text \<open>One packet file whose document is not an object takes the whole list down.\<close>

lemma other_document_breaks_the_list:
  assumes "\<And>l. e_lane env l = (if l = OUTBOX then Some [name] else None)" and "has_suffix ''.json'' name"
    and "e_readable env (e_root env @ [OUTBOX, name])"
    and "files (w_packets s) (e_root env @ [OUTBOX, name]) = Some (Doc (JArr xs))"
  shows "derive_work_items env s include_all running = Inl AttributeError"
proof -
  have "packet_row env s OUTBOX name = Inl AttributeError" using assms by (simp add: packet_row_def Let_def)
  then have "lane_rows env s OUTBOX = Inl AttributeError" using assms(1) by (simp add: lane_rows_def)
  then have "read_packets env s = Inl AttributeError" by (simp add: read_packets_def LANES_def)
  then show ?thesis by (simp add: derive_work_items_def)
qed

text \<open>A packet claim can be refused after the packet has moved.\<close>

lemma refused_claim_may_have_moved:
  assumes "truthy actor" "\<not> blank (py_str actor)" and "admitted env s wid actor = (Inr None, s1)"
    and "parse_work_item_id wid = Some (''packet'', ref)" and "claim_packet env s1 ref actor = (Inr None, s2)"
    and "post_bound env s2 wid (work_args actor (JStr (''claimed CTA packet '' @ ref)) role ''internal'' ''claimed'' source wid) =
      (Inr (Inl p), s3)"
  shows "claim_work_item env s wid actor role source = (Inr p, s3) \<and> \<not> truthy (jget p ''ok'')"
  using assms post_bound_refused [OF assms(6)] by (simp add: claim_work_item_def Let_def)

end
