(* ===== verification/Egress_Lineage.thy ===== *)
theory Egress_Lineage
  imports Py_Access
begin

text \<open>
  The sensitivity lineage of the egress guard (\<open>LineageGraph\<close> of \<open>tools/clearwright_egress_guard.py\<close>): nodes for
  sources, assembled and sanitised content, the resolution of a node's sensitivity over its ancestry, and the
  dispatch decision for an outbound candidate.

  A refusal (\<open>EgressBlocked\<close>) carries its reason; the content-free details are left out. The graph is an
  association list from ids to nodes, as the Python dictionary.
\<close>

section \<open>The lattice\<close>

datatype sens = Standard | Its | Sensitive

fun sens_order :: "sens \<Rightarrow> nat" where
  "sens_order Standard = 0"
| "sens_order Its = 1"
| "sens_order Sensitive = 2"

lemma sens_order_inj [simp]: "sens_order a = sens_order b \<longleftrightarrow> a = b"
  by (cases a; cases b) simp_all

instantiation sens :: linorder begin

definition less_eq_sens :: "sens \<Rightarrow> sens \<Rightarrow> bool" where
  "less_eq_sens a b = (sens_order a \<le> sens_order b)"

definition less_sens :: "sens \<Rightarrow> sens \<Rightarrow> bool" where
  "less_sens a b = (sens_order a < sens_order b)"

instance
  by standard (auto simp: less_eq_sens_def less_sens_def)

end

lemma sens_bounds [simp]: "Standard \<le> a" "a \<le> Sensitive"
  by (cases a; simp add: less_eq_sens_def)+

lemma sens_extremes [simp]: "Sensitive \<le> a \<longleftrightarrow> a = Sensitive" "a \<le> Standard \<longleftrightarrow> a = Standard" "\<not> Sensitive \<le> Its"
  by (cases a; simp add: less_eq_sens_def)+

lemma sens_max [simp]: "max Standard a = a" "max a Standard = a" "max Sensitive a = Sensitive" "max a Sensitive = Sensitive"
  by (simp_all add: max_def order_antisym_conv)

datatype egress = Blocked string | Broken pyexc

definition broken :: "pyexc + 'a \<Rightarrow> egress + 'a" where
  "broken r = (case r of Inl e \<Rightarrow> Inl (Broken e) | Inr x \<Rightarrow> Inr x)"

section \<open>The graph\<close>

definition STANDARD_PROVENANCE :: "string list" where
  "STANDARD_PROVENANCE = [''approved_repo_file'', ''synthetic_fixture'']"

definition ITS_ROOT_PROVENANCE :: "string list" where
  "ITS_ROOT_PROVENANCE = [''fixed_scaffold'']"

definition SANITIZER_ID :: string where "SANITIZER_ID = ''clearwright_clinical_sanitizer/v1''"

definition NON_CLINICAL_DOMAINS :: "string list" where
  "NON_CLINICAL_DOMAINS = [''legal'', ''financial'', ''employment'', ''personnel'', ''other'']"

record lnode =
  ln_class :: string
  ln_sources :: "string list"
  ln_prov :: json
  ln_escalated :: bool
  ln_domain :: json
  ln_sanitizer :: json
  ln_derived :: json
  ln_hash :: json

type_synonym lgraph = "(string \<times> lnode) list"

definition lnode_at :: "lgraph \<Rightarrow> string \<Rightarrow> lnode option" where
  "lnode_at g i = map_of g i"

definition add_node :: "string \<Rightarrow> lnode \<Rightarrow> lgraph \<Rightarrow> egress + lgraph" where
  "add_node i n g =
     (if ln_class n \<notin> {''raw'', ''machine_generated'', ''sanitized_ok''} then Inl (Blocked ''lineage_unverifiable'')
      else Inr (AList.update i n g))"

text \<open>The durable form of a graph. A record's id and class are text; its sources are iterated, and may be missing.\<close>

definition node_record :: "string \<Rightarrow> lnode \<Rightarrow> json" where
  "node_record i n = JObj
     [(''id'', JStr i), (''classification'', JStr (ln_class n)), (''source_ids'', JArr (map JStr (ln_sources n))),
      (''provenance'', ln_prov n), (''escalated'', JBool (ln_escalated n)), (''domain'', ln_domain n),
      (''sanitizer'', ln_sanitizer n), (''derived'', ln_derived n), (''content_hash'', ln_hash n)]"

definition to_records :: "lgraph \<Rightarrow> json list" where
  "to_records g = map (\<lambda>(i, n). node_record i n) g"

definition text_item :: "json \<Rightarrow> string \<Rightarrow> egress + string" where
  "text_item j k = broken (sbind (py_item j k) (\<lambda>v. case v of JStr s \<Rightarrow> Inr s | _ \<Rightarrow> Inl TypeError))"

definition source_texts :: "json \<Rightarrow> egress + string list" where
  "source_texts j = broken (sbind (py_iter (py_or j (JArr []))) (map_exc (\<lambda>v. case v of JStr s \<Rightarrow> Inr s | _ \<Rightarrow> Inl TypeError)))"

definition add_record :: "json \<Rightarrow> lgraph \<Rightarrow> egress + lgraph" where
  "add_record j g =
     sbind (text_item j ''id'') (\<lambda>i.
     sbind (text_item j ''classification'') (\<lambda>c.
     sbind (source_texts (jget (obj_of j) ''source_ids'')) (\<lambda>src.
       add_node i \<lparr>ln_class = c, ln_sources = src, ln_prov = jget (obj_of j) ''provenance'',
         ln_escalated = truthy (jget (obj_of j) ''escalated''), ln_domain = jget (obj_of j) ''domain'',
         ln_sanitizer = jget (obj_of j) ''sanitizer'', ln_derived = jget (obj_of j) ''derived'',
         ln_hash = jget (obj_of j) ''content_hash''\<rparr> g)))"

fun from_records :: "json list \<Rightarrow> lgraph \<Rightarrow> egress + lgraph" where
  "from_records [] g = Inr g"
| "from_records (j # js) g = sbind (add_record j g) (from_records js)"

text \<open>\<open>(node.get("provenance") or {}).get(key)\<close>.\<close>

definition prov_field :: "lnode \<Rightarrow> string \<Rightarrow> egress + json" where
  "prov_field n k = broken (py_get (py_or (ln_prov n) (JObj [])) k)"

section \<open>Resolution\<close>

definition raw_level :: "json \<Rightarrow> sens" where
  "raw_level pclass =
     (if pclass \<in> JStr ` set STANDARD_PROVENANCE then Standard
      else if pclass \<in> JStr ` set ITS_ROOT_PROVENANCE then Its else Sensitive)"

text \<open>A node over the worst of its sources: a raw node keeps at least its own level, an assembly inherits, and
  generated content is at best internal and sensitive unless its scan passed.\<close>

definition over_sources :: "lnode \<Rightarrow> egress + sens \<Rightarrow> egress + sens" where
  "over_sources n worst =
     (if ln_class n = ''raw'' then
        sbind (prov_field n ''class'') (\<lambda>c.
          if ln_sources n = [] then Inr (raw_level c) else sbind worst (\<lambda>w. Inr (max (raw_level c) w)))
      else if ln_class n = ''sanitized_ok'' then worst
      else if ln_sources n = [] then Inl (Blocked ''lineage_ambiguous'')
      else sbind worst (\<lambda>w.
        if ln_derived n = JNull then Inr w
        else sbind (broken (py_get (ln_derived n) ''scan_passed'')) (\<lambda>passed.
          Inr (if passed = JBool True \<and> w \<noteq> Sensitive then Its else Sensitive))))"

fun worst_of :: "('a \<Rightarrow> egress + sens) \<Rightarrow> 'a list \<Rightarrow> egress + sens" where
  "worst_of f [] = Inr Standard"
| "worst_of f (x # xs) = sbind (f x) (\<lambda>s. sbind (worst_of f xs) (\<lambda>t. Inr (max s t)))"

lemma worst_of_cong [fundef_cong]:
  "xs = ys \<Longrightarrow> (\<And>x. x \<in> set ys \<Longrightarrow> f x = g x) \<Longrightarrow> worst_of f xs = worst_of g ys"
proof (induction xs arbitrary: ys)
  case (Cons x xs)
  then have "f x = g x" "worst_of f xs = worst_of g xs" by auto
  then show ?case using Cons.prems(1) by auto
qed simp

function resolve_sensitivity :: "lgraph \<Rightarrow> string list \<Rightarrow> string \<Rightarrow> egress + sens" where
  "resolve_sensitivity g stack i =
     (if i \<in> set stack then Inl (Blocked ''lineage_cycle'')
      else case lnode_at g i of
        None \<Rightarrow> Inl (Blocked ''lineage_source_missing'')
      | Some n \<Rightarrow>
          if ln_escalated n then Inr Sensitive
          else over_sources n (worst_of (resolve_sensitivity g (i # stack)) (ln_sources n)))"
  by pat_completeness auto

lemma stack_grows:
  assumes "i \<notin> set stack" and "lnode_at g i = Some n"
  shows "card (fst ` set g - set (i # stack)) < card (fst ` set g - set stack)"
proof (rule psubset_card_mono)
  have "i \<in> fst ` set g" using assms(2) by (force simp: lnode_at_def dest: map_of_SomeD)
  then show "fst ` set g - set (i # stack) \<subset> fst ` set g - set stack" using assms(1) by auto
qed simp

termination resolve_sensitivity
  by (relation "measure (\<lambda>(g, stack, i). card (fst ` set g - set stack))") (auto dest: stack_grows)

declare resolve_sensitivity.simps [simp del]

definition max_sources :: "lgraph \<Rightarrow> string \<Rightarrow> egress + sens" where
  "max_sources g i =
     (case lnode_at g i of
        None \<Rightarrow> Inl (Broken KeyError)
      | Some n \<Rightarrow> worst_of (resolve_sensitivity g [i]) (ln_sources n))"

text \<open>A node that claims a standard class while its sources are sensitive.\<close>

definition assert_no_standard_over_sensitive :: "lgraph \<Rightarrow> string \<Rightarrow> egress + unit" where
  "assert_no_standard_over_sensitive g i =
     (case lnode_at g i of
        None \<Rightarrow> Inl (Blocked ''lineage_source_missing'')
      | Some n \<Rightarrow>
          sbind (prov_field n ''class'') (\<lambda>c.
            if ln_class n \<in> {''raw'', ''machine_generated''} \<and> ln_sources n \<noteq> [] then
              sbind (max_sources g i) (\<lambda>w.
              sbind (prov_field n ''asserted_sensitivity'') (\<lambda>a.
                if w = Sensitive \<and> (c \<in> JStr ` set STANDARD_PROVENANCE \<or> a = JStr ''standard'')
                then Inl (Blocked ''lineage_standard_over_sensitive'') else Inr ()))
            else Inr ()))"

section \<open>The decision\<close>

datatype egress_decision = SanitizedOk | StandardOk | ItsOk | LocalOnly | EscalatedOk | DeclaredOk string

record policy_id =
  pol_version :: json
  pol_sha :: json

definition decide_sanitized :: "'a policy_id_scheme \<Rightarrow> lgraph \<Rightarrow> string \<Rightarrow> lnode \<Rightarrow> egress + egress_decision" where
  "decide_sanitized pol g i n =
     (let san = py_or (ln_sanitizer n) (JObj []) in
      sbind (broken (py_get san ''sanitizer_id'')) (\<lambda>sid.
      sbind (require (sid = JStr SANITIZER_ID) (Blocked ''sanitized_not_from_sanitizer'')) (\<lambda>_.
      sbind (require (jget (obj_of san) ''policy_sha256'' = pol_sha pol \<and>
          jget (obj_of san) ''policy_version'' = pol_version pol) (Blocked ''sanitized_policy_stale'')) (\<lambda>_.
      sbind (require (truthy (jget (obj_of san) ''construction_proof'')) (Blocked ''sanitized_no_construction_proof'')) (\<lambda>_.
      sbind (require (ln_domain n = JStr ''clinical'') (Blocked ''domain_unsupported'')) (\<lambda>_.
      sbind (max_sources g i) (\<lambda>_. Inr SanitizedOk)))))))"

definition decide_outcome :: "'a policy_id_scheme \<Rightarrow> lgraph \<Rightarrow> string \<Rightarrow> egress + egress_decision" where
  "decide_outcome pol g i =
     (case lnode_at g i of
        None \<Rightarrow> Inl (Blocked ''lineage_source_missing'')
      | Some n \<Rightarrow>
          sbind (assert_no_standard_over_sensitive g i) (\<lambda>_.
            if ln_class n = ''sanitized_ok'' then decide_sanitized pol g i n
            else sbind (resolve_sensitivity g [] i) (\<lambda>s.
              case s of
                Standard \<Rightarrow> Inr StandardOk
              | Its \<Rightarrow> Inr ItsOk
              | Sensitive \<Rightarrow>
                  if ln_domain n \<in> JStr ` set NON_CLINICAL_DOMAINS then Inr LocalOnly
                  else Inl (Blocked ''sensitive_requires_derivative''))))"

section \<open>Ancestors\<close>

text \<open>The sources of a node that are in the graph and not yet reached, in order.\<close>

definition new_sources :: "lgraph \<Rightarrow> string list \<Rightarrow> string \<Rightarrow> string list" where
  "new_sources g reached i =
     (case lnode_at g i of
        None \<Rightarrow> []
      | Some n \<Rightarrow> remdups (filter (\<lambda>s. s \<notin> set reached \<and> lnode_at g s \<noteq> None) (ln_sources n)))"

function reach_from :: "lgraph \<Rightarrow> string list \<Rightarrow> string list \<Rightarrow> string list" where
  "reach_from g reached [] = reached"
| "reach_from g reached (i # stack) =
     reach_from g (reached @ new_sources g reached i) (rev (new_sources g reached i) @ stack)"
  by pat_completeness auto

lemma new_sources_fresh:
  "set (new_sources g reached i) \<subseteq> fst ` set g - set reached"
  by (auto simp: new_sources_def lnode_at_def split: option.splits) (metis fst_conv image_eqI map_of_SomeD)

termination reach_from
proof (relation "(\<lambda>(g, reached, stack). card (fst ` set g - set reached)) <*mlex*>
    measure (\<lambda>(g, reached, stack). length stack)")
  fix g :: lgraph and reached stack :: "string list" and i
  let ?new = "new_sources g reached i"
  show "((g, reached @ ?new, rev ?new @ stack), (g, reached, i # stack)) \<in>
      (\<lambda>(g, reached, stack). card (fst ` set g - set reached)) <*mlex*> measure (\<lambda>(g, reached, stack). length stack)"
  proof (cases "?new = []")
    case True
    then show ?thesis by (simp add: mlex_leq)
  next
    case False
    then have "fst ` set g - set (reached @ ?new) \<subset> fst ` set g - set reached"
      using new_sources_fresh [of g reached i] by (cases ?new) auto
    then have "card (fst ` set g - set (reached @ ?new)) < card (fst ` set g - set reached)"
      by (intro psubset_card_mono) simp_all
    then show ?thesis by (simp add: mlex_less)
  qed
qed (simp add: wf_mlex)

definition reachable_from :: "lgraph \<Rightarrow> string \<Rightarrow> string list" where
  "reachable_from g i = reach_from g [] [i]"

text \<open>The content hash a node is bound to.\<close>

definition node_content_hash :: "lnode \<Rightarrow> pyexc + json" where
  "node_content_hash n =
     (if ln_hash n \<noteq> JNull then Inr (ln_hash n)
      else sbind (py_get (py_or (ln_derived n) (JObj [])) ''content_hash'') (\<lambda>h.
        if h \<noteq> JNull then Inr h else py_get (py_or (ln_prov n) (JObj [])) ''sha256''))"

end
