(* ===== verification/Egress_Policy.thy ===== *)
theory Egress_Policy
  imports Egress_Lineage
begin

text \<open>
  The policy of the egress guard, its two detector passes and the closed-schema proof of a sanitised derivative
  (\<open>load_policy\<close>, \<open>resolve_local_egress_config\<close>, \<open>_scan_text\<close>, \<open>classify\<close>, \<open>final_scan\<close>,
  \<open>redact_for_persistence\<close>, \<open>construction_proof\<close>, \<open>sanitize_clinical\<close> of
  \<open>tools/clearwright_egress_guard.py\<close>).

  Regular expressions, SHA-256 and the JSON reader and writers are parameters. Text is a list of code points
  below 256; its UTF-8 encoding is written out, and bytes that are not the encoding of such text do not decode.
\<close>

section \<open>Bytes and text\<close>

definition utf8_char :: "char \<Rightarrow> string" where
  "utf8_char c = (let n = of_char c :: nat in
     if n < 128 then [c] else [char_of (192 + n div 64), char_of (128 + n mod 64)])"

definition utf8 :: "string \<Rightarrow> string" where
  "utf8 s = concat (map utf8_char s)"

text \<open>Decoding with replacement; the replacement character is outside the model's characters and is written
  as a question mark.\<close>

fun utf8_replace :: "string \<Rightarrow> string" where
  "utf8_replace [] = []"
| "utf8_replace [c] = [if (of_char c :: nat) < 128 then c else CHR ''?'']"
| "utf8_replace (c # d # r) =
     (let m = of_char c :: nat; n = of_char d :: nat in
      if m < 128 then c # utf8_replace (d # r)
      else if m \<in> {194, 195} \<and> 128 \<le> n \<and> n < 192 then char_of ((m - 192) * 64 + (n - 128)) # utf8_replace r
      else CHR ''?'' # utf8_replace (d # r))"

definition utf8_text :: "string \<Rightarrow> string option" where
  "utf8_text b = (let t = utf8_replace b in if utf8 t = b then Some t else None)"

lemma utf8_simps [simp]: "utf8 [] = []" "utf8 (c # s) = utf8_char c @ utf8 s" "utf8 (s @ t) = utf8 s @ utf8 t"
  by (simp_all add: utf8_def)

lemma utf8_char_ascii [simp]: "(of_char c :: nat) < 128 \<Longrightarrow> utf8_char c = [c]"
  by (simp add: utf8_char_def)

lemma utf8_ascii: "\<forall>c \<in> set s. (of_char c :: nat) < 128 \<Longrightarrow> utf8 s = s"
  by (induction s) simp_all

text \<open>A code point from 128 on is encoded in two bytes.\<close>

lemma two_bytes:
  assumes "\<not> (of_char c :: nat) < 128"
  obtains q r :: nat where "utf8_char c = [char_of (192 + q), char_of (128 + r)]"
    and "q \<in> {2, 3}" and "r < 64" and "of_char c = q * 64 + r"
proof -
  define n :: nat where "n = of_char c"
  have n: "128 \<le> n" "n < 256" using assms by (simp_all add: n_def)
  have "n div 64 < 4" "2 \<le> n div 64" using n by (simp_all add: less_mult_imp_div_less)
  then have "n div 64 \<in> {2, 3}" by auto
  moreover have "utf8_char c = [char_of (192 + n div 64), char_of (128 + n mod 64)]"
    using n by (simp add: utf8_char_def n_def [symmetric])
  ultimately show thesis using that [of "n div 64" "n mod 64"] by (simp add: n_def [symmetric])
qed

lemma utf8_replace_char: "utf8_replace (utf8_char c @ s) = c # utf8_replace s"
proof (cases "(of_char c :: nat) < 128")
  case True
  then show ?thesis by (cases s) simp_all
next
  case False
  then obtain q r :: nat where u: "utf8_char c = [char_of (192 + q), char_of (128 + r)]"
    and q: "q \<in> {2, 3}" and r: "r < 64" and c: "of_char c = q * 64 + r" by (rule two_bytes)
  have "char_of (q * 64 + r) = c" by (simp add: c [symmetric])
  then show ?thesis using q r by (auto simp: u)
qed

lemma utf8_replace_utf8 [simp]: "utf8_replace (utf8 s) = s"
  by (induction s) (simp_all add: utf8_replace_char)

text \<open>An encoding of text into bytes and its strict decoder.\<close>

locale text_codec =
  fixes enc :: "string \<Rightarrow> string" and dec :: "string \<Rightarrow> string option"
  assumes dec_enc: "dec (enc s) = Some s" and enc_dec: "dec b = Some s \<Longrightarrow> b = enc s"

context text_codec begin

lemma decoded_iff: "dec b = Some s \<longleftrightarrow> b = enc s"
  using dec_enc enc_dec by auto

lemma enc_inj: "enc s = enc t \<longleftrightarrow> s = t"
  by (metis dec_enc option.inject)

lemma undecodable_iff: "dec b = None \<longleftrightarrow> b \<notin> range enc"
  by (metis dec_enc enc_dec not_None_eq rangeE rangeI)

end

interpretation codec: text_codec utf8 utf8_text
  by unfold_locales (auto simp: utf8_text_def Let_def split: if_splits)

lemma utf8_text_utf8 [simp]: "utf8_text (utf8 s) = Some s"
  by (rule codec.dec_enc)

lemma utf8_text_iff: "utf8_text b = Some t \<longleftrightarrow> b = utf8 t"
  by (rule codec.decoded_iff)

lemma utf8_inj [simp]: "utf8 s = utf8 t \<longleftrightarrow> s = t"
  by (rule codec.enc_inj)

text \<open>An ASCII character occurs in the encoding exactly where it occurs in the text.\<close>

lemma utf8_char_set:
  assumes d: "(of_char d :: nat) < 128"
  shows "d \<in> set (utf8_char c) \<longleftrightarrow> d = c"
proof (cases "(of_char c :: nat) < 128")
  case False
  then obtain q r :: nat where u: "utf8_char c = [char_of (192 + q), char_of (128 + r)]"
    and q: "q \<in> {2, 3}" and r: "r < 64" by (rule two_bytes)
  have "(of_char (char_of (192 + q) :: char) :: nat) \<noteq> of_char d" "(of_char (char_of (128 + r) :: char) :: nat) \<noteq> of_char d"
    using q r d by auto
  then have "d \<noteq> char_of (192 + q)" "d \<noteq> char_of (128 + r)" by metis+
  moreover have "d \<noteq> c" using False d by auto
  ultimately show ?thesis by (simp add: u)
qed auto

lemma utf8_set: "(of_char d :: nat) < 128 \<Longrightarrow> d \<in> set (utf8 s) \<longleftrightarrow> d \<in> set s"
  by (induction s) (auto simp: utf8_char_set)


section \<open>What the guard takes from the library\<close>

text \<open>\<open>ge_compile\<close> compiles a pattern, ignoring case, and gives the spans of its successive matches.\<close>

record guard_env =
  ge_compile :: "string \<Rightarrow> (string \<Rightarrow> (nat \<times> nat) list) option"
  ge_confusables :: "string \<Rightarrow> nat"
  ge_sha :: "string \<Rightarrow> string"
  ge_loads :: "string \<Rightarrow> json option"
  ge_dumps :: "json \<Rightarrow> string"
  ge_canonical :: "json \<Rightarrow> string"

record loaded = policy_id +
  ld_policy :: jobj
  ld_roots :: "string list"
  ld_identity :: json

section \<open>Loading\<close>

text \<open>The local configuration: the file named by the environment, and the absolute path that a declared root
  resolves to, \<open>None\<close> where it is not absolute or cannot be resolved.\<close>

record local_env =
  le_path :: "string option"
  le_read :: "string \<Rightarrow> string option"
  le_root :: "string \<Rightarrow> string option"

text \<open>\<open>json.loads(raw.decode("utf-8"))\<close>.\<close>

definition loads_bytes :: "guard_env \<Rightarrow> string \<Rightarrow> json option" where
  "loads_bytes ge b = Option.bind (utf8_text b) (ge_loads ge)"

text \<open>The roots in order; one that is not absolute text empties the list.\<close>

fun root_list :: "(string \<Rightarrow> string option) \<Rightarrow> json list \<Rightarrow> string list option" where
  "root_list f [] = Some []"
| "root_list f (j # js) =
     (case j of
        JStr r \<Rightarrow> Option.bind (f r) (\<lambda>p. map_option ((#) p) (root_list f js))
      | _ \<Rightarrow> None)"

definition config_roots :: "local_env \<Rightarrow> jobj \<Rightarrow> jobj \<Rightarrow> string list" where
  "config_roots le policy cfg =
     (let want = jget policy ''approved_repo_identity''; raw = jget cfg ''approved_repo_roots'' in
      if \<not> truthy want \<or> key_of (jget cfg ''approved_repo_identity'') \<noteq> key_of want then []
      else if \<not> is_arr raw \<or> arr_of raw = [] then []
      else case root_list (le_root le) (arr_of raw) of None \<Rightarrow> [] | Some rs \<Rightarrow> rs)"

definition resolve_local_egress_config :: "guard_env \<Rightarrow> local_env \<Rightarrow> jobj \<Rightarrow> string list" where
  "resolve_local_egress_config ge le policy =
     (case le_path le of
        None \<Rightarrow> []
      | Some p \<Rightarrow>
          if p = [] then []
          else case Option.bind (le_read le p) (loads_bytes ge) of
            Some (JObj cfg) \<Rightarrow> config_roots le policy cfg
          | _ \<Rightarrow> [])"

datatype policy_file = PolicyMissing | PolicyUnreadable | PolicyBytes string

definition POLICY_KEYS :: "string list" where
  "POLICY_KEYS = [''tripwires'', ''contextual_terms'', ''identity_signals'', ''approved_repo_identity'',
     ''approved_repo_paths'', ''synthetic_fixture_paths'', ''controlled_vocabulary'', ''derivative_templates'']"

definition policy_of :: "guard_env \<Rightarrow> string \<Rightarrow> egress + jobj" where
  "policy_of ge raw =
     (case loads_bytes ge raw of
        Some (JObj policy) \<Rightarrow>
          sbind (require (jget policy ''policy_version'' = JStr ''1.0.0'') (Blocked ''policy_version_unknown'')) (\<lambda>_.
          sbind (require (list_all (jhas policy) POLICY_KEYS) (Blocked ''policy_invalid'')) (\<lambda>_. Inr policy))
      | _ \<Rightarrow> Inl (Blocked ''policy_invalid''))"

definition load_policy :: "guard_env \<Rightarrow> local_env \<Rightarrow> string option \<Rightarrow> policy_file \<Rightarrow> egress + loaded" where
  "load_policy ge le expected pf =
     (case pf of
        PolicyMissing \<Rightarrow> Inl (Blocked ''policy_missing'')
      | PolicyUnreadable \<Rightarrow> Inl (Blocked ''policy_unreadable'')
      | PolicyBytes raw \<Rightarrow>
          if expected \<notin> {None, Some [], Some (ge_sha ge raw)} then Inl (Blocked ''policy_hash_mismatch'')
          else sbind (policy_of ge raw) (\<lambda>policy.
            Inr \<lparr>pol_version = jget policy ''policy_version'', pol_sha = JStr (ge_sha ge raw), ld_policy = policy,
              ld_roots = resolve_local_egress_config ge le policy,
              ld_identity = jget policy ''approved_repo_identity''\<rparr>))"

section \<open>Detectors\<close>

text \<open>The scan yields \<open>None\<close> where any exception is raised.\<close>

definition texts :: "json \<Rightarrow> string list option" where
  "texts j = (case py_iter j of Inl _ \<Rightarrow> None
     | Inr xs \<Rightarrow> if list_all is_str xs then Some (map py_str xs) else None)"

definition dict_items :: "json \<Rightarrow> jobj option" where
  "dict_items j = (if is_obj j then Some (obj_of j) else None)"

text \<open>\<open>_compile\<close>: the tripwires by name, and the alternatives of the two term lists.\<close>

type_synonym matcher = "string \<Rightarrow> (nat \<times> nat) list"

fun compile_all :: "guard_env \<Rightarrow> jobj \<Rightarrow> (string \<times> matcher) list option" where
  "compile_all ge [] = Some []"
| "compile_all ge ((name, pat) # r) =
     (case pat of
        JStr p \<Rightarrow> Option.bind (ge_compile ge p) (\<lambda>m. map_option ((#) (name, m)) (compile_all ge r))
      | _ \<Rightarrow> None)"

definition alternatives :: "guard_env \<Rightarrow> json \<Rightarrow> matcher option option" where
  "alternatives ge j =
     (if \<not> truthy j then Some None
      else Option.bind (texts j) (\<lambda>ts. map_option Some (ge_compile ge (join ''|'' ts))))"

definition compile_policy ::
  "guard_env \<Rightarrow> jobj \<Rightarrow> ((string \<times> matcher) list \<times> matcher option \<times> matcher option) option" where
  "compile_policy ge policy =
     Option.bind (dict_items (jget policy ''tripwires'')) (\<lambda>tw.
     Option.bind (compile_all ge tw) (\<lambda>trip.
     Option.bind (alternatives ge (jget policy ''contextual_terms'')) (\<lambda>ctx.
     map_option (\<lambda>idn. (trip, ctx, idn)) (alternatives ge (jget policy ''identity_signals'')))))"

type_synonym findings = "(string \<times> nat) list"

definition CO_OCCUR_WINDOW :: nat where "CO_OCCUR_WINDOW = 240"

text \<open>The text around a match, cut at both ends of the input.\<close>

definition around :: "string \<Rightarrow> nat \<times> nat \<Rightarrow> string" where
  "around t span =
     (let lo = fst span - CO_OCCUR_WINDOW; hi = min (length t) (snd span + CO_OCCUR_WINDOW) in
      take (hi - lo) (drop lo t))"

definition tripped :: "(string \<times> matcher) list \<Rightarrow> string \<Rightarrow> findings" where
  "tripped trip t = filter (\<lambda>f. snd f \<noteq> 0) (map (\<lambda>(name, m). (name, length (m t))) trip)"

definition co_occurring :: "matcher option \<Rightarrow> matcher option \<Rightarrow> string \<Rightarrow> nat" where
  "co_occurring ctx idn t =
     (case (ctx, idn) of
        (Some c, Some i) \<Rightarrow> length (filter (\<lambda>span. i (around t span) \<noteq> []) (c t))
      | _ \<Rightarrow> 0)"

definition count_of :: "findings \<Rightarrow> string \<Rightarrow> nat" where
  "count_of fs name = (case map_of fs name of None \<Rightarrow> 0 | Some n \<Rightarrow> n)"

definition scan_text :: "guard_env \<Rightarrow> jobj \<Rightarrow> string \<Rightarrow> findings option" where
  "scan_text ge policy t =
     map_option (\<lambda>(trip, ctx, idn).
       let fs = tripped trip t; n = co_occurring ctx idn t; u = ge_confusables ge t;
           gs = (if n = 0 then fs
                 else AList.update ''contextual_identity'' (count_of fs ''contextual_identity'' + n) fs)
       in if u = 0 then gs else AList.update ''unicode_confusable'' u gs) (compile_policy ge policy)"

text \<open>\<open>classify\<close> before the packet is built; \<open>None\<close> of the scan is its exception.\<close>

definition classify :: "guard_env \<Rightarrow> loaded \<Rightarrow> string \<Rightarrow> egress + findings" where
  "classify ge ld t =
     (case scan_text ge (ld_policy ld) t of None \<Rightarrow> Inl (Blocked ''scanner_exception'') | Some fs \<Rightarrow> Inr fs)"

definition final_scan :: "guard_env \<Rightarrow> loaded \<Rightarrow> string \<Rightarrow> egress + findings" where
  "final_scan ge ld b =
     (case utf8_text b of
        None \<Rightarrow> Inl (Blocked ''undecodable_bytes'')
      | Some t \<Rightarrow>
          sbind (classify ge ld t) (\<lambda>fs.
            if length (utf8 t) \<noteq> length b then Inl (Blocked ''partial_scan'') else Inr fs))"

definition redact_for_persistence :: "guard_env \<Rightarrow> loaded \<Rightarrow> string \<Rightarrow> string \<times> findings" where
  "redact_for_persistence ge ld t =
     (case scan_text ge (ld_policy ld) t of
        None \<Rightarrow> (''[reviewer output withheld: residue scan failed closed]'', [(''scanner_exception'', 1)])
      | Some fs \<Rightarrow>
          (let hard = filter (\<lambda>f. fst f \<noteq> ''unicode_confusable'') fs in
           if hard \<noteq> []
           then (''[reviewer output withheld: residual-sensitive-data scan hit '' @ str_nat (length hard) @
                 '' category(ies); findings recorded content-free]'', fs)
           else (t, fs)))"

end
