(* ===== verification/Egress_Source.thy ===== *)
theory Egress_Source
  imports Egress_Policy
begin

text \<open>
  Live provenance: the class of a declared source file and the candidate over a packet's sources
  (\<open>classify_source\<close>, \<open>build_candidate_graph\<close> of \<open>tools/clearwright_egress_guard.py\<close>).

  The file system and git are parameters: one view answers all questions about one file, so a change between
  two of them is outside the model. Paths are POSIX text.
\<close>

section \<open>The view of files and of git\<close>

text \<open>\<open>None\<close> where the call raises \<open>OSError\<close> or git does not answer.\<close>

record source_view =
  sv_real :: "string \<Rightarrow> string option"
  sv_normcase :: "string \<Rightarrow> string"
  sv_abspath :: "string \<Rightarrow> string"
  sv_link :: "string \<Rightarrow> bool"
  sv_file :: "string \<Rightarrow> bool"
  sv_bytes :: "string \<Rightarrow> string option"
  sv_tracked :: "string \<Rightarrow> string \<Rightarrow> bool"
  sv_hash_object :: "string \<Rightarrow> string \<Rightarrow> string option"
  sv_head_blob :: "string \<Rightarrow> string \<Rightarrow> string option"
  sv_head :: "string \<Rightarrow> string option"

text \<open>The content of a file and of the committed blob agree when both ids are known and equal.\<close>

definition git_content_matches_head :: "source_view \<Rightarrow> string \<Rightarrow> string \<Rightarrow> string \<Rightarrow> bool" where
  "git_content_matches_head sv repo rel target =
     (case (sv_hash_object sv repo target, sv_head_blob sv repo rel) of
        (Some w, Some c) \<Rightarrow> w \<noteq> [] \<and> c \<noteq> [] \<and> w = c
      | _ \<Rightarrow> False)"

definition sha256_file :: "guard_env \<Rightarrow> source_view \<Rightarrow> string \<Rightarrow> pyexc + string" where
  "sha256_file ge sv p = (case sv_bytes sv p of None \<Rightarrow> Inl OSError | Some b \<Rightarrow> Inr (ge_sha ge b))"

definition inside :: "string \<Rightarrow> string \<Rightarrow> bool" where
  "inside root target = (target = root \<or> has_prefix (root @ ''/'') target)"

text \<open>\<open>os.path.relpath\<close> of a path under the root, with slashes.\<close>

definition slashes :: "string \<Rightarrow> string" where
  "slashes p = map (\<lambda>c. if c = CHR 0x5C then CHR ''/'' else c) p"

definition rel_path :: "string \<Rightarrow> string \<Rightarrow> string" where
  "rel_path root target = (if target = root then ''.'' else slashes (drop (Suc (length root)) target))"

fun split_slash :: "string \<Rightarrow> string list" where
  "split_slash [] = [[]]"
| "split_slash (c # s) =
     (if c = CHR ''/'' then [] # split_slash s
      else case split_slash s of p # ps \<Rightarrow> (c # p) # ps | [] \<Rightarrow> [[c]])"

definition path_allowed :: "string list \<Rightarrow> string \<Rightarrow> bool" where
  "path_allowed ps rel = list_ex (\<lambda>a. has_prefix a rel \<or> has_prefix ''*.'' a \<and> has_suffix (drop 1 a) rel) ps"

text \<open>\<open>[p.replace(...) for p in policy[key]]\<close>.\<close>

definition policy_paths :: "jobj \<Rightarrow> string \<Rightarrow> pyexc + string list" where
  "policy_paths policy k =
     sbind (py_iter (jget policy k)) (map_exc (\<lambda>j. case j of JStr p \<Rightarrow> Inr (slashes p) | _ \<Rightarrow> Inl AttributeError))"

section \<open>Classification\<close>

datatype provenance =
    Unproven string "string option"
  | Fixture string string string
  | Approved string string string "string option"

text \<open>\<open>Unproven\<close> has the reason and the hashed path, the others the relative path, the hash, the repository and
  its commit.\<close>

definition path_sha :: "guard_env \<Rightarrow> string \<Rightarrow> string option" where
  "path_sha ge p = Some (take 16 (ge_sha ge (utf8 p)))"

definition classify_rel ::
  "guard_env \<Rightarrow> source_view \<Rightarrow> string list \<Rightarrow> string list \<Rightarrow> string \<Rightarrow> string \<Rightarrow> pyexc + provenance" where
  "classify_rel ge sv approved fixtures repo real =
     (let rel = rel_path repo real; in_fixtures = path_allowed fixtures rel; in_approved = path_allowed approved rel in
      if ''..'' \<in> set (split_slash rel) then Inr (Unproven ''source_traversal'' None)
      else if \<not> (in_fixtures \<or> in_approved) then Inr (Unproven ''source_outside_repo'' (path_sha ge rel))
      else sbind (sha256_file ge sv real) (\<lambda>sha.
        if in_fixtures \<and> \<not> in_approved then Inr (Fixture rel sha repo)
        else if \<not> sv_tracked sv repo rel then Inr (Unproven ''source_untracked'' (path_sha ge rel))
        else if \<not> git_content_matches_head sv repo rel real then Inr (Unproven ''source_uncommitted'' (path_sha ge rel))
        else Inr (Approved rel sha repo (sv_head sv repo))))"

definition classify_path ::
  "guard_env \<Rightarrow> source_view \<Rightarrow> string list \<Rightarrow> string list \<Rightarrow> string \<Rightarrow> string \<Rightarrow> pyexc + provenance" where
  "classify_path ge sv approved fixtures repo path =
     (let lex = sv_abspath sv path in
      if sv_link sv path \<or> sv_link sv lex then Inr (Unproven ''source_symlink'' (path_sha ge lex))
      else case sv_real sv lex of
        None \<Rightarrow> Inr (Unproven ''source_not_a_file'' None)
      | Some real \<Rightarrow>
          if \<not> (inside repo real \<and> inside repo lex) then Inr (Unproven ''source_outside_repo'' (path_sha ge real))
          else if \<not> sv_file sv real then Inr (Unproven ''source_not_a_file'' None)
          else classify_rel ge sv approved fixtures repo real)"

definition classify_source :: "guard_env \<Rightarrow> source_view \<Rightarrow> loaded \<Rightarrow> string \<Rightarrow> string \<Rightarrow> pyexc + provenance" where
  "classify_source ge sv ld path repo =
     sbind (policy_paths (ld_policy ld) ''approved_repo_paths'') (\<lambda>approved.
     sbind (policy_paths (ld_policy ld) ''synthetic_fixture_paths'') (\<lambda>fixtures.
     case (if repo = [] then None else sv_real sv repo) of
       None \<Rightarrow> Inr (Unproven ''repo_unresolvable'' None)
     | Some repo_real \<Rightarrow>
         if sv_normcase sv repo_real \<notin> set (ld_roots ld) then Inr (Unproven ''repo_unresolvable'' None)
         else classify_path ge sv approved fixtures repo_real path))"

section \<open>The candidate\<close>

definition opt_str :: "string option \<Rightarrow> json" where
  "opt_str s = (case s of None \<Rightarrow> JNull | Some t \<Rightarrow> JStr t)"

text \<open>What is recorded of a source: no absolute path.\<close>

fun prov_json :: "provenance \<Rightarrow> json" where
  "prov_json (Unproven why h) = JObj ([(''class'', JStr ''sensitive_source''), (''reason'', JStr why)] @
     (case h of None \<Rightarrow> [] | Some s \<Rightarrow> [(''path_sha16'', JStr s)]))"
| "prov_json (Fixture rel sha repo) = JObj [(''class'', JStr ''synthetic_fixture''), (''path_rel'', JStr rel), (''sha256'', JStr sha)]"
| "prov_json (Approved rel sha repo commit) = JObj [(''class'', JStr ''approved_repo_file''), (''path_rel'', JStr rel),
     (''sha256'', JStr sha), (''repo_commit'', opt_str commit)]"

record binding =
  bd_abspath :: string
  bd_repo :: string
  bd_rel :: string
  bd_sha :: string

text \<open>The binding of a proven source; an empty path or repository binds nothing.\<close>

fun binding_of :: "provenance \<Rightarrow> binding list" where
  "binding_of (Unproven _ _) = []"
| "binding_of (Fixture rel sha repo) =
     (if rel \<noteq> [] \<and> repo \<noteq> [] then [\<lparr>bd_abspath = [], bd_repo = repo, bd_rel = rel, bd_sha = sha\<rparr>] else [])"
| "binding_of (Approved rel sha repo _) =
     (if rel \<noteq> [] \<and> repo \<noteq> [] then [\<lparr>bd_abspath = [], bd_repo = repo, bd_rel = rel, bd_sha = sha\<rparr>] else [])"

definition raw_node :: "json \<Rightarrow> lnode" where
  "raw_node prov = \<lparr>ln_class = ''raw'', ln_sources = [], ln_prov = prov, ln_escalated = False, ln_domain = JNull,
     ln_sanitizer = JNull, ln_derived = JNull, ln_hash = JNull\<rparr>"

definition machine_node :: "string list \<Rightarrow> json \<Rightarrow> lnode" where
  "machine_node src domain = \<lparr>ln_class = ''machine_generated'', ln_sources = src, ln_prov = JNull, ln_escalated = False,
     ln_domain = domain, ln_sanitizer = JNull, ln_derived = JNull, ln_hash = JNull\<rparr>"

definition short_sha :: "guard_env \<Rightarrow> string \<Rightarrow> string" where
  "short_sha ge p = take 12 (ge_sha ge (utf8 p))"

fun name_part :: "guard_env \<Rightarrow> string \<Rightarrow> provenance \<Rightarrow> string" where
  "name_part ge p (Unproven _ h) = (case h of Some (c # s) \<Rightarrow> c # s | _ \<Rightarrow> short_sha ge p)"
| "name_part ge p (Fixture rel _ _) = (if rel \<noteq> [] \<and> short_sha ge rel \<noteq> [] then short_sha ge rel else short_sha ge p)"
| "name_part ge p (Approved rel _ _ _) = (if rel \<noteq> [] \<and> short_sha ge rel \<noteq> [] then short_sha ge rel else short_sha ge p)"

fun add_sources ::
  "guard_env \<Rightarrow> source_view \<Rightarrow> loaded \<Rightarrow> string \<Rightarrow> nat \<Rightarrow> string list \<Rightarrow> lgraph \<times> string list \<times> binding list \<Rightarrow>
     egress + lgraph \<times> string list \<times> binding list" where
  "add_sources ge sv ld repo i [] acc = Inr acc"
| "add_sources ge sv ld repo i (p # ps) (g, ids, bs) =
     sbind (broken (classify_source ge sv ld p repo)) (\<lambda>rec.
       let nid = ''src-'' @ str_nat i @ ''-'' @ name_part ge p rec in
       sbind (add_node nid (raw_node (prov_json rec)) g) (\<lambda>g'.
         add_sources ge sv ld repo (Suc i) ps (g', ids @ [nid], bs @ binding_of rec)))"

definition build_candidate_graph ::
  "guard_env \<Rightarrow> source_view \<Rightarrow> loaded \<Rightarrow> string list \<Rightarrow> string \<Rightarrow> string \<Rightarrow> json \<Rightarrow> bool \<Rightarrow>
     egress + lgraph \<times> binding list" where
  "build_candidate_graph ge sv ld paths repo cand domain unverified =
     sbind (add_sources ge sv ld repo 0 paths ([], [], [])) (\<lambda>(g, ids, bs).
     sbind (if unverified
            then sbind (add_node ''inline-unverified'' (raw_node (JObj [(''class'', JStr ''sensitive_source''),
                    (''reason'', JStr ''inline_content'')])) g) (\<lambda>g'. Inr (g', ids @ [''inline-unverified'']))
            else Inr (g, ids)) (\<lambda>(g, ids).
     sbind (add_node cand (machine_node ids domain) g) (\<lambda>g'. Inr (g', bs))))"

end
