(* ===== verification/Egress_Derivative.thy ===== *)
theory Egress_Derivative
  imports Egress_Policy
begin

text \<open>
  The sanitised derivative: the proof that a payload is one (\<open>construction_proof\<close>) and its only producer
  (\<open>sanitize_clinical\<close> of \<open>tools/clearwright_egress_guard.py\<close>).

  The patterns of the permitted tokens, offsets and bucket labels are written out; \<open>$\<close> also matches before a
  line break that ends the text.
\<close>

section \<open>Permitted values\<close>

definition chop_newline :: "string \<Rightarrow> string" where
  "chop_newline s = (if s \<noteq> [] \<and> last s = CHR 0x0A then butlast s else s)"

definition digits_upto :: "nat \<Rightarrow> string \<Rightarrow> bool" where
  "digits_upto n s = (s \<noteq> [] \<and> length s \<le> n \<and> list_all is_digit s)"

definition neutral_token_ok :: "string \<Rightarrow> bool" where
  "neutral_token_ok s = list_ex (\<lambda>w. has_prefix w (chop_newline s) \<and> digits_upto 4 (drop (length w) (chop_newline s)))
     [''PERSON-'', ''CLINICIAN-'', ''FACILITY-'', ''PLACE-'']"

definition offset_ok :: "string \<Rightarrow> bool" where
  "offset_ok s =
     (case chop_newline s of
        t # sg # r \<Rightarrow> t = CHR ''T'' \<and> sg \<in> {CHR ''+'', CHR ''-''} \<and> r \<noteq> [] \<and> last r = CHR ''d'' \<and>
          digits_upto 5 (butlast r)
      | _ \<Rightarrow> False)"

definition label_char :: "char \<Rightarrow> bool" where
  "label_char c = (let n = of_char c :: nat in (97 \<le> n \<and> n \<le> 122) \<or> is_digit c \<or> c = CHR ''_'')"

definition bucket_ok :: "string \<Rightarrow> bool" where
  "bucket_ok s =
     (let t = chop_newline s; k = takeWhile label_char t; r = dropWhile label_char t in
      k \<noteq> [] \<and> r \<noteq> [] \<and> hd r = CHR '':'' \<and> tl r \<noteq> [] \<and>
      list_all (\<lambda>c. label_char c \<or> c = CHR ''-'') (tl r))"

section \<open>The proof\<close>

text \<open>\<open>set(xs)\<close> raises on a value that cannot be iterated or hashed.\<close>

definition py_set :: "json \<Rightarrow> pyexc + json list" where
  "py_set j = sbind (py_iter j) (\<lambda>xs. if list_all hashable xs then Inr xs else Inl TypeError)"

definition in_hashed :: "json \<Rightarrow> json list \<Rightarrow> pyexc + bool" where
  "in_hashed x xs = (if hashable x then Inr (key_of x \<in> key_of ` set xs) else Inl TypeError)"

definition allowed_buckets :: "jobj \<Rightarrow> pyexc + json list" where
  "allowed_buckets policy =
     (case py_or (jget policy ''buckets'') (JObj []) of
        JObj ob \<Rightarrow> sbind (map_exc (\<lambda>kv. py_set (py_or (snd kv) (JArr []))) ob) (\<lambda>vs. Inr (concat vs))
      | _ \<Rightarrow> Inl AttributeError)"

definition FIELD_KEYS :: "string list" where
  "FIELD_KEYS = [''code'', ''token'', ''offset'', ''bucket'', ''flag'']"

definition TOP_KEYS :: "string list" where
  "TOP_KEYS = [''schema'', ''policy_version'', ''template_id'', ''fields'']"

text \<open>A field of the object, tested only where it is present.\<close>

definition permits :: "jobj \<Rightarrow> string \<Rightarrow> (json \<Rightarrow> bool) \<Rightarrow> egress + unit" where
  "permits f k p = require (jhas f k \<longrightarrow> p (jget f k)) (Blocked ''construction_value_not_permitted'')"

definition check_field :: "json list \<Rightarrow> json list \<Rightarrow> json \<Rightarrow> egress + unit" where
  "check_field vocab buckets j =
     (case j of
        JObj f \<Rightarrow>
          sbind (require (\<forall>k \<in> set (map fst f). k \<in> set FIELD_KEYS) (Blocked ''construction_schema_violation'')) (\<lambda>_.
          sbind (require (jhas f ''code'') (Blocked ''construction_value_not_permitted'')) (\<lambda>_.
          sbind (broken (in_hashed (jget f ''code'') vocab)) (\<lambda>known.
          sbind (require known (Blocked ''construction_value_not_permitted'')) (\<lambda>_.
          sbind (permits f ''token'' (\<lambda>v. neutral_token_ok (py_str v))) (\<lambda>_.
          sbind (permits f ''offset'' (\<lambda>v. offset_ok (py_str v))) (\<lambda>_.
          sbind (permits f ''bucket'' (\<lambda>v. bucket_ok (py_str v) \<and> JStr (py_str v) \<in> set buckets)) (\<lambda>_.
            permits f ''flag'' (\<lambda>v. v \<in> {JBool True, JBool False}))))))))
      | _ \<Rightarrow> Inl (Blocked ''construction_schema_violation''))"

text \<open>The checks of the parsed document, in order.\<close>

definition check_document :: "loaded \<Rightarrow> json list \<Rightarrow> json list \<Rightarrow> json \<Rightarrow> egress + jobj" where
  "check_document ld vocab buckets j =
     sbind (require (is_obj j \<and> jget (obj_of j) ''schema'' = JStr ''sanitized_derivative-v1'')
       (Blocked ''construction_schema_violation'')) (\<lambda>_.
     let doc = obj_of j in
     sbind (require (jget doc ''policy_version'' = pol_version ld) (Blocked ''construction_schema_violation'')) (\<lambda>_.
     sbind (broken (py_in (jget doc ''template_id'') (jget (ld_policy ld) ''derivative_templates''))) (\<lambda>known.
     sbind (require known (Blocked ''construction_schema_violation'')) (\<lambda>_.
     sbind (require (is_arr (jget doc ''fields'') \<and> arr_of (jget doc ''fields'') \<noteq> [])
       (Blocked ''construction_schema_violation'')) (\<lambda>_.
     sbind (map_exc (check_field vocab buckets) (arr_of (jget doc ''fields''))) (\<lambda>_.
     sbind (require (\<forall>k \<in> set (map fst doc). k \<in> set TOP_KEYS) (Blocked ''construction_schema_violation'')) (\<lambda>_.
       Inr doc)))))))"

definition construction_proof :: "guard_env \<Rightarrow> loaded \<Rightarrow> string \<Rightarrow> egress + jobj" where
  "construction_proof ge ld payload =
     sbind (broken (py_set (jget (ld_policy ld) ''controlled_vocabulary''))) (\<lambda>vocab.
     sbind (broken (allowed_buckets (ld_policy ld))) (\<lambda>buckets.
     case ge_loads ge payload of
       None \<Rightarrow> Inl (Blocked ''construction_parse_failed'')
     | Some j \<Rightarrow>
         sbind (check_document ld vocab buckets j) (\<lambda>doc.
           Inr [(''template_id'', jget doc ''template_id''),
                (''field_count'', JInt (int (length (arr_of (jget doc ''fields''))))),
                (''policy_version'', pol_version ld), (''policy_sha256'', pol_sha ld),
                (''input_sha256'', JStr (ge_sha ge (utf8 payload)))])))"

section \<open>The sanitiser\<close>

definition derivative_doc :: "loaded \<Rightarrow> json \<Rightarrow> json \<Rightarrow> json" where
  "derivative_doc ld template_id fs =
     JObj [(''schema'', JStr ''sanitized_derivative-v1''), (''policy_version'', pol_version ld),
           (''template_id'', template_id), (''fields'', fs)]"

definition sanitized_node :: "loaded \<Rightarrow> string \<Rightarrow> jobj \<Rightarrow> lnode" where
  "sanitized_node ld source proof_doc =
     \<lparr>ln_class = ''sanitized_ok'', ln_sources = [source], ln_prov = JNull, ln_escalated = False,
      ln_domain = JStr ''clinical'',
      ln_sanitizer = JObj [(''sanitizer_id'', JStr SANITIZER_ID), (''policy_version'', pol_version ld),
        (''policy_sha256'', pol_sha ld), (''construction_proof'', JObj proof_doc)],
      ln_derived = JNull, ln_hash = JNull\<rparr>"

definition sanitize_clinical ::
  "guard_env \<Rightarrow> loaded \<Rightarrow> json \<Rightarrow> json \<Rightarrow> string \<Rightarrow> json \<Rightarrow> lgraph \<Rightarrow> egress + string \<times> string \<times> lgraph" where
  "sanitize_clinical ge ld fs template_id source domain g =
     sbind (require (domain = JStr ''clinical'') (Blocked ''domain_unsupported'')) (\<lambda>_.
     sbind (require (lnode_at g source \<noteq> None) (Blocked ''lineage_source_missing'')) (\<lambda>_.
     sbind (broken (py_in template_id (jget (ld_policy ld) ''derivative_templates''))) (\<lambda>known.
     sbind (require known (Blocked ''construction_schema_violation'')) (\<lambda>_.
     let payload = ge_canonical ge (derivative_doc ld template_id fs);
         nid = ''san-'' @ take 16 (ge_sha ge (utf8 payload)) in
     sbind (construction_proof ge ld payload) (\<lambda>proof_doc.
     sbind (add_node nid (sanitized_node ld source proof_doc) g) (\<lambda>g'.
       Inr (payload, nid, g')))))))"

section \<open>What a proof shows\<close>

text \<open>Every field of the document holds values of the closed sets only.\<close>

definition closed_field :: "json list \<Rightarrow> json list \<Rightarrow> json \<Rightarrow> bool" where
  "closed_field vocab buckets j =
     (is_obj j \<and> fst ` set (obj_of j) \<subseteq> set FIELD_KEYS \<and>
      key_of (jget (obj_of j) ''code'') \<in> key_of ` set vocab \<and>
      (jhas (obj_of j) ''token'' \<longrightarrow> neutral_token_ok (py_str (jget (obj_of j) ''token''))) \<and>
      (jhas (obj_of j) ''offset'' \<longrightarrow> offset_ok (py_str (jget (obj_of j) ''offset''))) \<and>
      (jhas (obj_of j) ''bucket'' \<longrightarrow> JStr (py_str (jget (obj_of j) ''bucket'')) \<in> set buckets) \<and>
      (jhas (obj_of j) ''flag'' \<longrightarrow> jget (obj_of j) ''flag'' \<in> {JBool True, JBool False}))"

lemma check_field_closed: "check_field vocab buckets j = Inr u \<Longrightarrow> closed_field vocab buckets j"
  by (cases j) (auto simp: check_field_def closed_field_def sbind_Inr_iff permits_def in_hashed_def broken_def
      split: if_splits sum.splits)

lemma check_fields_closed:
  "map_exc (check_field vocab buckets) fs = Inr us \<Longrightarrow> list_all (closed_field vocab buckets) fs"
  by (induction fs arbitrary: us) (auto dest: check_field_closed split: sum.splits)

lemma check_document_closed:
  assumes "check_document ld vocab buckets j = Inr doc"
  shows "j = JObj doc" and "fst ` set doc \<subseteq> set TOP_KEYS"
    and "jget doc ''schema'' = JStr ''sanitized_derivative-v1''" and "jget doc ''policy_version'' = pol_version ld"
    and "py_in (jget doc ''template_id'') (jget (ld_policy ld) ''derivative_templates'') = Inr True"
    and "arr_of (jget doc ''fields'') \<noteq> []" and "list_all (closed_field vocab buckets) (arr_of (jget doc ''fields''))"
  using assms
  by (auto simp: check_document_def sbind_Inr_iff Let_def broken_def is_obj_iff dest: check_fields_closed
      split: sum.splits)

end
