(* ===== verification/Egress_Its.thy ===== *)
theory Egress_Its
  imports Egress_Policy
begin

text \<open>
  The length-delimited packet of the internal technical lane: a fixed scaffold and hash-bound components
  (\<open>register_its_scaffold\<close>, \<open>_its_frame\<close>, \<open>build_its_packet\<close>, \<open>verify_its_composition\<close> of
  \<open>tools/clearwright_egress_guard.py\<close>).

  The verifier's loop moves by the declared length, which \<open>int\<close> may read as negative, so it may not end:
  it is a partial function whose value is \<open>None\<close> where it does not return. Slices and searches take Python's
  negative indices.
\<close>

section \<open>Slices\<close>

definition norm_index :: "string \<Rightarrow> int \<Rightarrow> nat" where
  "norm_index s i = (if i < 0 then nat (i + int (length s)) else min (nat i) (length s))"

text \<open>\<open>s[i:j]\<close>.\<close>

definition py_slice :: "string \<Rightarrow> int \<Rightarrow> int \<Rightarrow> string" where
  "py_slice s i j = take (norm_index s j - norm_index s i) (drop (norm_index s i) s)"

text \<open>\<open>s.find(c, i)\<close> for one byte.\<close>

definition find_from :: "string \<Rightarrow> char \<Rightarrow> int \<Rightarrow> int option" where
  "find_from s c i =
     (let k = norm_index s i; p = takeWhile (\<lambda>x. x \<noteq> c) (drop k s) in
      if c \<in> set (drop k s) then Some (int (k + length p)) else None)"

text \<open>\<open>s.split(c)\<close> at one byte.\<close>

fun split_at :: "char \<Rightarrow> string \<Rightarrow> string list" where
  "split_at c [] = [[]]"
| "split_at c (x # s) =
     (if x = c then [] # split_at c s
      else case split_at c s of p # ps \<Rightarrow> (x # p) # ps | [] \<Rightarrow> [[x]])"

section \<open>Scaffolds and frames\<close>

definition SEP :: char where "SEP = CHR 0x1F"

definition NL :: char where "NL = CHR 0x0A"

definition ITS_MARK :: string where "ITS_MARK = ''CWITS'' @ [SEP]"

record scaffold =
  sc_text :: string
  sc_sha :: string

type_synonym scaffolds = "(string \<times> scaffold) list"

definition register_its_scaffold :: "guard_env \<Rightarrow> string \<Rightarrow> string \<Rightarrow> scaffolds \<Rightarrow> scaffolds" where
  "register_its_scaffold ge version t scs =
     AList.update version \<lparr>sc_text = t, sc_sha = ge_sha ge (utf8 t)\<rparr> scs"

definition its_scaffold_sha :: "scaffolds \<Rightarrow> string \<Rightarrow> string option" where
  "its_scaffold_sha scs version = map_option sc_sha (map_of scs version)"

definition its_frame :: "guard_env \<Rightarrow> string \<Rightarrow> string \<Rightarrow> string \<Rightarrow> string" where
  "its_frame ge kind ident t =
     (let b = utf8 t in
      ITS_MARK @ kind @ [SEP] @ ident @ [SEP] @ str_nat (length b) @ [SEP] @ ge_sha ge b @ [SEP, NL] @ t @ [NL])"

text \<open>The manifest; \<open>co_binding\<close> is the \<open>provider_binding\<close> that the engine adds, empty where absent.\<close>

record component =
  cm_id :: string
  cm_sha :: string

record composition =
  co_version :: string
  co_scaffold :: string
  co_components :: "component list"
  co_binding :: jobj

text \<open>\<open>components\<close> pairs an id with its text.\<close>

definition build_its_packet ::
  "guard_env \<Rightarrow> scaffolds \<Rightarrow> string \<Rightarrow> (string \<times> string) list \<Rightarrow> egress + string \<times> composition" where
  "build_its_packet ge scs version cs =
     (case map_of scs version of
        None \<Rightarrow> Inl (Blocked ''its_scaffold_stale'')
      | Some sc \<Rightarrow> Inr
          (its_frame ge ''scaffold'' version (sc_text sc) @
             concat (map (\<lambda>(i, t). its_frame ge ''component'' i t) cs),
           \<lparr>co_version = version, co_scaffold = sc_sha sc,
            co_components = map (\<lambda>(i, t). \<lparr>cm_id = i, cm_sha = ge_sha ge (utf8 t)\<rparr>) cs, co_binding = []\<rparr>))"

section \<open>Verification\<close>

record frame =
  fr_kind :: string
  fr_id :: string
  fr_sha :: string

text \<open>The header from the byte after the mark up to the line break at \<open>nl\<close>, as kind, id, length and hash.\<close>

definition read_header :: "string \<Rightarrow> egress + string \<times> string \<times> string \<times> string" where
  "read_header h =
     (case split_at SEP h of
        [kind, ident, len, sha, e] \<Rightarrow>
          if e = [] then Inr (utf8_replace kind, utf8_replace ident, len, utf8_replace sha)
          else Inl (Blocked ''its_component_mismatch'')
      | _ \<Rightarrow> Inl (Blocked ''its_component_mismatch''))"

text \<open>One turn of the loop: the frame at a position and the position after it.\<close>

definition its_frame_at :: "guard_env \<Rightarrow> string \<Rightarrow> int \<Rightarrow> egress + frame \<times> int" where
  "its_frame_at ge data i =
     (let bad = Blocked ''its_component_mismatch''; n = int (length data);
          j = i + int (length ITS_MARK) in
      sbind (require (py_slice data i j = ITS_MARK) bad) (\<lambda>_.
      case find_from data NL j of
        None \<Rightarrow> Inl bad
      | Some nl \<Rightarrow>
          sbind (read_header (py_slice data j nl)) (\<lambda>(kind, ident, len, sha).
          case parse_int len of
            None \<Rightarrow> Inl bad
          | Some blen \<Rightarrow>
              let cstart = nl + 1; cend = cstart + blen in
              sbind (require (cend \<le> n \<and> py_slice data cend (cend + 1) = [NL]) bad) (\<lambda>_.
              sbind (require (ge_sha ge (py_slice data cstart cend) = sha) bad) (\<lambda>_.
                Inr (\<lparr>fr_kind = kind, fr_id = ident, fr_sha = sha\<rparr>, cend + 1))))))"

partial_function (option) its_frames ::
  "guard_env \<Rightarrow> string \<Rightarrow> int \<Rightarrow> frame list \<Rightarrow> (egress + frame list) option" where
  "its_frames ge data i parsed =
     (if int (length data) \<le> i then Some (Inr parsed)
      else case its_frame_at ge data i of
        Inl e \<Rightarrow> Some (Inl e)
      | Inr (f, j) \<Rightarrow> its_frames ge data j (parsed @ [f]))"

declare its_frames.simps [code]

text \<open>The structure: one scaffold, then exactly the declared components in their order.\<close>

definition check_frames :: "scaffolds \<Rightarrow> composition \<Rightarrow> frame list \<Rightarrow> egress + string \<times> nat" where
  "check_frames scs mf fs =
     (case fs of
        [] \<Rightarrow> Inl (Blocked ''its_composition_unbound'')
      | s # cs \<Rightarrow>
          sbind (require (fr_kind s = ''scaffold'') (Blocked ''its_composition_unbound'')) (\<lambda>_.
          sbind (require (co_scaffold mf = fr_sha s \<and> its_scaffold_sha scs (fr_id s) = Some (fr_sha s))
            (Blocked ''its_scaffold_stale'')) (\<lambda>_.
          sbind (require (\<forall>f \<in> set cs. fr_kind f = ''component'') (Blocked ''its_component_mismatch'')) (\<lambda>_.
          sbind (require (map (\<lambda>f. (fr_id f, fr_sha f)) cs = map (\<lambda>c. (cm_id c, cm_sha c)) (co_components mf))
            (Blocked ''its_component_mismatch'')) (\<lambda>_.
            Inr (fr_id s, length cs))))))"

definition verify_its_composition ::
  "guard_env \<Rightarrow> scaffolds \<Rightarrow> string \<Rightarrow> composition \<Rightarrow> (egress + string \<times> nat) option" where
  "verify_its_composition ge scs packet mf =
     map_option (\<lambda>r. sbind r (check_frames scs mf)) (its_frames ge (utf8 packet) 0 [])"

end
