(* ===== verification/Egress_Dispatch.thy ===== *)
theory Egress_Dispatch
  imports Egress_Source Egress_Derivative Egress_Its
begin

text \<open>
  The dispatch boundary of the egress guard: the context that decides an outcome, the validation of the exact
  outbound bytes, and the two provider calls (\<open>EgressContext\<close>, \<open>_enforce\<close>, \<open>gpt_send\<close>,
  \<open>codex_launch\<close> of \<open>tools/clearwright_egress_guard.py\<close>), with the context that a council round builds
  (\<open>run_round\<close> of \<open>tools/clearwright_review_council.py\<close>).

  The wire and the child process are parameters; a provider call that the guard lets through is their value.
\<close>

section \<open>The context\<close>

record egress_ctx =
  cx_tier :: string
  cx_graph :: "lgraph option"
  cx_candidate :: "string option"
  cx_bindings :: "binding list"
  cx_require :: bool
  cx_lane :: string
  cx_its :: "composition option"

definition egress_context ::
  "string \<Rightarrow> lgraph option \<Rightarrow> string option \<Rightarrow> binding list \<Rightarrow> bool \<Rightarrow> string \<Rightarrow> composition option \<Rightarrow> egress + egress_ctx" where
  "egress_context tier graph cand bs req lane its =
     (if tier \<notin> {''standard'', ''sensitive'', ''internal_technical''} then Inl (Blocked ''context_missing'')
      else Inr \<lparr>cx_tier = tier, cx_graph = graph, cx_candidate = cand, cx_bindings = bs, cx_require = req,
        cx_lane = (if lane \<in> {''user'', ''internal_technical''} then lane else ''user''), cx_its = its\<rparr>)"

text \<open>The tier of a decision.\<close>

fun tier_of :: "egress_decision \<Rightarrow> string" where
  "tier_of SanitizedOk = ''sensitive''"
| "tier_of StandardOk = ''standard''"
| "tier_of ItsOk = ''internal_technical''"
| "tier_of LocalOnly = ''sensitive''"
| "tier_of EscalatedOk = ''sensitive''"
| "tier_of (DeclaredOk t) = t"

definition resolve :: "'a policy_id_scheme \<Rightarrow> egress_ctx \<Rightarrow> egress + egress_decision" where
  "resolve pol cx =
     (case (cx_graph cx, cx_candidate cx) of
        (Some g, Some c) \<Rightarrow>
          sbind (decide_outcome pol g c) (\<lambda>d.
            if cx_tier cx = ''sensitive'' \<and> tier_of d \<in> {''standard'', ''internal_technical''} then Inr EscalatedOk
            else if tier_of d = ''sensitive'' \<and> cx_tier cx \<in> {''standard'', ''internal_technical''}
              then Inl (Blocked ''sensitivity_downgrade_forbidden'')
            else if tier_of d = ''internal_technical'' \<and> cx_lane cx \<noteq> ''internal_technical''
              then Inl (Blocked ''its_lane_not_authorized'')
            else Inr d)
      | (g, _) \<Rightarrow>
          if cx_require cx then Inl (Blocked (if g = None then ''lineage_missing'' else ''candidate_missing''))
          else Inr (DeclaredOk (cx_tier cx)))"

text \<open>Re-hashing the bound sources: \<open>now\<close> gives the hash of a file, \<open>None\<close> where it cannot be read.\<close>

definition binding_path :: "binding \<Rightarrow> string option" where
  "binding_path b =
     (if bd_abspath b \<noteq> [] then Some (bd_abspath b)
      else if bd_repo b \<noteq> [] \<and> bd_rel b \<noteq> [] then Some (bd_repo b @ ''/'' @ bd_rel b) else None)"

fun verify_source_bindings :: "(string \<Rightarrow> string option) \<Rightarrow> binding list \<Rightarrow> egress + unit" where
  "verify_source_bindings now [] = Inr ()"
| "verify_source_bindings now (b # bs) =
     (if Option.bind (binding_path b) now = Some (bd_sha b) then verify_source_bindings now bs
      else Inl (Blocked ''source_mutated_after_verification''))"

section \<open>The canonical requests\<close>

text \<open>The fixed reviewer instructions are parameters: their text plays no part.\<close>

record instructions =
  in_sensitive :: string
  in_its_gpt :: string
  in_its_codex :: string

definition gpt_body :: "guard_env \<Rightarrow> string \<Rightarrow> json \<Rightarrow> string \<Rightarrow> json \<Rightarrow> string" where
  "gpt_body ge instruction model content cap =
     utf8 (ge_dumps ge (JObj [(''model'', model),
       (''input'', JArr [JObj [(''role'', JStr ''developer''), (''content'', JStr instruction)],
                         JObj [(''role'', JStr ''user''), (''content'', JStr content)]]),
       (''max_output_tokens'', cap)]))"

definition build_sensitive_gpt_body :: "guard_env \<Rightarrow> instructions \<Rightarrow> json \<Rightarrow> string \<Rightarrow> json \<Rightarrow> string" where
  "build_sensitive_gpt_body ge ins model content cap = gpt_body ge (in_sensitive ins) model content cap"

definition build_its_gpt_body :: "guard_env \<Rightarrow> instructions \<Rightarrow> json \<Rightarrow> string \<Rightarrow> json \<Rightarrow> string" where
  "build_its_gpt_body ge ins model content cap = gpt_body ge (in_its_gpt ins) model content cap"

definition BEGIN_BLOCK :: string where "BEGIN_BLOCK = ''BEGIN_DERIVATIVE'' @ [NL]"

definition END_BLOCK :: string where "END_BLOCK = NL # ''END_DERIVATIVE''"

definition build_sensitive_codex_prompt :: "instructions \<Rightarrow> string \<Rightarrow> string" where
  "build_sensitive_codex_prompt ins content = in_sensitive ins @ [NL] @ BEGIN_BLOCK @ content @ END_BLOCK @ [NL]"

definition build_its_codex_prompt :: "instructions \<Rightarrow> string \<Rightarrow> string" where
  "build_its_codex_prompt ins packet = in_its_codex ins @ [NL, NL] @ packet"

text \<open>The text before and after the first occurrence of a word.\<close>

fun cut_at :: "string \<Rightarrow> string \<Rightarrow> (string \<times> string) option" where
  "cut_at w [] = (if w = [] then Some ([], []) else None)"
| "cut_at w (c # s) =
     (if has_prefix w (c # s) then Some ([], drop (length w) (c # s))
      else map_option (\<lambda>(p, q). (c # p, q)) (cut_at w s))"

text \<open>\<open>re.findall\<close> of the shortest texts between the two block marks; \<open>n\<close> bounds the number of blocks.\<close>

fun blocks_upto :: "nat \<Rightarrow> string \<Rightarrow> string list" where
  "blocks_upto 0 s = []"
| "blocks_upto (Suc n) s =
     (case cut_at BEGIN_BLOCK s of
        None \<Rightarrow> []
      | Some (_, r) \<Rightarrow>
          (case cut_at END_BLOCK r of None \<Rightarrow> [] | Some (p, q) \<Rightarrow> p # blocks_upto n q))"

definition derivative_blocks :: "string \<Rightarrow> string list" where
  "derivative_blocks s = blocks_upto (length s) s"

text \<open>The user texts of a request body.\<close>

definition user_text :: "json \<Rightarrow> string list" where
  "user_text j =
     (case j of
        JObj it \<Rightarrow>
          if jget it ''role'' = JStr ''user''
          then (case jget it ''content'' of JStr s \<Rightarrow> [s] | _ \<Rightarrow> []) else []
      | _ \<Rightarrow> [])"

definition user_texts :: "json \<Rightarrow> egress + string list" where
  "user_texts body =
     sbind (broken (py_get body ''input'')) (\<lambda>inp.
     sbind (broken (py_iter (py_or inp (JArr [])))) (\<lambda>items. Inr (concat (map user_text items))))"

text \<open>The single user text of the outbound body.\<close>

definition single_user :: "guard_env \<Rightarrow> string \<Rightarrow> string \<Rightarrow> egress + jobj \<times> string" where
  "single_user ge why bytes =
     (case loads_bytes ge bytes of
        None \<Rightarrow> Inl (Blocked ''construction_parse_failed'')
      | Some body \<Rightarrow>
          sbind (user_texts body) (\<lambda>us.
            case us of [u] \<Rightarrow> Inr (obj_of body, u) | _ \<Rightarrow> Inl (Blocked why)))"

section \<open>Enforcement\<close>

datatype outbound = Body string | Prompt string

fun outbound_bytes :: "outbound \<Rightarrow> string" where
  "outbound_bytes (Body b) = b"
| "outbound_bytes (Prompt p) = utf8 p"

fun enforce_sensitive :: "guard_env \<Rightarrow> instructions \<Rightarrow> loaded \<Rightarrow> outbound \<Rightarrow> egress + unit" where
  "enforce_sensitive ge ins ld (Prompt p) =
     (case derivative_blocks p of
        [b] \<Rightarrow>
          sbind (construction_proof ge ld b) (\<lambda>_.
            require (p = build_sensitive_codex_prompt ins b) (Blocked ''sensitive_requires_derivative''))
      | _ \<Rightarrow> Inl (Blocked ''sensitive_requires_derivative''))"
| "enforce_sensitive ge ins ld (Body bytes) =
     sbind (single_user ge ''sensitive_requires_derivative'' bytes) (\<lambda>(body, u).
     sbind (construction_proof ge ld u) (\<lambda>_.
       require (bytes = build_sensitive_gpt_body ge ins (jget body ''model'') u (jget body ''max_output_tokens''))
         (Blocked ''sensitive_requires_derivative'')))"

text \<open>The packet of an internal technical request, \<open>None\<close> where its verification does not return.\<close>

fun its_packet_of ::
  "guard_env \<Rightarrow> scaffolds \<Rightarrow> instructions \<Rightarrow> composition \<Rightarrow> outbound \<Rightarrow> (egress + string) option" where
  "its_packet_of ge scs ins mf (Prompt p) =
     (let pre = in_its_codex ins @ [NL, NL]; packet = drop (length pre) p in
      if \<not> has_prefix pre p then Some (Inl (Blocked ''its_composition_unbound''))
      else map_option (\<lambda>r. sbind r (\<lambda>_.
        sbind (require (p = build_its_codex_prompt ins packet) (Blocked ''its_composition_unbound'')) (\<lambda>_. Inr packet)))
        (verify_its_composition ge scs packet mf))"
| "its_packet_of ge scs ins mf (Body bytes) =
     (case single_user ge ''its_composition_unbound'' bytes of
        Inl e \<Rightarrow> Some (Inl e)
      | Inr (_, packet) \<Rightarrow>
          map_option (\<lambda>r. sbind r (\<lambda>_.
            sbind (require (bytes = build_its_gpt_body ge ins (jget (co_binding mf) ''gpt_model'') packet
                     (jget (co_binding mf) ''max_output_tokens'')) (Blocked ''its_composition_unbound'')) (\<lambda>_. Inr packet)))
            (verify_its_composition ge scs packet mf))"

text \<open>Each declared component is a node the candidate is made of, with the declared content.\<close>

definition bind_component :: "lgraph \<Rightarrow> string list \<Rightarrow> component \<Rightarrow> egress + unit" where
  "bind_component g reach c =
     (case lnode_at g (cm_id c) of
        None \<Rightarrow> Inl (Blocked ''its_component_unbound'')
      | Some n \<Rightarrow>
          if cm_id c \<notin> set reach then Inl (Blocked ''its_component_unbound'')
          else sbind (broken (node_content_hash n)) (\<lambda>h.
            require (h = JStr (cm_sha c)) (Blocked ''its_component_mismatch'')))"

definition bind_components :: "egress_ctx \<Rightarrow> composition \<Rightarrow> egress + unit" where
  "bind_components cx mf =
     (case (cx_graph cx, cx_candidate cx) of
        (Some g, Some c) \<Rightarrow>
          sbind (map_exc (bind_component g (reachable_from g c)) (co_components mf)) (\<lambda>_. Inr ())
      | _ \<Rightarrow> Inl (Blocked ''its_composition_unbound''))"

definition enforce_its ::
  "guard_env \<Rightarrow> scaffolds \<Rightarrow> instructions \<Rightarrow> egress_ctx \<Rightarrow> outbound \<Rightarrow> (egress + unit) option" where
  "enforce_its ge scs ins cx out =
     (case cx_its cx of
        None \<Rightarrow> Some (Inl (Blocked ''its_composition_unbound''))
      | Some mf \<Rightarrow> map_option (\<lambda>r. sbind r (\<lambda>_. bind_components cx mf)) (its_packet_of ge scs ins mf out))"

record guard =
  gd_env :: guard_env
  gd_scaffolds :: scaffolds
  gd_instructions :: instructions
  gd_loaded :: loaded
  gd_now :: "string \<Rightarrow> string option"

text \<open>The checks that come before those of the tier.\<close>

definition enforce_first :: "guard \<Rightarrow> egress_ctx \<Rightarrow> outbound \<Rightarrow> egress + egress_decision" where
  "enforce_first gd cx out =
     sbind (resolve (gd_loaded gd) cx) (\<lambda>d.
     sbind (require (d \<noteq> LocalOnly) (Blocked ''domain_unsupported'')) (\<lambda>_.
     sbind (verify_source_bindings (gd_now gd) (cx_bindings cx)) (\<lambda>_.
     sbind (final_scan (gd_env gd) (gd_loaded gd) (outbound_bytes out)) (\<lambda>fs.
     sbind (require (fs = []) (Blocked ''tripwire_hit'')) (\<lambda>_. Inr d)))))"

definition enforce :: "guard \<Rightarrow> egress_ctx option \<Rightarrow> outbound \<Rightarrow> (egress + egress_decision) option" where
  "enforce gd cx out =
     (case cx of
        None \<Rightarrow> Some (Inl (Blocked ''context_missing''))
      | Some c \<Rightarrow>
          (case enforce_first gd c out of
             Inl e \<Rightarrow> Some (Inl e)
           | Inr d \<Rightarrow>
               if tier_of d = ''sensitive''
               then Some (sbind (enforce_sensitive (gd_env gd) (gd_instructions gd) (gd_loaded gd) out) (\<lambda>_. Inr d))
               else if tier_of d = ''internal_technical''
               then map_option (\<lambda>r. sbind r (\<lambda>_. Inr d))
                 (enforce_its (gd_env gd) (gd_scaffolds gd) (gd_instructions gd) c out)
               else Some (Inr d)))"


section \<open>The provider calls\<close>

text \<open>A live call loads the policy itself; the registered adapters and the shipped scaffolds are the module's.\<close>

record guard_world =
  gw_env :: guard_env
  gw_local :: local_env
  gw_policy :: policy_file
  gw_scaffolds :: scaffolds
  gw_instructions :: instructions
  gw_now :: "string \<Rightarrow> string option"
  gw_callers :: "string list"

definition register_adapter :: "string \<Rightarrow> guard_world \<Rightarrow> guard_world" where
  "register_adapter name w = w\<lparr>gw_callers := List.insert name (gw_callers w)\<rparr>"

definition live_guard :: "guard_world \<Rightarrow> string \<Rightarrow> egress + guard" where
  "live_guard w caller =
     sbind (require (caller \<in> set (gw_callers w)) (Blocked ''caller_not_registered'')) (\<lambda>_.
     sbind (load_policy (gw_env w) (gw_local w) None (gw_policy w)) (\<lambda>ld.
       Inr \<lparr>gd_env = gw_env w, gd_scaffolds = gw_scaffolds w, gd_instructions = gw_instructions w, gd_loaded = ld,
         gd_now = gw_now w\<rparr>))"

text \<open>The decision of a live call over the exact outbound bytes.\<close>

definition live_enforce :: "guard_world \<Rightarrow> string \<Rightarrow> egress_ctx option \<Rightarrow> outbound \<Rightarrow> (egress + egress_decision) option" where
  "live_enforce w caller cx out =
     (case live_guard w caller of Inl e \<Rightarrow> Some (Inl e) | Inr gd \<Rightarrow> enforce gd cx out)"

definition resolve_provider_key :: "string option \<Rightarrow> string option \<Rightarrow> string option" where
  "resolve_provider_key env_key user_key =
     (case env_key of Some k \<Rightarrow> if k \<noteq> [] then Some k else user_key | None \<Rightarrow> user_key)"

definition usable_key :: "string option \<Rightarrow> bool" where
  "usable_key k = (case k of None \<Rightarrow> False | Some s \<Rightarrow> \<not> blank s)"

definition provider_key_status :: "string option \<Rightarrow> string option \<Rightarrow> bool \<times> string option" where
  "provider_key_status env_key user_key =
     (if usable_key env_key then (True, Some ''process_env'')
      else if usable_key (resolve_provider_key env_key user_key) then (True, Some ''windows_user_scope'')
      else (False, None))"

definition RESPONSES_URL :: string where "RESPONSES_URL = ''https://api.openai.com/v1/responses''"

definition gpt_send ::
  "guard_world \<Rightarrow> string option \<Rightarrow> (string \<Rightarrow> (string \<times> string) list \<Rightarrow> string \<Rightarrow> 'r) \<Rightarrow> string \<Rightarrow> egress_ctx option \<Rightarrow>
     string \<Rightarrow> (egress + 'r) option" where
  "gpt_send w key send caller cx body =
     map_option (\<lambda>r. sbind r (\<lambda>_.
       if \<not> usable_key key then Inl (Blocked ''provider_key_missing'')
       else Inr (send RESPONSES_URL
         [(''Authorization'', ''Bearer '' @ strip (the key)), (''Content-Type'', ''application/json'')] body)))
       (live_enforce w caller cx (Body body))"

definition TREE_MARKERS :: "string list" where
  "TREE_MARKERS = [''review_artifacts'', ''egress_local'', CHR 0x5C # ''runtime'' @ [CHR 0x5C], ''/runtime/'']"

definition codex_launch ::
  "guard_world \<Rightarrow> (string \<Rightarrow> 'r) \<Rightarrow> string \<Rightarrow> egress_ctx option \<Rightarrow> string \<Rightarrow> (egress + 'r) option" where
  "codex_launch w run caller cx prompt =
     map_option (\<lambda>r. sbind r (\<lambda>_.
       if list_ex (\<lambda>m. contains m (lower prompt)) TREE_MARKERS then Inl (Blocked ''provenance_outside_allowlist'')
       else Inr (run (utf8 prompt))))
       (live_enforce w caller cx (Prompt prompt))"

text \<open>The readiness report: the first failing check, \<open>None\<close> when the guard is ready. The adapters report
  whether they are guarded, \<open>None\<close> where their import fails.\<close>

definition PROBE :: string where
  "PROBE = CHR ''{'' # CHR 0x22 # ''probe'' @ [CHR 0x22, CHR '':'', CHR '' '', CHR 0x22] @ ''clean'' @ [CHR 0x22, CHR ''}'']"

definition probe_check :: "guard_env \<Rightarrow> loaded \<Rightarrow> egress option" where
  "probe_check ge ld =
     (case final_scan ge ld PROBE of
        Inl e \<Rightarrow> Some e
      | Inr fs \<Rightarrow> if fs = [] then None else Some (Blocked ''probe_not_clear''))"

definition adapter_check :: "bool option \<Rightarrow> egress option" where
  "adapter_check wired =
     (case wired of
        None \<Rightarrow> Some (Blocked ''import_failed'')
      | Some b \<Rightarrow> if b then None else Some (Blocked ''unguarded_adapter_active''))"

definition self_test :: "guard_world \<Rightarrow> bool option \<Rightarrow> (string \<times> egress option) list" where
  "self_test w wired =
     (case load_policy (gw_env w) (gw_local w) None (gw_policy w) of
        Inl e \<Rightarrow> [(''policy'', Some e)]
      | Inr ld \<Rightarrow>
          [(''policy'', None), (''final_scan'', probe_check (gw_env w) ld), (''adapters_guarded'', adapter_check wired)])"

definition guard_ready :: "(string \<times> egress option) list \<Rightarrow> bool" where
  "guard_ready report = list_all (\<lambda>c. snd c = None) report"

section \<open>The context of a council round\<close>

text \<open>What a stored council says of its lineage, with the dispatched content's hash, the inlined artifacts and
  whether the round carries earlier findings.\<close>

record round_request =
  dr_sensitivity :: json
  dr_lineage :: json
  dr_candidate :: "string option"
  dr_stamp :: json
  dr_bindings :: "binding list"
  dr_incoming :: string
  dr_artifacts :: "string list"
  dr_augmented :: bool

definition round_graph :: "round_request \<Rightarrow> egress + lgraph option" where
  "round_graph r =
     (if truthy (dr_lineage r)
      then sbind (broken (py_iter (dr_lineage r))) (\<lambda>rs. sbind (from_records rs []) (\<lambda>g. Inr (Some g)))
      else Inr None)"

definition unproven_node :: "string \<Rightarrow> lnode" where
  "unproven_node why = raw_node (JObj [(''class'', JStr ''sensitive_source''), (''reason'', JStr why)])"

definition artifact_node :: "guard_env \<Rightarrow> string \<Rightarrow> string" where
  "artifact_node ge a = ''art-'' @ short_sha ge a"

text \<open>Every inlined artifact and the augmentation become sensitive sources of the candidate.\<close>

definition extra_sources :: "guard_env \<Rightarrow> round_request \<Rightarrow> (string \<times> lnode) list" where
  "extra_sources ge r =
     map (\<lambda>a. (artifact_node ge a, unproven_node ''inlined_artifact'')) (dr_artifacts r) @
     (if dr_augmented r then [(''round-augmentation'', unproven_node ''round_augmentation'')] else [])"

definition fold_in :: "(string \<times> lnode) list \<Rightarrow> string \<Rightarrow> lgraph \<Rightarrow> lgraph" where
  "fold_in extra cand g =
     (let g' = fold (\<lambda>(i, n). AList.update i n) extra g in
      if extra = [] then g
      else case lnode_at g' cand of
        None \<Rightarrow> AList.update cand (machine_node (map fst extra) JNull) g'
      | Some n \<Rightarrow> AList.update cand (machine_node (ln_sources n @ map fst extra) (ln_domain n)) g')"

definition stale_content :: "round_request \<Rightarrow> bool" where
  "stale_content r = (\<not> truthy (dr_stamp r) \<or> dr_stamp r \<noteq> JStr (dr_incoming r))"

definition round_context :: "guard_env \<Rightarrow> round_request \<Rightarrow> egress + egress_ctx" where
  "round_context ge r =
     sbind (round_graph r) (\<lambda>g.
       let declared = (if dr_sensitivity r = JStr ''sensitive'' then ''sensitive'' else ''standard'');
           tier = (if g \<noteq> None \<and> stale_content r then ''sensitive'' else declared);
           g' = (case (g, dr_candidate r) of
                   (Some h, Some c) \<Rightarrow> Some (fold_in (extra_sources ge r) c h)
                 | _ \<Rightarrow> g)
       in egress_context tier g' (dr_candidate r) (dr_bindings r) True ''user'' None)"

text \<open>The tier that decides what the conversation shows of the round.\<close>

definition effective_tier :: "'a policy_id_scheme \<Rightarrow> egress_ctx \<Rightarrow> pyexc + string" where
  "effective_tier pol cx =
     (case resolve pol cx of
        Inr d \<Rightarrow> Inr (tier_of d)
      | Inl (Blocked _) \<Rightarrow> Inr ''sensitive''
      | Inl (Broken e) \<Rightarrow> Inl e)"

end
