(* ===== verification/Its_Registry.thy ===== *)
theory Its_Registry
  imports Egress_Dispatch
begin

text \<open>
  The registry of derived artifacts of the internal technical lane (\<open>tools/clearwright_its_artifacts.py\<close>) and the
  assembly of a round's packet from it (\<open>run_round\<close> of \<open>tools/clearwright_review_council.py\<close>).

  One council's registry is a file per artifact and an index. A record write or an index write may raise; the
  exception is \<open>OSError\<close>, also where it is the refusal of the maintenance flag. The clock is a parameter, and so is
  the text of a round's summary, which formats floats.
\<close>

section \<open>Records\<close>

definition KIND_SHORT :: "(string \<times> string) list" where
  "KIND_SHORT = [(''gpt_finding'', ''gptf''), (''codex_finding'', ''cdxf''), (''reconciliation'', ''recon''),
     (''round_summary'', ''rsum'')]"

text \<open>\<open>ds_files\<close> is the parsed record of an id, \<open>None\<close> where the file is absent or unreadable.\<close>

record derived_store =
  ds_files :: "string \<Rightarrow> json option"
  ds_index :: "json option"

definition read_derived_index :: "derived_store \<Rightarrow> json list" where
  "read_derived_index s =
     (case ds_index s of
        Some (JObj ob) \<Rightarrow> if is_arr (jget ob ''artifacts'') then arr_of (jget ob ''artifacts'') else []
      | _ \<Rightarrow> [])"

definition index_object :: "derived_store \<Rightarrow> jobj" where
  "index_object s =
     (case ds_index s of
        Some (JObj ob) \<Rightarrow> if is_arr (jget ob ''artifacts'') then ob else [(''artifacts'', JArr [])]
      | _ \<Rightarrow> [(''artifacts'', JArr [])])"

datatype write_fault = NoFault | RecordFault | IndexFault

definition persist :: "write_fault \<Rightarrow> string \<Rightarrow> json \<Rightarrow> derived_store \<Rightarrow> (egress + unit) \<times> derived_store" where
  "persist fault aid rec s =
     (if fault = RecordFault then (Inl (Broken OSError), s)
      else let s' = s\<lparr>ds_files := (ds_files s)(aid \<mapsto> rec)\<rparr> in
        if JStr aid \<in> set (read_derived_index s) then (Inr (), s')
        else if fault = IndexFault then (Inl (Broken OSError), s')
        else (Inr (), s'\<lparr>ds_index := Some (JObj (jput ''artifacts'' (JArr (read_derived_index s @ [JStr aid])) (index_object s)))\<rparr>))"

text \<open>\<open>_scan\<close>: the look-alike category alone is advisory.\<close>

definition scan_content :: "guard_env \<Rightarrow> loaded \<Rightarrow> string \<Rightarrow> bool \<times> findings" where
  "scan_content ge ld t =
     (let fs = snd (redact_for_persistence ge ld t) in (filter (\<lambda>f. fst f \<noteq> ''unicode_confusable'') fs = [], fs))"

record derived_args =
  da_council :: string
  da_kind :: string
  da_producer :: string
  da_round :: nat
  da_phase :: json
  da_content :: string
  da_scaffold :: json
  da_sources :: "json list"

definition content_sha :: "guard_env \<Rightarrow> string \<Rightarrow> string" where
  "content_sha ge t = ge_sha ge (utf8 t)"

definition two_digits :: "nat \<Rightarrow> string" where
  "two_digits n = (if n < 10 then CHR ''0'' # str_nat n else str_nat n)"

definition artifact_id :: "guard_env \<Rightarrow> string \<Rightarrow> nat \<Rightarrow> string \<Rightarrow> string" where
  "artifact_id ge short n t = ''its-'' @ short @ ''-r'' @ two_digits n @ ''-'' @ take 12 (content_sha ge t)"

definition derived_record :: "guard_env \<Rightarrow> loaded \<Rightarrow> string \<Rightarrow> string \<Rightarrow> derived_args \<Rightarrow> jobj" where
  "derived_record ge ld now aid a =
     (let (passed, counts) = scan_content ge ld (da_content a) in
      [(''artifact_id'', JStr aid), (''kind'', JStr (da_kind a)), (''producer'', JStr (da_producer a)),
       (''council_id'', JStr (da_council a)), (''round'', JInt (int (da_round a))), (''phase'', da_phase a),
       (''policy_version'', pol_version ld), (''policy_sha256'', pol_sha ld), (''scaffold_version'', da_scaffold a),
       (''content_sha256'', JStr (content_sha ge (da_content a))),
       (''scan'', JObj [(''passed'', JBool passed), (''category_counts'', JObj (map (\<lambda>(k, n). (k, JInt (int n))) counts))]),
       (''sensitivity_result'', JStr (if passed then ''internal_technical_standard'' else ''sensitive'')),
       (''source_ids'', JArr (da_sources a)), (''created_at'', JStr now)] @
      (if passed then [(''content'', JStr (da_content a))] else []))"

definition register_derived ::
  "guard_env \<Rightarrow> loaded \<Rightarrow> write_fault \<Rightarrow> string \<Rightarrow> derived_args \<Rightarrow> derived_store \<Rightarrow> (egress + json) \<times> derived_store" where
  "register_derived ge ld fault now a s =
     (case map_of KIND_SHORT (da_kind a) of
        None \<Rightarrow> (Inl (Blocked ''its_component_mismatch''), s)
      | Some short \<Rightarrow>
          let aid = artifact_id ge short (da_round a) (da_content a) in
          case ds_files s aid of
            Some existing \<Rightarrow> (Inr existing, s)
          | None \<Rightarrow>
              let rec = JObj (derived_record ge ld now aid a) in
              case persist fault aid rec s of
                (Inl e, s') \<Rightarrow> (Inl e, s')
              | (Inr _, s') \<Rightarrow> (Inr rec, s'))"

text \<open>\<open>(rec.get("scan") or {}).get("passed") is True\<close>.\<close>

definition scan_passed :: "json \<Rightarrow> pyexc + bool" where
  "scan_passed rec =
     sbind (py_get rec ''scan'') (\<lambda>sc. sbind (py_get (py_or sc (JObj [])) ''passed'') (\<lambda>p. Inr (p = JBool True)))"

definition verify_for_reuse :: "guard_env \<Rightarrow> loaded \<Rightarrow> derived_store \<Rightarrow> string \<Rightarrow> egress + json" where
  "verify_for_reuse ge ld s aid =
     (case ds_files s aid of
        None \<Rightarrow> Inl (Blocked ''its_component_missing'')
      | Some rec \<Rightarrow>
          sbind (broken (scan_passed rec)) (\<lambda>passed.
          sbind (require passed (Blocked ''its_generated_scan_failed'')) (\<lambda>_.
          case jget (obj_of rec) ''content'' of
            JStr t \<Rightarrow>
              sbind (require (JStr (content_sha ge t) = jget (obj_of rec) ''content_sha256'')
                (Blocked ''its_component_mismatch'')) (\<lambda>_.
              sbind (require (fst (scan_content ge ld t)) (Blocked ''its_generated_scan_failed'')) (\<lambda>_. Inr rec))
          | _ \<Rightarrow> Inl (Blocked ''its_component_missing''))))"

section \<open>What the registry keeps\<close>

text \<open>A stored record is content-free unless its content passed the scan, and then it is bound to its hash.\<close>

definition derived_ok :: "guard_env \<Rightarrow> string \<Rightarrow> json \<Rightarrow> bool" where
  "derived_ok ge aid rec =
     (\<exists>ob. rec = JObj ob \<and> jget ob ''artifact_id'' = JStr aid \<and>
        (if scan_passed rec = Inr True
         then \<exists>t ld. jget ob ''content'' = JStr t \<and> jget ob ''content_sha256'' = JStr (content_sha ge t) \<and>
                jget ob ''policy_sha256'' = pol_sha ld \<and> fst (scan_content ge ld t)
         else \<not> jhas ob ''content''))"

definition store_clean :: "guard_env \<Rightarrow> derived_store \<Rightarrow> bool" where
  "store_clean ge s = (\<forall>aid rec. ds_files s aid = Some rec \<longrightarrow> derived_ok ge aid rec)"

lemma derived_record_ok: "derived_ok ge aid (JObj (derived_record ge ld now aid a))"
proof (cases "scan_content ge ld (da_content a)")
  case (Pair p fs)
  then show ?thesis
    by (auto simp: derived_ok_def derived_record_def scan_passed_def py_or_def jget_Cons jget_Nil jhas_def
        intro!: exI [of _ ld])
qed

lemma register_keeps_clean:
  "store_clean ge s \<Longrightarrow> store_clean ge (snd (register_derived ge ld fault now a s))"
  using derived_record_ok [of ge _ ld now a]
  by (auto simp: register_derived_def persist_def store_clean_def Let_def split: option.splits)


text \<open>Registering settles an id: whatever the outcome of later registrations of the same content, the record and the
  store stay as they are.\<close>

lemma register_settles:
  assumes "register_derived ge ld fault now a s = (Inr rec, s')"
  shows "register_derived ge ld' fault' now' a s' = (Inr rec, s')"
  using assms
  by (auto simp: register_derived_def persist_def Let_def split: option.splits sum.splits prod.splits if_splits)

text \<open>A fresh clean artifact can be reused under the policy it was scanned with.\<close>

lemma fresh_artifact_reusable:
  assumes "map_of KIND_SHORT (da_kind a) = Some short"
    and "aid = artifact_id ge short (da_round a) (da_content a)" and "ds_files s aid = None"
    and "register_derived ge ld fault now a s = (Inr rec, s')" and "fst (scan_content ge ld (da_content a))"
  shows "verify_for_reuse ge ld s' aid = Inr rec"
proof -
  have rec: "rec = JObj (derived_record ge ld now aid a)" and f: "ds_files s' aid = Some rec"
    using assms(1-4)
    by (auto simp: register_derived_def persist_def Let_def split: sum.splits prod.splits if_splits)
  obtain fs where "scan_content ge ld (da_content a) = (True, fs)" using assms(5) by (metis prod.collapse)
  then show ?thesis
    by (simp add: verify_for_reuse_def f scan_passed_def broken_def py_or_def)
       (simp add: rec derived_record_def jget_Cons py_or_def)
qed

text \<open>What is reused was scanned clean, now and under its recorded hash.\<close>

lemma reused_is_scanned:
  "verify_for_reuse ge ld s aid = Inr rec \<Longrightarrow>
     ds_files s aid = Some rec \<and> scan_passed rec = Inr True \<and>
     (\<exists>t. jget (obj_of rec) ''content'' = JStr t \<and> jget (obj_of rec) ''content_sha256'' = JStr (content_sha ge t) \<and>
        fst (scan_content ge ld t))"
  by (auto simp: verify_for_reuse_def sbind_Inr_iff broken_def split: option.splits sum.splits json.splits)

text \<open>An index write that fails leaves the artifact out of the index for good: registering it again returns the
  stored record before the index is read.\<close>

lemma unindexed_stays_unindexed:
  assumes "register_derived ge ld IndexFault now a s = (Inl e, s')" and "map_of KIND_SHORT (da_kind a) = Some short"
    and "register_derived ge ld NoFault now' a s' = (r, s'')"
  shows "s'' = s' \<and> JStr (artifact_id ge short (da_round a) (da_content a)) \<notin> set (read_derived_index s'')"
  using assms
  by (auto simp: register_derived_def persist_def Let_def read_derived_index_def split: option.splits sum.splits prod.splits if_splits)

end
