(* ===== verification/Its_Assembly.thy ===== *)
theory Its_Assembly
  imports Its_Registry
begin

text \<open>
  The packet of an internal technical round (the lane's branch of \<open>run_round\<close> of
  \<open>tools/clearwright_review_council.py\<close>): earlier findings are verified and folded into scanned summaries, the
  lineage is extended by them, and the candidate is rebound over everything the packet holds.
\<close>

section \<open>Steps over the registry\<close>

text \<open>A refusal ends the round with its reason; any other failure escapes.\<close>

datatype its_stop = Refused string | Failed egress

type_synonym 'a its = "derived_store \<Rightarrow> (its_stop + 'a) \<times> derived_store"

definition ireturn :: "'a \<Rightarrow> 'a its" where
  "ireturn x s = (Inr x, s)"

definition istop :: "its_stop \<Rightarrow> 'a its" where
  "istop e s = (Inl e, s)"

definition ibind :: "'a its \<Rightarrow> ('a \<Rightarrow> 'b its) \<Rightarrow> 'b its" where
  "ibind m f s = (case m s of (Inl e, s') \<Rightarrow> (Inl e, s') | (Inr x, s') \<Rightarrow> f x s')"

definition ilift :: "egress + 'a \<Rightarrow> 'a its" where
  "ilift r s = (case r of Inl e \<Rightarrow> (Inl (Failed e), s) | Inr x \<Rightarrow> (Inr x, s))"

definition irequire :: "bool \<Rightarrow> string \<Rightarrow> unit its" where
  "irequire b why s = (if b then (Inr (), s) else (Inl (Refused why), s))"

text \<open>A check of the guard whose refusal is the round's.\<close>

definition iguard :: "(derived_store \<Rightarrow> egress + 'a) \<Rightarrow> 'a its" where
  "iguard f s =
     (case f s of
        Inl (Blocked why) \<Rightarrow> (Inl (Refused why), s)
      | Inl e \<Rightarrow> (Inl (Failed e), s)
      | Inr x \<Rightarrow> (Inr x, s))"

section \<open>The round\<close>

record its_env =
  ie_guard :: guard_env
  ie_loaded :: loaded
  ie_scaffolds :: scaffolds
  ie_fault :: "string \<Rightarrow> write_fault"
  ie_now :: string
  ie_summary :: "json \<Rightarrow> json \<Rightarrow> json \<Rightarrow> json option \<Rightarrow> pyexc + string"

record its_round =
  ir_council :: string
  ir_phase :: json
  ir_artifacts :: "string list"
  ir_profile :: json
  ir_stamp :: json
  ir_lineage :: json
  ir_candidate :: "string option"
  ir_bindings :: "binding list"
  ir_context :: string
  ir_prior :: "json list"
  ir_model :: json

text \<open>The names of the two fixed scaffolds.\<close>

definition ITS_ROUND1 :: string where "ITS_ROUND1 = ''cw-its-round1/1.0.0''"

definition ITS_FOLLOWUP :: string where "ITS_FOLLOWUP = ''cw-its-followup/1.0.0''"

definition scaffold_id :: "json \<Rightarrow> string" where
  "scaffold_id ver = ''scaffold-'' @ py_str ver"

definition put_node :: "string \<Rightarrow> lnode \<Rightarrow> lgraph \<Rightarrow> lgraph" where
  "put_node i n g = AList.update i n g"

definition scaffold_node :: "its_env \<Rightarrow> json \<Rightarrow> lgraph \<Rightarrow> lgraph" where
  "scaffold_node env ver g =
     (if lnode_at g (scaffold_id ver) \<noteq> None then g
      else put_node (scaffold_id ver) (raw_node (JObj [(''class'', JStr ''fixed_scaffold''),
        (''version'', JStr (py_str ver)), (''sha256'', opt_str (its_scaffold_sha (ie_scaffolds env) (py_str ver)))])) g)"

definition derived_node :: "its_env \<Rightarrow> its_round \<Rightarrow> json \<Rightarrow> json \<Rightarrow> lgraph \<Rightarrow> egress + lgraph" where
  "derived_node env r rec rd_round g =
     sbind (text_item rec ''artifact_id'') (\<lambda>aid.
     sbind (source_texts (jget (obj_of rec) ''source_ids'')) (\<lambda>src.
     sbind (broken (py_item rec ''content_sha256'')) (\<lambda>sha.
       Inr (put_node aid ((machine_node src JNull)\<lparr>ln_derived := JObj
         [(''content_hash'', sha), (''scan_passed'', JBool True), (''producer'', jget (obj_of rec) ''producer''),
          (''council_id'', JStr (ir_council r)), (''round'', rd_round),
          (''policy_version'', jget (obj_of rec) ''policy_version''),
          (''scaffold_version'', jget (obj_of rec) ''scaffold_version'')]\<rparr>) g))))"

text \<open>The recorded finding ids of an earlier round.\<close>

definition finding_id :: "json \<Rightarrow> string \<Rightarrow> json its" where
  "finding_id fids k =
     ibind (ilift (broken (py_get fids k))) (\<lambda>v.
     ibind (irequire (truthy v) ''prior round has no registered finding artifacts; unregistered augmentation is not dispatchable'') (\<lambda>_.
       ireturn v))"

definition reusable :: "its_env \<Rightarrow> json \<Rightarrow> json its" where
  "reusable env aid =
     (case aid of
        JStr a \<Rightarrow> iguard (\<lambda>s. verify_for_reuse (ie_guard env) (ie_loaded env) s a)
      | _ \<Rightarrow> istop (Failed (Broken TypeError)))"

definition recorded_content :: "its_env \<Rightarrow> json \<Rightarrow> json its" where
  "recorded_content env rec =
     (case jget (obj_of rec) ''content'' of
        JStr t \<Rightarrow> (case ge_loads (ie_guard env) t of None \<Rightarrow> istop (Failed (Broken ValueError)) | Some j \<Rightarrow> ireturn j)
      | _ \<Rightarrow> istop (Failed (Broken TypeError)))"

definition prior_reconciliation :: "its_env \<Rightarrow> json \<Rightarrow> json \<Rightarrow> json option its" where
  "prior_reconciliation env rd fids =
     (if jget (obj_of rd) ''reconciliation'' = JNull then ireturn None
      else ibind (ilift (broken (py_get fids ''reconciliation''))) (\<lambda>v.
        ibind (irequire (truthy v)
          ''prior round reconciliation is not a registered artifact; unregistered augmentation is not dispatchable'') (\<lambda>_.
          ibind (reusable env v) (\<lambda>rec. ireturn (Some rec)))))"

definition iregister :: "its_env \<Rightarrow> derived_args \<Rightarrow> json its" where
  "iregister env a s =
     (case register_derived (ie_guard env) (ie_loaded env) (ie_fault env (da_content a)) (ie_now env) a s of
        (Inl e, s') \<Rightarrow> (Inl (Failed e), s')
      | (Inr rec, s') \<Rightarrow> (Inr rec, s'))"

definition register_summary :: "its_env \<Rightarrow> its_round \<Rightarrow> json \<Rightarrow> json \<Rightarrow> string \<Rightarrow> json list \<Rightarrow> json its" where
  "register_summary env r rd_no scaffold t src =
     ibind (ilift (broken (to_int rd_no))) (\<lambda>n.
     ibind (iregister env \<lparr>da_council = ir_council r, da_kind = ''round_summary'', da_producer = ''engine'',
       da_round = nat n, da_phase = ir_phase r, da_content = t, da_scaffold = scaffold, da_sources = src\<rparr>) (\<lambda>rec.
     ibind (ilift (broken (scan_passed rec))) (\<lambda>passed.
     ibind (irequire passed ''its_generated_scan_failed'') (\<lambda>_. ireturn rec))))"

text \<open>One earlier round: its component, and the graph with its nodes.\<close>

definition opt_list :: "'a option \<Rightarrow> 'a list" where
  "opt_list x = (case x of None \<Rightarrow> [] | Some y \<Rightarrow> [y])"

fun derived_nodes :: "its_env \<Rightarrow> its_round \<Rightarrow> json \<Rightarrow> json list \<Rightarrow> lgraph \<Rightarrow> egress + lgraph" where
  "derived_nodes env r rd_no [] g = Inr g"
| "derived_nodes env r rd_no (rec # recs) g = sbind (derived_node env r rec rd_no g) (derived_nodes env r rd_no recs)"

text \<open>The verified findings of an earlier round, its reconciliation when it has one, and the ids of all of them.\<close>

definition prior_findings :: "its_env \<Rightarrow> json \<Rightarrow> json \<Rightarrow> (json \<times> json \<times> json option \<times> json list) its" where
  "prior_findings env rd fids =
     ibind (finding_id fids ''gpt'') (\<lambda>gid.
     ibind (finding_id fids ''codex'') (\<lambda>cid.
     ibind (reusable env gid) (\<lambda>grec.
     ibind (reusable env cid) (\<lambda>crec.
     ibind (prior_reconciliation env rd fids) (\<lambda>rrec.
       ireturn (grec, crec, rrec, [gid, cid] @ map (\<lambda>_. jget (obj_of fids) ''reconciliation'') (opt_list rrec)))))))"

definition prior_text :: "its_env \<Rightarrow> json \<Rightarrow> json \<Rightarrow> json \<Rightarrow> json option \<Rightarrow> string its" where
  "prior_text env rd_no grec crec rrec =
     ibind (recorded_content env grec) (\<lambda>gv.
     ibind (recorded_content env crec) (\<lambda>cv.
     ibind (case rrec of None \<Rightarrow> ireturn None | Some rec \<Rightarrow> ibind (recorded_content env rec) (\<lambda>v. ireturn (Some v))) (\<lambda>rv.
       ilift (broken (ie_summary env rd_no gv cv rv)))))"

definition prior_component ::
  "its_env \<Rightarrow> its_round \<Rightarrow> json \<Rightarrow> lgraph \<times> (string \<times> string) list \<Rightarrow> (lgraph \<times> (string \<times> string) list) its" where
  "prior_component env r rd acc =
     (let rd_no = jget (obj_of rd) ''round''; meta = py_or (jget (obj_of rd) ''its'') (JObj []);
          scaffold = jget (obj_of meta) ''scaffold_version'' in
      ibind (ilift (broken (py_get meta ''artifact_ids''))) (\<lambda>ids0.
      ibind (prior_findings env rd (py_or ids0 (JObj []))) (\<lambda>(grec, crec, rrec, src).
      ibind (prior_text env rd_no grec crec rrec) (\<lambda>t.
      ibind (register_summary env r rd_no scaffold t src) (\<lambda>srec.
      ibind (ilift (text_item srec ''artifact_id'')) (\<lambda>sid.
      ibind (ilift (derived_nodes env r rd_no ([grec, crec] @ opt_list rrec @ [srec]) (scaffold_node env scaffold (fst acc)))) (\<lambda>g.
        ireturn (g, snd acc @ [(sid, t)]))))))))"

fun prior_components ::
  "its_env \<Rightarrow> its_round \<Rightarrow> json list \<Rightarrow> lgraph \<times> (string \<times> string) list \<Rightarrow> (lgraph \<times> (string \<times> string) list) its" where
  "prior_components env r [] acc = ireturn acc"
| "prior_components env r (rd # rds) acc = ibind (prior_component env r rd acc) (prior_components env r rds)"

definition substantive_rounds :: "json list \<Rightarrow> json list" where
  "substantive_rounds rds = filter (\<lambda>rd. truthy (get_or (obj_of rd) ''substantive'' (JBool True))) rds"

text \<open>Every raw node of the stored lineage has a standard class.\<close>

definition raw_standard :: "json \<Rightarrow> egress + bool" where
  "raw_standard rec =
     sbind (broken (py_get rec ''classification'')) (\<lambda>c.
       if c \<noteq> JStr ''raw'' then Inr True
       else sbind (broken (py_get (py_or (jget (obj_of rec) ''provenance'') (JObj [])) ''class'')) (\<lambda>p.
         Inr (p \<in> JStr ` set STANDARD_PROVENANCE)))"

fun all_raw_standard :: "json list \<Rightarrow> egress + bool" where
  "all_raw_standard [] = Inr True"
| "all_raw_standard (rec # recs) = sbind (raw_standard rec) (\<lambda>b. if b then all_raw_standard recs else Inr False)"

definition ctx_id :: "its_env \<Rightarrow> its_round \<Rightarrow> string" where
  "ctx_id env r = ''ctx-'' @ take 12 (content_sha (ie_guard env) (ir_context r))"

text \<open>The graph over which the packet is bound: the context's node, the scaffold's, and the candidate over all.\<close>

definition bound_graph :: "its_env \<Rightarrow> its_round \<Rightarrow> string \<Rightarrow> string list \<Rightarrow> json \<Rightarrow> string list \<Rightarrow> string \<Rightarrow> lgraph \<Rightarrow> lgraph" where
  "bound_graph env r cand existing domain summaries version g =
     (let g1 = put_node (ctx_id env r) ((machine_node existing JNull)\<lparr>ln_hash := JStr (content_sha (ie_guard env) (ir_context r))\<rparr>) g;
          g2 = scaffold_node env (JStr version) g1 in
      put_node cand (machine_node (existing @ [scaffold_id (JStr version)] @ summaries @ [ctx_id env r]) domain) g2)"

definition its_start :: "its_env \<Rightarrow> its_round \<Rightarrow> (lgraph \<times> string) its" where
  "its_start env r =
     ibind (irequire (ir_artifacts r = []) ''artifacts are not permitted in the internal_technical lane'') (\<lambda>_.
     ibind (irequire (ir_profile r = JStr ''code'') ''only the code profile is supported in the internal_technical lane'') (\<lambda>_.
     ibind (irequire (truthy (ir_stamp r) \<and> ir_stamp r = JStr (content_sha (ie_guard env) (ir_context r)))
       ''lineage stamp missing or stale for the internal_technical lane'') (\<lambda>_.
     ibind (ilift (if truthy (ir_lineage r)
                   then sbind (broken (py_iter (ir_lineage r))) (\<lambda>rs. sbind (from_records rs []) (\<lambda>g. Inr (Some g)))
                   else Inr None)) (\<lambda>g.
     case (g, ir_candidate r) of
       (Some h, Some c) \<Rightarrow>
         ibind (ilift (sbind (broken (py_iter (ir_lineage r))) all_raw_standard)) (\<lambda>ok.
         ibind (irequire ok ''unverified or user-supplied content source in the internal_technical lane'') (\<lambda>_.
           ireturn (h, c)))
     | _ \<Rightarrow> istop (Refused ''lineage graph or candidate missing for the internal_technical lane'')))))"

definition its_context :: "its_env \<Rightarrow> its_round \<Rightarrow> (string \<times> egress_ctx) its" where
  "its_context env r =
     ibind (its_start env r) (\<lambda>(g, cand).
     let existing = (case lnode_at g cand of None \<Rightarrow> [] | Some n \<Rightarrow> ln_sources n);
         domain = (case lnode_at g cand of None \<Rightarrow> JNull | Some n \<Rightarrow> ln_domain n);
         prior = substantive_rounds (ir_prior r);
         version = (if prior = [] then ITS_ROUND1 else ITS_FOLLOWUP) in
     ibind (prior_components env r prior (g, [])) (\<lambda>(g', cs).
     let g'' = bound_graph env r cand existing domain (map fst cs) version g' in
     ibind (ilift (build_its_packet (ie_guard env) (ie_scaffolds env) version (cs @ [(ctx_id env r, ir_context r)]))) (\<lambda>(packet, mf).
     ibind (ilift (egress_context ''internal_technical'' (Some g'') (Some cand) (ir_bindings r) True ''internal_technical''
       (Some (mf\<lparr>co_binding := [(''gpt_model'', ir_model r), (''max_output_tokens'', JInt 4000)]\<rparr>)))) (\<lambda>cx.
       ireturn (packet, cx)))))"

end
