(* ===== verification/Egress_Frames.thy ===== *)
theory Egress_Frames
  imports Egress_Its
begin

text \<open>
  Properties of the packet framing: a packet the guard builds is verified against exactly its own manifest,
  whatever its components hold; an accepted packet is a sequence of hash-bound frames with nothing between
  them, unless a declared length is negative, where the verifier may also never return.
\<close>

section \<open>Lengths\<close>

lemma is_digit_digit_char: "d < 10 \<Longrightarrow> is_digit (digit_char d)"
  by (simp add: is_digit_def digit_char_def)

lemma nat_digits_all: "list_all is_digit (nat_digits n)"
  using nat_digits_are_digits is_digit_digit_char by (auto simp: list_all_iff)

lemma plain_digits_all: "list_all is_digit s \<Longrightarrow> s \<noteq> [] \<Longrightarrow> plain_digits s = Some s"
  by (induction s rule: plain_digits.induct) (auto simp: is_digit_def)

lemma digits_val_snoc: "digits_val (s @ [c]) = 10 * digits_val s + digit_val c"
  by (simp add: digits_val_def)

lemma digits_val_nat_digits: "digits_val (nat_digits n) = int n"
proof (induction n rule: nat_digits.induct)
  case (1 n)
  have v: "digit_val (digit_char d) = int d" if "d < 10" for d
  proof -
    have "(of_char (digit_char d) :: int) = int (of_char (digit_char d))" by (simp add: of_nat_of_char)
    then show ?thesis using that by (simp add: digit_val_def digit_char_def)
  qed
  show ?case
  proof (cases "n < 10")
    case True
    then show ?thesis by (simp add: nat_digits_small digits_val_def v)
  next
    case False
    then have "digits_val (nat_digits n) = 10 * int (n div 10) + int (n mod 10)"
      using 1 by (simp add: nat_digits_large digits_val_snoc v)
    then show ?thesis by (simp add: zdiv_int zmod_int)
  qed
qed

lemma strip_digits: "list_all is_digit s \<Longrightarrow> strip s = s"
proof -
  assume d: "list_all is_digit s"
  have ws: "\<not> is_ws c" if "is_digit c" for c using that by (auto simp: is_digit_def is_ws_def Let_def)
  have "lstrip t = t" if "list_all is_digit t" for t
    using that ws by (cases t) (auto simp: lstrip_def)
  then show ?thesis using d by (simp add: strip_def list_all_iff)
qed

lemma parse_int_str_nat [simp]: "parse_int (str_nat n) = Some (int n)"
proof -
  have d: "list_all is_digit (nat_digits n)" by (rule nat_digits_all)
  obtain c r where n: "nat_digits n = c # r" by (cases "nat_digits n") auto
  then have "is_digit c" using d by simp
  then have "split_sign (nat_digits n) = (False, nat_digits n)"
    unfolding n by (auto simp: split_sign_def is_digit_def)
  then show ?thesis
    by (simp add: parse_int_def str_nat_def strip_digits [OF d] plain_digits_all [OF d] digits_val_nat_digits)
qed

lemma digits_ascii: "list_all is_digit s \<Longrightarrow> utf8 s = s"
  by (rule utf8_ascii) (auto simp: list_all_iff is_digit_def)

section \<open>Slices at natural positions\<close>

lemma py_slice_mid [simp]:
  "i = int (length p) \<Longrightarrow> j = int (length p + length m) \<Longrightarrow> py_slice (p @ m @ q) i j = m"
  by (simp add: py_slice_def norm_index_def)

lemma find_from_mid:
  "c \<notin> set m \<Longrightarrow> i = int (length p) \<Longrightarrow> find_from (p @ m @ c # q) c i = Some (int (length p + length m))"
proof -
  assume "c \<notin> set m" "i = int (length p)"
  moreover from this(1) have "takeWhile (\<lambda>x. x \<noteq> c) (m @ c # q) = m" by (induction m) auto
  ultimately show ?thesis by (simp add: find_from_def norm_index_def)
qed

lemma split_at_none [simp]: "c \<notin> set a \<Longrightarrow> split_at c a = [a]"
  by (induction a) auto

lemma split_at_cons [simp]: "c \<notin> set a \<Longrightarrow> split_at c (a @ c # s) = a # split_at c s"
  by (induction a) auto

lemma split_at_nonempty: "split_at c s \<noteq> []"
  by (induction s) (auto split: list.splits)

lemma split_at_join: "join [c] (split_at c s) = s"
proof (induction s)
  case (Cons x s)
  obtain p ps where s: "split_at c s = p # ps" using split_at_nonempty [of c s] by (cases "split_at c s") auto
  show ?case using Cons.IH by (cases ps) (auto simp: s)
qed simp

section \<open>Round trip\<close>

definition no_sep :: "string \<Rightarrow> bool" where
  "no_sep s = (SEP \<notin> set s \<and> NL \<notin> set s)"

lemma seps_ascii [simp]: "(of_char SEP :: nat) < 128" "(of_char NL :: nat) < 128" "SEP \<noteq> NL" "NL \<noteq> SEP"
  by (simp_all add: SEP_def NL_def)

lemma utf8_seps [simp]: "utf8_char SEP = [SEP]" "utf8_char NL = [NL]" "utf8 ITS_MARK = ITS_MARK"
  by simp_all (simp add: ITS_MARK_def SEP_def utf8_char_def)

lemma no_sep_utf8 [simp]: "no_sep (utf8 s) = no_sep s"
  by (simp add: no_sep_def utf8_set)

lemma no_sep_digits: "list_all is_digit s \<Longrightarrow> no_sep s"
  by (auto simp: no_sep_def list_all_iff SEP_def NL_def is_digit_def)

lemma no_sep_str_nat [simp]: "no_sep (str_nat n)"
  by (simp add: str_nat_def no_sep_digits nat_digits_all)

lemma utf8_str_nat [simp]: "utf8 (str_nat n) = str_nat n"
  by (simp add: str_nat_def digits_ascii nat_digits_all)

lemma utf8_frame:
  "utf8 (its_frame ge kind ident t) =
     ITS_MARK @ (utf8 kind @ SEP # utf8 ident @ SEP # str_nat (length (utf8 t)) @ SEP # utf8 (ge_sha ge (utf8 t)) @ [SEP]) @
       NL # utf8 t @ [NL]"
  by (simp add: its_frame_def Let_def)

lemma frame_at_frame:
  assumes "no_sep kind" and "no_sep ident" and "no_sep (ge_sha ge (utf8 t))"
  shows "its_frame_at ge (p @ utf8 (its_frame ge kind ident t) @ q) (int (length p)) =
     Inr (\<lparr>fr_kind = kind, fr_id = ident, fr_sha = ge_sha ge (utf8 t)\<rparr>,
          int (length p + length (utf8 (its_frame ge kind ident t))))"
proof -
  let ?h = "utf8 kind @ SEP # utf8 ident @ SEP # str_nat (length (utf8 t)) @ SEP # utf8 (ge_sha ge (utf8 t)) @ [SEP]"
  let ?d = "p @ utf8 (its_frame ge kind ident t) @ q"
  let ?nl = "int (length (p @ ITS_MARK) + length ?h)"
  note free = assms [unfolded no_sep_def]
  have d1: "?d = p @ ITS_MARK @ (?h @ NL # utf8 t @ NL # q)" by (simp add: utf8_frame)
  have d2: "?d = (p @ ITS_MARK) @ ?h @ (NL # utf8 t @ NL # q)" by (simp add: utf8_frame)
  have d3: "?d = (p @ ITS_MARK @ ?h @ [NL]) @ utf8 t @ (NL # q)" by (simp add: utf8_frame)
  have d4: "?d = (p @ ITS_MARK @ ?h @ [NL] @ utf8 t) @ [NL] @ q" by (simp add: utf8_frame)
  have h: "NL \<notin> set ?h"
    using free no_sep_str_nat [of "length (utf8 t)"] by (simp add: utf8_set no_sep_def)
  have mark: "py_slice ?d (int (length p)) (int (length p) + int (length ITS_MARK)) = ITS_MARK"
    unfolding d1 by (rule py_slice_mid) simp_all
  have find: "find_from ?d NL (int (length p) + int (length ITS_MARK)) = Some ?nl"
    unfolding d2 by (rule find_from_mid [OF h]) simp
  have hd: "py_slice ?d (int (length p) + int (length ITS_MARK)) ?nl = ?h"
    unfolding d2 by (rule py_slice_mid) simp_all
  have rh: "read_header ?h = Inr (kind, ident, str_nat (length (utf8 t)), ge_sha ge (utf8 t))"
    using free no_sep_str_nat [of "length (utf8 t)"] by (simp add: read_header_def utf8_set no_sep_def)
  have content: "py_slice ?d (?nl + 1) (?nl + 1 + int (length (utf8 t))) = utf8 t"
    unfolding d3 by (rule py_slice_mid) simp_all
  have n: "?nl + 1 + int (length (utf8 t)) + 1 = int (length p + length (utf8 (its_frame ge kind ident t)))"
    by (simp add: utf8_frame)
  have brk: "py_slice ?d (?nl + 1 + int (length (utf8 t))) (int (length p + length (utf8 (its_frame ge kind ident t)))) = [NL]"
    unfolding n [symmetric] d4 by (rule py_slice_mid) simp_all
  have le: "?nl + 1 + int (length (utf8 t)) \<le> int (length ?d)"
    using n by simp
  show ?thesis
    by (simp only: its_frame_at_def Let_def mark find hd rh content brk n require_True sbind_simps option.case
        prod.case parse_int_str_nat le simp_thms)
qed


lemma its_frames_built:
  assumes "\<forall>(i, t) \<in> set cs. no_sep i \<and> no_sep (ge_sha ge (utf8 t))" and "no_sep kind"
  shows "its_frames ge (p @ utf8 (concat (map (\<lambda>(i, t). its_frame ge kind i t) cs))) (int (length p)) parsed =
     Some (Inr (parsed @ map (\<lambda>(i, t). \<lparr>fr_kind = kind, fr_id = i, fr_sha = ge_sha ge (utf8 t)\<rparr>) cs))"
  using assms(1)
proof (induction cs arbitrary: p parsed)
  case Nil
  then show ?case by (simp add: its_frames.simps)
next
  case (Cons c cs)
  obtain i t where c: "c = (i, t)" by (cases c)
  let ?f = "utf8 (its_frame ge kind i t)" and ?r = "utf8 (concat (map (\<lambda>(i, t). its_frame ge kind i t) cs))"
  have at: "its_frame_at ge (p @ ?f @ ?r) (int (length p)) =
      Inr (\<lparr>fr_kind = kind, fr_id = i, fr_sha = ge_sha ge (utf8 t)\<rparr>, int (length p + length ?f))"
    using Cons.prems by (intro frame_at_frame [OF assms(2)]) (simp_all add: c)
  have "\<not> int (length (p @ ?f @ ?r)) \<le> int (length p)" by (simp add: utf8_frame ITS_MARK_def)
  then show ?case
    using Cons.IH [of "p @ ?f" "parsed @ [\<lparr>fr_kind = kind, fr_id = i, fr_sha = ge_sha ge (utf8 t)\<rparr>]"] Cons.prems
    by (subst its_frames.simps) (simp add: c at)
qed

text \<open>The hashes and the ids hold no separator.\<close>

definition frameable :: "guard_env \<Rightarrow> scaffolds \<Rightarrow> string \<Rightarrow> (string \<times> string) list \<Rightarrow> bool" where
  "frameable ge scs version cs =
     (no_sep version \<and>
      (case map_of scs version of None \<Rightarrow> True | Some sc \<Rightarrow> no_sep (sc_sha sc) \<and> sc_sha sc = ge_sha ge (utf8 (sc_text sc))) \<and>
      list_all (\<lambda>(i, t). no_sep i \<and> no_sep (ge_sha ge (utf8 t))) cs)"

lemma built_packet_frames:
  assumes b: "build_its_packet ge scs version cs = Inr (packet, mf)" and f: "frameable ge scs version cs"
  shows "its_frames ge (utf8 packet) 0 [] =
     Some (Inr (\<lparr>fr_kind = ''scaffold'', fr_id = version, fr_sha = co_scaffold mf\<rparr> #
       map (\<lambda>(i, t). \<lparr>fr_kind = ''component'', fr_id = i, fr_sha = ge_sha ge (utf8 t)\<rparr>) cs))"
proof -
  obtain sc where sc: "map_of scs version = Some sc"
    and packet: "packet = its_frame ge ''scaffold'' version (sc_text sc) @
      concat (map (\<lambda>(i, t). its_frame ge ''component'' i t) cs)"
    and mf: "co_scaffold mf = sc_sha sc"
    using b by (auto simp: build_its_packet_def split: option.splits)
  let ?h = "utf8 (its_frame ge ''scaffold'' version (sc_text sc))"
    and ?r = "utf8 (concat (map (\<lambda>(i, t). its_frame ge ''component'' i t) cs))"
  have k: "no_sep ''scaffold''" "no_sep ''component''" by (simp_all add: no_sep_def SEP_def NL_def)
  have s: "no_sep version" "no_sep (ge_sha ge (utf8 (sc_text sc)))" "sc_sha sc = ge_sha ge (utf8 (sc_text sc))"
    using f by (auto simp: frameable_def sc)
  have at: "its_frame_at ge (?h @ ?r) 0 =
      Inr (\<lparr>fr_kind = ''scaffold'', fr_id = version, fr_sha = sc_sha sc\<rparr>, int (length ?h))"
    using frame_at_frame [OF k(1) s(1,2), of "[]" ?r] by (simp add: s(3))
  have "its_frames ge (?h @ ?r) (int (length ?h)) [\<lparr>fr_kind = ''scaffold'', fr_id = version, fr_sha = sc_sha sc\<rparr>] =
      Some (Inr ([\<lparr>fr_kind = ''scaffold'', fr_id = version, fr_sha = sc_sha sc\<rparr>] @
        map (\<lambda>(i, t). \<lparr>fr_kind = ''component'', fr_id = i, fr_sha = ge_sha ge (utf8 t)\<rparr>) cs))"
    using f by (intro its_frames_built k) (auto simp: frameable_def list_all_iff)
  moreover have "\<not> int (length (?h @ ?r)) \<le> 0" by (simp add: utf8_frame ITS_MARK_def)
  ultimately show ?thesis
    by (subst its_frames.simps) (simp add: packet at mf)
qed

text \<open>The verdict on a built packet: accepted under exactly the manifests that name its scaffold, which is
  registered, and its components.\<close>

lemma built_packet_verdict:
  assumes "build_its_packet ge scs version cs = Inr (packet, mf)" and "frameable ge scs version cs"
  shows "verify_its_composition ge scs packet mf' = Some (Inr r) \<longleftrightarrow>
     r = (version, length cs) \<and> co_scaffold mf' = co_scaffold mf \<and>
     map (\<lambda>c. (cm_id c, cm_sha c)) (co_components mf') = map (\<lambda>(i, t). (i, ge_sha ge (utf8 t))) cs"
proof -
  have "its_scaffold_sha scs version = Some (co_scaffold mf)"
    using assms(1) by (auto simp: build_its_packet_def its_scaffold_sha_def split: option.splits)
  moreover have "map (\<lambda>f. (fr_id f, fr_sha f)) (map (\<lambda>(i, t). \<lparr>fr_kind = k, fr_id = i, fr_sha = ge_sha ge (utf8 t)\<rparr>) cs) =
      map (\<lambda>(i, t). (i, ge_sha ge (utf8 t))) cs" for k
    by auto
  ultimately show ?thesis
    by (auto simp: verify_its_composition_def built_packet_frames [OF assms] check_frames_def sbind_Inr_iff
        simp del: map_map)
qed


section \<open>Nothing between the frames\<close>

inductive framed :: "guard_env \<Rightarrow> string \<Rightarrow> frame list \<Rightarrow> bool" for ge :: guard_env where
  framed_Nil: "framed ge [] []"
| framed_Cons:
    "parse_int len = Some (int (length content)) \<Longrightarrow> ge_sha ge content = utf8_replace sha \<Longrightarrow> framed ge rest fs \<Longrightarrow>
     framed ge (ITS_MARK @ (kind @ SEP # ident @ SEP # len @ SEP # sha @ [SEP]) @ NL # content @ NL # rest)
       (\<lparr>fr_kind = utf8_replace kind, fr_id = utf8_replace ident, fr_sha = utf8_replace sha\<rparr> # fs)"

text \<open>A frame header whose declared length is negative.\<close>

definition negative_header :: "string \<Rightarrow> bool" where
  "negative_header data =
     (\<exists>p kind ident len sha q b.
        data = p @ ITS_MARK @ (kind @ SEP # ident @ SEP # len @ SEP # sha @ [SEP]) @ NL # q \<and>
        parse_int len = Some b \<and> b < 0)"

lemma read_header_split:
  assumes "read_header h = Inr (k, i, len, s)"
  obtains kind ident sha where "h = kind @ SEP # ident @ SEP # len @ SEP # sha @ [SEP]"
    and "k = utf8_replace kind" and "i = utf8_replace ident" and "s = utf8_replace sha"
proof -
  obtain kind ident sha where s: "split_at SEP h = [kind, ident, len, sha, []]"
    and "k = utf8_replace kind" "i = utf8_replace ident" "s = utf8_replace sha"
    using assms by (auto simp: read_header_def split: list.splits if_splits)
  moreover have "h = kind @ SEP # ident @ SEP # len @ SEP # sha @ [SEP]"
    using split_at_join [of SEP h] by (simp add: s)
  ultimately show thesis using that by blast
qed

lemma find_from_split:
  assumes "find_from (p @ r) c (int (length p)) = Some k"
  obtains h q where "r = h @ c # q" and "k = int (length p + length h)"
proof -
  let ?h = "takeWhile (\<lambda>x. x \<noteq> c) r"
  have "c \<in> set r" and k: "k = int (length p + length ?h)"
    using assms by (auto simp: find_from_def norm_index_def Let_def split: if_splits)
  then have "dropWhile (\<lambda>x. x \<noteq> c) r \<noteq> []" by (auto simp: dropWhile_eq_Nil_conv)
  then have "dropWhile (\<lambda>x. x \<noteq> c) r = c # tl (dropWhile (\<lambda>x. x \<noteq> c) r)"
    using hd_dropWhile [of "\<lambda>x. x \<noteq> c" r] by (metis list.collapse)
  then have "r = ?h @ c # tl (dropWhile (\<lambda>x. x \<noteq> c) r)" by (metis takeWhile_dropWhile_id)
  then show thesis using k by (rule that)
qed

lemma py_slice_prefix:
  assumes "py_slice (p @ r) (int (length p)) (int (length p) + int (length m)) = m"
  obtains q where "r = m @ q"
proof -
  have "take (length m) r = m"
    using assms by (simp add: py_slice_def norm_index_def nat_add_distrib min_def split: if_splits)
  then show thesis using that by (metis append_take_drop_id)
qed

text \<open>A frame read at a position: its bytes and the position after them, unless its length is negative.\<close>

lemma frame_at_inv:
  assumes f: "its_frame_at ge (p @ r) (int (length p)) = Inr (f, j)" and n: "\<not> negative_header (p @ r)"
  obtains kind ident len sha content q where
    "r = ITS_MARK @ (kind @ SEP # ident @ SEP # len @ SEP # sha @ [SEP]) @ NL # content @ NL # q"
    and "parse_int len = Some (int (length content))" and "ge_sha ge content = utf8_replace sha"
    and "f = \<lparr>fr_kind = utf8_replace kind, fr_id = utf8_replace ident, fr_sha = utf8_replace sha\<rparr>"
    and "j = int (length p + length r - length q)"
proof -
  let ?d = "p @ r" and ?m = "int (length p) + int (length ITS_MARK)"
  obtain nl k i len s blen where m: "py_slice ?d (int (length p)) ?m = ITS_MARK" and nl: "find_from ?d NL ?m = Some nl"
    and h: "read_header (py_slice ?d ?m nl) = Inr (k, i, len, s)" and len: "parse_int len = Some blen"
    and "end": "nl + 1 + blen \<le> int (length ?d)" "py_slice ?d (nl + 1 + blen) (nl + 1 + blen + 1) = [NL]"
    and sha: "ge_sha ge (py_slice ?d (nl + 1) (nl + 1 + blen)) = s"
    and f: "f = \<lparr>fr_kind = k, fr_id = i, fr_sha = s\<rparr>" and j: "j = nl + 1 + blen + 1"
    using f by (auto simp: its_frame_at_def Let_def sbind_Inr_iff split: option.splits)
  obtain r1 where r1: "r = ITS_MARK @ r1" using m by (rule py_slice_prefix)
  obtain hb r2 where r2: "r1 = hb @ NL # r2" and nl: "nl = int (length (p @ ITS_MARK) + length hb)"
    using nl by (elim find_from_split [of "p @ ITS_MARK" r1 NL nl, rotated]) (simp_all add: r1)
  have hb: "py_slice ?d ?m nl = hb"
    unfolding r1 r2 nl using py_slice_mid [of ?m "p @ ITS_MARK" nl hb "NL # r2"] by (simp add: nl)
  obtain kind ident shab where hb: "hb = kind @ SEP # ident @ SEP # len @ SEP # shab @ [SEP]"
    and k: "k = utf8_replace kind" and i: "i = utf8_replace ident" and s: "s = utf8_replace shab"
    using h unfolding hb by (rule read_header_split)
  have "\<not> blen < 0"
    using n len unfolding negative_header_def r1 r2 hb by blast
  then obtain bn where bn: "blen = int bn" by (metis nonneg_int_cases not_less)
  define pre where "pre = p @ ITS_MARK @ hb @ [NL]"
  have d: "?d = pre @ r2" and pn: "nl + 1 = int (length pre)" by (simp_all add: pre_def r1 r2 nl)
  have bl: "bn \<le> length r2" using "end"(1) by (simp add: d pn bn)
  have content: "py_slice ?d (nl + 1) (nl + 1 + blen) = take bn r2"
    unfolding d pn bn using bl py_slice_mid [of "int (length pre)" pre "int (length pre) + int bn" "take bn r2" "drop bn r2"]
    by simp
  have "py_slice ((pre @ take bn r2) @ drop bn r2) (int (length (pre @ take bn r2))) (int (length (pre @ take bn r2)) + int (length [NL])) = [NL]"
    using "end"(2) bl by (simp add: d pn bn)
  then obtain q where q: "drop bn r2 = [NL] @ q" by (rule py_slice_prefix)
  have r2': "r2 = take bn r2 @ NL # q" using q by (metis append_Cons append_Nil append_take_drop_id)
  have lt: "length r2 = bn + Suc (length q)" using arg_cong [OF r2', of length] bl by simp
  show thesis
  proof (rule that)
    show "r = ITS_MARK @ (kind @ SEP # ident @ SEP # len @ SEP # shab @ [SEP]) @ NL # take bn r2 @ NL # q"
      using r2' by (simp add: r1 r2 hb)
    show "parse_int len = Some (int (length (take bn r2)))" using bl by (simp add: len bn)
    show "ge_sha ge (take bn r2) = utf8_replace shab" using sha by (simp add: content s)
    show "f = \<lparr>fr_kind = utf8_replace kind, fr_id = utf8_replace ident, fr_sha = utf8_replace shab\<rparr>"
      by (simp add: f k i s)
    show "j = int (length p + length r - length q)"
      using pn by (simp add: j bn pre_def r1 r2 lt)
  qed
qed

lemma its_frames_framed:
  assumes "its_frames ge data i parsed = Some res"
  shows "\<forall>fs p r. res = Inr fs \<longrightarrow> \<not> negative_header data \<longrightarrow> data = p @ r \<longrightarrow> i = int (length p) \<longrightarrow>
    (\<exists>gs. fs = parsed @ gs \<and> framed ge r gs)"
proof (rule its_frames.raw_induct [where P = "\<lambda>ge data i parsed res. \<forall>fs p r. res = Inr fs \<longrightarrow>
    \<not> negative_header data \<longrightarrow> data = p @ r \<longrightarrow> i = int (length p) \<longrightarrow>
    (\<exists>gs. fs = parsed @ gs \<and> framed ge r gs)", OF _ assms], intro allI impI)
  fix f ge data i parsed res fs p r
  assume IH: "\<And>ge data i parsed res. f ge data i parsed = Some res \<Longrightarrow>
      \<forall>fs p r. res = Inr fs \<longrightarrow> \<not> negative_header data \<longrightarrow> data = p @ r \<longrightarrow> i = int (length p) \<longrightarrow>
        (\<exists>gs. fs = parsed @ gs \<and> framed ge r gs)"
    and eq: "(if int (length data) \<le> i then Some (Inr parsed)
      else case its_frame_at ge data i of Inl e \<Rightarrow> Some (Inl e) | Inr (g, j) \<Rightarrow> f ge data j (parsed @ [g])) = Some res"
    and res: "res = Inr fs" and n: "\<not> negative_header data" and d: "data = p @ r" and i: "i = int (length p)"
  show "\<exists>gs. fs = parsed @ gs \<and> framed ge r gs"
  proof (cases "int (length data) \<le> i")
    case True
    then have "r = []" "fs = parsed" using eq res by (simp_all add: d i)
    then show ?thesis by (auto intro: framed.intros)
  next
    case False
    then obtain g j where g: "its_frame_at ge data i = Inr (g, j)" and rec: "f ge data j (parsed @ [g]) = Some (Inr fs)"
      using eq res by (auto split: sum.splits)
    from g [unfolded d i] n [unfolded d] obtain kind ident len sha content q where
      r: "r = ITS_MARK @ (kind @ SEP # ident @ SEP # len @ SEP # sha @ [SEP]) @ NL # content @ NL # q"
      and h: "parse_int len = Some (int (length content))" "ge_sha ge content = utf8_replace sha"
      and gf: "g = \<lparr>fr_kind = utf8_replace kind, fr_id = utf8_replace ident, fr_sha = utf8_replace sha\<rparr>"
      and j: "j = int (length p + length r - length q)" by (rule frame_at_inv)
    let ?c = "ITS_MARK @ (kind @ SEP # ident @ SEP # len @ SEP # sha @ [SEP]) @ NL # content @ [NL]"
    have rq: "r = ?c @ q" by (simp add: r)
    have "data = (p @ ?c) @ q" "j = int (length (p @ ?c))" by (simp_all add: d rq j)
    then obtain gs where "fs = (parsed @ [g]) @ gs" "framed ge q gs" using IH [OF rec] n by blast
    then show ?thesis using framed_Cons [OF h] by (auto simp: r gf)
  qed
qed

text \<open>What an accepted packet is.\<close>

lemma accepted_packet_framed:
  assumes "verify_its_composition ge scs packet mf = Some (Inr r)" and "\<not> negative_header (utf8 packet)"
  obtains s cs where "framed ge (utf8 packet) (s # cs)" and "fr_kind s = ''scaffold''"
    and "its_scaffold_sha scs (fr_id s) = Some (fr_sha s)" and "co_scaffold mf = fr_sha s"
    and "\<forall>f \<in> set cs. fr_kind f = ''component''"
    and "map (\<lambda>f. (fr_id f, fr_sha f)) cs = map (\<lambda>c. (cm_id c, cm_sha c)) (co_components mf)"
proof -
  obtain fs where fs: "its_frames ge (utf8 packet) 0 [] = Some (Inr fs)" and c: "check_frames scs mf fs = Inr r"
    using assms(1) by (auto simp: verify_its_composition_def sbind_Inr_iff)
  have "framed ge (utf8 packet) fs"
    using its_frames_framed [OF fs] assms(2) by (metis append_Nil list.size(3) of_nat_0)
  then show thesis using c that by (auto simp: check_frames_def sbind_Inr_iff split: list.splits)
qed

section \<open>A negative length\<close>

text \<open>A frame whose end leads to its own start is read for ever.\<close>

lemma its_frames_loop:
  assumes "its_frame_at ge data i = Inr (f, i)" and "i < int (length data)"
  shows "its_frames ge data i parsed = None"
proof -
  have "\<not> (data' = data \<and> i' = i \<and> ge' = ge)" if "its_frames ge' data' i' parsed' = Some r" for ge' data' i' parsed' r
    by (rule its_frames.raw_induct [where P = "\<lambda>ge' data' i' parsed' r. \<not> (data' = data \<and> i' = i \<and> ge' = ge)", OF _ that])
      (use assms in \<open>fastforce split: sum.splits if_splits\<close>)
  then show ?thesis by (metis not_None_eq)
qed

text \<open>A built scaffold frame followed by a frame of negative length, which ends where the scaffold frame does,
  for hashes of 64 characters.\<close>

definition loop_packet :: "guard_env \<Rightarrow> string" where
  "loop_packet ge =
     its_frame ge ''scaffold'' ''v1'' [] @ ITS_MARK @ ''component'' @ [SEP] @ ''a'' @ [SEP] @ ''-89'' @ [SEP] @
       ge_sha ge [] @ [SEP, NL]"

definition demo_guard :: guard_env where
  "demo_guard = \<lparr>ge_compile = (\<lambda>p. Some (\<lambda>t. if contains p t then [(0, length p)] else [])),
     ge_confusables = (\<lambda>t. 0),
     ge_sha = (\<lambda>b. take (64 - length (str_nat (length b))) (replicate 64 (CHR ''a'')) @ str_nat (length b)),
     ge_loads = (\<lambda>t. None), ge_dumps = (\<lambda>j. []), ge_canonical = (\<lambda>j. [])\<rparr>"

lemma loop_frame:
  "its_frame_at demo_guard (utf8 (loop_packet demo_guard)) 87 =
     Inr (\<lparr>fr_kind = ''component'', fr_id = ''a'', fr_sha = ge_sha demo_guard []\<rparr>, 87)"
  by code_simp

lemma verification_may_not_return:
  "verify_its_composition demo_guard (register_its_scaffold demo_guard ''v1'' [] [])
     (loop_packet demo_guard) mf = None"
proof -
  let ?d = "utf8 (loop_packet demo_guard)"
  have s: "its_frame_at demo_guard ?d 0 =
      Inr (\<lparr>fr_kind = ''scaffold'', fr_id = ''v1'', fr_sha = ge_sha demo_guard []\<rparr>, 87)"
    by code_simp
  have l: "87 < int (length ?d)" by code_simp
  have "its_frames demo_guard ?d 0 [] = None"
    by (subst its_frames.simps) (use l its_frames_loop [OF loop_frame l] in \<open>auto simp: s\<close>)
  then show ?thesis by (simp add: verify_its_composition_def)
qed

text \<open>A length may be padded: the packet is accepted although it is not the one the guard builds.\<close>

definition padded_packet :: "guard_env \<Rightarrow> string" where
  "padded_packet ge =
     ITS_MARK @ ''scaffold'' @ [SEP] @ ''v1'' @ [SEP] @ ''  0000_0  '' @ [SEP] @ ge_sha ge [] @ [SEP, NL] @ [NL]"

lemma padded_length_accepted:
  "verify_its_composition demo_guard (register_its_scaffold demo_guard ''v1'' [] []) (padded_packet demo_guard)
     \<lparr>co_version = ''v1'', co_scaffold = ge_sha demo_guard [], co_components = [], co_binding = []\<rparr> = Some (Inr (''v1'', 0))"
  "build_its_packet demo_guard (register_its_scaffold demo_guard ''v1'' [] []) ''v1'' [] \<noteq>
     Inr (padded_packet demo_guard, mf)"
proof -
  let ?d = "utf8 (padded_packet demo_guard)"
  have s: "its_frame_at demo_guard ?d 0 =
      Inr (\<lparr>fr_kind = ''scaffold'', fr_id = ''v1'', fr_sha = ge_sha demo_guard []\<rparr>, int (length ?d))"
    by code_simp
  have l: "0 < int (length ?d)" by code_simp
  have "its_frames demo_guard ?d 0 [] =
      Some (Inr [\<lparr>fr_kind = ''scaffold'', fr_id = ''v1'', fr_sha = ge_sha demo_guard []\<rparr>])"
    by (subst its_frames.simps) (use l in \<open>simp add: s its_frames.simps\<close>)
  then show "verify_its_composition demo_guard (register_its_scaffold demo_guard ''v1'' [] []) (padded_packet demo_guard)
     \<lparr>co_version = ''v1'', co_scaffold = ge_sha demo_guard [], co_components = [], co_binding = []\<rparr> = Some (Inr (''v1'', 0))"
    by (simp add: verify_its_composition_def check_frames_def its_scaffold_sha_def register_its_scaffold_def)
  have "its_frame demo_guard ''scaffold'' ''v1'' [] \<noteq> padded_packet demo_guard" by code_simp
  then show "build_its_packet demo_guard (register_its_scaffold demo_guard ''v1'' [] []) ''v1'' [] \<noteq>
     Inr (padded_packet demo_guard, mf)"
    by (simp add: build_its_packet_def register_its_scaffold_def)
qed

end
