(* ===== verification/Egress_Origin.thy ===== *)
theory Egress_Origin
  imports Egress_Lineage
begin

text \<open>
  What the resolution of a node says of its origin: a node is below sensitive exactly when every node it is made
  of exists, lies on no cycle, was not escalated, and is proven material or passed its scan; the search for the
  ancestors of a node finds exactly them; a graph survives its durable form.
\<close>

section \<open>Origins\<close>

definition made_of :: "lgraph \<Rightarrow> string \<Rightarrow> string \<Rightarrow> bool" where
  "made_of g i k = (\<exists>n. lnode_at g i = Some n \<and> k \<in> set (ln_sources n))"

text \<open>A node that adds no sensitivity above \<open>s\<close> of its own.\<close>

definition node_ok :: "sens \<Rightarrow> lnode \<Rightarrow> bool" where
  "node_ok s n =
     (\<not> ln_escalated n \<and>
      (ln_class n = ''raw'' \<longrightarrow> (\<exists>c. prov_field n ''class'' = Inr c \<and> raw_level c \<le> s)) \<and>
      (ln_class n \<notin> {''raw'', ''sanitized_ok''} \<longrightarrow> ln_sources n \<noteq> [] \<and>
        (ln_derived n \<noteq> JNull \<longrightarrow> Its \<le> s \<and> py_get (ln_derived n) ''scan_passed'' = Inr (JBool True))))"

definition clean_origin :: "lgraph \<Rightarrow> sens \<Rightarrow> string \<Rightarrow> bool" where
  "clean_origin g s i =
     (\<forall>j. (made_of g)\<^sup>*\<^sup>* i j \<longrightarrow>
        (\<exists>n. lnode_at g j = Some n \<and> node_ok s n) \<and> \<not> (made_of g)\<^sup>+\<^sup>+ j j)"

lemma worst_of_le:
  "worst_of f xs = Inr w \<Longrightarrow> x \<in> set xs \<Longrightarrow> \<exists>v. f x = Inr v \<and> v \<le> w"
  by (induction xs arbitrary: w) (auto simp: sbind_Inr_iff le_max_iff_disj)

lemma worst_of_bound:
  "(\<And>x. x \<in> set xs \<Longrightarrow> \<exists>v. f x = Inr v \<and> v \<le> s) \<Longrightarrow> \<exists>w. worst_of f xs = Inr w \<and> w \<le> s"
  by (induction xs) fastforce+

lemma made_of_node: "lnode_at g i = Some n \<Longrightarrow> made_of g i k \<longleftrightarrow> k \<in> set (ln_sources n)"
  by (simp add: made_of_def)

lemma below_sensitive: "a \<noteq> Sensitive \<longleftrightarrow> a \<le> Its"
  by (cases a) (simp_all add: less_eq_sens_def)

text \<open>One node over its sources.\<close>

lemma over_sources_le:
  assumes o: "over_sources n worst = Inr t" and "t \<le> s" and "s \<noteq> Sensitive" and "\<not> ln_escalated n"
  shows "node_ok s n" and "ln_sources n \<noteq> [] \<or> ln_class n = ''sanitized_ok'' \<Longrightarrow> \<exists>w. worst = Inr w \<and> w \<le> s"
proof -
  have s: "t \<noteq> Sensitive" using assms(2,3) by (cases s; cases t; simp add: less_eq_sens_def)
  show "node_ok s n"
    using o assms(2,4) s
    by (auto simp: over_sources_def node_ok_def sbind_Inr_iff broken_def split: if_splits sum.splits)
  show "\<exists>w. worst = Inr w \<and> w \<le> s" if "ln_sources n \<noteq> [] \<or> ln_class n = ''sanitized_ok''"
    using o assms(2) s that
    by (auto simp: over_sources_def sbind_Inr_iff below_sensitive intro: order_trans split: if_splits)
qed

lemma over_sources_bound:
  assumes "node_ok s n" and "ln_sources n \<noteq> [] \<or> ln_class n = ''sanitized_ok'' \<Longrightarrow> \<exists>w. worst = Inr w \<and> w \<le> s"
    and "s \<noteq> Sensitive"
  shows "\<exists>t. over_sources n worst = Inr t \<and> t \<le> s"
proof (cases "ln_sources n \<noteq> [] \<or> ln_class n = ''sanitized_ok''")
  case True
  then obtain w where w: "worst = Inr w" "w \<le> s" using assms(2) by blast
  then have n: "w \<noteq> Sensitive" using assms(3) by auto
  consider (raw) "ln_class n = ''raw''" | (sanitized) "ln_class n = ''sanitized_ok''"
    | (machine) "ln_class n \<notin> {''raw'', ''sanitized_ok''}" by blast
  then show ?thesis
  proof cases
    case raw
    then obtain c where "prov_field n ''class'' = Inr c" "raw_level c \<le> s" using assms(1) by (auto simp: node_ok_def)
    then show ?thesis using raw w by (simp add: over_sources_def)
  next
    case sanitized
    then show ?thesis using w by (simp add: over_sources_def)
  next
    case machine
    then have "ln_sources n \<noteq> []"
      and d: "ln_derived n \<noteq> JNull \<Longrightarrow> Its \<le> s \<and> py_get (ln_derived n) ''scan_passed'' = Inr (JBool True)"
      using assms(1) by (auto simp: node_ok_def)
    then show ?thesis using machine w n by (cases "ln_derived n = JNull") (simp_all add: over_sources_def broken_def)
  qed
next
  case False
  then show ?thesis using assms(1) by (auto simp: over_sources_def node_ok_def)
qed

lemma resolve_le_origin:
  assumes "resolve_sensitivity g stack i = Inr t" and "t \<le> s" and "s \<noteq> Sensitive" and "(made_of g)\<^sup>*\<^sup>* i j"
  shows "j \<notin> set stack \<and> (\<exists>n. lnode_at g j = Some n \<and> node_ok s n) \<and> \<not> (made_of g)\<^sup>+\<^sup>+ j j"
  using assms
proof (induction g stack i arbitrary: t j rule: resolve_sensitivity.induct)
  case (1 g stack i)
  have "i \<notin> set stack" using "1.prems"(1) by (subst (asm) resolve_sensitivity.simps) (auto split: if_splits)
  moreover obtain n where n: "lnode_at g i = Some n"
    using "1.prems"(1) \<open>i \<notin> set stack\<close> by (subst (asm) resolve_sensitivity.simps) (auto split: option.splits)
  moreover have e: "\<not> ln_escalated n"
    using "1.prems"(1-3) \<open>i \<notin> set stack\<close>
    by (subst (asm) resolve_sensitivity.simps) (auto simp: n less_eq_sens_def split: if_splits; cases s; simp)
  ultimately have o: "over_sources n (worst_of (resolve_sensitivity g (i # stack)) (ln_sources n)) = Inr t"
    using "1.prems"(1) by (subst (asm) resolve_sensitivity.simps) simp
  note le = over_sources_le [OF o "1.prems"(2,3) e]
  have sub: "j \<notin> set (i # stack) \<and> (\<exists>n. lnode_at g j = Some n \<and> node_ok s n) \<and> \<not> (made_of g)\<^sup>+\<^sup>+ j j"
    if "made_of g i k" "(made_of g)\<^sup>*\<^sup>* k j" for k j
  proof -
    have k: "k \<in> set (ln_sources n)" using that(1) n by (simp add: made_of_node)
    then obtain w where w: "worst_of (resolve_sensitivity g (i # stack)) (ln_sources n) = Inr w" "w \<le> s"
      using le(2) by fastforce
    then obtain v where "resolve_sensitivity g (i # stack) k = Inr v" "v \<le> s"
      using worst_of_le [OF w(1) k] by (metis order_trans)
    then show ?thesis using "1.IH" [OF \<open>i \<notin> set stack\<close> n e k] "1.prems"(3) that(2) by blast
  qed
  show ?case
  proof (cases "j = i")
    case True
    have "\<not> (made_of g)\<^sup>+\<^sup>+ i i" using sub by (metis list.set_intros(1) tranclpD)
    then show ?thesis using True \<open>i \<notin> set stack\<close> n le(1) by blast
  next
    case False
    then obtain k where "made_of g i k" "(made_of g)\<^sup>*\<^sup>* k j" using "1.prems"(4) by (metis converse_rtranclpE)
    then show ?thesis using sub by fastforce
  qed
qed

lemma origin_resolve_le:
  assumes "s \<noteq> Sensitive"
    and "\<And>j. (made_of g)\<^sup>*\<^sup>* i j \<Longrightarrow>
      j \<notin> set stack \<and> (\<exists>n. lnode_at g j = Some n \<and> node_ok s n) \<and> \<not> (made_of g)\<^sup>+\<^sup>+ j j"
  shows "\<exists>t. resolve_sensitivity g stack i = Inr t \<and> t \<le> s"
  using assms
proof (induction g stack i rule: resolve_sensitivity.induct)
  case (1 g stack i)
  obtain n where i: "i \<notin> set stack" and n: "lnode_at g i = Some n" and ok: "node_ok s n"
    and c: "\<not> (made_of g)\<^sup>+\<^sup>+ i i" using "1.prems"(2) [of i] by blast
  then have e: "\<not> ln_escalated n" by (simp add: node_ok_def)
  have "\<exists>v. resolve_sensitivity g (i # stack) k = Inr v \<and> v \<le> s" if k: "k \<in> set (ln_sources n)" for k
  proof (rule "1.IH" [OF i n e k "1.prems"(1)])
    fix j
    assume j: "(made_of g)\<^sup>*\<^sup>* k j"
    have ik: "made_of g i k" using k n by (simp add: made_of_node)
    then have "(made_of g)\<^sup>*\<^sup>* i j" and ij: "(made_of g)\<^sup>+\<^sup>+ i j" using j by auto
    moreover have "j \<noteq> i" using ij c by blast
    ultimately show "j \<notin> set (i # stack) \<and> (\<exists>n. lnode_at g j = Some n \<and> node_ok s n) \<and> \<not> (made_of g)\<^sup>+\<^sup>+ j j"
      using "1.prems"(2) [of j] by auto
  qed
  then have "\<exists>w. worst_of (resolve_sensitivity g (i # stack)) (ln_sources n) = Inr w \<and> w \<le> s" by (rule worst_of_bound)
  then have "\<exists>t. over_sources n (worst_of (resolve_sensitivity g (i # stack)) (ln_sources n)) = Inr t \<and> t \<le> s"
    using ok "1.prems"(1) by (intro over_sources_bound)
  then show ?case using i n e by (subst resolve_sensitivity.simps) simp
qed

text \<open>A node is at most \<open>s\<close> exactly when its origin is clean at \<open>s\<close>.\<close>

lemma resolve_le_iff:
  assumes "s \<noteq> Sensitive"
  shows "(\<exists>t. resolve_sensitivity g [] i = Inr t \<and> t \<le> s) \<longleftrightarrow> clean_origin g s i"
  using resolve_le_origin [of g "[]" i _ s] origin_resolve_le [of s g i "[]"] assms
  by (auto simp: clean_origin_def)

section \<open>The decision\<close>

text \<open>A decision below sensitive is the resolution.\<close>

lemma decided_level:
  assumes "decide_outcome pol g i = Inr d" and "d \<in> {StandardOk, ItsOk}"
  shows "resolve_sensitivity g [] i = Inr (if d = StandardOk then Standard else Its)"
proof -
  obtain n where "lnode_at g i = Some n" using assms(1) by (auto simp: decide_outcome_def split: option.splits)
  moreover have "ln_class n \<noteq> ''sanitized_ok''"
    using assms calculation
    by (auto simp: decide_outcome_def decide_sanitized_def Let_def sbind_Inr_iff split: if_splits)
  ultimately obtain s where "resolve_sensitivity g [] i = Inr s"
    and "(case s of Standard \<Rightarrow> Inr StandardOk | Its \<Rightarrow> Inr ItsOk
      | Sensitive \<Rightarrow> if ln_domain n \<in> JStr ` set NON_CLINICAL_DOMAINS then Inr LocalOnly
          else Inl (Blocked ''sensitive_requires_derivative'')) = Inr d"
    using assms(1) by (auto simp: decide_outcome_def sbind_Inr_iff)
  then show ?thesis using assms(2) by (cases s) (auto split: if_splits)
qed

lemma decided_origin:
  "decide_outcome pol g i = Inr StandardOk \<Longrightarrow> clean_origin g Standard i"
  "decide_outcome pol g i = Inr ItsOk \<Longrightarrow> clean_origin g Its i"
  using decided_level [of pol g i] resolve_le_iff [of Standard g i] resolve_le_iff [of Its g i] by fastforce+

text \<open>Sensitive material is decided local, or refused, or sanitised.\<close>

lemma decided_sensitive:
  "decide_outcome pol g i = Inr d \<Longrightarrow> resolve_sensitivity g [] i = Inr Sensitive \<Longrightarrow> d \<in> {LocalOnly, SanitizedOk}"
  by (auto simp: decide_outcome_def decide_sanitized_def Let_def sbind_Inr_iff split: option.splits if_splits)

section \<open>Ancestors\<close>

lemma new_sources_iff:
  "k \<in> set (new_sources g reached j) \<longleftrightarrow> made_of g j k \<and> k \<notin> set reached \<and> lnode_at g k \<noteq> None"
  by (cases "lnode_at g j") (auto simp: new_sources_def made_of_def)

lemma reach_from_sound:
  assumes "\<forall>x \<in> set reached. (made_of g)\<^sup>+\<^sup>+ i x" and "\<forall>x \<in> set stack. (made_of g)\<^sup>*\<^sup>* i x"
    and "x \<in> set (reach_from g reached stack)"
  shows "(made_of g)\<^sup>+\<^sup>+ i x"
  using assms
proof (induction g reached stack rule: reach_from.induct)
  case (2 g reached j stack)
  have new: "(made_of g)\<^sup>+\<^sup>+ i k" if "k \<in> set (new_sources g reached j)" for k
  proof -
    have "made_of g j k" using that by (simp add: new_sources_iff)
    moreover have "(made_of g)\<^sup>*\<^sup>* i j" using "2.prems"(2) by simp
    ultimately show ?thesis by (rule rtranclp_into_tranclp1 [rotated])
  qed
  show ?case
  proof (rule "2.IH")
    show "\<forall>x \<in> set (reached @ new_sources g reached j). (made_of g)\<^sup>+\<^sup>+ i x" using new "2.prems"(1) by auto
    show "\<forall>x \<in> set (rev (new_sources g reached j) @ stack). (made_of g)\<^sup>*\<^sup>* i x"
      using new "2.prems"(2) by (auto dest: tranclp_into_rtranclp)
    show "x \<in> set (reach_from g (reached @ new_sources g reached j) (rev (new_sources g reached j) @ stack))"
      using "2.prems"(3) by simp
  qed
qed simp

text \<open>Every found node outside the stack has its sources found.\<close>

definition found_closed :: "lgraph \<Rightarrow> string list \<Rightarrow> string list \<Rightarrow> string \<Rightarrow> bool" where
  "found_closed g reached stack i =
     (\<forall>x \<in> insert i (set reached). x \<notin> set stack \<longrightarrow>
        (\<forall>k. made_of g x k \<longrightarrow> lnode_at g k \<noteq> None \<longrightarrow> k \<in> set reached))"

lemma reach_from_complete:
  assumes "found_closed g reached stack i"
  shows "set reached \<subseteq> set (reach_from g reached stack) \<and> found_closed g (reach_from g reached stack) [] i"
  using assms
proof (induction g reached stack rule: reach_from.induct)
  case (2 g reached j stack)
  let ?new = "new_sources g reached j"
  have "found_closed g (reached @ ?new) (rev ?new @ stack) i"
    unfolding found_closed_def
  proof (intro ballI allI impI)
    fix x k
    assume x: "x \<in> insert i (set (reached @ ?new))" "x \<notin> set (rev ?new @ stack)" and k: "made_of g x k" "lnode_at g k \<noteq> None"
    show "k \<in> set (reached @ ?new)"
    proof (cases "x = j")
      case True
      then show ?thesis using k by (auto simp: new_sources_iff)
    next
      case False
      then have "x \<in> insert i (set reached)" "x \<notin> set (j # stack)" using x by auto
      then show ?thesis using "2.prems" k unfolding found_closed_def by auto
    qed
  qed
  then have "set (reached @ ?new) \<subseteq> set (reach_from g (reached @ ?new) (rev ?new @ stack)) \<and>
      found_closed g (reach_from g (reached @ ?new) (rev ?new @ stack)) [] i" by (rule "2.IH")
  then show ?case by simp
qed simp

lemma reach_from_known:
  assumes "\<forall>x \<in> set reached. lnode_at g x \<noteq> None"
  shows "\<forall>x \<in> set (reach_from g reached stack). lnode_at g x \<noteq> None"
  using assms
proof (induction g reached stack rule: reach_from.induct)
  case (2 g reached j stack)
  have "\<forall>x \<in> set (reached @ new_sources g reached j). lnode_at g x \<noteq> None"
    using "2.prems" new_sources_iff [of _ g reached j] by auto
  then show ?case using "2.IH" by simp
qed simp

text \<open>The nodes found from \<open>i\<close> are exactly the nodes of the graph that it is made of.\<close>

lemma reachable_from_iff:
  "x \<in> set (reachable_from g i) \<longleftrightarrow> lnode_at g x \<noteq> None \<and> (made_of g)\<^sup>+\<^sup>+ i x"
proof
  assume "x \<in> set (reachable_from g i)"
  then show "lnode_at g x \<noteq> None \<and> (made_of g)\<^sup>+\<^sup>+ i x"
    using reach_from_sound [of "[]" g i "[i]"] reach_from_known [of "[]" g "[i]"] by (simp add: reachable_from_def)
next
  assume x: "lnode_at g x \<noteq> None \<and> (made_of g)\<^sup>+\<^sup>+ i x"
  have c: "found_closed g (reachable_from g i) [] i"
    using reach_from_complete [of g "[]" "[i]" i] by (simp add: reachable_from_def found_closed_def)
  have "(made_of g)\<^sup>+\<^sup>+ i x \<Longrightarrow> lnode_at g x \<noteq> None \<longrightarrow> x \<in> set (reachable_from g i)"
  proof (induction rule: tranclp_induct)
    case (base y)
    then show ?case using c by (auto simp: found_closed_def)
  next
    case (step y z)
    then have "lnode_at g y \<noteq> None" by (auto simp: made_of_def)
    then show ?case using step c by (auto simp: found_closed_def)
  qed
  then show "x \<in> set (reachable_from g i)" using x by blast
qed

section \<open>The durable form\<close>

lemma add_record_node:
  assumes "ln_class n \<in> {''raw'', ''machine_generated'', ''sanitized_ok''}"
  shows "add_record (node_record i n) g = Inr (AList.update i n g)"
proof -
  have "map_exc (\<lambda>v. case v of JStr s \<Rightarrow> Inr s | _ \<Rightarrow> Inl TypeError) (map JStr ss) = (Inr ss :: pyexc + string list)" for ss
    by (induction ss) auto
  then have "source_texts (JArr (map JStr (ln_sources n))) = Inr (ln_sources n)"
    by (cases "ln_sources n") (auto simp: source_texts_def py_or_def broken_def)
  then show ?thesis using assms
    by (cases n) (simp add: add_record_def node_record_def text_item_def py_item_def broken_def add_node_def jget_Cons jhas_def)
qed

lemma from_to_records:
  assumes "distinct (map fst (h @ g))"
    and "\<forall>(i, n) \<in> set g. ln_class n \<in> {''raw'', ''machine_generated'', ''sanitized_ok''}"
  shows "from_records (to_records g) h = Inr (h @ g)"
  using assms
proof (induction g arbitrary: h)
  case (Cons p g)
  obtain i n where p: "p = (i, n)" by (cases p)
  have "AList.update i n h = h @ [(i, n)]" using Cons.prems(1) by (induction h) (auto simp: p)
  then have "add_record (node_record i n) h = Inr (h @ [(i, n)])"
    using Cons.prems(2) by (subst add_record_node) (auto simp: p)
  then show ?case using Cons.IH [of "h @ [(i, n)]"] Cons.prems by (simp add: p to_records_def)
qed (simp add: to_records_def)

text \<open>Every graph that is built by adding nodes has distinct ids and known classes.\<close>

definition graph_ok :: "lgraph \<Rightarrow> bool" where
  "graph_ok g = (distinct (map fst g) \<and> list_all (\<lambda>(i, n). ln_class n \<in> {''raw'', ''machine_generated'', ''sanitized_ok''}) g)"

lemma add_node_ok: "graph_ok g \<Longrightarrow> add_node i n g = Inr g' \<Longrightarrow> graph_ok g'"
proof -
  assume g: "graph_ok g" and a: "add_node i n g = Inr g'"
  have "set (AList.update i n g) \<subseteq> insert (i, n) (set g)" by (induction g) auto
  then show ?thesis using g a
    by (auto simp: graph_ok_def add_node_def list_all_iff distinct_update split: if_splits)
qed

end
