(* ===== verification/Egress_Safety.thy ===== *)
theory Egress_Safety
  imports Egress_Dispatch Egress_Frames Egress_Origin
begin

text \<open>
  The guarantees of the egress guard: what a provider call can transmit, over the origin of its candidate.
\<close>

section \<open>What the detectors and the proof accept\<close>

lemma final_scan_Inr_iff:
  "final_scan ge ld b = Inr fs \<longleftrightarrow> (\<exists>t. b = utf8 t \<and> scan_text ge (ld_policy ld) t = Some fs)"
  by (auto simp: final_scan_def classify_def utf8_text_iff split: option.splits)

lemma bindings_hold:
  "verify_source_bindings now bs = Inr () \<longleftrightarrow>
     (\<forall>b \<in> set bs. Option.bind (binding_path b) now = Some (bd_sha b))"
  by (induction bs) auto

text \<open>A payload that parses to a closed derivative of the policy.\<close>

definition closed_derivative :: "guard_env \<Rightarrow> loaded \<Rightarrow> string \<Rightarrow> bool" where
  "closed_derivative ge ld u =
     (\<exists>doc vocab buckets. ge_loads ge u = Some (JObj doc) \<and> fst ` set doc \<subseteq> set TOP_KEYS \<and>
        jget doc ''schema'' = JStr ''sanitized_derivative-v1'' \<and> jget doc ''policy_version'' = pol_version ld \<and>
        py_in (jget doc ''template_id'') (jget (ld_policy ld) ''derivative_templates'') = Inr True \<and>
        py_set (jget (ld_policy ld) ''controlled_vocabulary'') = Inr vocab \<and>
        allowed_buckets (ld_policy ld) = Inr buckets \<and> arr_of (jget doc ''fields'') \<noteq> [] \<and>
        list_all (closed_field vocab buckets) (arr_of (jget doc ''fields'')))"

lemma construction_closed: "construction_proof ge ld u = Inr p \<Longrightarrow> closed_derivative ge ld u"
proof -
  assume "construction_proof ge ld u = Inr p"
  then obtain vocab buckets j doc where v: "py_set (jget (ld_policy ld) ''controlled_vocabulary'') = Inr vocab"
    "allowed_buckets (ld_policy ld) = Inr buckets" and j: "ge_loads ge u = Some j"
    and d: "check_document ld vocab buckets j = Inr doc"
    by (auto simp: construction_proof_def sbind_Inr_iff broken_def split: sum.splits option.splits)
  note c = check_document_closed [OF d]
  show ?thesis unfolding closed_derivative_def using v j c by blast
qed

section \<open>Enforcement\<close>

lemma enforce_Inr:
  assumes "enforce gd cx out = Some (Inr d)"
  obtains c t where "cx = Some c" and "resolve (gd_loaded gd) c = Inr d" and "d \<noteq> LocalOnly"
    and "\<forall>b \<in> set (cx_bindings c). Option.bind (binding_path b) (gd_now gd) = Some (bd_sha b)"
    and "outbound_bytes out = utf8 t" and "scan_text (gd_env gd) (ld_policy (gd_loaded gd)) t = Some []"
    and "tier_of d = ''sensitive'' \<Longrightarrow> enforce_sensitive (gd_env gd) (gd_instructions gd) (gd_loaded gd) out = Inr ()"
    and "tier_of d = ''internal_technical'' \<Longrightarrow>
      enforce_its (gd_env gd) (gd_scaffolds gd) (gd_instructions gd) c out = Some (Inr ())"
proof -
  obtain c where c: "cx = Some c" using assms by (auto simp: enforce_def split: option.splits)
  then obtain d' where f: "enforce_first gd c out = Inr d'" and "d' = d"
    using assms by (auto simp: enforce_def sbind_Inr_iff split: sum.splits if_splits)
  then have "resolve (gd_loaded gd) c = Inr d" "d \<noteq> LocalOnly"
    and "verify_source_bindings (gd_now gd) (cx_bindings c) = Inr ()"
    and "final_scan (gd_env gd) (gd_loaded gd) (outbound_bytes out) = Inr []"
    by (auto simp: enforce_first_def sbind_Inr_iff)
  moreover have "tier_of d = ''sensitive'' \<Longrightarrow> enforce_sensitive (gd_env gd) (gd_instructions gd) (gd_loaded gd) out = Inr ()"
    and "tier_of d = ''internal_technical'' \<Longrightarrow>
      enforce_its (gd_env gd) (gd_scaffolds gd) (gd_instructions gd) c out = Some (Inr ())"
    using assms f \<open>d' = d\<close> by (auto simp: enforce_def c sbind_Inr_iff)
  ultimately show thesis using that [OF c] by (auto simp: final_scan_Inr_iff bindings_hold)
qed

lemma resolve_graph:
  assumes "resolve pol cx = Inr d" and "cx_graph cx = Some g" and "cx_candidate cx = Some i"
  shows "\<exists>d0. decide_outcome pol g i = Inr d0 \<and> (d = d0 \<or> d = EscalatedOk \<and> cx_tier cx = ''sensitive'') \<and>
    (d = ItsOk \<longrightarrow> cx_lane cx = ''internal_technical'')"
  using assms by (auto simp: resolve_def sbind_Inr_iff split: if_splits)

lemma not_sensitive: "s \<noteq> Sensitive \<longleftrightarrow> s = Standard \<or> s = Its"
  by (cases s) simp_all

text \<open>The decisions of a graph: declared tiers do not occur.\<close>

lemma decided_cases: "decide_outcome pol g i = Inr d \<Longrightarrow> d \<in> {SanitizedOk, StandardOk, ItsOk, LocalOnly}"
  by (auto simp: decide_outcome_def decide_sanitized_def Let_def sbind_Inr_iff not_sensitive
      split: option.splits if_splits sens.splits)

text \<open>Below sensitive only over a clean origin.\<close>

lemma resolved_tier:
  assumes "resolve pol cx = Inr d" and "cx_graph cx = Some g" and "cx_candidate cx = Some i" and "d \<noteq> LocalOnly"
  shows "tier_of d = ''sensitive'' \<or> (d = StandardOk \<and> clean_origin g Standard i) \<or>
    (d = ItsOk \<and> clean_origin g Its i \<and> cx_lane cx = ''internal_technical'')"
proof -
  obtain d0 where d0: "decide_outcome pol g i = Inr d0" "d = d0 \<or> d = EscalatedOk \<and> cx_tier cx = ''sensitive''"
    and lane: "d = ItsOk \<Longrightarrow> cx_lane cx = ''internal_technical''"
    using resolve_graph [OF assms(1-3)] by blast
  show ?thesis using d0 lane decided_cases [OF d0(1)] assms(4) decided_origin [of pol g i] by auto
qed

lemma origin_mono: "clean_origin g s i \<Longrightarrow> s \<le> s' \<Longrightarrow> clean_origin g s' i"
  unfolding clean_origin_def node_ok_def by (meson order_trans)

text \<open>The canonical requests around a derivative.\<close>

fun canonical_derivative :: "guard_env \<Rightarrow> instructions \<Rightarrow> string \<Rightarrow> outbound \<Rightarrow> bool" where
  "canonical_derivative ge ins u (Prompt p) = (p = build_sensitive_codex_prompt ins u)"
| "canonical_derivative ge ins u (Body b) = (\<exists>model cap. b = build_sensitive_gpt_body ge ins model u cap)"

lemma enforce_sensitive_canonical:
  assumes "enforce_sensitive ge ins ld out = Inr ()"
  shows "\<exists>u. closed_derivative ge ld u \<and> canonical_derivative ge ins u out"
proof (cases out)
  case (Prompt p)
  then show ?thesis using assms
    by (auto simp: sbind_Inr_iff split: list.splits intro: construction_closed)
next
  case (Body b)
  then show ?thesis using assms by (fastforce simp: sbind_Inr_iff intro: construction_closed)
qed

lemma enforced_sensitive_origin:
  assumes e: "enforce gd (Some c) out = Some (Inr d)" and "cx_graph c = Some g" and "cx_candidate c = Some i"
    and "\<not> clean_origin g Its i"
  shows "\<exists>u. closed_derivative (gd_env gd) (gd_loaded gd) u \<and>
    canonical_derivative (gd_env gd) (gd_instructions gd) u out"
proof -
  from e have "resolve (gd_loaded gd) c = Inr d" "d \<noteq> LocalOnly"
    "tier_of d = ''sensitive'' \<Longrightarrow> enforce_sensitive (gd_env gd) (gd_instructions gd) (gd_loaded gd) out = Inr ()"
    by (auto elim: enforce_Inr)
  then show ?thesis
    using resolved_tier assms(2-4) origin_mono [of g Standard i Its] enforce_sensitive_canonical by (metis sens_bounds(1))
qed

text \<open>The internal technical lane.\<close>

fun canonical_packet :: "guard_env \<Rightarrow> instructions \<Rightarrow> composition \<Rightarrow> string \<Rightarrow> outbound \<Rightarrow> bool" where
  "canonical_packet ge ins mf packet (Prompt p) = (p = build_its_codex_prompt ins packet)"
| "canonical_packet ge ins mf packet (Body b) =
     (b = build_its_gpt_body ge ins (jget (co_binding mf) ''gpt_model'') packet (jget (co_binding mf) ''max_output_tokens''))"

lemma its_packet_Inr:
  assumes "its_packet_of ge scs ins mf out = Some (Inr packet)"
  shows "canonical_packet ge ins mf packet out \<and> (\<exists>r. verify_its_composition ge scs packet mf = Some (Inr r))"
  using assms by (cases out) (auto simp: sbind_Inr_iff Let_def split: if_splits sum.splits)

lemma map_exc_unit: "map_exc f xs = Inr ys \<Longrightarrow> x \<in> set xs \<Longrightarrow> \<exists>y. f x = Inr y"
  by (induction xs arbitrary: ys) (auto split: sum.splits)

lemma bound_component:
  assumes "bind_components cx mf = Inr ()" and "c \<in> set (co_components mf)"
  obtains g i n where "cx_graph cx = Some g" and "cx_candidate cx = Some i" and "(made_of g)\<^sup>+\<^sup>+ i (cm_id c)"
    and "lnode_at g (cm_id c) = Some n" and "node_content_hash n = Inr (JStr (cm_sha c))"
proof -
  obtain g i ys where g: "cx_graph cx = Some g" "cx_candidate cx = Some i"
    and m: "map_exc (bind_component g (reachable_from g i)) (co_components mf) = Inr ys"
    using assms(1) by (auto simp: bind_components_def sbind_Inr_iff split: option.splits)
  obtain y where b: "bind_component g (reachable_from g i) c = Inr y" using map_exc_unit [OF m assms(2)] by blast
  then have "cm_id c \<in> set (reachable_from g i)"
    by (auto simp: bind_component_def split: option.splits if_splits)
  moreover obtain n where "lnode_at g (cm_id c) = Some n" "node_content_hash n = Inr (JStr (cm_sha c))"
    using b by (auto simp: bind_component_def sbind_Inr_iff broken_def split: option.splits if_splits sum.splits)
  ultimately show thesis using g that by (auto simp: reachable_from_iff)
qed

lemma enforce_its_Inr:
  assumes "enforce_its ge scs ins cx out = Some (Inr ())"
  obtains mf packet r where "cx_its cx = Some mf" and "canonical_packet ge ins mf packet out"
    and "verify_its_composition ge scs packet mf = Some (Inr r)" and "bind_components cx mf = Inr ()"
  using assms that its_packet_Inr
  by (auto simp: enforce_its_def sbind_Inr_iff split: option.splits) blast

end
