(* ===== verification/Egress_Council.thy ===== *)
theory Egress_Council
  imports Egress_Safety
begin

text \<open>
  Where the boundary meets its callers: the candidate over declared sources dispatches as standard exactly when
  every source is proven; a council round lets its request through only over the lineage it was stamped with.
\<close>

section \<open>Proven sources\<close>

fun proven :: "provenance \<Rightarrow> bool" where
  "proven (Unproven _ _) = False"
| "proven _ = True"

text \<open>What a proven class rests on.\<close>

lemma classify_rel_proven:
  assumes "classify_rel ge sv approved fixtures repo real = Inr p" and "proven p"
  shows "path_allowed fixtures (rel_path repo real) \<or> path_allowed approved (rel_path repo real)"
    and "\<exists>b. sv_bytes sv real = Some b"
    and "path_allowed approved (rel_path repo real) \<Longrightarrow>
      sv_tracked sv repo (rel_path repo real) \<and> git_content_matches_head sv repo (rel_path repo real) real"
    and "binding_of p = (if rel_path repo real \<noteq> [] \<and> repo \<noteq> []
      then [\<lparr>bd_abspath = [], bd_repo = repo, bd_rel = rel_path repo real,
             bd_sha = ge_sha ge (the (sv_bytes sv real))\<rparr>] else [])"
  using assms
  by (auto simp: classify_rel_def Let_def sbind_Inr_iff sha256_file_def split: if_splits option.splits)

lemma classify_path_proven:
  assumes "classify_path ge sv approved fixtures root path = Inr p" and "proven p"
  shows "\<not> sv_link sv path \<and> (\<exists>real. sv_real sv (sv_abspath sv path) = Some real \<and> inside root real \<and> sv_file sv real \<and>
    classify_rel ge sv approved fixtures root real = Inr p)"
  using assms by (cases p) (auto simp: classify_path_def Let_def split: if_splits option.splits)

lemma classify_source_proven:
  assumes "classify_source ge sv ld path repo = Inr p" and "proven p"
  shows "\<exists>root approved fixtures. sv_real sv repo = Some root \<and> sv_normcase sv root \<in> set (ld_roots ld) \<and>
    policy_paths (ld_policy ld) ''approved_repo_paths'' = Inr approved \<and>
    policy_paths (ld_policy ld) ''synthetic_fixture_paths'' = Inr fixtures \<and>
    classify_path ge sv approved fixtures root path = Inr p"
  using assms by (cases p) (auto simp: classify_source_def sbind_Inr_iff split: if_splits option.splits)

lemma raw_level_prov: "raw_level (jget (obj_of (prov_json p)) ''class'') = (if proven p then Standard else Sensitive)"
  by (cases p) (auto simp: raw_level_def STANDARD_PROVENANCE_def ITS_ROOT_PROVENANCE_def jget_Cons)

lemma prov_field_prov: "prov_field (raw_node (prov_json p)) ''class'' = Inr (jget (obj_of (prov_json p)) ''class'')"
  by (cases p) (auto simp: prov_field_def raw_node_def py_or_def broken_def)

section \<open>The candidate\<close>

definition source_id :: "guard_env \<Rightarrow> nat \<Rightarrow> string \<Rightarrow> provenance \<Rightarrow> string" where
  "source_id ge i p rec = ''src-'' @ str_nat i @ ''-'' @ name_part ge p rec"

fun source_ids :: "guard_env \<Rightarrow> nat \<Rightarrow> string list \<Rightarrow> provenance list \<Rightarrow> string list" where
  "source_ids ge i (p # ps) (r # rs) = source_id ge i p r # source_ids ge (Suc i) ps rs"
| "source_ids ge i _ _ = []"

lemma str_nat_dash_inj: "str_nat i @ CHR ''-'' # x = str_nat j @ CHR ''-'' # y \<Longrightarrow> i = j"
proof -
  assume e: "str_nat i @ CHR ''-'' # x = str_nat j @ CHR ''-'' # y"
  have t: "takeWhile is_digit (str_nat k @ CHR ''-'' # z) = str_nat k" for k z
    using nat_digits_all [of k] by (subst takeWhile_append2) (auto simp: str_nat_def list_all_iff is_digit_def)
  have "str_nat i = str_nat j" using arg_cong [OF e, of "takeWhile is_digit"] by (simp only: t)
  then show ?thesis by simp
qed

lemma source_id_inj: "source_id ge i p r = source_id ge j q r' \<Longrightarrow> i = j"
  by (auto simp: source_id_def dest: str_nat_dash_inj)

lemma source_ids_form: "s \<in> set (source_ids ge i ps rs) \<Longrightarrow> \<exists>j \<ge> i. \<exists>p r. s = source_id ge j p r"
  by (induction ge i ps rs rule: source_ids.induct) (auto, metis Suc_leD)

lemma source_id_fresh: "source_id ge i p r \<notin> set (source_ids ge (Suc i) ps rs)"
  using source_ids_form [of "source_id ge i p r" ge "Suc i" ps rs] source_id_inj by fastforce

lemma source_ids_Nil: "length rs = length ps \<Longrightarrow> source_ids ge i ps rs = [] \<longleftrightarrow> ps = []"
  by (cases ps; cases rs) auto

lemma lnode_at_update [simp]: "lnode_at (AList.update i n g) j = (if i = j then Some n else lnode_at g j)"
  by (simp add: lnode_at_def update_conv')

lemma add_sources_Inr:
  assumes "add_sources ge sv ld repo i ps (g, ids, bs) = Inr (g', ids', bs')"
  shows "\<exists>rs. map_exc (\<lambda>p. classify_source ge sv ld p repo) ps = Inr rs \<and> ids' = ids @ source_ids ge i ps rs \<and>
    bs' = bs @ concat (map binding_of rs) \<and>
    (\<forall>s. s \<notin> set (source_ids ge i ps rs) \<longrightarrow> lnode_at g' s = lnode_at g s) \<and>
    list_all2 (\<lambda>s r. lnode_at g' s = Some (raw_node (prov_json r))) (source_ids ge i ps rs) rs"
  using assms
proof (induction ps arbitrary: i g ids bs)
  case (Cons p ps)
  obtain r g1 where r: "classify_source ge sv ld p repo = Inr r"
    and g1: "g1 = AList.update (source_id ge i p r) (raw_node (prov_json r)) g"
    and rest: "add_sources ge sv ld repo (Suc i) ps (g1, ids @ [source_id ge i p r], bs @ binding_of r) = Inr (g', ids', bs')"
    using Cons.prems by (auto simp: sbind_Inr_iff broken_def add_node_def raw_node_def source_id_def Let_def split: sum.splits)
  obtain rs where rs: "map_exc (\<lambda>p. classify_source ge sv ld p repo) ps = Inr rs"
    "ids' = (ids @ [source_id ge i p r]) @ source_ids ge (Suc i) ps rs"
    "bs' = (bs @ binding_of r) @ concat (map binding_of rs)"
    and old: "\<forall>s. s \<notin> set (source_ids ge (Suc i) ps rs) \<longrightarrow> lnode_at g' s = lnode_at g1 s"
    and new: "list_all2 (\<lambda>s r. lnode_at g' s = Some (raw_node (prov_json r))) (source_ids ge (Suc i) ps rs) rs"
    using Cons.IH [OF rest] by blast
  have "lnode_at g' (source_id ge i p r) = Some (raw_node (prov_json r))"
    using old source_id_fresh by (simp add: g1)
  then show ?case using rs old new r by (intro exI [of _ "r # rs"]) (auto simp: g1)
qed auto


lemma resolve_raw:
  assumes "lnode_at g s = Some (raw_node (prov_json r))" and "s \<notin> set stack"
  shows "resolve_sensitivity g stack s = Inr (if proven r then Standard else Sensitive)"
  using assms raw_level_prov [of r] prov_field_prov [of r]
  by (subst resolve_sensitivity.simps) (simp add: raw_node_def over_sources_def)

lemma worst_of_raw:
  assumes "list_all2 (\<lambda>s r. lnode_at g s = Some (raw_node (prov_json r))) ss rs" and "c \<notin> set ss"
  shows "worst_of (resolve_sensitivity g [c]) ss = Inr (if list_all proven rs then Standard else Sensitive)"
  using assms
proof (induction rule: list_all2_induct)
  case (Cons s ss r rs)
  then have "resolve_sensitivity g [c] s = Inr (if proven r then Standard else Sensitive)" by (intro resolve_raw) auto
  then show ?case using Cons by simp
qed simp

text \<open>A candidate over raw sources.\<close>

lemma decide_candidate:
  assumes c: "lnode_at g c = Some (machine_node ss dm)" and "c \<notin> set ss"
    and "list_all2 (\<lambda>s r. lnode_at g s = Some (raw_node (prov_json r))) ss rs"
  shows "decide_outcome pol g c = Inr StandardOk \<longleftrightarrow> ss \<noteq> [] \<and> list_all proven rs"
proof -
  note w = worst_of_raw [OF assms(3,2)]
  have r: "resolve_sensitivity g [] c =
      (if ss = [] then Inl (Blocked ''lineage_ambiguous'') else Inr (if list_all proven rs then Standard else Sensitive))"
    using w c by (subst resolve_sensitivity.simps) (simp add: machine_node_def over_sources_def)
  have "assert_no_standard_over_sensitive g c = Inr ()"
    using w c by (simp add: assert_no_standard_over_sensitive_def machine_node_def prov_field_def py_or_def broken_def
        max_sources_def STANDARD_PROVENANCE_def image_iff)
  then show ?thesis using c by (auto simp: decide_outcome_def r machine_node_def)
qed

definition candidate_name :: "string \<Rightarrow> bool" where
  "candidate_name c = (\<not> has_prefix ''src-'' c \<and> c \<noteq> ''inline-unverified'')"

lemma candidate_not_source: "candidate_name c \<Longrightarrow> c \<notin> set (source_ids ge i ps rs)"
  using source_ids_form [of c ge i ps rs] by (auto simp: candidate_name_def source_id_def has_prefix_def)

lemma inline_not_source: "''inline-unverified'' \<notin> set (source_ids ge i ps rs)"
  using source_ids_form [of "''inline-unverified''" ge i ps rs] by (auto simp: source_id_def)

text \<open>The built candidate is standard exactly when it has sources, all proven, and no inline content.\<close>

lemma built_candidate:
  assumes b: "build_candidate_graph ge sv ld paths repo cand domain unverified = Inr (g, bs)" and n: "candidate_name cand"
  shows "\<exists>rs. map_exc (\<lambda>p. classify_source ge sv ld p repo) paths = Inr rs \<and> bs = concat (map binding_of rs) \<and>
    (decide_outcome pol g cand = Inr StandardOk \<longleftrightarrow> paths \<noteq> [] \<and> \<not> unverified \<and> list_all proven rs)"
proof -
  let ?inl = "Unproven ''inline_content'' None"
  obtain g1 ids where a: "add_sources ge sv ld repo 0 paths ([], [], []) = Inr (g1, ids, bs)"
    and g: "g = AList.update cand (machine_node (ids @ (if unverified then [''inline-unverified''] else [])) domain)
      (if unverified then AList.update ''inline-unverified'' (raw_node (prov_json ?inl)) g1 else g1)"
    using b by (auto simp: build_candidate_graph_def sbind_Inr_iff add_node_def raw_node_def machine_node_def split: if_splits)
  obtain rs where rs: "map_exc (\<lambda>p. classify_source ge sv ld p repo) paths = Inr rs" and ids: "ids = source_ids ge 0 paths rs"
    and bs: "bs = concat (map binding_of rs)"
    and nodes: "list_all2 (\<lambda>s r. lnode_at g1 s = Some (raw_node (prov_json r))) ids rs"
    using add_sources_Inr [OF a] by auto
  have len: "length rs = length paths" using map_exc_Inr_length [OF rs] .
  have fresh: "cand \<notin> set ids" "''inline-unverified'' \<notin> set ids" "cand \<noteq> ''inline-unverified''"
    using n candidate_not_source inline_not_source by (auto simp: ids candidate_name_def)
  have keep: "lnode_at g s = lnode_at g1 s" if "s \<in> set ids" for s using that fresh by (auto simp: g)
  have nodes': "list_all2 (\<lambda>s r. lnode_at g s = Some (raw_node (prov_json r))) ids rs"
    using nodes keep by (auto simp: list_all2_conv_all_nth)
  have inl: "unverified \<Longrightarrow> lnode_at g ''inline-unverified'' = Some (raw_node (prov_json ?inl))"
    using fresh by (simp add: g)
  have "list_all2 (\<lambda>s r. lnode_at g s = Some (raw_node (prov_json r)))
      (ids @ (if unverified then [''inline-unverified''] else [])) (rs @ (if unverified then [?inl] else []))"
    using nodes' inl by (auto intro!: list_all2_appendI)
  moreover have "lnode_at g cand = Some (machine_node (ids @ (if unverified then [''inline-unverified''] else [])) domain)"
    by (simp add: g)
  ultimately have "decide_outcome pol g cand = Inr StandardOk \<longleftrightarrow>
      ids @ (if unverified then [''inline-unverified''] else []) \<noteq> [] \<and> list_all proven (rs @ (if unverified then [?inl] else []))"
    using fresh by (intro decide_candidate) auto
  then show ?thesis using rs bs source_ids_Nil [OF len] by (auto simp: ids)
qed

section \<open>Council rounds\<close>

lemma fold_update_at:
  "\<forall>(i, n) \<in> set ex. n = f i \<Longrightarrow> lnode_at (fold (\<lambda>(i, n). AList.update i n) ex g) j =
     (if j \<in> fst ` set ex then Some (f j) else lnode_at g j)"
  by (induction ex arbitrary: g) auto

lemma unproven_not_ok: "s \<noteq> Sensitive \<Longrightarrow> \<not> node_ok s (unproven_node why)"
  using raw_level_prov [of "Unproven why None"] prov_field_prov [of "Unproven why None"]
  by (auto simp: node_ok_def unproven_node_def raw_node_def)

text \<open>The candidate over a sensitive extra source has no clean origin and is a machine node.\<close>

lemma fold_in_candidate:
  assumes "ex \<noteq> []"
  shows "\<exists>ss dm. lnode_at (fold_in ex c g) c = Some (machine_node ss dm) \<and> fst ` set ex \<subseteq> set ss"
proof (cases "lnode_at (fold (\<lambda>(i, n). AList.update i n) ex g) c")
  case None
  then have "lnode_at (fold_in ex c g) c = Some (machine_node (map fst ex) JNull)" using assms by (simp add: fold_in_def)
  moreover have "fst ` set ex \<subseteq> set (map fst ex)" by simp
  ultimately show ?thesis by blast
next
  case (Some n)
  then have "lnode_at (fold_in ex c g) c = Some (machine_node (ln_sources n @ map fst ex) (ln_domain n))"
    using assms by (simp add: fold_in_def)
  moreover have "fst ` set ex \<subseteq> set (ln_sources n @ map fst ex)" by simp
  ultimately show ?thesis by blast
qed

lemma fold_last:
  "ex \<noteq> [] \<Longrightarrow> \<exists>n \<in> snd ` set ex. lnode_at (fold (\<lambda>(i, n). AList.update i n) ex g) (fst (last ex)) = Some n"
  by (induction ex arbitrary: g rule: rev_induct) auto

lemma fold_in_source:
  assumes "ex \<noteq> []" and "fst (last ex) \<noteq> c"
  shows "\<exists>n \<in> snd ` set ex. lnode_at (fold_in ex c g) (fst (last ex)) = Some n"
  using fold_last [OF assms(1), of g] assms by (auto simp: fold_in_def Let_def split: option.splits)

lemma extra_unproven: "n \<in> snd ` set (extra_sources ge r) \<Longrightarrow> \<exists>why. n = unproven_node why"
  by (auto simp: extra_sources_def split: if_splits)

lemma extra_not_clean:
  assumes ne: "extra_sources ge r \<noteq> []"
  shows "\<not> clean_origin (fold_in (extra_sources ge r) c g) Its c"
proof
  let ?ex = "extra_sources ge r" and ?g = "fold_in (extra_sources ge r) c g" and ?e = "fst (last (extra_sources ge r))"
  assume clean: "clean_origin ?g Its c"
  have "?e \<in> fst ` set ?ex" using last_in_set [OF ne] by blast
  then have "made_of ?g c ?e"
    using fold_in_candidate [OF ne, of c g] unfolding made_of_def machine_node_def by fastforce
  then have e: "(made_of ?g)\<^sup>*\<^sup>* c ?e" "?e = c \<Longrightarrow> (made_of ?g)\<^sup>+\<^sup>+ c c" by auto
  then have "?e \<noteq> c" using clean by (auto simp: clean_origin_def)
  then obtain n where "n \<in> snd ` set ?ex" "lnode_at ?g ?e = Some n" using fold_in_source [OF ne] by blast
  moreover have "\<not> node_ok Its n" using extra_unproven [OF calculation(1)] unproven_not_ok [of Its] by auto
  ultimately show False using clean e(1) by (auto simp: clean_origin_def)
qed

lemma machine_decision:
  assumes "lnode_at g c = Some (machine_node ss dm)" and "\<not> clean_origin g Its c" and "decide_outcome pol g c = Inr d"
  shows "d = LocalOnly"
proof -
  have "d \<noteq> SanitizedOk"
    using assms(1,3)
    by (auto simp: decide_outcome_def machine_node_def sbind_Inr_iff not_sensitive split: sens.splits if_splits)
  then show ?thesis
    using decided_cases [OF assms(3)] decided_origin [of pol g c] assms(2,3) origin_mono [of g Standard c Its] by auto
qed

text \<open>What a round's context says.\<close>

lemma egress_context_Inr:
  "egress_context tier g c bs req lane its = Inr cx \<Longrightarrow>
    cx_tier cx = tier \<and> cx_graph cx = g \<and> cx_candidate cx = c \<and> cx_bindings cx = bs \<and> cx_require cx = req"
  by (auto simp: egress_context_def split: if_splits)

lemma round_context_Inr:
  assumes "round_context ge r = Inr cx"
  shows "cx_require cx \<and> cx_candidate cx = dr_candidate r \<and> cx_bindings cx = dr_bindings r \<and>
    (\<exists>g. round_graph r = Inr g \<and>
      cx_graph cx = (case (g, dr_candidate r) of (Some h, Some c) \<Rightarrow> Some (fold_in (extra_sources ge r) c h) | _ \<Rightarrow> g) \<and>
      (g \<noteq> None \<and> stale_content r \<longrightarrow> cx_tier cx = ''sensitive''))"
proof -
  obtain g where g: "round_graph r = Inr g" using assms by (auto simp: round_context_def sbind_Inr_iff)
  have "cx_tier cx = (if g \<noteq> None \<and> stale_content r then ''sensitive''
      else if dr_sensitivity r = JStr ''sensitive'' then ''sensitive'' else ''standard'') \<and>
    cx_graph cx = (case (g, dr_candidate r) of (Some h, Some c) \<Rightarrow> Some (fold_in (extra_sources ge r) c h) | _ \<Rightarrow> g) \<and>
    cx_candidate cx = dr_candidate r \<and> cx_bindings cx = dr_bindings r \<and> cx_require cx"
    using assms egress_context_Inr unfolding round_context_def g sbind_simps Let_def by blast
  then show ?thesis using g by simp
qed

lemma resolve_requires:
  "resolve pol cx = Inr d \<Longrightarrow> cx_require cx \<Longrightarrow> \<exists>g c. cx_graph cx = Some g \<and> cx_candidate cx = Some c"
  by (auto simp: resolve_def split: option.splits)

lemma round_enforced:
  assumes r: "round_context ge r = Inr cx" and e: "enforce gd (Some cx) out = Some (Inr d)"
  shows "extra_sources ge r = [] \<and> (stale_content r \<longrightarrow> tier_of d = ''sensitive'')"
proof -
  have res: "resolve (gd_loaded gd) cx = Inr d" and local: "d \<noteq> LocalOnly" using e by (auto elim: enforce_Inr)
  obtain g c where g: "cx_graph cx = Some g" "cx_candidate cx = Some c"
    using resolve_requires [OF res] round_context_Inr [OF r] by blast
  obtain d0 where d0: "decide_outcome (gd_loaded gd) g c = Inr d0" "d = d0 \<or> d = EscalatedOk \<and> cx_tier cx = ''sensitive''"
    using resolve_graph [OF res g] by blast
  obtain h where h: "round_graph r = Inr (Some h)" "g = fold_in (extra_sources ge r) c h" "dr_candidate r = Some c"
    and stale: "stale_content r \<Longrightarrow> cx_tier cx = ''sensitive''"
    using round_context_Inr [OF r] g by (auto split: option.splits)
  have "extra_sources ge r = []"
  proof (rule ccontr)
    assume ne: "extra_sources ge r \<noteq> []"
    have n: "\<not> clean_origin g Its c" using extra_not_clean [OF ne] by (simp add: h(2))
    obtain ss dm where "lnode_at g c = Some (machine_node ss dm)"
      using fold_in_candidate [OF ne, of c h] unfolding h(2) by blast
    then have "d0 = LocalOnly" using machine_decision [OF _ n d0(1)] by blast
    moreover have "resolve (gd_loaded gd) cx \<noteq> Inr EscalatedOk" using d0(1) calculation g by (simp add: resolve_def)
    ultimately show False using d0(2) local res by auto
  qed
  moreover have "tier_of d = ''sensitive''" if "stale_content r"
    using stale [OF that] res g d0 decided_cases [OF d0(1)]
    by (auto simp: resolve_def sbind_Inr_iff split: if_splits)
  ultimately show ?thesis by blast
qed

end
