(* ===== verification/Egress_Promises.thy ===== *)
theory Egress_Promises
  imports Egress_Council
begin

text \<open>
  The promises of the egress guard to the operator, each with a concrete run that meets its conditions, and the
  places where the code keeps less than its documentation says.
\<close>

section \<open>A concrete guard\<close>

definition demo_policy :: json where
  "demo_policy = JObj
     [(''policy_version'', JStr ''1.0.0''), (''tripwires'', JObj [(''ssn'', JStr ''SSN'')]), (''contextual_terms'', JArr []),
      (''identity_signals'', JArr []), (''approved_repo_identity'', JStr ''cw''), (''approved_repo_paths'', JArr [JStr ''src/'']),
      (''synthetic_fixture_paths'', JArr [JStr ''fx/'']), (''controlled_vocabulary'', JArr [JStr ''code_a'']),
      (''derivative_templates'', JObj [(''t1'', JStr ''review'')])]"

definition demo_derivative :: json where
  "demo_derivative = JObj
     [(''schema'', JStr ''sanitized_derivative-v1''), (''policy_version'', JStr ''1.0.0''), (''template_id'', JStr ''t1''),
      (''fields'', JArr [JObj [(''code'', JStr ''code_a''), (''token'', JStr ''PERSON-1'')]])]"

definition demo_body :: json where
  "demo_body = JObj [(''model'', JStr ''m''),
     (''input'', JArr [JObj [(''role'', JStr ''user''), (''content'', JStr ''D'')]])]"

definition eg_env :: guard_env where
  "eg_env = demo_guard\<lparr>
     ge_loads := (\<lambda>t. if t = ''P'' then Some demo_policy else if t = ''D'' then Some demo_derivative
       else if t = ''B'' then Some demo_body else None),
     ge_dumps := (\<lambda>j. ''B''), ge_canonical := (\<lambda>j. ''D'')\<rparr>"

definition eg_world :: guard_world where
  "eg_world = \<lparr>gw_env = eg_env, gw_local = \<lparr>le_path = None, le_read = (\<lambda>p. None), le_root = Some\<rparr>,
     gw_policy = PolicyBytes ''P'', gw_scaffolds = register_its_scaffold eg_env ''v1'' ''S'' [],
     gw_instructions = \<lparr>in_sensitive = ''Review.'', in_its_gpt = ''Review.'', in_its_codex = ''Review.''\<rparr>,
     gw_now = (\<lambda>p. if p = ''/r/src/a'' then Some ''h1'' else None), gw_callers = [''clearwright_gpt_review'']\<rparr>"

definition demo_loaded :: loaded where
  "demo_loaded = (case load_policy eg_env (gw_local eg_world) None (PolicyBytes ''P'') of Inr ld \<Rightarrow> ld)"

definition approved_node :: lnode where
  "approved_node = raw_node (JObj [(''class'', JStr ''approved_repo_file'')])"

definition demo_graph :: lgraph where
  "demo_graph = [(''s'', approved_node), (''cand'', machine_node [''s''] JNull)]"

definition demo_ctx :: "string \<Rightarrow> lgraph \<Rightarrow> egress_ctx" where
  "demo_ctx tier g = \<lparr>cx_tier = tier, cx_graph = Some g, cx_candidate = Some ''cand'',
     cx_bindings = [\<lparr>bd_abspath = [], bd_repo = ''/r'', bd_rel = ''src/a'', bd_sha = ''h1''\<rparr>], cx_require = True,
     cx_lane = ''user'', cx_its = None\<rparr>"

section \<open>Provider calls\<close>

lemma live_enforce_Inr:
  assumes "live_enforce w caller cx out = Some (Inr d)"
  obtains gd where "live_guard w caller = Inr gd" and "enforce gd cx out = Some (Inr d)"
    and "gd_env gd = gw_env w" and "gd_scaffolds gd = gw_scaffolds w" and "gd_instructions gd = gw_instructions w"
    and "gd_now gd = gw_now w" and "caller \<in> set (gw_callers w)"
    and "load_policy (gw_env w) (gw_local w) None (gw_policy w) = Inr (gd_loaded gd)"
  using assms that by (auto simp: live_enforce_def live_guard_def sbind_Inr_iff split: sum.splits)

text \<open>C16: whatever \<open>gpt_send\<close> transmits is exactly the body it was given, to the one provider address under
  the resolved key, for a registered adapter, and only after the policy loaded, the scan of those very bytes found
  nothing, and every source bound to the packet still had the content it was verified with.\<close>

lemma provider_call_exact:
  assumes "gpt_send w key send caller cx body = Some (Inr r)"
  shows "\<exists>k ld c t. key = Some k \<and> \<not> blank k \<and>
    r = send RESPONSES_URL [(''Authorization'', ''Bearer '' @ strip k), (''Content-Type'', ''application/json'')] body \<and>
    caller \<in> set (gw_callers w) \<and> load_policy (gw_env w) (gw_local w) None (gw_policy w) = Inr ld \<and>
    cx = Some c \<and> body = utf8 t \<and> scan_text (gw_env w) (ld_policy ld) t = Some [] \<and>
    list_all (\<lambda>b. Option.bind (binding_path b) (gw_now w) = Some (bd_sha b)) (cx_bindings c)"
proof -
  obtain d where l: "live_enforce w caller cx (Body body) = Some (Inr d)" and k: "usable_key key"
    and r: "r = send RESPONSES_URL
      [(''Authorization'', ''Bearer '' @ strip (the key)), (''Content-Type'', ''application/json'')] body"
    using assms by (auto simp: gpt_send_def sbind_Inr_iff split: if_splits)
  from l obtain gd where e: "enforce gd cx (Body body) = Some (Inr d)" and g: "gd_env gd = gw_env w" "gd_now gd = gw_now w"
    and w: "caller \<in> set (gw_callers w)" "load_policy (gw_env w) (gw_local w) None (gw_policy w) = Inr (gd_loaded gd)"
    by (rule live_enforce_Inr)
  from e obtain c t where "cx = Some c" "\<forall>b \<in> set (cx_bindings c). Option.bind (binding_path b) (gd_now gd) = Some (bd_sha b)"
    "outbound_bytes (Body body) = utf8 t" "scan_text (gd_env gd) (ld_policy (gd_loaded gd)) t = Some []"
    by (rule enforce_Inr)
  then show ?thesis using r k w g by (auto simp: usable_key_def list_all_iff split: option.splits)
qed

lemma provider_call_exact_witness:
  "\<exists>c t. Some (demo_ctx ''standard'' demo_graph) = Some c \<and> ''hello'' = utf8 t \<and>
    list_all (\<lambda>b. Option.bind (binding_path b) (gw_now eg_world) = Some (bd_sha b)) (cx_bindings c)"
proof -
  have "gpt_send eg_world (Some ''key'') (\<lambda>u h b. b) ''clearwright_gpt_review''
      (Some (demo_ctx ''standard'' demo_graph)) ''hello'' = Some (Inr ''hello'')" by code_simp
  from provider_call_exact [OF this] show ?thesis by blast
qed

section \<open>Sensitive material\<close>

text \<open>C15: material whose origin is not clean leaves only as the canonical request around a payload that parses to
  a closed derivative: over every registered call, for either provider, when the context has a lineage whose
  candidate is made of anything missing, cyclic, escalated, unproven or unscanned.\<close>

lemma sensitive_only_as_derivative:
  assumes "live_enforce w caller (Some c) out = Some (Inr d)" and "cx_graph c = Some g" and "cx_candidate c = Some i"
    and "\<not> clean_origin g Its i"
  shows "\<exists>ld u. load_policy (gw_env w) (gw_local w) None (gw_policy w) = Inr ld \<and> closed_derivative (gw_env w) ld u \<and>
    canonical_derivative (gw_env w) (gw_instructions w) u out"
  using assms(1)
proof (rule live_enforce_Inr)
  fix gd
  assume "enforce gd (Some c) out = Some (Inr d)" and "gd_env gd = gw_env w" and "gd_instructions gd = gw_instructions w"
    and "load_policy (gw_env w) (gw_local w) None (gw_policy w) = Inr (gd_loaded gd)"
  then show ?thesis using enforced_sensitive_origin [of gd c out d g i] assms(2-4) by auto
qed

lemma not_clean_if_sensitive: "resolve_sensitivity g [] i = Inr Sensitive \<Longrightarrow> \<not> clean_origin g Its i"
  using resolve_le_iff [of Its g i] by auto

definition sanitized_graph :: lgraph where
  "sanitized_graph = [(''s'', unproven_node ''inline_content''),
     (''cand'', sanitized_node demo_loaded ''s'' [(''template_id'', JStr ''t1'')])]"

lemma sensitive_only_as_derivative_witness:
  "\<exists>ld u. load_policy eg_env (gw_local eg_world) None (PolicyBytes ''P'') = Inr ld \<and> closed_derivative eg_env ld u \<and>
    canonical_derivative eg_env (gw_instructions eg_world) u (Body ''B'')"
proof -
  have l: "live_enforce eg_world ''clearwright_gpt_review'' (Some (demo_ctx ''sensitive'' sanitized_graph)) (Body ''B'') =
      Some (Inr SanitizedOk)" by code_simp
  have "resolve_sensitivity sanitized_graph [] ''cand'' = Inr Sensitive" by code_simp
  from sensitive_only_as_derivative [OF l _ _ not_clean_if_sensitive [OF this]] show ?thesis
    by (simp add: demo_ctx_def eg_world_def)
qed

section \<open>The internal technical lane\<close>


definition its_graph :: lgraph where
  "its_graph = [(''sc'', raw_node (JObj [(''class'', JStr ''fixed_scaffold'')])),
     (''a'', (machine_node [''sc''] JNull)\<lparr>ln_derived := JObj [(''scan_passed'', JBool True)],
        ln_hash := JStr (ge_sha eg_env ''finding'')\<rparr>),
     (''cand'', machine_node [''sc'', ''a''] JNull)]"

definition its_built :: "string \<times> composition" where
  "its_built = (case build_its_packet eg_env (gw_scaffolds eg_world) ''v1'' [(''a'', ''finding'')] of Inr x \<Rightarrow> x)"

definition its_ctx :: egress_ctx where
  "its_ctx = (demo_ctx ''internal_technical'' its_graph)\<lparr>cx_lane := ''internal_technical'', cx_its := Some (snd its_built)\<rparr>"



section \<open>Origins and candidates\<close>



text \<open>C22: the candidate built over declared sources may dispatch as standard exactly when it has sources, every
  one classified as proven, and no inline content; its bindings are exactly those of the sources.\<close>

lemma candidate_standard_exact:
  assumes "build_candidate_graph ge sv ld paths repo cand domain unverified = Inr (g, bs)" and "candidate_name cand"
  shows "\<exists>rs. map_exc (\<lambda>p. classify_source ge sv ld p repo) paths = Inr rs \<and> bs = concat (map binding_of rs) \<and>
    (decide_outcome pol g cand = Inr StandardOk \<longleftrightarrow> paths \<noteq> [] \<and> \<not> unverified \<and> list_all proven rs)"
  by (rule built_candidate [OF assms])

definition eg_view :: "bool \<Rightarrow> source_view" where
  "eg_view clean_tree = \<lparr>sv_real = Some, sv_normcase = (\<lambda>p. p), sv_abspath = (\<lambda>p. p), sv_link = (\<lambda>p. False),
     sv_file = (\<lambda>p. True), sv_bytes = (\<lambda>p. Some ''x''), sv_tracked = (\<lambda>r p. True),
     sv_hash_object = (\<lambda>r p. Some ''b1''), sv_head_blob = (\<lambda>r p. Some (if clean_tree then ''b1'' else ''b0'')),
     sv_head = (\<lambda>r. Some ''c'')\<rparr>"

lemma candidate_standard_exact_witness:
  "\<exists>g bs. build_candidate_graph eg_env (eg_view True) (demo_loaded\<lparr>ld_roots := [''/r'']\<rparr>) [''/r/src/a''] ''/r'' ''cand''
      JNull False = Inr (g, bs) \<and> decide_outcome demo_loaded g ''cand'' = Inr StandardOk \<and> map bd_rel bs = [''src/a'']"
proof -
  let ?ld = "demo_loaded\<lparr>ld_roots := [''/r'']\<rparr>"
  have b: "map_option (\<lambda>_. ()) (case build_candidate_graph eg_env (eg_view True) ?ld [''/r/src/a''] ''/r'' ''cand'' JNull False of
      Inr x \<Rightarrow> Some x | _ \<Rightarrow> None) = Some ()" by code_simp
  then obtain g bs where gb: "build_candidate_graph eg_env (eg_view True) ?ld [''/r/src/a''] ''/r'' ''cand'' JNull False =
      Inr (g, bs)" by (auto split: sum.splits)
  have n: "candidate_name ''cand''" by code_simp
  have c: "map_exc (\<lambda>p. classify_source eg_env (eg_view True) ?ld p ''/r'') [''/r/src/a''] =
      Inr [Approved ''src/a'' (ge_sha eg_env ''x'') ''/r'' (Some ''c'')]" by code_simp
  show ?thesis using candidate_standard_exact [OF gb n, of demo_loaded] gb unfolding c by auto
qed

text \<open>A locally changed file is not proven.\<close>

lemma uncommitted_is_sensitive:
  "classify_source eg_env (eg_view False) (demo_loaded\<lparr>ld_roots := [''/r'']\<rparr>) ''/r/src/a'' ''/r'' =
     Inr (Unproven ''source_uncommitted'' (path_sha eg_env ''src/a''))"
  by code_simp

section \<open>Council rounds\<close>


definition eg_round :: "json \<Rightarrow> string list \<Rightarrow> round_request" where
  "eg_round stamp arts = \<lparr>dr_sensitivity = JNull, dr_lineage = JArr (to_records demo_graph), dr_candidate = Some ''cand'',
     dr_stamp = stamp, dr_bindings = [], dr_incoming = ''h'', dr_artifacts = arts, dr_augmented = False\<rparr>"

definition eg_round_ctx :: "json \<Rightarrow> string list \<Rightarrow> egress_ctx" where
  "eg_round_ctx stamp arts = (case round_context eg_env (eg_round stamp arts) of Inr cx \<Rightarrow> cx)"


text \<open>The same round with an artifact, or without a stamp, is refused.\<close>

lemma artifact_round_refused:
  "live_enforce eg_world ''clearwright_gpt_review'' (Some (eg_round_ctx (JStr ''h'') [''a1''])) (Body ''hello'') =
     Some (Inl (Blocked ''sensitive_requires_derivative''))"
  "live_enforce eg_world ''clearwright_gpt_review'' (Some (eg_round_ctx JNull [])) (Body ''hello'') =
     Some (Inl (Blocked ''construction_parse_failed''))"
  by code_simp+

section \<open>Packets\<close>

text \<open>C23: a packet the guard builds is accepted exactly under the manifests that name its scaffold's hash and its
  components in their order with their content hashes, whatever the components contain, and the verifier returns.\<close>

lemma built_packet_exact:
  assumes "build_its_packet ge scs version cs = Inr (packet, mf)" and "frameable ge scs version cs"
  shows "verify_its_composition ge scs packet mf' \<noteq> None \<and>
    (verify_its_composition ge scs packet mf' = Some (Inr r) \<longleftrightarrow>
       r = (version, length cs) \<and> co_scaffold mf' = co_scaffold mf \<and>
       map (\<lambda>c. (cm_id c, cm_sha c)) (co_components mf') = map (\<lambda>(i, t). (i, ge_sha ge (utf8 t))) cs)"
  using built_packet_verdict [OF assms] built_packet_frames [OF assms] by (simp add: verify_its_composition_def)

lemma built_packet_exact_witness:
  "verify_its_composition eg_env (gw_scaffolds eg_world) (fst its_built) (snd its_built) = Some (Inr (''v1'', 1))"
proof -
  have b: "build_its_packet eg_env (gw_scaffolds eg_world) ''v1'' [(''a'', ''finding'')] = Inr (fst its_built, snd its_built)"
    by code_simp
  have f: "frameable eg_env (gw_scaffolds eg_world) ''v1'' [(''a'', ''finding'')]" by code_simp
  have "map (\<lambda>c. (cm_id c, cm_sha c)) (co_components (snd its_built)) =
      map (\<lambda>(i, t). (i, ge_sha eg_env (utf8 t))) [(''a'', ''finding'')]" by code_simp
  then show ?thesis using built_packet_exact [OF b f] by simp
qed

section \<open>Reviewer output\<close>

text \<open>What is stored of a reviewer's output: the text itself, scanned and free of every category but look-alike
  characters, or a fixed notice that holds none of it.\<close>

lemma redaction_exact:
  "redact_for_persistence ge ld t = (stored, fs) \<Longrightarrow>
     (stored = t \<and> scan_text ge (ld_policy ld) t = Some fs \<and> list_all (\<lambda>f. fst f = ''unicode_confusable'') fs) \<or>
     stored = ''[reviewer output withheld: residue scan failed closed]'' \<or>
     (\<exists>n. stored = ''[reviewer output withheld: residual-sensitive-data scan hit '' @ str_nat n @
                   '' category(ies); findings recorded content-free]'')"
  by (auto simp: redact_for_persistence_def Let_def filter_empty_conv list_all_iff split: option.splits if_splits)

section \<open>The sanitiser\<close>

text \<open>A derivative the sanitiser registered dispatches when its source resolves, and its payload is closed.\<close>

lemma sanitized_node_dispatches:
  assumes "sanitize_clinical ge ld fs template_id source domain g = Inr (payload, nid, g')"
    and "resolve_sensitivity g' [nid] source = Inr s"
  shows "decide_outcome ld g' nid = Inr SanitizedOk" and "closed_derivative ge ld payload"
proof -
  obtain p where p: "construction_proof ge ld payload = Inr p"
    and g': "g' = AList.update nid (sanitized_node ld source p) g"
    using assms(1) by (auto simp: sanitize_clinical_def sbind_Inr_iff Let_def add_node_def sanitized_node_def)
  then show "closed_derivative ge ld payload" by (auto intro: construction_closed)
  have "p \<noteq> []" using p by (auto simp: construction_proof_def sbind_Inr_iff split: option.splits)
  then show "decide_outcome ld g' nid = Inr SanitizedOk"
    using assms(2) unfolding g'
    by (simp add: decide_outcome_def decide_sanitized_def assert_no_standard_over_sensitive_def prov_field_def
        sanitized_node_def max_sources_def broken_def py_or_def jget_Cons)
qed

section \<open>Less than documented\<close>

text \<open>A sanitised node without sources passes for standard material below an assembly, without its sanitiser
  being checked.\<close>

lemma sourceless_sanitized_is_standard:
  "decide_outcome pol [(''n'', (raw_node JNull)\<lparr>ln_class := ''sanitized_ok''\<rparr>), (''c'', machine_node [''n''] JNull)] ''c'' =
     Inr StandardOk"
proof -
  let ?g = "[(''n'', (raw_node JNull)\<lparr>ln_class := ''sanitized_ok''\<rparr>), (''c'', machine_node [''n''] JNull)]"
  have "resolve_sensitivity ?g [] ''c'' = Inr Standard" "assert_no_standard_over_sensitive ?g ''c'' = Inr ()" by code_simp+
  then show ?thesis by (simp add: decide_outcome_def lnode_at_def machine_node_def)
qed

text \<open>The construction proof sees only what the payload parses to: two payloads that parse alike, such as one that
  repeats a key, are both accepted or both refused.\<close>

lemma proof_sees_only_the_parse:
  "ge_loads ge u = ge_loads ge v \<Longrightarrow> isl (construction_proof ge ld u) = isl (construction_proof ge ld v)"
  by (cases "ge_loads ge v") (auto simp: construction_proof_def sbind_def split: sum.splits)

text \<open>A neutral token may end in a line break.\<close>

lemma token_with_newline: "neutral_token_ok (''PERSON-1'' @ [NL])"
  by code_simp

text \<open>Without a required lineage the declared tier decides.\<close>

lemma declared_tier_decides:
  "cx_graph cx = None \<Longrightarrow> \<not> cx_require cx \<Longrightarrow> resolve pol cx = Inr (DeclaredOk (cx_tier cx))"
  by (simp add: resolve_def)

end
