(* ===== verification/Its_Promises.thy ===== *)
theory Its_Promises
  imports Its_Assembly Egress_Promises
begin

text \<open>
  The engine and the guard agree: the packet and the context that an internal technical round assembles pass the
  guard's composition checks, so these never stop an honest round.
\<close>

section \<open>The registry during an assembly\<close>

text \<open>Every record lies under its own id, and a stored summary has the hash of the text that names it.\<close>

definition registry_ok :: "guard_env \<Rightarrow> derived_store \<Rightarrow> bool" where
  "registry_ok ge s =
     ((\<forall>aid rec. ds_files s aid = Some rec \<longrightarrow> is_obj rec \<and> jget (obj_of rec) ''artifact_id'' = JStr aid) \<and>
      (\<forall>n t rec. ds_files s (artifact_id ge ''rsum'' n t) = Some rec \<longrightarrow>
         jget (obj_of rec) ''content_sha256'' = JStr (content_sha ge t)))"

text \<open>No two summaries share an id unless they share their hash: twelve digits of SHA-256 do not collide.\<close>

definition ids_distinct :: "guard_env \<Rightarrow> bool" where
  "ids_distinct ge =
     (\<forall>n t n' t'. artifact_id ge ''rsum'' n t = artifact_id ge ''rsum'' n' t' \<longrightarrow> content_sha ge t = content_sha ge t')"

lemma ibind_Inr: "ibind m f s = (Inr y, s') \<longleftrightarrow> (\<exists>x s1. m s = (Inr x, s1) \<and> f x s1 = (Inr y, s'))"
  by (auto simp: ibind_def split: prod.splits sum.splits)

lemma istep_Inr [simp]:
  "ireturn x s = (Inr y, s') \<longleftrightarrow> y = x \<and> s' = s"
  "istop e s \<noteq> (Inr y, s')"
  "ilift r s = (Inr y, s') \<longleftrightarrow> r = Inr y \<and> s' = s"
  "irequire b why s = (Inr u, s') \<longleftrightarrow> b \<and> s' = s"
  "iguard f s = (Inr y, s') \<longleftrightarrow> f s = Inr y \<and> s' = s"
  by (auto simp: ireturn_def istop_def ilift_def irequire_def iguard_def split: sum.splits egress.splits)

text \<open>What is stored stays.\<close>

definition store_grows :: "derived_store \<Rightarrow> derived_store \<Rightarrow> bool" where
  "store_grows s s' = (\<forall>aid rec. ds_files s aid = Some rec \<longrightarrow> ds_files s' aid = Some rec)"

lemma store_grows_refl [simp]: "store_grows s s"
  by (simp add: store_grows_def)

lemma store_grows_trans: "store_grows s t \<Longrightarrow> store_grows t u \<Longrightarrow> store_grows s u"
  by (simp add: store_grows_def)

lemma register_summary_ok:
  assumes "register_derived ge ld fault now a s = (Inr rec, s')" and "da_kind a = ''round_summary''"
    and "registry_ok ge s" and "ids_distinct ge"
  shows "registry_ok ge s' \<and> store_grows s s' \<and>
    ds_files s' (artifact_id ge ''rsum'' (da_round a) (da_content a)) = Some rec"
proof -
  let ?id = "artifact_id ge ''rsum'' (da_round a) (da_content a)"
  let ?rec = "JObj (derived_record ge ld now ?id a)"
  have k: "map_of KIND_SHORT (da_kind a) = Some ''rsum''" using assms(2) by (simp add: KIND_SHORT_def)
  show ?thesis
  proof (cases "ds_files s ?id")
    case (Some r)
    then show ?thesis using assms(1,3) k by (simp add: register_derived_def)
  next
    case None
    then have s': "rec = ?rec" "ds_files s' = (ds_files s)(?id \<mapsto> ?rec)"
      using assms(1) k by (auto simp: register_derived_def persist_def Let_def split: sum.splits prod.splits if_splits)
    have r: "jget (derived_record ge ld now ?id a) ''artifact_id'' = JStr ?id"
      "jget (derived_record ge ld now ?id a) ''content_sha256'' = JStr (content_sha ge (da_content a))"
      by (simp_all add: derived_record_def jget_Cons split: prod.splits)
    have "is_obj rec' \<and> jget (obj_of rec') ''artifact_id'' = JStr aid" if "ds_files s' aid = Some rec'" for aid rec'
    proof (cases "aid = ?id")
      case True
      then have "rec' = ?rec" using that by (simp add: s'(2) True)
      then show ?thesis using r(1) True by simp
    next
      case False
      then show ?thesis using that assms(3) by (simp add: registry_ok_def s'(2))
    qed
    moreover have "jget (obj_of rec') ''content_sha256'' = JStr (content_sha ge t)"
      if "ds_files s' (artifact_id ge ''rsum'' n t) = Some rec'" for n t rec'
    proof (cases "artifact_id ge ''rsum'' n t = ?id")
      case True
      then have "content_sha ge t = content_sha ge (da_content a)" using assms(4) unfolding ids_distinct_def by blast
      moreover have "rec' = ?rec" using that by (simp add: s'(2) True)
      ultimately show ?thesis using r(2) by simp
    next
      case False
      then show ?thesis using that assms(3) by (simp add: registry_ok_def s'(2))
    qed
    ultimately have "registry_ok ge s'" unfolding registry_ok_def by blast
    then show ?thesis using None s' by (auto simp: store_grows_def)
  qed
qed

section \<open>Ids and hashes that frame\<close>

definition hashes_plain :: "guard_env \<Rightarrow> bool" where
  "hashes_plain ge = (\<forall>b. no_sep (ge_sha ge b))"

lemma no_sep_append [simp]: "no_sep (a @ b) \<longleftrightarrow> no_sep a \<and> no_sep b"
  by (auto simp: no_sep_def)

lemma no_sep_take: "no_sep s \<Longrightarrow> no_sep (take n s)"
  by (auto simp: no_sep_def dest: in_set_takeD)

lemma no_sep_chars [simp]: "no_sep [] " "no_sep (c # s) \<longleftrightarrow> c \<noteq> SEP \<and> c \<noteq> NL \<and> no_sep s"
  by (auto simp: no_sep_def)

lemma lit_no_sep [simp]: "no_sep ''its-rsum-r''" "no_sep ''ctx-''" "no_sep ITS_ROUND1" "no_sep ITS_FOLLOWUP"
  by (simp_all add: ITS_ROUND1_def ITS_FOLLOWUP_def SEP_def NL_def)

lemma artifact_id_plain: "hashes_plain ge \<Longrightarrow> no_sep (artifact_id ge ''rsum'' n t)"
proof -
  assume "hashes_plain ge"
  then have "no_sep (take 12 (content_sha ge t))" by (simp add: hashes_plain_def content_sha_def no_sep_take)
  moreover have "no_sep (two_digits n)" by (simp add: two_digits_def SEP_def NL_def)
  ultimately show ?thesis by (simp add: artifact_id_def SEP_def NL_def)
qed

section \<open>The nodes of the summaries\<close>

text \<open>Each component has a node with its content hash, and its record is stored with that hash.\<close>

definition covered :: "guard_env \<Rightarrow> derived_store \<Rightarrow> lgraph \<Rightarrow> string \<times> string \<Rightarrow> bool" where
  "covered ge s g c =
     (has_prefix ''its-'' (fst c) \<and> no_sep (fst c) \<and>
      (\<exists>n. lnode_at g (fst c) = Some n \<and> node_content_hash n = Inr (JStr (content_sha ge (snd c)))) \<and>
      (\<exists>rec. ds_files s (fst c) = Some rec \<and> jget (obj_of rec) ''content_sha256'' = JStr (content_sha ge (snd c))))"

lemma covered_store_grows: "covered ge s g c \<Longrightarrow> store_grows s s' \<Longrightarrow> covered ge s' g c"
  by (auto simp: covered_def store_grows_def)

lemma covered_put: "covered ge s g c \<Longrightarrow> i \<noteq> fst c \<Longrightarrow> covered ge s (put_node i n g) c"
  by (auto simp: covered_def put_node_def)

lemma covered_scaffold: "covered ge s g c \<Longrightarrow> covered ge s (scaffold_node env ver g) c"
  by (auto simp: scaffold_node_def intro: covered_put) (auto simp: covered_def put_node_def)

lemma derived_node_put:
  assumes "derived_node env r rec rd_no g = Inr g'" and "jget (obj_of rec) ''artifact_id'' = JStr aid"
  shows "\<exists>n. g' = put_node aid n g \<and> ln_hash n = JNull \<and>
    (\<exists>ob. ln_derived n = JObj ob \<and> ob \<noteq> [] \<and> jget ob ''content_hash'' = jget (obj_of rec) ''content_sha256'')"
proof -
  obtain src where "g' = put_node aid ((machine_node src JNull)\<lparr>ln_derived := JObj
       [(''content_hash'', jget (obj_of rec) ''content_sha256''), (''scan_passed'', JBool True),
        (''producer'', jget (obj_of rec) ''producer''), (''council_id'', JStr (ir_council r)), (''round'', rd_no),
        (''policy_version'', jget (obj_of rec) ''policy_version''),
        (''scaffold_version'', jget (obj_of rec) ''scaffold_version'')]\<rparr>) g"
    using assms
    by (auto simp: derived_node_def sbind_Inr_iff text_item_def broken_def py_item_Inr_iff split: sum.splits json.splits)
  then show ?thesis by (intro exI conjI) (auto simp: machine_node_def jget_Cons)
qed

lemma node_hash_derived:
  "ln_hash n = JNull \<Longrightarrow> ln_derived n = JObj ob \<Longrightarrow> ob \<noteq> [] \<Longrightarrow> jget ob ''content_hash'' = JStr h \<Longrightarrow>
    node_content_hash n = Inr (JStr h)"
  by (simp add: node_content_hash_def py_or_def)

text \<open>A derived node keeps what is covered: over the same id it has the hash of the same record.\<close>

lemma covered_derived:
  assumes "covered ge s g c" and "derived_node env r rec rd_no g = Inr g'" and "ds_files s aid = Some rec"
    and "registry_ok ge s"
  shows "covered ge s g' c"
proof -
  have aid: "jget (obj_of rec) ''artifact_id'' = JStr aid" using assms(3,4) by (simp add: registry_ok_def)
  obtain n ob where g': "g' = put_node aid n g" and n: "ln_hash n = JNull" "ln_derived n = JObj ob" "ob \<noteq> []"
    "jget ob ''content_hash'' = jget (obj_of rec) ''content_sha256''"
    using derived_node_put [OF assms(2) aid] by blast
  show ?thesis
  proof (cases "aid = fst c")
    case True
    then have "jget (obj_of rec) ''content_sha256'' = JStr (content_sha ge (snd c))"
      using assms(1,3) by (auto simp: covered_def)
    then have "node_content_hash n = Inr (JStr (content_sha ge (snd c)))" using n by (simp add: node_hash_derived)
    then show ?thesis using assms(1) True by (auto simp: covered_def g' put_node_def)
  next
    case False
    then show ?thesis using covered_put [OF assms(1)] by (simp add: g')
  qed
qed

lemma covered_derived_nodes:
  assumes "covered ge s g c" and "derived_nodes env r rd_no recs g = Inr g'" and "registry_ok ge s"
    and "\<forall>rec \<in> set recs. \<exists>aid. ds_files s aid = Some rec"
  shows "covered ge s g' c"
  using assms
proof (induction recs arbitrary: g)
  case (Cons rec recs)
  then obtain g1 where g1: "derived_node env r rec rd_no g = Inr g1" "derived_nodes env r rd_no recs g1 = Inr g'"
    by (auto simp: sbind_Inr_iff)
  obtain aid where "ds_files s aid = Some rec" using Cons.prems(4) by auto
  then have "covered ge s g1 c" using covered_derived [OF Cons.prems(1) g1(1)] Cons.prems(3) by blast
  then show ?case using Cons.IH g1(2) Cons.prems(3,4) by simp
qed simp

text \<open>The last record of a list has its node.\<close>

lemma derived_nodes_last:
  assumes "derived_nodes env r rd_no (recs @ [rec]) g = Inr g'" and "jget (obj_of rec) ''artifact_id'' = JStr aid"
    and "jget (obj_of rec) ''content_sha256'' = JStr h"
  shows "\<exists>n. lnode_at g' aid = Some n \<and> node_content_hash n = Inr (JStr h)"
  using assms(1)
proof (induction recs arbitrary: g)
  case Nil
  then have "derived_node env r rec rd_no g = Inr g'" by (simp add: sbind_Inr_iff)
  from derived_node_put [OF this assms(2)] show ?case using assms(3) by (auto simp: put_node_def node_hash_derived)
qed (auto simp: sbind_Inr_iff)

section \<open>One earlier round\<close>

lemma reusable_Inr: "reusable env v s = (Inr rec, s') \<Longrightarrow> s' = s \<and> (\<exists>aid. ds_files s aid = Some rec)"
  by (auto simp: reusable_def dest: reused_is_scanned split: json.splits)

lemma finding_id_Inr: "finding_id fids k s = (Inr v, s') \<Longrightarrow> s' = s"
  by (auto simp: finding_id_def ibind_Inr)

lemma prior_reconciliation_Inr:
  "prior_reconciliation env rd fids s = (Inr x, s') \<Longrightarrow> s' = s \<and> (\<forall>rec \<in> set (opt_list x). \<exists>aid. ds_files s aid = Some rec)"
  by (auto simp: prior_reconciliation_def ibind_Inr opt_list_def dest: reusable_Inr split: if_splits)

lemma recorded_content_Inr: "recorded_content env rec s = (Inr v, s') \<Longrightarrow> s' = s"
  by (auto simp: recorded_content_def split: json.splits option.splits)

lemma iregister_Inr:
  "iregister env a s = (Inr rec, s') \<longleftrightarrow>
     register_derived (ie_guard env) (ie_loaded env) (ie_fault env (da_content a)) (ie_now env) a s = (Inr rec, s')"
  by (auto simp: iregister_def split: prod.splits sum.splits)

lemma register_summary_Inr:
  assumes "register_summary env r rd_no scaffold t src s = (Inr rec, s')" and "registry_ok (ie_guard env) s"
    and "ids_distinct (ie_guard env)"
  shows "registry_ok (ie_guard env) s' \<and> store_grows s s' \<and> (\<exists>n. ds_files s' (artifact_id (ie_guard env) ''rsum'' n t) = Some rec)"
proof -
  obtain n where "register_derived (ie_guard env) (ie_loaded env) (ie_fault env t) (ie_now env)
      \<lparr>da_council = ir_council r, da_kind = ''round_summary'', da_producer = ''engine'', da_round = n,
       da_phase = ir_phase r, da_content = t, da_scaffold = scaffold, da_sources = src\<rparr> s = (Inr rec, s')"
    using assms(1) by (auto simp: register_summary_def ibind_Inr iregister_Inr)
  from register_summary_ok [OF this _ assms(2,3)] show ?thesis by auto
qed

lemma prior_findings_Inr:
  assumes "prior_findings env rd fids s = (Inr (grec, crec, rrec, src), s')"
  shows "s' = s \<and> (\<forall>rec \<in> set ([grec, crec] @ opt_list rrec). \<exists>aid. ds_files s aid = Some rec)"
  using assms
  by (auto simp: prior_findings_def ibind_Inr dest!: finding_id_Inr reusable_Inr prior_reconciliation_Inr)

lemma prior_text_Inr: "prior_text env rd_no grec crec rrec s = (Inr t, s') \<Longrightarrow> s' = s"
  by (auto simp: prior_text_def ibind_Inr dest!: recorded_content_Inr split: option.splits)

lemma prior_component_Inr:
  assumes "prior_component env r rd (g, cs) s = (Inr (g', cs'), s')" and ok: "registry_ok (ie_guard env) s"
    and "ids_distinct (ie_guard env)" and plain: "hashes_plain (ie_guard env)" and cov: "list_all (covered (ie_guard env) s g) cs"
  shows "registry_ok (ie_guard env) s' \<and> list_all (covered (ie_guard env) s' g') cs'"
proof -
  let ?ge = "ie_guard env" and ?no = "jget (obj_of rd) ''round''"
  obtain fids grec crec rrec src t scaffold srec sid s1 s2 where
    f: "prior_findings env rd fids s = (Inr (grec, crec, rrec, src), s1)"
    and t: "prior_text env ?no grec crec rrec s1 = (Inr t, s2)"
    and reg: "register_summary env r ?no scaffold t src s2 = (Inr srec, s')"
    and sid: "text_item srec ''artifact_id'' = Inr sid"
    and g': "derived_nodes env r ?no ([grec, crec] @ opt_list rrec @ [srec]) (scaffold_node env scaffold g) = Inr g'"
    and cs': "cs' = cs @ [(sid, t)]"
    using assms(1) by (auto simp: prior_component_def ibind_Inr Let_def)
  have s: "s1 = s" "s2 = s" using prior_findings_Inr [OF f] prior_text_Inr [OF t] by simp_all
  have st: "\<forall>rec \<in> set ([grec, crec] @ opt_list rrec). \<exists>aid. ds_files s aid = Some rec"
    using prior_findings_Inr [OF f] by simp
  obtain n where ok': "registry_ok ?ge s'" and gr: "store_grows s s'"
    and srec: "ds_files s' (artifact_id ?ge ''rsum'' n t) = Some srec"
    using register_summary_Inr [OF reg [unfolded s] ok assms(3)] by blast
  have aid: "jget (obj_of srec) ''artifact_id'' = JStr (artifact_id ?ge ''rsum'' n t)"
    and sha: "jget (obj_of srec) ''content_sha256'' = JStr (content_sha ?ge t)"
    using ok' srec by (simp_all add: registry_ok_def)
  have sid': "sid = artifact_id ?ge ''rsum'' n t"
    using sid aid by (auto simp: text_item_def broken_def sbind_def py_item_def split: sum.splits json.splits if_splits)
  have st': "\<forall>rec \<in> set ([grec, crec] @ opt_list rrec @ [srec]). \<exists>aid. ds_files s' aid = Some rec"
    using st gr srec unfolding store_grows_def by fastforce
  have "covered ?ge s' g' c" if "c \<in> set cs" for c
  proof (rule covered_derived_nodes [OF _ g' ok' st'])
    show "covered ?ge s' (scaffold_node env scaffold g) c"
      using cov that gr by (auto simp: list_all_iff intro: covered_scaffold covered_store_grows)
  qed
  moreover have "covered ?ge s' g' (sid, t)"
    using derived_nodes_last [of env r ?no "[grec, crec] @ opt_list rrec" srec _ g', OF _ aid sha] g' srec sha
      artifact_id_plain [OF plain] by (auto simp: covered_def sid') (simp add: artifact_id_def has_prefix_def)
  ultimately show ?thesis using ok' by (auto simp: cs' list_all_iff)
qed

lemma prior_components_Inr:
  assumes "prior_components env r rds (g, cs) s = (Inr (g', cs'), s')" and "registry_ok (ie_guard env) s"
    and "ids_distinct (ie_guard env)" and "hashes_plain (ie_guard env)" and "list_all (covered (ie_guard env) s g) cs"
  shows "list_all (covered (ie_guard env) s' g') cs'"
  using assms
proof (induction rds arbitrary: g cs s)
  case (Cons rd rds)
  obtain g1 cs1 s1 where c: "prior_component env r rd (g, cs) s = (Inr (g1, cs1), s1)"
    and rest: "prior_components env r rds (g1, cs1) s1 = (Inr (g', cs'), s')"
    using Cons.prems(1) by (auto simp: ibind_Inr)
  show ?case using Cons.IH [OF rest] prior_component_Inr [OF c Cons.prems(2-5)] Cons.prems(3,4) by blast
qed simp


section \<open>The assembled round\<close>

definition scaffolds_ok :: "guard_env \<Rightarrow> scaffolds \<Rightarrow> bool" where
  "scaffolds_ok ge scs = list_all (\<lambda>(v, sc). sc_sha sc = content_sha ge (sc_text sc)) scs"

lemma register_scaffold_ok:
  "scaffolds_ok ge scs \<Longrightarrow> scaffolds_ok ge (register_its_scaffold ge v t scs)"
  by (induction scs) (auto simp: scaffolds_ok_def register_its_scaffold_def content_sha_def)

text \<open>A candidate's name is none of an artifact or of a context.\<close>

definition plain_candidate :: "string option \<Rightarrow> bool" where
  "plain_candidate c =
     (case c of None \<Rightarrow> True | Some n \<Rightarrow> \<not> has_prefix ''its-'' n \<and> \<not> has_prefix ''ctx-'' n)"

lemma its_start_Inr: "its_start env r s = (Inr (g, c), s') \<Longrightarrow> s' = s \<and> ir_candidate r = Some c"
  by (auto simp: its_start_def ibind_Inr split: option.splits)

lemma bound_graph_covers:
  assumes "covered ge s g c" and "cand \<noteq> fst c"
  shows "covered ge s (bound_graph env r cand ex domain sums v g) c"
proof -
  have "\<not> has_prefix ''its-'' (ctx_id env r)" by (simp add: ctx_id_def has_prefix_def)
  then have "ctx_id env r \<noteq> fst c" using assms(1) by (auto simp: covered_def)
  then show ?thesis using assms
    by (auto simp: bound_graph_def Let_def intro!: covered_put covered_scaffold)
qed

lemma bound_graph_ctx:
  assumes "cand \<noteq> ctx_id env r"
  shows "\<exists>n. lnode_at (bound_graph env r cand ex domain sums v g) (ctx_id env r) = Some n \<and>
    node_content_hash n = Inr (JStr (content_sha (ie_guard env) (ir_context r)))"
  using assms by (auto simp: bound_graph_def Let_def put_node_def scaffold_node_def node_content_hash_def)

lemma bound_graph_sources:
  "k \<in> set sums \<or> k = ctx_id env r \<Longrightarrow> made_of (bound_graph env r cand ex domain sums v g) cand k"
  by (auto simp: made_of_def bound_graph_def Let_def put_node_def machine_node_def)

text \<open>The components of an assembly are bound.\<close>

lemma component_bound:
  assumes "made_of g cand i" and "lnode_at g i = Some n" and "node_content_hash n = Inr (JStr h)"
  shows "bind_component g (reachable_from g cand) \<lparr>cm_id = i, cm_sha = h\<rparr> = Inr ()"
  using assms by (auto simp: bind_component_def reachable_from_iff broken_def)

lemma map_exc_units: "\<forall>x \<in> set xs. f x = Inr () \<Longrightarrow> map_exc f xs = Inr (map (\<lambda>_. ()) xs)"
  by (induction xs) auto

lemma its_context_Inr:
  assumes "its_context env r s = (Inr (packet, cx), s')"
  obtains g cand existing domain version g1 cs mf where "its_start env r s = (Inr (g, cand), s)"
    and "ir_candidate r = Some cand"
    and "prior_components env r (substantive_rounds (ir_prior r)) (g, []) s = (Inr (g1, cs), s')"
    and "version \<in> {ITS_ROUND1, ITS_FOLLOWUP}"
    and "build_its_packet (ie_guard env) (ie_scaffolds env) version (cs @ [(ctx_id env r, ir_context r)]) = Inr (packet, mf)"
    and "cx_graph cx = Some (bound_graph env r cand existing domain (map fst cs) version g1)" and "cx_candidate cx = Some cand"
    and "cx_its cx = Some (mf\<lparr>co_binding := [(''gpt_model'', ir_model r), (''max_output_tokens'', JInt 4000)]\<rparr>)"
proof -
  obtain g cand g1 cs mf where st: "its_start env r s = (Inr (g, cand), s)" "ir_candidate r = Some cand"
    and rest: "prior_components env r (substantive_rounds (ir_prior r)) (g, []) s = (Inr (g1, cs), s')"
      "build_its_packet (ie_guard env) (ie_scaffolds env)
        (if substantive_rounds (ir_prior r) = [] then ITS_ROUND1 else ITS_FOLLOWUP) (cs @ [(ctx_id env r, ir_context r)]) =
        Inr (packet, mf)"
    and cx: "egress_context ''internal_technical'' (Some (bound_graph env r cand
        (case lnode_at g cand of None \<Rightarrow> [] | Some n \<Rightarrow> ln_sources n)
        (case lnode_at g cand of None \<Rightarrow> JNull | Some n \<Rightarrow> ln_domain n) (map fst cs)
        (if substantive_rounds (ir_prior r) = [] then ITS_ROUND1 else ITS_FOLLOWUP) g1)) (Some cand) (ir_bindings r) True
        ''internal_technical'' (Some (mf\<lparr>co_binding := [(''gpt_model'', ir_model r), (''max_output_tokens'', JInt 4000)]\<rparr>)) =
        Inr cx"
    using assms its_start_Inr [of env r s] unfolding its_context_def
    by (auto simp: ibind_Inr Let_def split: prod.splits)
  show thesis
    by (rule that [OF st rest(1) _ rest(2)]) (use cx in \<open>auto simp: egress_context_def\<close>)
qed

lemma prompt_packet:
  "its_packet_of ge scs ins mf (Prompt (build_its_codex_prompt ins packet)) =
     map_option (\<lambda>r. sbind r (\<lambda>_. Inr packet)) (verify_its_composition ge scs packet mf)"
proof -
  define pre where "pre = in_its_codex ins @ [NL, NL]"
  have p: "build_its_codex_prompt ins x = pre @ x" for x by (simp add: build_its_codex_prompt_def pre_def)
  show ?thesis by (simp add: Let_def pre_def [symmetric] p)
qed

lemma assembled_round_binds:
  assumes a: "its_context env r s = (Inr (packet, cx), s')" and "registry_ok (ie_guard env) s"
    and "ids_distinct (ie_guard env)" and h: "hashes_plain (ie_guard env)" and sc: "scaffolds_ok (ie_guard env) (ie_scaffolds env)"
    and c: "plain_candidate (ir_candidate r)"
  shows "enforce_its (ie_guard env) (ie_scaffolds env) ins cx (Prompt (build_its_codex_prompt ins packet)) = Some (Inr ())"
proof -
  let ?ge = "ie_guard env"
  obtain g cand ex domain v g1 cs mf where st: "ir_candidate r = Some cand"
    and pc: "prior_components env r (substantive_rounds (ir_prior r)) (g, []) s = (Inr (g1, cs), s')"
    and v: "v \<in> {ITS_ROUND1, ITS_FOLLOWUP}"
    and b: "build_its_packet ?ge (ie_scaffolds env) v (cs @ [(ctx_id env r, ir_context r)]) = Inr (packet, mf)"
    and cx: "cx_graph cx = Some (bound_graph env r cand ex domain (map fst cs) v g1)" "cx_candidate cx = Some cand"
      "cx_its cx = Some (mf\<lparr>co_binding := [(''gpt_model'', ir_model r), (''max_output_tokens'', JInt 4000)]\<rparr>)"
    using a by (rule its_context_Inr)
  have cov: "list_all (covered ?ge s' g1) cs" using prior_components_Inr [OF pc assms(2,3) h] by simp
  have cand: "\<not> has_prefix ''its-'' cand" "\<not> has_prefix ''ctx-'' cand" using c by (simp_all add: plain_candidate_def st)
  have ctx: "cand \<noteq> ctx_id env r" "no_sep (ctx_id env r)"
    using cand h by (auto simp: ctx_id_def has_prefix_def hashes_plain_def content_sha_def no_sep_take SEP_def NL_def)
  have comps: "co_components mf = map (\<lambda>(i, t). \<lparr>cm_id = i, cm_sha = ge_sha ?ge (utf8 t)\<rparr>) (cs @ [(ctx_id env r, ir_context r)])"
    using b by (auto simp: build_its_packet_def split: option.splits)
  have "sc_sha x = content_sha ?ge (sc_text x)" if "map_of (ie_scaffolds env) v = Some x" for x
    using sc map_of_SomeD [OF that] by (auto simp: scaffolds_ok_def list_all_iff)
  then have sc': "\<forall>x. map_of (ie_scaffolds env) v = Some x \<longrightarrow> no_sep (sc_sha x) \<and> sc_sha x = ge_sha ?ge (utf8 (sc_text x))"
    using h by (simp add: hashes_plain_def content_sha_def)
  have "frameable ?ge (ie_scaffolds env) v (cs @ [(ctx_id env r, ir_context r)])"
    using v h sc' cov ctx by (auto simp: frameable_def hashes_plain_def list_all_iff covered_def split: option.splits)
  then have verified: "verify_its_composition ?ge (ie_scaffolds env) packet (mf\<lparr>co_binding := x\<rparr>) =
      Some (Inr (v, length (cs @ [(ctx_id env r, ir_context r)])))" for x
    using built_packet_verdict [OF b] by (auto simp: comps)
  let ?g = "bound_graph env r cand ex domain (map fst cs) v g1"
  have "bind_component ?g (reachable_from ?g cand) \<lparr>cm_id = i, cm_sha = ge_sha ?ge (utf8 t)\<rparr> = Inr ()"
    if "(i, t) \<in> set (cs @ [(ctx_id env r, ir_context r)])" for i t
  proof (cases "(i, t) \<in> set cs")
    case True
    then have cv: "covered ?ge s' g1 (i, t)" using cov by (auto simp: list_all_iff)
    then have "cand \<noteq> i" using cand by (auto simp: covered_def)
    then have "covered ?ge s' ?g (i, t)" using bound_graph_covers [OF cv] by simp
    moreover have "made_of ?g cand i" using True by (intro bound_graph_sources) force
    ultimately show ?thesis by (auto simp: covered_def content_sha_def intro: component_bound)
  next
    case False
    then have "i = ctx_id env r" "t = ir_context r" using that by auto
    then show ?thesis
      using bound_graph_ctx [OF ctx(1), of ex domain "map fst cs" v g1] bound_graph_sources [of i "map fst cs" env r cand ex domain v g1]
      by (auto simp: content_sha_def intro: component_bound)
  qed
  then have "map_exc (bind_component ?g (reachable_from ?g cand)) (co_components mf) = Inr (map (\<lambda>_. ()) (co_components mf))"
    by (intro map_exc_units) (auto simp: comps)
  then have "bind_components cx (mf\<lparr>co_binding := x\<rparr>) = Inr ()" for x by (simp add: bind_components_def cx)
  then show ?thesis
    by (simp add: enforce_its_def cx prompt_packet verified del: its_packet_of.simps)
qed


section \<open>Promises\<close>



definition parity_guard :: guard_env where
  "parity_guard = eg_env\<lparr>ge_sha := (\<lambda>b. replicate 64 (if even (length b) then CHR ''a'' else CHR ''b'')),
     ge_loads := (\<lambda>t. if t = ''P'' then Some demo_policy else Some JNull)\<rparr>"

definition parity_env :: its_env where
  "parity_env = \<lparr>ie_guard = parity_guard, ie_loaded = demo_loaded,
     ie_scaffolds = register_its_scaffold parity_guard ITS_FOLLOWUP ''F'' (register_its_scaffold parity_guard ITS_ROUND1 ''R'' []),
     ie_fault = (\<lambda>t. NoFault), ie_now = ''now'', ie_summary = (\<lambda>n g c rec. Inr ''Round 1: agreed'')\<rparr>"

definition finding_record :: "string \<Rightarrow> string \<Rightarrow> json" where
  "finding_record aid t = JObj [(''artifact_id'', JStr aid), (''scan'', JObj [(''passed'', JBool True)]), (''content'', JStr t),
     (''content_sha256'', JStr (content_sha parity_guard t)), (''source_ids'', JArr [JStr ''s''])]"

definition parity_store :: derived_store where
  "parity_store = \<lparr>ds_files = map_of [(''fg'', finding_record ''fg'' ''v1''), (''fc'', finding_record ''fc'' ''v22'')], ds_index = None\<rparr>"

definition parity_round :: its_round where
  "parity_round = \<lparr>ir_council = ''c1'', ir_phase = JStr ''plan'', ir_artifacts = [], ir_profile = JStr ''code'',
     ir_stamp = JStr (content_sha parity_guard ''the context''), ir_lineage = JArr (to_records demo_graph),
     ir_candidate = Some ''cand'', ir_bindings = [], ir_context = ''the context'',
     ir_prior = [JObj [(''round'', JInt 1), (''substantive'', JBool True), (''its'', JObj [(''scaffold_version'', JStr ITS_ROUND1),
       (''artifact_ids'', JObj [(''gpt'', JStr ''fg''), (''codex'', JStr ''fc'')])])]],
     ir_model = JStr ''m''\<rparr>"

lemma parity_ids: "ids_distinct parity_guard"
  unfolding ids_distinct_def
proof (intro allI impI)
  fix n t n' t'
  assume "artifact_id parity_guard ''rsum'' n t = artifact_id parity_guard ''rsum'' n' t'"
  then have "(two_digits n @ ''-'') @ take 12 (content_sha parity_guard t) =
      (two_digits n' @ ''-'') @ take 12 (content_sha parity_guard t')" by (simp add: artifact_id_def)
  then have "take 12 (content_sha parity_guard t) = take 12 (content_sha parity_guard t')"
    by (subst (asm) append_eq_append_conv) (simp_all add: content_sha_def parity_guard_def)
  then show "content_sha parity_guard t = content_sha parity_guard t'"
    by (auto simp: content_sha_def parity_guard_def split: if_splits)
qed

lemma parity_registry: "registry_ok parity_guard parity_store"
  by (auto simp: registry_ok_def parity_store_def finding_record_def jget_Cons artifact_id_def split: if_splits)


end
