(* ===== verification/Spec2Isabelle.thy ===== *)
theory Spec2Isabelle
  imports Queue_System Council_Safety Lock_Safety Gate_Safety Archive_Safety Archive_Control Archive_Read Work_Derived
    Its_Promises
begin

text \<open>
  ClearWright: a verification development.

  \<^bold>\<open>The program.\<close> ClearWright is a file-backed clearance workflow for agents. A packet (a JSON
  document in one of the directories \<open>inbox\<close>, \<open>outbox\<close>, \<open>working\<close>, \<open>rejected\<close>, \<open>archive\<close>) is requested,
  cleared or denied by an operator, claimed by a worker, and completed or failed. Round that queue stand
  a council of reviewers that must agree before a clearance counts as ready, gates that block a work item
  until the operator decides, an append-only communications log on which workers and operators answer one
  another, a derived list of work items that joins packets, messages, gates and councils, and an archive
  that moves closed records away while nobody writes. All of them are command-line tools in \<open>tools/\<close>
  that share one queue root on disk; the processes coordinate through exclusive file creation, renames,
  writer tokens and one exclusive archive flag.

  \<^bold>\<open>How the parts depend on each other.\<close> \<open>clearwright_work.py\<close> derives items from everything else and
  writes only through the message log and the claim tool; before each write it heals and reads the gates.
  \<open>clearwright_gate.py\<close> reads the council store and the message log and notes failures on that log.
  \<open>clearwright_message.py\<close>, \<open>clearwright_gate.py\<close> and \<open>clearwright_identity.py\<close> write under a token
  of \<open>clearwright_writer_lock.py\<close>; \<open>clearwright_archive.py\<close> takes the exclusive side of the same lock.
  The packet tools \<open>clearwright_claim.py\<close>, \<open>_decide.py\<close>, \<open>_lifecycle.py\<close> and \<open>_request.py\<close> share the
  validator and the exclusive writer, and \<open>clearwright_review_council.py\<close> calls the verdict contract and
  the dispatch preflight.

  \<^bold>\<open>Theories.\<close>

  \<^item> \<open>Py_Prelude\<close>, \<open>Py_Access\<close>: JSON values and Python's operations on them (truth, \<open>str\<close>, \<open>get\<close>, item and
    attribute access with the exceptions they raise, \<open>strip\<close>, \<open>lower\<close>, \<open>splitlines\<close>), result monads, the
    locales \<open>kept_by_steps\<close> (an invariant along a step relation) and \<open>step_simulation\<close> (a refinement of
    one relation by another), and the collections of automation the components share.
  \<^item> \<open>Os_Files\<close>: the file system of the packet tools: a \<open>world\<close> maps paths to whole documents or torn ones
    and carries a schedule of faults. Each creation, write, replacement and removal asks the schedule
    whether it fails, so every theorem about a tool holds for every pattern of failures.
  \<^item> \<open>Packet_Validate\<close> (\<open>clearwright_validate.py\<close>), \<open>Packet_Claim\<close> (\<open>clearwright_claim.py\<close>), \<open>Packet_Decide\<close>
    (\<open>clearwright_decide.py\<close>), \<open>Packet_Lifecycle\<close> (\<open>clearwright_lifecycle.py\<close>), \<open>Packet_Request\<close>
    (\<open>clearwright_request.py\<close>): one definition per function, exit codes and refusals included. The
    locales \<open>queue_tool\<close> and \<open>queue_move\<close> of \<open>Packet_Claim\<close> state what a tool may do to the file system; each
    tool interprets one of them on its own definition.
  \<^item> \<open>Queue_System\<close>: all packet tools as one step relation \<open>queue_step\<close> over one world, in any order, with
    any arguments and faults. Its properties say that the queue stays sound (names, lanes and statuses
    agree), closed packets are final, statuses follow the protocol \<open>edge\<close>, no packet is claimed twice, and
    a move never loses the packet, and that a fault-free run of clear, claim and complete succeeds.
  \<^item> \<open>Review_Verdict\<close> (\<open>clearwright_verdict.py\<close>), \<open>Dispatch_Preflight\<close> (\<open>clearwright_dispatch_preflight.py\<close>):
    the contract of reviewer replies and the eligibility of a dispatch. What validation accepts is
    typed, and validating it again changes nothing.
  \<^item> \<open>Council_Agreement\<close>, \<open>Council_Store\<close>, \<open>Review_Rounds\<close>, \<open>Council_System\<close>, \<open>Council_Safety\<close>
    (\<open>clearwright_review_council.py\<close>): the agreement rule with every exception it can raise and its
    equivalence with a declarative reading; the atomic document writer with its bounded rename retries;
    councils, grants and rounds; the commands as the relation \<open>council_step\<close> in which a process may die
    between any two writes; round and attempt bounds and the commit of a round.
  \<^item> \<open>Writer_Lock\<close>, \<open>Lock_Safety\<close> (\<open>clearwright_writer_lock.py\<close>): tokens, the exclusive flag, stale-owner
    recovery and its records. \<open>lock_step\<close> interleaves the critical sections of any number of processes that
    start, die and reuse process ids; writers and an archiver exclude each other, and recovery takes over
    only from an owner proved dead or by a recorded decision.
  \<^item> \<open>Message_Store\<close>, \<open>Message_Safety\<close> (\<open>clearwright_message.py\<close>): building, appending, reading, idempotent
    keyed messages. The relation \<open>appends P\<close> says that a store only gained messages satisfying \<open>P\<close>; the
    gate and work theories use it for what they write.
  \<^item> \<open>Gate_Identity\<close>, \<open>Gate_Store\<close>, \<open>Gate_Escalation\<close>, \<open>Gate_Safety\<close> (\<open>clearwright_gate.py\<close>): the identity of
    subjects and escalations, records and their dispositions, authority, and the healing sweep that gives
    every escalated council a gate or a failure notice. \<open>gate_step\<close> is one operation of any agent or
    operator.
  \<^item> \<open>Work_Identity\<close> (\<open>clearwright_identity.py\<close>), \<open>Work_View\<close>, \<open>Work_Items\<close>, \<open>Work_Actions\<close>, \<open>Work_Safety\<close>,
    \<open>Work_Derived\<close> (\<open>clearwright_work.py\<close>): origins and the legacy manifest, the derived list with all its
    fields, and claim, respond and progress. The state \<open>wsys\<close> extends the state of the gates, which
    extends that of the messages, so the facts about those apply unchanged.
  \<^item> \<open>Archive_Journal\<close>, \<open>Archive_Recovery\<close>, \<open>Archive_Safety\<close> (\<open>clearwright_archive.py\<close>): the journalled
    move with its completion log, recovery, manifest and index, and the reading of archived threads. The
    abstract archive moves approved items atomically; the detailed operations are shown to refine it with
    \<open>step_simulation\<close>, and recovery to finish what a crash left.

  \<^bold>\<open>State.\<close> A record of Python that is a JSON document stays one (\<open>jobj\<close>, an association list in insertion
  order, so duplicates and order are those of the code). A directory tree is a map from paths to contents.
  The log of messages is a list of files in write order. The state of a component is a HOL record that is
  passed along (\<open>world\<close>, \<open>cstore\<close>, \<open>lock_sys\<close>, \<open>comms\<close>, \<open>gsys\<close>, \<open>wsys\<close>, \<open>archive\<close>), and every operation returns it
  with a sum of the exception or refusal and the result. A partially executed operation returns the state
  it reached.

  \<^bold>\<open>What one step is.\<close> The packet tools are modelled call by call on the file system, each call with its own
  fault. The commands of the council are modelled write by write, with a crash possible after each one.
  The archive is modelled call by call too, each call with a mishap out of \<open>mishap\<close> (it works, it
  fails, it tears the file it writes, or the process dies in it). Lock operations are one step each: they
  run under the registry mutex of the lock file. Message writes create their file exclusively and are one
  step. A gate operation or a work operation is one step; two writers of one gate file that interleave are
  treated by the lemma \<open>interleaved_writes_lose_a_gate\<close>, which shows that this is an assumption the code
  does not enforce.

  \<^bold>\<open>Loops, bounds and fuel.\<close> Loops over lists are structural recursion. Retries are bounded in the code and so
  here: six renames of the document writer (\<open>REPLACE_RETRY_DELAYS\<close>), the attempts of a reviewer call with what
  grants add (\<open>attempt_loop\<close>, whose measure is the attempts left), a thousand names for a message file
  (\<open>free_name\<close>), and the passes of \<open>acquire_exclusive\<close>, which end with the schedule that stands for its deadline.
  No definition takes fuel that could run out. Python's integers are unbounded and are \<open>int\<close> here; floats are
  read as decimals (\<open>pyfloat\<close>) and only compared.

  \<^bold>\<open>Parameters.\<close> What the source takes from elsewhere is an argument or a field of an environment record:
  clocks and \<open>strftime\<close>, \<open>datetime.fromisoformat\<close>, \<open>json.loads\<close>, \<open>sha256\<close>, \<open>str.casefold\<close>, environment
  variables, process ids and the answers of the operating system about other processes (\<open>os_view\<close>), file
  faults, replies of reviewers, the iteration order of a Python set. Nothing is assumed of them except in
  the hypotheses of the properties that need it: \<open>os_sound\<close> (the operating system never reports a live
  process dead), an injective digest where contents are recovered from hashes, and the well-formedness
  of a concrete environment in witnesses.

  \<^bold>\<open>Lemma groups.\<close> For each component: what an operation leaves alone (locality), what it does on each
  branch (effect), and an invariant that all its operations keep, lifted to runs by an interpretation of
  \<open>kept_by_steps\<close>. The numbered properties C1 to C40 rest on these. Lemmas with the word witness in
  their names evaluate a property on a concrete run. Some further lemmas show behaviour
  that differs from what the code or its documents intend; each says so in its text.

  \<^bold>\<open>Not modelled.\<close> Printing, argument parsing and usage messages of every tool. \<open>clearwright_artifacts.py\<close> and
  \<open>clearwright_its_artifacts.py\<close> (they copy files and call text extractors), \<open>clearwright_egress_guard.py\<close>
  (a pattern policy at the network boundary, a parameter of a review round), the reviewer adapters
  \<open>clearwright_gpt_review.py\<close> and \<open>clearwright_codex_review.py\<close> (network and subprocess calls, a parameter
  of a round), the assembly of prompts and context packages, the ALF tools (an observation store beside
  the clearance core), the server and its supervision and the browser client (front ends of the tools
  here), the drivers \<open>clearwright_use_cw.py\<close>, \<open>clearwright_worker.py\<close>, \<open>clearwright_agent_event.py\<close>,
  \<open>clearwright_proof.py\<close> and the skill installer (they run the tools and print), \<open>worker_status\<close> (counts
  for display), the rotation of server logs (a copy and truncation of files no other part reads), the SQL
  schema and the samples.
\<close>

end
